(* ===== verification/Prelude.thy ===== *)
theory Prelude
  imports Main "HOL-Library.Word" "HOL-Library.Sublist"
begin

text \<open>
  Shared vocabulary of the development: byte buffers, JavaScript strings and their
  operations, JavaScript \<open>Map\<close> objects as association lists in insertion order,
  and the generic lemmas the component theories share.  Strings are lists of
  code units below 256 (identifiers, header names and paths of the modelled code are ASCII);
  times are integers in milliseconds.
\<close>

named_theorems js_map_simps "lookup after update on JavaScript maps"
named_theorems bytes_simps "length and indexing facts on byte buffers"

section \<open>Bytes\<close>

type_synonym byte = "8 word"
type_synonym buffer = "byte list"

section \<open>JavaScript strings\<close>

text \<open>A string or \<open>undefined\<close>/\<open>null\<close> used as a condition: absent and empty are falsy.\<close>

fun truthy :: "string option \<Rightarrow> bool" where
  "truthy None = False"
| "truthy (Some s) = (s \<noteq> [])"

lemma truthy_iff: "truthy x \<longleftrightarrow> (\<exists>s. x = Some s \<and> s \<noteq> [])"
  by (cases x) auto

text \<open>\<open>s.startsWith(p)\<close>.\<close>

definition starts_with :: "string \<Rightarrow> string \<Rightarrow> bool" where
  "starts_with s p = (take (length p) s = p)"

lemma starts_with_append [simp]: "starts_with (p @ s) p"
  by (simp add: starts_with_def)

lemma starts_with_iff: "starts_with s p \<longleftrightarrow> (\<exists>r. s = p @ r)"
  by (metis append_take_drop_id append_eq_conv_conj starts_with_def)

lemma starts_with_drop: "starts_with s p \<Longrightarrow> p @ drop (length p) s = s"
  by (metis append_take_drop_id starts_with_def)

text \<open>\<open>s.split(c)\<close> for a one-character separator: never the empty list.\<close>

fun split_on :: "char \<Rightarrow> string \<Rightarrow> string list" where
  "split_on c [] = [[]]"
| "split_on c (x # xs) =
     (if x = c then [] # split_on c xs
      else (case split_on c xs of [] \<Rightarrow> [[x]] | w # ws \<Rightarrow> (x # w) # ws))"

text \<open>\<open>parts.join(c)\<close>.\<close>

fun join_on :: "char \<Rightarrow> string list \<Rightarrow> string" where
  "join_on c [] = []"
| "join_on c [w] = w"
| "join_on c (w # v # ws) = w @ c # join_on c (v # ws)"

lemma split_on_nonempty [simp]: "split_on c s \<noteq> []"
  by (induction s) (auto split: list.splits)

lemma join_split [simp]: "join_on c (split_on c s) = s"
proof (induction s)
  case (Cons x xs)
  then show ?case
    by (cases "split_on c xs"; cases "tl (split_on c xs)") auto
qed simp

lemma split_on_notin: "c \<notin> set s \<Longrightarrow> split_on c s = [s]"
  by (induction s) auto

lemma split_on_append: "c \<notin> set s \<Longrightarrow> split_on c (s @ c # t) = s # split_on c t"
  by (induction s) auto

text \<open>\<open>s.toLowerCase()\<close> on the ASCII range.\<close>

definition lower_char :: "char \<Rightarrow> char" where
  "lower_char c = (if 65 \<le> (of_char c :: nat) \<and> (of_char c :: nat) \<le> 90
                   then char_of ((of_char c :: nat) + 32) else c)"

definition to_lower :: "string \<Rightarrow> string" where
  "to_lower s = map lower_char s"

text \<open>\<open>s.trim()\<close>: the JavaScript white space and line terminators below 256.\<close>

definition is_ws :: "char \<Rightarrow> bool" where
  "is_ws c = ((of_char c :: nat) \<in> {9, 10, 11, 12, 13, 32, 160})"

definition trim :: "string \<Rightarrow> string" where
  "trim s = rev (dropWhile is_ws (rev (dropWhile is_ws s)))"

definition is_lower_alnum :: "char \<Rightarrow> bool" where
  "is_lower_alnum c = (let n = (of_char c :: nat) in (48 \<le> n \<and> n \<le> 57) \<or> (97 \<le> n \<and> n \<le> 122))"

section \<open>JavaScript maps\<close>

text \<open>
  \<open>Map\<close>: keys in insertion order; \<open>set\<close> on a present key keeps its position, \<open>delete\<close>
  removes the key.  Lookup is \<open>map_of\<close>.
\<close>

type_synonym ('k, 'v) js_map = "('k \<times> 'v) list"

fun map_set :: "'k \<Rightarrow> 'v \<Rightarrow> ('k, 'v) js_map \<Rightarrow> ('k, 'v) js_map" where
  "map_set k v [] = [(k, v)]"
| "map_set k v ((k', v') # m) = (if k' = k then (k, v) # m else (k', v') # map_set k v m)"

definition map_delete :: "'k \<Rightarrow> ('k, 'v) js_map \<Rightarrow> ('k, 'v) js_map" where
  "map_delete k m = filter (\<lambda>p. fst p \<noteq> k) m"

definition map_wf :: "('k, 'v) js_map \<Rightarrow> bool" where
  "map_wf m = distinct (map fst m)"

lemma map_of_set [js_map_simps, simp]: "map_of (map_set k v m) = (map_of m)(k \<mapsto> v)"
  by (induction k v m rule: map_set.induct) auto

lemma map_of_delete [js_map_simps, simp]: "map_of (map_delete k m) = (map_of m)(k := None)"
  by (induction m) (auto simp: map_delete_def fun_eq_iff)

lemma fst_set_map_set [simp]: "fst ` set (map_set k v m) = insert k (fst ` set m)"
  by (induction k v m rule: map_set.induct) auto

lemma fst_set_map_delete [simp]: "fst ` set (map_delete k m) = fst ` set m - {k}"
  by (auto simp: map_delete_def)

lemma map_wf_Nil [simp]: "map_wf []"
  by (simp add: map_wf_def)

lemma map_wf_set [simp]: "map_wf m \<Longrightarrow> map_wf (map_set k v m)"
  by (induction k v m rule: map_set.induct) (auto simp: map_wf_def)

lemma map_wf_filter [simp]: "map_wf m \<Longrightarrow> map_wf (filter P m)"
  by (induction m) (auto simp: map_wf_def)

lemma map_wf_delete [simp]: "map_wf m \<Longrightarrow> map_wf (map_delete k m)"
  by (simp add: map_delete_def)

lemma map_set_present: "map_of m k \<noteq> None \<Longrightarrow> length (map_set k v m) = length m"
  by (induction k v m rule: map_set.induct) auto

lemma map_set_absent: "map_of m k = None \<Longrightarrow> map_set k v m = m @ [(k, v)]"
  by (induction k v m rule: map_set.induct) (auto split: if_splits)

lemma length_map_delete: "length (map_delete k m) \<le> length m"
  by (simp add: map_delete_def)

lemma map_delete_absent: "map_of m k = None \<Longrightarrow> map_delete k m = m"
  by (induction m) (auto simp: map_delete_def split: if_splits)

text \<open>Counting the entries of a map that satisfy a predicate.\<close>

definition count_map :: "('k \<Rightarrow> 'v \<Rightarrow> bool) \<Rightarrow> ('k, 'v) js_map \<Rightarrow> nat" where
  "count_map P m = length (filter (\<lambda>(k, v). P k v) m)"

lemma count_map_Nil [simp]: "count_map P [] = 0"
  by (simp add: count_map_def)

lemma count_map_set_absent:
  "map_of m k = None \<Longrightarrow> count_map P (map_set k v m) = count_map P m + (if P k v then 1 else 0)"
  by (simp add: map_set_absent count_map_def)

lemma count_map_set_present:
  assumes "map_of m k = Some u" "map_wf m"
  shows "count_map P (map_set k v m) + (if P k u then 1 else 0)
           = count_map P m + (if P k v then 1 else 0)"
  using assms
proof (induction k v m rule: map_set.induct)
  case (2 k v k' v' m)
  then show ?case by (auto simp: count_map_def map_wf_def split: if_splits)
qed simp

lemma map_delete_Cons_notin: "k \<notin> fst ` set m \<Longrightarrow> map_delete k m = m"
  by (induction m) (auto simp: map_delete_def)

lemma count_map_delete:
  assumes "map_of m k = Some u" "map_wf m"
  shows "count_map P (map_delete k m) + (if P k u then 1 else 0) = count_map P m"
  using assms
proof (induction m)
  case (Cons p m)
  obtain k' v' where p: "p = (k', v')" by (cases p)
  show ?case
  proof (cases "k' = k")
    case True
    with Cons.prems p have "k \<notin> fst ` set m" "v' = u" by (auto simp: map_wf_def)
    then show ?thesis
      using True p map_delete_Cons_notin [of k m]
      by (simp add: map_delete_def count_map_def)
  next
    case False
    with Cons p show ?thesis by (simp add: map_delete_def count_map_def map_wf_def)
  qed
qed simp

lemma count_map_delete_le: "count_map P (map_delete k m) \<le> count_map P m"
  by (induction m) (auto simp: map_delete_def count_map_def)

lemma count_map_set_le: "count_map P (map_set k v m) \<le> Suc (count_map P m)"
  by (induction k v m rule: map_set.induct) (auto simp: count_map_def)

section \<open>Keyed stores\<close>

text \<open>
  The interface the components rely on for every JavaScript \<open>Map\<close>: what a lookup returns
  after an insertion and after a removal.
\<close>

locale keyed_store =
  fixes get :: "'m \<Rightarrow> 'k \<Rightarrow> 'v option"
    and put :: "'k \<Rightarrow> 'v \<Rightarrow> 'm \<Rightarrow> 'm"
    and del :: "'k \<Rightarrow> 'm \<Rightarrow> 'm"
  assumes get_put: "get (put k v m) k' = (if k' = k then Some v else get m k')"
    and get_del: "get (del k m) k' = (if k' = k then None else get m k')"
begin

lemma get_put_same: "get (put k v m) k = Some v"
  by (simp add: get_put)

lemma get_put_other: "k' \<noteq> k \<Longrightarrow> get (put k v m) k' = get m k'"
  by (simp add: get_put)

lemma get_del_same: "get (del k m) k = None"
  by (simp add: get_del)

lemma del_put_lookup: "get (del k (put k v m)) = get (del k m)"
  by (rule ext) (simp add: get_put get_del)

lemma put_put_lookup: "get (put k v (put k u m)) = get (put k v m)"
  by (rule ext) (simp add: get_put)

end

interpretation js: keyed_store map_of map_set map_delete
  by unfold_locales auto

end
