(* ===== verification/Framing.thy ===== *)
theory Framing
  imports Prelude
begin

text \<open>
  Byte framing of the Docker bridge (docker/docker-bridge/src): the 5-byte frames exchanged
  with the tunnel agent (tunnel/protocol.types.ts \<open>encodeFrame\<close>, tunnel/protocol-parser.ts
  \<open>ProtocolParser\<close>), Docker's 8-byte multiplexed exec stream (docker/demux.ts) and the
  inline demultiplexer of sessions/tunnel-session.ts \<open>startRawExec\<close>.

  All three are incremental parsers: they keep the unconsumed bytes, append the next chunk
  and run a loop that consumes complete frames.  The locale \<open>incremental_parser\<close> states the
  laws of one loop iteration and derives that chunk boundaries are irrelevant.
\<close>

section \<open>Incremental parsers\<close>

text \<open>
  One iteration of a parse loop on the pending bytes: wait for more, drop the whole buffer
  with an error event, or emit events and consume a number of bytes.
\<close>

datatype 'e parse_step = NeedMore | Reset 'e | Emit "'e list" nat

locale incremental_parser =
  fixes step :: "'b list \<Rightarrow> 'e parse_step"
    and run :: "'b list \<Rightarrow> 'e list \<times> 'b list"
  assumes run_unfold: "run p = (case step p of
        NeedMore \<Rightarrow> ([], p)
      | Reset e \<Rightarrow> ([e], [])
      | Emit es k \<Rightarrow> (let (es', r) = run (drop k p) in (es @ es', r)))"
    and emit_len: "step p = Emit es k \<Longrightarrow> 0 < k \<and> k \<le> length p"
    and emit_append: "step p = Emit es k \<Longrightarrow> step (p @ q) = Emit es k"
    and reset_append: "step p = Reset e \<Longrightarrow> step (p @ q) = Reset e"
begin

text \<open>The loop never reaches an oversized frame.\<close>

inductive clean :: "'b list \<Rightarrow> bool" where
  clean_need: "step p = NeedMore \<Longrightarrow> clean p"
| clean_emit: "step p = Emit es k \<Longrightarrow> clean (drop k p) \<Longrightarrow> clean p"

text \<open>\<open>feed\<close> called once per chunk; the pending bytes are threaded through.\<close>

fun feed_all :: "'b list \<Rightarrow> 'b list list \<Rightarrow> 'e list \<times> 'b list" where
  "feed_all p [] = ([], p)"
| "feed_all p (c # cs) =
     (let (es, p') = run (p @ c); (es', p'') = feed_all p' cs in (es @ es', p''))"

lemma run_need: "step p = NeedMore \<Longrightarrow> run p = ([], p)"
  by (subst run_unfold) simp

lemma run_emit: "step p = Emit es k \<Longrightarrow> run p = (es @ fst (run (drop k p)), snd (run (drop k p)))"
  by (subst run_unfold) (simp add: split_def Let_def)

lemma run_reset: "step p = Reset e \<Longrightarrow> run p = ([e], [])"
  by (subst run_unfold) simp

lemma drop_append_emit: "step p = Emit es k \<Longrightarrow> drop k (p @ q) = drop k p @ q"
  using emit_len by fastforce

lemma clean_rest: "clean p \<Longrightarrow> step (snd (run p)) = NeedMore"
  by (induction rule: clean.induct) (simp_all add: run_need run_emit)

lemma clean_prefix: "clean (p @ q) \<Longrightarrow> clean p"
proof (induction "length p" arbitrary: p rule: less_induct)
  case less
  show ?case
  proof (cases "step p")
    case NeedMore
    then show ?thesis by (rule clean_need)
  next
    case (Reset e)
    then have "step (p @ q) = Reset e" by (rule reset_append)
    with less.prems show ?thesis by (auto elim: clean.cases)
  next
    case (Emit es k)
    then have st: "step (p @ q) = Emit es k" by (rule emit_append)
    with less.prems have "clean (drop k (p @ q))" by (auto elim: clean.cases)
    then have "clean (drop k p @ q)" by (simp only: drop_append_emit [OF Emit])
    moreover have "length (drop k p) < length p"
      using emit_len [OF Emit] unfolding length_drop by linarith
    ultimately have "clean (drop k p)" using less.hyps by blast
    with Emit show ?thesis by (rule clean_emit)
  qed
qed

text \<open>Parsing a concatenation: parse the first part, then the leftover with the second.\<close>

lemma run_append:
  "clean p \<Longrightarrow> run (p @ q) = (fst (run p) @ fst (run (snd (run p) @ q)), snd (run (snd (run p) @ q)))"
proof (induction rule: clean.induct)
  case (clean_need p)
  then show ?case by (simp add: run_need)
next
  case (clean_emit p es k)
  have "step (p @ q) = Emit es k" using clean_emit.hyps(1) by (rule emit_append)
  then show ?case
    using clean_emit.IH by (simp add: run_emit [OF clean_emit.hyps(1)] run_emit
        drop_append_emit [OF clean_emit.hyps(1)] del: drop_append)
qed

lemma clean_leftover: "clean p \<Longrightarrow> clean (p @ q) \<Longrightarrow> clean (snd (run p) @ q)"
proof (induction rule: clean.induct)
  case (clean_need p)
  then show ?case by (simp add: run_need)
next
  case (clean_emit p es k)
  have "step (p @ q) = Emit es k" using clean_emit.hyps(1) by (rule emit_append)
  with clean_emit.prems have "clean (drop k (p @ q))" by (auto elim: clean.cases)
  then show ?case
    using clean_emit.IH by (simp add: run_emit [OF clean_emit.hyps(1)]
        drop_append_emit [OF clean_emit.hyps(1)] del: drop_append)
qed

lemma not_clean_reset: "\<not> clean p \<Longrightarrow> \<exists>e q. e \<in> set (fst (run p)) \<and> step q = Reset e"
proof (induction "length p" arbitrary: p rule: less_induct)
  case less
  show ?case
  proof (cases "step p")
    case NeedMore
    with less.prems show ?thesis by (simp add: clean_need)
  next
    case (Reset e)
    then show ?thesis by (auto simp: run_reset)
  next
    case (Emit es k)
    have "\<not> clean (drop k p)" using less.prems Emit clean_emit by blast
    moreover have "length (drop k p) < length p"
      using emit_len [OF Emit] unfolding length_drop by linarith
    ultimately obtain e q where "e \<in> set (fst (run (drop k p)))" "step q = Reset e"
      using less.hyps by blast
    then show ?thesis by (auto simp: run_emit [OF Emit])
  qed
qed

lemma feed_all_concat:
  "step p = NeedMore \<Longrightarrow> clean (p @ concat cs) \<Longrightarrow> feed_all p cs = run (p @ concat cs)"
proof (induction cs arbitrary: p)
  case Nil
  then show ?case by (simp add: run_need)
next
  case (Cons c cs)
  from Cons.prems(2) have whole: "clean ((p @ c) @ concat cs)" by simp
  then have pc: "clean (p @ c)" by (rule clean_prefix)
  have rest: "step (snd (run (p @ c))) = NeedMore" by (rule clean_rest [OF pc])
  have "feed_all (snd (run (p @ c))) cs = run (snd (run (p @ c)) @ concat cs)"
    by (rule Cons.IH [OF rest clean_leftover [OF pc whole]])
  then show ?case
    using run_append [OF pc, of "concat cs"] by (simp add: split_def Let_def)
qed

end

section \<open>Big-endian 32-bit lengths\<close>

text \<open>Node's \<open>Buffer.readUInt32BE(off)\<close> (the callers check the length first) and the four
  bytes stored by \<open>writeUInt32BE(n)\<close>.\<close>

definition readUInt32BE :: "buffer \<Rightarrow> nat \<Rightarrow> nat" where
  "readUInt32BE b off = unat (b ! off) * 16777216 + unat (b ! (off + 1)) * 65536
     + unat (b ! (off + 2)) * 256 + unat (b ! (off + 3))"

definition writeUInt32BE :: "nat \<Rightarrow> buffer" where
  "writeUInt32BE n = [of_nat (n div 16777216), of_nat (n div 65536), of_nat (n div 256), of_nat n]"

lemma length_writeUInt32BE [simp, bytes_simps]: "length (writeUInt32BE n) = 4"
  by (simp add: writeUInt32BE_def)

lemma unat_byte: "unat (of_nat n :: byte) = n mod 256"
  by (simp add: unat_of_nat)

lemma be32_value:
  fixes n :: nat
  assumes "n < 4294967296"
  shows "n div 16777216 mod 256 * 16777216 + n div 65536 mod 256 * 65536
           + n div 256 mod 256 * 256 + n mod 256 = n"
proof -
  have a: "n div 65536 = n div 256 div 256" and b: "n div 16777216 = n div 256 div 256 div 256"
    by (simp_all add: div_mult2_eq [symmetric])
  have "n div 256 div 256 div 256 < 256" using assms by (simp add: div_mult2_eq [symmetric] less_mult_imp_div_less)
  then have c: "n div 256 div 256 div 256 mod 256 = n div 256 div 256 div 256" by simp
  have d: "n = n div 256 * 256 + n mod 256" by simp
  have e: "n div 256 = n div 256 div 256 * 256 + n div 256 mod 256"
    using div_mult_mod_eq [of "n div 256" 256] by simp
  have f: "n div 256 div 256 = n div 256 div 256 div 256 * 256 + n div 256 div 256 mod 256"
    using div_mult_mod_eq [of "n div 256 div 256" 256] by simp
  show ?thesis unfolding a b c using d e f by linarith
qed

lemma read_write_UInt32BE:
  "n < 4294967296 \<Longrightarrow> readUInt32BE (x # writeUInt32BE n @ ys) 1 = n"
  using be32_value [of n]
  by (simp add: readUInt32BE_def writeUInt32BE_def unat_byte numeral_2_eq_2 numeral_3_eq_3)

lemma readUInt32BE_append:
  "off + 4 \<le> length p \<Longrightarrow> readUInt32BE (p @ q) off = readUInt32BE p off"
  by (simp add: readUInt32BE_def nth_append)

section \<open>Frames\<close>

definition TEXT :: byte where "TEXT = 1"
definition BINARY :: byte where "BINARY = 2"

datatype frame_error = OutOfRange nat | PayloadTooLarge nat | BadJson string

text \<open>\<open>encodeFrame(type, payload)\<close>; \<open>writeUInt32BE\<close> throws on lengths of 2^32 and more.\<close>

definition encodeFrame :: "byte \<Rightarrow> buffer \<Rightarrow> frame_error + buffer" where
  "encodeFrame type payload =
     (if length payload < 4294967296
      then Inr (type # writeUInt32BE (length payload) @ payload)
      else Inl (OutOfRange (length payload)))"

section \<open>ProtocolParser\<close>

definition MAX_FRAME_PAYLOAD :: nat where
  "MAX_FRAME_PAYLOAD = 16 * 1024 * 1024"

datatype 'm parser_event = OnMessage 'm | OnBinary buffer | OnError frame_error

text \<open>
  One iteration of the loop of \<open>feed\<close>.  \<open>json\<close> is \<open>JSON.parse\<close> of the UTF-8 payload: the
  message, or the message of the exception.  Frame types other than TEXT and BINARY are
  consumed without an event.
\<close>

definition protocol_step ::
    "(buffer \<Rightarrow> string + 'm) \<Rightarrow> buffer \<Rightarrow> 'm parser_event parse_step" where
  "protocol_step json pending =
     (if length pending < 5 then NeedMore
      else let frameType = pending ! 0; payloadLength = readUInt32BE pending 1 in
        if payloadLength > MAX_FRAME_PAYLOAD then Reset (OnError (PayloadTooLarge payloadLength))
        else let frameSize = 5 + payloadLength in
          if length pending < frameSize then NeedMore
          else let payload = take payloadLength (drop 5 pending) in
            Emit (if frameType = TEXT
                  then [case json payload of Inl e \<Rightarrow> OnError (BadJson e) | Inr m \<Rightarrow> OnMessage m]
                  else if frameType = BINARY then [OnBinary payload] else []) frameSize)"

text \<open>The \<open>while\<close> loop of \<open>feed\<close> on the concatenated buffer: the callbacks in order and
  the new \<open>pending\<close>.\<close>

function protocol_loop ::
    "(buffer \<Rightarrow> string + 'm) \<Rightarrow> buffer \<Rightarrow> 'm parser_event list \<times> buffer" where
  "protocol_loop json pending = (case protocol_step json pending of
       NeedMore \<Rightarrow> ([], pending)
     | Reset e \<Rightarrow> ([e], [])
     | Emit es k \<Rightarrow> (let (es', r) = protocol_loop json (drop k pending) in (es @ es', r)))"
  by pat_completeness auto
termination
  by (relation "measure (\<lambda>(_, p). length p)")
     (auto simp: protocol_step_def Let_def split: if_splits)

declare protocol_loop.simps [simp del]

definition parser_feed ::
    "(buffer \<Rightarrow> string + 'm) \<Rightarrow> buffer \<Rightarrow> buffer \<Rightarrow> 'm parser_event list \<times> buffer" where
  "parser_feed json pending chunk = protocol_loop json (pending @ chunk)"

text \<open>\<open>reset()\<close>: the pending buffer becomes empty.\<close>

definition parser_reset :: "buffer \<Rightarrow> buffer" where
  "parser_reset pending = []"

interpretation protocol: incremental_parser "protocol_step json" "protocol_loop json"
  for json :: "buffer \<Rightarrow> string + 'm"
proof (unfold_locales, goal_cases)
  case (1 p)
  show ?case by (rule protocol_loop.simps)
next
  case (2 p es k)
  then show ?case by (auto simp: protocol_step_def Let_def split: if_splits)
next
  case (3 p es k q)
  then show ?case
    by (auto simp: protocol_step_def Let_def readUInt32BE_append nth_append split: if_splits)
next
  case (4 p e q)
  then show ?case
    by (auto simp: protocol_step_def Let_def readUInt32BE_append nth_append split: if_splits)
qed

section \<open>Docker stream demultiplexer\<close>

definition MAX_DEMUX_PAYLOAD :: nat where
  "MAX_DEMUX_PAYLOAD = 16 * 1024 * 1024"

datatype demux_event = OnStdout buffer | OnStderr buffer | DemuxError nat

text \<open>One iteration of the loop of \<open>createDemuxer\<close>: stream type 2 is stderr, every other
  type is stdout.\<close>

definition demux_step :: "buffer \<Rightarrow> demux_event parse_step" where
  "demux_step pending =
     (if length pending < 8 then NeedMore
      else let streamType = pending ! 0; payloadLength = readUInt32BE pending 4 in
        if payloadLength > MAX_DEMUX_PAYLOAD then Reset (DemuxError payloadLength)
        else let frameSize = 8 + payloadLength in
          if length pending < frameSize then NeedMore
          else let payload = take payloadLength (drop 8 pending) in
            Emit [if streamType = 2 then OnStderr payload else OnStdout payload] frameSize)"

function demux_loop :: "buffer \<Rightarrow> demux_event list \<times> buffer" where
  "demux_loop pending = (case demux_step pending of
       NeedMore \<Rightarrow> ([], pending)
     | Reset e \<Rightarrow> ([e], [])
     | Emit es k \<Rightarrow> (let (es', r) = demux_loop (drop k pending) in (es @ es', r)))"
  by pat_completeness auto
termination
  by (relation "measure length") (auto simp: demux_step_def Let_def split: if_splits)

declare demux_loop.simps [simp del]

definition demux_feed :: "buffer \<Rightarrow> buffer \<Rightarrow> demux_event list \<times> buffer" where
  "demux_feed pending chunk = demux_loop (pending @ chunk)"

interpretation demux: incremental_parser demux_step demux_loop
proof (unfold_locales, goal_cases)
  case (1 p)
  show ?case by (rule demux_loop.simps)
next
  case (2 p es k)
  then show ?case by (auto simp: demux_step_def Let_def split: if_splits)
next
  case (3 p es k q)
  then show ?case
    by (auto simp: demux_step_def Let_def readUInt32BE_append nth_append split: if_splits)
next
  case (4 p e q)
  then show ?case
    by (auto simp: demux_step_def Let_def readUInt32BE_append nth_append split: if_splits)
qed

section \<open>Raw exec output without a TTY\<close>

text \<open>
  The data handler of \<open>startRawExec\<close> for \<open>tty = false\<close>: each complete Docker frame is
  broadcast with the stream type byte in front; there is no size limit here.
\<close>

definition raw_step :: "buffer \<Rightarrow> buffer parse_step" where
  "raw_step pending =
     (if length pending < 8 then NeedMore
      else let streamType = pending ! 0; len = readUInt32BE pending 4 in
        if length pending < 8 + len then NeedMore
        else Emit [streamType # take len (drop 8 pending)] (8 + len))"

function raw_loop :: "buffer \<Rightarrow> buffer list \<times> buffer" where
  "raw_loop pending = (case raw_step pending of
       NeedMore \<Rightarrow> ([], pending)
     | Reset e \<Rightarrow> ([e], [])
     | Emit es k \<Rightarrow> (let (es', r) = raw_loop (drop k pending) in (es @ es', r)))"
  by pat_completeness auto
termination
  by (relation "measure length") (auto simp: raw_step_def Let_def split: if_splits)

declare raw_loop.simps [simp del]

interpretation raw: incremental_parser raw_step raw_loop
proof (unfold_locales, goal_cases)
  case (1 p)
  show ?case by (rule raw_loop.simps)
next
  case (2 p es k)
  then show ?case by (auto simp: raw_step_def Let_def split: if_splits)
next
  case (3 p es k q)
  then show ?case
    by (auto simp: raw_step_def Let_def readUInt32BE_append nth_append split: if_splits)
next
  case (4 p e q)
  then show ?case by (auto simp: raw_step_def Let_def split: if_splits)
qed

section \<open>Chunk independence\<close>

text \<open>\<open>feed\<close> called on successive chunks, the events in order and the final pending bytes.\<close>

fun parser_feeds :: "(buffer \<Rightarrow> string + 'm) \<Rightarrow> buffer \<Rightarrow> buffer list \<Rightarrow> 'm parser_event list \<times> buffer" where
  "parser_feeds json pending [] = ([], pending)"
| "parser_feeds json pending (c # cs) =
     (let (es, p) = parser_feed json pending c; (es', p') = parser_feeds json p cs in (es @ es', p'))"

fun demux_feeds :: "buffer \<Rightarrow> buffer list \<Rightarrow> demux_event list \<times> buffer" where
  "demux_feeds pending [] = ([], pending)"
| "demux_feeds pending (c # cs) =
     (let (es, p) = demux_feed pending c; (es', p') = demux_feeds p cs in (es @ es', p'))"

lemma parser_feeds_eq: "parser_feeds json p cs = incremental_parser.feed_all (protocol_loop json) p cs"
  by (induction cs arbitrary: p) (simp_all add: parser_feed_def split_def)

lemma demux_feeds_eq: "demux_feeds p cs = demux.feed_all p cs"
  by (induction cs arbitrary: p) (simp_all add: demux_feed_def split_def)

definition oversize :: "'m parser_event list \<Rightarrow> bool" where
  "oversize es = list_ex (\<lambda>e. case e of OnError (PayloadTooLarge n) \<Rightarrow> True | _ \<Rightarrow> False) es"

definition demux_oversize :: "demux_event list \<Rightarrow> bool" where
  "demux_oversize es = list_ex (\<lambda>e. case e of DemuxError n \<Rightarrow> True | _ \<Rightarrow> False) es"

lemma protocol_reset_event: "protocol_step json q = Reset e \<Longrightarrow> \<exists>n. e = OnError (PayloadTooLarge n)"
  by (auto simp: protocol_step_def Let_def split: if_splits)

lemma demux_reset_event: "demux_step q = Reset e \<Longrightarrow> \<exists>n. e = DemuxError n"
  by (auto simp: demux_step_def Let_def split: if_splits)

lemma protocol_clean: "\<not> oversize (fst (protocol_loop json p)) \<Longrightarrow> incremental_parser.clean (protocol_step json) p"
  using protocol.not_clean_reset [where json = json and p = p] protocol_reset_event
  by (fastforce simp: oversize_def list_ex_iff)

lemma demux_clean: "\<not> demux_oversize (fst (demux_loop p)) \<Longrightarrow> demux.clean p"
  using demux.not_clean_reset [of p] demux_reset_event
  by (fastforce simp: demux_oversize_def list_ex_iff)

lemma protocol_step_Nil: "protocol_step json [] = NeedMore"
  by (simp add: protocol_step_def)

lemma demux_step_Nil: "demux_step [] = NeedMore"
  by (simp add: demux_step_def)

text \<open>C23: However the exec output is cut into chunks, \<open>ProtocolParser.feed\<close> produces the
  callbacks and the pending bytes it would produce on the whole output at once, as long as
  that output holds no frame above the 16 MiB limit.\<close>

theorem parser_chunking:
  assumes "\<not> oversize (fst (parser_feed json [] (concat chunks)))"
  shows "parser_feeds json [] chunks = parser_feed json [] (concat chunks)"
proof -
  have "incremental_parser.clean (protocol_step json) ([] @ concat chunks)"
    using assms by (simp add: parser_feed_def protocol_clean)
  then show ?thesis
    using protocol.feed_all_concat [OF protocol_step_Nil]
    by (simp add: parser_feeds_eq parser_feed_def)
qed

theorem parser_chunking_witness:
  "parser_feeds (\<lambda>b. Inr b) [] [[2, 0, 0], [0, 1, 7]] = ([OnBinary [7]], [])"
proof -
  have whole: "parser_feed (\<lambda>b. Inr b) [] (concat [[2, 0, 0], [0, 1, 7]]) = ([OnBinary [7]], [])"
    by (simp add: parser_feed_def protocol_loop.simps protocol_step_def readUInt32BE_def
        TEXT_def BINARY_def MAX_FRAME_PAYLOAD_def)
  have "\<not> oversize (fst (parser_feed (\<lambda>b. Inr b) [] (concat [[2, 0, 0], [0, 1, 7]])))"
    unfolding whole by (simp add: oversize_def)
  from parser_chunking [OF this] whole show ?thesis by simp
qed

text \<open>The Docker stream demultiplexer is independent of chunk boundaries in the same
  way.\<close>

theorem demux_chunking:
  assumes "\<not> demux_oversize (fst (demux_feed [] (concat chunks)))"
  shows "demux_feeds [] chunks = demux_feed [] (concat chunks)"
  using demux.feed_all_concat [of "[]" chunks] demux_clean assms
  by (simp add: demux_feeds_eq demux_feed_def demux_step_Nil)

theorem demux_chunking_witness:
  "demux_feeds [] [[2, 0, 0, 0, 0], [0, 0, 1, 7]] = ([OnStderr [7]], [])"
proof -
  have whole: "demux_feed [] (concat [[2, 0, 0, 0, 0], [0, 0, 1, 7]]) = ([OnStderr [7]], [])"
    by (simp add: demux_feed_def demux_loop.simps demux_step_def readUInt32BE_def
        MAX_DEMUX_PAYLOAD_def)
  have "\<not> demux_oversize (fst (demux_feed [] (concat [[2, 0, 0, 0, 0], [0, 0, 1, 7]])))"
    unfolding whole by (simp add: demux_oversize_def)
  from demux_chunking [OF this] whole show ?thesis by simp
qed

section \<open>Round trip\<close>

text \<open>A frame as the bridge writes it: \<open>writeFrame(stream, FrameType.TEXT, JSON)\<close> or
  \<open>writeFrame(stream, FrameType.BINARY, data)\<close>; \<open>stringify\<close> is \<open>JSON.stringify\<close> in UTF-8.\<close>

datatype 'm frame = TextFrame 'm | BinaryFrame buffer

fun frame_payload :: "('m \<Rightarrow> buffer) \<Rightarrow> 'm frame \<Rightarrow> buffer" where
  "frame_payload stringify (TextFrame m) = stringify m"
| "frame_payload stringify (BinaryFrame b) = b"

fun frame_bytes :: "('m \<Rightarrow> buffer) \<Rightarrow> 'm frame \<Rightarrow> frame_error + buffer" where
  "frame_bytes stringify (TextFrame m) = encodeFrame TEXT (stringify m)"
| "frame_bytes stringify (BinaryFrame b) = encodeFrame BINARY b"

fun frame_event :: "'m frame \<Rightarrow> 'm parser_event" where
  "frame_event (TextFrame m) = OnMessage m"
| "frame_event (BinaryFrame b) = OnBinary b"

text \<open>A sequence of \<open>writeFrame\<close> calls on one socket: the bytes, or the first exception.\<close>

fun frames_bytes :: "('m \<Rightarrow> buffer) \<Rightarrow> 'm frame list \<Rightarrow> frame_error + buffer" where
  "frames_bytes stringify [] = Inr []"
| "frames_bytes stringify (f # fs) = (case frame_bytes stringify f of
       Inl e \<Rightarrow> Inl e
     | Inr b \<Rightarrow> (case frames_bytes stringify fs of Inl e \<Rightarrow> Inl e | Inr bs \<Rightarrow> Inr (b @ bs)))"

lemma protocol_step_frame:
  assumes "length payload \<le> MAX_FRAME_PAYLOAD"
  shows "protocol_step json (ty # writeUInt32BE (length payload) @ payload @ rest) =
    Emit (if ty = TEXT then [case json payload of Inl e \<Rightarrow> OnError (BadJson e) | Inr m \<Rightarrow> OnMessage m]
          else if ty = BINARY then [OnBinary payload] else []) (5 + length payload)"
proof -
  have r: "readUInt32BE (ty # writeUInt32BE (length payload) @ payload @ rest) (Suc 0) = length payload"
    using read_write_UInt32BE [of "length payload" ty "payload @ rest"] assms
    by (simp add: MAX_FRAME_PAYLOAD_def)
  have d: "drop 5 (ty # writeUInt32BE (length payload) @ payload @ rest) = payload @ rest"
    by (simp add: writeUInt32BE_def)
  show ?thesis using assms by (simp add: protocol_step_def Let_def r d)
qed

lemma protocol_loop_frame:
  assumes "length payload \<le> MAX_FRAME_PAYLOAD"
  shows "protocol_loop json (ty # writeUInt32BE (length payload) @ payload @ rest) =
    ((if ty = TEXT then [case json payload of Inl e \<Rightarrow> OnError (BadJson e) | Inr m \<Rightarrow> OnMessage m]
      else if ty = BINARY then [OnBinary payload] else []) @ fst (protocol_loop json rest),
     snd (protocol_loop json rest))"
proof -
  let ?h = "ty # writeUInt32BE (length payload) @ payload"
  have "length ?h = 5 + length payload" by simp
  then have "drop (5 + length payload) (?h @ rest) = rest"
    by (metis append_eq_conv_conj)
  then have "drop (5 + length payload) (ty # writeUInt32BE (length payload) @ payload @ rest) = rest"
    by simp
  then show ?thesis by (simp add: protocol.run_emit [OF protocol_step_frame [OF assms]])
qed

text \<open>C35: Messages and binary payloads written with \<open>writeFrame\<close> come out of
  \<open>ProtocolParser\<close> as they were sent, in order and with nothing left pending, for every
  way of chunking the bytes, provided no payload exceeds the 16 MiB limit and \<open>JSON.parse\<close>
  inverts \<open>JSON.stringify\<close>.\<close>

theorem frame_roundtrip:
  assumes "\<And>m. json (stringify m) = Inr m"
    and "\<forall>f \<in> set frames. length (frame_payload stringify f) \<le> MAX_FRAME_PAYLOAD"
    and "frames_bytes stringify frames = Inr (concat chunks)"
  shows "parser_feeds json [] chunks = (map frame_event frames, [])"
proof -
  have loop: "protocol_loop json bs = (map frame_event fs, [])"
    if "\<forall>f \<in> set fs. length (frame_payload stringify f) \<le> MAX_FRAME_PAYLOAD"
      "frames_bytes stringify fs = Inr bs" for fs bs
    using that
  proof (induction fs arbitrary: bs)
    case Nil
    then show ?case by (simp add: protocol.run_need [OF protocol_step_Nil])
  next
    case (Cons f fs)
    obtain b bs' where b: "frame_bytes stringify f = Inr b" "frames_bytes stringify fs = Inr bs'"
      "bs = b @ bs'" using Cons.prems(2) by (auto split: sum.splits)
    have IH: "protocol_loop json bs' = (map frame_event fs, [])"
      using Cons.IH Cons.prems(1) b(2) by simp
    show ?case
      using b Cons.prems(1) IH assms(1)
      by (cases f) (auto simp: encodeFrame_def protocol_loop_frame TEXT_def BINARY_def split: if_splits)
  qed
  have all: "parser_feed json [] (concat chunks) = (map frame_event frames, [])"
    using loop [OF assms(2,3)] by (simp add: parser_feed_def)
  have "\<not> oversize (map frame_event fs)" for fs :: "'a frame list"
  proof (induction fs)
    case (Cons f fs)
    then show ?case by (cases f) (auto simp: oversize_def)
  qed (simp add: oversize_def)
  then show ?thesis using parser_chunking [of json chunks] all by simp
qed

theorem frame_roundtrip_witness:
  "parser_feeds Inr [] [[1, 0, 0, 0], [1, 9, 2], [0, 0, 0, 0]] = ([OnMessage [9], OnBinary []], [])"
proof -
  have b: "frames_bytes (\<lambda>m. m) [TextFrame [9], BinaryFrame []]
      = Inr (concat [[1, 0, 0, 0], [1, 9, 2], [0, 0, 0, 0]])"
    by (simp add: encodeFrame_def writeUInt32BE_def TEXT_def BINARY_def)
  have "\<forall>f \<in> set [TextFrame [9], BinaryFrame []]. length (frame_payload (\<lambda>m. m) f) \<le> MAX_FRAME_PAYLOAD"
    by (simp add: MAX_FRAME_PAYLOAD_def)
  from frame_roundtrip [where json = Inr, OF _ this b] show ?thesis by simp
qed

section \<open>Bounded buffering\<close>

text \<open>After any sequence of chunks, valid or hostile, the parser holds fewer than
  5 + 16 MiB pending bytes: an oversized length field empties the buffer instead of
  waiting for the payload.\<close>

theorem parser_pending_bounded:
  "length (snd (parser_feed json pending chunk)) < 5 + MAX_FRAME_PAYLOAD"
proof -
  have "length (snd (protocol_loop json p)) < 5 + MAX_FRAME_PAYLOAD" for p
  proof (induction json p rule: protocol_loop.induct)
    case (1 json p)
    show ?case
    proof (cases "protocol_step json p")
      case NeedMore
      then have "length p < 5 + MAX_FRAME_PAYLOAD"
        by (auto simp: protocol_step_def Let_def MAX_FRAME_PAYLOAD_def split: if_splits)
      with NeedMore show ?thesis by (simp add: protocol.run_need)
    next
      case (Reset e)
      then show ?thesis by (simp add: protocol.run_reset)
    next
      case (Emit es k)
      with 1 show ?thesis by (simp add: protocol.run_emit)
    qed
  qed
  then show ?thesis by (simp add: parser_feed_def)
qed

end
