(* ===== verification/Backpressure.thy ===== *)
theory Backpressure
  imports Prelude
begin

text \<open>
  Per-session backpressure of the bridge (sessions/backpressure.ts): the concurrency limiter
  that caps in-flight requests, and the serializer that chains WebSocket writes.
\<close>

section \<open>SessionConcurrencyLimiter\<close>

record slot_entry =
  inFlight :: nat
  max_slots :: nat

type_synonym limiters = "string \<rightharpoonup> slot_entry"

definition limiter_register :: "limiters \<Rightarrow> string \<Rightarrow> nat \<Rightarrow> limiters" where
  "limiter_register l sessionId limit = l(sessionId \<mapsto> \<lparr>inFlight = 0, max_slots = limit\<rparr>)"

definition limiter_unregister :: "limiters \<Rightarrow> string \<Rightarrow> limiters" where
  "limiter_unregister l sessionId = l(sessionId := None)"

definition limiter_acquire :: "limiters \<Rightarrow> string \<Rightarrow> bool \<times> limiters" where
  "limiter_acquire l sessionId = (case l sessionId of
       None \<Rightarrow> (False, l)
     | Some e \<Rightarrow>
         if inFlight e \<ge> max_slots e then (False, l)
         else (True, l(sessionId \<mapsto> e\<lparr>inFlight := inFlight e + 1\<rparr>)))"

definition limiter_release :: "limiters \<Rightarrow> string \<Rightarrow> limiters" where
  "limiter_release l sessionId = (case l sessionId of
       None \<Rightarrow> l
     | Some e \<Rightarrow>
         if inFlight e > 0 then l(sessionId \<mapsto> e\<lparr>inFlight := inFlight e - 1\<rparr>) else l)"

definition limiter_getInFlight :: "limiters \<Rightarrow> string \<Rightarrow> nat" where
  "limiter_getInFlight l sessionId = (case l sessionId of None \<Rightarrow> 0 | Some e \<Rightarrow> inFlight e)"

text \<open>The limit of a session; an unregistered session has no slot to give.\<close>

definition limiter_cap :: "limiters \<Rightarrow> string \<Rightarrow> nat" where
  "limiter_cap l sessionId = (case l sessionId of None \<Rightarrow> 0 | Some e \<Rightarrow> max_slots e)"

lemmas limiter_defs = limiter_acquire_def limiter_release_def limiter_getInFlight_def
  limiter_cap_def limiter_register_def limiter_unregister_def

subsection \<open>The contract of a slot pool\<close>

text \<open>
  What the request paths of the tunnel handler rely on: \<open>acquire\<close> succeeds exactly below the
  limit and takes one slot, \<open>release\<close> returns at most one, no operation touches another key
  or a limit.
\<close>

datatype slot_op = Acquire | Release

locale slot_pool =
  fixes acquire :: "'s \<Rightarrow> 'k \<Rightarrow> bool \<times> 's"
    and release :: "'s \<Rightarrow> 'k \<Rightarrow> 's"
    and load :: "'s \<Rightarrow> 'k \<Rightarrow> nat"
    and cap :: "'s \<Rightarrow> 'k \<Rightarrow> nat"
  assumes acquire_iff: "fst (acquire s k) \<longleftrightarrow> load s k < cap s k"
    and load_acquire: "load (snd (acquire s k)) j =
          (if j = k \<and> load s k < cap s k then Suc (load s k) else load s j)"
    and load_release: "load (release s k) j = (if j = k then load s k - 1 else load s j)"
    and cap_acquire: "cap (snd (acquire s k)) j = cap s j"
    and cap_release: "cap (release s k) j = cap s j"
begin

lemma acquire_within: "load s j \<le> cap s j \<Longrightarrow> load (snd (acquire s k)) j \<le> cap (snd (acquire s k)) j"
  by (simp add: load_acquire cap_acquire)

lemma release_within: "load s j \<le> cap s j \<Longrightarrow> load (release s k) j \<le> cap (release s k) j"
  by (auto simp: load_release cap_release)

lemma acquire_other: "j \<noteq> k \<Longrightarrow> load (snd (acquire s k)) j = load s j"
  by (simp add: load_acquire)

lemma acquire_full: "load s k = cap s k \<Longrightarrow> \<not> fst (acquire s k)"
  by (simp add: acquire_iff)

text \<open>
  A client that holds \<open>n\<close> slots of key \<open>k\<close> and never returns one it does not hold: the result
  is the final state, the number held, and how many acquisitions were refused.
\<close>

fun balanced_run :: "'k \<Rightarrow> 's \<Rightarrow> nat \<Rightarrow> slot_op list \<Rightarrow> ('s \<times> nat) option" where
  "balanced_run k s n [] = Some (s, n)"
| "balanced_run k s n (Acquire # ops) =
     (let (ok, s') = acquire s k in balanced_run k s' (if ok then Suc n else n) ops)"
| "balanced_run k s n (Release # ops) =
     (if n = 0 then None else balanced_run k (release s k) (n - 1) ops)"

lemma balanced_run_exact:
  "balanced_run k s n ops = Some (s', n') \<Longrightarrow> load s k = n \<Longrightarrow> n \<le> cap s k \<Longrightarrow>
     load s' k = n' \<and> n' \<le> cap s' k \<and> cap s' k = cap s k"
proof (induction k s n ops rule: balanced_run.induct)
  case (2 k s n ops)
  obtain ok s1 where a: "acquire s k = (ok, s1)" by (cases "acquire s k")
  have "load s1 k = (if ok then Suc n else n)" "cap s1 k = cap s k"
    "(if ok then Suc n else n) \<le> cap s k"
    using load_acquire [of s k k] acquire_iff [of s k] cap_acquire [of s k k] a "2.prems" by auto
  then show ?case using "2.IH" [of "(ok, s1)" ok s1] a "2.prems" by simp
next
  case (3 k s n ops)
  then have "n \<noteq> 0" by (auto split: if_splits)
  moreover have "load (release s k) k = n - 1" "cap (release s k) k = cap s k"
    using "3.prems" load_release [of s k k] cap_release [of s k k] by simp_all
  moreover have "n - 1 \<le> cap s k" using "3.prems" by simp
  ultimately show ?case using "3.IH" "3.prems" by simp
qed auto

end

interpretation limiter: slot_pool limiter_acquire limiter_release limiter_getInFlight limiter_cap
proof (unfold_locales, goal_cases)
  case (1 s k)
  show ?case by (auto simp: limiter_defs split: option.splits)
next
  case (2 s k j)
  show ?case by (auto simp: limiter_defs split: option.splits)
next
  case (3 s k j)
  show ?case by (auto simp: limiter_defs split: option.splits)
next
  case (4 s k j)
  show ?case by (auto simp: limiter_defs split: option.splits)
next
  case (5 s k j)
  show ?case by (auto simp: limiter_defs split: option.splits)
qed

lemma getInFlight_register [simp]:
  "limiter_getInFlight (limiter_register l k m) j = (if j = k then 0 else limiter_getInFlight l j)"
  by (simp add: limiter_defs)

lemma cap_register [simp]:
  "limiter_cap (limiter_register l k m) j = (if j = k then m else limiter_cap l j)"
  by (simp add: limiter_defs)

lemma getInFlight_unregister [simp]:
  "limiter_getInFlight (limiter_unregister l k) j = (if j = k then 0 else limiter_getInFlight l j)"
  by (simp add: limiter_defs)

lemma cap_unregister [simp]:
  "limiter_cap (limiter_unregister l k) j = (if j = k then 0 else limiter_cap l j)"
  by (simp add: limiter_defs)

text \<open>A sequence of limiter calls of one session by clients that return only what they
  acquired.\<close>

fun limiter_run :: "string \<Rightarrow> limiters \<Rightarrow> nat \<Rightarrow> slot_op list \<Rightarrow> (limiters \<times> nat) option" where
  "limiter_run k l n [] = Some (l, n)"
| "limiter_run k l n (Acquire # ops) =
     (let (ok, l') = limiter_acquire l k in limiter_run k l' (if ok then Suc n else n) ops)"
| "limiter_run k l n (Release # ops) =
     (if n = 0 then None else limiter_run k (limiter_release l k) (n - 1) ops)"

lemma limiter_run_eq: "limiter_run k l n ops = limiter.balanced_run k l n ops"
  by (induction k l n ops rule: limiter_run.induct) (simp_all add: split_def)

text \<open>After \<open>register(sessionId, max)\<close>, any sequence of \<open>acquire\<close> and \<open>release\<close> calls in
  which no slot is returned twice leaves the in-flight counter equal to the number of slots
  held, and that number never exceeds \<open>max\<close>.\<close>

theorem limiter_exact:
  assumes "limiter_run sid (limiter_register l sid limit) 0 ops = Some (l', held)"
  shows "limiter_getInFlight l' sid = held \<and> held \<le> limit"
proof -
  have "limiter.balanced_run sid (limiter_register l sid limit) 0 ops = Some (l', held)"
    using assms by (simp add: limiter_run_eq)
  from limiter.balanced_run_exact [OF this] show ?thesis by simp
qed

theorem limiter_exact_witness:
  "limiter_run ''s'' (limiter_register Map.empty ''s'' 1) 0 [Acquire, Acquire, Release, Acquire]
     = Some ([''s'' \<mapsto> \<lparr>inFlight = 1, max_slots = 1\<rparr>], 1)
   \<and> limiter_getInFlight [''s'' \<mapsto> \<lparr>inFlight = 1, max_slots = 1\<rparr>] ''s'' = 1 \<and> (1::nat) \<le> 1"
proof -
  have r: "limiter_run ''s'' (limiter_register Map.empty ''s'' 1) 0 [Acquire, Acquire, Release, Acquire]
     = Some ([''s'' \<mapsto> \<lparr>inFlight = 1, max_slots = 1\<rparr>], 1)"
    by (simp add: limiter_defs fun_upd_def fun_eq_iff)
  from limiter_exact [OF r] r show ?thesis by simp
qed

section \<open>WriteSerializer\<close>

text \<open>
  \<open>chains\<close> holds, per session, the promise the next write waits for.  A promise chain is a
  queue: \<open>then\<close> on the last promise appends a link, and the links of one chain run one after
  the other.  \<open>chains\<close> maps a session to the identity of its chain, \<open>queues\<close> holds the links of
  each chain that have not run.  \<open>remove\<close> drops the map entry only; links already queued
  still run.  \<open>sent\<close> records the calls \<open>ws.send(data)\<close> made by each chain.
\<close>

record 'd serializer =
  chains :: "string \<rightharpoonup> nat"
  queues :: "nat \<Rightarrow> (nat \<times> 'd) list"
  sent :: "nat \<Rightarrow> (nat \<times> 'd) list"
  next_chain :: nat

datatype 'd serializer_op =
    Write string nat 'd    \<comment> \<open>\<open>getWriter(sessionId)(ws, data)\<close>\<close>
  | RunLink nat            \<comment> \<open>the oldest link of a chain runs\<close>
  | Remove string          \<comment> \<open>\<open>remove(sessionId)\<close>\<close>

definition serializer_write :: "'d serializer \<Rightarrow> string \<Rightarrow> nat \<Rightarrow> 'd \<Rightarrow> 'd serializer" where
  "serializer_write z sessionId ws data = (case chains z sessionId of
       Some c \<Rightarrow> z\<lparr>queues := (queues z)(c := queues z c @ [(ws, data)])\<rparr>
     | None \<Rightarrow> z\<lparr>chains := (chains z)(sessionId \<mapsto> next_chain z),
                queues := (queues z)(next_chain z := [(ws, data)]),
                next_chain := Suc (next_chain z)\<rparr>)"

text \<open>A link calls \<open>ws.send\<close>; an exception only rejects the caller's promise, the stored
  chain swallows it and the next link still runs.\<close>

definition serializer_run_link :: "'d serializer \<Rightarrow> nat \<Rightarrow> 'd serializer" where
  "serializer_run_link z c = (case queues z c of
       [] \<Rightarrow> z
     | w # ws \<Rightarrow> z\<lparr>queues := (queues z)(c := ws), sent := (sent z)(c := sent z c @ [w])\<rparr>)"

definition serializer_remove :: "'d serializer \<Rightarrow> string \<Rightarrow> 'd serializer" where
  "serializer_remove z sessionId = z\<lparr>chains := (chains z)(sessionId := None)\<rparr>"

fun serializer_step :: "'d serializer \<Rightarrow> 'd serializer_op \<Rightarrow> 'd serializer" where
  "serializer_step z (Write sid ws d) = serializer_write z sid ws d"
| "serializer_step z (RunLink c) = serializer_run_link z c"
| "serializer_step z (Remove sid) = serializer_remove z sid"

definition serializer_init :: "'d serializer" where
  "serializer_init = \<lparr>chains = Map.empty, queues = (\<lambda>_. []), sent = (\<lambda>_. []), next_chain = 0\<rparr>"

text \<open>The writes requested for one session, in call order.\<close>

fun writes_of :: "string \<Rightarrow> 'd serializer_op list \<Rightarrow> (nat \<times> 'd) list" where
  "writes_of s [] = []"
| "writes_of s (Write sid ws d # ops) = (if sid = s then [(ws, d)] else []) @ writes_of s ops"
| "writes_of s (_ # ops) = writes_of s ops"

lemma writes_of_append: "writes_of s (xs @ ys) = writes_of s xs @ writes_of s ys"
  by (induction s xs rule: writes_of.induct) auto

definition serializer_wf :: "'d serializer \<Rightarrow> bool" where
  "serializer_wf z \<longleftrightarrow>
     (\<forall>s c. chains z s = Some c \<longrightarrow> c < next_chain z) \<and>
     (\<forall>s t c. chains z s = Some c \<longrightarrow> chains z t = Some c \<longrightarrow> s = t) \<and>
     (\<forall>c \<ge> next_chain z. queues z c = [] \<and> sent z c = [])"

lemma serializer_wf_init: "serializer_wf serializer_init"
  by (simp add: serializer_wf_def serializer_init_def)

lemma serializer_wf_step: "serializer_wf z \<Longrightarrow> serializer_wf (serializer_step z op)"
proof (cases op)
  case (Write sid ws d)
  assume "serializer_wf z"
  with Write show ?thesis
    by (cases "chains z sid")
       (auto simp: serializer_wf_def serializer_write_def less_Suc_eq not_less [symmetric] split: if_splits)
next
  case (RunLink c)
  assume "serializer_wf z"
  with RunLink show ?thesis
    by (cases "queues z c") (auto simp: serializer_wf_def serializer_run_link_def)
next
  case (Remove sid)
  assume "serializer_wf z"
  with Remove show ?thesis
    by (auto simp: serializer_wf_def serializer_remove_def split: if_splits)
qed

text \<open>The history of a session whose chain is never removed: what was sent, followed by what
  is queued, is exactly what was requested.\<close>

definition session_history :: "'d serializer \<Rightarrow> string \<Rightarrow> (nat \<times> 'd) list" where
  "session_history z s = (case chains z s of None \<Rightarrow> [] | Some c \<Rightarrow> sent z c @ queues z c)"

lemma history_step:
  assumes "serializer_wf z" "\<forall>sid. op = Remove sid \<longrightarrow> sid \<noteq> s"
  shows "session_history (serializer_step z op) s = session_history z s @ writes_of s [op]"
proof (cases op)
  case (Write sid ws d)
  then show ?thesis
    using assms(1) by (auto simp: session_history_def serializer_write_def serializer_wf_def
        split: option.splits)
next
  case (RunLink c)
  then show ?thesis
    by (auto simp: session_history_def serializer_run_link_def split: option.splits list.splits)
next
  case (Remove sid)
  then show ?thesis
    using assms(2) by (simp add: session_history_def serializer_remove_def split: option.splits)
qed

lemma history_run:
  assumes "serializer_wf z" "Remove s \<notin> set ops"
  shows "session_history (foldl serializer_step z ops) s = session_history z s @ writes_of s ops"
  using assms
proof (induction ops arbitrary: z)
  case Nil
  then show ?case by simp
next
  case (Cons op ops)
  have "session_history (foldl serializer_step (serializer_step z op) ops) s
      = session_history (serializer_step z op) s @ writes_of s ops"
    using Cons.IH [OF serializer_wf_step [OF Cons.prems(1)]] Cons.prems(2) by simp
  also have "session_history (serializer_step z op) s = session_history z s @ writes_of s [op]"
  proof (rule history_step [OF Cons.prems(1)])
    show "\<forall>sid. op = Remove sid \<longrightarrow> sid \<noteq> s" using Cons.prems(2) by auto
  qed
  finally show ?case using writes_of_append [of s "[op]" ops] by simp
qed

text \<open>While a session's chain is not removed, the frames written through the serializer
  leave in call order without gaps: whatever the interleaving with other sessions, the calls
  \<open>ws.send\<close> made so far are a prefix of the writes requested, and the rest is still queued.\<close>

theorem serializer_fifo:
  assumes "Remove s \<notin> set ops" and "chains (foldl serializer_step serializer_init ops) s = Some c"
  shows "sent (foldl serializer_step serializer_init ops) c
           @ queues (foldl serializer_step serializer_init ops) c = writes_of s ops"
  using history_run [OF serializer_wf_init assms(1)] assms(2)
  by (simp add: session_history_def) (simp add: serializer_init_def)

theorem serializer_fifo_witness:
  "sent (foldl serializer_step serializer_init
      [Write ''a'' 1 ''x'', Write ''b'' 2 ''y'', Write ''a'' 3 ''z'', RunLink 0]) 0 @
   queues (foldl serializer_step serializer_init
      [Write ''a'' 1 ''x'', Write ''b'' 2 ''y'', Write ''a'' 3 ''z'', RunLink 0]) 0 = [(1, ''x''), (3, ''z'')]"
proof -
  let ?ops = "[Write ''a'' 1 ''x'', Write ''b'' 2 ''y'', Write ''a'' 3 ''z'', RunLink 0]"
  have "Remove ''a'' \<notin> set ?ops" by simp
  moreover have "chains (foldl serializer_step serializer_init ?ops) ''a'' = Some 0"
    by (simp add: serializer_write_def serializer_run_link_def serializer_init_def)
  ultimately have "sent (foldl serializer_step serializer_init ?ops) 0
      @ queues (foldl serializer_step serializer_init ?ops) 0 = writes_of ''a'' ?ops"
    by (rule serializer_fifo)
  then show ?thesis by simp
qed

end
