(* ===== verification/Sessions.thy ===== *)
theory Sessions
  imports Prelude
begin

text \<open>
  The session registry of the bridge (sessions/session.types.ts, sessions/session-manager.ts).
  Session objects are shared between the manager and the tunnel handler, so they live in a
  heap \<open>objects\<close> indexed by their identity, the session id; the manager's \<open>Map\<close> is the list
  of registered ids in insertion order, and \<open>tunnelIndex\<close> maps a public id to a session id.
  The clock, the generated session id and the random part of generated public ids are
  arguments.
\<close>

section \<open>Session objects\<close>

datatype session_mode = Ephemeral | Persistent
datatype session_state = Created | Active | Closing
datatype tunnel_protocol = Framed | Raw

text \<open>What the code can observe of \<open>net.Socket\<close>: open, half-closed by \<open>end()\<close>, destroyed.
  \<open>execStream\<close> names the exec whose start returned the socket.\<close>

datatype socket = SockOpen | SockEnded | SockDestroyed

text \<open>What the client set holds: a WebSocket, or the sentinel object of a proxied streaming
  request (http-server.ts), which has a \<open>close\<close> that does nothing and no \<open>send\<close>.\<close>

datatype client = WebSocket nat | Sentinel nat

record tunnel_session =
  session_id :: string
  containerId :: string
  hostId :: string
  mode :: session_mode
  state :: session_state
  createdAt :: int
  lastActivityAt :: int
  clients :: "client list"
  execId :: "string option"
  execStream :: "(string \<times> socket) option"
  command :: "string list"
  protocol :: tunnel_protocol
  tty :: bool
  agentReady :: bool
  publicId :: "string option"
  label :: string
  appId :: "string option"
  durable :: bool

text \<open>\<open>Set.add\<close> and \<open>Set.delete\<close> on the insertion-ordered client set.\<close>

definition clients_add :: "client \<Rightarrow> client list \<Rightarrow> client list" where
  "clients_add c cs = (if c \<in> set cs then cs else cs @ [c])"

definition clients_delete :: "client \<Rightarrow> client list \<Rightarrow> client list" where
  "clients_delete c cs = filter (\<lambda>d. d \<noteq> c) cs"

section \<open>The manager\<close>

record session_manager =
  objects :: "string \<rightharpoonup> tunnel_session"
  sessions :: "string list"
  tunnelIndex :: "string \<rightharpoonup> string"
  maxSessions :: nat
  sessionIdleTimeout :: int

text \<open>An exception with the optional \<open>statusCode\<close> the HTTP server answers with.\<close>

datatype http_error = HttpError "nat option" string

record create_options =
  opt_mode :: session_mode
  opt_protocol :: tunnel_protocol
  opt_tty :: bool
  opt_appId :: "string option"
  opt_isPublic :: bool
  opt_desiredPublicId :: "string option"
  opt_durable :: bool

text \<open>Mutation of a shared session object.\<close>

definition upd_session ::
    "string \<Rightarrow> (tunnel_session \<Rightarrow> tunnel_session) \<Rightarrow> session_manager \<Rightarrow> session_manager" where
  "upd_session sid f m = m\<lparr>objects := (objects m)(sid := map_option f (objects m sid))\<rparr>"

definition sm_get :: "session_manager \<Rightarrow> string \<Rightarrow> tunnel_session option" where
  "sm_get m sessionId = (if sessionId \<in> set (sessions m) then objects m sessionId else None)"

definition sm_getByPublicId :: "session_manager \<Rightarrow> string \<Rightarrow> tunnel_session option" where
  "sm_getByPublicId m pid = (case tunnelIndex m pid of
       None \<Rightarrow> None
     | Some sessionId \<Rightarrow> if sessionId = [] then None else sm_get m sessionId)"

text \<open>\<open>generatePublicId\<close>: ten attempts; \<open>draw i\<close> is the part of the i-th UUID used.\<close>

definition sm_generatePublicId :: "session_manager \<Rightarrow> (nat \<Rightarrow> string) \<Rightarrow> http_error + string" where
  "sm_generatePublicId m draw =
     (case find (\<lambda>i. tunnelIndex m (''tn-'' @ draw i) = None) [0..<10] of
        Some i \<Rightarrow> Inr (''tn-'' @ draw i)
      | None \<Rightarrow> Inl (HttpError None ''Failed to generate unique public ID''))"

text \<open>The regular expression \<open>^tn-[a-z0-9-]+$\<close>.\<close>

definition public_id_shape :: "string \<Rightarrow> bool" where
  "public_id_shape s = (starts_with s ''tn-'' \<and> length s > 3
     \<and> list_all (\<lambda>c. is_lower_alnum c \<or> c = CHR ''-'') (drop 3 s))"

definition sm_resolvePublicId ::
    "session_manager \<Rightarrow> (nat \<Rightarrow> string) \<Rightarrow> bool \<Rightarrow> string option \<Rightarrow> http_error + string option" where
  "sm_resolvePublicId m draw isPublic desired =
     (if \<not> isPublic then Inr None
      else if truthy desired then
        (if \<not> public_id_shape (the desired) then Inl (HttpError (Some 400) ''Invalid public_id shape'')
         else Inr desired)
      else (case sm_generatePublicId m draw of Inl e \<Rightarrow> Inl e | Inr p \<Rightarrow> Inr (Some p)))"

definition new_session ::
    "int \<Rightarrow> string \<Rightarrow> string \<Rightarrow> string \<Rightarrow> string list \<Rightarrow> string \<Rightarrow> create_options \<Rightarrow> string option
       \<Rightarrow> tunnel_session" where
  "new_session now sid host cid cmd lbl opts pid =
     \<lparr>session_id = sid, containerId = cid, hostId = host, mode = opt_mode opts, state = Created,
      createdAt = now, lastActivityAt = now, clients = [], execId = None, execStream = None,
      command = cmd, protocol = opt_protocol opts, tty = opt_tty opts, agentReady = False,
      publicId = pid, label = lbl, appId = opt_appId opts, durable = opt_durable opts\<rparr>"

lemma new_session_simps [simp]:
  "session_id (new_session now sid host cid cmd lbl opts pid) = sid"
  "publicId (new_session now sid host cid cmd lbl opts pid) = pid"
  "durable (new_session now sid host cid cmd lbl opts pid) = opt_durable opts"
  "state (new_session now sid host cid cmd lbl opts pid) = Created"
  "clients (new_session now sid host cid cmd lbl opts pid) = []"
  "execStream (new_session now sid host cid cmd lbl opts pid) = None"
  "agentReady (new_session now sid host cid cmd lbl opts pid) = False"
  "protocol (new_session now sid host cid cmd lbl opts pid) = opt_protocol opts"
  by (simp_all add: new_session_def)

text \<open>\<open>create\<close>: the existing session for a repeated durable public id, an error, or the new
  session; the result names the session by its id.\<close>

definition sm_create ::
    "session_manager \<Rightarrow> int \<Rightarrow> string \<Rightarrow> (nat \<Rightarrow> string) \<Rightarrow> string \<Rightarrow> string \<Rightarrow> string list \<Rightarrow> string
       \<Rightarrow> create_options \<Rightarrow> http_error + (session_manager \<times> string)" where
  "sm_create m now newId draw host cid cmd lbl opts =
     (case (if opt_durable opts \<and> truthy (opt_desiredPublicId opts)
            then sm_getByPublicId m (the (opt_desiredPublicId opts)) else None) of
        Some existing \<Rightarrow> Inr (m, session_id existing)
      | None \<Rightarrow>
          if length (sessions m) \<ge> maxSessions m
          then Inl (HttpError (Some 503) ''Maximum session limit reached'')
          else (case sm_resolvePublicId m draw (opt_isPublic opts) (opt_desiredPublicId opts) of
              Inl e \<Rightarrow> Inl e
            | Inr pid \<Rightarrow>
                let s = new_session now newId host cid cmd lbl opts pid;
                    m1 = m\<lparr>objects := (objects m)(newId \<mapsto> s),
                           sessions := (if newId \<in> set (sessions m) then sessions m
                                        else sessions m @ [newId])\<rparr>;
                    m2 = (if truthy pid then m1\<lparr>tunnelIndex := (tunnelIndex m1)(the pid \<mapsto> newId)\<rparr>
                          else m1)
                in Inr (m2, newId)))"

definition sm_list ::
    "session_manager \<Rightarrow> string option \<Rightarrow> string option \<Rightarrow> tunnel_session list" where
  "sm_list m containerFilter appFilter =
     (let results = List.map_filter (objects m) (sessions m);
          r1 = (if truthy containerFilter
                then filter (\<lambda>s. containerId s = the containerFilter) results else results)
      in (if truthy appFilter then filter (\<lambda>s. appId s = appFilter) r1 else r1))"

definition sm_delete :: "session_manager \<Rightarrow> string \<Rightarrow> session_manager" where
  "sm_delete m sessionId = (case sm_get m sessionId of
       None \<Rightarrow> m
     | Some s \<Rightarrow>
         let m1 = upd_session sessionId (\<lambda>s. s\<lparr>execStream := map_option (\<lambda>(e, _). (e, SockDestroyed)) (execStream s)\<rparr>) m;
             m2 = (if truthy (publicId s)
                   then m1\<lparr>tunnelIndex := (tunnelIndex m1)(the (publicId s) := None)\<rparr> else m1)
         in m2\<lparr>sessions := filter (\<lambda>i. i \<noteq> sessionId) (sessions m2)\<rparr>)"

definition sm_touch :: "session_manager \<Rightarrow> int \<Rightarrow> string \<Rightarrow> session_manager" where
  "sm_touch m now sessionId = (case sm_get m sessionId of
       None \<Rightarrow> m
     | Some s \<Rightarrow> upd_session sessionId (\<lambda>s. s\<lparr>lastActivityAt := now\<rparr>) m)"

text \<open>The sweep timer: durable sessions are skipped; idle sessions and sessions stuck in
  \<open>created\<close> for more than 60 s are collected, then deleted.\<close>

definition sweep_expired :: "session_manager \<Rightarrow> int \<Rightarrow> tunnel_session \<Rightarrow> bool" where
  "sweep_expired m now s = (\<not> durable s \<and>
     (now - lastActivityAt s > sessionIdleTimeout m
      \<or> (state s = Created \<and> now - createdAt s > 60000)))"

definition sm_sweep :: "session_manager \<Rightarrow> int \<Rightarrow> session_manager" where
  "sm_sweep m now =
     (let toDelete = filter (\<lambda>i. case objects m i of None \<Rightarrow> False | Some s \<Rightarrow> sweep_expired m now s)
                       (sessions m)
      in foldl sm_delete m toDelete)"

lemmas sm_simps = sm_get_def upd_session_def

section \<open>Well-formed managers\<close>

definition sm_wf :: "session_manager \<Rightarrow> bool" where
  "sm_wf m \<longleftrightarrow> distinct (sessions m)
     \<and> (\<forall>i \<in> set (sessions m). \<exists>s. objects m i = Some s)
     \<and> (\<forall>i s. objects m i = Some s \<longrightarrow> session_id s = i)
     \<and> (\<forall>p i. tunnelIndex m p = Some i \<longrightarrow> p \<noteq> [] \<and>
          i \<in> set (sessions m) \<and> (\<exists>s. objects m i = Some s \<and> publicId s = Some p))
     \<and> length (sessions m) \<le> maxSessions m"

definition sm_init :: "nat \<Rightarrow> int \<Rightarrow> session_manager" where
  "sm_init mx idle = \<lparr>objects = Map.empty, sessions = [], tunnelIndex = Map.empty,
     maxSessions = mx, sessionIdleTimeout = idle\<rparr>"

lemma sm_wf_init: "sm_wf (sm_init mx idle)"
  by (simp add: sm_wf_def sm_init_def)

lemma sm_wfD:
  assumes "sm_wf m"
  shows "distinct (sessions m)" "length (sessions m) \<le> maxSessions m"
    and "\<And>i. i \<in> set (sessions m) \<Longrightarrow> \<exists>s. objects m i = Some s"
    and "\<And>i s. objects m i = Some s \<Longrightarrow> session_id s = i"
    and "\<And>p i. tunnelIndex m p = Some i \<Longrightarrow> i \<in> set (sessions m)"
    and "\<And>p i. tunnelIndex m p = Some i \<Longrightarrow> \<exists>s. objects m i = Some s \<and> publicId s = Some p"
    and "\<And>p i. tunnelIndex m p = Some i \<Longrightarrow> p \<noteq> []"
  using assms unfolding sm_wf_def by blast+

text \<open>A mutation that keeps a session's identity and public id keeps the invariant.\<close>

lemma sm_wf_upd:
  assumes "sm_wf m" "\<And>s. session_id (f s) = session_id s" "\<And>s. publicId (f s) = publicId s"
  shows "sm_wf (upd_session sid f m)"
  using assms unfolding sm_wf_def upd_session_def
  by (auto split: if_splits) (metis option.sel)+

lemma sm_wf_touch: "sm_wf m \<Longrightarrow> sm_wf (sm_touch m now sid)"
  by (auto simp: sm_touch_def intro!: sm_wf_upd split: option.splits)

text \<open>\<open>delete\<close> of a registered session, field by field.\<close>

lemma sm_delete_fields:
  assumes "sm_get m sid = Some s"
  shows "objects (sm_delete m sid) =
      (objects m)(sid \<mapsto> s\<lparr>execStream := map_option (\<lambda>(e, _). (e, SockDestroyed)) (execStream s)\<rparr>)"
    and "sessions (sm_delete m sid) = filter (\<lambda>i. i \<noteq> sid) (sessions m)"
    and "tunnelIndex (sm_delete m sid) =
      (if truthy (publicId s) then (tunnelIndex m)(the (publicId s) := None) else tunnelIndex m)"
    and "maxSessions (sm_delete m sid) = maxSessions m"
    and "sessionIdleTimeout (sm_delete m sid) = sessionIdleTimeout m"
  using assms
  by (auto simp: sm_delete_def upd_session_def Let_def sm_get_def split: if_splits)

lemma sm_delete_absent: "sm_get m sid = None \<Longrightarrow> sm_delete m sid = m"
  by (simp add: sm_delete_def)

lemma sm_wf_delete:
  assumes "sm_wf m"
  shows "sm_wf (sm_delete m sid)"
proof (cases "sm_get m sid")
  case None
  then show ?thesis using assms by (simp add: sm_delete_absent)
next
  case (Some s)
  then have s: "objects m sid = Some s" by (simp add: sm_get_def split: if_splits)
  note f = sm_delete_fields [OF Some]
  have len: "length (filter (\<lambda>i. i \<noteq> sid) (sessions m)) \<le> maxSessions m"
    using sm_wfD(2) [OF assms] length_filter_le le_trans by blast
  have idx: "i \<noteq> sid \<and> i \<in> set (sessions m) \<and> (\<exists>t. objects m i = Some t \<and> publicId t = Some p)"
    if "tunnelIndex (sm_delete m sid) p = Some i" for p i
  proof -
    have old: "tunnelIndex m p = Some i" and pp: "truthy (publicId s) \<Longrightarrow> p \<noteq> the (publicId s)"
      using that f(3) by (auto split: if_splits)
    have ne: "p \<noteq> []" by (rule sm_wfD(7) [OF assms old])
    obtain t where t: "objects m i = Some t" "publicId t = Some p"
      using sm_wfD(6) [OF assms old] by blast
    then have "i \<noteq> sid" using s pp ne by (auto simp: truthy_iff)
    then show ?thesis using sm_wfD(5) [OF assms old] t by blast
  qed
  have nonempty: "p \<noteq> []" if "tunnelIndex (sm_delete m sid) p = Some i" for p i
    using that sm_wfD(7) [OF assms] by (auto simp: f(3) split: if_splits)
  show ?thesis
    unfolding sm_wf_def f(1,2,4)
    using len sm_wfD(1,3,4) [OF assms] s idx nonempty by auto
qed

text \<open>A fresh id: no object has it yet, and it is not empty (the code prefixes \<open>sess_\<close>).\<close>

definition fresh_id :: "session_manager \<Rightarrow> string \<Rightarrow> bool" where
  "fresh_id m i \<longleftrightarrow> objects m i = None \<and> i \<noteq> []"

text \<open>The two ways \<open>create\<close> succeeds.\<close>

definition created_existing :: "session_manager \<Rightarrow> create_options \<Rightarrow> session_manager \<Rightarrow> string \<Rightarrow> bool" where
  "created_existing m opts m' i \<longleftrightarrow> opt_durable opts \<and> truthy (opt_desiredPublicId opts) \<and> m' = m
     \<and> (\<exists>e. sm_getByPublicId m (the (opt_desiredPublicId opts)) = Some e \<and> i = session_id e)"

definition created_fresh ::
    "session_manager \<Rightarrow> string \<Rightarrow> tunnel_session \<Rightarrow> session_manager \<Rightarrow> bool" where
  "created_fresh m newId s m' \<longleftrightarrow> length (sessions m) < maxSessions m
     \<and> objects m' = (objects m)(newId \<mapsto> s)
     \<and> sessions m' = (if newId \<in> set (sessions m) then sessions m else sessions m @ [newId])
     \<and> tunnelIndex m' = (if truthy (publicId s) then (tunnelIndex m)(the (publicId s) \<mapsto> newId)
                         else tunnelIndex m)
     \<and> maxSessions m' = maxSessions m \<and> sessionIdleTimeout m' = sessionIdleTimeout m"

lemma sm_create_cases:
  assumes "sm_create m now newId draw host cid cmd lbl opts = Inr (m', i)"
  shows "created_existing m opts m' i
    \<or> (\<exists>pid. i = newId
         \<and> sm_resolvePublicId m draw (opt_isPublic opts) (opt_desiredPublicId opts) = Inr pid
         \<and> created_fresh m newId (new_session now newId host cid cmd lbl opts pid) m')"
proof (cases "if opt_durable opts \<and> truthy (opt_desiredPublicId opts)
            then sm_getByPublicId m (the (opt_desiredPublicId opts)) else None")
  case (Some e)
  then show ?thesis
    using assms unfolding sm_create_def created_existing_def by (simp split: if_splits)
next
  case None
  have lt: "length (sessions m) < maxSessions m"
    using assms unfolding sm_create_def None by (auto split: if_splits)
  show ?thesis
  proof (cases "sm_resolvePublicId m draw (opt_isPublic opts) (opt_desiredPublicId opts)")
    case (Inl e)
    with lt assms show ?thesis unfolding sm_create_def None by simp
  next
    case (Inr pid)
    with lt assms show ?thesis
      unfolding sm_create_def None by (auto simp: Let_def created_fresh_def)
  qed
qed

lemma sm_wf_fresh:
  assumes "sm_wf m" "fresh_id m newId" "created_fresh m newId s m'" "session_id s = newId"
  shows "sm_wf m'"
proof -
  have notin: "newId \<notin> set (sessions m)"
    using assms(2) sm_wfD(3) [OF assms(1), of newId] by (auto simp: fresh_id_def)
  have idx: "j \<noteq> newId" if "tunnelIndex m p = Some j" for p j
    using sm_wfD(5) [OF assms(1) that] notin by auto
  show ?thesis
    unfolding sm_wf_def
    using assms(3,4) notin idx sm_wfD [OF assms(1)]
    by (auto simp: created_fresh_def truthy_iff split: if_splits)
qed

lemma sm_wf_create:
  assumes "sm_wf m" "fresh_id m newId"
    and "sm_create m now newId draw host cid cmd lbl opts = Inr (m', i)"
  shows "sm_wf m'"
  using sm_create_cases [OF assms(3)]
proof (elim disjE exE conjE)
  assume "created_existing m opts m' i"
  then show ?thesis using assms(1) by (simp add: created_existing_def)
next
  fix pid
  assume "created_fresh m newId (new_session now newId host cid cmd lbl opts pid) m'"
  then show ?thesis by (rule sm_wf_fresh [OF assms(1,2)]) simp
qed

section \<open>Operation sequences\<close>

datatype sm_op =
    OpCreate int string "nat \<Rightarrow> string" string string "string list" string create_options
  | OpDelete string
  | OpTouch int string
  | OpSweep int

fun sm_step :: "session_manager \<Rightarrow> sm_op \<Rightarrow> session_manager" where
  "sm_step m (OpCreate now newId draw host cid cmd lbl opts) =
     (case sm_create m now newId draw host cid cmd lbl opts of Inl e \<Rightarrow> m | Inr (m', i) \<Rightarrow> m')"
| "sm_step m (OpDelete i) = sm_delete m i"
| "sm_step m (OpTouch now i) = sm_touch m now i"
| "sm_step m (OpSweep now) = sm_sweep m now"

text \<open>Runs in which every generated id is fresh when it is used.\<close>

fun sm_fresh_run :: "session_manager \<Rightarrow> sm_op list \<Rightarrow> bool" where
  "sm_fresh_run m [] = True"
| "sm_fresh_run m (op # ops) =
     ((case op of OpCreate now newId draw host cid cmd lbl opts \<Rightarrow> fresh_id m newId | _ \<Rightarrow> True)
      \<and> sm_fresh_run (sm_step m op) ops)"

lemma sm_wf_foldl_delete: "sm_wf m \<Longrightarrow> sm_wf (foldl sm_delete m is)"
  by (induction "is" arbitrary: m) (auto simp: sm_wf_delete)

lemma sm_wf_sweep: "sm_wf m \<Longrightarrow> sm_wf (sm_sweep m now)"
  by (simp add: sm_sweep_def sm_wf_foldl_delete)

lemma sm_wf_step:
  assumes "sm_wf m"
    and "case op of OpCreate now newId draw host cid cmd lbl opts \<Rightarrow> fresh_id m newId | _ \<Rightarrow> True"
  shows "sm_wf (sm_step m op)"
  using assms
  by (cases op) (auto simp: sm_wf_delete sm_wf_touch sm_wf_sweep sm_wf_create split: sum.splits)

lemma sm_wf_run: "sm_wf m \<Longrightarrow> sm_fresh_run m ops \<Longrightarrow> sm_wf (foldl sm_step m ops)"
  by (induction ops arbitrary: m) (simp_all add: sm_wf_step)

text \<open>Starting from an empty manager, every sequence of create, delete, touch and sweep
  keeps the registry consistent: no duplicate ids, every registered id has its object, every
  \<open>tunnelIndex\<close> entry leads to a live session with that public id, and the number of sessions
  stays within \<open>maxSessions\<close>.\<close>

theorem session_registry_invariant:
  assumes "sm_fresh_run (sm_init mx idle) ops"
  shows "sm_wf (foldl sm_step (sm_init mx idle) ops)"
  by (rule sm_wf_run [OF sm_wf_init assms])

section \<open>Deletion and sweeping\<close>

lemma sm_delete_sessions: "sm_wf m \<Longrightarrow> sessions (sm_delete m i) = filter (\<lambda>j. j \<noteq> i) (sessions m)"
proof (cases "sm_get m i")
  case None
  assume "sm_wf m"
  with None have "i \<notin> set (sessions m)" using sm_wfD(3) by (fastforce simp: sm_get_def)
  then have "filter (\<lambda>j. j \<noteq> i) (sessions m) = sessions m" by (auto simp: filter_id_conv)
  with None show ?thesis by (simp add: sm_delete_absent)
next
  case (Some s)
  then show ?thesis by (rule sm_delete_fields)
qed

lemma sm_delete_other: "j \<noteq> i \<Longrightarrow> objects (sm_delete m i) j = objects m j"
  by (cases "sm_get m i") (simp_all add: sm_delete_fields sm_delete_absent)

lemma foldl_delete_sessions:
  "sm_wf m \<Longrightarrow> sessions (foldl sm_delete m is) = filter (\<lambda>j. j \<notin> set is) (sessions m)"
proof (induction "is" arbitrary: m)
  case (Cons i "is")
  have "sessions (foldl sm_delete (sm_delete m i) is)
      = filter (\<lambda>j. j \<notin> set is) (sessions (sm_delete m i))"
    by (rule Cons.IH [OF sm_wf_delete [OF Cons.prems]])
  then show ?case by (simp add: sm_delete_sessions [OF Cons.prems] conj_commute)
qed simp

lemma foldl_delete_other: "j \<notin> set is \<Longrightarrow> objects (foldl sm_delete m is) j = objects m j"
  by (induction "is" arbitrary: m) (auto simp: sm_delete_other)

definition live :: "session_manager \<Rightarrow> int \<Rightarrow> string \<Rightarrow> bool" where
  "live m now i = (case objects m i of None \<Rightarrow> True | Some s \<Rightarrow> \<not> sweep_expired m now s)"

lemma sweep_sessions:
  assumes "sm_wf m"
  shows "sessions (sm_sweep m now) = filter (live m now) (sessions m)"
  unfolding sm_sweep_def Let_def foldl_delete_sessions [OF assms]
  by (rule filter_cong) (auto simp: live_def split: option.splits)

lemma sweep_objects: "live m now i \<Longrightarrow> objects (sm_sweep m now) i = objects m i"
  unfolding sm_sweep_def Let_def
  by (rule foldl_delete_other) (simp add: live_def split: option.splits)

text \<open>One sweep keeps exactly the sessions that are durable, or that were active within
  the idle timeout and are not stuck in \<open>created\<close> past 60 s; their order and their objects
  are untouched.\<close>

theorem sweep_exact:
  assumes "sm_wf m"
  shows "sessions (sm_sweep m now) = filter (live m now) (sessions m)
    \<and> (\<forall>i \<in> set (sessions (sm_sweep m now)). objects (sm_sweep m now) i = objects m i)"
proof (rule conjI [OF sweep_sessions [OF assms]])
  show "\<forall>i \<in> set (sessions (sm_sweep m now)). objects (sm_sweep m now) i = objects m i"
    unfolding sweep_sessions [OF assms] by (simp add: sweep_objects)
qed

section \<open>Creation outcomes\<close>

definition existing_durable :: "session_manager \<Rightarrow> create_options \<Rightarrow> tunnel_session option" where
  "existing_durable m opts =
     (if opt_durable opts \<and> truthy (opt_desiredPublicId opts)
      then sm_getByPublicId m (the (opt_desiredPublicId opts)) else None)"

lemma generatePublicId_iff:
  "(\<exists>e. sm_generatePublicId m draw = Inl e) \<longleftrightarrow> (\<forall>i < 10. tunnelIndex m (''tn-'' @ draw i) \<noteq> None)"
  by (auto simp: sm_generatePublicId_def find_None_iff split: option.splits)
     (auto simp: find_Some_iff)

lemma generatePublicId_fresh:
  "sm_generatePublicId m draw = Inr p \<Longrightarrow> tunnelIndex m p = None \<and> p \<noteq> []"
  by (auto simp: sm_generatePublicId_def find_Some_iff split: option.splits)

lemma resolvePublicId_error_iff:
  "(\<exists>e. sm_resolvePublicId m draw pub desired = Inl e) \<longleftrightarrow>
     pub \<and> ((truthy desired \<and> \<not> public_id_shape (the desired))
            \<or> (\<not> truthy desired \<and> (\<forall>i < 10. tunnelIndex m (''tn-'' @ draw i) \<noteq> None)))"
  using generatePublicId_iff [of m draw]
  by (auto simp: sm_resolvePublicId_def split: sum.splits)

lemma sm_create_fresh:
  assumes "existing_durable m opts = None" "length (sessions m) < maxSessions m"
    and "sm_resolvePublicId m draw (opt_isPublic opts) (opt_desiredPublicId opts) = Inr pid"
  shows "\<exists>m'. sm_create m now newId draw host cid cmd lbl opts = Inr (m', newId)
    \<and> created_fresh m newId (new_session now newId host cid cmd lbl opts pid) m'"
  using assms(2,3) assms(1) [unfolded existing_durable_def]
  unfolding sm_create_def created_fresh_def by (simp add: Let_def)

text \<open>\<open>create\<close> fails in exactly three situations, and only when no live durable session
  already owns the requested id: the registry is full, the caller asks for a public id of the
  wrong shape, or all ten generated public ids are taken.\<close>

theorem create_error_exact:
  "(\<exists>e. sm_create m now newId draw host cid cmd lbl opts = Inl e) \<longleftrightarrow>
     existing_durable m opts = None \<and>
     (length (sessions m) \<ge> maxSessions m
      \<or> (opt_isPublic opts \<and> truthy (opt_desiredPublicId opts)
           \<and> \<not> public_id_shape (the (opt_desiredPublicId opts)))
      \<or> (opt_isPublic opts \<and> \<not> truthy (opt_desiredPublicId opts)
           \<and> (\<forall>i < 10. tunnelIndex m (''tn-'' @ draw i) \<noteq> None)))"
proof (cases "existing_durable m opts")
  case None
  show ?thesis
    using resolvePublicId_error_iff [of m draw "opt_isPublic opts" "opt_desiredPublicId opts"] None
    unfolding sm_create_def existing_durable_def
    by (cases "sm_resolvePublicId m draw (opt_isPublic opts) (opt_desiredPublicId opts)")
       (auto simp: Let_def split: option.splits)
next
  case (Some e)
  then show ?thesis unfolding sm_create_def existing_durable_def by (simp split: option.splits)
qed

section \<open>Durable sessions\<close>

text \<open>Session \<open>i\<close> is registered and durable, it owns the index entry of its public id \<open>p\<close>,
  and no other registered session carries that id.\<close>

definition durable_at :: "session_manager \<Rightarrow> string \<Rightarrow> string \<Rightarrow> bool" where
  "durable_at m p i \<longleftrightarrow> tunnelIndex m p = Some i \<and> i \<in> set (sessions m) \<and> i \<noteq> []
     \<and> (\<exists>s. objects m i = Some s \<and> durable s \<and> publicId s = Some p)
     \<and> (\<forall>j \<in> set (sessions m). j \<noteq> i \<longrightarrow> (\<forall>s. objects m j = Some s \<longrightarrow> publicId s \<noteq> Some p))"

lemma durable_at_getByPublicId:
  "durable_at m p i \<Longrightarrow> \<exists>s. sm_getByPublicId m p = Some s \<and> objects m i = Some s"
  by (auto simp: durable_at_def sm_getByPublicId_def sm_get_def)

lemma durable_at_touch: "durable_at m p i \<Longrightarrow> durable_at (sm_touch m now j) p i"
  by (auto simp: durable_at_def sm_touch_def upd_session_def split: option.splits)

lemma durable_at_delete:
  assumes "durable_at m p i" "j \<noteq> i"
  shows "durable_at (sm_delete m j) p i"
proof (cases "sm_get m j")
  case None
  then show ?thesis using assms(1) by (simp add: sm_delete_absent)
next
  case (Some s)
  then have "objects m j = Some s" "j \<in> set (sessions m)" by (auto simp: sm_get_def split: if_splits)
  then have "publicId s \<noteq> Some p" using assms by (auto simp: durable_at_def)
  then have "truthy (publicId s) \<Longrightarrow> the (publicId s) \<noteq> p" by (auto simp: truthy_iff)
  then show ?thesis
    using assms unfolding durable_at_def sm_delete_fields [OF Some] by auto
qed

lemma durable_at_foldl_delete:
  "durable_at m p i \<Longrightarrow> i \<notin> set is \<Longrightarrow> durable_at (foldl sm_delete m is) p i"
  by (induction "is" arbitrary: m) (simp_all add: durable_at_delete not_sym)

lemma durable_at_sweep: "durable_at m p i \<Longrightarrow> durable_at (sm_sweep m now) p i"
  unfolding sm_sweep_def Let_def
  by (rule durable_at_foldl_delete) (auto simp: durable_at_def sweep_expired_def)

text \<open>A public id chosen by \<open>resolvePublicId\<close> differs from an indexed id that was not asked
  for.\<close>

lemma resolvePublicId_other:
  assumes "sm_resolvePublicId m draw pub desired = Inr pid" "tunnelIndex m p = Some i"
    and "desired \<noteq> Some p"
  shows "pid \<noteq> Some p"
  using assms by (auto simp: sm_resolvePublicId_def dest: generatePublicId_fresh
      split: if_splits sum.splits)

lemma durable_at_create:
  assumes "durable_at m p i" "fresh_id m newId"
    and "sm_create m now newId draw host cid cmd lbl opts = Inr (m', k)"
    and "opt_durable opts \<or> opt_desiredPublicId opts \<noteq> Some p" "p \<noteq> []"
  shows "durable_at m' p i"
  using sm_create_cases [OF assms(3)]
proof (elim disjE exE conjE)
  assume "created_existing m opts m' k"
  then show ?thesis using assms(1) by (simp add: created_existing_def)
next
  fix pid
  assume pid: "sm_resolvePublicId m draw (opt_isPublic opts) (opt_desiredPublicId opts) = Inr pid"
    and fr: "created_fresh m newId (new_session now newId host cid cmd lbl opts pid) m'"
  have ni: "newId \<noteq> i" using assms(1,2) by (auto simp: durable_at_def fresh_id_def)
  have "opt_desiredPublicId opts \<noteq> Some p"
  proof
    assume d: "opt_desiredPublicId opts = Some p"
    with assms(4) have "opt_durable opts" by simp
    obtain s where s: "sm_getByPublicId m p = Some s" "objects m i = Some s"
      using durable_at_getByPublicId [OF assms(1)] by blast
    have "sm_create m now newId draw host cid cmd lbl opts = Inr (m, session_id s)"
      using d \<open>opt_durable opts\<close> assms(5) s(1) unfolding sm_create_def by simp
    with assms(3) have "m' = m" by simp
    moreover have "objects m newId = None" using assms(2) by (simp add: fresh_id_def)
    moreover have "objects m' newId \<noteq> None" using fr by (simp add: created_fresh_def)
    ultimately show False by simp
  qed
  then have "pid \<noteq> Some p"
    using resolvePublicId_other [OF pid, of p i] assms(1) by (simp add: durable_at_def)
  then show ?thesis
    using assms(1) fr ni unfolding durable_at_def created_fresh_def
    by (auto simp: truthy_iff)
qed

text \<open>Operations that leave session \<open>i\<close> with public id \<open>p\<close> alone: it is not deleted, and only
  durable creates name its id.\<close>

fun leaves_alone :: "string \<Rightarrow> string \<Rightarrow> sm_op \<Rightarrow> bool" where
  "leaves_alone p i (OpCreate now newId draw host cid cmd lbl opts) =
     (opt_durable opts \<or> opt_desiredPublicId opts \<noteq> Some p)"
| "leaves_alone p i (OpDelete j) = (j \<noteq> i)"
| "leaves_alone p i (OpTouch now j) = True"
| "leaves_alone p i (OpSweep now) = True"

lemma durable_at_step:
  assumes "durable_at m p i" "p \<noteq> []" "leaves_alone p i op"
    and "case op of OpCreate now newId draw host cid cmd lbl opts \<Rightarrow> fresh_id m newId | _ \<Rightarrow> True"
  shows "durable_at (sm_step m op) p i"
  using assms
  by (cases op) (auto simp: durable_at_delete durable_at_touch durable_at_sweep durable_at_create
      split: sum.splits)

lemma durable_at_run:
  "durable_at m p i \<Longrightarrow> p \<noteq> [] \<Longrightarrow> list_all (leaves_alone p i) ops \<Longrightarrow> sm_fresh_run m ops \<Longrightarrow>
     durable_at (foldl sm_step m ops) p i"
  by (induction ops arbitrary: m) (auto intro: durable_at_step)

text \<open>A durable session is never swept and stays the owner of its public id through any
  sequence of sweeps, touches, deletions of other sessions and creations (other than a
  non-durable one that names its id); a repeated durable \<open>create\<close> for that id then returns
  it and changes nothing, even when the registry is full.\<close>

theorem durable_create_idempotent:
  assumes "durable_at m p i" "sm_wf m"
    and "list_all (leaves_alone p i) ops" "sm_fresh_run m ops"
    and "opt_durable opts" "opt_desiredPublicId opts = Some p"
  shows "sm_create (foldl sm_step m ops) now newId draw host cid cmd lbl opts
           = Inr (foldl sm_step m ops, i)"
proof -
  let ?m = "foldl sm_step m ops"
  have p: "p \<noteq> []" using assms(1) sm_wfD(7) [OF assms(2)] by (auto simp: durable_at_def)
  have wf: "sm_wf ?m"
    by (rule sm_wf_run [OF assms(2,4)])
  have "durable_at ?m p i" by (rule durable_at_run [OF assms(1) p assms(3,4)])
  then obtain s where s: "sm_getByPublicId ?m p = Some s" "objects ?m i = Some s"
    using durable_at_getByPublicId by blast
  then have "session_id s = i" using sm_wfD(4) [OF wf] by blast
  then show ?thesis using s(1) assms(5,6) p unfolding sm_create_def by simp
qed

text \<open>A durable session created without \<open>public\<close> has no public id, so the repeated create
  is not recognised: a second durable session is registered next to the first, and no sweep
  ever removes either of them.\<close>

theorem durable_private_not_idempotent:
  assumes "opt_durable opts" "\<not> opt_isPublic opts" "fresh_id m a" "fresh_id m b" "a \<noteq> b"
    and "sm_wf m" "existing_durable m opts = None" "length (sessions m) + 1 < maxSessions m"
  shows "\<exists>m1 m2. sm_create m now a draw host cid cmd lbl opts = Inr (m1, a)
    \<and> sm_create m1 now' b draw' host cid cmd lbl opts = Inr (m2, b)
    \<and> (\<forall>t. a \<in> set (sessions (sm_sweep m2 t)) \<and> b \<in> set (sessions (sm_sweep m2 t)))"
proof -
  obtain m1 where m1: "sm_create m now a draw host cid cmd lbl opts = Inr (m1, a)"
    "created_fresh m a (new_session now a host cid cmd lbl opts None) m1"
    using sm_create_fresh [OF assms(7), of draw None now a host cid cmd lbl] assms(2,8)
    by (auto simp: sm_resolvePublicId_def)
  have wf1: "sm_wf m1" by (rule sm_wf_fresh [OF assms(6,3) m1(2)]) simp
  have a_notin: "a \<notin> set (sessions m)"
    using assms(3) sm_wfD(3) [OF assms(6), of a] by (auto simp: fresh_id_def)
  have b_notin: "b \<notin> set (sessions m)"
    using assms(4) sm_wfD(3) [OF assms(6), of b] by (auto simp: fresh_id_def)
  have ex1: "existing_durable m1 opts = None"
  proof -
    have "sm_getByPublicId m1 q = None" if "sm_getByPublicId m q = None" for q
      using that m1(2) sm_wfD(3,5) [OF assms(6)]
      by (fastforce simp: sm_getByPublicId_def sm_get_def created_fresh_def split: option.splits if_splits)
    then show ?thesis using assms(7) by (auto simp: existing_durable_def split: if_splits)
  qed
  have len: "length (sessions m1) < maxSessions m1"
    using m1(2) assms(8) a_notin by (simp add: created_fresh_def)
  obtain m2 where m2: "sm_create m1 now' b draw' host cid cmd lbl opts = Inr (m2, b)"
    "created_fresh m1 b (new_session now' b host cid cmd lbl opts None) m2"
    using sm_create_fresh [OF ex1 len, of draw' None now' b host cid cmd lbl] assms(2)
    by (auto simp: sm_resolvePublicId_def)
  have fb: "fresh_id m1 b" using assms(4,5) m1(2) by (simp add: fresh_id_def created_fresh_def)
  have wf2: "sm_wf m2" by (rule sm_wf_fresh [OF wf1 fb m2(2)]) simp
  have keep: "live m2 t i" if "i = a \<or> i = b" for t i
    using that m1(2) m2(2) assms(1,5) by (auto simp: live_def sweep_expired_def created_fresh_def)
  have "a \<in> set (sessions m2)" "b \<in> set (sessions m2)"
    using m1(2) m2(2) by (auto simp: created_fresh_def)
  then show ?thesis using m1(1) m2(1) keep by (auto simp: sweep_sessions [OF wf2])
qed

text \<open>Concrete inputs: two creates, one touch and a sweep on a manager for two sessions.\<close>

definition ex_opts :: "bool \<Rightarrow> bool \<Rightarrow> string option \<Rightarrow> create_options" where
  "ex_opts pub dur pid = \<lparr>opt_mode = Persistent, opt_protocol = Framed, opt_tty = False,
     opt_appId = Some ''app'', opt_isPublic = pub, opt_desiredPublicId = pid, opt_durable = dur\<rparr>"

definition ex_draw :: "nat \<Rightarrow> string" where
  "ex_draw i = replicate (Suc i) (CHR ''a'')"

definition ex_ops :: "sm_op list" where
  "ex_ops = [OpCreate 0 ''s1'' ex_draw ''h'' ''c'' [] ''l'' (ex_opts True True (Some ''tn-a'')),
             OpCreate 5 ''s2'' ex_draw ''h'' ''c'' [] ''l'' (ex_opts False False None),
             OpTouch 9 ''s2'', OpSweep 100000]"

lemmas ex_sm_simps = sm_create_def sm_resolvePublicId_def sm_getByPublicId_def sm_get_def
  sm_touch_def upd_session_def sm_init_def fresh_id_def ex_opts_def public_id_shape_def
  starts_with_def is_lower_alnum_def

lemma ex_fresh: "sm_fresh_run (sm_init 2 1000) ex_ops"
  by (simp add: ex_ops_def ex_sm_simps)

definition ex_durable :: session_manager where
  "ex_durable = foldl sm_step (sm_init 2 1000) ex_ops"

lemma ex_durable_at: "durable_at ex_durable ''tn-a'' ''s1''"
  by (simp add: ex_durable_def ex_ops_def durable_at_def sm_sweep_def sweep_expired_def sm_delete_def
      ex_sm_simps new_session_def)

theorem session_registry_invariant_witness: "sm_wf (foldl sm_step (sm_init 2 1000) ex_ops)"
  by (rule session_registry_invariant [OF ex_fresh])

theorem sweep_exact_witness:
  "sessions (sm_sweep (sm_init 2 1000) 7) = filter (live (sm_init 2 1000) 7) []"
  using sweep_exact [OF sm_wf_init [of 2 1000], of 7] by (simp add: sm_init_def)

theorem durable_create_idempotent_witness:
  "sm_create (foldl sm_step ex_durable [OpSweep 200000]) 3 ''x'' ex_draw ''h'' ''c'' [] ''l''
       (ex_opts True True (Some ''tn-a'')) = Inr (foldl sm_step ex_durable [OpSweep 200000], ''s1'')"
proof (rule durable_create_idempotent [OF ex_durable_at])
  show wf: "sm_wf ex_durable"
    unfolding ex_durable_def by (rule sm_wf_run [OF sm_wf_init ex_fresh])
qed (simp_all add: ex_opts_def)

theorem durable_private_not_idempotent_witness:
  "\<exists>m1 m2. sm_create (sm_init 3 1000) 0 ''a'' ex_draw ''h'' ''c'' [] ''l''
         (ex_opts False True (Some ''tn-a'')) = Inr (m1, ''a'')
    \<and> sm_create m1 1 ''b'' ex_draw ''h'' ''c'' [] ''l''
         (ex_opts False True (Some ''tn-a'')) = Inr (m2, ''b'')
    \<and> (\<forall>t. ''a'' \<in> set (sessions (sm_sweep m2 t)) \<and> ''b'' \<in> set (sessions (sm_sweep m2 t)))"
  by (rule durable_private_not_idempotent [where a = "''a''" and b = "''b''"])
    (simp_all add: ex_opts_def fresh_id_def existing_durable_def sm_getByPublicId_def sm_wf_init,
     simp_all add: sm_init_def)

theorem create_error_exact_witness:
  "\<exists>e. sm_create (sm_init 0 1000) 3 ''x'' ex_draw ''h'' ''c'' [] ''l'' (ex_opts True False None) = Inl e"
  unfolding create_error_exact by (simp add: sm_init_def existing_durable_def ex_opts_def)

end
