(* ===== verification/Adapter_Pool.thy ===== *)
theory Adapter_Pool
  imports Prelude
begin

text \<open>
  The cache of Docker adapters (docker/adapter-pool.ts).  The adapter itself is a wrapper of
  the Docker client library; what the pool knows of it is the endpoint it was created for.
  Host tables are JavaScript objects with own keys only.
\<close>

record host_entry =
  host_type :: string
  host_endpoint :: string

datatype docker_adapter = DockerodeAdapter string

record adapter_pool =
  adapters :: "(string, docker_adapter) js_map"
  hosts :: "(string, host_entry) js_map"

definition pool_new :: "(string, host_entry) js_map \<Rightarrow> adapter_pool" where
  "pool_new hs = \<lparr>adapters = [], hosts = hs\<rparr>"

definition createAdapter :: "host_entry \<Rightarrow> string + docker_adapter" where
  "createAdapter cfg =
     (if host_type cfg = ''docker_endpoint'' then Inr (DockerodeAdapter (host_endpoint cfg))
      else Inl (''Unsupported Docker host type: '' @ host_type cfg))"

definition pool_get :: "adapter_pool \<Rightarrow> string \<Rightarrow> adapter_pool \<times> (string + docker_adapter)" where
  "pool_get p hostId = (case map_of (adapters p) hostId of
       Some a \<Rightarrow> (p, Inr a)
     | None \<Rightarrow> (case map_of (hosts p) hostId of
         None \<Rightarrow> (p, Inl (''Unknown Docker host: '' @ hostId))
       | Some cfg \<Rightarrow> (case createAdapter cfg of
           Inl e \<Rightarrow> (p, Inl e)
         | Inr a \<Rightarrow> (p\<lparr>adapters := map_set hostId a (adapters p)\<rparr>, Inr a))))"

definition pool_has :: "adapter_pool \<Rightarrow> string \<Rightarrow> bool" where
  "pool_has p hostId = (map_of (hosts p) hostId \<noteq> None)"

definition pool_hostIds :: "adapter_pool \<Rightarrow> string list" where
  "pool_hostIds p = map fst (hosts p)"

definition host_changed :: "host_entry option \<Rightarrow> host_entry \<Rightarrow> bool" where
  "host_changed existing entry = (case existing of
       None \<Rightarrow> False
     | Some h \<Rightarrow> host_endpoint h \<noteq> host_endpoint entry \<or> host_type h \<noteq> host_type entry)"

definition pool_updateHosts :: "adapter_pool \<Rightarrow> (string, host_entry) js_map \<Rightarrow> adapter_pool" where
  "pool_updateHosts p newHosts =
     (let kept = filter (\<lambda>(h, a). map_of newHosts h \<noteq> None) (adapters p);
          pruned = foldl (\<lambda>as (h, entry).
                     if host_changed (map_of (hosts p) h) entry then map_delete h as else as)
                   kept newHosts
      in \<lparr>adapters = pruned, hosts = newHosts\<rparr>)"

text \<open>The pool is coherent when every cached adapter is the one the current host table asks
  for.\<close>

definition pool_coherent :: "adapter_pool \<Rightarrow> bool" where
  "pool_coherent p \<longleftrightarrow> map_wf (hosts p) \<and>
     (\<forall>h a. map_of (adapters p) h = Some a \<longrightarrow>
        (\<exists>cfg. map_of (hosts p) h = Some cfg \<and> createAdapter cfg = Inr a))"

lemma pool_coherent_get: "pool_coherent p \<Longrightarrow> pool_coherent (fst (pool_get p h))"
  by (auto simp: pool_coherent_def pool_get_def split: option.splits sum.splits)

lemma map_of_filter_key: "map_of (filter (\<lambda>(h, a). P h) m) h = (if P h then map_of m h else None)"
  by (induction m) auto

lemma foldl_prune:
  "map_of (foldl (\<lambda>as (h, e). if Q h e then map_delete h as else as) m xs) k
     = (if \<exists>e. (k, e) \<in> set xs \<and> Q k e then None else map_of m k)"
  by (induction xs arbitrary: m) auto

lemma pool_update_adapters:
  "map_of (adapters (pool_updateHosts p hs)) h =
     (if (\<exists>e. (h, e) \<in> set hs \<and> host_changed (map_of (hosts p) h) e) then None
      else if map_of hs h \<noteq> None then map_of (adapters p) h else None)"
  unfolding pool_updateHosts_def Let_def
  by (auto simp: foldl_prune map_of_filter_key [of "\<lambda>h. map_of hs h \<noteq> None"] simp del: not_None_eq)

lemma pool_coherent_update:
  assumes "pool_coherent p" "map_wf hs"
  shows "pool_coherent (pool_updateHosts p hs)"
proof -
  have "\<exists>cfg. map_of hs h = Some cfg \<and> createAdapter cfg = Inr a"
    if a: "map_of (adapters (pool_updateHosts p hs)) h = Some a" for h a
  proof -
    obtain e where e: "map_of hs h = Some e"
      using a by (auto simp: pool_update_adapters split: if_splits)
    then have mem: "(h, e) \<in> set hs" by (rule map_of_SomeD)
    have old: "map_of (adapters p) h = Some a" and same: "\<not> host_changed (map_of (hosts p) h) e"
      using a mem by (auto simp: pool_update_adapters split: if_splits)
    obtain cfg where cfg: "map_of (hosts p) h = Some cfg" "createAdapter cfg = Inr a"
      using assms(1) old unfolding pool_coherent_def by blast
    have "createAdapter e = createAdapter cfg"
      using same unfolding cfg(1) host_changed_def by (simp add: createAdapter_def)
    then show ?thesis using e cfg(2) by auto
  qed
  then show ?thesis using assms(2) by (simp add: pool_coherent_def pool_updateHosts_def)
qed

lemma pool_coherent_lookup:
  assumes "pool_coherent p"
  shows "snd (pool_get p h) = snd (pool_get (pool_new (hosts p)) h)"
proof (cases "map_of (adapters p) h")
  case None
  then show ?thesis by (simp add: pool_get_def pool_new_def split: option.splits sum.splits)
next
  case (Some a)
  then obtain cfg where "map_of (hosts p) h = Some cfg" "createAdapter cfg = Inr a"
    using assms unfolding pool_coherent_def by blast
  with Some show ?thesis by (simp add: pool_get_def pool_new_def)
qed

datatype pool_op = PoolGet string | PoolUpdate "(string, host_entry) js_map"

fun pool_step :: "adapter_pool \<Rightarrow> pool_op \<Rightarrow> adapter_pool" where
  "pool_step p (PoolGet h) = fst (pool_get p h)"
| "pool_step p (PoolUpdate hs) = pool_updateHosts p hs"

fun pool_op_wf :: "pool_op \<Rightarrow> bool" where
  "pool_op_wf (PoolGet h) = True"
| "pool_op_wf (PoolUpdate hs) = map_wf hs"

lemma pool_coherent_run:
  "pool_coherent p \<Longrightarrow> list_all pool_op_wf ops \<Longrightarrow> pool_coherent (foldl pool_step p ops)"
proof (induction ops arbitrary: p)
  case (Cons op ops)
  then show ?case by (cases op) (simp_all add: pool_coherent_get pool_coherent_update)
qed simp

text \<open>Whatever lookups and host-table updates happened before, \<open>get\<close> answers as an empty
  cache over the current host table would: a cached adapter is never served for a host that
  was removed or whose endpoint or type changed.\<close>

theorem pool_never_stale:
  assumes "map_wf hs" "list_all pool_op_wf ops"
  shows "snd (pool_get (foldl pool_step (pool_new hs) ops) h)
       = snd (pool_get (pool_new (hosts (foldl pool_step (pool_new hs) ops))) h)"
proof -
  have "pool_coherent (pool_new hs)" using assms(1) by (simp add: pool_coherent_def pool_new_def)
  then have "pool_coherent (foldl pool_step (pool_new hs) ops)"
    using assms(2) by (rule pool_coherent_run)
  then show ?thesis by (rule pool_coherent_lookup)
qed

theorem pool_never_stale_witness:
  "snd (pool_get (foldl pool_step
      (pool_new [(''a'', \<lparr>host_type = ''docker_endpoint'', host_endpoint = ''x''\<rparr>)])
      [PoolGet ''a'', PoolUpdate [(''a'', \<lparr>host_type = ''docker_endpoint'', host_endpoint = ''y''\<rparr>)]])
      ''a'') = Inr (DockerodeAdapter ''y'')"
  using pool_never_stale
    [of "[(''a'', \<lparr>host_type = ''docker_endpoint'', host_endpoint = ''x''\<rparr>)]"
        "[PoolGet ''a'', PoolUpdate [(''a'', \<lparr>host_type = ''docker_endpoint'', host_endpoint = ''y''\<rparr>)]]"
        "''a''"]
  by (simp add: map_wf_def pool_get_def pool_new_def pool_updateHosts_def createAdapter_def
      Let_def host_changed_def map_delete_def)

end
