(* ===== verification/Tunnel_State.thy ===== *)
theory Tunnel_State
  imports Framing Backpressure Sessions Adapter_Pool
begin

text \<open>
  The state of \<open>TunnelSessionHandler\<close> (sessions/tunnel-session.ts) and its primitive
  operations.  The maps of the class are fields of the record \<open>tunnel\<close>; the variables captured
  by the closures of one proxied request are a record \<open>request\<close> under its stream id; timers and
  suspended \<open>await\<close>s are entries of \<open>timers\<close> and \<open>tasks\<close>; calls that leave the handler (frames
  to the agent, WebSocket closes, Docker calls, promise settlements) are appended to \<open>out\<close>.
  Logging is left out.
\<close>

section \<open>Protocol messages (tunnel/protocol.types.ts)\<close>

type_synonym headers = "(string \<times> string) list"

datatype tunnel_message =
    HTTPRequestMsg "string option" string string headers "nat option" bool
      \<comment> \<open>stream id, method, path, headers, \<open>body_len\<close>, \<open>body_follows\<close>\<close>
  | HTTPResponseMsg "string option" nat headers bool
      \<comment> \<open>stream id, status code, headers, \<open>body_follows\<close>\<close>
  | WSUpgradeMsg "string option" string headers
  | WSUpgradeAckMsg "string option" bool "string option"
  | WSDataMsg "string option" bool
  | StreamCloseMsg "string option" "string option"
  | ReadyMsg
  | HeartbeatMsg
  | BodyChunkMsg "string option"
  | BodyEndMsg "string option"
  | UnknownMsg string

fun stream_id :: "tunnel_message \<Rightarrow> string option" where
  "stream_id (HTTPRequestMsg i _ _ _ _ _) = i"
| "stream_id (HTTPResponseMsg i _ _ _) = i"
| "stream_id (WSUpgradeMsg i _ _) = i"
| "stream_id (WSUpgradeAckMsg i _ _) = i"
| "stream_id (WSDataMsg i _) = i"
| "stream_id (StreamCloseMsg i _) = i"
| "stream_id (BodyChunkMsg i) = i"
| "stream_id (BodyEndMsg i) = i"
| "stream_id ReadyMsg = None"
| "stream_id HeartbeatMsg = None"
| "stream_id (UnknownMsg _) = None"

text \<open>What is sent to a WebSocket client: a JSON envelope or bytes.\<close>

datatype ws_payload = WsJson tunnel_message | WsBytes buffer

definition MAX_BODY_CHUNK :: nat where "MAX_BODY_CHUNK = 256 * 1024"
definition SSE_UPSTREAM_HWM_BYTES :: nat where "SSE_UPSTREAM_HWM_BYTES = 64 * 1024"
definition SSE_MAX_BUFFERED_BYTES :: nat where "SSE_MAX_BUFFERED_BYTES = 16 * 1024 * 1024"

section \<open>Stream controllers\<close>

text \<open>
  The part of \<open>ReadableStreamDefaultController\<close> the handler relies on, with the byte-length
  strategy: chunks wait in \<open>ctrl_queue\<close> unless a read is outstanding; \<open>close\<close> lets the queue
  drain; \<open>error\<close> drops it.  Calls that throw in the current state leave it unchanged (every
  caller catches).
\<close>

datatype ctrl_phase = Readable | CloseRequested | Closed | Errored

record controller =
  ctrl_queue :: "buffer list"
  phase :: ctrl_phase
  reading :: bool
  delivered :: "buffer list"

definition ctrl_new :: controller where
  "ctrl_new = \<lparr>ctrl_queue = [], phase = Readable, reading = False, delivered = []\<rparr>"

definition ctrl_bytes :: "controller \<Rightarrow> nat" where
  "ctrl_bytes c = sum_list (map length (ctrl_queue c))"

definition ctrl_enqueue :: "buffer \<Rightarrow> controller \<Rightarrow> controller" where
  "ctrl_enqueue d c =
     (if phase c \<noteq> Readable then c
      else if reading c then c\<lparr>delivered := delivered c @ [d], reading := False\<rparr>
      else c\<lparr>ctrl_queue := ctrl_queue c @ [d]\<rparr>)"

definition ctrl_close :: "controller \<Rightarrow> controller" where
  "ctrl_close c =
     (if phase c \<noteq> Readable then c
      else if ctrl_queue c = [] then c\<lparr>phase := Closed, reading := False\<rparr>
      else c\<lparr>phase := CloseRequested\<rparr>)"

definition ctrl_live :: "controller \<Rightarrow> bool" where
  "ctrl_live c = (phase c = Readable \<or> phase c = CloseRequested)"

definition ctrl_error :: "controller \<Rightarrow> controller" where
  "ctrl_error c = (if ctrl_live c then c\<lparr>phase := Errored, ctrl_queue := [], reading := False\<rparr> else c)"

definition ctrl_cancel :: "controller \<Rightarrow> controller" where
  "ctrl_cancel c = (if ctrl_live c then c\<lparr>phase := Closed, ctrl_queue := [], reading := False\<rparr> else c)"

text \<open>The consumer reads: the oldest chunk, or the read stays outstanding.\<close>

definition ctrl_read :: "controller \<Rightarrow> controller" where
  "ctrl_read c = (case ctrl_queue c of
       d # ds \<Rightarrow> c\<lparr>ctrl_queue := ds, delivered := delivered c @ [d],
                    phase := (if ds = [] \<and> phase c = CloseRequested then Closed else phase c)\<rparr>
     | [] \<Rightarrow> if phase c = Readable then c\<lparr>reading := True\<rparr> else c)"

text \<open>\<open>desiredSize\<close>: null when errored, 0 when closed.\<close>

definition ctrl_desiredSize :: "controller \<Rightarrow> int option" where
  "ctrl_desiredSize c = (case phase c of
       Errored \<Rightarrow> None | Closed \<Rightarrow> Some 0
     | _ \<Rightarrow> Some (int SSE_UPSTREAM_HWM_BYTES - int (ctrl_bytes c)))"

definition ctrl_buffered :: "controller \<Rightarrow> int" where
  "ctrl_buffered c = int SSE_UPSTREAM_HWM_BYTES -
     (case ctrl_desiredSize c of None \<Rightarrow> 0 | Some d \<Rightarrow> d)"

lemmas ctrl_defs = ctrl_enqueue_def ctrl_close_def ctrl_error_def ctrl_cancel_def ctrl_read_def
  ctrl_live_def

section \<open>Records of the handler\<close>

datatype stream_type = HttpStream | WsStream

record stream_entry =
  entry_ws :: "client option"
  entry_type :: stream_type
  pendingBody :: "buffer list option"

record pending_response =
  pend_session :: string
  responseMeta :: "(nat \<times> headers) option"
  bodyChunks :: "buffer list"
  expectingBinary :: bool
  streaming :: bool

text \<open>The captured variables of one \<open>proxyHTTPDirect\<close> or \<open>proxyHTTPStreaming\<close> call: its session,
  which of the two it is, its timer, whether its slot was released and its promise settled, and
  the sentinel its \<open>onClose\<close> detaches.\<close>

record request =
  rq_session :: string
  rq_streaming :: bool
  rq_timer :: nat
  rq_released :: bool
  rq_settled :: bool
  rq_onClose :: "client option"

datatype timer =
    HeartbeatTimer string
  | ReadyTimer string nat
  | GraceTimer string
  | DirectTimer string
  | HeadersTimer string

datatype docker_call =
    CreateExec string "string list" bool
  | StartExec string bool
  | ResizeExec string int int
  | InspectExec string
  | KillExec string nat
  | ExecSync string "string list"

datatype effect =
    AgentFrame string "tunnel_message frame"     \<comment> \<open>\<open>writeFrame\<close> on the stream of an exec\<close>
  | AgentRaw string buffer                       \<comment> \<open>raw bytes to an exec\<close>
  | AgentEnd string                              \<comment> \<open>\<open>execStream.end()\<close>\<close>
  | WsSend client ws_payload
  | WsClose client nat string
  | Docker docker_call
  | Resolve string nat headers "buffer option"   \<comment> \<open>a direct response, by stream id\<close>
  | ResolveMeta string nat headers
  | Reject string string
  | CallOk nat string                            \<comment> \<open>\<open>create\<close> call \<open>n\<close> returns a session\<close>
  | CallFail nat http_error
  | Thrown string                                \<comment> \<open>an exception that leaves the handler\<close>

text \<open>A suspended \<open>await\<close>, resumed with the outcome of the operation it waits for.\<close>

datatype task =
    ClientSend string "tunnel_message frame list" "client option"
      \<comment> \<open>session, frames still to write, client closed on failure\<close>
  | DirectSend string string "tunnel_message frame list"
      \<comment> \<open>stream id, exec captured, frames still to write\<close>
  | StreamingSend string string "tunnel_message frame list"
  | SpawnCreated nat string
  | SpawnStarted nat string
  | RawCreated nat string
  | RawStarted string client
  | TeardownClose string "string list"
  | TeardownInspect string
  | TeardownKill string
  | TeardownRaw string

datatype outcome = Done | DoneExec string | DoneInspect bool nat | Failed string

text \<open>One exec whose output is piped into the handler: its session, whether it speaks the
  framed protocol, and the pending buffers of the demultiplexer and of the parser.\<close>

record conn =
  conn_session :: string
  conn_framed :: bool
  demux_pending :: buffer
  parser_pending :: buffer

record tunnel =
  manager :: session_manager
  pool :: adapter_pool
  limiters :: limiters
  writeSerializer :: "ws_payload serializer"
  sessionStreams :: "string \<Rightarrow> (string, stream_entry) js_map"
  pendingHTTPResponses :: "(string, pending_response) js_map"
  requests :: "string \<rightharpoonup> request"
  controllers :: "string \<rightharpoonup> controller"
  parsers :: "string \<rightharpoonup> string"
  heartbeatTimers :: "string \<rightharpoonup> nat"
  lastHeartbeats :: "string \<rightharpoonup> int"
  readyWaiters :: "string \<rightharpoonup> nat"
  graceTimers :: "string \<rightharpoonup> nat"
  nextBinaryStreamId :: "string \<rightharpoonup> string"
  timers :: "nat \<rightharpoonup> timer \<times> int"
  next_timer :: nat
  tasks :: "nat \<rightharpoonup> task"
  next_task :: nat
  conns :: "string \<rightharpoonup> conn"
  detached :: "client list"
  clock :: int
  maxConcurrentPerSession :: nat
  ephemeralGracePeriod :: int
  out :: "effect list"

section \<open>Primitives\<close>

definition emit :: "effect \<Rightarrow> tunnel \<Rightarrow> tunnel" where
  "emit e t = t\<lparr>out := out t @ [e]\<rparr>"

definition obj :: "tunnel \<Rightarrow> string \<Rightarrow> tunnel_session option" where
  "obj t sid = objects (manager t) sid"

definition upd_obj :: "string \<Rightarrow> (tunnel_session \<Rightarrow> tunnel_session) \<Rightarrow> tunnel \<Rightarrow> tunnel" where
  "upd_obj sid f t = t\<lparr>manager := upd_session sid f (manager t)\<rparr>"

definition touch :: "string \<Rightarrow> tunnel \<Rightarrow> tunnel" where
  "touch sid t = t\<lparr>manager := sm_touch (manager t) (clock t) sid\<rparr>"

definition setTimeout :: "timer \<Rightarrow> int \<Rightarrow> tunnel \<Rightarrow> tunnel" where
  "setTimeout k ms t = t\<lparr>timers := (timers t)(next_timer t \<mapsto> (k, clock t + ms)),
     next_timer := Suc (next_timer t)\<rparr>"

definition clearTimeout :: "nat \<Rightarrow> tunnel \<Rightarrow> tunnel" where
  "clearTimeout i t = t\<lparr>timers := (timers t)(i := None)\<rparr>"

definition await :: "task \<Rightarrow> tunnel \<Rightarrow> tunnel" where
  "await k t = t\<lparr>tasks := (tasks t)(next_task t \<mapsto> k), next_task := Suc (next_task t)\<rparr>"

definition release_slot :: "string \<Rightarrow> tunnel \<Rightarrow> tunnel" where
  "release_slot sid t = t\<lparr>limiters := limiter_release (limiters t) sid\<rparr>"

text \<open>\<open>getStreamMap\<close> creates an empty map on first use; an absent map and an empty one are
  the same value here.\<close>

definition set_stream :: "string \<Rightarrow> string \<Rightarrow> stream_entry \<Rightarrow> tunnel \<Rightarrow> tunnel" where
  "set_stream sid i e t = t\<lparr>sessionStreams :=
     (sessionStreams t)(sid := map_set i e (sessionStreams t sid))\<rparr>"

definition delete_stream :: "string \<Rightarrow> string \<Rightarrow> tunnel \<Rightarrow> tunnel" where
  "delete_stream sid i t = t\<lparr>sessionStreams :=
     (sessionStreams t)(sid := map_delete i (sessionStreams t sid))\<rparr>"

definition set_pending :: "string \<Rightarrow> pending_response \<Rightarrow> tunnel \<Rightarrow> tunnel" where
  "set_pending i p t = t\<lparr>pendingHTTPResponses := map_set i p (pendingHTTPResponses t)\<rparr>"

definition delete_pending :: "string \<Rightarrow> tunnel \<Rightarrow> tunnel" where
  "delete_pending i t = t\<lparr>pendingHTTPResponses := map_delete i (pendingHTTPResponses t)\<rparr>"

definition get_stream :: "tunnel \<Rightarrow> string \<Rightarrow> string \<Rightarrow> stream_entry option" where
  "get_stream t sid i = map_of (sessionStreams t sid) i"

definition get_pending :: "tunnel \<Rightarrow> string \<Rightarrow> pending_response option" where
  "get_pending t i = map_of (pendingHTTPResponses t) i"

definition upd_ctrl :: "string \<Rightarrow> (controller \<Rightarrow> controller) \<Rightarrow> tunnel \<Rightarrow> tunnel" where
  "upd_ctrl i f t = t\<lparr>controllers := (controllers t)(i := map_option f (controllers t i))\<rparr>"

definition upd_request :: "string \<Rightarrow> (request \<Rightarrow> request) \<Rightarrow> tunnel \<Rightarrow> tunnel" where
  "upd_request i f t = t\<lparr>requests := (requests t)(i := map_option f (requests t i))\<rparr>"

definition set_nextBinary :: "string \<Rightarrow> string \<Rightarrow> tunnel \<Rightarrow> tunnel" where
  "set_nextBinary sid i t = t\<lparr>nextBinaryStreamId := (nextBinaryStreamId t)(sid \<mapsto> i)\<rparr>"

definition clear_nextBinary :: "string \<Rightarrow> tunnel \<Rightarrow> tunnel" where
  "clear_nextBinary sid t = t\<lparr>nextBinaryStreamId := (nextBinaryStreamId t)(sid := None)\<rparr>"

text \<open>\<open>clearHeartbeatTimer\<close> and \<open>resetHeartbeatTimer\<close>.\<close>

definition clearHeartbeatTimer :: "string \<Rightarrow> tunnel \<Rightarrow> tunnel" where
  "clearHeartbeatTimer sid t = (case heartbeatTimers t sid of
       None \<Rightarrow> t
     | Some i \<Rightarrow> (clearTimeout i t)\<lparr>heartbeatTimers := (heartbeatTimers t)(sid := None)\<rparr>)"

definition resetHeartbeatTimer :: "string \<Rightarrow> tunnel \<Rightarrow> tunnel" where
  "resetHeartbeatTimer sid t =
     (let t1 = clearHeartbeatTimer sid t; i = next_timer t1; t2 = setTimeout (HeartbeatTimer sid) 15000 t1
      in t2\<lparr>heartbeatTimers := (heartbeatTimers t2)(sid \<mapsto> i)\<rparr>)"

text \<open>\<open>sendToWSSerialized\<close>: the last component tells that the call threw (\<open>ws\<close> is undefined);
  an object without a \<open>send\<close> method is skipped.\<close>

definition sendToWSSerialized ::
    "string \<Rightarrow> client option \<Rightarrow> ws_payload \<Rightarrow> tunnel \<Rightarrow> tunnel \<times> bool" where
  "sendToWSSerialized sid ws d t = (case ws of
       None \<Rightarrow> (t, True)
     | Some (Sentinel n) \<Rightarrow> (t, False)
     | Some (WebSocket n) \<Rightarrow> (t\<lparr>writeSerializer := serializer_write (writeSerializer t) sid n d\<rparr>, False))"

text \<open>\<open>sendToWS\<close>: a direct send; every exception is caught.\<close>

definition sendToWS :: "client option \<Rightarrow> ws_payload \<Rightarrow> tunnel \<Rightarrow> tunnel" where
  "sendToWS ws d t = (case ws of
       Some (WebSocket n) \<Rightarrow> emit (WsSend (WebSocket n) d) t
     | _ \<Rightarrow> t)"

text \<open>Closing every client of a session and clearing the set.\<close>

definition close_clients :: "string \<Rightarrow> string \<Rightarrow> tunnel \<Rightarrow> tunnel" where
  "close_clients sid reason t = (case obj t sid of
       None \<Rightarrow> t
     | Some s \<Rightarrow> upd_obj sid (\<lambda>s. s\<lparr>clients := []\<rparr>)
         (foldl (\<lambda>t c. emit (WsClose c 1000 reason) t) t (clients s)))"

definition tunnel_init :: "session_manager \<Rightarrow> adapter_pool \<Rightarrow> nat \<Rightarrow> int \<Rightarrow> tunnel" where
  "tunnel_init m p mx grace =
     \<lparr>manager = m, pool = p, limiters = Map.empty, writeSerializer = serializer_init,
      sessionStreams = (\<lambda>_. []), pendingHTTPResponses = [], requests = Map.empty,
      controllers = Map.empty, parsers = Map.empty, heartbeatTimers = Map.empty,
      lastHeartbeats = Map.empty, readyWaiters = Map.empty, graceTimers = Map.empty,
      nextBinaryStreamId = Map.empty, timers = Map.empty, next_timer = 0, tasks = Map.empty,
      next_task = 0, conns = Map.empty, detached = [], clock = 0, maxConcurrentPerSession = mx,
      ephemeralGracePeriod = grace, out = []\<rparr>"

end
