(* ===== verification/Tunnel_Agent.thy ===== *)
theory Tunnel_Agent
  imports Tunnel_State
begin

text \<open>
  The agent side of \<open>TunnelSessionHandler\<close>: detaching clients, settling the promises of
  proxied requests, and the handlers of parsed frames (\<open>detach\<close>, \<open>handleAgentMessage\<close>,
  \<open>handleAgentBinary\<close> and what they call).
\<close>

section \<open>Detach\<close>

text \<open>One iteration of the loop of \<open>detach\<close> over the streams of the session.\<close>

definition detach_stream :: "string \<Rightarrow> client \<Rightarrow> tunnel \<Rightarrow> string \<times> stream_entry \<Rightarrow> tunnel" where
  "detach_stream sid ws t ie =
     (if entry_ws (snd ie) = Some ws
      then delete_stream sid (fst ie) (if entry_type (snd ie) = HttpStream then release_slot sid t else t)
      else t)"

definition arm_grace :: "string \<Rightarrow> tunnel \<Rightarrow> tunnel" where
  "arm_grace sid t =
     (let i = next_timer t; t1 = setTimeout (GraceTimer sid) (ephemeralGracePeriod t) t
      in t1\<lparr>graceTimers := (graceTimers t1)(sid \<mapsto> i)\<rparr>)"

definition detach :: "string \<Rightarrow> client \<Rightarrow> tunnel \<Rightarrow> tunnel" where
  "detach sid ws t =
     (let t1 = upd_obj sid (\<lambda>s. s\<lparr>clients := clients_delete ws (clients s)\<rparr>) t
      in case obj t1 sid of
           None \<Rightarrow> t1
         | Some s \<Rightarrow>
             if state s = Closing then t1
             else
               let t2 = (if protocol s = Framed
                         then foldl (detach_stream sid ws) t1 (sessionStreams t1 sid) else t1);
                   t3 = touch sid t2
               in if mode s = Ephemeral \<and> clients s = [] then arm_grace sid t3 else t3)"

section \<open>Settling requests\<close>

definition settle :: "string \<Rightarrow> effect \<Rightarrow> tunnel \<Rightarrow> tunnel" where
  "settle i e t = (case requests t i of
       None \<Rightarrow> t
     | Some r \<Rightarrow> if rq_settled r then t else emit e (upd_request i (\<lambda>r. r\<lparr>rq_settled := True\<rparr>) t))"

definition clear_request_timer :: "string \<Rightarrow> tunnel \<Rightarrow> tunnel" where
  "clear_request_timer i t = (case requests t i of None \<Rightarrow> t | Some r \<Rightarrow> clearTimeout (rq_timer r) t)"

definition release_request_slot :: "string \<Rightarrow> tunnel \<Rightarrow> tunnel" where
  "release_request_slot i t = (case requests t i of None \<Rightarrow> t | Some r \<Rightarrow> release_slot (rq_session r) t)"

text \<open>\<open>detachOnce\<close> of the HTTP server, the \<open>onClose\<close> of a streaming request.\<close>

definition detachOnce :: "string \<Rightarrow> client \<Rightarrow> tunnel \<Rightarrow> tunnel" where
  "detachOnce sid c t =
     (if c \<in> set (detached t) then t else detach sid c (t\<lparr>detached := c # detached t\<rparr>))"

text \<open>The idempotent \<open>release\<close> of a streaming request.\<close>

definition stream_release :: "string \<Rightarrow> tunnel \<Rightarrow> tunnel" where
  "stream_release i t = (case requests t i of
       None \<Rightarrow> t
     | Some r \<Rightarrow>
         if rq_released r then t
         else let t1 = release_slot (rq_session r) (upd_request i (\<lambda>r. r\<lparr>rq_released := True\<rparr>) t)
              in case rq_onClose r of None \<Rightarrow> t1 | Some c \<Rightarrow> detachOnce (rq_session r) c t1)"

text \<open>The \<open>resolve\<close>, \<open>reject\<close> and \<open>onMeta\<close> closures of a pending entry.\<close>

definition pending_resolve ::
    "string \<Rightarrow> pending_response \<Rightarrow> nat \<Rightarrow> headers \<Rightarrow> buffer option \<Rightarrow> tunnel \<Rightarrow> tunnel" where
  "pending_resolve i p status hs body t =
     (if streaming p then t
      else settle i (Resolve i status hs body) (release_request_slot i (clear_request_timer i t)))"

definition pending_reject :: "string \<Rightarrow> pending_response \<Rightarrow> string \<Rightarrow> tunnel \<Rightarrow> tunnel" where
  "pending_reject i p err t =
     (if streaming p
      then settle i (Reject i err) (upd_ctrl i ctrl_error (stream_release i (clear_request_timer i t)))
      else settle i (Reject i err) (release_request_slot i (clear_request_timer i t)))"

definition pending_onMeta :: "string \<Rightarrow> nat \<Rightarrow> headers \<Rightarrow> tunnel \<Rightarrow> tunnel" where
  "pending_onMeta i status hs t = settle i (ResolveMeta i status hs) (clear_request_timer i t)"

section \<open>Agent messages\<close>

definition handleReady :: "string \<Rightarrow> tunnel \<Rightarrow> tunnel" where
  "handleReady sid t =
     (let t1 = upd_obj sid (\<lambda>s. s\<lparr>agentReady := True, state := Active\<rparr>) t;
          t2 = (case readyWaiters t1 sid of
                  None \<Rightarrow> t1
                | Some call \<Rightarrow>
                    emit (CallOk call sid)
                      (t1\<lparr>timers := (\<lambda>i. case timers t1 i of
                             Some (ReadyTimer s c, d) \<Rightarrow> if c = call then None else timers t1 i
                           | x \<Rightarrow> x),
                         readyWaiters := (readyWaiters t1)(sid := None)\<rparr>))
      in resetHeartbeatTimer sid t2)"

definition handleHeartbeat :: "string \<Rightarrow> tunnel \<Rightarrow> tunnel" where
  "handleHeartbeat sid t =
     resetHeartbeatTimer sid (t\<lparr>lastHeartbeats := (lastHeartbeats t)(sid \<mapsto> clock t)\<rparr>)"

text \<open>\<open>forwardToClient\<close> for a response whose stream id is pending.\<close>

definition pending_http_response ::
    "string \<Rightarrow> string \<Rightarrow> pending_response \<Rightarrow> nat \<Rightarrow> headers \<Rightarrow> bool \<Rightarrow> tunnel \<Rightarrow> tunnel" where
  "pending_http_response sid i p status hs follows t =
     (if streaming p then
        let t1 = pending_onMeta i status hs (set_pending i (p\<lparr>responseMeta := Some (status, hs)\<rparr>) t)
        in if follows
           then set_nextBinary sid i
                  (set_pending i (p\<lparr>responseMeta := Some (status, hs), expectingBinary := True\<rparr>) t1)
           else stream_release i (upd_ctrl i ctrl_close (delete_pending i t1))
      else if follows
      then set_nextBinary sid i
             (set_pending i (p\<lparr>responseMeta := Some (status, hs), expectingBinary := True\<rparr>) t)
      else pending_resolve i p status hs None (delete_pending i t))"

text \<open>The rest of \<open>forwardToClient\<close>: the stream of a WebSocket client.\<close>

definition forward_to_stream :: "string \<Rightarrow> string \<Rightarrow> tunnel_message \<Rightarrow> tunnel \<Rightarrow> tunnel \<times> bool" where
  "forward_to_stream sid i msg t = (case get_stream t sid i of
       None \<Rightarrow> (t, False)
     | Some e \<Rightarrow>
         let (t1, thrown) = sendToWSSerialized sid (entry_ws e) (WsJson msg) t
         in if thrown then (t1, True)
            else (case msg of
                HTTPResponseMsg _ _ _ False \<Rightarrow>
                  (delete_stream sid i
                     (if entry_type e = HttpStream then release_slot sid t1 else t1), False)
              | _ \<Rightarrow> (t1, False)))"

definition forwardToClient :: "string \<Rightarrow> tunnel_message \<Rightarrow> tunnel \<Rightarrow> tunnel \<times> bool" where
  "forwardToClient sid msg t =
     (if \<not> truthy (stream_id msg) then (t, False)
      else let i = the (stream_id msg) in
        case (get_pending t i, msg) of
          (Some p, HTTPResponseMsg _ status hs follows) \<Rightarrow>
            (pending_http_response sid i p status hs follows t, False)
        | _ \<Rightarrow>
            forward_to_stream sid i msg
              (case msg of WSDataMsg _ True \<Rightarrow> set_nextBinary sid i t | _ \<Rightarrow> t))"

definition handleStreamClose :: "string \<Rightarrow> string option \<Rightarrow> string option \<Rightarrow> tunnel \<Rightarrow> tunnel \<times> bool" where
  "handleStreamClose sid mid reason t =
     (if \<not> truthy mid then (t, False)
      else let i = the mid in
        case get_pending t i of
          Some p \<Rightarrow>
            (pending_reject i p (''Stream closed: '' @ (case reason of None \<Rightarrow> ''unknown'' | Some r \<Rightarrow> r))
               (delete_pending i t), False)
        | None \<Rightarrow> (case get_stream t sid i of
            None \<Rightarrow> (t, False)
          | Some e \<Rightarrow>
              let (t1, thrown) = sendToWSSerialized sid (entry_ws e) (WsJson (StreamCloseMsg mid reason)) t
              in if thrown then (t1, True)
                 else (delete_stream sid i
                         (if entry_type e = HttpStream then release_slot sid t1 else t1), False)))"

definition handleBodyChunk :: "string \<Rightarrow> string option \<Rightarrow> tunnel \<Rightarrow> tunnel \<times> bool" where
  "handleBodyChunk sid mid t =
     (if \<not> truthy mid then (t, False)
      else let i = the mid in
        case get_pending t i of
          Some p \<Rightarrow> (set_nextBinary sid i (set_pending i (p\<lparr>expectingBinary := True\<rparr>) t), False)
        | None \<Rightarrow> (case get_stream t sid i of
            None \<Rightarrow> (t, False)
          | Some e \<Rightarrow>
              let t1 = (if pendingBody e = None
                        then set_stream sid i (e\<lparr>pendingBody := Some []\<rparr>) t else t)
              in sendToWSSerialized sid (entry_ws e) (WsJson (BodyChunkMsg mid)) (set_nextBinary sid i t1)))"

definition handleBodyEnd :: "string \<Rightarrow> string option \<Rightarrow> tunnel \<Rightarrow> tunnel \<times> bool" where
  "handleBodyEnd sid mid t =
     (if \<not> truthy mid then (t, False)
      else let i = the mid in
        case get_pending t i of
          Some p \<Rightarrow>
            (let t1 = delete_pending i t in
             if streaming p then stream_release i (upd_ctrl i ctrl_close t1)
             else pending_resolve i p
                    (case responseMeta p of None \<Rightarrow> 200 | Some (status, _) \<Rightarrow> status)
                    (case responseMeta p of None \<Rightarrow> [] | Some (_, hs) \<Rightarrow> hs)
                    (if bodyChunks p = [] then None else Some (concat (bodyChunks p))) t1, False)
        | None \<Rightarrow> (case get_stream t sid i of
            None \<Rightarrow> (t, False)
          | Some e \<Rightarrow>
              let (t1, thrown) = sendToWSSerialized sid (entry_ws e) (WsJson (BodyEndMsg mid)) t
              in if thrown then (t1, True)
                 else if entry_type e = HttpStream
                 then (delete_stream sid i (release_slot sid t1), False)
                 else (t1, False)))"

text \<open>\<open>handleAgentMessage\<close>; the flag tells that a handler threw, which the parser catches.\<close>

fun dispatch_message :: "string \<Rightarrow> tunnel_message \<Rightarrow> tunnel \<Rightarrow> tunnel \<times> bool" where
  "dispatch_message sid ReadyMsg t = (handleReady sid t, False)"
| "dispatch_message sid HeartbeatMsg t = (handleHeartbeat sid t, False)"
| "dispatch_message sid (StreamCloseMsg i reason) t = handleStreamClose sid i reason t"
| "dispatch_message sid (BodyChunkMsg i) t = handleBodyChunk sid i t"
| "dispatch_message sid (BodyEndMsg i) t = handleBodyEnd sid i t"
| "dispatch_message sid (HTTPRequestMsg _ _ _ _ _ _) t = (t, False)"
| "dispatch_message sid (WSUpgradeMsg _ _ _) t = (t, False)"
| "dispatch_message sid (UnknownMsg _) t = (t, False)"
| "dispatch_message sid msg t = forwardToClient sid msg t"

definition handleAgentMessage :: "string \<Rightarrow> tunnel_message \<Rightarrow> tunnel \<Rightarrow> tunnel \<times> bool" where
  "handleAgentMessage sid msg t = dispatch_message sid msg (touch sid t)"

section \<open>Agent binary frames\<close>

definition exec_of :: "tunnel \<Rightarrow> string \<Rightarrow> string option" where
  "exec_of t sid = (case obj t sid of None \<Rightarrow> None | Some s \<Rightarrow> map_option fst (execStream s))"

definition best_effort_close :: "string \<Rightarrow> string \<Rightarrow> string \<Rightarrow> tunnel \<Rightarrow> tunnel" where
  "best_effort_close sid i reason t = (case exec_of t sid of
       None \<Rightarrow> t
     | Some e \<Rightarrow> emit (AgentFrame e (TextFrame (StreamCloseMsg (Some i) (Some reason)))) t)"

definition terminateStreamingPending :: "string \<Rightarrow> string \<Rightarrow> string \<Rightarrow> tunnel \<Rightarrow> tunnel" where
  "terminateStreamingPending sid i reason t =
     best_effort_close sid i reason (stream_release i (upd_ctrl i ctrl_error (delete_pending i t)))"

text \<open>Broadcast to every client; sends to a WebSocket do not throw.\<close>

definition broadcast_serialized :: "string \<Rightarrow> buffer \<Rightarrow> tunnel \<Rightarrow> tunnel" where
  "broadcast_serialized sid d t = (case obj t sid of
       None \<Rightarrow> t
     | Some s \<Rightarrow> foldl (\<lambda>t c. fst (sendToWSSerialized sid (Some c) (WsBytes d) t)) t (clients s))"

text \<open>The frame belongs to a streaming response.\<close>

definition stream_chunk :: "string \<Rightarrow> string \<Rightarrow> pending_response \<Rightarrow> buffer \<Rightarrow> tunnel \<Rightarrow> tunnel" where
  "stream_chunk sid i p d t =
     (let t1 = upd_ctrl i (ctrl_enqueue d) (set_pending i (p\<lparr>expectingBinary := False\<rparr>) t)
      in case controllers t1 i of
           Some c \<Rightarrow>
             if ctrl_buffered c > int SSE_MAX_BUFFERED_BYTES
             then terminateStreamingPending sid i ''consumer backlog exceeded'' t1
             else touch sid t1
         | None \<Rightarrow> touch sid t1)"

definition binary_to_client :: "string \<Rightarrow> string option \<Rightarrow> buffer \<Rightarrow> tunnel \<Rightarrow> tunnel \<times> bool" where
  "binary_to_client sid target d t =
     (case (if truthy target then get_stream t sid (the target) else None) of
        Some e \<Rightarrow> sendToWSSerialized sid (entry_ws e) (WsBytes d) t
      | None \<Rightarrow> (broadcast_serialized sid d t, False))"

definition handleAgentBinary :: "string \<Rightarrow> buffer \<Rightarrow> tunnel \<Rightarrow> tunnel \<times> bool" where
  "handleAgentBinary sid d t0 =
     (let target = nextBinaryStreamId t0 sid; t = clear_nextBinary sid t0
      in case (if truthy target then get_pending t (the target) else None) of
           Some p \<Rightarrow>
             if streaming p then (stream_chunk sid (the target) p d t, False)
             else if expectingBinary p
             then (set_pending (the target)
                     (p\<lparr>expectingBinary := False, bodyChunks := bodyChunks p @ [d]\<rparr>) t, False)
             else binary_to_client sid target d t
         | None \<Rightarrow> binary_to_client sid target d t)"

section \<open>Feeding the parser\<close>

text \<open>The loop of \<open>ProtocolParser.feed\<close> with the handler's callbacks: an exception of a message
  handler is caught and reported, an exception of a binary handler leaves the loop with the
  frame already consumed.\<close>

function agent_feed ::
    "(buffer \<Rightarrow> string + tunnel_message) \<Rightarrow> string \<Rightarrow> buffer \<Rightarrow> tunnel \<Rightarrow> buffer \<times> tunnel \<times> bool" where
  "agent_feed json sid pending t = (case protocol_step json pending of
       NeedMore \<Rightarrow> (pending, t, False)
     | Reset e \<Rightarrow> ([], t, False)
     | Emit es k \<Rightarrow>
         (let rest = drop k pending in
          case es of
            [OnMessage m] \<Rightarrow> agent_feed json sid rest (fst (handleAgentMessage sid m t))
          | [OnBinary d] \<Rightarrow>
              (let (t1, thrown) = handleAgentBinary sid d t
               in if thrown then (rest, t1, True) else agent_feed json sid rest t1)
          | _ \<Rightarrow> agent_feed json sid rest t))"
  by pat_completeness auto
termination
  by (relation "measure (\<lambda>(_, _, p, _). length p)")
     (auto simp: protocol_step_def Let_def split: if_splits)

declare agent_feed.simps [simp del]

text \<open>The handler as a function of parser events.\<close>

fun agent_event :: "string \<Rightarrow> tunnel_message parser_event \<Rightarrow> tunnel \<Rightarrow> tunnel \<times> bool" where
  "agent_event sid (OnMessage m) t = (fst (handleAgentMessage sid m t), False)"
| "agent_event sid (OnBinary d) t = handleAgentBinary sid d t"
| "agent_event sid (OnError e) t = (t, False)"

fun agent_events :: "string \<Rightarrow> tunnel_message parser_event list \<Rightarrow> tunnel \<Rightarrow> tunnel \<times> bool" where
  "agent_events sid [] t = (t, False)"
| "agent_events sid (e # es) t =
     (let (t1, thrown) = agent_event sid e t in if thrown then (t1, True) else agent_events sid es t1)"

end
