(* ===== verification/Tunnel_Requests.thy ===== *)
theory Tunnel_Requests
  imports Tunnel_Agent
begin

text \<open>
  The request side of \<open>TunnelSessionHandler\<close>: \<open>proxyHTTPRequest\<close>, \<open>proxyWSUpgrade\<close>,
  \<open>forwardWSData\<close>, \<open>proxyHTTPDirect\<close>, \<open>proxyHTTPStreaming\<close>.  Every \<open>await writeFrame\<close> is a
  suspension: the frame goes out at once, the rest of the function is the task that the
  write's callback resumes (\<open>resume_send\<close>).
\<close>

section \<open>Request frames\<close>

text \<open>The body of a request as the code writes it: one BINARY frame up to \<open>MAX_BODY_CHUNK\<close>,
  otherwise an envelope and a BINARY frame per chunk, the last envelope being \<open>body_end\<close>.\<close>

function chunk_frames :: "string \<Rightarrow> buffer \<Rightarrow> nat \<Rightarrow> tunnel_message frame list" where
  "chunk_frames i body offset =
     (if offset < length body then
        let e = min (offset + MAX_BODY_CHUNK) (length body);
            chunk = take (e - offset) (drop offset body);
            isLast = (length body \<le> e)
        in TextFrame (if isLast then BodyEndMsg (Some i) else BodyChunkMsg (Some i))
           # BinaryFrame chunk # chunk_frames i body e
      else [])"
  by pat_completeness auto
termination
  by (relation "measure (\<lambda>(_, b, n). length b - n)") (auto simp: MAX_BODY_CHUNK_def)

declare chunk_frames.simps [simp del]

definition body_frames :: "string \<Rightarrow> buffer option \<Rightarrow> tunnel_message frame list" where
  "body_frames i body = (case body of
       None \<Rightarrow> []
     | Some b \<Rightarrow>
         if length b > 0 then
           (if length b \<le> MAX_BODY_CHUNK then [BinaryFrame b] else chunk_frames i b 0)
         else [])"

definition has_body :: "buffer option \<Rightarrow> bool" where
  "has_body body = (case body of None \<Rightarrow> False | Some b \<Rightarrow> length b > 0)"

text \<open>The frames of a direct or streaming request.\<close>

definition request_frames ::
    "string \<Rightarrow> string \<Rightarrow> string \<Rightarrow> headers \<Rightarrow> buffer option \<Rightarrow> tunnel_message frame list" where
  "request_frames i method path hs body =
     TextFrame (HTTPRequestMsg (Some i) method path hs
       (if has_body body then map_option length body else None) (has_body body))
     # body_frames i body"

section \<open>Suspended writes\<close>

text \<open>Write the next frame of a client-side send on the session's current stream and suspend;
  with no frame left the call ends with \<open>touch\<close>.\<close>

definition client_send ::
    "string \<Rightarrow> client option \<Rightarrow> tunnel_message frame list \<Rightarrow> tunnel \<Rightarrow> tunnel" where
  "client_send sid onfail frames t = (case frames of
       [] \<Rightarrow> touch sid t
     | f # fs \<Rightarrow> (case exec_of t sid of
           None \<Rightarrow> t
         | Some e \<Rightarrow> await (ClientSend sid fs onfail) (emit (AgentFrame e f) t)))"

text \<open>\<open>sendRequest\<close> of the direct and of the streaming proxy, on the captured stream.\<close>

definition direct_send :: "string \<Rightarrow> string \<Rightarrow> tunnel_message frame list \<Rightarrow> tunnel \<Rightarrow> tunnel" where
  "direct_send i e frames t = (case frames of
       [] \<Rightarrow> t
     | f # fs \<Rightarrow> await (DirectSend i e fs) (emit (AgentFrame e f) t))"

definition streaming_send :: "string \<Rightarrow> string \<Rightarrow> tunnel_message frame list \<Rightarrow> tunnel \<Rightarrow> tunnel" where
  "streaming_send i e frames t = (case frames of
       [] \<Rightarrow> t
     | f # fs \<Rightarrow> await (StreamingSend i e fs) (emit (AgentFrame e f) t))"

section \<open>Proxy operations\<close>

text \<open>The guards shared by the proxy operations: the message of the exception, if any.\<close>

definition proxy_guard :: "string \<Rightarrow> tunnel_session \<Rightarrow> string option" where
  "proxy_guard op s =
     (if protocol s \<noteq> Framed then Some (op @ '' only supported for framed protocol'')
      else if execStream s = None \<or> \<not> agentReady s then Some ''Tunnel agent not ready''
      else None)"

definition last_client :: "tunnel_session \<Rightarrow> client option" where
  "last_client s = (if clients s = [] then None else Some (last (clients s)))"

text \<open>\<open>proxyHTTPRequest\<close>; the result names the exception thrown before the first suspension.
  \<open>req\<close> is the client's envelope, with its own \<open>body_len\<close> and \<open>body_follows\<close>.\<close>

definition with_stream_and_body :: "string \<Rightarrow> buffer option \<Rightarrow> tunnel_message \<Rightarrow> tunnel_message" where
  "with_stream_and_body i body req = (case req of
       HTTPRequestMsg _ method path hs len follows \<Rightarrow>
         (if has_body body then HTTPRequestMsg (Some i) method path hs (map_option length body) True
          else HTTPRequestMsg (Some i) method path hs len follows)
     | m \<Rightarrow> m)"

definition proxyHTTPRequest ::
    "string \<Rightarrow> string \<Rightarrow> tunnel_message \<Rightarrow> buffer option \<Rightarrow> tunnel \<Rightarrow> tunnel \<times> string option" where
  "proxyHTTPRequest sid i req body t = (case obj t sid of
       None \<Rightarrow> (t, Some ''no session'')
     | Some s \<Rightarrow> (case proxy_guard ''proxyHTTPRequest'' s of
           Some err \<Rightarrow> (t, Some err)
         | None \<Rightarrow>
             let (ok, l) = limiter_acquire (limiters t) sid in
             if \<not> ok then
               (sendToWS (last_client s)
                  (WsJson (HTTPResponseMsg (Some i) 429 [(''Retry-After'', ''1'')] False)) t, None)
             else
               (client_send sid None
                  (TextFrame (with_stream_and_body i body req) # body_frames i body)
                  (set_stream sid i
                     \<lparr>entry_ws = last_client s, entry_type = HttpStream, pendingBody = None\<rparr>
                     (t\<lparr>limiters := l\<rparr>)), None)))"

definition proxyWSUpgrade ::
    "string \<Rightarrow> string \<Rightarrow> tunnel_message \<Rightarrow> client \<Rightarrow> client option \<Rightarrow> tunnel \<Rightarrow> tunnel \<times> string option" where
  "proxyWSUpgrade sid i msg ws onfail t = (case obj t sid of
       None \<Rightarrow> (t, Some ''no session'')
     | Some s \<Rightarrow> (case proxy_guard ''proxyWSUpgrade'' s of
           Some err \<Rightarrow> (t, Some err)
         | None \<Rightarrow>
             (client_send sid onfail
                [TextFrame (case msg of WSUpgradeMsg _ path hs \<Rightarrow> WSUpgradeMsg (Some i) path hs | m \<Rightarrow> m)]
                (set_stream sid i \<lparr>entry_ws = Some ws, entry_type = WsStream, pendingBody = None\<rparr> t),
              None)))"

definition forwardWSData :: "string \<Rightarrow> string \<Rightarrow> buffer \<Rightarrow> tunnel \<Rightarrow> tunnel \<times> string option" where
  "forwardWSData sid i data t = (case obj t sid of
       None \<Rightarrow> (t, Some ''no session'')
     | Some s \<Rightarrow> (case proxy_guard ''forwardWSData'' s of
           Some err \<Rightarrow> (t, Some err)
         | None \<Rightarrow>
             (client_send sid None [TextFrame (WSDataMsg (Some i) True), BinaryFrame data] t, None)))"

text \<open>The immediate answers of the direct and streaming proxies: an exception, a synthetic
  429, or a promise that the pending entry will settle.\<close>

datatype proxy_answer = ProxyThrows string | TooManyRequests | Promised string

definition new_pending :: "string \<Rightarrow> bool \<Rightarrow> pending_response" where
  "new_pending sid str = \<lparr>pend_session = sid, responseMeta = None, bodyChunks = [],
     expectingBinary = False, streaming = str\<rparr>"

text \<open>\<open>uuid\<close> is the generated stream id.\<close>

definition proxyHTTPDirect ::
    "string \<Rightarrow> string \<Rightarrow> string \<Rightarrow> string \<Rightarrow> headers \<Rightarrow> buffer option \<Rightarrow> tunnel \<Rightarrow> tunnel \<times> proxy_answer" where
  "proxyHTTPDirect sid uuid method path hs body t = (case obj t sid of
       None \<Rightarrow> (t, ProxyThrows ''no session'')
     | Some s \<Rightarrow> (case (proxy_guard ''proxyHTTPDirect'' s, execStream s) of
           (Some err, _) \<Rightarrow> (t, ProxyThrows err)
         | (None, None) \<Rightarrow> (t, ProxyThrows ''Tunnel agent not ready'')
         | (None, Some (e, _)) \<Rightarrow>
             let (ok, l) = limiter_acquire (limiters t) sid in
             if \<not> ok then (t, TooManyRequests)
             else
               let t1 = t\<lparr>limiters := l\<rparr>; i = next_timer t1;
                   t2 = setTimeout (DirectTimer uuid) 30000 t1;
                   t3 = set_pending uuid (new_pending sid False)
                          (t2\<lparr>requests := (requests t2)(uuid \<mapsto>
                             \<lparr>rq_session = sid, rq_streaming = False, rq_timer = i, rq_released = False, rq_settled = False,
                              rq_onClose = None\<rparr>)\<rparr>)
               in (touch sid (direct_send uuid e (request_frames uuid method path hs body) t3),
                   Promised uuid)))"

definition proxyHTTPStreaming ::
    "string \<Rightarrow> string \<Rightarrow> string \<Rightarrow> string \<Rightarrow> headers \<Rightarrow> buffer option \<Rightarrow> client option \<Rightarrow> tunnel
       \<Rightarrow> tunnel \<times> proxy_answer" where
  "proxyHTTPStreaming sid uuid method path hs body onClose t = (case obj t sid of
       None \<Rightarrow> (t, ProxyThrows ''no session'')
     | Some s \<Rightarrow> (case (proxy_guard ''proxyHTTPStreaming'' s, execStream s) of
           (Some err, _) \<Rightarrow> (t, ProxyThrows err)
         | (None, None) \<Rightarrow> (t, ProxyThrows ''Tunnel agent not ready'')
         | (None, Some (e, _)) \<Rightarrow>
             let (ok, l) = limiter_acquire (limiters t) sid in
             if \<not> ok then
               ((case onClose of None \<Rightarrow> t | Some c \<Rightarrow> detachOnce sid c t), TooManyRequests)
             else
               let t1 = t\<lparr>limiters := l, controllers := (controllers t)(uuid \<mapsto> ctrl_new)\<rparr>;
                   i = next_timer t1;
                   t2 = setTimeout (HeadersTimer uuid) 30000 t1;
                   t3 = set_pending uuid (new_pending sid True)
                          (t2\<lparr>requests := (requests t2)(uuid \<mapsto>
                             \<lparr>rq_session = sid, rq_streaming = True, rq_timer = i, rq_released = False, rq_settled = False,
                              rq_onClose = onClose\<rparr>)\<rparr>)
               in (touch sid (streaming_send uuid e (request_frames uuid method path hs body) t3),
                   Promised uuid)))"

section \<open>Timeouts, cancellation and failed writes\<close>

text \<open>The 30 s timers (the timer that fired is no longer armed).\<close>

definition direct_timeout :: "string \<Rightarrow> tunnel \<Rightarrow> tunnel" where
  "direct_timeout i t =
     settle i (Reject i ''Tunnel proxy timeout (30s)'') (release_request_slot i (delete_pending i t))"

definition headers_timeout :: "string \<Rightarrow> tunnel \<Rightarrow> tunnel" where
  "headers_timeout i t =
     settle i (Reject i ''Tunnel proxy initial-headers timeout (30s)'')
       (upd_ctrl i ctrl_error (stream_release i (delete_pending i t)))"

text \<open>The consumer cancels the response stream: the source's \<open>cancel\<close> runs when the stream is
  still live.\<close>

definition stream_cancel :: "string \<Rightarrow> tunnel \<Rightarrow> tunnel" where
  "stream_cancel i t = (case (controllers t i, requests t i) of
       (Some c, Some r) \<Rightarrow>
         if ctrl_live c
         then best_effort_close (rq_session r) i ''client disconnect''
                (stream_release i (delete_pending i (upd_ctrl i ctrl_cancel t)))
         else t
     | _ \<Rightarrow> t)"

definition stream_read :: "string \<Rightarrow> tunnel \<Rightarrow> tunnel" where
  "stream_read i t = upd_ctrl i ctrl_read t"

text \<open>The \<open>catch\<close> of \<open>sendRequest\<close>: unconditional for a direct request, only while the entry
  is pending for a streaming one.\<close>

definition direct_send_failed :: "string \<Rightarrow> string \<Rightarrow> tunnel \<Rightarrow> tunnel" where
  "direct_send_failed i err t =
     settle i (Reject i err) (release_request_slot i (clear_request_timer i (delete_pending i t)))"

definition streaming_send_failed :: "string \<Rightarrow> string \<Rightarrow> tunnel \<Rightarrow> tunnel" where
  "streaming_send_failed i err t = (case get_pending t i of
       None \<Rightarrow> t
     | Some p \<Rightarrow> pending_reject i p err (delete_pending i t))"

text \<open>A client-side send that fails rejects its promise: the servers log it, and the HTTP
  server closes the socket of a failed upgrade.\<close>

definition client_send_failed :: "client option \<Rightarrow> tunnel \<Rightarrow> tunnel" where
  "client_send_failed onfail t = (case onfail of
       None \<Rightarrow> t
     | Some c \<Rightarrow> emit (WsClose c 1011 ''WS upgrade proxy failed'') t)"

fun resume_send :: "task \<Rightarrow> outcome \<Rightarrow> tunnel \<Rightarrow> tunnel" where
  "resume_send (ClientSend sid fs onfail) (Failed err) t = client_send_failed onfail t"
| "resume_send (ClientSend sid fs onfail) _ t = client_send sid onfail fs t"
| "resume_send (DirectSend i e fs) (Failed err) t = direct_send_failed i err t"
| "resume_send (DirectSend i e fs) _ t = direct_send i e fs t"
| "resume_send (StreamingSend i e fs) (Failed err) t = streaming_send_failed i err t"
| "resume_send (StreamingSend i e fs) _ t = streaming_send i e fs t"
| "resume_send _ _ t = t"

end
