(* ===== verification/Tunnel_Lifecycle.thy ===== *)
theory Tunnel_Lifecycle
  imports Tunnel_Requests
begin

text \<open>
  The life of a session in \<open>TunnelSessionHandler\<close>: \<open>create\<close>, \<open>attach\<close>, \<open>resize\<close>,
  \<open>writeToExec\<close>, \<open>teardown\<close>, the timers and the exec plumbing they start.
\<close>

section \<open>Creating a session\<close>

definition rawExecPidFilePath :: "string \<Rightarrow> string" where
  "rawExecPidFilePath sessionId = ''/tmp/.bridge-pids/'' @ sessionId"

definition raw_wrapper :: "string \<Rightarrow> string list \<Rightarrow> string list" where
  "raw_wrapper sid cmd =
     [''sh'', ''-c'',
      ''pidfile=\"$1\"; shift; mkdir -p \"$(dirname \"$pidfile\")\" 2>/dev/null; echo $$ > \"$pidfile\"; exec \"$@\"'',
      ''bridge-raw-wrapper'', rawExecPidFilePath sid] @ cmd"

definition raw_kill_script :: "string \<Rightarrow> string list" where
  "raw_kill_script sid =
     [''sh'', ''-c'',
      ''pid=$(cat \"$1\" 2>/dev/null); rm -f \"$1\"; if [ -n \"$pid\" ]; then kill -KILL \"$pid\" 2>/dev/null || true; fi'',
      ''sh'', rawExecPidFilePath sid]"

text \<open>\<open>this.adapterPool.get(session.hostId)\<close>: the pool may cache a new adapter.\<close>

definition use_adapter :: "tunnel_session \<Rightarrow> tunnel \<Rightarrow> tunnel \<times> string option" where
  "use_adapter s t = (case pool_get (pool t) (hostId s) of
       (p, Inl err) \<Rightarrow> (t\<lparr>pool := p\<rparr>, Some err)
     | (p, Inr a) \<Rightarrow> (t\<lparr>pool := p\<rparr>, None))"

text \<open>The first parts of \<open>spawnAgent\<close> and \<open>createRawExec\<close>, up to \<open>createExec\<close>.\<close>

definition spawnAgent :: "nat \<Rightarrow> string \<Rightarrow> tunnel \<Rightarrow> tunnel" where
  "spawnAgent call sid t = (case obj t sid of
       None \<Rightarrow> t
     | Some s \<Rightarrow> (case use_adapter s t of
           (t1, Some err) \<Rightarrow> emit (CallFail call (HttpError None err)) t1
         | (t1, None) \<Rightarrow>
             await (SpawnCreated call sid) (emit (Docker (CreateExec (containerId s) (command s) False)) t1)))"

definition createRawExec :: "nat \<Rightarrow> string \<Rightarrow> tunnel \<Rightarrow> tunnel" where
  "createRawExec call sid t = (case obj t sid of
       None \<Rightarrow> t
     | Some s \<Rightarrow> (case use_adapter s t of
           (t1, Some err) \<Rightarrow> emit (CallFail call (HttpError None err)) t1
         | (t1, None) \<Rightarrow>
             await (RawCreated call sid)
               (emit (Docker (CreateExec (containerId s) (raw_wrapper sid (command s)) (tty s))) t1)))"

text \<open>\<open>create\<close>: \<open>call\<close> names the promise returned to the caller.\<close>

definition tunnel_create ::
    "nat \<Rightarrow> string \<Rightarrow> (nat \<Rightarrow> string) \<Rightarrow> string \<Rightarrow> string \<Rightarrow> string list \<Rightarrow> string \<Rightarrow> create_options
       \<Rightarrow> tunnel \<Rightarrow> tunnel" where
  "tunnel_create call newId draw host cid cmd lbl opts t =
     (case sm_create (manager t) (clock t) newId draw host cid cmd lbl opts of
        Inl err \<Rightarrow> emit (CallFail call err) t
      | Inr (m, sid) \<Rightarrow>
          let t1 = t\<lparr>manager := m\<rparr> in
          case obj t1 sid of
            None \<Rightarrow> t1
          | Some s \<Rightarrow>
              if state s \<noteq> Created then emit (CallOk call sid) t1
              else
                let t2 = t1\<lparr>limiters := limiter_register (limiters t1) sid (maxConcurrentPerSession t1)\<rparr>
                in if opt_protocol opts = Framed then spawnAgent call sid t2
                   else createRawExec call sid t2)"

text \<open>\<open>spawnAgent\<close> resumes with the exec id, then with the socket: the parser and the
  demultiplexer are attached and the call waits for \<open>ready\<close> at most 10 s.\<close>

definition spawn_created :: "nat \<Rightarrow> string \<Rightarrow> string \<Rightarrow> tunnel \<Rightarrow> tunnel" where
  "spawn_created call sid e t =
     await (SpawnStarted call sid)
       (emit (Docker (StartExec e False)) (upd_obj sid (\<lambda>s. s\<lparr>execId := Some e\<rparr>) t))"

definition waitForReady :: "nat \<Rightarrow> string \<Rightarrow> int \<Rightarrow> tunnel \<Rightarrow> tunnel" where
  "waitForReady call sid ms t =
     (let t1 = setTimeout (ReadyTimer sid call) ms t
      in t1\<lparr>readyWaiters := (readyWaiters t1)(sid \<mapsto> call)\<rparr>)"

definition spawn_started :: "nat \<Rightarrow> string \<Rightarrow> string \<Rightarrow> tunnel \<Rightarrow> tunnel" where
  "spawn_started call sid e t =
     waitForReady call sid 10000
       ((upd_obj sid (\<lambda>s. s\<lparr>execStream := Some (e, SockOpen)\<rparr>) t)
          \<lparr>parsers := (parsers t)(sid \<mapsto> e),
           conns := (conns t)(e \<mapsto> \<lparr>conn_session = sid, conn_framed = True, demux_pending = [],
                                     parser_pending = []\<rparr>)\<rparr>)"

definition ready_timeout :: "nat \<Rightarrow> string \<Rightarrow> tunnel \<Rightarrow> tunnel" where
  "ready_timeout call sid t =
     emit (CallFail call (HttpError (Some 503) ''Tunnel agent ready timeout''))
       (t\<lparr>readyWaiters := (readyWaiters t)(sid := None)\<rparr>)"

definition raw_created :: "nat \<Rightarrow> string \<Rightarrow> string \<Rightarrow> tunnel \<Rightarrow> tunnel" where
  "raw_created call sid e t = emit (CallOk call sid) (upd_obj sid (\<lambda>s. s\<lparr>execId := Some e\<rparr>) t)"

section \<open>Attaching a client\<close>

text \<open>A failed attach closes the client (ws-server.ts); \<open>startRawExec\<close> up to \<open>startExec\<close>.\<close>

definition attach_failed :: "client \<Rightarrow> tunnel \<Rightarrow> tunnel" where
  "attach_failed c t = emit (WsClose c 1011 ''Attach failed'') t"

definition startRawExec :: "string \<Rightarrow> client \<Rightarrow> tunnel \<Rightarrow> tunnel" where
  "startRawExec sid c t = (case obj t sid of
       None \<Rightarrow> t
     | Some s \<Rightarrow>
         if \<not> truthy (execId s) then attach_failed c t
         else (case use_adapter s t of
             (t1, Some err) \<Rightarrow> attach_failed c t1
           | (t1, None) \<Rightarrow>
               await (RawStarted sid c) (emit (Docker (StartExec (the (execId s)) (tty s))) t1)))"

definition clear_grace :: "string \<Rightarrow> tunnel \<Rightarrow> tunnel" where
  "clear_grace sid t = (case graceTimers t sid of
       None \<Rightarrow> t
     | Some i \<Rightarrow> (clearTimeout i t)\<lparr>graceTimers := (graceTimers t)(sid := None)\<rparr>)"

definition attach :: "string \<Rightarrow> client \<Rightarrow> tunnel \<Rightarrow> tunnel" where
  "attach sid ws t =
     (let t1 = touch sid (upd_obj sid (\<lambda>s. s\<lparr>clients := clients_add ws (clients s)\<rparr>) (clear_grace sid t))
      in case obj t1 sid of
           None \<Rightarrow> t1
         | Some s \<Rightarrow>
             if protocol s = Framed then t1
             else if execStream s = None then startRawExec sid ws t1
             else t1)"

definition raw_started :: "string \<Rightarrow> string \<Rightarrow> tunnel \<Rightarrow> tunnel" where
  "raw_started sid e t =
     (upd_obj sid (\<lambda>s. s\<lparr>execStream := Some (e, SockOpen), state := Active\<rparr>) t)
        \<lparr>conns := (conns t)(e \<mapsto> \<lparr>conn_session = sid, conn_framed = False, demux_pending = [],
                                     parser_pending = []\<rparr>)\<rparr>"

text \<open>\<open>handleExecEnd\<close>: the raw exec ended or its stream failed.\<close>

definition handleExecEnd :: "string \<Rightarrow> tunnel \<Rightarrow> tunnel" where
  "handleExecEnd sid t = (case obj t sid of
       None \<Rightarrow> t
     | Some s \<Rightarrow>
         if state s = Closing then t
         else
           let t1 = close_clients sid ''Process exited'' (upd_obj sid (\<lambda>s. s\<lparr>state := Closing\<rparr>) t)
           in t1\<lparr>limiters := limiter_unregister (limiters t1) sid,
                 writeSerializer := serializer_remove (writeSerializer t1) sid,
                 manager := sm_delete (manager t1) sid\<rparr>)"

section \<open>Resize and raw input\<close>

definition resize :: "string \<Rightarrow> int \<Rightarrow> int \<Rightarrow> tunnel \<Rightarrow> tunnel \<times> string option" where
  "resize sid cols rows t = (case obj t sid of
       None \<Rightarrow> (t, Some ''no session'')
     | Some s \<Rightarrow>
         if protocol s \<noteq> Raw then (t, Some ''Resize only supported for raw protocol sessions'')
         else if \<not> truthy (execId s) then (t, Some ''Session has no execId'')
         else (case use_adapter s t of
             (t1, Some err) \<Rightarrow> (t1, Some err)
           | (t1, None) \<Rightarrow> (emit (Docker (ResizeExec (the (execId s)) cols rows)) t1, None)))"

definition writeToExec :: "string \<Rightarrow> buffer \<Rightarrow> tunnel \<Rightarrow> tunnel \<times> string option" where
  "writeToExec sid data t = (case obj t sid of
       None \<Rightarrow> (t, Some ''no session'')
     | Some s \<Rightarrow>
         if protocol s \<noteq> Raw then (t, Some ''writeToExec only supported for raw protocol sessions'')
         else (case execStream s of
             Some (e, sock) \<Rightarrow> (if sock = SockDestroyed then t else emit (AgentRaw e data) t, None)
           | None \<Rightarrow> (t, None)))"

section \<open>Teardown\<close>

text \<open>The common end of \<open>teardown\<close>.\<close>

definition teardown_common :: "string \<Rightarrow> tunnel \<Rightarrow> tunnel" where
  "teardown_common sid t =
     t\<lparr>limiters := limiter_unregister (limiters t) sid,
       writeSerializer := serializer_remove (writeSerializer t) sid,
       manager := sm_delete (manager t) sid\<rparr>"

definition reject_if_session :: "string \<Rightarrow> tunnel \<Rightarrow> string \<times> pending_response \<Rightarrow> tunnel" where
  "reject_if_session sid t ip =
     (if pend_session (snd ip) = sid
      then pending_reject (fst ip) (snd ip) ''Session torn down'' (delete_pending (fst ip) t)
      else t)"

definition framed_cleanup :: "string \<Rightarrow> tunnel \<Rightarrow> tunnel" where
  "framed_cleanup sid t =
     (let t1 = clearHeartbeatTimer sid t
      in t1\<lparr>parsers := (parsers t1)(sid := None),
            sessionStreams := (sessionStreams t1)(sid := []),
            readyWaiters := (readyWaiters t1)(sid := None),
            lastHeartbeats := (lastHeartbeats t1)(sid := None),
            nextBinaryStreamId := (nextBinaryStreamId t1)(sid := None)\<rparr>)"

definition teardown_framed_finish :: "string \<Rightarrow> tunnel \<Rightarrow> tunnel" where
  "teardown_framed_finish sid t =
     (let t1 = foldl (reject_if_session sid) t (pendingHTTPResponses t)
      in teardown_common sid (close_clients sid ''Session terminated'' (framed_cleanup sid t1)))"

text \<open>After the close frames: the streams are dropped, stdin is closed, and a running exec is
  inspected and killed; a missing adapter is reported and skipped.\<close>

definition teardown_after_streams :: "string \<Rightarrow> tunnel \<Rightarrow> tunnel" where
  "teardown_after_streams sid t =
     (let t1 = t\<lparr>sessionStreams := (sessionStreams t)(sid := [])\<rparr> in
      case obj t1 sid of
        None \<Rightarrow> t1
      | Some s \<Rightarrow>
          let t2 = (case execStream s of
                None \<Rightarrow> t1
              | Some (e, sock) \<Rightarrow>
                  emit (AgentEnd e)
                    (upd_obj sid (\<lambda>s. s\<lparr>execStream := map_option
                        (\<lambda>(e, k). (e, if k = SockOpen then SockEnded else k)) (execStream s)\<rparr>) t1))
          in if truthy (execId s) then
               (case use_adapter s t2 of
                  (t3, Some err) \<Rightarrow> teardown_framed_finish sid t3
                | (t3, None) \<Rightarrow>
                    await (TeardownInspect sid) (emit (Docker (InspectExec (the (execId s)))) t3))
             else teardown_framed_finish sid t2)"

text \<open>The loop of \<open>teardown\<close> over the live stream map: the first stream not yet told.\<close>

definition teardown_streams :: "string \<Rightarrow> string list \<Rightarrow> tunnel \<Rightarrow> tunnel" where
  "teardown_streams sid visited t =
     (case (exec_of t sid, find (\<lambda>ie. fst ie \<notin> set visited) (sessionStreams t sid)) of
        (Some e, Some (i, entry)) \<Rightarrow>
          await (TeardownClose sid (visited @ [i]))
            (emit (AgentFrame e (TextFrame (StreamCloseMsg (Some i) (Some ''session teardown'')))) t)
      | _ \<Rightarrow> teardown_after_streams sid t)"

definition teardown_raw_finish :: "string \<Rightarrow> tunnel \<Rightarrow> tunnel" where
  "teardown_raw_finish sid t = teardown_common sid (close_clients sid ''Session terminated'' t)"

definition teardown :: "string \<Rightarrow> tunnel \<Rightarrow> tunnel" where
  "teardown sid t =
     (let t1 = clear_grace sid (upd_obj sid (\<lambda>s. s\<lparr>state := Closing\<rparr>) t) in
      case obj t1 sid of
        None \<Rightarrow> t1
      | Some s \<Rightarrow>
          if protocol s = Framed then teardown_streams sid [] t1
          else
            let t2 = upd_obj sid (\<lambda>s. s\<lparr>execStream := map_option (\<lambda>(e, _). (e, SockDestroyed)) (execStream s)\<rparr>) t1
            in (case use_adapter s t2 of
                  (t3, Some err) \<Rightarrow> teardown_raw_finish sid t3
                | (t3, None) \<Rightarrow>
                    await (TeardownRaw sid)
                      (emit (Docker (ExecSync (containerId s) (raw_kill_script sid))) t3)))"

definition teardown_inspected :: "string \<Rightarrow> outcome \<Rightarrow> tunnel \<Rightarrow> tunnel" where
  "teardown_inspected sid outc t = (case outc of
       DoneInspect running pid \<Rightarrow>
         if running then
           (case obj t sid of
              None \<Rightarrow> t
            | Some s \<Rightarrow> await (TeardownKill sid) (emit (Docker (KillExec (containerId s) pid)) t))
         else teardown_framed_finish sid t
     | _ \<Rightarrow> teardown_framed_finish sid t)"

section \<open>Events\<close>

text \<open>Resuming a suspended call; a failed Docker call of \<open>create\<close> rejects its promise.\<close>

fun resume :: "task \<Rightarrow> outcome \<Rightarrow> tunnel \<Rightarrow> tunnel" where
  "resume (SpawnCreated call sid) (DoneExec e) t = spawn_created call sid e t"
| "resume (SpawnCreated call sid) (Failed err) t = emit (CallFail call (HttpError None err)) t"
| "resume (SpawnStarted call sid) (DoneExec e) t = spawn_started call sid e t"
| "resume (SpawnStarted call sid) (Failed err) t = emit (CallFail call (HttpError None err)) t"
| "resume (RawCreated call sid) (DoneExec e) t = raw_created call sid e t"
| "resume (RawCreated call sid) (Failed err) t = emit (CallFail call (HttpError None err)) t"
| "resume (RawStarted sid c) (DoneExec e) t = raw_started sid e t"
| "resume (RawStarted sid c) (Failed err) t = attach_failed c t"
| "resume (TeardownClose sid visited) _ t = teardown_streams sid visited t"
| "resume (TeardownInspect sid) outc t = teardown_inspected sid outc t"
| "resume (TeardownKill sid) _ t = teardown_framed_finish sid t"
| "resume (TeardownRaw sid) _ t = teardown_raw_finish sid t"
| "resume k outc t = resume_send k outc t"

definition heartbeat_timeout :: "string \<Rightarrow> tunnel \<Rightarrow> tunnel" where
  "heartbeat_timeout sid t = teardown sid t"

definition grace_timeout :: "string \<Rightarrow> tunnel \<Rightarrow> tunnel" where
  "grace_timeout sid t =
     (let t1 = t\<lparr>graceTimers := (graceTimers t)(sid := None)\<rparr> in
      case obj t1 sid of
        None \<Rightarrow> t1
      | Some s \<Rightarrow> if clients s = [] \<and> state s \<noteq> Closing then teardown sid t1 else t1)"

fun fire :: "timer \<Rightarrow> tunnel \<Rightarrow> tunnel" where
  "fire (HeartbeatTimer sid) t = heartbeat_timeout sid t"
| "fire (ReadyTimer sid call) t = ready_timeout call sid t"
| "fire (GraceTimer sid) t = grace_timeout sid t"
| "fire (DirectTimer i) t = direct_timeout i t"
| "fire (HeadersTimer i) t = headers_timeout i t"

text \<open>Bytes of a framed exec: the demultiplexer hands stdout to the parser; an exception of a
  binary handler leaves both loops.\<close>

function exec_feed ::
    "(buffer \<Rightarrow> string + tunnel_message) \<Rightarrow> string \<Rightarrow> buffer \<Rightarrow> buffer \<Rightarrow> tunnel
       \<Rightarrow> buffer \<times> buffer \<times> tunnel \<times> bool" where
  "exec_feed json sid dpend ppend t = (case demux_step dpend of
       NeedMore \<Rightarrow> (dpend, ppend, t, False)
     | Reset e \<Rightarrow> ([], ppend, t, False)
     | Emit es k \<Rightarrow>
         (case es of
            [OnStdout d] \<Rightarrow>
              (let (ppend', t1, thrown) = agent_feed json sid (ppend @ d) t
               in if thrown then (drop k dpend, ppend', t1, True)
                  else exec_feed json sid (drop k dpend) ppend' t1)
          | _ \<Rightarrow> exec_feed json sid (drop k dpend) ppend t))"
  by pat_completeness auto
termination
  by (relation "measure (\<lambda>(_, _, p, _, _). length p)")
     (auto simp: demux_step_def Let_def split: if_splits)

declare exec_feed.simps [simp del]

definition raw_broadcast :: "string \<Rightarrow> tunnel \<Rightarrow> buffer \<Rightarrow> tunnel" where
  "raw_broadcast sid t d = (case obj t sid of
       None \<Rightarrow> t
     | Some s \<Rightarrow> foldl (\<lambda>t c. sendToWS (Some c) (WsBytes d) t) t (clients s))"

definition exec_data ::
    "(buffer \<Rightarrow> string + tunnel_message) \<Rightarrow> string \<Rightarrow> buffer \<Rightarrow> tunnel \<Rightarrow> tunnel" where
  "exec_data json e chunk t = (case conns t e of
       None \<Rightarrow> t
     | Some c \<Rightarrow>
         let sid = conn_session c in
         if conn_framed c then
           (case exec_feed json sid (demux_pending c @ chunk) (parser_pending c) t of
              (dp, pp, t1, thrown) \<Rightarrow>
                let t2 = t1\<lparr>conns := (conns t1)(e \<mapsto> c\<lparr>demux_pending := dp, parser_pending := pp\<rparr>)\<rparr>
                in if thrown then emit (Thrown ''wsAny is undefined'') t2 else t2)
         else (case obj t sid of
             None \<Rightarrow> t
           | Some s \<Rightarrow>
               if tty s then raw_broadcast sid t chunk
               else
                 let (ds, r) = raw_loop (demux_pending c @ chunk)
                 in (foldl (raw_broadcast sid) t ds)
                      \<lparr>conns := (conns t)(e \<mapsto> c\<lparr>demux_pending := r\<rparr>)\<rparr>))"

text \<open>The exec stream ends.\<close>

definition exec_end :: "string \<Rightarrow> tunnel \<Rightarrow> tunnel" where
  "exec_end e t = (case conns t e of
       None \<Rightarrow> t
     | Some c \<Rightarrow>
         let sid = conn_session c in
         if conn_framed c then
           (case obj t sid of
              None \<Rightarrow> t
            | Some s \<Rightarrow>
                if state s \<noteq> Closing then teardown sid (clearHeartbeatTimer sid t)
                else clearHeartbeatTimer sid t)
         else handleExecEnd sid t)"

end
