(* ===== verification/Tunnel_System.thy ===== *)
theory Tunnel_System
  imports Tunnel_Lifecycle
begin

text \<open>
  All events of the tunnel handler as one step function, and the accounting of concurrency
  slots over every interleaving: the requests in progress of a session never exceed its limit.
\<close>

section \<open>Events\<close>

datatype tunnel_event =
    ECreate nat string "nat \<Rightarrow> string" string string "string list" string create_options
  | EAttach string client
  | EDetach string client
  | EDetachOnce string client
  | EProxyHTTP string string tunnel_message "buffer option"
  | EProxyUpgrade string string tunnel_message client "client option"
  | EForwardData string string buffer
  | EProxyDirect string string string string headers "buffer option"
  | EProxyStreaming string string string string headers "buffer option" "client option"
  | EResize string int int
  | EWriteExec string buffer
  | ETeardown string
  | EExecData string buffer
  | EExecEnd string
  | EResume nat outcome
  | EFire nat
  | ECancel string
  | ERead string
  | ETick nat
  | ERunLink nat
  | ESweep
  | ETouch string
  | EAdapter string
  | EUpdateHosts "(string, host_entry) js_map"
  | EWsClose client nat string

fun tunnel_step :: "(buffer \<Rightarrow> string + tunnel_message) \<Rightarrow> tunnel \<Rightarrow> tunnel_event \<Rightarrow> tunnel" where
  "tunnel_step json t (ECreate call newId draw host cid cmd lbl opts) =
     tunnel_create call newId draw host cid cmd lbl opts t"
| "tunnel_step json t (EAttach sid ws) = attach sid ws t"
| "tunnel_step json t (EDetach sid ws) = detach sid ws t"
| "tunnel_step json t (EDetachOnce sid c) = detachOnce sid c t"
| "tunnel_step json t (EProxyHTTP sid i req body) = fst (proxyHTTPRequest sid i req body t)"
| "tunnel_step json t (EProxyUpgrade sid i msg ws onfail) = fst (proxyWSUpgrade sid i msg ws onfail t)"
| "tunnel_step json t (EForwardData sid i d) = fst (forwardWSData sid i d t)"
| "tunnel_step json t (EProxyDirect sid uuid meth path hs body) =
     fst (proxyHTTPDirect sid uuid meth path hs body t)"
| "tunnel_step json t (EProxyStreaming sid uuid meth path hs body onClose) =
     fst (proxyHTTPStreaming sid uuid meth path hs body onClose t)"
| "tunnel_step json t (EResize sid cols rows) = fst (resize sid cols rows t)"
| "tunnel_step json t (EWriteExec sid d) = fst (writeToExec sid d t)"
| "tunnel_step json t (ETeardown sid) = teardown sid t"
| "tunnel_step json t (EExecData e chunk) = exec_data json e chunk t"
| "tunnel_step json t (EExecEnd e) = exec_end e t"
| "tunnel_step json t (EResume k outc) = (case tasks t k of
       None \<Rightarrow> t
     | Some task \<Rightarrow> resume task outc (t\<lparr>tasks := (tasks t)(k := None)\<rparr>))"
| "tunnel_step json t (EFire k) = (case timers t k of
       None \<Rightarrow> t
     | Some (tm, due) \<Rightarrow> if due \<le> clock t then fire tm (clearTimeout k t) else t)"
| "tunnel_step json t (ECancel i) = stream_cancel i t"
| "tunnel_step json t (ERead i) = stream_read i t"
| "tunnel_step json t (ETick ms) = t\<lparr>clock := clock t + int ms\<rparr>"
| "tunnel_step json t (ERunLink c) = t\<lparr>writeSerializer := serializer_run_link (writeSerializer t) c\<rparr>"
| "tunnel_step json t ESweep = t\<lparr>manager := sm_sweep (manager t) (clock t)\<rparr>"
| "tunnel_step json t (ETouch sid) = touch sid t"
| "tunnel_step json t (EAdapter host) = t\<lparr>pool := fst (pool_get (pool t) host)\<rparr>"
| "tunnel_step json t (EUpdateHosts hs) = t\<lparr>pool := pool_updateHosts (pool t) hs\<rparr>"
| "tunnel_step json t (EWsClose c code reason) = emit (WsClose c code reason) t"

text \<open>Generated ids are fresh, and no write of a direct request fails after the request was
  answered.\<close>

fun regular :: "tunnel \<Rightarrow> tunnel_event \<Rightarrow> bool" where
  "regular t (ECreate call newId draw host cid cmd lbl opts) = fresh_id (manager t) newId"
| "regular t (EProxyDirect sid uuid meth path hs body) = (requests t uuid = None)"
| "regular t (EProxyStreaming sid uuid meth path hs body onClose) = (requests t uuid = None)"
| "regular t (EResume k outc) = (case (tasks t k, outc) of
       (Some (DirectSend i e fs), Failed err) \<Rightarrow> get_pending t i \<noteq> None
     | _ \<Rightarrow> True)"
| "regular t (EUpdateHosts hs) = map_wf hs"
| "regular t _ = True"

fun regular_run :: "(buffer \<Rightarrow> string + tunnel_message) \<Rightarrow> tunnel \<Rightarrow> tunnel_event list \<Rightarrow> bool" where
  "regular_run json t [] = True"
| "regular_run json t (ev # evs) = (regular t ev \<and> regular_run json (tunnel_step json t ev) evs)"

section \<open>Slots in use\<close>

text \<open>The requests of a session that hold a slot: HTTP streams of WebSocket clients and pending
  direct or streaming responses.\<close>

definition slots_used :: "tunnel \<Rightarrow> string \<Rightarrow> nat" where
  "slots_used t sid =
     count_map (\<lambda>_ e. entry_type e = HttpStream) (sessionStreams t sid)
     + count_map (\<lambda>_ p. pend_session p = sid) (pendingHTTPResponses t)"

text \<open>A request whose entry was just deleted and whose slot is still to be returned.\<close>

definition owes :: "string option \<Rightarrow> (string \<rightharpoonup> request) \<Rightarrow> string \<Rightarrow> nat" where
  "owes L rqs sid = (case L of None \<Rightarrow> 0 | Some i \<Rightarrow>
     (case rqs i of None \<Rightarrow> 0 | Some r \<Rightarrow> if rq_session r = sid then 1 else 0))"

definition cap_ok :: "string option \<Rightarrow> tunnel \<Rightarrow> bool" where
  "cap_ok L t \<longleftrightarrow> (\<forall>sid e. limiters t sid = Some e \<longrightarrow>
     slots_used t sid + owes L (requests t) sid \<le> inFlight e \<and> inFlight e \<le> max_slots e)"

definition obj_ok :: "tunnel \<Rightarrow> bool" where
  "obj_ok t \<longleftrightarrow> (\<forall>sid s. obj t sid = Some s \<longrightarrow> agentReady s \<longrightarrow> state s \<noteq> Created)
     \<and> (\<forall>sid. (case obj t sid of None \<Rightarrow> True | Some s \<Rightarrow> state s = Created) \<longrightarrow> slots_used t sid = 0)
     \<and> (\<forall>i r. requests t i = Some r \<longrightarrow> (\<exists>s. obj t (rq_session r) = Some s \<and> state s \<noteq> Created))"

definition req_ok :: "string option \<Rightarrow> tunnel \<Rightarrow> bool" where
  "req_ok L t \<longleftrightarrow> map_wf (pendingHTTPResponses t) \<and> (\<forall>sid. map_wf (sessionStreams t sid))
     \<and> (\<forall>i p. get_pending t i = Some p \<longrightarrow>
          (\<exists>r. requests t i = Some r \<and> rq_session r = pend_session p \<and> rq_streaming r = streaming p))
     \<and> (\<forall>i r. requests t i = Some r \<longrightarrow> L \<noteq> Some i \<longrightarrow> rq_streaming r \<longrightarrow>
          (rq_released r \<longleftrightarrow> get_pending t i = None))
     \<and> (\<forall>i. L = Some i \<longrightarrow> get_pending t i = None \<and>
          (\<exists>r. requests t i = Some r \<and> (rq_streaming r \<longrightarrow> \<not> rq_released r)))
     \<and> (\<forall>i. controllers t i \<noteq> None \<longrightarrow> (\<exists>r. requests t i = Some r \<and> rq_streaming r))"

definition timer_ok :: "string option \<Rightarrow> tunnel \<Rightarrow> bool" where
  "timer_ok L t \<longleftrightarrow>
     (\<forall>k i d. timers t k = Some (DirectTimer i, d) \<longrightarrow>
        (\<exists>r. requests t i = Some r \<and> \<not> rq_streaming r \<and> rq_timer r = k) \<and>
        (L = Some i \<or> get_pending t i \<noteq> None))
     \<and> (\<forall>k i d. timers t k = Some (HeadersTimer i, d) \<longrightarrow>
          (\<exists>r. requests t i = Some r \<and> rq_streaming r))
     \<and> (\<forall>k. timers t k \<noteq> None \<longrightarrow> k < next_timer t)
     \<and> (\<forall>k i e fs. tasks t k = Some (DirectSend i e fs) \<longrightarrow>
          (\<exists>r. requests t i = Some r \<and> \<not> rq_streaming r))"

definition acc_inv :: "string option \<Rightarrow> tunnel \<Rightarrow> bool" where
  "acc_inv L t \<longleftrightarrow> cap_ok L t \<and> obj_ok t \<and> req_ok L t \<and> timer_ok L t"

lemmas acc_defs = acc_inv_def cap_ok_def obj_ok_def req_ok_def timer_ok_def slots_used_def

end
