(* ===== verification/Tunnel_Accounting.thy ===== *)
theory Tunnel_Accounting
  imports Tunnel_System
begin

text \<open>
  The accounting invariant \<open>acc_inv\<close> through every handler: one rule per primitive of
  \<open>Tunnel_State\<close>, one per composite of the handlers, then the step.
\<close>

named_theorems acc_rules "preservation of the accounting invariant"

section \<open>What the invariant gives\<close>

lemma acc_pendD:
  "acc_inv L t \<Longrightarrow> get_pending t i = Some p \<Longrightarrow>
     \<exists>r. requests t i = Some r \<and> rq_session r = pend_session p \<and> rq_streaming r = streaming p"
  unfolding acc_inv_def req_ok_def by blast

lemma acc_taskD:
  "acc_inv L t \<Longrightarrow> tasks t k = Some (DirectSend i e fs) \<Longrightarrow>
     \<exists>r. requests t i = Some r \<and> \<not> rq_streaming r"
  unfolding acc_inv_def timer_ok_def by blast

lemma acc_releasedD:
  "acc_inv L t \<Longrightarrow> requests t i = Some r \<Longrightarrow> L \<noteq> Some i \<Longrightarrow> rq_streaming r \<Longrightarrow>
     rq_released r \<longleftrightarrow> get_pending t i = None"
  unfolding acc_inv_def req_ok_def by blast

lemma acc_directD:
  "acc_inv L t \<Longrightarrow> timers t k = Some (DirectTimer i, d) \<Longrightarrow>
     (\<exists>r. requests t i = Some r \<and> \<not> rq_streaming r \<and> rq_timer r = k) \<and>
     (L = Some i \<or> get_pending t i \<noteq> None)"
  unfolding acc_inv_def timer_ok_def by blast

lemma acc_headersD:
  "acc_inv L t \<Longrightarrow> timers t k = Some (HeadersTimer i, d) \<Longrightarrow>
     \<exists>r. requests t i = Some r \<and> rq_streaming r"
  unfolding acc_inv_def timer_ok_def by blast

lemma acc_ctrlD:
  "acc_inv L t \<Longrightarrow> controllers t i \<noteq> None \<Longrightarrow> \<exists>r. requests t i = Some r \<and> rq_streaming r"
  unfolding acc_inv_def req_ok_def by blast

lemma acc_wfD:
  "acc_inv L t \<Longrightarrow> map_wf (pendingHTTPResponses t)"
  "acc_inv L t \<Longrightarrow> map_wf (sessionStreams t sid)"
  unfolding acc_inv_def req_ok_def by blast+

lemma acc_objD:
  "acc_inv L t \<Longrightarrow> obj t sid = Some s \<Longrightarrow> agentReady s \<Longrightarrow> state s \<noteq> Created"
  "acc_inv L t \<Longrightarrow> obj t sid = None \<Longrightarrow> slots_used t sid = 0"
  "acc_inv L t \<Longrightarrow> obj t sid = Some s \<Longrightarrow> state s = Created \<Longrightarrow> slots_used t sid = 0"
  "acc_inv L t \<Longrightarrow> requests t i = Some r \<Longrightarrow> \<exists>s. obj t (rq_session r) = Some s \<and> state s \<noteq> Created"
  unfolding acc_inv_def obj_ok_def by (auto split: option.splits)

lemma acc_capD:
  "acc_inv L t \<Longrightarrow> limiters t sid = Some e \<Longrightarrow>
     slots_used t sid + owes L (requests t) sid \<le> inFlight e \<and> inFlight e \<le> max_slots e"
  unfolding acc_inv_def cap_ok_def by blast

lemma acc_owedD:
  "acc_inv (Some i) t \<Longrightarrow> get_pending t i = None \<and>
     (\<exists>r. requests t i = Some r \<and> (rq_streaming r \<longrightarrow> \<not> rq_released r))"
  unfolding acc_inv_def req_ok_def by simp

lemma owes_None [simp]: "owes None rqs sid = 0"
  by (simp add: owes_def)

section \<open>Fields the invariant does not read\<close>

lemma acc_frame [simp]:
  "acc_inv L (t\<lparr>out := a\<rparr>) = acc_inv L t"
  "acc_inv L (t\<lparr>writeSerializer := b\<rparr>) = acc_inv L t"
  "acc_inv L (t\<lparr>pool := c\<rparr>) = acc_inv L t"
  "acc_inv L (t\<lparr>parsers := d\<rparr>) = acc_inv L t"
  "acc_inv L (t\<lparr>heartbeatTimers := e\<rparr>) = acc_inv L t"
  "acc_inv L (t\<lparr>lastHeartbeats := f\<rparr>) = acc_inv L t"
  "acc_inv L (t\<lparr>readyWaiters := g\<rparr>) = acc_inv L t"
  "acc_inv L (t\<lparr>graceTimers := h\<rparr>) = acc_inv L t"
  "acc_inv L (t\<lparr>nextBinaryStreamId := i\<rparr>) = acc_inv L t"
  "acc_inv L (t\<lparr>conns := j\<rparr>) = acc_inv L t"
  "acc_inv L (t\<lparr>detached := k\<rparr>) = acc_inv L t"
  "acc_inv L (t\<lparr>clock := l\<rparr>) = acc_inv L t"
  by (simp_all add: acc_defs obj_def get_pending_def)

lemma acc_emit [simp]: "acc_inv L (emit e t) = acc_inv L t"
  by (simp add: emit_def)

lemma acc_nextBinary [simp]:
  "acc_inv L (set_nextBinary sid i t) = acc_inv L t"
  "acc_inv L (clear_nextBinary sid t) = acc_inv L t"
  by (simp_all add: set_nextBinary_def clear_nextBinary_def)

lemma acc_send [simp]:
  "acc_inv L (fst (sendToWSSerialized sid ws d t)) = acc_inv L t"
  "acc_inv L (sendToWS ws d t) = acc_inv L t"
  by (simp_all add: sendToWSSerialized_def sendToWS_def split: option.splits client.splits)

section \<open>Objects\<close>

text \<open>An update of the objects that keeps \<open>agentReady\<close> apart from \<open>Created\<close> and never returns
  to \<open>Created\<close>.\<close>

definition obj_rel :: "tunnel_session \<Rightarrow> tunnel_session \<Rightarrow> bool" where
  "obj_rel s s' \<longleftrightarrow> (state s' = Created \<longrightarrow> state s = Created) \<and>
     (agentReady s' \<longrightarrow> state s' = Created \<longrightarrow> agentReady s)"

lemma obj_rel_refl [simp]: "obj_rel s s"
  by (simp add: obj_rel_def)

definition mgr_rel :: "session_manager \<Rightarrow> session_manager \<Rightarrow> bool" where
  "mgr_rel m m' \<longleftrightarrow> (\<forall>sid. rel_option obj_rel (objects m sid) (objects m' sid))"

lemma mgr_rel_upd: "(\<And>s. obj_rel s (f s)) \<Longrightarrow> mgr_rel m (upd_session sid f m)"
  by (simp add: mgr_rel_def upd_session_def option.rel_map option.rel_refl)

lemma mgr_rel_touch: "mgr_rel m (sm_touch m now sid)"
proof (cases "sm_get m sid")
  case None
  then show ?thesis by (simp add: sm_touch_def mgr_rel_def option.rel_refl)
next
  case (Some s)
  then show ?thesis by (simp add: sm_touch_def mgr_rel_upd obj_rel_def)
qed

lemma mgr_rel_delete: "mgr_rel m (sm_delete m j)"
proof (cases "sm_get m j")
  case None
  then show ?thesis by (simp add: sm_delete_absent mgr_rel_def option.rel_refl)
next
  case (Some s)
  then have "objects m j = Some s" by (simp add: sm_get_def split: if_splits)
  then show ?thesis
    unfolding mgr_rel_def sm_delete_fields [OF Some] by (simp add: option.rel_refl obj_rel_def)
qed

lemma obj_ok_mono:
  assumes "obj_ok t" "mgr_rel (manager t) m"
  shows "obj_ok (t\<lparr>manager := m\<rparr>)"
proof -
  have r: "rel_option obj_rel (obj t sid) (objects m sid)" for sid
    using assms(2) by (simp add: mgr_rel_def obj_def)
  show ?thesis
    unfolding obj_ok_def
  proof (intro conjI allI impI, goal_cases)
    case (1 sid s')
    then obtain s where "obj t sid = Some s" "obj_rel s s'"
      using r [of sid] by (auto simp: obj_def option_rel_Some2)
    with 1 assms(1) show ?case by (auto simp: obj_ok_def obj_rel_def)
  next
    case (2 sid)
    have "case obj t sid of None \<Rightarrow> True | Some s \<Rightarrow> state s = Created"
      using r [of sid] 2 by (cases "obj t sid"; cases "objects m sid") (auto simp: obj_def obj_rel_def)
    with assms(1) show ?case by (simp add: obj_ok_def slots_used_def)
  next
    case (3 i q)
    then have "requests t i = Some q" by simp
    then obtain s where s: "obj t (rq_session q) = Some s" "state s \<noteq> Created"
      using assms(1) unfolding obj_ok_def by blast
    then show ?case
      using r [of "rq_session q"] by (auto simp: obj_def obj_rel_def option_rel_Some1)
  qed
qed

lemma acc_manager:
  assumes "acc_inv L t" "mgr_rel (manager t) m"
  shows "acc_inv L (t\<lparr>manager := m\<rparr>)"
proof -
  have "obj_ok (t\<lparr>manager := m\<rparr>)" using assms by (simp add: acc_inv_def obj_ok_mono)
  then show ?thesis
    using assms(1) by (simp add: acc_inv_def cap_ok_def req_ok_def timer_ok_def slots_used_def
        get_pending_def)
qed

lemma acc_upd_obj [acc_rules]: "acc_inv L t \<Longrightarrow> (\<And>s. obj_rel s (f s)) \<Longrightarrow> acc_inv L (upd_obj sid f t)"
  unfolding upd_obj_def by (rule acc_manager) (simp_all add: mgr_rel_upd)

lemma acc_touch [acc_rules]: "acc_inv L t \<Longrightarrow> acc_inv L (touch sid t)"
  unfolding touch_def by (rule acc_manager) (simp_all add: mgr_rel_touch)

lemma acc_sm_delete [acc_rules]: "acc_inv L t \<Longrightarrow> acc_inv L (t\<lparr>manager := sm_delete (manager t) j\<rparr>)"
  by (rule acc_manager) (simp_all add: mgr_rel_delete)

lemma acc_foldl_delete: "acc_inv L t \<Longrightarrow> acc_inv L (t\<lparr>manager := foldl sm_delete (manager t) js\<rparr>)"
proof (induction js arbitrary: t)
  case (Cons j js)
  from Cons.IH [OF acc_sm_delete [OF Cons.prems, of j]] show ?case by simp
qed simp

lemma acc_sweep: "acc_inv L t \<Longrightarrow> acc_inv L (t\<lparr>manager := sm_sweep (manager t) now\<rparr>)"
  by (simp add: sm_sweep_def acc_foldl_delete)

section \<open>Timers and tasks\<close>

text \<open>Timers and tasks that belong to no request.\<close>

fun plain_timer :: "timer \<Rightarrow> bool" where
  "plain_timer (DirectTimer i) = False"
| "plain_timer (HeadersTimer i) = False"
| "plain_timer _ = True"

fun plain_task :: "task \<Rightarrow> bool" where
  "plain_task (DirectSend i e fs) = False"
| "plain_task _ = True"

lemma acc_timers:
  assumes "acc_inv L t" "timer_ok L (t\<lparr>timers := tms, next_timer := n\<rparr>)"
  shows "acc_inv L (t\<lparr>timers := tms, next_timer := n\<rparr>)"
  using assms by (simp add: acc_inv_def cap_ok_def obj_ok_def req_ok_def slots_used_def
      get_pending_def obj_def)

lemma acc_setTimeout [acc_rules]:
  assumes "acc_inv L t" "plain_timer k"
  shows "acc_inv L (setTimeout k ms t)"
  unfolding setTimeout_def
  by (rule acc_timers [OF assms(1)])
     (use assms in \<open>auto simp: acc_inv_def timer_ok_def get_pending_def less_Suc_eq\<close>)

lemma acc_drop_timers:
  assumes "acc_inv L t" "\<And>k. tms k = None \<or> tms k = timers t k"
  shows "acc_inv L (t\<lparr>timers := tms\<rparr>)"
proof -
  have "timers t k = Some x" if "tms k = Some x" for k x using assms(2) [of k] that by auto
  then have "timer_ok L (t\<lparr>timers := tms, next_timer := next_timer t\<rparr>)"
    using assms(1) unfolding acc_inv_def timer_ok_def get_pending_def by simp blast
  from acc_timers [OF assms(1) this] show ?thesis by simp
qed

lemma acc_clearTimeout [acc_rules]: "acc_inv L t \<Longrightarrow> acc_inv L (clearTimeout k t)"
  unfolding clearTimeout_def by (rule acc_drop_timers) auto

lemma acc_tasks:
  assumes "acc_inv L t"
    and "\<And>k i e fs. tks k = Some (DirectSend i e fs) \<Longrightarrow> \<exists>r. requests t i = Some r \<and> \<not> rq_streaming r"
  shows "acc_inv L (t\<lparr>tasks := tks, next_task := n\<rparr>)"
  using assms by (simp add: acc_inv_def cap_ok_def obj_ok_def req_ok_def timer_ok_def slots_used_def
      get_pending_def obj_def)

lemma acc_await [acc_rules]: "acc_inv L t \<Longrightarrow> plain_task k \<Longrightarrow> acc_inv L (await k t)"
  unfolding await_def
  by (rule acc_tasks) (auto dest: acc_taskD split: if_splits)

lemma acc_await_direct:
  assumes "acc_inv L t" "requests t i = Some r" "\<not> rq_streaming r"
  shows "acc_inv L (await (DirectSend i e fs) t)"
  unfolding await_def
  by (rule acc_tasks) (use assms in \<open>auto dest: acc_taskD split: if_splits\<close>)

lemma acc_drop_task: "acc_inv L t \<Longrightarrow> acc_inv L (t\<lparr>tasks := (tasks t)(k := None)\<rparr>)"
proof -
  assume a: "acc_inv L t"
  have "acc_inv L (t\<lparr>tasks := (tasks t)(k := None), next_task := next_task t\<rparr>)"
    by (rule acc_tasks [OF a]) (auto dest: acc_taskD [OF a] split: if_splits)
  then show ?thesis by simp
qed

lemma acc_clearHeartbeat [acc_rules]: "acc_inv L t \<Longrightarrow> acc_inv L (clearHeartbeatTimer sid t)"
  by (auto simp: clearHeartbeatTimer_def intro: acc_rules split: option.splits)

lemma acc_resetHeartbeat [acc_rules]: "acc_inv L t \<Longrightarrow> acc_inv L (resetHeartbeatTimer sid t)"
  by (auto simp: resetHeartbeatTimer_def Let_def intro: acc_rules)

lemma acc_clear_grace [acc_rules]: "acc_inv L t \<Longrightarrow> acc_inv L (clear_grace sid t)"
  by (auto simp: clear_grace_def intro: acc_rules split: option.splits)

lemma acc_use_adapter [acc_rules]:
  "use_adapter s t = (t', x) \<Longrightarrow> acc_inv L t \<Longrightarrow> acc_inv L t'"
  by (auto simp: use_adapter_def split: prod.splits sum.splits)

section \<open>Streams\<close>

text \<open>A change of the limiters and stream maps that keeps the debt covered.\<close>

lemma acc_streams:
  assumes "acc_inv L t" "\<And>sid. map_wf (ss sid)"
    and "\<And>sid e. l sid = Some e \<Longrightarrow>
      count_map (\<lambda>_ e. entry_type e = HttpStream) (ss sid)
        + count_map (\<lambda>_ p. pend_session p = sid) (pendingHTTPResponses t)
        + owes L (requests t) sid \<le> inFlight e \<and> inFlight e \<le> max_slots e"
    and "\<And>sid. (case obj t sid of None \<Rightarrow> True | Some s \<Rightarrow> state s = Created) \<Longrightarrow>
      count_map (\<lambda>_ e. entry_type e = HttpStream) (ss sid) = 0"
  shows "acc_inv L (t\<lparr>limiters := l, sessionStreams := ss\<rparr>)"
proof -
  have "count_map (\<lambda>_ p. pend_session p = sid) (pendingHTTPResponses t) = 0"
    if "case obj t sid of None \<Rightarrow> True | Some s \<Rightarrow> state s = Created" for sid
    using assms(1) that unfolding acc_inv_def obj_ok_def slots_used_def by simp
  then have "obj_ok (t\<lparr>limiters := l, sessionStreams := ss\<rparr>)"
    using assms(1,4) unfolding acc_inv_def obj_ok_def by (simp add: obj_def slots_used_def)
  moreover have "cap_ok L (t\<lparr>limiters := l, sessionStreams := ss\<rparr>)"
    using assms(3) by (simp add: cap_ok_def slots_used_def)
  ultimately show ?thesis
    using assms(1,2) by (simp add: acc_inv_def req_ok_def timer_ok_def get_pending_def)
qed

abbreviation http_count :: "(string, stream_entry) js_map \<Rightarrow> nat" where
  "http_count m \<equiv> count_map (\<lambda>_ e. entry_type e = HttpStream) m"

abbreviation pend_count :: "tunnel \<Rightarrow> string \<Rightarrow> nat" where
  "pend_count t sid \<equiv> count_map (\<lambda>_ p. pend_session p = sid) (pendingHTTPResponses t)"

lemma acc_cap_counts:
  "acc_inv L t \<Longrightarrow> limiters t sid = Some e \<Longrightarrow>
     http_count (sessionStreams t sid) + pend_count t sid + owes L (requests t) sid \<le> inFlight e
     \<and> inFlight e \<le> max_slots e"
  using acc_capD by (simp add: slots_used_def)

lemma acc_created_counts:
  "acc_inv L t \<Longrightarrow> case obj t sid of None \<Rightarrow> True | Some s \<Rightarrow> state s = Created \<Longrightarrow>
     http_count (sessionStreams t sid) = 0 \<and> pend_count t sid = 0"
  by (simp add: acc_inv_def obj_ok_def slots_used_def)

lemma http_count_set_le:
  assumes "map_wf m" "entry_type e = HttpStream \<longrightarrow> (\<exists>e'. map_of m i = Some e' \<and> entry_type e' = HttpStream)"
  shows "http_count (map_set i e m) \<le> http_count m"
proof (cases "map_of m i")
  case None
  then show ?thesis using assms(2) by (auto simp: count_map_set_absent)
next
  case (Some e')
  then show ?thesis
    using count_map_set_present [OF Some assms(1), of "\<lambda>_ e. entry_type e = HttpStream" e] assms(2)
    by (auto split: if_splits)
qed

lemma acc_shrink_streams:
  assumes "acc_inv L t" "map_wf m" "http_count m \<le> http_count (sessionStreams t sid)"
  shows "acc_inv L (t\<lparr>sessionStreams := (sessionStreams t)(sid := m)\<rparr>)"
proof -
  have "acc_inv L (t\<lparr>limiters := limiters t, sessionStreams := (sessionStreams t)(sid := m)\<rparr>)"
  proof (rule acc_streams [OF assms(1)], goal_cases)
    case (1 j)
    then show ?case using assms(2) acc_wfD(2) [OF assms(1)] by simp
  next
    case (2 j e)
    then show ?case using acc_cap_counts [OF assms(1) 2] assms(3) by (auto split: if_splits)
  next
    case (3 j)
    then show ?case using acc_created_counts [OF assms(1) 3] assms(3) by auto
  qed
  then show ?thesis by simp
qed

lemma acc_clear_streams: "acc_inv L t \<Longrightarrow> acc_inv L (t\<lparr>sessionStreams := (sessionStreams t)(sid := [])\<rparr>)"
  by (rule acc_shrink_streams) simp_all

lemma acc_set_stream_le:
  assumes "acc_inv L t"
    and "entry_type e = HttpStream \<longrightarrow> (\<exists>e'. get_stream t sid i = Some e' \<and> entry_type e' = HttpStream)"
  shows "acc_inv L (set_stream sid i e t)"
  unfolding set_stream_def
  by (rule acc_shrink_streams [OF assms(1)])
     (use assms acc_wfD(2) [OF assms(1)] in \<open>auto simp: get_stream_def intro!: http_count_set_le\<close>)

lemma acc_delete_stream: "acc_inv L t \<Longrightarrow> acc_inv L (delete_stream sid i t)"
  unfolding delete_stream_def
  by (rule acc_shrink_streams) (simp_all add: acc_wfD(2) count_map_delete_le)

lemma acc_set_stream_acquired:
  assumes "acc_inv L t" "limiter_acquire (limiters t) sid = (True, l)"
    and "obj t sid = Some s" "state s \<noteq> Created"
  shows "acc_inv L (set_stream sid i e (t\<lparr>limiters := l\<rparr>))"
proof -
  have "acc_inv L (t\<lparr>limiters := l, sessionStreams :=
      (sessionStreams t)(sid := map_set i e (sessionStreams t sid))\<rparr>)"
  proof (rule acc_streams [OF assms(1)], goal_cases)
    case (1 j)
    then show ?case using acc_wfD(2) [OF assms(1)] by simp
  next
    case (2 j e1)
    obtain e0 where e0: "limiters t sid = Some e0" "inFlight e0 < max_slots e0"
      "l = (limiters t)(sid \<mapsto> e0\<lparr>inFlight := inFlight e0 + 1\<rparr>)"
      using assms(2) by (auto simp: limiter_acquire_def split: option.splits if_splits)
    show ?case
    proof (cases "j = sid")
      case True
      have "http_count (map_set i e (sessionStreams t sid)) \<le> Suc (http_count (sessionStreams t sid))"
        by (rule count_map_set_le)
      then show ?thesis using True 2 e0 acc_cap_counts [OF assms(1) e0(1)] by auto
    next
      case False
      then show ?thesis using 2 e0(3) acc_cap_counts [OF assms(1), of j e1] by simp
    qed
  next
    case (3 j)
    then show ?case using acc_created_counts [OF assms(1) 3] assms(3,4) by auto
  qed
  then show ?thesis by (simp add: set_stream_def)
qed

text \<open>Deleting a stream together with the return of its slot.\<close>

lemma acc_drop_stream [acc_rules]:
  assumes "acc_inv L t" "get_stream t sid i = Some e"
  shows "acc_inv L (delete_stream sid i (if entry_type e = HttpStream then release_slot sid t else t))"
proof (cases "entry_type e = HttpStream")
  case False
  then show ?thesis using assms(1) by (simp add: acc_delete_stream)
next
  case True
  have less: "Suc (http_count (map_delete i (sessionStreams t sid))) = http_count (sessionStreams t sid)"
    using count_map_delete [of "sessionStreams t sid" i e "\<lambda>_ e. entry_type e = HttpStream"]
      assms acc_wfD(2) [OF assms(1)] True by (simp add: get_stream_def)
  have "acc_inv L (t\<lparr>limiters := limiter_release (limiters t) sid, sessionStreams :=
      (sessionStreams t)(sid := map_delete i (sessionStreams t sid))\<rparr>)"
  proof (rule acc_streams [OF assms(1)], goal_cases)
    case (1 j)
    then show ?case using acc_wfD(2) [OF assms(1)] by simp
  next
    case (2 j e1)
    show ?case
    proof (cases "j = sid")
      case True
      with 2 obtain e0 where e0: "limiters t sid = Some e0" "inFlight e1 \<ge> inFlight e0 - 1"
          "inFlight e1 \<le> inFlight e0" "max_slots e1 = max_slots e0"
        by (auto simp: limiter_release_def split: option.splits if_splits)
      then show ?thesis using True less acc_cap_counts [OF assms(1) e0(1)] by auto
    next
      case False
      then have "limiters t j = Some e1"
        using 2 by (auto simp: limiter_release_def split: option.splits if_splits)
      then show ?thesis using False acc_cap_counts [OF assms(1), of j e1] by simp
    qed
  next
    case (3 j)
    then show ?case using acc_created_counts [OF assms(1) 3] less by auto
  qed
  then show ?thesis using True by (simp add: delete_stream_def release_slot_def)
qed

section \<open>Pending responses\<close>

lemma pend_count_set_same:
  assumes "map_wf m" "map_of m i = Some p0" "pend_session p = pend_session p0"
  shows "count_map (\<lambda>_ p. pend_session p = sid) (map_set i p m) = count_map (\<lambda>_ p. pend_session p = sid) m"
  using count_map_set_present [OF assms(2,1), of "\<lambda>_ p. pend_session p = sid" p] assms(3) by simp

text \<open>Updating an entry in place.\<close>

lemma acc_set_pending [acc_rules]:
  assumes "acc_inv L t" "get_pending t i = Some p0"
    and "pend_session p = pend_session p0" "streaming p = streaming p0"
  shows "acc_inv L (set_pending i p t)"
proof -
  have m: "map_of (pendingHTTPResponses t) i = Some p0" using assms(2) by (simp add: get_pending_def)
  have c: "slots_used (set_pending i p t) = slots_used t"
    using pend_count_set_same [OF acc_wfD(1) [OF assms(1)] m assms(3)]
    by (simp add: slots_used_def set_pending_def fun_eq_iff)
  have g: "get_pending (set_pending i p t) j = (if j = i then Some p else get_pending t j)" for j
    by (simp add: get_pending_def set_pending_def)
  have w: "map_wf (pendingHTTPResponses (set_pending i p t))"
    using acc_wfD(1) [OF assms(1)] by (simp add: set_pending_def)
  have "req_ok L (set_pending i p t)"
    unfolding req_ok_def g using assms w unfolding acc_inv_def req_ok_def
    by (auto simp: set_pending_def)
  moreover have "cap_ok L (set_pending i p t)" "obj_ok (set_pending i p t)"
    using assms(1) unfolding acc_inv_def cap_ok_def obj_ok_def c
    by (auto simp: set_pending_def obj_def)
  moreover have "timer_ok L (set_pending i p t)"
    using assms(1) unfolding acc_inv_def timer_ok_def g by (auto simp: set_pending_def)
  ultimately show ?thesis by (simp add: acc_inv_def)
qed

text \<open>Deleting an entry: its slot is owed.\<close>

lemma acc_delete_pending:
  assumes "acc_inv None t" "get_pending t i = Some p"
  shows "acc_inv (Some i) (delete_pending i t)"
proof -
  have m: "map_of (pendingHTTPResponses t) i = Some p" using assms(2) by (simp add: get_pending_def)
  obtain r where r: "requests t i = Some r" "rq_session r = pend_session p" "rq_streaming r = streaming p"
    using acc_pendD [OF assms] by blast
  have unrel: "rq_streaming r \<longrightarrow> \<not> rq_released r" using acc_releasedD [OF assms(1) r(1)] assms(2) by auto
  have g: "get_pending (delete_pending i t) j = (if j = i then None else get_pending t j)" for j
    by (simp add: get_pending_def delete_pending_def)
  have c: "slots_used (delete_pending i t) sid + owes (Some i) (requests t) sid = slots_used t sid" for sid
    using count_map_delete [OF m acc_wfD(1) [OF assms(1)], of "\<lambda>_ p. pend_session p = sid"] r
    by (simp add: slots_used_def delete_pending_def owes_def split: if_splits)
  have w: "map_wf (pendingHTTPResponses (delete_pending i t))"
    using acc_wfD(1) [OF assms(1)] by (simp add: delete_pending_def)
  have "req_ok (Some i) (delete_pending i t)"
    unfolding req_ok_def g using assms(1) w r unrel unfolding acc_inv_def req_ok_def
    by (auto simp: delete_pending_def)
  moreover have "cap_ok (Some i) (delete_pending i t)"
    using acc_capD [OF assms(1)] c unfolding cap_ok_def by (auto simp: delete_pending_def)
  moreover have "obj_ok (delete_pending i t)"
  proof -
    have "slots_used (delete_pending i t) sid = 0"
      if "case obj t sid of None \<Rightarrow> True | Some s \<Rightarrow> state s = Created" for sid
      using c [of sid] assms(1) that unfolding acc_inv_def obj_ok_def by auto
    moreover have "obj (delete_pending i t) = obj t" "requests (delete_pending i t) = requests t"
      by (simp_all add: delete_pending_def obj_def fun_eq_iff)
    ultimately show ?thesis using assms(1) unfolding acc_inv_def obj_ok_def by simp
  qed
  moreover have "timer_ok (Some i) (delete_pending i t)"
    using assms(1) unfolding acc_inv_def timer_ok_def g by (auto simp: delete_pending_def)
  ultimately show ?thesis by (simp add: acc_inv_def)
qed

lemma delete_pending_absent: "get_pending t i = None \<Longrightarrow> delete_pending i t = t"
  by (simp add: delete_pending_def get_pending_def map_delete_absent)

text \<open>No direct timer of the request is armed.\<close>

definition untimed :: "string \<Rightarrow> tunnel \<Rightarrow> bool" where
  "untimed i t \<longleftrightarrow> (\<forall>k d. timers t k \<noteq> Some (DirectTimer i, d))"

lemma acc_clear_request_timer [acc_rules]: "acc_inv L t \<Longrightarrow> acc_inv L (clear_request_timer i t)"
  by (auto simp: clear_request_timer_def intro: acc_rules split: option.splits)

lemma untimed_clear: "acc_inv L t \<Longrightarrow> untimed i (clear_request_timer i t)"
  unfolding untimed_def
proof (intro allI notI)
  fix k d
  assume a: "acc_inv L t" and k: "timers (clear_request_timer i t) k = Some (DirectTimer i, d)"
  then have "timers t k = Some (DirectTimer i, d)"
    by (auto simp: clear_request_timer_def clearTimeout_def split: option.splits if_splits)
  with acc_directD [OF a this] k show False
    by (auto simp: clear_request_timer_def clearTimeout_def)
qed

lemma untimed_streaming: "acc_inv L t \<Longrightarrow> requests t i = Some r \<Longrightarrow> rq_streaming r \<Longrightarrow> untimed i t"
  unfolding untimed_def using acc_directD by fastforce

text \<open>Returning the owed slot.\<close>

lemma acc_pay:
  assumes "acc_inv (Some i) t" "requests t i = Some r" "untimed i t"
    and "rqs = (requests t)(i \<mapsto> r\<lparr>rq_released := b\<rparr>)" "rq_streaming r \<longrightarrow> b"
  shows "acc_inv None (t\<lparr>requests := rqs, limiters := limiter_release (limiters t) (rq_session r)\<rparr>)"
    (is "acc_inv None ?t")
proof -
  have none: "get_pending t i = None" using assms(1) unfolding acc_inv_def req_ok_def by blast
  have other: "j \<noteq> i \<Longrightarrow> rqs j = requests t j" and here: "rqs i = Some (r\<lparr>rq_released := b\<rparr>)" for j
    using assms(4) by simp_all
  have "cap_ok None ?t"
    unfolding cap_ok_def
  proof (intro allI impI)
    fix sid e
    assume e: "limiters ?t sid = Some e"
    have s: "slots_used ?t sid = slots_used t sid" by (simp add: slots_used_def)
    show "slots_used ?t sid + owes None (requests ?t) sid \<le> inFlight e \<and> inFlight e \<le> max_slots e"
    proof (cases "sid = rq_session r")
      case True
      with e obtain e0 where e0: "limiters t sid = Some e0" "inFlight e \<ge> inFlight e0 - 1"
          "inFlight e \<le> inFlight e0" "max_slots e = max_slots e0"
        by (auto simp: limiter_release_def split: option.splits if_splits)
      have "owes (Some i) (requests t) sid = 1" using True assms(2) by (simp add: owes_def)
      then show ?thesis using s e0 acc_capD [OF assms(1) e0(1)] by auto
    next
      case False
      with e have "limiters t sid = Some e"
        by (auto simp: limiter_release_def split: option.splits if_splits)
      then show ?thesis using s acc_capD [OF assms(1), of sid e] by auto
    qed
  qed
  moreover have "obj_ok ?t"
  proof -
    have "\<exists>s. obj t (rq_session q) = Some s \<and> state s \<noteq> Created" if "rqs j = Some q" for j q
      using that acc_objD(4) [OF assms(1)] assms(2) here other [of j] by (cases "j = i") auto
    moreover have "slots_used ?t = slots_used t" "obj ?t = obj t"
      by (simp_all add: slots_used_def obj_def fun_eq_iff)
    ultimately show ?thesis using assms(1) unfolding acc_inv_def obj_ok_def by simp
  qed
  moreover have "req_ok None ?t"
  proof -
    have "\<exists>q. rqs j = Some q \<and> rq_session q = pend_session p \<and> rq_streaming q = streaming p"
      if "get_pending t j = Some p" for j p
      using acc_pendD [OF assms(1) that] none that other [of j] by (cases "j = i") auto
    moreover have "rq_released q \<longleftrightarrow> get_pending t j = None" if "rqs j = Some q" "rq_streaming q" for j q
      using acc_releasedD [OF assms(1), of j q] that none here other [of j] assms(5)
      by (cases "j = i") auto
    moreover have "\<exists>q. rqs j = Some q \<and> rq_streaming q" if "controllers t j \<noteq> None" for j
      using acc_ctrlD [OF assms(1) that] assms(2) here other [of j] by (cases "j = i") auto
    ultimately show ?thesis
      using acc_wfD [OF assms(1)] unfolding req_ok_def get_pending_def by simp
  qed
  moreover have "timer_ok None ?t"
  proof -
    have "(\<exists>q. rqs j = Some q \<and> \<not> rq_streaming q \<and> rq_timer q = k) \<and> get_pending t j \<noteq> None"
      if "timers t k = Some (DirectTimer j, d)" for k j d
    proof -
      have "j \<noteq> i" using that assms(3) by (auto simp: untimed_def)
      then show ?thesis using acc_directD [OF assms(1) that] other [of j] by auto
    qed
    moreover have "\<exists>q. rqs j = Some q \<and> rq_streaming q" if "timers t k = Some (HeadersTimer j, d)" for k j d
      using acc_headersD [OF assms(1) that] assms(2) here other [of j] by (cases "j = i") auto
    moreover have "\<exists>q. rqs j = Some q \<and> \<not> rq_streaming q" if "tasks t k = Some (DirectSend j e fs)" for k j e fs
      using acc_taskD [OF assms(1) that] assms(2) here other [of j] by (cases "j = i") auto
    moreover have "\<forall>k. timers t k \<noteq> None \<longrightarrow> k < next_timer t"
      using assms(1) unfolding acc_inv_def timer_ok_def by blast
    ultimately show ?thesis unfolding timer_ok_def get_pending_def by simp
  qed
  ultimately show ?thesis by (simp add: acc_inv_def)
qed

lemma acc_release_request:
  assumes "acc_inv (Some i) t" "requests t i = Some r" "\<not> rq_streaming r" "untimed i t"
  shows "acc_inv None (release_request_slot i t)"
proof -
  have "(requests t)(i \<mapsto> r\<lparr>rq_released := rq_released r\<rparr>) = requests t"
    using assms(2) by (auto simp: fun_eq_iff)
  then have "acc_inv None (t\<lparr>requests := requests t, limiters := limiter_release (limiters t) (rq_session r)\<rparr>)"
    using acc_pay [OF assms(1,2,4) refl, of "rq_released r"] assms(3) by simp
  then show ?thesis using assms(2) by (simp add: release_request_slot_def release_slot_def)
qed

text \<open>Settling a promise changes no field of the request the invariant reads.\<close>

lemma acc_settled:
  assumes "acc_inv L t" "requests t i = Some r"
  shows "acc_inv L (t\<lparr>requests := (requests t)(i \<mapsto> r\<lparr>rq_settled := True\<rparr>)\<rparr>)"
    (is "acc_inv L (t\<lparr>requests := ?rqs\<rparr>)")
proof -
  have fwd: "\<exists>q'. ?rqs j = Some q' \<and> rq_session q' = rq_session q \<and> rq_streaming q' = rq_streaming q
      \<and> rq_timer q' = rq_timer q \<and> rq_released q' = rq_released q" if "requests t j = Some q" for j q
    using that assms(2) by (cases "j = i") auto
  have bwd: "\<exists>q'. requests t j = Some q' \<and> rq_session q' = rq_session q \<and> rq_streaming q' = rq_streaming q
      \<and> rq_timer q' = rq_timer q \<and> rq_released q' = rq_released q" if "?rqs j = Some q" for j q
    using that assms(2) by (cases "j = i") auto
  have "owes L ?rqs = owes L (requests t)"
    using assms(2) by (auto simp: owes_def fun_eq_iff split: option.splits)
  then have "cap_ok L (t\<lparr>requests := ?rqs\<rparr>)"
    using assms(1) by (simp add: acc_inv_def cap_ok_def slots_used_def)
  moreover have "obj_ok (t\<lparr>requests := ?rqs\<rparr>)"
  proof -
    have "\<exists>s. obj t (rq_session q) = Some s \<and> state s \<noteq> Created" if "?rqs j = Some q" for j q
      using bwd [OF that] acc_objD(4) [OF assms(1)] by metis
    moreover have "slots_used (t\<lparr>requests := ?rqs\<rparr>) = slots_used t" "obj (t\<lparr>requests := ?rqs\<rparr>) = obj t"
      by (simp_all add: slots_used_def obj_def fun_eq_iff)
    ultimately show ?thesis
      using assms(1) unfolding acc_inv_def obj_ok_def by (simp del: fun_upd_apply)
  qed
  moreover have "req_ok L (t\<lparr>requests := ?rqs\<rparr>)"
  proof -
    have "\<exists>q. ?rqs j = Some q \<and> rq_session q = pend_session p \<and> rq_streaming q = streaming p"
      if "get_pending t j = Some p" for j p
      using acc_pendD [OF assms(1) that] fwd by metis
    moreover have "rq_released q \<longleftrightarrow> get_pending t j = None"
      if "?rqs j = Some q" "L \<noteq> Some j" "rq_streaming q" for j q
      using bwd [OF that(1)] acc_releasedD [OF assms(1) _ that(2)] that(3) by metis
    moreover have "get_pending t j = None \<and> (\<exists>q. ?rqs j = Some q \<and> (rq_streaming q \<longrightarrow> \<not> rq_released q))"
      if lj: "L = Some j" for j
    proof -
      obtain q where "get_pending t j = None" "requests t j = Some q" "rq_streaming q \<longrightarrow> \<not> rq_released q"
        using acc_owedD [of j t] assms(1) lj by auto
      then show ?thesis using fwd [of j q] by metis
    qed
    moreover have "\<exists>q. ?rqs j = Some q \<and> rq_streaming q" if "controllers t j \<noteq> None" for j
      using acc_ctrlD [OF assms(1) that] fwd by metis
    ultimately show ?thesis
      using acc_wfD [OF assms(1)] unfolding req_ok_def get_pending_def by (simp del: fun_upd_apply)
  qed
  moreover have "timer_ok L (t\<lparr>requests := ?rqs\<rparr>)"
  proof -
    have "(\<exists>q. ?rqs j = Some q \<and> \<not> rq_streaming q \<and> rq_timer q = k) \<and> (L = Some j \<or> get_pending t j \<noteq> None)"
      if "timers t k = Some (DirectTimer j, d)" for k j d
      using acc_directD [OF assms(1) that] fwd by metis
    moreover have "\<exists>q. ?rqs j = Some q \<and> rq_streaming q" if "timers t k = Some (HeadersTimer j, d)" for k j d
      using acc_headersD [OF assms(1) that] fwd by metis
    moreover have "\<exists>q. ?rqs j = Some q \<and> \<not> rq_streaming q" if "tasks t k = Some (DirectSend j e fs)" for k j e fs
      using acc_taskD [OF assms(1) that] fwd by metis
    moreover have "\<forall>k. timers t k \<noteq> None \<longrightarrow> k < next_timer t"
      using assms(1) unfolding acc_inv_def timer_ok_def by blast
    ultimately show ?thesis unfolding timer_ok_def get_pending_def by (simp del: fun_upd_apply)
  qed
  ultimately show ?thesis by (simp add: acc_inv_def)
qed

lemma acc_settle [acc_rules]: "acc_inv L t \<Longrightarrow> acc_inv L (settle i e t)"
  by (auto simp: settle_def upd_request_def intro: acc_settled split: option.splits)

text \<open>Controllers change in place.\<close>

lemma acc_upd_ctrl [acc_rules]: "acc_inv L t \<Longrightarrow> acc_inv L (upd_ctrl i f t)"
  unfolding acc_inv_def
  by (auto simp: upd_ctrl_def cap_ok_def obj_ok_def req_ok_def timer_ok_def slots_used_def
      get_pending_def obj_def)

section \<open>Composites\<close>

text \<open>The loop of \<open>detach\<close> over a snapshot of the streams.\<close>

lemma detach_stream_other:
  "j \<noteq> fst ie \<Longrightarrow> get_stream (detach_stream sid ws t ie) sid j = get_stream t sid j"
  by (simp add: detach_stream_def delete_stream_def release_slot_def get_stream_def)

lemma acc_detach_stream:
  assumes "acc_inv L t" "get_stream t sid (fst ie) = Some (snd ie)"
  shows "acc_inv L (detach_stream sid ws t ie)"
  unfolding detach_stream_def using assms acc_drop_stream [OF assms] by simp

lemma acc_detach_streams:
  assumes "acc_inv L t" "distinct (map fst ies)"
    and "\<And>i e. (i, e) \<in> set ies \<Longrightarrow> get_stream t sid i = Some e"
  shows "acc_inv L (foldl (detach_stream sid ws) t ies)"
  using assms
proof (induction ies arbitrary: t)
  case (Cons ie ies)
  have "acc_inv L (detach_stream sid ws t ie)"
    by (rule acc_detach_stream [OF Cons.prems(1)]) (rule Cons.prems(3), simp)
  moreover have "get_stream (detach_stream sid ws t ie) sid i = Some e" if "(i, e) \<in> set ies" for i e
  proof -
    have "i \<noteq> fst ie" using that Cons.prems(2) by (auto simp: image_iff)
    then show ?thesis using Cons.prems(3) [of i e] that by (simp add: detach_stream_other)
  qed
  ultimately show ?case using Cons.IH [of "detach_stream sid ws t ie"] Cons.prems(2) by simp
qed simp

lemma snapshot_streams:
  "map_wf (sessionStreams t sid) \<Longrightarrow> (i, e) \<in> set (sessionStreams t sid) \<Longrightarrow> get_stream t sid i = Some e"
  by (simp add: map_wf_def get_stream_def)

lemma acc_detach_all:
  assumes "acc_inv L t"
  shows "acc_inv L (foldl (detach_stream sid ws) t (sessionStreams t sid))"
proof (rule acc_detach_streams [OF assms])
  note wf = acc_wfD(2) [OF assms, of sid]
  then show "distinct (map fst (sessionStreams t sid))" by (simp add: map_wf_def)
  show "\<And>i e. (i, e) \<in> set (sessionStreams t sid) \<Longrightarrow> get_stream t sid i = Some e"
    by (rule snapshot_streams [OF wf])
qed

lemma acc_arm_grace [acc_rules]: "acc_inv L t \<Longrightarrow> acc_inv L (arm_grace sid t)"
  by (simp add: arm_grace_def Let_def acc_setTimeout)

lemma acc_detach [acc_rules]:
  assumes "acc_inv L t"
  shows "acc_inv L (detach sid ws t)"
proof -
  have "acc_inv L (upd_obj sid (\<lambda>s. s\<lparr>clients := clients_delete ws (clients s)\<rparr>) t)"
    by (rule acc_upd_obj [OF assms]) (simp add: obj_rel_def)
  then show ?thesis
    unfolding detach_def Let_def
    by (auto intro!: acc_arm_grace acc_touch acc_detach_all split: option.splits)
qed

lemma acc_detachOnce [acc_rules]: "acc_inv L t \<Longrightarrow> acc_inv L (detachOnce sid c t)"
  by (simp add: detachOnce_def acc_detach)

text \<open>\<open>release\<close> of a streaming request pays its debt, or does nothing.\<close>

lemma acc_stream_release_owed:
  assumes "acc_inv (Some i) t" "requests t i = Some r" "rq_streaming r"
  shows "acc_inv None (stream_release i t)"
proof -
  have "\<not> rq_released r" using acc_owedD [OF assms(1)] assms(2,3) by simp
  moreover have "acc_inv None (release_slot (rq_session r) (upd_request i (\<lambda>r. r\<lparr>rq_released := True\<rparr>) t))"
    using acc_pay [OF assms(1,2) untimed_streaming [OF assms] refl, of True] assms(2)
    by (simp add: release_slot_def upd_request_def)
  ultimately show ?thesis
    using assms(2) by (simp add: stream_release_def Let_def acc_detachOnce split: option.splits)
qed

lemma stream_release_done:
  "acc_inv None t \<Longrightarrow> requests t i = Some r \<Longrightarrow> rq_streaming r \<Longrightarrow> get_pending t i = None \<Longrightarrow>
     stream_release i t = t"
  using acc_releasedD [of None t i r] by (simp add: stream_release_def)

lemma requests_simps [simp]:
  "requests (delete_pending i t) = requests t"
  "requests (clear_request_timer i t) = requests t"
  "requests (upd_ctrl i f t) = requests t"
  "requests (set_pending i p t) = requests t"
  "requests (emit e t) = requests t"
  "requests (clearTimeout k t) = requests t"
  by (simp_all add: delete_pending_def clear_request_timer_def upd_ctrl_def set_pending_def emit_def
      clearTimeout_def split: option.splits)

lemma get_pending_simps [simp]:
  "get_pending (delete_pending i t) j = (if j = i then None else get_pending t j)"
  "get_pending (set_pending i p t) j = (if j = i then Some p else get_pending t j)"
  "get_pending (clear_request_timer i t) j = get_pending t j"
  "get_pending (upd_ctrl i f t) j = get_pending t j"
  "get_pending (settle i e t) j = get_pending t j"
  "get_pending (emit e t) j = get_pending t j"
  "get_pending (set_nextBinary sid i t) j = get_pending t j"
  "get_pending (clear_nextBinary sid t) j = get_pending t j"
  by (simp_all add: delete_pending_def set_pending_def get_pending_def clear_request_timer_def
      upd_ctrl_def settle_def upd_request_def emit_def set_nextBinary_def clear_nextBinary_def
      clearTimeout_def split: option.splits)

lemma acc_pending_reject [acc_rules]:
  assumes "acc_inv None t" "get_pending t i = Some p"
  shows "acc_inv None (pending_reject i p err (delete_pending i t))"
proof -
  obtain r where r: "requests t i = Some r" "rq_streaming r = streaming p"
    using acc_pendD [OF assms] by blast
  let ?t = "clear_request_timer i (delete_pending i t)"
  have a: "acc_inv (Some i) ?t"
    by (rule acc_clear_request_timer [OF acc_delete_pending [OF assms]])
  show ?thesis
  proof (cases "streaming p")
    case True
    have "acc_inv None (stream_release i ?t)"
      by (rule acc_stream_release_owed [OF a]) (use r True in simp_all)
    then show ?thesis using True by (simp add: pending_reject_def acc_settle acc_upd_ctrl)
  next
    case False
    have "acc_inv None (release_request_slot i ?t)"
      by (rule acc_release_request [OF a])
         (use r False untimed_clear [OF acc_delete_pending [OF assms]] in simp_all)
    then show ?thesis using False by (simp add: pending_reject_def acc_settle)
  qed
qed

lemma acc_pending_resolve [acc_rules]:
  assumes "acc_inv None t" "get_pending t i = Some p" "\<not> streaming p"
  shows "acc_inv None (pending_resolve i p status hs body (delete_pending i t))"
proof -
  obtain r where r: "requests t i = Some r" "rq_streaming r = streaming p"
    using acc_pendD [OF assms(1,2)] by blast
  have "acc_inv None (release_request_slot i (clear_request_timer i (delete_pending i t)))"
    by (rule acc_release_request [OF acc_clear_request_timer [OF acc_delete_pending [OF assms(1,2)]]])
       (use r assms(3) untimed_clear [OF acc_delete_pending [OF assms(1,2)]] in simp_all)
  then show ?thesis using assms(3) by (simp add: pending_resolve_def acc_settle)
qed

text \<open>Deleting a streaming entry, touching its controller, and releasing.\<close>

lemma acc_stream_finish [acc_rules]:
  assumes "acc_inv None t" "get_pending t i = Some p" "streaming p"
  shows "acc_inv None (stream_release i (upd_ctrl i f (delete_pending i t)))"
proof -
  obtain r where r: "requests t i = Some r" "rq_streaming r = streaming p"
    using acc_pendD [OF assms(1,2)] by blast
  show ?thesis
    by (rule acc_stream_release_owed [OF acc_upd_ctrl [OF acc_delete_pending [OF assms(1,2)]]])
       (use r assms(3) in simp_all)
qed

lemma acc_best_effort_close [simp]: "acc_inv L (best_effort_close sid i reason t) = acc_inv L t"
  by (simp add: best_effort_close_def split: option.splits)

section \<open>Agent handlers\<close>

lemma acc_handleReady [acc_rules]: "acc_inv L t \<Longrightarrow> acc_inv L (handleReady sid t)"
proof -
  assume a: "acc_inv L t"
  let ?t1 = "upd_obj sid (\<lambda>s. s\<lparr>agentReady := True, state := Active\<rparr>) t"
  have a1: "acc_inv L ?t1" by (rule acc_upd_obj [OF a]) (simp add: obj_rel_def)
  have "acc_inv L (?t1\<lparr>timers := (\<lambda>i. case timers ?t1 i of
      Some (ReadyTimer s c, d) \<Rightarrow> if c = call then None else timers ?t1 i | x \<Rightarrow> x)\<rparr>)" for call
    by (rule acc_drop_timers [OF a1]) (auto split: option.splits prod.splits timer.splits)
  then show ?thesis
    unfolding handleReady_def Let_def by (auto intro!: acc_resetHeartbeat a1 split: option.splits)
qed

lemma acc_pending_http_response [acc_rules]:
  assumes "acc_inv None t" "get_pending t i = Some p"
  shows "acc_inv None (pending_http_response sid i p status hs follows t)"
proof -
  let ?p = "p\<lparr>responseMeta := Some (status, hs)\<rparr>"
  have meta: "acc_inv None (pending_onMeta i status hs (set_pending i ?p t))"
    unfolding pending_onMeta_def
    by (intro acc_settle acc_clear_request_timer acc_set_pending [OF assms]) simp_all
  have gp: "get_pending (pending_onMeta i status hs (set_pending i ?p t)) i = Some ?p"
    by (simp add: pending_onMeta_def)
  have fin: "acc_inv None (stream_release i (upd_ctrl i ctrl_close
      (delete_pending i (pending_onMeta i status hs (set_pending i ?p t)))))" if "streaming p"
    by (rule acc_stream_finish [OF meta gp]) (simp add: that)
  show ?thesis
    unfolding pending_http_response_def Let_def
    using acc_set_pending [OF meta gp, of "p\<lparr>responseMeta := Some (status, hs), expectingBinary := True\<rparr>"]
      acc_set_pending [OF assms, of "p\<lparr>responseMeta := Some (status, hs), expectingBinary := True\<rparr>"]
      acc_pending_resolve [OF assms] fin
    by simp
qed

lemma get_stream_send [simp]:
  "get_stream (fst (sendToWSSerialized sid' ws d t)) sid i = get_stream t sid i"
  by (simp add: sendToWSSerialized_def get_stream_def split: option.splits client.splits)

text \<open>The two ways a handler drops the stream of a client after forwarding a message.\<close>

lemma acc_send_drop:
  assumes "acc_inv L t" "get_stream t sid i = Some e" "sendToWSSerialized sid' ws d t = (t1, b)"
  shows "acc_inv L (delete_stream sid i (if entry_type e = HttpStream then release_slot sid t1 else t1))"
    and "acc_inv L t1"
proof -
  have t1: "t1 = fst (sendToWSSerialized sid' ws d t)" using assms(3) by simp
  show "acc_inv L t1" using assms(1) t1 by simp
  then show "acc_inv L (delete_stream sid i (if entry_type e = HttpStream then release_slot sid t1 else t1))"
    by (rule acc_drop_stream) (use assms(2) t1 in simp)
qed

lemma acc_forward_to_stream [acc_rules]: "acc_inv L t \<Longrightarrow> acc_inv L (fst (forward_to_stream sid i msg t))"
  unfolding forward_to_stream_def
  by (auto dest: acc_send_drop split: option.splits prod.splits tunnel_message.splits bool.splits)

lemma acc_forwardToClient [acc_rules]:
  assumes "acc_inv None t"
  shows "acc_inv None (fst (forwardToClient sid msg t))"
proof (cases "truthy (stream_id msg)")
  case True
  have ws: "acc_inv None (case msg of WSDataMsg _ True \<Rightarrow> set_nextBinary sid i t | _ \<Rightarrow> t)" for i
    using assms by (auto split: tunnel_message.splits bool.splits)
  show ?thesis
    unfolding forwardToClient_def Let_def using True assms ws
    by (auto intro: acc_forward_to_stream acc_pending_http_response split: option.splits tunnel_message.splits)
qed (simp add: forwardToClient_def assms)

lemma acc_handleStreamClose [acc_rules]:
  "acc_inv None t \<Longrightarrow> acc_inv None (fst (handleStreamClose sid mid reason t))"
  unfolding handleStreamClose_def Let_def
  by (auto intro: acc_pending_reject dest: acc_send_drop split: option.splits prod.splits)

lemma acc_handleBodyChunk [acc_rules]:
  "acc_inv None t \<Longrightarrow> acc_inv None (fst (handleBodyChunk sid mid t))"
  unfolding handleBodyChunk_def Let_def
  by (auto intro!: acc_set_pending acc_set_stream_le split: option.splits)

lemma acc_handleBodyEnd [acc_rules]:
  "acc_inv None t \<Longrightarrow> acc_inv None (fst (handleBodyEnd sid mid t))"
  unfolding handleBodyEnd_def Let_def
  by (auto intro: acc_pending_resolve acc_stream_finish dest: acc_send_drop split: option.splits prod.splits)

lemma acc_dispatch [acc_rules]: "acc_inv None t \<Longrightarrow> acc_inv None (fst (dispatch_message sid msg t))"
  by (cases msg) (simp_all add: acc_handleReady acc_handleStreamClose acc_handleBodyChunk acc_handleBodyEnd
      acc_forwardToClient handleHeartbeat_def acc_resetHeartbeat)

lemma acc_handleAgentMessage [acc_rules]: "acc_inv None t \<Longrightarrow> acc_inv None (fst (handleAgentMessage sid msg t))"
  by (simp add: handleAgentMessage_def acc_dispatch acc_touch)

lemma acc_foldl [acc_rules]:
  "(\<And>t x. acc_inv L t \<Longrightarrow> acc_inv L (f t x)) \<Longrightarrow> acc_inv L t \<Longrightarrow> acc_inv L (foldl f t xs)"
  by (induction xs arbitrary: t) auto

lemma acc_broadcast [acc_rules]: "acc_inv L t \<Longrightarrow> acc_inv L (broadcast_serialized sid d t)"
  by (auto simp: broadcast_serialized_def intro!: acc_foldl split: option.splits)

lemma acc_binary_to_client [acc_rules]: "acc_inv L t \<Longrightarrow> acc_inv L (fst (binary_to_client sid target d t))"
  by (auto simp: binary_to_client_def intro: acc_broadcast split: option.splits)

lemma acc_stream_chunk [acc_rules]:
  assumes "acc_inv None t" "get_pending t i = Some p" "streaming p"
  shows "acc_inv None (stream_chunk sid i p d t)"
proof -
  have a: "acc_inv None (upd_ctrl i (ctrl_enqueue d) (set_pending i (p\<lparr>expectingBinary := False\<rparr>) t))"
    by (intro acc_upd_ctrl acc_set_pending [OF assms(1,2)]) simp_all
  show ?thesis
    unfolding stream_chunk_def Let_def terminateStreamingPending_def
    using acc_stream_finish [OF a] assms(3) a by (auto intro: acc_touch split: option.splits)
qed

lemma acc_handleAgentBinary [acc_rules]:
  assumes "acc_inv None t"
  shows "acc_inv None (fst (handleAgentBinary sid d t))"
proof -
  have a: "acc_inv None (clear_nextBinary sid t)" using assms by simp
  show ?thesis
    unfolding handleAgentBinary_def Let_def
    by (auto intro!: acc_stream_chunk [OF a] acc_set_pending [OF a] acc_binary_to_client [OF a]
        split: option.splits)
qed

lemma acc_agent_feed [acc_rules]:
  "acc_inv None t \<Longrightarrow> acc_inv None (fst (snd (agent_feed json sid pending t)))"
proof (induction json sid pending t rule: agent_feed.induct)
  case (1 json sid pending t)
  show ?case
  proof (cases "protocol_step json pending")
    case (Emit es k)
    note IH = "1.IH" [OF Emit refl]
    have bin: "acc_inv None t1" if "handleAgentBinary sid d t = (t1, b)" for d t1 b
      using acc_handleAgentBinary [OF "1.prems", of sid d] that by simp
    show ?thesis
      using IH "1.prems" bin acc_handleAgentMessage [OF "1.prems"]
      by (subst agent_feed.simps)
         (auto simp: Emit Let_def split: list.splits parser_event.splits prod.splits)
  qed (simp_all add: agent_feed.simps [of json sid pending] "1.prems")
qed

lemma acc_exec_feed [acc_rules]:
  "acc_inv None t \<Longrightarrow> acc_inv None (fst (snd (snd (exec_feed json sid dp pp t))))"
proof (induction json sid dp pp t rule: exec_feed.induct)
  case (1 json sid dp pp t)
  show ?case
  proof (cases "demux_step dp")
    case (Emit es k)
    note IH = "1.IH" [OF Emit]
    have fed: "acc_inv None t1" if "agent_feed json sid q t = (q', t1, b)" for q q' t1 b
      using acc_agent_feed [OF "1.prems", of json sid q] that by simp
    show ?thesis
      using IH "1.prems" fed
      by (subst exec_feed.simps)
         (auto simp: Emit split: list.splits demux_event.splits prod.splits)
  qed (simp_all add: exec_feed.simps [of json sid dp] "1.prems")
qed

section \<open>Requests\<close>

lemma acc_client_send [acc_rules]: "acc_inv L t \<Longrightarrow> acc_inv L (client_send sid onfail fs t)"
  by (auto simp: client_send_def intro!: acc_touch acc_await split: list.splits option.splits)

lemma acc_streaming_send [acc_rules]: "acc_inv L t \<Longrightarrow> acc_inv L (streaming_send i e fs t)"
  by (auto simp: streaming_send_def intro!: acc_await split: list.splits)

lemma acc_direct_send:
  "acc_inv L t \<Longrightarrow> requests t i = Some r \<Longrightarrow> \<not> rq_streaming r \<Longrightarrow> acc_inv L (direct_send i e fs t)"
  by (auto simp: direct_send_def intro!: acc_await_direct split: list.splits)

lemma guard_ready: "proxy_guard op s = None \<Longrightarrow> agentReady s"
  by (simp add: proxy_guard_def split: if_splits)

lemma acc_proxyHTTPRequest [acc_rules]:
  assumes "acc_inv None t"
  shows "acc_inv None (fst (proxyHTTPRequest sid i req body t))"
proof (cases "obj t sid")
  case (Some s)
  obtain ok l where acq: "limiter_acquire (limiters t) sid = (ok, l)" by (cases "limiter_acquire (limiters t) sid")
  have "acc_inv None (set_stream sid i e (t\<lparr>limiters := l\<rparr>))" if "proxy_guard op s = None" ok for op e
    by (rule acc_set_stream_acquired [OF assms])
       (use acq that Some acc_objD(1) [OF assms Some guard_ready [OF that(1)]] in auto)
  then show ?thesis
    using assms Some acq by (auto simp: proxyHTTPRequest_def intro!: acc_client_send split: option.splits)
qed (simp add: proxyHTTPRequest_def assms)

lemma acc_proxyWSUpgrade [acc_rules]:
  "acc_inv None t \<Longrightarrow> acc_inv None (fst (proxyWSUpgrade sid i msg ws onfail t))"
  by (auto simp: proxyWSUpgrade_def intro!: acc_client_send acc_set_stream_le split: option.splits)

lemma acc_forwardWSData [acc_rules]: "acc_inv None t \<Longrightarrow> acc_inv None (fst (forwardWSData sid i d t))"
  by (auto simp: forwardWSData_def intro!: acc_client_send split: option.splits)

text \<open>Registering a request under a fresh id, with its timer, entry and slot.\<close>

lemma acc_new_request:
  assumes "acc_inv None t" "requests t u = None" "limiter_acquire (limiters t) sid = (True, l)"
    and "obj t sid = Some s" "state s \<noteq> Created"
    and "r = \<lparr>rq_session = sid, rq_streaming = b, rq_timer = next_timer t, rq_released = False,
               rq_settled = False, rq_onClose = oc\<rparr>"
    and "cs = (if b then (controllers t)(u \<mapsto> ctrl_new) else controllers t)"
  shows "acc_inv None (set_pending u (new_pending sid b)
     (t\<lparr>limiters := l, controllers := cs,
        timers := (timers t)(next_timer t \<mapsto> (if b then HeadersTimer u else DirectTimer u, d)),
        next_timer := Suc (next_timer t), requests := (requests t)(u \<mapsto> r)\<rparr>))"
    (is "acc_inv None ?t")
proof -
  have fresh: "get_pending t u = None" using acc_pendD [OF assms(1), of u] assms(2) by fastforce
  then have mfresh: "map_of (pendingHTTPResponses t) u = None" by (simp add: get_pending_def)
  obtain e0 where e0: "limiters t sid = Some e0" "inFlight e0 < max_slots e0"
    "l = (limiters t)(sid \<mapsto> e0\<lparr>inFlight := inFlight e0 + 1\<rparr>)"
    using assms(3) by (auto simp: limiter_acquire_def split: option.splits if_splits)
  have g: "get_pending ?t j = (if j = u then Some (new_pending sid b) else get_pending t j)" for j
    by (simp add: get_pending_def set_pending_def)
  have c: "slots_used ?t j = slots_used t j + (if j = sid then 1 else 0)" for j
    using count_map_set_absent [OF mfresh, of "\<lambda>_ p. pend_session p = j" "new_pending sid b"]
    by (simp add: slots_used_def set_pending_def new_pending_def)
  have f: "limiters ?t = l" "requests ?t = (requests t)(u \<mapsto> r)" "obj ?t = obj t" "tasks ?t = tasks t"
    "controllers ?t = cs" "sessionStreams ?t = sessionStreams t" "next_timer ?t = Suc (next_timer t)"
    "timers ?t = (timers t)(next_timer t \<mapsto> (if b then HeadersTimer u else DirectTimer u, d))"
    by (simp_all add: set_pending_def obj_def fun_eq_iff)
  have w: "map_wf (pendingHTTPResponses ?t)" using acc_wfD(1) [OF assms(1)] by (simp add: set_pending_def)
  have "cap_ok None ?t"
    unfolding cap_ok_def f c
  proof (intro allI impI)
    fix j e
    assume e: "l j = Some e"
    show "slots_used t j + (if j = sid then 1 else 0) + owes None ((requests t)(u \<mapsto> r)) j \<le> inFlight e
        \<and> inFlight e \<le> max_slots e"
      using e e0 acc_capD [OF assms(1), of j] by (cases "j = sid") fastforce+
  qed
  moreover have "obj_ok ?t"
  proof -
    have "slots_used t j + (if j = sid then 1 else 0) = 0"
      if "case obj t j of None \<Rightarrow> True | Some s \<Rightarrow> state s = Created" for j
      using that assms(1,4,5) unfolding acc_inv_def obj_ok_def by auto
    moreover have "\<exists>s. obj t (rq_session q) = Some s \<and> state s \<noteq> Created"
      if "((requests t)(u \<mapsto> r)) j = Some q" for j q
      using that acc_objD(4) [OF assms(1), of j q] assms(4-6) by (auto split: if_splits)
    ultimately show ?thesis
      using assms(1) unfolding acc_inv_def obj_ok_def f c by (simp del: fun_upd_apply)
  qed
  moreover have "req_ok None ?t"
  proof -
    have "\<exists>q. ((requests t)(u \<mapsto> r)) j = Some q \<and> rq_session q = pend_session p \<and> rq_streaming q = streaming p"
      if "get_pending ?t j = Some p" for j p
      using that acc_pendD [OF assms(1), of j p] assms(6) unfolding g
      by (auto simp: new_pending_def split: if_splits)
    moreover have "rq_released q \<longleftrightarrow> get_pending ?t j = None"
      if "((requests t)(u \<mapsto> r)) j = Some q" "rq_streaming q" for j q
      using that acc_releasedD [OF assms(1), of j q] assms(6) unfolding g by (auto split: if_splits)
    moreover have "\<exists>q. ((requests t)(u \<mapsto> r)) j = Some q \<and> rq_streaming q" if "cs j \<noteq> None" for j
      using that acc_ctrlD [OF assms(1), of j] assms(2,6,7) by (auto split: if_splits)
    ultimately show ?thesis
      using w acc_wfD(2) [OF assms(1)] unfolding req_ok_def f by (simp del: fun_upd_apply get_pending_simps)
  qed
  moreover have "timer_ok None ?t"
  proof -
    have "(\<exists>q. ((requests t)(u \<mapsto> r)) j = Some q \<and> \<not> rq_streaming q \<and> rq_timer q = k) \<and> get_pending ?t j \<noteq> None"
      if "timers ?t k = Some (DirectTimer j, dd)" for k j dd
      using that acc_directD [OF assms(1), of k j dd] assms(2,6) unfolding g f by (auto split: if_splits)
    moreover have "\<exists>q. ((requests t)(u \<mapsto> r)) j = Some q \<and> rq_streaming q"
      if "timers ?t k = Some (HeadersTimer j, dd)" for k j dd
      using that acc_headersD [OF assms(1), of k j dd] assms(2,6) unfolding f by (auto split: if_splits)
    moreover have "\<exists>q. ((requests t)(u \<mapsto> r)) j = Some q \<and> \<not> rq_streaming q"
      if "tasks t k = Some (DirectSend j e fs)" for k j e fs
      using acc_taskD [OF assms(1) that] assms(2) by auto
    moreover have "\<forall>k. timers ?t k \<noteq> None \<longrightarrow> k < Suc (next_timer t)"
      using assms(1) unfolding acc_inv_def timer_ok_def f by (auto simp: less_Suc_eq)
    ultimately show ?thesis unfolding timer_ok_def f by (simp del: fun_upd_apply get_pending_simps)
  qed
  ultimately show ?thesis by (simp add: acc_inv_def)
qed

lemma acc_proxyHTTPDirect [acc_rules]:
  assumes "acc_inv None t" "requests t u = None"
  shows "acc_inv None (fst (proxyHTTPDirect sid u meth path hs body t))"
proof (cases "obj t sid")
  case (Some s)
  obtain ok l where acq: "limiter_acquire (limiters t) sid = (ok, l)" by (cases "limiter_acquire (limiters t) sid")
  let ?r = "\<lparr>rq_session = sid, rq_streaming = False, rq_timer = next_timer t, rq_released = False,
               rq_settled = False, rq_onClose = None\<rparr>"
  let ?t3 = "set_pending u (new_pending sid False)
     (t\<lparr>limiters := l, controllers := controllers t,
        timers := (timers t)(next_timer t \<mapsto> (DirectTimer u, clock t + 30000)),
        next_timer := Suc (next_timer t), requests := (requests t)(u \<mapsto> ?r)\<rparr>)"
  have a: "acc_inv None ?t3" if "proxy_guard op s = None" ok for op
    using acc_new_request [OF assms, where b = False and l = l and sid = sid and s = s and d = "clock t + 30000"]
      acq that Some acc_objD(1) [OF assms(1) Some guard_ready [OF that(1)]] by simp
  have b: "acc_inv None (direct_send u e fs ?t3)" if "proxy_guard op s = None" ok for op e fs
    by (rule acc_direct_send [OF a [OF that], of u ?r]) simp_all
  show ?thesis
    using assms(1) Some acq b
    by (auto simp: proxyHTTPDirect_def setTimeout_def Let_def intro!: acc_touch split: option.splits)
qed (simp add: proxyHTTPDirect_def assms)

lemma acc_proxyHTTPStreaming [acc_rules]:
  assumes "acc_inv None t" "requests t u = None"
  shows "acc_inv None (fst (proxyHTTPStreaming sid u meth path hs body oc t))"
proof (cases "obj t sid")
  case (Some s)
  obtain ok l where acq: "limiter_acquire (limiters t) sid = (ok, l)" by (cases "limiter_acquire (limiters t) sid")
  have a: "acc_inv None (set_pending u (new_pending sid True)
     (t\<lparr>limiters := l, controllers := (controllers t)(u \<mapsto> ctrl_new),
        timers := (timers t)(next_timer t \<mapsto> (HeadersTimer u, clock t + 30000)),
        next_timer := Suc (next_timer t), requests := (requests t)(u \<mapsto>
          \<lparr>rq_session = sid, rq_streaming = True, rq_timer = next_timer t, rq_released = False,
               rq_settled = False, rq_onClose = oc\<rparr>)\<rparr>))" if "proxy_guard op s = None" ok for op
    using acc_new_request [OF assms, where b = True and l = l and sid = sid and s = s and d = "clock t + 30000"]
      acq that Some acc_objD(1) [OF assms(1) Some guard_ready [OF that(1)]] by simp
  show ?thesis
    using assms(1) Some acq a
    by (auto simp: proxyHTTPStreaming_def setTimeout_def Let_def intro!: acc_touch acc_streaming_send acc_detachOnce
        split: option.splits)
qed (simp add: proxyHTTPStreaming_def assms)

lemma acc_headers_timeout [acc_rules]:
  assumes "acc_inv None t" "requests t i = Some r" "rq_streaming r"
  shows "acc_inv None (headers_timeout i t)"
proof (cases "get_pending t i")
  case None
  then show ?thesis
    using assms stream_release_done [OF assms None]
    by (simp add: headers_timeout_def delete_pending_absent acc_settle acc_upd_ctrl)
next
  case (Some p)
  have "acc_inv None (stream_release i (delete_pending i t))"
    by (rule acc_stream_release_owed [OF acc_delete_pending [OF assms(1) Some]]) (use assms in simp_all)
  then show ?thesis by (simp add: headers_timeout_def acc_settle acc_upd_ctrl)
qed

lemma acc_direct_timeout:
  assumes "acc_inv None t" "requests t i = Some r" "\<not> rq_streaming r" "get_pending t i = Some p" "untimed i t"
  shows "acc_inv None (direct_timeout i t)"
proof -
  have "untimed i (delete_pending i t)" using assms(5) by (simp add: untimed_def delete_pending_def)
  then have "acc_inv None (release_request_slot i (delete_pending i t))"
    by (intro acc_release_request [OF acc_delete_pending [OF assms(1,4)]]) (use assms in simp_all)
  then show ?thesis by (simp add: direct_timeout_def acc_settle)
qed

lemma acc_stream_cancel [acc_rules]:
  assumes "acc_inv None t"
  shows "acc_inv None (stream_cancel i t)"
proof (cases "controllers t i")
  case (Some c)
  then obtain r where r: "requests t i = Some r" "rq_streaming r" using acc_ctrlD [OF assms, of i] by auto
  let ?t = "upd_ctrl i ctrl_cancel t"
  have a: "acc_inv None ?t" by (rule acc_upd_ctrl [OF assms])
  have "acc_inv None (stream_release i (delete_pending i ?t))"
  proof (cases "get_pending ?t i")
    case None
    then show ?thesis
      using stream_release_done [OF a _ r(2) None] r(1) a by (simp add: delete_pending_absent)
  next
    case (Some p)
    show ?thesis by (rule acc_stream_release_owed [OF acc_delete_pending [OF a Some]]) (use r in simp_all)
  qed
  then show ?thesis using Some r(1) assms by (simp add: stream_cancel_def)
qed (simp add: stream_cancel_def assms)

lemma acc_direct_send_failed:
  assumes "acc_inv None t" "requests t i = Some r" "\<not> rq_streaming r" "get_pending t i = Some p"
  shows "acc_inv None (direct_send_failed i err t)"
proof -
  note a = acc_delete_pending [OF assms(1,4)]
  have "acc_inv None (release_request_slot i (clear_request_timer i (delete_pending i t)))"
    by (rule acc_release_request [OF acc_clear_request_timer [OF a]]) (use assms untimed_clear [OF a] in simp_all)
  then show ?thesis by (simp add: direct_send_failed_def acc_settle)
qed

lemma acc_streaming_send_failed [acc_rules]: "acc_inv None t \<Longrightarrow> acc_inv None (streaming_send_failed i err t)"
  by (auto simp: streaming_send_failed_def intro: acc_pending_reject split: option.splits)

section \<open>Life cycle\<close>

lemma acc_drop_limiter: "acc_inv L t \<Longrightarrow> acc_inv L (t\<lparr>limiters := limiter_unregister (limiters t) sid\<rparr>)"
  by (auto simp: acc_inv_def cap_ok_def obj_ok_def req_ok_def timer_ok_def slots_used_def
      get_pending_def obj_def limiter_unregister_def)

lemma acc_teardown_common [acc_rules]:
  assumes "acc_inv L t"
  shows "acc_inv L (teardown_common sid t)"
proof -
  let ?t1 = "t\<lparr>limiters := limiter_unregister (limiters t) sid\<rparr>"
  let ?t2 = "?t1\<lparr>writeSerializer := serializer_remove (writeSerializer t) sid\<rparr>"
  have "acc_inv L ?t2" using acc_drop_limiter [OF assms] by simp
  from acc_sm_delete [OF this, of sid] show ?thesis by (simp add: teardown_common_def)
qed

lemma acc_close_clients [acc_rules]: "acc_inv L t \<Longrightarrow> acc_inv L (close_clients sid reason t)"
  by (auto simp: close_clients_def intro!: acc_upd_obj acc_foldl split: option.splits)
     (simp add: obj_rel_def)

lemma get_pending_cong: "pendingHTTPResponses t' = pendingHTTPResponses t \<Longrightarrow> get_pending t' i = get_pending t i"
  by (simp add: get_pending_def)

text \<open>Settling one request leaves the other entries in place.\<close>

lemma pending_detach [simp]: "pendingHTTPResponses (detach sid ws t) = pendingHTTPResponses t"
proof -
  have "pendingHTTPResponses (foldl (detach_stream sid ws) u ies) = pendingHTTPResponses u" for u ies
    by (induction ies arbitrary: u) (simp_all add: detach_stream_def delete_stream_def release_slot_def)
  then show ?thesis
    by (simp add: detach_def upd_obj_def arm_grace_def setTimeout_def touch_def Let_def split: option.splits)
qed

lemma pending_release [simp]:
  "pendingHTTPResponses (stream_release i t) = pendingHTTPResponses t"
  "pendingHTTPResponses (release_request_slot i t) = pendingHTTPResponses t"
  by (simp_all add: stream_release_def release_request_slot_def release_slot_def upd_request_def detachOnce_def
      Let_def split: option.splits)

lemma get_pending_release [simp]:
  "get_pending (stream_release i t) j = get_pending t j"
  "get_pending (release_request_slot i t) j = get_pending t j"
  by (simp_all add: get_pending_def)

lemma get_pending_reject [simp]: "get_pending (pending_reject i p err t) j = get_pending t j"
  by (simp add: pending_reject_def)

lemma get_pending_resolve [simp]: "get_pending (pending_resolve i p status hs body t) j = get_pending t j"
  by (simp add: pending_resolve_def)

lemma acc_reject_all:
  assumes "acc_inv None t" "distinct (map fst ips)"
    and "\<And>i p. (i, p) \<in> set ips \<Longrightarrow> get_pending t i = Some p"
  shows "acc_inv None (foldl (reject_if_session sid) t ips)"
  using assms
proof (induction ips arbitrary: t)
  case (Cons ip ips)
  have "acc_inv None (reject_if_session sid t ip)"
    unfolding reject_if_session_def
    using Cons.prems(1) acc_pending_reject [OF Cons.prems(1), of "fst ip" "snd ip"] Cons.prems(3) [of "fst ip" "snd ip"]
    by simp
  moreover have "get_pending (reject_if_session sid t ip) i = Some p" if "(i, p) \<in> set ips" for i p
  proof -
    have "i \<noteq> fst ip" using that Cons.prems(2) by (auto simp: image_iff)
    then show ?thesis using Cons.prems(3) [of i p] that by (simp add: reject_if_session_def)
  qed
  ultimately show ?case using Cons.IH [of "reject_if_session sid t ip"] Cons.prems(2) by simp
qed simp

lemma acc_framed_cleanup [acc_rules]: "acc_inv L t \<Longrightarrow> acc_inv L (framed_cleanup sid t)"
  using acc_clear_streams [of L "(clearHeartbeatTimer sid t)\<lparr>parsers := (parsers (clearHeartbeatTimer sid t))(sid := None)\<rparr>" sid]
  by (simp add: framed_cleanup_def Let_def acc_clearHeartbeat)

lemma acc_teardown_framed_finish [acc_rules]:
  assumes "acc_inv None t"
  shows "acc_inv None (teardown_framed_finish sid t)"
proof -
  have wf: "map_wf (pendingHTTPResponses t)" by (rule acc_wfD(1) [OF assms])
  have "acc_inv None (foldl (reject_if_session sid) t (pendingHTTPResponses t))"
    by (rule acc_reject_all [OF assms]) (use wf in \<open>simp_all add: map_wf_def get_pending_def\<close>)
  then show ?thesis
    by (simp add: teardown_framed_finish_def Let_def acc_teardown_common acc_close_clients acc_framed_cleanup)
qed

lemma obj_rel_execStream [simp]:
  "obj_rel s (s\<lparr>execStream := x\<rparr>)" "obj_rel s (s\<lparr>execId := y\<rparr>)"
  "obj_rel s (s\<lparr>state := Closing\<rparr>)" "obj_rel s (s\<lparr>clients := cs\<rparr>)"
  "obj_rel s (s\<lparr>execStream := x, state := Active\<rparr>)"
  by (simp_all add: obj_rel_def)

lemma acc_teardown_after_streams [acc_rules]:
  assumes "acc_inv None t"
  shows "acc_inv None (teardown_after_streams sid t)"
proof -
  let ?t1 = "t\<lparr>sessionStreams := (sessionStreams t)(sid := [])\<rparr>"
  have t1: "acc_inv None ?t1" by (rule acc_clear_streams [OF assms])
  have ended: "acc_inv None (upd_obj sid f ?t1)" if "\<And>s. obj_rel s (f s)" for f
    by (rule acc_upd_obj [OF t1 that])
  have tail: "acc_inv None (case use_adapter s t2 of
      (t3, Some err) \<Rightarrow> teardown_framed_finish sid t3
    | (t3, None) \<Rightarrow> await (TeardownInspect sid) (emit e t3))" if "acc_inv None t2" for s t2 e
    using that acc_use_adapter
    by (auto intro!: acc_teardown_framed_finish acc_await split: prod.splits option.splits)
  show ?thesis
    unfolding teardown_after_streams_def Let_def
    by (auto intro!: tail acc_teardown_framed_finish ended t1 split: option.splits)
qed

lemma acc_teardown_streams [acc_rules]: "acc_inv None t \<Longrightarrow> acc_inv None (teardown_streams sid visited t)"
  by (auto simp: teardown_streams_def intro!: acc_await acc_teardown_after_streams split: option.splits)

lemma acc_teardown_raw_finish [acc_rules]: "acc_inv L t \<Longrightarrow> acc_inv L (teardown_raw_finish sid t)"
  by (simp add: teardown_raw_finish_def acc_teardown_common acc_close_clients)

lemma acc_teardown [acc_rules]:
  assumes "acc_inv None t"
  shows "acc_inv None (teardown sid t)"
proof -
  let ?t1 = "clear_grace sid (upd_obj sid (\<lambda>s. s\<lparr>state := Closing\<rparr>) t)"
  have t1: "acc_inv None ?t1" by (intro acc_clear_grace acc_upd_obj [OF assms]) simp
  have t2: "acc_inv None (upd_obj sid (\<lambda>s. s\<lparr>execStream := map_option (\<lambda>(e, _). (e, SockDestroyed)) (execStream s)\<rparr>) ?t1)"
    by (rule acc_upd_obj [OF t1]) simp
  show ?thesis
    unfolding teardown_def Let_def
    using t1 t2 by (auto intro!: acc_teardown_streams acc_teardown_raw_finish acc_await
        dest: acc_use_adapter split: option.splits prod.splits)
qed

lemma acc_teardown_inspected [acc_rules]: "acc_inv None t \<Longrightarrow> acc_inv None (teardown_inspected sid outc t)"
  by (auto simp: teardown_inspected_def intro!: acc_teardown_framed_finish acc_await
      split: outcome.splits option.splits)

lemma acc_spawnAgent [acc_rules]: "acc_inv L t \<Longrightarrow> acc_inv L (spawnAgent call sid t)"
  by (auto simp: spawnAgent_def intro!: acc_await dest: acc_use_adapter split: option.splits prod.splits)

lemma acc_createRawExec [acc_rules]: "acc_inv L t \<Longrightarrow> acc_inv L (createRawExec call sid t)"
  by (auto simp: createRawExec_def intro!: acc_await dest: acc_use_adapter split: option.splits prod.splits)

text \<open>Registering the limiter of a session in \<open>Created\<close>, which holds no slot.\<close>

lemma acc_register:
  assumes "acc_inv None t" "slots_used t sid = 0"
  shows "acc_inv None (t\<lparr>limiters := limiter_register (limiters t) sid mx\<rparr>)"
  using assms
  by (auto simp: acc_inv_def cap_ok_def obj_ok_def req_ok_def timer_ok_def slots_used_def
      get_pending_def obj_def limiter_register_def)

lemma acc_created_object:
  assumes "acc_inv None t" "objects (manager t) newId = None"
    and "objects m = (objects (manager t))(newId \<mapsto> s)" "state s = Created" "\<not> agentReady s"
  shows "acc_inv None (t\<lparr>manager := m\<rparr>)"
proof -
  have z: "slots_used t newId = 0" using acc_objD(2) [OF assms(1), of newId] assms(2) by (simp add: obj_def)
  have "obj_ok (t\<lparr>manager := m\<rparr>)"
  proof -
    have "slots_used t j = 0"
      if "case ((objects (manager t))(newId \<mapsto> s)) j of None \<Rightarrow> True | Some s \<Rightarrow> state s = Created" for j
      using that z assms(1) unfolding acc_inv_def obj_ok_def obj_def
      by (cases "j = newId") auto
    moreover have "\<exists>q. ((objects (manager t))(newId \<mapsto> s)) (rq_session r) = Some q \<and> state q \<noteq> Created"
      if "requests t i = Some r" for i r
      using acc_objD(4) [OF assms(1) that] assms(2) by (auto simp: obj_def)
    moreover have "slots_used (t\<lparr>manager := m\<rparr>) = slots_used t" by (simp add: slots_used_def fun_eq_iff)
    ultimately show ?thesis
      using assms(1,5) unfolding acc_inv_def obj_ok_def obj_def by (simp add: assms(3))
  qed
  then show ?thesis
    using assms(1) by (simp add: acc_inv_def cap_ok_def req_ok_def timer_ok_def slots_used_def get_pending_def)
qed

lemma acc_tunnel_create:
  assumes "acc_inv None t" "fresh_id (manager t) newId"
  shows "acc_inv None (tunnel_create call newId draw host cid cmd lbl opts t)"
proof (cases "sm_create (manager t) (clock t) newId draw host cid cmd lbl opts")
  case (Inr mi)
  obtain m i where mi: "mi = (m, i)" by (cases mi)
  have a: "acc_inv None (t\<lparr>manager := m\<rparr>)"
    using sm_create_cases [OF Inr [unfolded mi]]
  proof (elim disjE exE conjE)
    assume "created_existing (manager t) opts m i"
    then show ?thesis using assms(1) by (simp add: created_existing_def)
  next
    fix pid
    assume "created_fresh (manager t) newId (new_session (clock t) newId host cid cmd lbl opts pid) m"
    then show ?thesis
      using assms(2) by (intro acc_created_object [OF assms(1)]) (auto simp: created_fresh_def fresh_id_def)
  qed
  have "acc_inv None (t\<lparr>manager := m, limiters := limiter_register (limiters t) i mx\<rparr>)"
    if "obj (t\<lparr>manager := m\<rparr>) i = Some s" "state s = Created" for s mx
    using acc_register [OF a acc_objD(3) [OF a that]] by simp
  then show ?thesis
    unfolding tunnel_create_def Inr mi Let_def
    using a by (auto intro!: acc_spawnAgent acc_createRawExec split: option.splits)
qed (simp add: tunnel_create_def assms(1))

lemma acc_attach [acc_rules]:
  assumes "acc_inv None t"
  shows "acc_inv None (attach sid ws t)"
proof -
  have "acc_inv None (touch sid (upd_obj sid (\<lambda>s. s\<lparr>clients := clients_add ws (clients s)\<rparr>) (clear_grace sid t)))"
    by (intro acc_touch acc_upd_obj acc_clear_grace assms) simp
  then show ?thesis
    by (auto simp: attach_def Let_def startRawExec_def attach_failed_def intro!: acc_await dest: acc_use_adapter
        split: option.splits prod.splits)
qed

lemma acc_handleExecEnd [acc_rules]:
  assumes "acc_inv None t"
  shows "acc_inv None (handleExecEnd sid t)"
proof -
  have "acc_inv None (close_clients sid ''Process exited'' (upd_obj sid (\<lambda>s. s\<lparr>state := Closing\<rparr>) t))"
    by (intro acc_close_clients acc_upd_obj assms) simp
  from acc_teardown_common [OF this, of sid] show ?thesis
    using assms by (auto simp: handleExecEnd_def teardown_common_def Let_def split: option.splits)
qed

lemma acc_resize [acc_rules]: "acc_inv L t \<Longrightarrow> acc_inv L (fst (resize sid cols rows t))"
  by (auto simp: resize_def dest: acc_use_adapter split: option.splits prod.splits)

lemma acc_writeToExec [acc_rules]: "acc_inv L t \<Longrightarrow> acc_inv L (fst (writeToExec sid d t))"
  by (auto simp: writeToExec_def split: option.splits)

lemma acc_raw_broadcast [acc_rules]: "acc_inv L t \<Longrightarrow> acc_inv L (raw_broadcast sid t d)"
  by (auto simp: raw_broadcast_def intro!: acc_foldl split: option.splits)

lemma acc_exec_data [acc_rules]:
  assumes "acc_inv None t"
  shows "acc_inv None (exec_data json e chunk t)"
proof (cases "conns t e")
  case (Some c)
  have fed: "acc_inv None t1" if "exec_feed json (conn_session c) dp pp t = (dp', pp', t1, b)" for dp pp dp' pp' t1 b
    using acc_exec_feed [OF assms, of json "conn_session c" dp pp] that by simp
  show ?thesis
    using assms Some fed
    by (auto simp: exec_data_def Let_def intro!: acc_raw_broadcast acc_foldl split: option.splits prod.splits)
qed (simp add: exec_data_def assms)

lemma acc_exec_end [acc_rules]: "acc_inv None t \<Longrightarrow> acc_inv None (exec_end e t)"
  by (auto simp: exec_end_def Let_def intro!: acc_teardown acc_clearHeartbeat acc_handleExecEnd
      split: option.splits)

section \<open>The step\<close>

lemma acc_resume:
  assumes "acc_inv None t"
    and "\<And>i e fs. k = DirectSend i e fs \<Longrightarrow> \<exists>r. requests t i = Some r \<and> \<not> rq_streaming r"
    and "\<And>i e fs err. k = DirectSend i e fs \<Longrightarrow> outc = Failed err \<Longrightarrow> get_pending t i \<noteq> None"
  shows "acc_inv None (resume k outc t)"
proof (cases k)
  case (DirectSend i e fs)
  obtain r where r: "requests t i = Some r" "\<not> rq_streaming r" using assms(2) [OF DirectSend] by blast
  show ?thesis
  proof (cases outc)
    case (Failed err)
    then obtain p where "get_pending t i = Some p" using assms(3) [OF DirectSend] by auto
    then show ?thesis using DirectSend Failed acc_direct_send_failed [OF assms(1) r] by simp
  qed (use DirectSend acc_direct_send [OF assms(1) r] in simp_all)
next
  case (SpawnCreated call sid)
  then show ?thesis
    using assms(1) by (cases outc) (auto simp: spawn_created_def intro!: acc_await acc_upd_obj)
next
  case (SpawnStarted call sid)
  then show ?thesis
    using assms(1)
    by (cases outc) (auto simp: spawn_started_def waitForReady_def Let_def intro!: acc_setTimeout acc_upd_obj)
next
  case (RawCreated call sid)
  then show ?thesis using assms(1) by (cases outc) (auto simp: raw_created_def intro!: acc_upd_obj)
next
  case (RawStarted sid c)
  then show ?thesis
    using assms(1) by (cases outc) (auto simp: raw_started_def attach_failed_def intro!: acc_upd_obj)
next
  case (ClientSend sid fs onfail)
  then show ?thesis
    using assms(1)
    by (cases outc) (auto simp: client_send_failed_def intro!: acc_client_send split: option.splits)
next
  case (StreamingSend i e fs)
  then show ?thesis
    using assms(1) by (cases outc) (auto intro!: acc_streaming_send acc_streaming_send_failed)
qed (use assms(1) in \<open>auto intro!: acc_teardown_streams acc_teardown_inspected acc_teardown_framed_finish
    acc_teardown_raw_finish\<close>)

lemma acc_fire:
  assumes "acc_inv None t" "timers t k = Some (tm, due)"
  shows "acc_inv None (fire tm (clearTimeout k t))"
proof -
  have a: "acc_inv None (clearTimeout k t)" by (rule acc_clearTimeout [OF assms(1)])
  show ?thesis
  proof (cases tm)
    case (DirectTimer i)
    then obtain r p where r: "requests t i = Some r" "\<not> rq_streaming r" "rq_timer r = k"
      and p: "get_pending t i = Some p"
      using acc_directD [OF assms(1), of k i due] assms(2) by auto
    have "untimed i (clearTimeout k t)"
      unfolding untimed_def
      using acc_directD [OF assms(1)] r by (fastforce simp: clearTimeout_def split: if_splits)
    then show ?thesis
      using DirectTimer acc_direct_timeout [OF a, of i r p] r p
      by (simp add: get_pending_def clearTimeout_def)
  next
    case (HeadersTimer i)
    then obtain r where "requests t i = Some r" "rq_streaming r"
      using acc_headersD [OF assms(1), of k i due] assms(2) by auto
    then show ?thesis using HeadersTimer acc_headers_timeout [OF a, of i r] by simp
  qed (use a in \<open>auto simp: heartbeat_timeout_def ready_timeout_def grace_timeout_def Let_def
      intro!: acc_teardown split: option.splits\<close>)
qed

lemma acc_step:
  assumes "acc_inv None t" "regular t ev"
  shows "acc_inv None (tunnel_step json t ev)"
proof (cases ev)
  case (EResume k outc)
  show ?thesis
  proof (cases "tasks t k")
    case (Some task)
    have "acc_inv None (resume task outc (t\<lparr>tasks := (tasks t)(k := None)\<rparr>))"
    proof (rule acc_resume [OF acc_drop_task [OF assms(1)]])
      show "\<exists>r. requests (t\<lparr>tasks := (tasks t)(k := None)\<rparr>) i = Some r \<and> \<not> rq_streaming r"
        if "task = DirectSend i e fs" for i e fs
        using acc_taskD [OF assms(1), of k i e fs] Some that by simp
      show "get_pending (t\<lparr>tasks := (tasks t)(k := None)\<rparr>) i \<noteq> None"
        if "task = DirectSend i e fs" "outc = Failed err" for i e fs err
        using assms(2) EResume Some that by (simp add: get_pending_def)
    qed
    then show ?thesis using EResume Some by simp
  qed (use EResume assms(1) in simp)
next
  case (EFire k)
  then show ?thesis using assms(1) acc_fire [OF assms(1), of k] by (auto split: option.splits)
qed (use assms in \<open>auto intro!: acc_rules acc_tunnel_create acc_sweep simp: stream_read_def\<close>)

lemma acc_init: "acc_inv None (tunnel_init (sm_init mx idle) p cap grace)"
  by (simp add: acc_defs tunnel_init_def obj_def sm_init_def get_pending_def)

lemma acc_run: "acc_inv None t \<Longrightarrow> regular_run json t evs \<Longrightarrow> acc_inv None (foldl (tunnel_step json) t evs)"
  by (induction evs arbitrary: t) (simp_all add: acc_step)

text \<open>C1: After every regular run of events (requests of all kinds, agent bytes, timeouts, write
  results, cancellations, detaches, teardowns, sweeps of any number of sessions, interleaved in
  any order), the requests in progress of a session, counted as HTTP streams plus pending direct
  and streaming responses, are covered by its in-flight counter, which stays within the configured
  limit; so no session has more requests in progress than the limit.  A run is regular
  (\<open>regular_run\<close>) when the ids of its sessions and of its direct and streaming requests are fresh,
  a new list of hosts names each host once, and no write of a direct request fails after that
  request was settled.  The last condition is needed: the handler returns the slot of such a
  request a second time, and \<open>late_failure_breaks_cap\<close> is a run that exceeds the limit in this way.\<close>

theorem concurrency_cap_respected:
  assumes "regular_run json (tunnel_init (sm_init mx idle) p cap grace) evs"
    and "t = foldl (tunnel_step json) (tunnel_init (sm_init mx idle) p cap grace) evs"
    and "limiters t sid = Some e"
  shows "slots_used t sid \<le> inFlight e \<and> inFlight e \<le> max_slots e"
proof -
  have "acc_inv None t" unfolding assms(2) by (rule acc_run [OF acc_init assms(1)])
  from acc_capD [OF this assms(3)] show ?thesis by simp
qed

end
