(* ===== verification/Tunnel_Settlement.thy ===== *)
theory Tunnel_Settlement
  imports Tunnel_Accounting
begin

text \<open>
  Every promise of a proxied request is settled at most once, and a direct request is answered
  exactly when its entry leaves the table of pending responses.  The proofs rest on a view of
  the state, \<open>sview\<close>, that almost every operation leaves equal.
\<close>

named_theorems sview_simps "operations that leave the settlement view equal"

fun settles :: "string \<Rightarrow> effect \<Rightarrow> bool" where
  "settles i (Resolve j status hs body) = (i = j)"
| "settles i (ResolveMeta j status hs) = (i = j)"
| "settles i (Reject j err) = (i = j)"
| "settles i _ = False"

definition settle_count :: "tunnel \<Rightarrow> string \<Rightarrow> nat" where
  "settle_count t i = length (filter (settles i) (out t))"

text \<open>For a stream id: settlements so far, settled and streaming flags of the request, and
  whether a (streaming) entry is pending.\<close>

type_synonym settle_view = "nat \<times> (bool \<times> bool) option \<times> bool option"

definition sview :: "tunnel \<Rightarrow> string \<Rightarrow> settle_view" where
  "sview t i = (settle_count t i, map_option (\<lambda>r. (rq_settled r, rq_streaming r)) (requests t i),
     map_option streaming (get_pending t i))"

fun sview_ok :: "settle_view \<Rightarrow> bool" where
  "sview_ok (c, None, pd) = (c = 0 \<and> pd = None)"
| "sview_ok (c, Some (settled, str), pd) = (c = (if settled then 1 else 0) \<and>
     (case pd of Some s \<Rightarrow> s = str \<and> (\<not> str \<longrightarrow> \<not> settled) | None \<Rightarrow> str \<or> settled))"

definition settle_inv :: "tunnel \<Rightarrow> bool" where
  "settle_inv t \<longleftrightarrow> (\<forall>i. sview_ok (sview t i))"

lemma settle_inv_cong: "sview t' = sview t \<Longrightarrow> settle_inv t' = settle_inv t"
  by (simp add: settle_inv_def)

section \<open>Operations that keep the view\<close>

lemma sview_frame [sview_simps, simp]:
  "sview (t\<lparr>manager := x1\<rparr>) = sview t"
  "sview (t\<lparr>pool := x2\<rparr>) = sview t"
  "sview (t\<lparr>limiters := x3\<rparr>) = sview t"
  "sview (t\<lparr>writeSerializer := x4\<rparr>) = sview t"
  "sview (t\<lparr>sessionStreams := x5\<rparr>) = sview t"
  "sview (t\<lparr>controllers := x6\<rparr>) = sview t"
  "sview (t\<lparr>parsers := x7\<rparr>) = sview t"
  "sview (t\<lparr>heartbeatTimers := x8\<rparr>) = sview t"
  "sview (t\<lparr>lastHeartbeats := x9\<rparr>) = sview t"
  "sview (t\<lparr>readyWaiters := x10\<rparr>) = sview t"
  "sview (t\<lparr>graceTimers := x11\<rparr>) = sview t"
  "sview (t\<lparr>nextBinaryStreamId := x12\<rparr>) = sview t"
  "sview (t\<lparr>timers := x13\<rparr>) = sview t"
  "sview (t\<lparr>next_timer := x14\<rparr>) = sview t"
  "sview (t\<lparr>tasks := x15\<rparr>) = sview t"
  "sview (t\<lparr>next_task := x16\<rparr>) = sview t"
  "sview (t\<lparr>conns := x17\<rparr>) = sview t"
  "sview (t\<lparr>detached := x18\<rparr>) = sview t"
  "sview (t\<lparr>clock := x19\<rparr>) = sview t"
  by (simp_all add: sview_def settle_count_def get_pending_def fun_eq_iff)

lemma sview_emit [simp]: "(\<And>i. \<not> settles i e) \<Longrightarrow> sview (emit e t) = sview t"
  by (simp add: sview_def settle_count_def emit_def get_pending_def fun_eq_iff)

lemma sview_prims [simp]:
  "sview (upd_obj sid f t) = sview t"
  "sview (touch sid t) = sview t"
  "sview (setTimeout k ms t) = sview t"
  "sview (clearTimeout j t) = sview t"
  "sview (await task t) = sview t"
  "sview (release_slot sid t) = sview t"
  "sview (set_stream sid i e t) = sview t"
  "sview (delete_stream sid i t) = sview t"
  "sview (upd_ctrl i g t) = sview t"
  "sview (set_nextBinary sid i t) = sview t"
  "sview (clear_nextBinary sid t) = sview t"
  "sview (clearHeartbeatTimer sid t) = sview t"
  "sview (resetHeartbeatTimer sid t) = sview t"
  "sview (clear_grace sid t) = sview t"
  "sview (arm_grace sid t) = sview t"
  "sview (clear_request_timer i t) = sview t"
  "sview (release_request_slot i t) = sview t"
  by (simp_all add: upd_obj_def touch_def setTimeout_def clearTimeout_def await_def release_slot_def
      set_stream_def delete_stream_def upd_ctrl_def set_nextBinary_def clear_nextBinary_def
      clearHeartbeatTimer_def resetHeartbeatTimer_def clear_grace_def arm_grace_def
      clear_request_timer_def release_request_slot_def Let_def split: option.splits)

lemma sview_send [simp]:
  "sview (fst (sendToWSSerialized sid ws d t)) = sview t"
  "sview (sendToWS ws d t) = sview t"
  by (simp_all add: sendToWSSerialized_def sendToWS_def split: option.splits client.splits)

lemma sview_send_eq: "sendToWSSerialized sid ws d t = (t1, b) \<Longrightarrow> sview t1 = sview t"
  using sview_send(1) [of sid ws d t] by simp

lemma sview_foldl: "(\<And>t x. sview (f t x) = sview t) \<Longrightarrow> sview (foldl f t xs) = sview t"
  by (induction xs arbitrary: t) simp_all

lemma sview_detach [simp]: "sview (detach sid ws t) = sview t"
proof -
  have "sview (foldl (detach_stream sid ws) u ies) = sview u" for u ies
    by (rule sview_foldl) (simp add: detach_stream_def)
  then show ?thesis by (simp add: detach_def Let_def split: option.splits)
qed

lemma sview_detachOnce [simp]: "sview (detachOnce sid c t) = sview t"
  by (simp add: detachOnce_def)

lemma sview_stream_release [simp]: "sview (stream_release i t) = sview t"
proof -
  have "sview (upd_request i (\<lambda>r. r\<lparr>rq_released := True\<rparr>) t) = sview t"
    by (auto simp: sview_def settle_count_def get_pending_def upd_request_def fun_eq_iff option.map_comp comp_def)
  then show ?thesis by (simp add: stream_release_def Let_def split: option.splits)
qed

lemma sview_close_clients [simp]: "sview (close_clients sid reason t) = sview t"
  by (simp add: close_clients_def sview_foldl split: option.splits)

lemma sview_best_effort_close [simp]: "sview (best_effort_close sid i reason t) = sview t"
  by (simp add: best_effort_close_def split: option.splits)

lemma sview_use_adapter: "use_adapter s t = (t', x) \<Longrightarrow> sview t' = sview t"
  by (auto simp: use_adapter_def split: prod.splits sum.splits)

lemma sview_broadcast [simp]: "sview (broadcast_serialized sid d t) = sview t"
  by (simp add: broadcast_serialized_def sview_foldl split: option.splits)

lemma sview_raw_broadcast [simp]: "sview (raw_broadcast sid t d) = sview t"
  by (simp add: raw_broadcast_def sview_foldl split: option.splits)

lemma sview_client_send [simp]: "sview (client_send sid onfail fs t) = sview t"
  by (simp add: client_send_def split: list.splits option.splits)

lemma sview_direct_send [simp]:
  "sview (direct_send i e fs t) = sview t" "sview (streaming_send i e fs t) = sview t"
  by (simp_all add: direct_send_def streaming_send_def split: list.splits)

section \<open>Operations that change one entry of the view\<close>

lemma sview_set_pending:
  "sview (set_pending i p t) = (sview t)(i := (settle_count t i,
     map_option (\<lambda>r. (rq_settled r, rq_streaming r)) (requests t i), Some (streaming p)))"
  by (auto simp: sview_def settle_count_def set_pending_def get_pending_def fun_eq_iff)

lemma sview_set_pending_same [simp]:
  "get_pending t i = Some p0 \<Longrightarrow> streaming p = streaming p0 \<Longrightarrow> sview (set_pending i p t) = sview t"
  unfolding sview_set_pending by (auto simp: sview_def fun_eq_iff)

lemma sview_delete_pending:
  "sview (delete_pending i t) = (sview t)(i := (settle_count t i,
     map_option (\<lambda>r. (rq_settled r, rq_streaming r)) (requests t i), None))"
  by (auto simp: sview_def settle_count_def delete_pending_def get_pending_def fun_eq_iff)

lemma sview_settle:
  assumes "\<And>j. settles j e \<longleftrightarrow> j = i"
  shows "sview (settle i e t) = (case requests t i of None \<Rightarrow> sview t | Some r \<Rightarrow>
     if rq_settled r then sview t
     else (sview t)(i := (Suc (settle_count t i), Some (True, rq_streaming r), map_option streaming (get_pending t i))))"
  using assms
  by (auto simp: settle_def sview_def settle_count_def emit_def upd_request_def get_pending_def fun_eq_iff
      split: option.splits)

lemma settle_inv_settle:
  assumes "settle_inv t" "\<And>j. settles j e \<longleftrightarrow> j = i"
    and "requests t i \<noteq> None \<Longrightarrow> get_pending t i = None \<or> (\<exists>p. get_pending t i = Some p \<and> streaming p)"
  shows "settle_inv (settle i e t)"
proof -
  have "sview_ok (sview t i)" using assms(1) by (simp add: settle_inv_def)
  then have "sview_ok (sview (settle i e t) i)"
    using assms(3) unfolding sview_settle [OF assms(2)]
    by (auto simp: sview_def split: option.splits)
  moreover have "j \<noteq> i \<Longrightarrow> sview (settle i e t) j = sview t j" for j
    unfolding sview_settle [OF assms(2)] by (simp split: option.splits)
  ultimately show ?thesis
    using assms(1) unfolding settle_inv_def by (metis)
qed

text \<open>Deleting the entry of a direct request and settling it in one go.\<close>

lemma settle_inv_delete_settle:
  assumes "settle_inv t" "\<And>j. settles j e \<longleftrightarrow> j = i" "sview t1 = sview (delete_pending i t)"
    "requests t1 i = None \<longleftrightarrow> requests t i = None"
  shows "settle_inv (settle i e t1)"
proof -
  have v: "sview t1 j = (if j = i then (settle_count t i,
      map_option (\<lambda>r. (rq_settled r, rq_streaming r)) (requests t i), None) else sview t j)" for j
    unfolding assms(3) sview_delete_pending by simp
  have r: "settle_count t1 i = settle_count t i" "get_pending t1 i = None"
    "map_option (\<lambda>r. (rq_settled r, rq_streaming r)) (requests t1 i) =
     map_option (\<lambda>r. (rq_settled r, rq_streaming r)) (requests t i)"
    using v [of i] by (simp_all add: sview_def)
  have ok: "sview_ok (sview t i)" using assms(1) by (simp add: settle_inv_def)
  have "sview_ok (sview (settle i e t1) i)"
    unfolding sview_settle [OF assms(2)]
    using ok r v [of i] by (cases "requests t i"; cases "requests t1 i") (auto simp: sview_def)
  moreover have "j \<noteq> i \<Longrightarrow> sview (settle i e t1) j = sview t j" for j
    unfolding sview_settle [OF assms(2)] using v [of j] by (simp split: option.splits)
  ultimately show ?thesis
    using assms(1) unfolding settle_inv_def by metis
qed

text \<open>Deleting the entry of a streaming request keeps the invariant by itself.\<close>

lemma settle_inv_delete_streaming:
  assumes "settle_inv t" "get_pending t i = Some p" "streaming p"
  shows "settle_inv (delete_pending i t)"
proof -
  have "sview_ok (sview t i)" using assms(1) by (simp add: settle_inv_def)
  then have "sview_ok (sview (delete_pending i t) i)"
    using assms(2,3) unfolding sview_delete_pending
    by (cases "requests t i") (auto simp: sview_def)
  then show ?thesis
    using assms(1) unfolding settle_inv_def sview_delete_pending by (simp del: sview_ok.simps)
qed

section \<open>Handlers\<close>

lemma settle_inv_reject:
  assumes "settle_inv t" "get_pending t i = Some p"
  shows "settle_inv (pending_reject i p err (delete_pending i t))"
proof (cases "streaming p")
  case True
  let ?t1 = "upd_ctrl i ctrl_error (stream_release i (clear_request_timer i (delete_pending i t)))"
  have "settle_inv ?t1"
    using settle_inv_delete_streaming [OF assms True] settle_inv_cong [of ?t1 "delete_pending i t"] by simp
  then have "settle_inv (settle i (Reject i err) ?t1)" by (rule settle_inv_settle) auto
  then show ?thesis using True by (simp add: pending_reject_def)
next
  case False
  have "settle_inv (settle i (Reject i err) (release_request_slot i (clear_request_timer i (delete_pending i t))))"
    by (rule settle_inv_delete_settle [OF assms(1)])
       (auto simp: release_request_slot_def release_slot_def split: option.splits)
  then show ?thesis using False by (simp add: pending_reject_def)
qed

lemma settle_inv_resolve:
  assumes "settle_inv t" "\<not> streaming p"
  shows "settle_inv (pending_resolve i p status hs body (delete_pending i t))"
proof -
  have "settle_inv (settle i (Resolve i status hs body) (release_request_slot i (clear_request_timer i (delete_pending i t))))"
    by (rule settle_inv_delete_settle [OF assms(1)])
       (auto simp: release_request_slot_def release_slot_def split: option.splits)
  then show ?thesis using assms(2) by (simp add: pending_resolve_def)
qed

lemma settle_inv_stream_finish:
  assumes "settle_inv t" "get_pending t i = Some p" "streaming p"
  shows "settle_inv (stream_release i (upd_ctrl i f (delete_pending i t)))"
  using settle_inv_delete_streaming [OF assms]
    settle_inv_cong [of "stream_release i (upd_ctrl i f (delete_pending i t))" "delete_pending i t"] by simp

lemma sview_handleReady [simp]: "sview (handleReady sid t) = sview t"
  by (simp add: handleReady_def Let_def split: option.splits)

lemma settle_inv_same: "settle_inv t \<Longrightarrow> sview t' = sview t \<Longrightarrow> settle_inv t'"
  by (simp add: settle_inv_def)

lemma settle_inv_http_response:
  assumes "settle_inv t" "get_pending t i = Some p"
  shows "settle_inv (pending_http_response sid i p status hs follows t)"
proof (cases "streaming p")
  case False
  then show ?thesis
    using assms settle_inv_resolve [OF assms(1) False]
    by (auto simp: pending_http_response_def intro: settle_inv_same)
next
  case True
  let ?p = "p\<lparr>responseMeta := Some (status, hs)\<rparr>"
  let ?m = "pending_onMeta i status hs (set_pending i ?p t)"
  have m: "settle_inv ?m"
    unfolding pending_onMeta_def
    by (rule settle_inv_settle [OF settle_inv_same [OF assms(1)]]) (use assms True in auto)
  have gp: "get_pending ?m i = Some ?p" by (simp add: pending_onMeta_def)
  have "settle_inv (stream_release i (upd_ctrl i ctrl_close (delete_pending i ?m)))"
    by (rule settle_inv_stream_finish [OF m gp]) (use True in simp)
  moreover have "settle_inv (set_nextBinary sid i
      (set_pending i (p\<lparr>responseMeta := Some (status, hs), expectingBinary := True\<rparr>) ?m))"
    by (rule settle_inv_same [OF m]) (use gp in simp)
  ultimately show ?thesis using True by (simp add: pending_http_response_def Let_def)
qed

lemma sview_forward_to_stream [simp]: "sview (fst (forward_to_stream sid i msg t)) = sview t"
  by (auto simp: forward_to_stream_def dest: sview_send_eq
      split: option.splits prod.splits tunnel_message.splits bool.splits)

lemma settle_inv_forwardToClient:
  assumes "settle_inv t"
  shows "settle_inv (fst (forwardToClient sid msg t))"
proof (cases "truthy (stream_id msg)")
  case True
  have ws: "sview (case msg of WSDataMsg _ True \<Rightarrow> set_nextBinary sid i t | _ \<Rightarrow> t) = sview t" for i
    by (auto split: tunnel_message.splits bool.splits)
  show ?thesis
    unfolding forwardToClient_def Let_def using True assms ws
    by (auto intro: settle_inv_same settle_inv_http_response split: option.splits tunnel_message.splits)
qed (simp add: forwardToClient_def assms)

lemma settle_inv_handleStreamClose:
  assumes "settle_inv t"
  shows "settle_inv (fst (handleStreamClose sid mid reason t))"
  unfolding handleStreamClose_def Let_def
  using assms by (auto simp: case_prod_unfold intro: settle_inv_reject settle_inv_same [OF assms]
      split: option.splits)

lemma settle_inv_handleBodyChunk:
  assumes "settle_inv t"
  shows "settle_inv (fst (handleBodyChunk sid mid t))"
  unfolding handleBodyChunk_def Let_def
  using assms by (auto intro: settle_inv_same [OF assms] split: option.splits)

lemma settle_inv_handleBodyEnd:
  assumes "settle_inv t"
  shows "settle_inv (fst (handleBodyEnd sid mid t))"
  unfolding handleBodyEnd_def Let_def
  using assms by (auto simp: case_prod_unfold intro: settle_inv_resolve settle_inv_stream_finish
      settle_inv_same [OF assms] split: option.splits)

lemma settle_inv_message:
  assumes "settle_inv t"
  shows "settle_inv (fst (handleAgentMessage sid msg t))"
proof -
  have a: "settle_inv (touch sid t)" by (rule settle_inv_same [OF assms]) simp
  show ?thesis
    unfolding handleAgentMessage_def
    using a by (cases msg) (auto simp: handleHeartbeat_def settle_inv_handleStreamClose
        settle_inv_handleBodyChunk settle_inv_handleBodyEnd settle_inv_forwardToClient
        intro: settle_inv_same [OF a])
qed

lemma sview_binary_to_client [simp]: "sview (fst (binary_to_client sid target d t)) = sview t"
  by (simp add: binary_to_client_def split: option.splits)

lemma settle_inv_stream_chunk:
  assumes "settle_inv t" "get_pending t i = Some p" "streaming p"
  shows "settle_inv (stream_chunk sid i p d t)"
proof -
  let ?t = "upd_ctrl i (ctrl_enqueue d) (set_pending i (p\<lparr>expectingBinary := False\<rparr>) t)"
  have a: "settle_inv ?t" by (rule settle_inv_same [OF assms(1)]) (use assms in simp)
  have "settle_inv (terminateStreamingPending sid i reason ?t)" for reason
    unfolding terminateStreamingPending_def
    by (rule settle_inv_same [OF settle_inv_stream_finish [OF a, of i "p\<lparr>expectingBinary := False\<rparr>" ctrl_error]])
      (use assms in auto)
  then show ?thesis
    unfolding stream_chunk_def Let_def using a by (auto intro: settle_inv_same split: option.splits)
qed

lemma settle_inv_binary:
  assumes "settle_inv t"
  shows "settle_inv (fst (handleAgentBinary sid d t))"
proof -
  have a: "settle_inv (clear_nextBinary sid t)" by (rule settle_inv_same [OF assms]) simp
  show ?thesis
    unfolding handleAgentBinary_def Let_def
    by (auto intro: settle_inv_stream_chunk [OF a] settle_inv_same [OF assms] split: option.splits)
qed

lemma settle_inv_agent_feed:
  "settle_inv t \<Longrightarrow> settle_inv (fst (snd (agent_feed json sid pending t)))"
proof (induction json sid pending t rule: agent_feed.induct)
  case (1 json sid pending t)
  show ?case
  proof (cases "protocol_step json pending")
    case (Emit es k)
    note IH = "1.IH" [OF Emit refl]
    have bin: "settle_inv t1" if "handleAgentBinary sid d t = (t1, b)" for d t1 b
      using settle_inv_binary [OF "1.prems", of sid d] that by simp
    show ?thesis
      using IH "1.prems" bin settle_inv_message [OF "1.prems"]
      by (subst agent_feed.simps)
         (auto simp: Emit Let_def split: list.splits parser_event.splits prod.splits)
  qed (simp_all add: agent_feed.simps [of json sid pending] "1.prems")
qed

lemma settle_inv_exec_feed:
  "settle_inv t \<Longrightarrow> settle_inv (fst (snd (snd (exec_feed json sid dp pp t))))"
proof (induction json sid dp pp t rule: exec_feed.induct)
  case (1 json sid dp pp t)
  show ?case
  proof (cases "demux_step dp")
    case (Emit es k)
    note IH = "1.IH" [OF Emit]
    have fed: "settle_inv t1" if "agent_feed json sid q t = (q', t1, b)" for q q' t1 b
      using settle_inv_agent_feed [OF "1.prems", of json sid q] that by simp
    show ?thesis
      using IH "1.prems" fed
      by (subst exec_feed.simps)
         (auto simp: Emit split: list.splits demux_event.splits prod.splits)
  qed (simp_all add: exec_feed.simps [of json sid dp] "1.prems")
qed

section \<open>Requests and life cycle\<close>

lemma sview_proxies [simp]:
  "sview (fst (proxyHTTPRequest sid i req body t)) = sview t"
  "sview (fst (proxyWSUpgrade sid i msg ws onfail t)) = sview t"
  "sview (fst (forwardWSData sid i d t)) = sview t"
  by (auto simp: proxyHTTPRequest_def proxyWSUpgrade_def forwardWSData_def case_prod_unfold Let_def
      split: option.splits)

lemma settle_inv_sends [simp]:
  "settle_inv (touch sid t) = settle_inv t"
  "settle_inv (direct_send i e fs t) = settle_inv t"
  "settle_inv (streaming_send i e fs t) = settle_inv t"
  "settle_inv (detachOnce sid c t) = settle_inv t"
  "settle_inv (emit (Thrown err) t) = settle_inv t"
  "settle_inv (t\<lparr>conns := cs\<rparr>) = settle_inv t"
  by (simp_all add: settle_inv_def)

lemma settle_inv_new:
  assumes "settle_inv t" "requests t u = None"
    and "settle_count t' u = settle_count t u" "requests t' u = Some r" "\<not> rq_settled r"
    and "get_pending t' u = Some p" "streaming p = rq_streaming r"
    and "\<And>j. j \<noteq> u \<Longrightarrow> sview t' j = sview t j"
  shows "settle_inv t'"
proof -
  have "sview_ok (sview t u)" using assms(1) by (simp add: settle_inv_def)
  then have "sview_ok (sview t' u)" using assms(2-7) by (simp add: sview_def)
  then show ?thesis using assms(1,8) unfolding settle_inv_def by metis
qed

lemma settle_inv_direct:
  assumes "settle_inv t" "requests t u = None"
  shows "settle_inv (fst (proxyHTTPDirect sid u meth path hs body t))"
proof (cases "obj t sid")
  case (Some s)
  have n: "settle_inv (set_pending u (new_pending sid False)
      (t\<lparr>limiters := l, timers := tm, next_timer := n,
         requests := (requests t)(u \<mapsto> \<lparr>rq_session = sid, rq_streaming = False, rq_timer = k,
           rq_released = False, rq_settled = False, rq_onClose = None\<rparr>)\<rparr>))" for l tm n k
    by (rule settle_inv_new [OF assms])
       (auto simp: settle_count_def set_pending_def get_pending_def new_pending_def sview_def)
  show ?thesis
    using assms(1) Some n
    by (auto simp: proxyHTTPDirect_def setTimeout_def Let_def case_prod_unfold
        split: option.splits)
qed (simp add: proxyHTTPDirect_def assms)

lemma settle_inv_streaming:
  assumes "settle_inv t" "requests t u = None"
  shows "settle_inv (fst (proxyHTTPStreaming sid u meth path hs body oc t))"
proof (cases "obj t sid")
  case (Some s)
  have n: "settle_inv (set_pending u (new_pending sid True)
      (t\<lparr>limiters := l, controllers := cs, timers := tm, next_timer := n,
         requests := (requests t)(u \<mapsto> \<lparr>rq_session = sid, rq_streaming = True, rq_timer = k,
           rq_released = False, rq_settled = False, rq_onClose = oc\<rparr>)\<rparr>))" for l tm n k cs
    by (rule settle_inv_new [OF assms])
       (auto simp: settle_count_def set_pending_def get_pending_def new_pending_def sview_def)
  show ?thesis
    using assms(1) Some n
    by (auto simp: proxyHTTPStreaming_def setTimeout_def Let_def case_prod_unfold
        split: option.splits)
qed (simp add: proxyHTTPStreaming_def assms)

lemma settle_inv_delete_or_absent:
  assumes "settle_inv t" "requests t i = Some r"
  shows "settle_inv (settle i (Reject i err) (release_request_slot i (delete_pending i t)))"
    and "settle_inv (settle i (Reject i err) (upd_ctrl i ctrl_error (stream_release i (delete_pending i t))))"
    and "settle_inv (settle i (Reject i err) (release_request_slot i (clear_request_timer i (delete_pending i t))))"
proof -
  have rr: "requests (stream_release i u) i = None \<longleftrightarrow> requests u i = None" for u
  proof -
    have "sview (stream_release i u) i = sview u i" by simp
    then have "map_option (\<lambda>r. (rq_settled r, rq_streaming r)) (requests (stream_release i u) i)
        = map_option (\<lambda>r. (rq_settled r, rq_streaming r)) (requests u i)"
      unfolding sview_def prod.inject by blast
    then show ?thesis by (cases "requests u i"; cases "requests (stream_release i u) i") simp_all
  qed
  show "settle_inv (settle i (Reject i err) (release_request_slot i (delete_pending i t)))"
    by (rule settle_inv_delete_settle [OF assms(1)])
       (auto simp: release_request_slot_def release_slot_def split: option.splits)
  show "settle_inv (settle i (Reject i err) (release_request_slot i (clear_request_timer i (delete_pending i t))))"
    by (rule settle_inv_delete_settle [OF assms(1)])
       (auto simp: release_request_slot_def release_slot_def split: option.splits)
  show "settle_inv (settle i (Reject i err) (upd_ctrl i ctrl_error (stream_release i (delete_pending i t))))"
    by (rule settle_inv_delete_settle [OF assms(1)]) (use rr in auto)
qed

lemma settle_inv_stream_cancel:
  assumes "settle_inv t" "\<And>i. controllers t i \<noteq> None \<Longrightarrow> \<exists>r. requests t i = Some r \<and> rq_streaming r"
  shows "settle_inv (stream_cancel i t)"
proof (cases "controllers t i")
  case (Some c)
  then obtain r where r: "requests t i = Some r" "rq_streaming r" using assms(2) [of i] by auto
  have ok: "sview_ok (sview t i)" using assms(1) by (simp add: settle_inv_def)
  have "sview_ok (sview (delete_pending i t) i)"
    using ok r unfolding sview_delete_pending by (auto simp: sview_def split: option.splits)
  then have d: "settle_inv (delete_pending i t)"
    using assms(1) unfolding settle_inv_def sview_delete_pending by (simp del: sview_ok.simps)
  have "sview (delete_pending i (upd_ctrl i ctrl_cancel t)) = sview (delete_pending i t)"
    unfolding sview_delete_pending by (simp add: settle_count_def upd_ctrl_def)
  then have "settle_inv (best_effort_close (rq_session r) i reason
      (stream_release i (delete_pending i (upd_ctrl i ctrl_cancel t))))" for reason
    by (intro settle_inv_same [OF d]) simp
  then show ?thesis using Some r assms(1) by (simp add: stream_cancel_def)
qed (simp add: stream_cancel_def assms)

lemma sview_create [simp]: "sview (tunnel_create call newId draw host cid cmd lbl opts t) = sview t"
proof -
  have "sview (spawnAgent call sid u) = sview u" "sview (createRawExec call sid u) = sview u" for sid u
    by (auto simp: spawnAgent_def createRawExec_def dest: sview_use_adapter split: option.splits prod.splits)
  then show ?thesis
    by (simp add: tunnel_create_def Let_def case_prod_unfold split: sum.splits option.splits)
qed

lemma sview_attach [simp]: "sview (attach sid ws t) = sview t"
  by (auto simp: attach_def startRawExec_def attach_failed_def Let_def dest: sview_use_adapter
      split: option.splits prod.splits)

lemma sview_teardown_common [simp]: "sview (teardown_common sid t) = sview t"
  by (simp add: teardown_common_def)

lemma sview_framed_cleanup [simp]: "sview (framed_cleanup sid t) = sview t"
  by (simp add: framed_cleanup_def Let_def)

lemma sview_teardown_raw_finish [simp]: "sview (teardown_raw_finish sid t) = sview t"
  by (simp add: teardown_raw_finish_def)

lemma sview_handleExecEnd [simp]: "sview (handleExecEnd sid t) = sview t"
  by (simp add: handleExecEnd_def Let_def split: option.splits)

lemma sview_io [simp]:
  "sview (fst (resize sid cols rows t)) = sview t"
  "sview (fst (writeToExec sid d t)) = sview t"
  by (auto simp: resize_def writeToExec_def dest: sview_use_adapter split: option.splits prod.splits)

lemma settle_inv_reject_all:
  assumes "settle_inv t" "distinct (map fst ips)"
    and "\<And>i p. (i, p) \<in> set ips \<Longrightarrow> get_pending t i = Some p"
  shows "settle_inv (foldl (reject_if_session sid) t ips)"
  using assms
proof (induction ips arbitrary: t)
  case (Cons ip ips)
  have "settle_inv (reject_if_session sid t ip)"
    unfolding reject_if_session_def
    using Cons.prems(1) settle_inv_reject [OF Cons.prems(1), of "fst ip" "snd ip"] Cons.prems(3) [of "fst ip" "snd ip"]
    by simp
  moreover have "get_pending (reject_if_session sid t ip) i = Some p" if "(i, p) \<in> set ips" for i p
  proof -
    have "i \<noteq> fst ip" using that Cons.prems(2) by (auto simp: image_iff)
    then show ?thesis using Cons.prems(3) [of i p] that by (simp add: reject_if_session_def)
  qed
  ultimately show ?case using Cons.IH [of "reject_if_session sid t ip"] Cons.prems(2) by simp
qed simp

lemma settle_inv_framed_finish:
  assumes "settle_inv t" "map_wf (pendingHTTPResponses t)"
  shows "settle_inv (teardown_framed_finish sid t)"
proof -
  have a: "settle_inv (foldl (reject_if_session sid) t (pendingHTTPResponses t))"
    by (rule settle_inv_reject_all [OF assms(1)])
       (use assms(2) in \<open>simp_all add: map_wf_def get_pending_def\<close>)
  show ?thesis unfolding teardown_framed_finish_def Let_def by (rule settle_inv_same [OF a]) simp
qed

lemma settle_inv_after_streams:
  assumes "settle_inv t" "map_wf (pendingHTTPResponses t)"
  shows "settle_inv (teardown_after_streams sid t)"
proof -
  let ?t1 = "t\<lparr>sessionStreams := (sessionStreams t)(sid := [])\<rparr>"
  have pend: "use_adapter s u = (u', x) \<Longrightarrow> pendingHTTPResponses u' = pendingHTTPResponses u" for s u u' x
    by (auto simp: use_adapter_def split: prod.splits sum.splits)
  have fin: "settle_inv (teardown_framed_finish sid u)"
    if "sview u = sview t" "pendingHTTPResponses u = pendingHTTPResponses t" for u
    by (rule settle_inv_framed_finish [OF settle_inv_same [OF assms(1) that(1)]]) (simp add: that(2) assms(2))
  have tail: "settle_inv (case use_adapter s u of
      (t3, Some err) \<Rightarrow> teardown_framed_finish sid t3
    | (t3, None) \<Rightarrow> await (TeardownInspect sid) (emit (Docker e) t3))"
    if "sview u = sview t" "pendingHTTPResponses u = pendingHTTPResponses t" for s u e
    using that fin settle_inv_same [OF assms(1)] sview_use_adapter pend
    by (auto split: prod.splits option.splits)
  have p: "pendingHTTPResponses (upd_obj sid f u) = pendingHTTPResponses u"
    "pendingHTTPResponses (emit e u) = pendingHTTPResponses u" for f u e
    by (simp_all add: upd_obj_def emit_def)
  show ?thesis
    unfolding teardown_after_streams_def Let_def
    using settle_inv_same [OF assms(1), of ?t1] by (auto intro!: tail fin simp: p split: option.splits)
qed

lemma settle_inv_teardown_streams:
  assumes "settle_inv t" "map_wf (pendingHTTPResponses t)"
  shows "settle_inv (teardown_streams sid visited t)"
  using settle_inv_after_streams [OF assms]
  by (auto simp: teardown_streams_def intro: settle_inv_same [OF assms(1)] split: option.splits)

lemma settle_inv_teardown:
  assumes "settle_inv t" "map_wf (pendingHTTPResponses t)"
  shows "settle_inv (teardown sid t)"
proof -
  let ?t1 = "clear_grace sid (upd_obj sid (\<lambda>s. s\<lparr>state := Closing\<rparr>) t)"
  have "pendingHTTPResponses ?t1 = pendingHTTPResponses t"
    by (simp add: clear_grace_def clearTimeout_def upd_obj_def split: option.splits)
  then have fr: "settle_inv (teardown_streams sid [] ?t1)"
    by (intro settle_inv_teardown_streams settle_inv_same [OF assms(1)]) (simp_all add: assms(2))
  have raw: "settle_inv (case use_adapter s u of
      (t3, Some err) \<Rightarrow> teardown_raw_finish sid t3
    | (t3, None) \<Rightarrow> await (TeardownRaw sid) (emit (Docker e) t3))" if "sview u = sview t" for s u e
    using that settle_inv_same [OF assms(1)] sview_use_adapter by (auto split: prod.splits option.splits)
  show ?thesis
    unfolding teardown_def Let_def
    using settle_inv_same [OF assms(1), of ?t1] by (auto intro!: fr raw split: option.splits)
qed

section \<open>The step\<close>

lemma settle_inv_resume:
  assumes "acc_inv None t" "settle_inv t"
    and "\<And>i e fs. k = DirectSend i e fs \<Longrightarrow> \<exists>r. requests t i = Some r \<and> \<not> rq_streaming r"
  shows "settle_inv (resume k outc t)"
proof -
  note wf = acc_wfD(1) [OF assms(1)] and same = settle_inv_same [OF assms(2)]
  show ?thesis
  proof (cases k)
    case (DirectSend i e fs)
    then obtain r where "requests t i = Some r" using assms(3) by blast
    then show ?thesis
      using DirectSend assms(2) settle_inv_delete_or_absent(3) [OF assms(2), of i r]
      by (cases outc) (auto simp: direct_send_failed_def)
  next
    case (StreamingSend i e fs)
    then show ?thesis
      using assms(2) settle_inv_reject [OF assms(2)]
      by (cases outc) (auto simp: streaming_send_failed_def split: option.splits)
  next
    case (SpawnCreated call sid)
    then show ?thesis by (cases outc) (auto intro!: same simp: spawn_created_def)
  next
    case (SpawnStarted call sid)
    then show ?thesis by (cases outc) (auto intro!: same simp: spawn_started_def waitForReady_def Let_def)
  next
    case (RawCreated call sid)
    then show ?thesis by (cases outc) (auto intro!: same simp: raw_created_def)
  next
    case (RawStarted sid c)
    then show ?thesis by (cases outc) (auto intro!: same simp: raw_started_def attach_failed_def)
  next
    case (ClientSend sid fs onfail)
    then show ?thesis
      by (cases outc) (auto intro!: same simp: client_send_failed_def split: option.splits)
  next
    case (TeardownInspect sid)
    then show ?thesis
      using settle_inv_framed_finish [OF assms(2) wf]
      by (auto simp: teardown_inspected_def intro!: same split: outcome.splits option.splits)
  qed (use settle_inv_teardown_streams [OF assms(2) wf] settle_inv_framed_finish [OF assms(2) wf] same in auto)
qed

lemma settle_inv_fire:
  assumes "acc_inv None t" "settle_inv t" "timers t k = Some (tm, due)"
  shows "settle_inv (fire tm (clearTimeout k t))"
proof -
  let ?t = "clearTimeout k t"
  have s: "settle_inv ?t" by (rule settle_inv_same [OF assms(2)]) simp
  have wf: "map_wf (pendingHTTPResponses ?t)" using acc_wfD(1) [OF assms(1)] by (simp add: clearTimeout_def)
  have grace: "settle_inv (grace_timeout sid ?t)" for sid
  proof -
    have "settle_inv (teardown sid (?t\<lparr>graceTimers := g\<rparr>))" for g
      by (rule settle_inv_teardown [OF settle_inv_same [OF s]]) (simp_all add: wf)
    then show ?thesis by (auto simp: grace_timeout_def Let_def intro: settle_inv_same [OF s] split: option.splits)
  qed
  show ?thesis
  proof (cases tm)
    case (DirectTimer i)
    then obtain r where "requests t i = Some r" using acc_directD [OF assms(1), of k i due] assms(3) by auto
    then show ?thesis
      using DirectTimer settle_inv_delete_or_absent(1) [OF s, of i r] by (simp add: direct_timeout_def)
  next
    case (HeadersTimer i)
    then obtain r where "requests t i = Some r" using acc_headersD [OF assms(1), of k i due] assms(3) by auto
    then show ?thesis
      using HeadersTimer settle_inv_delete_or_absent(2) [OF s, of i r] by (simp add: headers_timeout_def)
  qed (use settle_inv_teardown [OF s wf] grace in
      \<open>auto simp: heartbeat_timeout_def ready_timeout_def intro: settle_inv_same [OF s]\<close>)
qed

lemma settle_inv_exec_data:
  assumes "settle_inv t"
  shows "settle_inv (exec_data json e chunk t)"
proof (cases "conns t e")
  case (Some c)
  have fed: "settle_inv t1" if "exec_feed json (conn_session c) dp pp t = (dp', pp', t1, b)" for dp pp dp' pp' t1 b
    using settle_inv_exec_feed [OF assms, of json "conn_session c" dp pp] that by simp
  have raw: "sview (foldl (raw_broadcast sid) t ds) = sview t" for sid ds
    by (rule sview_foldl) simp
  show ?thesis
    using Some fed assms
    by (auto simp: exec_data_def Let_def raw intro: settle_inv_same settle_inv_same [OF assms]
        split: option.splits prod.splits)
qed (simp add: exec_data_def assms)

lemma settle_inv_exec_end:
  assumes "acc_inv None t" "settle_inv t"
  shows "settle_inv (exec_end e t)"
proof -
  have "settle_inv (teardown sid (clearHeartbeatTimer sid t))" for sid
    by (rule settle_inv_teardown [OF settle_inv_same [OF assms(2)]])
       (use acc_wfD(1) [OF acc_clearHeartbeat [OF assms(1)]] in simp_all)
  then show ?thesis
    by (auto simp: exec_end_def Let_def intro: settle_inv_same [OF assms(2)] split: option.splits)
qed

lemma settle_inv_step:
  assumes "acc_inv None t" "settle_inv t" "regular t ev"
  shows "settle_inv (tunnel_step json t ev)"
proof (cases ev)
  case (EResume k outc)
  show ?thesis
  proof (cases "tasks t k")
    case (Some task)
    have "settle_inv (resume task outc (t\<lparr>tasks := (tasks t)(k := None)\<rparr>))"
    proof (rule settle_inv_resume [OF acc_drop_task [OF assms(1)] settle_inv_same [OF assms(2)]])
      show "\<exists>r. requests (t\<lparr>tasks := (tasks t)(k := None)\<rparr>) i = Some r \<and> \<not> rq_streaming r"
        if "task = DirectSend i e fs" for i e fs
        using acc_taskD [OF assms(1), of k i e fs] Some that by simp
    qed simp
    then show ?thesis using EResume Some by simp
  qed (use EResume assms(2) in simp)
next
  case (EFire k)
  then show ?thesis using assms(2) settle_inv_fire [OF assms(1,2), of k] by (auto split: option.splits)
next
  case (ECancel i)
  then show ?thesis using settle_inv_stream_cancel [OF assms(2) acc_ctrlD [OF assms(1)]] by simp
next
  case (EProxyDirect sid uuid meth path hs body)
  then show ?thesis using settle_inv_direct [OF assms(2)] assms(3) by simp
next
  case (EProxyStreaming sid uuid meth path hs body oc)
  then show ?thesis using settle_inv_streaming [OF assms(2)] assms(3) by simp
next
  case (EExecData e chunk)
  then show ?thesis using settle_inv_exec_data [OF assms(2)] by simp
next
  case (EExecEnd e)
  then show ?thesis using settle_inv_exec_end [OF assms(1,2)] by simp
next
  case (ETeardown sid)
  then show ?thesis using settle_inv_teardown [OF assms(2) acc_wfD(1) [OF assms(1)]] by simp
qed (auto intro!: settle_inv_same [OF assms(2)] simp: stream_read_def)

lemma settle_inv_run:
  "acc_inv None t \<Longrightarrow> settle_inv t \<Longrightarrow> regular_run json t evs \<Longrightarrow>
     settle_inv (foldl (tunnel_step json) t evs)"
  by (induction evs arbitrary: t) (simp_all add: acc_step settle_inv_step)

lemma settle_inv_init: "settle_inv (tunnel_init m p cap grace)"
  by (simp add: settle_inv_def sview_def settle_count_def tunnel_init_def get_pending_def)

lemma settled_once: "settle_inv t \<Longrightarrow> settle_count t i \<le> 1"
proof -
  assume "settle_inv t"
  then have "sview_ok (sview t i)" by (simp add: settle_inv_def)
  then show ?thesis by (cases "requests t i") (auto simp: sview_def split: option.splits)
qed

text \<open>C3: After every regular run (fresh ids, and no write of a direct request that fails after the
  request was settled), the promise of a proxied request, direct or streaming, was settled at most
  once, whichever of response, stream close, timeout, write failure, cancellation and teardown come
  together.  For a direct, not streaming, request moreover: it is unanswered exactly as long as its
  entry is in the table of pending responses, so no path drops the entry without answering.  (The
  entry of a streaming request stays after its promise, which is that of the headers, is resolved.)\<close>

theorem answered_exactly_once:
  assumes "regular_run json (tunnel_init (sm_init mx idle) p cap grace) evs"
    and "t = foldl (tunnel_step json) (tunnel_init (sm_init mx idle) p cap grace) evs"
  shows "settle_count t i \<le> 1
    \<and> (\<forall>r. requests t i = Some r \<and> \<not> rq_streaming r \<longrightarrow>
          (settle_count t i = 1 \<longleftrightarrow> get_pending t i = None))"
proof -
  have "settle_inv t" unfolding assms(2) by (rule settle_inv_run [OF acc_init settle_inv_init assms(1)])
  then have "sview_ok (sview t i)" by (simp add: settle_inv_def)
  then show ?thesis by (cases "requests t i") (auto simp: sview_def split: option.splits)
qed

end
