(* ===== verification/Tunnel_Wellformed.thy ===== *)
theory Tunnel_Wellformed
  imports Tunnel_Accounting
begin

text \<open>
  The component invariants hold together in every reachable state of the tunnel handler: the
  session registry, the adapter pool, the write serializer, the bound on the bytes buffered
  for a streaming response, and, with the accounting of the requests, the limiters and the timers.
\<close>

named_theorems wf_rules "preservation of the component invariants"

definition ctrl_bounded :: "controller \<Rightarrow> bool" where
  "ctrl_bounded c \<longleftrightarrow> ctrl_bytes c \<le> SSE_MAX_BUFFERED_BYTES"

definition bridge_wf :: "tunnel \<Rightarrow> bool" where
  "bridge_wf t \<longleftrightarrow> sm_wf (manager t) \<and> pool_coherent (pool t) \<and> serializer_wf (writeSerializer t)
     \<and> (\<forall>i c. controllers t i = Some c \<longrightarrow> ctrl_bounded c)"

lemma wf_frame [simp]:
  "bridge_wf (t\<lparr>limiters := x1\<rparr>) = bridge_wf t"
  "bridge_wf (t\<lparr>sessionStreams := x2\<rparr>) = bridge_wf t"
  "bridge_wf (t\<lparr>pendingHTTPResponses := x3\<rparr>) = bridge_wf t"
  "bridge_wf (t\<lparr>requests := x4\<rparr>) = bridge_wf t"
  "bridge_wf (t\<lparr>parsers := x5\<rparr>) = bridge_wf t"
  "bridge_wf (t\<lparr>heartbeatTimers := x6\<rparr>) = bridge_wf t"
  "bridge_wf (t\<lparr>lastHeartbeats := x7\<rparr>) = bridge_wf t"
  "bridge_wf (t\<lparr>readyWaiters := x8\<rparr>) = bridge_wf t"
  "bridge_wf (t\<lparr>graceTimers := x9\<rparr>) = bridge_wf t"
  "bridge_wf (t\<lparr>nextBinaryStreamId := x10\<rparr>) = bridge_wf t"
  "bridge_wf (t\<lparr>timers := x11\<rparr>) = bridge_wf t"
  "bridge_wf (t\<lparr>next_timer := x12\<rparr>) = bridge_wf t"
  "bridge_wf (t\<lparr>tasks := x13\<rparr>) = bridge_wf t"
  "bridge_wf (t\<lparr>next_task := x14\<rparr>) = bridge_wf t"
  "bridge_wf (t\<lparr>conns := x15\<rparr>) = bridge_wf t"
  "bridge_wf (t\<lparr>detached := x16\<rparr>) = bridge_wf t"
  "bridge_wf (t\<lparr>clock := x17\<rparr>) = bridge_wf t"
  "bridge_wf (t\<lparr>out := x18\<rparr>) = bridge_wf t"
  by (simp_all add: bridge_wf_def)

lemma wf_prims [simp]:
  "bridge_wf (emit e t) = bridge_wf t"
  "bridge_wf (setTimeout k ms t) = bridge_wf t"
  "bridge_wf (clearTimeout j t) = bridge_wf t"
  "bridge_wf (await task t) = bridge_wf t"
  "bridge_wf (release_slot sid t) = bridge_wf t"
  "bridge_wf (set_stream sid i e' t) = bridge_wf t"
  "bridge_wf (delete_stream sid i t) = bridge_wf t"
  "bridge_wf (set_pending i p t) = bridge_wf t"
  "bridge_wf (delete_pending i t) = bridge_wf t"
  "bridge_wf (upd_request i f t) = bridge_wf t"
  "bridge_wf (set_nextBinary sid i t) = bridge_wf t"
  "bridge_wf (clear_nextBinary sid t) = bridge_wf t"
  by (simp_all add: emit_def setTimeout_def clearTimeout_def await_def release_slot_def set_stream_def
      delete_stream_def set_pending_def delete_pending_def upd_request_def set_nextBinary_def
      clear_nextBinary_def)

lemma wf_composite_prims [simp]:
  "bridge_wf (clearHeartbeatTimer sid t) = bridge_wf t"
  "bridge_wf (resetHeartbeatTimer sid t) = bridge_wf t"
  "bridge_wf (clear_grace sid t) = bridge_wf t"
  "bridge_wf (arm_grace sid t) = bridge_wf t"
  "bridge_wf (clear_request_timer i t) = bridge_wf t"
  "bridge_wf (release_request_slot i t) = bridge_wf t"
  "bridge_wf (settle i e t) = bridge_wf t"
  "bridge_wf (best_effort_close sid i reason t) = bridge_wf t"
  "bridge_wf (direct_send i ex fs t) = bridge_wf t"
  "bridge_wf (streaming_send i ex fs t) = bridge_wf t"
  by (simp_all add: clearHeartbeatTimer_def resetHeartbeatTimer_def clear_grace_def arm_grace_def
      clear_request_timer_def release_request_slot_def settle_def best_effort_close_def direct_send_def
      streaming_send_def Let_def split: option.splits list.splits)

lemma wf_upd_obj [wf_rules]:
  "bridge_wf t \<Longrightarrow> (\<And>s. session_id (f s) = session_id s) \<Longrightarrow> (\<And>s. publicId (f s) = publicId s) \<Longrightarrow>
     bridge_wf (upd_obj sid f t)"
  by (simp add: bridge_wf_def upd_obj_def sm_wf_upd)

lemma wf_touch [wf_rules]: "bridge_wf t \<Longrightarrow> bridge_wf (touch sid t)"
  by (simp add: bridge_wf_def touch_def sm_wf_touch)

lemma wf_send [wf_rules]:
  assumes "bridge_wf t"
  shows "bridge_wf (fst (sendToWSSerialized sid ws d t))" "bridge_wf (sendToWS ws d t)"
proof -
  have "serializer_wf (serializer_write (writeSerializer t) sid n d)" for n
    using assms serializer_wf_step [of "writeSerializer t" "Write sid n d"] by (simp add: bridge_wf_def)
  then show "bridge_wf (fst (sendToWSSerialized sid ws d t))"
    using assms by (simp add: sendToWSSerialized_def bridge_wf_def split: option.splits client.splits)
  show "bridge_wf (sendToWS ws d t)"
    using assms by (simp add: sendToWS_def split: option.splits client.splits)
qed

lemma wf_use_adapter [wf_rules]: "bridge_wf t \<Longrightarrow> use_adapter s t = (t', x) \<Longrightarrow> bridge_wf t'"
  using pool_coherent_get [of "pool t" "hostId s"]
  by (auto simp: use_adapter_def bridge_wf_def split: prod.splits sum.splits)

lemma wf_foldl [wf_rules]:
  "(\<And>t x. bridge_wf t \<Longrightarrow> bridge_wf (f t x)) \<Longrightarrow> bridge_wf t \<Longrightarrow> bridge_wf (foldl f t xs)"
  by (induction xs arbitrary: t) auto

lemma wf_sm_delete [wf_rules]:
  "bridge_wf t \<Longrightarrow> bridge_wf (t\<lparr>manager := sm_delete (manager t) sid\<rparr>)"
  by (simp add: bridge_wf_def sm_wf_delete)

section \<open>Controllers\<close>

lemma bounded_shrink:
  "ctrl_bounded c \<Longrightarrow> ctrl_bounded (ctrl_close c)"
  "ctrl_bounded c \<Longrightarrow> ctrl_bounded (ctrl_error c)"
  "ctrl_bounded c \<Longrightarrow> ctrl_bounded (ctrl_cancel c)"
  "ctrl_bounded c \<Longrightarrow> ctrl_bounded (ctrl_read c)"
  by (auto simp: ctrl_bounded_def ctrl_defs ctrl_bytes_def split: list.splits)

lemma wf_upd_ctrl [wf_rules]:
  "bridge_wf t \<Longrightarrow> (\<And>c. ctrl_bounded c \<Longrightarrow> ctrl_bounded (f c)) \<Longrightarrow> bridge_wf (upd_ctrl i f t)"
  by (auto simp: bridge_wf_def upd_ctrl_def)

lemma bounded_new: "ctrl_bounded ctrl_new"
  by (simp add: ctrl_bounded_def ctrl_bytes_def ctrl_new_def)

text \<open>The buffered bytes the handler computes are the bytes queued, in a live controller.\<close>

lemma buffered_bytes: "phase c \<noteq> Errored \<Longrightarrow> phase c \<noteq> Closed \<Longrightarrow> ctrl_buffered c = int (ctrl_bytes c)"
  by (cases "phase c") (simp_all add: ctrl_buffered_def ctrl_desiredSize_def)

lemma ctrl_error_bounded:
  "ctrl_bounded c \<or> phase c = Readable \<Longrightarrow> ctrl_bounded (ctrl_error c)"
  by (auto simp: ctrl_bounded_def ctrl_error_def ctrl_live_def ctrl_bytes_def)

lemma enqueue_bounded_or_live:
  "ctrl_bounded c \<Longrightarrow> ctrl_bounded (ctrl_enqueue d c) \<or> phase (ctrl_enqueue d c) = Readable"
  by (auto simp: ctrl_enqueue_def)

section \<open>Handlers\<close>

lemma wf_detach [wf_rules]:
  assumes "bridge_wf t"
  shows "bridge_wf (detach sid ws t)"
proof -
  have fold: "bridge_wf (foldl (detach_stream sid ws) u ies)" if "bridge_wf u" for u ies
    by (rule wf_foldl [OF _ that]) (simp add: detach_stream_def)
  show ?thesis
    using assms unfolding detach_def Let_def
    by (auto intro!: fold wf_touch wf_upd_obj split: option.splits)
qed

lemma wf_detachOnce [wf_rules]: "bridge_wf t \<Longrightarrow> bridge_wf (detachOnce sid c t)"
  by (simp add: detachOnce_def wf_detach)

lemma wf_stream_release [wf_rules]: "bridge_wf t \<Longrightarrow> bridge_wf (stream_release i t)"
  by (simp add: stream_release_def Let_def wf_detachOnce split: option.splits)

lemma wf_pending [wf_rules]:
  assumes "bridge_wf t"
  shows "bridge_wf (pending_resolve i p status hs body t)"
    and "bridge_wf (pending_reject i p err t)"
    and "bridge_wf (pending_onMeta i status hs t)"
  using assms
  by (simp_all add: pending_resolve_def pending_reject_def pending_onMeta_def wf_upd_ctrl wf_stream_release
      bounded_shrink)

lemma wf_handleReady [wf_rules]: "bridge_wf t \<Longrightarrow> bridge_wf (handleReady sid t)"
  by (auto simp: handleReady_def Let_def intro!: wf_upd_obj split: option.splits)

lemma wf_http_response [wf_rules]:
  "bridge_wf t \<Longrightarrow> bridge_wf (pending_http_response sid i p status hs follows t)"
  by (simp add: pending_http_response_def Let_def wf_pending wf_stream_release wf_upd_ctrl bounded_shrink)

lemma wf_forward_to_stream [wf_rules]: "bridge_wf t \<Longrightarrow> bridge_wf (fst (forward_to_stream sid i msg t))"
  by (auto simp: forward_to_stream_def case_prod_unfold Let_def wf_send
      split: option.splits tunnel_message.splits bool.splits)

lemma wf_forwardToClient [wf_rules]: "bridge_wf t \<Longrightarrow> bridge_wf (fst (forwardToClient sid msg t))"
  unfolding forwardToClient_def Let_def
  by (auto intro!: wf_forward_to_stream wf_http_response
      split: option.splits tunnel_message.splits bool.splits)

lemma wf_handlers [wf_rules]:
  assumes "bridge_wf t"
  shows "bridge_wf (fst (handleStreamClose sid mid reason t))"
    and "bridge_wf (fst (handleBodyChunk sid mid t))"
    and "bridge_wf (fst (handleBodyEnd sid mid t))"
  using assms
  by (auto simp: handleStreamClose_def handleBodyChunk_def handleBodyEnd_def Let_def case_prod_unfold wf_send
      wf_pending wf_stream_release wf_upd_ctrl bounded_shrink split: option.splits)

lemma wf_message [wf_rules]: "bridge_wf t \<Longrightarrow> bridge_wf (fst (handleAgentMessage sid msg t))"
  unfolding handleAgentMessage_def
  by (cases msg) (auto simp: handleHeartbeat_def intro!: wf_rules)

lemma wf_stream_chunk [wf_rules]:
  assumes "bridge_wf t"
  shows "bridge_wf (stream_chunk sid i p d t)"
proof -
  let ?t = "upd_ctrl i (ctrl_enqueue d) (set_pending i (p\<lparr>expectingBinary := False\<rparr>) t)"
  have base: "sm_wf (manager ?t)" "pool_coherent (pool ?t)" "serializer_wf (writeSerializer ?t)"
    using assms by (simp_all add: bridge_wf_def upd_ctrl_def set_pending_def)
  have others: "ctrl_bounded c" if "controllers ?t j = Some c" "j \<noteq> i" for j c
    using assms that by (simp add: bridge_wf_def upd_ctrl_def set_pending_def)
  have here: "ctrl_bounded c \<or> phase c = Readable" if "controllers ?t i = Some c" for c
    using assms that enqueue_bounded_or_live by (auto simp: bridge_wf_def upd_ctrl_def set_pending_def)
  show ?thesis
  proof (cases "controllers ?t i")
    case None
    then have "bridge_wf ?t" using base others unfolding bridge_wf_def by (metis option.distinct(1))
    then show ?thesis using None by (simp add: stream_chunk_def Let_def wf_touch)
  next
    case (Some c)
    show ?thesis
    proof (cases "ctrl_buffered c > int SSE_MAX_BUFFERED_BYTES")
      case False
      then have "ctrl_bounded c"
        using here [OF Some] buffered_bytes [of c] by (auto simp: ctrl_bounded_def)
      then have "bridge_wf ?t" using base others Some unfolding bridge_wf_def by (metis option.inject)
      then show ?thesis using Some False by (simp add: stream_chunk_def Let_def wf_touch)
    next
      case True
      have "controllers (upd_ctrl i ctrl_error (delete_pending i ?t)) j =
          (if j = i then Some (ctrl_error c) else controllers ?t j)" for j
        using Some by (auto simp: upd_ctrl_def delete_pending_def)
      then have "bridge_wf (upd_ctrl i ctrl_error (delete_pending i ?t))"
        using base others ctrl_error_bounded [OF here [OF Some]]
        by (auto simp: bridge_wf_def) (auto simp: upd_ctrl_def delete_pending_def set_pending_def split: if_splits)
      then show ?thesis
        using Some True by (simp add: stream_chunk_def Let_def terminateStreamingPending_def wf_stream_release)
    qed
  qed
qed

lemma wf_broadcasts [wf_rules]:
  "bridge_wf t \<Longrightarrow> bridge_wf (broadcast_serialized sid d t)"
  "bridge_wf t \<Longrightarrow> bridge_wf (raw_broadcast sid t d)"
  by (auto simp: broadcast_serialized_def raw_broadcast_def intro!: wf_foldl wf_send split: option.splits)

lemma wf_binary_to_client [wf_rules]: "bridge_wf t \<Longrightarrow> bridge_wf (fst (binary_to_client sid target d t))"
  by (simp add: binary_to_client_def wf_send wf_broadcasts split: option.splits)

lemma wf_binary [wf_rules]: "bridge_wf t \<Longrightarrow> bridge_wf (fst (handleAgentBinary sid d t))"
  unfolding handleAgentBinary_def Let_def
  by (auto intro!: wf_stream_chunk wf_binary_to_client split: option.splits)

lemma wf_agent_feed [wf_rules]: "bridge_wf t \<Longrightarrow> bridge_wf (fst (snd (agent_feed json sid pending t)))"
proof (induction json sid pending t rule: agent_feed.induct)
  case (1 json sid pending t)
  show ?case
  proof (cases "protocol_step json pending")
    case (Emit es k)
    note IH = "1.IH" [OF Emit refl]
    have bin: "bridge_wf t1" if "handleAgentBinary sid d t = (t1, b)" for d t1 b
      using wf_binary [OF "1.prems", of sid d] that by simp
    show ?thesis
      using IH "1.prems" bin wf_message [OF "1.prems"]
      by (subst agent_feed.simps)
         (auto simp: Emit Let_def split: list.splits parser_event.splits prod.splits)
  qed (simp_all add: agent_feed.simps [of json sid pending] "1.prems")
qed

lemma wf_exec_feed [wf_rules]: "bridge_wf t \<Longrightarrow> bridge_wf (fst (snd (snd (exec_feed json sid dp pp t))))"
proof (induction json sid dp pp t rule: exec_feed.induct)
  case (1 json sid dp pp t)
  show ?case
  proof (cases "demux_step dp")
    case (Emit es k)
    note IH = "1.IH" [OF Emit]
    have fed: "bridge_wf t1" if "agent_feed json sid q t = (q', t1, b)" for q q' t1 b
      using wf_agent_feed [OF "1.prems", of json sid q] that by simp
    show ?thesis
      using IH "1.prems" fed
      by (subst exec_feed.simps)
         (auto simp: Emit split: list.splits demux_event.splits prod.splits)
  qed (simp_all add: exec_feed.simps [of json sid dp] "1.prems")
qed

lemma wf_client_send [wf_rules]: "bridge_wf t \<Longrightarrow> bridge_wf (client_send sid onfail fs t)"
  by (auto simp: client_send_def wf_touch split: list.splits option.splits)

lemma wf_proxies [wf_rules]:
  assumes "bridge_wf t"
  shows "bridge_wf (fst (proxyHTTPRequest sid i req body t))"
    and "bridge_wf (fst (proxyWSUpgrade sid i msg ws onfail t))"
    and "bridge_wf (fst (forwardWSData sid i d t))"
    and "bridge_wf (fst (proxyHTTPDirect sid u meth path hs body t))"
  using assms
  by (auto simp: proxyHTTPRequest_def proxyWSUpgrade_def forwardWSData_def proxyHTTPDirect_def case_prod_unfold
      Let_def intro!: wf_client_send wf_send wf_touch split: option.splits)

lemma wf_proxyHTTPStreaming [wf_rules]:
  assumes "bridge_wf t"
  shows "bridge_wf (fst (proxyHTTPStreaming sid u meth path hs body oc t))"
proof -
  have "bridge_wf (t\<lparr>limiters := l, controllers := (controllers t)(u \<mapsto> ctrl_new)\<rparr>)" for l
    using assms bounded_new by (simp add: bridge_wf_def)
  then show ?thesis
    using assms by (auto simp: proxyHTTPStreaming_def case_prod_unfold Let_def intro!: wf_touch wf_detachOnce
        split: option.splits)
qed

lemma wf_request_ends [wf_rules]:
  assumes "bridge_wf t"
  shows "bridge_wf (direct_timeout i t)" "bridge_wf (headers_timeout i t)" "bridge_wf (stream_cancel i t)"
    and "bridge_wf (stream_read i t)" "bridge_wf (direct_send_failed i err t)"
    and "bridge_wf (streaming_send_failed i err t)" "bridge_wf (client_send_failed onfail t)"
  using assms
  by (auto simp: direct_timeout_def headers_timeout_def stream_cancel_def stream_read_def direct_send_failed_def
      streaming_send_failed_def client_send_failed_def intro!: wf_upd_ctrl wf_stream_release wf_pending
      bounded_shrink split: option.splits)

lemma wf_resume_send [wf_rules]: "bridge_wf t \<Longrightarrow> bridge_wf (resume_send k outc t)"
  by (induction k outc t rule: resume_send.induct) (simp_all add: wf_request_ends wf_client_send)

section \<open>Life cycle and the step\<close>

lemma wf_teardown_common [wf_rules]:
  assumes "bridge_wf t"
  shows "bridge_wf (teardown_common sid t)"
proof -
  have "serializer_wf (serializer_remove (writeSerializer t) sid)"
    using assms serializer_wf_step [of "writeSerializer t" "Remove sid"] by (simp add: bridge_wf_def)
  then show ?thesis using assms by (simp add: teardown_common_def bridge_wf_def sm_wf_delete)
qed

lemma wf_close_clients [wf_rules]: "bridge_wf t \<Longrightarrow> bridge_wf (close_clients sid reason t)"
  by (auto simp: close_clients_def intro!: wf_upd_obj wf_foldl split: option.splits)

lemma wf_framed_finish [wf_rules]: "bridge_wf t \<Longrightarrow> bridge_wf (teardown_framed_finish sid t)"
proof -
  assume a: "bridge_wf t"
  have "bridge_wf (foldl (reject_if_session sid) t ips)" for ips
    by (rule wf_foldl [OF _ a]) (simp add: reject_if_session_def wf_pending)
  then show ?thesis
    by (simp add: teardown_framed_finish_def framed_cleanup_def Let_def wf_teardown_common wf_close_clients)
qed

lemma wf_raw_finish [wf_rules]: "bridge_wf t \<Longrightarrow> bridge_wf (teardown_raw_finish sid t)"
  by (simp add: teardown_raw_finish_def wf_teardown_common wf_close_clients)

lemma wf_after_streams [wf_rules]: "bridge_wf t \<Longrightarrow> bridge_wf (teardown_after_streams sid t)"
  unfolding teardown_after_streams_def Let_def
  by (auto intro!: wf_framed_finish wf_upd_obj dest!: wf_use_adapter [rotated] split: option.splits prod.splits)

lemma wf_teardown_streams [wf_rules]: "bridge_wf t \<Longrightarrow> bridge_wf (teardown_streams sid visited t)"
  by (auto simp: teardown_streams_def intro!: wf_after_streams split: option.splits)

lemma wf_teardown [wf_rules]: "bridge_wf t \<Longrightarrow> bridge_wf (teardown sid t)"
  unfolding teardown_def Let_def
  by (auto intro!: wf_teardown_streams wf_raw_finish wf_upd_obj dest!: wf_use_adapter [rotated]
      split: option.splits prod.splits)

lemma wf_spawn [wf_rules]:
  assumes "bridge_wf t"
  shows "bridge_wf (spawnAgent call sid t)" "bridge_wf (createRawExec call sid t)"
    and "bridge_wf (startRawExec sid c t)"
  using assms
  by (auto simp: spawnAgent_def createRawExec_def startRawExec_def attach_failed_def
      dest!: wf_use_adapter [rotated] split: option.splits prod.splits)

lemma wf_create [wf_rules]:
  assumes "bridge_wf t" "fresh_id (manager t) newId"
  shows "bridge_wf (tunnel_create call newId draw host cid cmd lbl opts t)"
proof -
  have "bridge_wf (t\<lparr>manager := m\<rparr>)"
    if "sm_create (manager t) (clock t) newId draw host cid cmd lbl opts = Inr (m, i)" for m i
    using assms(1) sm_wf_create [OF _ assms(2) that] by (simp add: bridge_wf_def)
  then show ?thesis
    using assms(1) unfolding tunnel_create_def Let_def
    by (auto intro!: wf_spawn split: sum.splits option.splits)
qed

lemma wf_attach [wf_rules]: "bridge_wf t \<Longrightarrow> bridge_wf (attach sid ws t)"
  unfolding attach_def Let_def by (auto intro!: wf_spawn wf_touch wf_upd_obj split: option.splits)

lemma wf_exec_end [wf_rules]:
  assumes "bridge_wf t"
  shows "bridge_wf (handleExecEnd sid t)" "bridge_wf (exec_end e t)"
proof -
  show "bridge_wf (handleExecEnd sid t)" for sid
    using assms wf_teardown_common [of "close_clients sid ''Process exited'' (upd_obj sid (\<lambda>s. s\<lparr>state := Closing\<rparr>) t)" sid]
    by (auto simp: handleExecEnd_def Let_def teardown_common_def wf_close_clients wf_upd_obj split: option.splits)
  then show "bridge_wf (exec_end e t)"
    using assms by (auto simp: exec_end_def Let_def intro!: wf_teardown split: option.splits)
qed

lemma wf_io [wf_rules]:
  assumes "bridge_wf t"
  shows "bridge_wf (fst (resize sid cols rows t))" "bridge_wf (fst (writeToExec sid d t))"
  using assms
  by (auto simp: resize_def writeToExec_def dest!: wf_use_adapter [rotated] split: option.splits prod.splits)

lemma wf_exec_data [wf_rules]:
  assumes "bridge_wf t"
  shows "bridge_wf (exec_data json e chunk t)"
proof (cases "conns t e")
  case (Some c)
  have fed: "bridge_wf t1" if "exec_feed json (conn_session c) dp pp t = (dp', pp', t1, b)" for dp pp dp' pp' t1 b
    using wf_exec_feed [OF assms, of json "conn_session c" dp pp] that by simp
  show ?thesis
    using assms Some fed
    by (auto simp: exec_data_def Let_def intro!: wf_broadcasts wf_foldl split: option.splits prod.splits)
qed (simp add: exec_data_def assms)

lemma wf_resume [wf_rules]: "bridge_wf t \<Longrightarrow> bridge_wf (resume k outc t)"
  by (induction k outc t rule: resume.induct)
     (auto simp: spawn_created_def spawn_started_def waitForReady_def raw_created_def raw_started_def
       attach_failed_def teardown_inspected_def Let_def
       intro!: wf_upd_obj wf_teardown_streams wf_framed_finish wf_raw_finish wf_resume_send wf_client_send wf_request_ends
       split: outcome.splits option.splits)

lemma wf_fire [wf_rules]: "bridge_wf t \<Longrightarrow> bridge_wf (fire tm t)"
  by (cases tm) (auto simp: heartbeat_timeout_def ready_timeout_def grace_timeout_def Let_def wf_teardown
      wf_request_ends split: option.splits)

lemma wf_run_link:
  "bridge_wf t \<Longrightarrow> bridge_wf (t\<lparr>writeSerializer := serializer_run_link (writeSerializer t) c\<rparr>)"
  using serializer_wf_step [of "writeSerializer t" "RunLink c"] by (simp add: bridge_wf_def)

lemma wf_step:
  assumes "bridge_wf t" "regular t ev"
  shows "bridge_wf (tunnel_step json t ev)"
proof (cases ev)
  case ESweep
  then show ?thesis using assms(1) by (simp add: bridge_wf_def sm_wf_sweep)
next
  case (ERunLink c)
  then show ?thesis using wf_run_link [OF assms(1)] by simp
next
  case (EAdapter h)
  then show ?thesis using assms(1) pool_coherent_get by (simp add: bridge_wf_def)
next
  case (EUpdateHosts hs)
  then show ?thesis using assms pool_coherent_update by (simp add: bridge_wf_def)
qed (use assms in \<open>auto intro!: wf_create wf_attach wf_detach wf_detachOnce wf_proxies wf_proxyHTTPStreaming
    wf_io wf_teardown wf_exec_data wf_exec_end wf_resume wf_fire wf_request_ends wf_touch
    split: option.splits\<close>)

lemma wf_run: "bridge_wf t \<Longrightarrow> regular_run json t evs \<Longrightarrow> bridge_wf (foldl (tunnel_step json) t evs)"
  by (induction evs arbitrary: t) (simp_all add: wf_step)

lemma wf_init: "map_wf hs \<Longrightarrow> bridge_wf (tunnel_init (sm_init mx idle) (pool_new hs) cap grace)"
  by (simp add: bridge_wf_def tunnel_init_def sm_wf_init serializer_wf_init pool_coherent_def pool_new_def)

text \<open>What the numbers of the armed timers are.  The timer of a direct request is armed only while the
  request is pending.\<close>

definition timers_ok :: "tunnel \<Rightarrow> bool" where
  "timers_ok t \<longleftrightarrow> (\<forall>k tm due. timers t k = Some (tm, due) \<longrightarrow> k < next_timer t \<and> (case tm of
       DirectTimer i \<Rightarrow> get_pending t i \<noteq> None \<and> (\<exists>r. requests t i = Some r \<and> \<not> rq_streaming r \<and> rq_timer r = k)
     | HeadersTimer i \<Rightarrow> (\<exists>r. requests t i = Some r \<and> rq_streaming r)
     | _ \<Rightarrow> True))"

lemma acc_timers_ok: "acc_inv None t \<Longrightarrow> timers_ok t"
proof -
  assume acc: "acc_inv None t"
  have "k < next_timer t" if "timers t k = Some x" for k x
    using acc that by (simp add: acc_inv_def timer_ok_def)
  then show ?thesis
    using acc_directD [OF acc] acc_headersD [OF acc] by (auto simp: timers_ok_def split: timer.split)
qed

text \<open>C36: In every state that a run of the bridge reaches, the session registry is consistent and within
  its limit, no cached Docker adapter is stale, the write chains are well formed, and no
  streaming response ever holds more than 16 MiB of undelivered bytes, whatever the consumer
  does: a chunk that would exceed the cap drops the response instead; no limiter counts more
  requests than it allows; and every armed timer has a number given out before, the timer of a
  direct request is that of a request still pending, and the timer for the headers is that of a
  streaming request.  In the run ids are fresh, the list of hosts names each host once, and no write
  of a direct request fails after the request was settled (\<open>regular_run\<close>).\<close>

theorem bridge_invariant:
  assumes "map_wf hs"
    and "regular_run json (tunnel_init (sm_init mx idle) (pool_new hs) cap grace) evs"
    and "t = foldl (tunnel_step json) (tunnel_init (sm_init mx idle) (pool_new hs) cap grace) evs"
  shows "sm_wf (manager t) \<and> pool_coherent (pool t) \<and> serializer_wf (writeSerializer t)
    \<and> (\<forall>i c. controllers t i = Some c \<longrightarrow> ctrl_bytes c \<le> SSE_MAX_BUFFERED_BYTES)
    \<and> (\<forall>sid e. limiters t sid = Some e \<longrightarrow> inFlight e \<le> max_slots e) \<and> timers_ok t"
proof -
  have wf: "bridge_wf t" unfolding assms(3) by (rule wf_run [OF wf_init [OF assms(1)] assms(2)])
  have acc: "acc_inv None t" unfolding assms(3) by (rule acc_run [OF acc_init assms(2)])
  show ?thesis
    using wf acc_capD [OF acc] acc_timers_ok [OF acc] by (simp add: bridge_wf_def ctrl_bounded_def)
qed

end
