(* ===== verification/Tunnel_Responses.thy ===== *)
theory Tunnel_Responses
  imports Tunnel_Settlement
begin

text \<open>
  Reassembly of response bodies.  The agent writes a response as a head, chunks (an envelope and
  a binary frame, written under one lock) and an end; the writes of concurrent responses
  interleave between these units.  The handler routes every binary frame by the stream id of
  the envelope before it.
\<close>

section \<open>Units written by the agent\<close>

text \<open>tunnel-agent: \<open>WriteJSON\<close> and \<open>WriteJSONThenBinary\<close> (internal/transport/stdio.go) as used
  by the HTTP and WebSocket proxies and the heartbeat loop.\<close>

datatype agent_unit =
    UHead string nat headers
  | UChunk string buffer
  | UEnd string
  | UClose string string
  | UData string buffer
  | UHeartbeat

fun unit_events :: "agent_unit \<Rightarrow> tunnel_message parser_event list" where
  "unit_events (UHead i status hs) = [OnMessage (HTTPResponseMsg (Some i) status hs True)]"
| "unit_events (UChunk i d) = [OnMessage (BodyChunkMsg (Some i)), OnBinary d]"
| "unit_events (UEnd i) = [OnMessage (BodyEndMsg (Some i))]"
| "unit_events (UClose i reason) = [OnMessage (StreamCloseMsg (Some i) (Some reason))]"
| "unit_events (UData i d) = [OnMessage (WSDataMsg (Some i) True), OnBinary d]"
| "unit_events UHeartbeat = [OnMessage HeartbeatMsg]"


definition agent_unit :: "string \<Rightarrow> agent_unit \<Rightarrow> tunnel \<Rightarrow> tunnel" where
  "agent_unit sid u t = fst (agent_events sid (unit_events u) t)"



definition agent_units :: "string \<Rightarrow> agent_unit list \<Rightarrow> tunnel \<Rightarrow> tunnel" where
  "agent_units sid us t = foldl (\<lambda>t u. agent_unit sid u t) t us"



section \<open>Handlers of other streams\<close>

text \<open>The entry and the promise of stream \<open>i\<close> are as before.\<close>

definition same_at :: "string \<Rightarrow> tunnel \<Rightarrow> tunnel \<Rightarrow> bool" where
  "same_at i t t' \<longleftrightarrow> get_pending t' i = get_pending t i \<and> sview t' i = sview t i"

lemma same_at_refl [simp]: "same_at i t t"
  by (simp add: same_at_def)


lemma get_pending_prims [simp]:
  "get_pending (upd_obj sid f t) j = get_pending t j"
  "get_pending (touch sid t) j = get_pending t j"
  "get_pending (setTimeout k ms t) j = get_pending t j"
  "get_pending (clearTimeout n t) j = get_pending t j"
  "get_pending (release_slot sid t) j = get_pending t j"
  "get_pending (set_stream sid i e t) j = get_pending t j"
  "get_pending (delete_stream sid i t) j = get_pending t j"
  "get_pending (clearHeartbeatTimer sid t) j = get_pending t j"
  "get_pending (resetHeartbeatTimer sid t) j = get_pending t j"
  "get_pending (best_effort_close sid i reason t) j = get_pending t j"
  "get_pending (t\<lparr>lastHeartbeats := x\<rparr>) j = get_pending t j"
  by (simp_all add: get_pending_def upd_obj_def touch_def setTimeout_def clearTimeout_def release_slot_def
      set_stream_def delete_stream_def clearHeartbeatTimer_def resetHeartbeatTimer_def best_effort_close_def
      emit_def Let_def split: option.splits)

lemma get_pending_send [simp]: "get_pending (fst (sendToWSSerialized sid ws d t)) j = get_pending t j"
  by (simp add: sendToWSSerialized_def get_pending_def split: option.splits client.splits)

lemma get_pending_broadcast [simp]: "get_pending (broadcast_serialized sid d t) j = get_pending t j"
proof -
  have "get_pending (foldl (\<lambda>t c. fst (sendToWSSerialized sid (Some c) (WsBytes d) t)) t cs) j = get_pending t j"
    for cs by (induction cs arbitrary: t) simp_all
  then show ?thesis by (simp add: broadcast_serialized_def split: option.splits)
qed




lemma get_pending_forward_to_stream [simp]:
  "get_pending (fst (forward_to_stream sid j msg t)) i = get_pending t i"
  by (auto simp: forward_to_stream_def Let_def case_prod_unfold
      split: option.splits tunnel_message.splits bool.splits)



section \<open>One unit\<close>

lemma nextBinary_prims [simp]:
  "nextBinaryStreamId (fst (sendToWSSerialized sid ws d t)) = nextBinaryStreamId t"
  "nextBinaryStreamId (delete_stream sid i t) = nextBinaryStreamId t"
  "nextBinaryStreamId (release_slot sid t) = nextBinaryStreamId t"
  "nextBinaryStreamId (set_nextBinary sid i t) = (nextBinaryStreamId t)(sid \<mapsto> i)"
  by (simp_all add: sendToWSSerialized_def delete_stream_def release_slot_def set_nextBinary_def
      split: option.splits client.splits)

lemma get_stream_touch [simp]: "get_stream (touch sid t) sid' i = get_stream t sid' i"
  by (simp add: get_stream_def touch_def)


lemma next_forward [simp]:
  "nextBinaryStreamId (fst (forward_to_stream sid i msg t)) = nextBinaryStreamId t"
  by (auto simp: forward_to_stream_def Let_def case_prod_unfold
      split: option.splits tunnel_message.splits bool.splits)


lemma agent_unit_one:
  "agent_unit sid (UHead i status hs) t = fst (handleAgentMessage sid (HTTPResponseMsg (Some i) status hs True) t)"
  "agent_unit sid (UEnd i) t = fst (handleAgentMessage sid (BodyEndMsg (Some i)) t)"
  "agent_unit sid (UClose i reason) t = fst (handleAgentMessage sid (StreamCloseMsg (Some i) (Some reason)) t)"
  "agent_unit sid UHeartbeat t = fst (handleAgentMessage sid HeartbeatMsg t)"
  by (simp_all add: agent_unit_def)

lemma agent_unit_two:
  "agent_unit sid (UChunk i d) t =
     fst (handleAgentBinary sid d (fst (handleAgentMessage sid (BodyChunkMsg (Some i)) t)))"
  "agent_unit sid (UData i d) t =
     fst (handleAgentBinary sid d (fst (handleAgentMessage sid (WSDataMsg (Some i) True) t)))"
  by (simp_all add: agent_unit_def case_prod_unfold Let_def)




lemma own_end:
  assumes "get_pending t i = Some p" "\<not> streaming p" "i \<noteq> []"
    and "requests t i = Some r" "\<not> rq_settled r"
  shows "last (out (agent_unit sid (UEnd i) t)) =
      Resolve i (case responseMeta p of None \<Rightarrow> 200 | Some (status, _) \<Rightarrow> status)
        (case responseMeta p of None \<Rightarrow> [] | Some (_, hs) \<Rightarrow> hs)
        (if bodyChunks p = [] then None else Some (concat (bodyChunks p)))"
    and "get_pending (agent_unit sid (UEnd i) t) i = None"
proof -
  have r: "requests (release_request_slot i (clear_request_timer i (delete_pending i (touch sid t)))) i = Some r"
    using assms(4) by (simp add: release_request_slot_def release_slot_def touch_def)
  show "last (out (agent_unit sid (UEnd i) t)) =
      Resolve i (case responseMeta p of None \<Rightarrow> 200 | Some (status, _) \<Rightarrow> status)
        (case responseMeta p of None \<Rightarrow> [] | Some (_, hs) \<Rightarrow> hs)
        (if bodyChunks p = [] then None else Some (concat (bodyChunks p)))"
    using assms r by (simp add: agent_unit_one handleAgentMessage_def handleBodyEnd_def pending_resolve_def
        settle_def emit_def Let_def)
  show "get_pending (agent_unit sid (UEnd i) t) i = None"
    using assms by (simp add: agent_unit_one handleAgentMessage_def handleBodyEnd_def)
qed

section \<open>A response among others\<close>





section \<open>Chunks of streams the handler dropped\<close>

text \<open>The envelope of an untracked stream does not become the target of its binary frame.\<close>

lemma dead_chunk_message:
  assumes "get_pending t j = None" "get_stream t sid j = None"
  shows "fst (handleAgentMessage sid (BodyChunkMsg (Some j)) t) = touch sid t"
  using assms by (simp add: handleAgentMessage_def handleBodyChunk_def)

text \<open>After a request timed out or its client left, the agent still sends the rest of its
  body.  Such a chunk that arrives between the head and the first chunk of another response is
  taken as that response's body: the promise of stream \<open>i\<close> resolves with the bytes of the dead
  stream \<open>j\<close>.\<close>

theorem dead_chunk_corrupts:
  assumes "i \<noteq> []" "j \<noteq> []" "get_pending t i = Some (new_pending s False)"
    and "requests t i = Some r" "\<not> rq_settled r"
    and "get_pending t j = None" "get_stream t sid j = None" "i \<noteq> j"
  shows "last (out (agent_units sid [UHead i status hs, UChunk j d, UEnd i] t)) = Resolve i status hs (Some d)"
proof -
  let ?p = "(new_pending s False)\<lparr>responseMeta := Some (status, hs), expectingBinary := True\<rparr>"
  let ?t1 = "agent_unit sid (UHead i status hs) t"
  have t1: "?t1 = set_nextBinary sid i (set_pending i ?p (touch sid t))"
    using assms(1,3) by (simp add: agent_unit_one handleAgentMessage_def forwardToClient_def
        pending_http_response_def new_pending_def)
  have dead: "get_pending ?t1 j = None" "get_stream ?t1 sid j = None"
    unfolding t1 using assms(6-8)
    by (simp_all add: get_stream_def get_pending_def set_nextBinary_def set_pending_def touch_def)
  let ?q = "?p\<lparr>expectingBinary := False, bodyChunks := [d]\<rparr>"
  let ?t2 = "agent_unit sid (UChunk j d) ?t1"
  have t2: "?t2 = set_pending i ?q (clear_nextBinary sid (touch sid ?t1))"
    unfolding agent_unit_two dead_chunk_message [OF dead] unfolding t1
    using assms(1) by (simp add: handleAgentBinary_def touch_def set_nextBinary_def new_pending_def Let_def
        clear_nextBinary_def get_pending_def set_pending_def)
  have q: "get_pending ?t2 i = Some ?q" unfolding t2 by simp
  have r: "requests ?t2 i = Some r" unfolding t2 unfolding t1 using assms(4)
    by (simp add: clear_nextBinary_def touch_def set_nextBinary_def)
  show ?thesis
    using own_end(1) [OF q _ assms(1) r assms(5), of sid] by (simp add: agent_units_def new_pending_def)
qed

end
