(* ===== verification/Tunnel_Properties.thy ===== *)
theory Tunnel_Properties
  imports Tunnel_Responses Tunnel_Wellformed
begin

text \<open>
  Concrete runs of the tunnel handler: they exercise the step function, apply the properties of the
  other theories, and show the double release of a late write failure.
\<close>

section \<open>A concrete run\<close>

text \<open>A bridge with one Docker host and a limit of one request per session; the agent's text
  payloads are decoded by \<open>ex_json\<close>.\<close>

definition ex_json :: "buffer \<Rightarrow> string + tunnel_message" where
  "ex_json b =
     (if b = [] then Inr ReadyMsg
      else if b = [1] then Inr (HTTPResponseMsg (Some ''u1'') 200 [] False)
      else Inl ''Unexpected token'')"

definition ex_framed :: create_options where
  "ex_framed = \<lparr>opt_mode = Persistent, opt_protocol = Framed, opt_tty = False,
     opt_appId = None, opt_isPublic = False, opt_desiredPublicId = None, opt_durable = False\<rparr>"

definition ex_pool :: adapter_pool where
  "ex_pool = pool_new [(''h'', \<lparr>host_type = ''docker_endpoint'', host_endpoint = ''x''\<rparr>)]"

definition ex_init :: tunnel where
  "ex_init = tunnel_init (sm_init 2 1000) ex_pool 1 5000"

text \<open>Docker-multiplexed stdout chunks with the frames of the messages \<open>[]\<close> and \<open>[1]\<close>.\<close>

definition ex_ready_bytes :: buffer where
  "ex_ready_bytes = [1, 0, 0, 0, 0, 0, 0, 5, 1, 0, 0, 0, 0]"

definition ex_response_bytes :: buffer where
  "ex_response_bytes = [1, 0, 0, 0, 0, 0, 0, 6, 1, 0, 0, 0, 1, 1]"

lemmas ex_frames = exec_feed.simps agent_feed.simps demux_step_def protocol_step_def readUInt32BE_def
  MAX_DEMUX_PAYLOAD_def MAX_FRAME_PAYLOAD_def Let_def TEXT_def BINARY_def ex_json_def

lemma ex_ready_feed:
  "exec_feed ex_json sid ex_ready_bytes [] t = ([], [], fst (handleAgentMessage sid ReadyMsg t), False)"
  by (simp add: ex_frames ex_ready_bytes_def)

lemma ex_response_feed:
  "exec_feed ex_json sid ex_response_bytes [] t =
     ([], [], fst (handleAgentMessage sid (HTTPResponseMsg (Some ''u1'') 200 [] False) t), False)"
  by (simp add: ex_frames ex_response_bytes_def)

definition ex_start :: "tunnel_event list" where
  "ex_start = [ECreate 0 ''s'' (\<lambda>_. []) ''h'' ''c'' [] ''l'' ex_framed, EResume 0 (DoneExec ''e''),
     EResume 1 (DoneExec ''e''), EExecData ''e'' ex_ready_bytes,
     EProxyDirect ''s'' ''u1'' ''GET'' ''/'' [] None]"

lemmas ex_run_simps = ex_init_def ex_start_def tunnel_init_def tunnel_create_def sm_create_def sm_init_def
  sm_resolvePublicId_def ex_framed_def Let_def obj_def spawnAgent_def use_adapter_def pool_get_def
  ex_pool_def pool_new_def createAdapter_def await_def emit_def spawn_created_def spawn_started_def
  waitForReady_def setTimeout_def clearTimeout_def upd_obj_def upd_session_def new_session_def
  limiter_register_def exec_data_def ex_ready_feed ex_response_feed handleAgentMessage_def touch_def
  sm_touch_def sm_get_def handleReady_def resetHeartbeatTimer_def clearHeartbeatTimer_def
  proxyHTTPDirect_def proxy_guard_def limiter_acquire_def limiter_release_def direct_send_def
  request_frames_def has_body_def body_frames_def set_pending_def get_pending_def new_pending_def
  delete_pending_def map_delete_def forwardToClient_def pending_http_response_def pending_resolve_def
  clear_request_timer_def release_request_slot_def release_slot_def settle_def upd_request_def
  direct_send_failed_def slots_used_def count_map_def fresh_id_def

lemma ex_start_regular: "regular_run ex_json ex_init ex_start"
  by (simp add: ex_run_simps)

lemma ex_start_limiter:
  "limiters (foldl (tunnel_step ex_json) ex_init ex_start) ''s'' = Some \<lparr>inFlight = 1, max_slots = 1\<rparr>"
  by (simp add: ex_run_simps)

theorem concurrency_cap_respected_witness:
  "slots_used (foldl (tunnel_step ex_json) ex_init ex_start) ''s'' \<le> 1"
  using concurrency_cap_respected [OF ex_start_regular [unfolded ex_init_def] refl
      ex_start_limiter [unfolded ex_init_def]]
  by (simp add: ex_init_def)

section \<open>A write that fails late\<close>

text \<open>The agent answers \<open>u1\<close> before the callback of its first write; \<open>u2\<close> takes the slot; the
  write of \<open>u1\<close> then fails.\<close>

definition ex_late :: "tunnel_event list" where
  "ex_late = [EExecData ''e'' ex_response_bytes, EProxyDirect ''s'' ''u2'' ''GET'' ''/'' [] None,
     EResume 2 (Failed ''EPIPE''), EProxyDirect ''s'' ''u3'' ''GET'' ''/'' [] None]"

text \<open>The \<open>catch\<close> of a direct request's write returns the concurrency slot again even when
  the request was already answered: with a limit of one, two requests are then in progress.\<close>

theorem late_failure_breaks_cap:
  "\<exists>evs t. t = foldl (tunnel_step ex_json) ex_init evs
     \<and> (\<exists>e. limiters t ''s'' = Some e \<and> max_slots e = 1 \<and> slots_used t ''s'' = 2)"
proof (intro exI conjI)
  show "foldl (tunnel_step ex_json) ex_init (ex_start @ ex_late)
      = foldl (tunnel_step ex_json) ex_init (ex_start @ ex_late)" ..
  show "limiters (foldl (tunnel_step ex_json) ex_init (ex_start @ ex_late)) ''s''
      = Some \<lparr>inFlight = 1, max_slots = 1\<rparr>"
    by (simp add: ex_run_simps ex_late_def)
  show "slots_used (foldl (tunnel_step ex_json) ex_init (ex_start @ ex_late)) ''s'' = 2"
    by (simp add: ex_run_simps ex_late_def)
qed simp

section \<open>The other properties on the concrete run\<close>

lemma ex_start_pending:
  "get_pending (foldl (tunnel_step ex_json) ex_init ex_start) ''u1'' = Some (new_pending ''s'' False)"
  by (simp add: ex_run_simps)

lemma ex_start_request:
  "\<exists>r. requests (foldl (tunnel_step ex_json) ex_init ex_start) ''u1'' = Some r
     \<and> \<not> rq_streaming r \<and> \<not> rq_settled r"
  by (simp add: ex_run_simps)

lemma ex_start_dead:
  "get_pending (foldl (tunnel_step ex_json) ex_init ex_start) ''dead'' = None"
  "get_stream (foldl (tunnel_step ex_json) ex_init ex_start) ''s'' ''dead'' = None"
  by (simp_all add: ex_run_simps get_stream_def)

theorem answered_exactly_once_witness:
  "settle_count (foldl (tunnel_step ex_json) ex_init ex_start) ''u1'' = 0"
proof -
  obtain r where r: "requests (foldl (tunnel_step ex_json) ex_init ex_start) ''u1'' = Some r" "\<not> rq_streaming r"
    using ex_start_request by blast
  have "settle_count (foldl (tunnel_step ex_json) ex_init ex_start) ''u1'' \<le> 1 \<and>
     (settle_count (foldl (tunnel_step ex_json) ex_init ex_start) ''u1'' = 1 \<longleftrightarrow>
      get_pending (foldl (tunnel_step ex_json) ex_init ex_start) ''u1'' = None)"
    using answered_exactly_once [OF ex_start_regular [unfolded ex_init_def] refl, of "''u1''"] r
    unfolding ex_init_def by blast
  then show ?thesis using ex_start_pending by simp
qed

theorem bridge_invariant_witness: "sm_wf (manager (foldl (tunnel_step ex_json) ex_init ex_start))"
proof -
  have "map_wf [(''h'', \<lparr>host_type = ''docker_endpoint'', host_endpoint = ''x''\<rparr>)]" by (simp add: map_wf_def)
  from bridge_invariant [OF this ex_start_regular [unfolded ex_init_def ex_pool_def] refl]
  show ?thesis by (simp add: ex_init_def ex_pool_def)
qed


theorem dead_chunk_corrupts_witness:
  "last (out (agent_units ''s'' [UHead ''u1'' 200 [], UChunk ''dead'' [7], UEnd ''u1'']
      (foldl (tunnel_step ex_json) ex_init ex_start))) = Resolve ''u1'' 200 [] (Some [7])"
proof -
  obtain r where r: "requests (foldl (tunnel_step ex_json) ex_init ex_start) ''u1'' = Some r" "\<not> rq_settled r"
    using ex_start_request by blast
  show ?thesis by (rule dead_chunk_corrupts [OF _ _ ex_start_pending r ex_start_dead]) simp_all
qed

end
