(* ===== verification/Tunnel_Wire.thy ===== *)
theory Tunnel_Wire
  imports Tunnel_Properties
begin

text \<open>
  What the tunnel agent makes of the frames the bridge writes.  The reader is the loop of the
  agent (docker/tunnel-agent, internal/tunnel/agent.go): a message with \<open>body_follows\<close> takes the
  next frame as its body if that frame is BINARY, and without a body otherwise.
\<close>

section \<open>The agent's reader\<close>

datatype agent_action =
    HandleHTTP tunnel_message "buffer option"
  | HandleUpgrade tunnel_message
  | DeliverData string "buffer option"
  | CancelStream string

fun agent_read :: "tunnel_message frame list \<Rightarrow> agent_action list" where
  "agent_read [] = []"
| "agent_read (BinaryFrame b # fs) = agent_read fs"
| "agent_read (TextFrame (HTTPRequestMsg i meth path hs len follows) # fs) =
     (if follows then
        (case fs of
           [] \<Rightarrow> []
         | BinaryFrame b # fs' \<Rightarrow> HandleHTTP (HTTPRequestMsg i meth path hs len follows) (Some b) # agent_read fs'
         | TextFrame m # fs' \<Rightarrow> HandleHTTP (HTTPRequestMsg i meth path hs len follows) None # agent_read fs')
      else HandleHTTP (HTTPRequestMsg i meth path hs len follows) None # agent_read fs)"
| "agent_read (TextFrame (WSUpgradeMsg i path hs) # fs) = HandleUpgrade (WSUpgradeMsg i path hs) # agent_read fs"
| "agent_read (TextFrame (WSDataMsg i follows) # fs) =
     (if follows then
        (case fs of
           [] \<Rightarrow> []
         | BinaryFrame b # fs' \<Rightarrow> DeliverData (case i of None \<Rightarrow> [] | Some j \<Rightarrow> j) (Some b) # agent_read fs'
         | TextFrame m # fs' \<Rightarrow> DeliverData (case i of None \<Rightarrow> [] | Some j \<Rightarrow> j) None # agent_read fs')
      else agent_read fs)"
| "agent_read (TextFrame (StreamCloseMsg i reason) # fs) =
     CancelStream (case i of None \<Rightarrow> [] | Some j \<Rightarrow> j) # agent_read fs"
| "agent_read (TextFrame m # fs) = agent_read fs"

section \<open>The chunks of a body\<close>

fun frame_bytes_of :: "tunnel_message frame \<Rightarrow> buffer" where
  "frame_bytes_of (TextFrame m) = []"
| "frame_bytes_of (BinaryFrame b) = b"

lemma chunk_frames_bytes:
  "concat (map frame_bytes_of (chunk_frames i body offset)) = drop offset body"
proof (induction i body offset rule: chunk_frames.induct)
  case (1 i body offset)
  show ?case
  proof (cases "offset < length body")
    case True
    let ?e = "min (offset + MAX_BODY_CHUNK) (length body)"
    have "concat (map frame_bytes_of (chunk_frames i body ?e)) = drop ?e body"
      by (rule "1.IH" [OF True]) simp_all
    moreover have "take (?e - offset) (drop offset body) @ drop ?e body = drop offset body"
      by (metis append_take_drop_id drop_drop le_add_diff_inverse2 le_add1 min.bounded_iff
          True less_imp_le_nat)
    ultimately show ?thesis using True by (subst chunk_frames.simps) (simp add: Let_def)
  qed (simp add: chunk_frames.simps)
qed

lemma chunk_frames_bounded:
  "list_all (\<lambda>f. length (frame_bytes_of f) \<le> MAX_BODY_CHUNK) (chunk_frames i body offset)"
proof (induction i body offset rule: chunk_frames.induct)
  case (1 i body offset)
  show ?case
  proof (cases "offset < length body")
    case True
    then show ?thesis
      using "1.IH" [OF True refl refl refl] by (subst chunk_frames.simps) (simp add: Let_def)
  qed (simp add: chunk_frames.simps)
qed

text \<open>The BINARY frames of a request carry its body completely and in order, in pieces of at
  most 256 KiB.\<close>

theorem body_frames_complete:
  "concat (map frame_bytes_of (body_frames i (Some body))) = body
   \<and> list_all (\<lambda>f. length (frame_bytes_of f) \<le> MAX_BODY_CHUNK) (body_frames i (Some body))"
  by (auto simp: body_frames_def chunk_frames_bytes chunk_frames_bounded)

section \<open>Requests as the agent sees them\<close>

definition sent_request :: "string \<Rightarrow> string \<Rightarrow> string \<Rightarrow> headers \<Rightarrow> buffer option \<Rightarrow> tunnel_message" where
  "sent_request i meth path hs body =
     HTTPRequestMsg (Some i) meth path hs (if has_body body then map_option length body else None) (has_body body)"

text \<open>Requests written one after the other with bodies of at most 256 KiB arrive as they were
  sent: the agent handles each with exactly its body.\<close>

theorem small_requests_arrive:
  assumes "\<forall>(i, meth, path, hs, body) \<in> set reqs. (\<forall>b. body = Some b \<longrightarrow> length b \<le> MAX_BODY_CHUNK)"
  shows "agent_read (concat (map (\<lambda>(i, meth, path, hs, body). request_frames i meth path hs body) reqs))
    = map (\<lambda>(i, meth, path, hs, body). HandleHTTP (sent_request i meth path hs body)
        (if has_body body then body else None)) reqs"
  using assms
proof (induction reqs)
  case (Cons rq reqs)
  obtain i meth path hs body where rq: "rq = (i, meth, path, hs, body)" by (cases rq)
  have "body_frames i body = (if has_body body then [BinaryFrame (the body)] else [])"
    using Cons.prems rq by (auto simp: body_frames_def has_body_def split: option.splits)
  then show ?case
    using Cons rq by (auto simp: request_frames_def sent_request_def has_body_def split: option.splits)
qed simp

lemma agent_read_chunks: "agent_read (chunk_frames i body offset @ fs) = agent_read fs"
proof (induction i body offset rule: chunk_frames.induct)
  case (1 i body offset)
  show ?case
  proof (cases "offset < length body")
    case True
    then show ?thesis
      using "1.IH" [OF True refl refl refl] by (subst chunk_frames.simps) (auto simp: Let_def min_def split: if_splits)
  qed (simp add: chunk_frames.simps)
qed

text \<open>A request whose body exceeds 256 KiB reaches the service without any body: the envelope
  announces \<open>body_follows\<close>, the agent finds a TEXT frame instead of the BINARY frame it expects,
  and it ignores every chunk that comes after.\<close>

theorem large_body_lost:
  assumes "length b > MAX_BODY_CHUNK"
  shows "agent_read (request_frames i meth path hs (Some b) @ fs)
    = HandleHTTP (sent_request i meth path hs (Some b)) None # agent_read fs"
proof -
  have pos: "0 < length b" using assms by linarith
  define e where "e = min (0 + MAX_BODY_CHUNK) (length b)"
  have "chunk_frames i b 0 = TextFrame (if length b \<le> e then BodyEndMsg (Some i) else BodyChunkMsg (Some i))
      # BinaryFrame (take (e - 0) (drop 0 b)) # chunk_frames i b e"
    using pos by (subst chunk_frames.simps) (simp add: Let_def e_def)
  then show ?thesis
    using assms pos by (simp add: request_frames_def body_frames_def has_body_def sent_request_def agent_read_chunks)
qed

section \<open>Concurrent requests with bodies\<close>

fun agent_frames :: "string \<Rightarrow> effect list \<Rightarrow> tunnel_message frame list" where
  "agent_frames e [] = []"
| "agent_frames e (AgentFrame x f # es) = (if x = e then f # agent_frames e es else agent_frames e es)"
| "agent_frames e (_ # es) = agent_frames e es"

text \<open>A session with a limit of two, whose agent is ready; the two clients of the run send a
  request with a body each, and each write's callback comes before the next write.\<close>

definition ex_two :: tunnel where
  "ex_two = tunnel_init (sm_init 2 1000) ex_pool 2 5000"

definition ex_interleaved :: "tunnel_event list" where
  "ex_interleaved = [ECreate 0 ''s'' (\<lambda>_. []) ''h'' ''c'' [] ''l'' ex_framed, EResume 0 (DoneExec ''e''),
     EResume 1 (DoneExec ''e''), EExecData ''e'' ex_ready_bytes,
     EProxyDirect ''s'' ''u1'' ''POST'' ''/a'' [] (Some [1]), EProxyDirect ''s'' ''u2'' ''POST'' ''/b'' [] (Some [2]),
     EResume 2 Done, EResume 3 Done]"

text \<open>The write of an envelope and the write of its body are separate awaits without a lock
  on the agent's stdin, so two requests with bodies can interleave.  In this run the bridge
  accepts both; the agent takes the second envelope for the first body, handles the first
  request without a body and never sees the second.\<close>

theorem concurrent_bodies_lost:
  "agent_frames ''e'' (out (foldl (tunnel_step ex_json) ex_two ex_interleaved)) =
     [TextFrame (sent_request ''u1'' ''POST'' ''/a'' [] (Some [1])),
      TextFrame (sent_request ''u2'' ''POST'' ''/b'' [] (Some [2])), BinaryFrame [1], BinaryFrame [2]]
   \<and> agent_read (agent_frames ''e'' (out (foldl (tunnel_step ex_json) ex_two ex_interleaved))) =
     [HandleHTTP (sent_request ''u1'' ''POST'' ''/a'' [] (Some [1])) None]"
proof (rule conjI)
  show f: "agent_frames ''e'' (out (foldl (tunnel_step ex_json) ex_two ex_interleaved)) =
     [TextFrame (sent_request ''u1'' ''POST'' ''/a'' [] (Some [1])),
      TextFrame (sent_request ''u2'' ''POST'' ''/b'' [] (Some [2])), BinaryFrame [1], BinaryFrame [2]]"
    by (simp add: ex_run_simps ex_two_def ex_interleaved_def sent_request_def MAX_BODY_CHUNK_def)
  show "agent_read (agent_frames ''e'' (out (foldl (tunnel_step ex_json) ex_two ex_interleaved))) =
     [HandleHTTP (sent_request ''u1'' ''POST'' ''/a'' [] (Some [1])) None]"
    unfolding f by (simp add: sent_request_def has_body_def)
qed

section \<open>Concrete inputs\<close>

theorem small_requests_arrive_witness:
  "agent_read (request_frames ''a'' ''POST'' ''/'' [] (Some [1, 2]) @ request_frames ''b'' ''GET'' ''/'' [] None)
    = [HandleHTTP (sent_request ''a'' ''POST'' ''/'' [] (Some [1, 2])) (Some [1, 2]),
       HandleHTTP (sent_request ''b'' ''GET'' ''/'' [] None) None]"
  using small_requests_arrive
    [of "[(''a'', ''POST'', ''/'', [], Some [1, 2]), (''b'', ''GET'', ''/'', [], None)]"]
  by (simp add: MAX_BODY_CHUNK_def has_body_def)

theorem large_body_lost_witness:
  "agent_read (request_frames ''a'' ''POST'' ''/'' [] (Some (replicate (Suc MAX_BODY_CHUNK) 0)) @ [])
    = [HandleHTTP (sent_request ''a'' ''POST'' ''/'' [] (Some (replicate (Suc MAX_BODY_CHUNK) 0))) None]"
proof -
  have "length (replicate (Suc MAX_BODY_CHUNK) (0::byte)) > MAX_BODY_CHUNK" by simp
  from large_body_lost [OF this, of "''a''" "''POST''" "''/''" "[]" "[]"] show ?thesis by simp
qed

end
