(* ===== verification/Tunnel_Effects.thy ===== *)
theory Tunnel_Effects
  imports Tunnel_Properties
begin

text \<open>
  The exact effect of a client leaving a session, and what is left of a session once it is torn
  down.
\<close>

section \<open>Detach\<close>

lemma detach_loop_streams:
  "sessionStreams (foldl (detach_stream sid ws) t ies) = (sessionStreams t)(sid :=
     filter (\<lambda>p. \<not> (\<exists>en. (fst p, en) \<in> set ies \<and> entry_ws en = Some ws)) (sessionStreams t sid))"
proof (induction ies arbitrary: t)
  case (Cons ie ies)
  have "sessionStreams (detach_stream sid ws t ie) = (sessionStreams t)(sid :=
      filter (\<lambda>p. \<not> (fst p = fst ie \<and> entry_ws (snd ie) = Some ws)) (sessionStreams t sid))"
    by (simp add: detach_stream_def delete_stream_def release_slot_def map_delete_def)
  then show ?case
    using Cons.IH [of "detach_stream sid ws t ie"]
    by (cases ie) (auto simp: fun_eq_iff intro!: filter_cong)
qed simp

definition owned_http :: "client \<Rightarrow> (string, stream_entry) js_map \<Rightarrow> nat" where
  "owned_http ws m = count_map (\<lambda>_ en. entry_ws en = Some ws \<and> entry_type en = HttpStream) m"

lemma owned_http_Cons:
  "owned_http ws (ie # m) =
     (if entry_ws (snd ie) = Some ws \<and> entry_type (snd ie) = HttpStream then 1 else 0) + owned_http ws m"
  by (cases ie) (simp add: owned_http_def count_map_def)

lemma release_swap:
  "((\<lambda>l. limiter_release l sid) ^^ n) (limiter_release l sid) = limiter_release (((\<lambda>l. limiter_release l sid) ^^ n) l) sid"
  by (induction n) simp_all

lemma detach_loop_limiters:
  "limiters (foldl (detach_stream sid ws) t ies) =
     ((\<lambda>l. limiter_release l sid) ^^ owned_http ws ies) (limiters t)"
proof (induction ies arbitrary: t)
  case (Cons ie ies)
  then show ?case
    by (simp add: owned_http_Cons detach_stream_def delete_stream_def release_slot_def release_swap)
qed (simp add: owned_http_def)

lemma release_many:
  "((\<lambda>l. limiter_release l sid) ^^ n) l =
     (case l sid of None \<Rightarrow> l | Some e \<Rightarrow> l(sid \<mapsto> e\<lparr>inFlight := inFlight e - n\<rparr>))"
proof (induction n)
  case 0
  then show ?case by (auto simp: fun_eq_iff split: option.splits)
next
  case (Suc n)
  then show ?case by (auto simp: limiter_release_def fun_eq_iff split: option.splits)
qed

lemma tail_detach_fields:
  "sessionStreams (touch sid t) = sessionStreams t" "limiters (touch sid t) = limiters t"
  "sessionStreams (arm_grace sid t) = sessionStreams t" "limiters (arm_grace sid t) = limiters t"
  "sessionStreams (upd_obj sid f t) = sessionStreams t" "limiters (upd_obj sid f t) = limiters t"
  by (simp_all add: touch_def arm_grace_def setTimeout_def upd_obj_def Let_def)

text \<open>C31: When a client leaves a framed session that is not closing, exactly its own streams are
  dropped, exactly one slot is returned for each of its HTTP streams (the counter of the session
  stops at zero), and the streams and the counters of the other clients and sessions are as before.\<close>

theorem detach_exact:
  assumes "obj t sid = Some s" "protocol s = Framed" "state s \<noteq> Closing"
    and "map_wf (sessionStreams t sid)" "limiters t sid = Some e"
  shows "sessionStreams (detach sid ws t) =
      (sessionStreams t)(sid := filter (\<lambda>p. entry_ws (snd p) \<noteq> Some ws) (sessionStreams t sid))
    \<and> limiters (detach sid ws t) =
      (limiters t)(sid \<mapsto> e\<lparr>inFlight := inFlight e - owned_http ws (sessionStreams t sid)\<rparr>)"
proof -
  let ?t1 = "upd_obj sid (\<lambda>s. s\<lparr>clients := clients_delete ws (clients s)\<rparr>) t"
  let ?s = "s\<lparr>clients := clients_delete ws (clients s)\<rparr>"
  let ?t2 = "foldl (detach_stream sid ws) ?t1 (sessionStreams ?t1 sid)"
  have o: "obj ?t1 sid = Some ?s" using assms(1) by (simp add: obj_def upd_obj_def upd_session_def)
  have d: "detach sid ws t = (if mode s = Ephemeral \<and> clients ?s = [] then arm_grace sid (touch sid ?t2)
      else touch sid ?t2)"
    unfolding detach_def Let_def o using assms(2,3) by simp
  have uniq: "en = snd p" if "p \<in> set (sessionStreams t sid)" "(fst p, en) \<in> set (sessionStreams t sid)" for p en
    using assms(4) that unfolding map_wf_def by (metis eq_key_imp_eq_value prod.collapse)
  have "filter (\<lambda>p. \<not> (\<exists>en. (fst p, en) \<in> set (sessionStreams t sid) \<and> entry_ws en = Some ws)) (sessionStreams t sid)
      = filter (\<lambda>p. entry_ws (snd p) \<noteq> Some ws) (sessionStreams t sid)"
  proof (rule filter_cong [OF refl])
    fix p
    assume p: "p \<in> set (sessionStreams t sid)"
    then have "(fst p, snd p) \<in> set (sessionStreams t sid)" by simp
    then show "(\<not> (\<exists>en. (fst p, en) \<in> set (sessionStreams t sid) \<and> entry_ws en = Some ws))
        = (entry_ws (snd p) \<noteq> Some ws)"
      using uniq [OF p] by blast
  qed
  then show ?thesis
    unfolding d using assms(5)
    by (simp add: tail_detach_fields detach_loop_streams detach_loop_limiters release_many)
qed

section \<open>Teardown\<close>

lemma reject_loop_pending:
  "get_pending (foldl (reject_if_session sid) t ips) j =
     (if \<exists>p. (j, p) \<in> set ips \<and> pend_session p = sid then None else get_pending t j)"
proof (induction ips arbitrary: t)
  case (Cons ip ips)
  have "get_pending (reject_if_session sid t ip) j =
      (if j = fst ip \<and> pend_session (snd ip) = sid then None else get_pending t j)"
    by (simp add: reject_if_session_def)
  then show ?case using Cons.IH [of "reject_if_session sid t ip"] by (cases ip) auto
qed simp

lemma emit_all: "foldl (\<lambda>t c. emit (f c) t) t cs = t\<lparr>out := out t @ map f cs\<rparr>"
  by (induction cs arbitrary: t) (simp_all add: emit_def)

lemma close_clients_fields [simp]:
  "sessionStreams (close_clients sid r t) = sessionStreams t"
  "heartbeatTimers (close_clients sid r t) = heartbeatTimers t"
  "nextBinaryStreamId (close_clients sid r t) = nextBinaryStreamId t"
  "readyWaiters (close_clients sid r t) = readyWaiters t"
  "parsers (close_clients sid r t) = parsers t"
  "lastHeartbeats (close_clients sid r t) = lastHeartbeats t"
  "pendingHTTPResponses (close_clients sid r t) = pendingHTTPResponses t"
  by (simp_all add: close_clients_def upd_obj_def emit_all split: option.splits)

lemma framed_finish_pending:
  "pendingHTTPResponses (teardown_framed_finish sid t) =
     pendingHTTPResponses (foldl (reject_if_session sid) t (pendingHTTPResponses t))"
proof -
  have "pendingHTTPResponses (framed_cleanup sid u) = pendingHTTPResponses u" for u
    by (simp add: framed_cleanup_def clearHeartbeatTimer_def clearTimeout_def Let_def split: option.splits)
  then show ?thesis by (simp add: teardown_framed_finish_def teardown_common_def Let_def)
qed

text \<open>The loop settles the promise of each response it drops and ends its stream.\<close>

definition answered :: "string \<Rightarrow> tunnel \<Rightarrow> bool" where
  "answered i t \<longleftrightarrow> (\<forall>r. requests t i = Some r \<longrightarrow> rq_settled r)"

definition stream_over :: "string \<Rightarrow> tunnel \<Rightarrow> bool" where
  "stream_over i t \<longleftrightarrow> (\<forall>c. controllers t i = Some c \<longrightarrow> \<not> ctrl_live c)"

lemma answered_sview: "sview t' i = sview t i \<Longrightarrow> answered i t' = answered i t"
  by (cases "requests t i"; cases "requests t' i") (auto simp: answered_def sview_def)

lemma answered_settle: "answered i (settle j e t) \<longleftrightarrow> i = j \<or> answered i t"
  by (auto simp: answered_def settle_def emit_def upd_request_def split: option.split)

lemma controllers_detach [simp]: "controllers (detach sid ws t) = controllers t"
proof -
  have "controllers (foldl (detach_stream sid ws) u ies) = controllers u" for u ies
    by (induction ies arbitrary: u)
      (simp_all add: detach_stream_def delete_stream_def release_slot_def)
  then show ?thesis
    by (simp add: detach_def Let_def upd_obj_def arm_grace_def setTimeout_def touch_def split: option.splits)
qed

lemma controllers_simps [simp]:
  "controllers (stream_release i t) = controllers t" "controllers (clear_request_timer i t) = controllers t"
  "controllers (release_request_slot i t) = controllers t" "controllers (settle i e t) = controllers t"
  "controllers (delete_pending i t) = controllers t"
  by (simp_all add: stream_release_def detachOnce_def Let_def release_slot_def upd_request_def clear_request_timer_def
      clearTimeout_def release_request_slot_def settle_def emit_def delete_pending_def split: option.splits)

lemma dead_error [simp]: "\<not> ctrl_live (ctrl_error c)"
  by (simp add: ctrl_error_def ctrl_live_def)

lemma reject_ends:
  "answered i (pending_reject j p err t) \<longleftrightarrow> i = j \<or> answered i t"
  "stream_over i t \<or> i = j \<and> streaming p \<Longrightarrow> stream_over i (pending_reject j p err t)"
proof -
  have "answered i (upd_ctrl j ctrl_error (stream_release j (clear_request_timer j t))) = answered i t"
    "answered i (release_request_slot j (clear_request_timer j t)) = answered i t"
    by (rule answered_sview, simp)+
  then show "answered i (pending_reject j p err t) \<longleftrightarrow> i = j \<or> answered i t"
    by (simp add: pending_reject_def answered_settle)
  show "stream_over i (pending_reject j p err t)" if "stream_over i t \<or> i = j \<and> streaming p"
    using that by (auto simp: pending_reject_def stream_over_def upd_ctrl_def)
qed

lemma reject_step_ends:
  "answered i (reject_if_session sid t (j, p)) \<longleftrightarrow> i = j \<and> pend_session p = sid \<or> answered i t"
  "stream_over i t \<or> i = j \<and> pend_session p = sid \<and> streaming p \<Longrightarrow> stream_over i (reject_if_session sid t (j, p))"
proof -
  have "answered i (delete_pending j t) = answered i t" "stream_over i (delete_pending j t) = stream_over i t"
    by (simp_all add: answered_def stream_over_def delete_pending_def)
  then show "answered i (reject_if_session sid t (j, p)) \<longleftrightarrow> i = j \<and> pend_session p = sid \<or> answered i t"
    "stream_over i t \<or> i = j \<and> pend_session p = sid \<and> streaming p \<Longrightarrow> stream_over i (reject_if_session sid t (j, p))"
    by (auto simp: reject_if_session_def reject_ends)
qed

lemma reject_loop_answers:
  "answered i t \<or> (\<exists>p. (i, p) \<in> set ips \<and> pend_session p = sid) \<Longrightarrow> answered i (foldl (reject_if_session sid) t ips)"
proof (induction ips arbitrary: t)
  case (Cons ip ips)
  then show ?case by (cases ip) (auto simp: reject_step_ends)
qed simp

lemma reject_loop_streams:
  "stream_over i t \<or> (\<exists>p. (i, p) \<in> set ips \<and> pend_session p = sid \<and> streaming p) \<Longrightarrow>
     stream_over i (foldl (reject_if_session sid) t ips)"
proof (induction ips arbitrary: t)
  case (Cons ip ips)
  then show ?case by (cases ip) (auto intro: reject_step_ends(2))
qed simp

lemma closed_clients: "obj (close_clients sid r t) sid = Some s \<Longrightarrow> clients s = []"
  by (auto simp: close_clients_def upd_obj_def upd_session_def obj_def split: option.splits)

lemma deleted_clients: "map_option clients (objects (sm_delete m sid) sid) = map_option clients (objects m sid)"
  by (cases "objects m sid") (auto simp: sm_delete_def upd_session_def Let_def split: option.split)

text \<open>C39: What the last step of a framed teardown leaves of a session in the tables of the handler: no
  stream, no pending response, no limiter entry, no heartbeat timer, parser or routing state, no
  waiter, no chain of writes, no registry entry and no client; the promise of each response that was
  pending is settled and its stream, when it has one, is over; and the pending responses of every
  other session are untouched.  (The grace timer goes in the first step; the records of requests
  stand for variables of promises and stay.)\<close>

theorem teardown_leaves_nothing:
  assumes "bridge_wf t" "map_wf (pendingHTTPResponses t)" and "t' = teardown_framed_finish sid t"
  shows "sessionStreams t' sid = [] \<and> limiters t' sid = None \<and> heartbeatTimers t' sid = None
    \<and> nextBinaryStreamId t' sid = None \<and> readyWaiters t' sid = None \<and> parsers t' sid = None
    \<and> lastHeartbeats t' sid = None \<and> sid \<notin> set (sessions (manager t'))
    \<and> chains (writeSerializer t') sid = None \<and> (\<forall>s. obj t' sid = Some s \<longrightarrow> clients s = [])
    \<and> (\<forall>i. case get_pending t i of
          None \<Rightarrow> get_pending t' i = None
        | Some p \<Rightarrow> if pend_session p = sid
            then get_pending t' i = None \<and> answered i t' \<and> (streaming p \<longrightarrow> stream_over i t')
            else get_pending t' i = Some p)"
proof -
  let ?u = "foldl (reject_if_session sid) t (pendingHTTPResponses t)"
  let ?c = "close_clients sid ''Session terminated'' (framed_cleanup sid ?u)"
  have t': "t' = teardown_common sid ?c" by (simp add: assms(3) teardown_framed_finish_def Let_def)
  have "bridge_wf ?u" by (rule wf_foldl [OF _ assms(1)]) (simp add: reject_if_session_def wf_pending)
  then have "bridge_wf (framed_cleanup sid ?u)" by (simp add: framed_cleanup_def Let_def)
  then have "bridge_wf ?c" by (rule wf_close_clients)
  then have "sm_wf (manager ?c)" by (simp add: bridge_wf_def)
  then have s: "sid \<notin> set (sessions (manager t'))"
    unfolding t' by (simp add: teardown_common_def sm_delete_sessions)
  have hb: "heartbeatTimers (clearHeartbeatTimer sid v) sid = None" for v
    by (simp add: clearHeartbeatTimer_def split: option.splits)
  have ends: "answered i t' = answered i ?u" "stream_over i t' = stream_over i ?u" for i
    unfolding t' by (simp_all add: answered_def stream_over_def teardown_common_def framed_cleanup_def close_clients_def
        clearHeartbeatTimer_def clearTimeout_def upd_obj_def emit_all Let_def split: option.split)
  have cl: "clients s = []" if "obj t' sid = Some s" for s
  proof -
    have "map_option clients (obj t' sid) = map_option clients (obj ?c sid)"
      by (simp add: t' teardown_common_def obj_def deleted_clients)
    then have "map_option clients (obj ?c sid) = Some (clients s)" by (simp add: that)
    then obtain s' where "obj ?c sid = Some s'" "clients s = clients s'" by auto
    then show ?thesis by (simp add: closed_clients)
  qed
  have p: "case get_pending t i of
          None \<Rightarrow> get_pending t' i = None
        | Some p \<Rightarrow> if pend_session p = sid
            then get_pending t' i = None \<and> answered i t' \<and> (streaming p \<longrightarrow> stream_over i t')
            else get_pending t' i = Some p" for i
  proof -
    have m: "(i, p) \<in> set (pendingHTTPResponses t) \<longleftrightarrow> get_pending t i = Some p" for p
      using assms(2) by (simp add: get_pending_def map_wf_def)
    have "get_pending t' i = get_pending ?u i"
      unfolding assms(3) by (simp add: get_pending_def framed_finish_pending)
    then show ?thesis
      using reject_loop_answers [of i t "pendingHTTPResponses t" sid] reject_loop_streams [of i t "pendingHTTPResponses t" sid]
      unfolding reject_loop_pending m ends by (auto split: option.split)
  qed
  have "sessionStreams t' sid = [] \<and> limiters t' sid = None \<and> heartbeatTimers t' sid = None
    \<and> nextBinaryStreamId t' sid = None \<and> readyWaiters t' sid = None \<and> parsers t' sid = None
    \<and> lastHeartbeats t' sid = None \<and> chains (writeSerializer t') sid = None"
    unfolding t'
    by (simp add: teardown_common_def close_clients_fields framed_cleanup_def Let_def limiter_unregister_def hb serializer_remove_def)
  then show ?thesis using s p cl by blast
qed

section \<open>Concrete inputs\<close>

lemma ex_start_session:
  "\<exists>s. obj (foldl (tunnel_step ex_json) ex_init ex_start) ''s'' = Some s \<and> protocol s = Framed \<and> state s \<noteq> Closing"
  by (simp add: ex_run_simps)

theorem detach_exact_witness:
  "limiters (detach ''s'' (WebSocket 0) (foldl (tunnel_step ex_json) ex_init ex_start)) ''s''
     = Some \<lparr>inFlight = 1, max_slots = 1\<rparr>"
proof -
  let ?t = "foldl (tunnel_step ex_json) ex_init ex_start"
  obtain s where s: "obj ?t ''s'' = Some s" "protocol s = Framed" "state s \<noteq> Closing"
    using ex_start_session by blast
  have m: "sessionStreams ?t ''s'' = []" by (simp add: ex_run_simps)
  have w: "map_wf (sessionStreams ?t ''s'')" unfolding m by simp
  from detach_exact [OF s w ex_start_limiter] show ?thesis
    unfolding m by (simp add: owned_http_def count_map_def)
qed

theorem teardown_leaves_nothing_witness:
  "get_pending (teardown_framed_finish ''s'' (foldl (tunnel_step ex_json) ex_init ex_start)) ''u1'' = None
   \<and> answered ''u1'' (teardown_framed_finish ''s'' (foldl (tunnel_step ex_json) ex_init ex_start))"
proof -
  let ?t = "foldl (tunnel_step ex_json) ex_init ex_start"
  have p: "pool_coherent ex_pool" by (simp add: pool_coherent_def ex_pool_def pool_new_def map_wf_def)
  have "bridge_wf ex_init"
    by (simp add: bridge_wf_def ex_init_def tunnel_init_def sm_wf_init serializer_wf_init p)
  then have "bridge_wf ?t" using ex_start_regular by (rule wf_run)
  moreover have "map_wf (pendingHTTPResponses ?t)"
    using acc_wfD(1) [OF acc_run [OF acc_init ex_start_regular [unfolded ex_init_def]]]
    by (simp add: ex_init_def)
  ultimately have "\<forall>i. case get_pending ?t i of
      None \<Rightarrow> get_pending (teardown_framed_finish ''s'' ?t) i = None
    | Some p \<Rightarrow> if pend_session p = ''s''
        then get_pending (teardown_framed_finish ''s'' ?t) i = None \<and> answered i (teardown_framed_finish ''s'' ?t)
          \<and> (streaming p \<longrightarrow> stream_over i (teardown_framed_finish ''s'' ?t))
        else get_pending (teardown_framed_finish ''s'' ?t) i = Some p"
    using teardown_leaves_nothing [OF _ _ refl, of ?t "''s''"] by blast
  from spec [OF this, of "''u1''"] show ?thesis by (simp add: ex_start_pending new_pending_def)
qed

end
