(* ===== verification/Http.thy ===== *)
theory Http
  imports Complex_Main Prelude
begin

text \<open>
  The vocabulary of the HTTP side of the bridge: JSON values as the code reads them, header
  lists, query strings, requests and responses.  Characters of a URL are bytes, so the query
  codec below is the \<open>application/x-www-form-urlencoded\<close> format that \<open>URLSearchParams\<close> parses
  and serialises, on byte strings.
\<close>

section \<open>JSON values\<close>

datatype json = JNull | JBool bool | JNum rat | JStr string | JArr "json list"
  | JObj "(string \<times> json) list"

text \<open>\<open>v.k\<close>: reading a property of \<open>null\<close> throws, a missing one is \<open>undefined\<close> (the inner
  \<open>None\<close>).\<close>

fun js_prop :: "json \<Rightarrow> string \<Rightarrow> json option option" where
  "js_prop JNull k = None"
| "js_prop (JObj m) k = Some (map_of m k)"
| "js_prop _ k = Some None"

text \<open>A value as a condition.\<close>

fun js_truthy :: "json option \<Rightarrow> bool" where
  "js_truthy None = False"
| "js_truthy (Some JNull) = False"
| "js_truthy (Some (JBool b)) = b"
| "js_truthy (Some (JNum r)) = (r \<noteq> 0)"
| "js_truthy (Some (JStr s)) = (s \<noteq> [])"
| "js_truthy (Some _) = True"

text \<open>\<open>v ?? d\<close> distinguishes only \<open>undefined\<close> and \<open>null\<close>.\<close>

fun nullish :: "json option \<Rightarrow> bool" where
  "nullish None = True"
| "nullish (Some JNull) = True"
| "nullish (Some _) = False"

text \<open>\<open>ToNumber\<close>, with \<open>None\<close> for NaN; \<open>strnum\<close> is the conversion of a string.\<close>

fun js_number :: "(string \<Rightarrow> rat option) \<Rightarrow> json \<Rightarrow> rat option" where
  "js_number strnum JNull = Some 0"
| "js_number strnum (JBool b) = Some (if b then 1 else 0)"
| "js_number strnum (JNum r) = Some r"
| "js_number strnum (JStr s) = strnum s"
| "js_number strnum (JArr []) = Some 0"
| "js_number strnum (JArr [JNum r]) = Some r"
| "js_number strnum (JArr [JStr s]) = strnum s"
| "js_number strnum (JArr [JNull]) = Some 0"
| "js_number strnum (JArr [JArr vs]) = js_number strnum (JArr vs)"
| "js_number strnum v = None"

text \<open>\<open>Number.isInteger\<close>.\<close>

definition is_integer :: "rat \<Rightarrow> bool" where
  "is_integer r = (of_int \<lfloor>r\<rfloor> = r)"

section \<open>Headers\<close>

text \<open>A \<open>Headers\<close> object: lower-case names, each once.\<close>

type_synonym header_list = "(string \<times> string) list"

definition hdr :: "header_list \<Rightarrow> string \<Rightarrow> string option" where
  "hdr hs name = map_of hs (to_lower name)"

definition hdr_set :: "string \<Rightarrow> string \<Rightarrow> header_list \<Rightarrow> header_list" where
  "hdr_set name v hs = map_set (to_lower name) v hs"

definition hdr_set_all :: "(string \<times> string) list \<Rightarrow> header_list \<Rightarrow> header_list" where
  "hdr_set_all kvs hs = foldl (\<lambda>hs kv. hdr_set (fst kv) (snd kv) hs) hs kvs"

section \<open>Query strings\<close>

definition hex_digit :: "nat \<Rightarrow> char" where
  "hex_digit n = (if n < 10 then char_of (48 + n) else char_of (55 + n))"

definition hex_value :: "char \<Rightarrow> nat option" where
  "hex_value c = (let n = (of_char c :: nat) in
     if 48 \<le> n \<and> n \<le> 57 then Some (n - 48)
     else if 65 \<le> n \<and> n \<le> 70 then Some (n - 55)
     else if 97 \<le> n \<and> n \<le> 102 then Some (n - 87) else None)"

definition url_plain :: "char \<Rightarrow> bool" where
  "url_plain c = (let n = (of_char c :: nat) in
     (48 \<le> n \<and> n \<le> 57) \<or> (65 \<le> n \<and> n \<le> 90) \<or> (97 \<le> n \<and> n \<le> 122) \<or> n \<in> {42, 45, 46, 95})"

definition url_encode_char :: "char \<Rightarrow> string" where
  "url_encode_char c =
     (if url_plain c then [c] else if c = CHR '' '' then ''+''
      else [CHR ''%'', hex_digit ((of_char c :: nat) div 16), hex_digit ((of_char c :: nat) mod 16)])"

definition url_encode :: "string \<Rightarrow> string" where
  "url_encode s = concat (map url_encode_char s)"

fun url_decode :: "string \<Rightarrow> string" where
  "url_decode [] = []"
| "url_decode (c # s) =
     (if c = CHR ''+'' then CHR '' '' # url_decode s
      else if c = CHR ''%'' then
        (case s of
           a # b # s' \<Rightarrow> (case (hex_value a, hex_value b) of
               (Some h, Some l) \<Rightarrow> char_of (16 * h + l) # url_decode s'
             | _ \<Rightarrow> c # url_decode s)
         | _ \<Rightarrow> c # url_decode s)
      else c # url_decode s)"

text \<open>One parameter: the name up to the first \<open>=\<close>, the rest is the value.\<close>

definition parse_param :: "string \<Rightarrow> string \<times> string" where
  "parse_param p = (case split_on (CHR ''='') p of
       [] \<Rightarrow> ([], [])
     | k # vs \<Rightarrow> (url_decode k, url_decode (join_on (CHR ''='') vs)))"

definition parse_query :: "string \<Rightarrow> (string \<times> string) list" where
  "parse_query q = map parse_param (filter (\<lambda>p. p \<noteq> []) (split_on (CHR ''&'') q))"

definition serialize_query :: "(string \<times> string) list \<Rightarrow> string" where
  "serialize_query ps =
     join_on (CHR ''&'') (map (\<lambda>kv. url_encode (fst kv) @ CHR ''='' # url_encode (snd kv)) ps)"

text \<open>\<open>params.get(k)\<close> and \<open>params.delete(k)\<close>.\<close>

definition params_get :: "(string \<times> string) list \<Rightarrow> string \<Rightarrow> string option" where
  "params_get ps k = map_of ps k"

definition params_delete :: "string \<Rightarrow> (string \<times> string) list \<Rightarrow> (string \<times> string) list" where
  "params_delete k ps = filter (\<lambda>kv. fst kv \<noteq> k) ps"

lemma params_get_delete [simp]: "params_get (params_delete k ps) k = None"
  by (auto simp: params_get_def params_delete_def map_of_eq_None_iff)

subsection \<open>The codec is a round trip\<close>

lemma nibbles: "(of_char c :: nat) div 16 < 16" "(of_char c :: nat) mod 16 < 16"
  using less_mult_imp_div_less [of "of_char c" 16 16] by simp_all

lemma hex_value_digit: "n < 16 \<Longrightarrow> hex_value (hex_digit n) = Some n"
  by (auto simp: hex_value_def hex_digit_def Let_def of_char_of)

lemma url_plain_safe:
  "url_plain c \<Longrightarrow> c \<noteq> CHR ''+'' \<and> c \<noteq> CHR ''%'' \<and> c \<noteq> CHR ''&'' \<and> c \<noteq> CHR ''=''"
  by (auto simp: url_plain_def Let_def)

lemma hex_digit_plain: "n < 16 \<Longrightarrow> url_plain (hex_digit n)"
  by (auto simp: url_plain_def hex_digit_def Let_def of_char_of)

lemma decode_encode_char: "url_decode (url_encode_char c @ s) = c # url_decode s"
proof -
  let ?n = "(of_char c :: nat)"
  have "char_of (16 * (?n div 16) + ?n mod 16) = c" by simp
  then show ?thesis
    using url_plain_safe [of c] nibbles [of c] by (auto simp: url_encode_char_def hex_value_digit)
qed

lemma decode_encode [simp]: "url_decode (url_encode s) = s"
  by (induction s) (simp_all add: url_encode_def decode_encode_char)

lemma encode_char_chars:
  "x \<in> set (url_encode_char c) \<Longrightarrow> x \<noteq> CHR ''&'' \<and> x \<noteq> CHR ''=''"
proof -
  have "url_plain (hex_digit (of_char c div 16))" "url_plain (hex_digit (of_char c mod 16))"
    using nibbles [of c] by (simp_all add: hex_digit_plain)
  then show "x \<in> set (url_encode_char c) \<Longrightarrow> x \<noteq> CHR ''&'' \<and> x \<noteq> CHR ''=''"
    using url_plain_safe by (auto simp: url_encode_char_def split: if_splits)
qed

lemma encode_chars: "CHR ''&'' \<notin> set (url_encode s)" "CHR ''='' \<notin> set (url_encode s)"
  using encode_char_chars by (auto simp: url_encode_def)

lemma split_join:
  "ws \<noteq> [] \<Longrightarrow> \<forall>w \<in> set ws. c \<notin> set w \<Longrightarrow> split_on c (join_on c ws) = ws"
  by (induction c ws rule: join_on.induct) (simp_all add: split_on_notin split_on_append)

lemma parse_param_encoded:
  "parse_param (url_encode k @ CHR ''='' # url_encode v) = (k, v)"
  by (simp add: parse_param_def split_on_append encode_chars split_on_notin)

lemma parse_serialize: "parse_query (serialize_query ps) = ps"
proof (cases "ps = []")
  case True
  then show ?thesis by (simp add: parse_query_def serialize_query_def)
next
  case False
  let ?ws = "map (\<lambda>kv. url_encode (fst kv) @ CHR ''='' # url_encode (snd kv)) ps"
  have "split_on (CHR ''&'') (serialize_query ps) = ?ws"
    unfolding serialize_query_def using False by (intro split_join) (auto simp: encode_chars)
  then show ?thesis
    by (simp add: parse_query_def filter_map o_def parse_param_encoded map_idI)
qed

lemma serialize_nonempty: "serialize_query ps \<noteq> [] \<longleftrightarrow> ps \<noteq> []"
  using parse_serialize [of ps] by (cases ps) (auto simp: parse_query_def serialize_query_def)

section \<open>Requests and responses\<close>

record http_request =
  req_method :: string
  req_path :: string
  req_query :: string
  req_headers :: header_list
  req_body :: buffer

text \<open>\<open>url.search\<close>: empty, or the query with its question mark.\<close>

definition url_search :: "http_request \<Rightarrow> string" where
  "url_search req = (if req_query req = [] then [] else CHR ''?'' # req_query req)"

definition search_param :: "http_request \<Rightarrow> string \<Rightarrow> string option" where
  "search_param req k = params_get (parse_query (req_query req)) k"

datatype response_body = NoBody | JsonBody json | BytesBody buffer | StreamBody string

record response =
  resp_status :: nat
  resp_headers :: header_list
  resp_body :: response_body

text \<open>Path patterns: the segments of an absolute path.\<close>

definition segments :: "string \<Rightarrow> string list" where
  "segments p = split_on (CHR ''/'') p"

end
