(* ===== verification/Bridge_Auth.thy ===== *)
theory Bridge_Auth
  imports Http
begin

text \<open>
  Configuration and authentication of the bridge: config.ts (\<open>parseBridgeConfig\<close>), auth.ts (the
  static secret and session-scoped tokens) and tunnel/tunnel-auth.ts (tunnel tokens).  HMAC
  verification, base64url decoding and \<open>JSON.parse\<close> are the fields of \<open>platform\<close>; the clock is
  an argument in milliseconds.  Every \<open>try ... catch\<close> that answers ``invalid'' is a branch here.
\<close>

section \<open>Configuration\<close>

record bridge_config =
  cfg_httpPort :: rat
  cfg_wsPort :: rat
  cfg_apiSecret :: string
  cfg_jwtSecret :: string
  cfg_jwtExpiry :: rat
  cfg_dockerHosts :: json
  cfg_logLevel :: string
  cfg_maxSessions :: rat
  cfg_maxConcurrent :: rat
  cfg_sessionIdleTimeout :: rat
  cfg_ephemeralGracePeriod :: rat

fun num_or :: "json option \<Rightarrow> rat \<Rightarrow> rat" where
  "num_or (Some (JNum r)) d = r"
| "num_or _ d = d"

fun str_or :: "json option \<Rightarrow> string \<Rightarrow> string" where
  "str_or (Some (JStr s)) d = s"
| "str_or _ d = d"

text \<open>A field of an object; arrays have none of the names used here.\<close>

fun field :: "json \<Rightarrow> string \<Rightarrow> json option" where
  "field (JObj m) k = map_of m k"
| "field _ k = None"

text \<open>\<open>!v || typeof v !== 'object'\<close>, negated, and \<open>Object.keys(v).length === 0\<close>.\<close>

fun is_object :: "json option \<Rightarrow> bool" where
  "is_object (Some (JObj m)) = True"
| "is_object (Some (JArr vs)) = True"
| "is_object _ = False"

fun no_keys :: "json option \<Rightarrow> bool" where
  "no_keys (Some (JObj m)) = (m = [])"
| "no_keys (Some (JArr vs)) = (vs = [])"
| "no_keys _ = True"

definition parseBridgeConfig :: "json \<Rightarrow> string + bridge_config" where
  "parseBridgeConfig p =
     (if \<not> is_object (Some p) then Inl ''Invalid bridge config payload: expected an object''
      else
        let secret = str_or (field p ''bridgeApiSecret'') []; hosts = field p ''dockerHosts'' in
        if secret = [] then Inl ''bridgeApiSecret must be set''
        else if \<not> is_object hosts \<or> no_keys hosts
        then Inl ''dockerHosts must define at least one host''
        else Inr \<lparr>cfg_httpPort = num_or (field p ''httpPort'') 3100,
                  cfg_wsPort = num_or (field p ''wsPort'') 3101,
                  cfg_apiSecret = secret,
                  cfg_jwtSecret = str_or (field p ''bridgeJwtSecret'') [],
                  cfg_jwtExpiry = num_or (field p ''bridgeJwtExpiry'') 3600,
                  cfg_dockerHosts = the hosts,
                  cfg_logLevel = str_or (field p ''logLevel'') ''info'',
                  cfg_maxSessions = num_or (field p ''maxSessions'') 200,
                  cfg_maxConcurrent = num_or (field p ''maxConcurrentPerSession'') 100,
                  cfg_sessionIdleTimeout = num_or (field p ''sessionIdleTimeout'') 1800000,
                  cfg_ephemeralGracePeriod = num_or (field p ''ephemeralGracePeriod'') 5000\<rparr>)"

section \<open>The static secret\<close>

text \<open>The UTF-8 bytes of a string of code points below 256.\<close>

definition utf8 :: "string \<Rightarrow> nat list" where
  "utf8 s = concat (map (\<lambda>c. let n = (of_char c :: nat) in
     if n < 128 then [n] else [192 + n div 64, 128 + n mod 64]) s)"

text \<open>\<open>timingSafeEqual\<close> throws on buffers of different length.\<close>

definition timingSafeEqualStrings :: "string \<Rightarrow> string \<Rightarrow> string + bool" where
  "timingSafeEqualStrings a b =
     (if length a \<noteq> length b then Inr False
      else if length (utf8 a) \<noteq> length (utf8 b)
      then Inl ''Input buffers must have the same byte length''
      else Inr (utf8 a = utf8 b))"

definition authenticate :: "header_list \<Rightarrow> string \<Rightarrow> string + bool" where
  "authenticate hs secret = (case hdr hs ''Authorization'' of
       None \<Rightarrow> Inr False
     | Some a \<Rightarrow>
         if \<not> starts_with a ''Bearer '' then Inr False
         else (let token = drop 7 a in
           if token = [] then Inr False else timingSafeEqualStrings token secret))"

definition bearer :: "header_list \<Rightarrow> string option" where
  "bearer hs = (case hdr hs ''Authorization'' of
       Some a \<Rightarrow> if starts_with a ''Bearer '' \<and> drop 7 a \<noteq> [] then Some (drop 7 a) else None
     | None \<Rightarrow> None)"

text \<open>\<open>extractBearerToken(req, url?)\<close>: the query parameter counts only when the URL is given.\<close>

definition extractBearerToken :: "http_request \<Rightarrow> bool \<Rightarrow> string option" where
  "extractBearerToken req with_url = (case bearer (req_headers req) of
       Some token \<Rightarrow> Some token
     | None \<Rightarrow>
         if with_url \<and> truthy (search_param req ''token'') then search_param req ''token'' else None)"

section \<open>Signed tokens\<close>

record platform =
  hmac_verify :: "string \<Rightarrow> string \<Rightarrow> buffer \<Rightarrow> bool"   \<comment> \<open>secret, input, signature\<close>
  b64url :: "string \<Rightarrow> buffer"
  parse_json :: "buffer \<Rightarrow> json option"
  strnum :: "string \<Rightarrow> rat option"

text \<open>The payload of a token with three parts and a valid signature; \<open>None\<close> covers every
  return of ``invalid'' and every exception up to the parse.\<close>

definition signed_payload :: "platform \<Rightarrow> string \<Rightarrow> string \<Rightarrow> json option" where
  "signed_payload pf secret token = (case split_on (CHR ''.'') token of
       [h, p, sig] \<Rightarrow>
         if hmac_verify pf secret (h @ CHR ''.'' # p) (b64url pf sig)
         then parse_json pf (b64url pf p) else None
     | _ \<Rightarrow> None)"

text \<open>\<open>payload.exp <= now\<close> in whole seconds; a comparison with NaN is false.\<close>

definition expired :: "platform \<Rightarrow> int \<Rightarrow> json option \<Rightarrow> bool" where
  "expired pf now v = (case v of
       None \<Rightarrow> False
     | Some e \<Rightarrow> (case js_number (strnum pf) e of
           None \<Rightarrow> False
         | Some r \<Rightarrow> r \<le> of_int (now div 1000)))"

datatype session_token_result = TokenInvalid | TokenValid "json option" string

definition authenticateSessionToken ::
    "platform \<Rightarrow> int \<Rightarrow> string \<Rightarrow> string \<Rightarrow> string \<Rightarrow> session_token_result" where
  "authenticateSessionToken pf now token sid secret = (case signed_payload pf secret token of
       None \<Rightarrow> TokenInvalid
     | Some payload \<Rightarrow> (case js_prop payload ''exp'' of
           None \<Rightarrow> TokenInvalid
         | Some e \<Rightarrow>
             if expired pf now e then TokenInvalid
             else if field payload ''aud'' \<noteq> Some (JStr ''docker-bridge'') then TokenInvalid
             else if field payload ''sid'' \<noteq> Some (JStr sid) then TokenInvalid
             else TokenValid (field payload ''uid'') sid))"

definition token_ok :: "platform \<Rightarrow> int \<Rightarrow> string \<Rightarrow> string \<Rightarrow> string \<Rightarrow> bool" where
  "token_ok pf now token sid secret = (authenticateSessionToken pf now token sid secret \<noteq> TokenInvalid)"

section \<open>Tunnel tokens\<close>

definition extractCookie :: "header_list \<Rightarrow> string \<Rightarrow> string option" where
  "extractCookie hs name = (case hdr hs ''Cookie'' of
       None \<Rightarrow> None
     | Some c \<Rightarrow>
         if c = [] then None
         else (case find (\<lambda>part. hd (split_on (CHR ''='') (trim part)) = name)
                      (split_on (CHR '';'') c) of
             None \<Rightarrow> None
           | Some part \<Rightarrow> Some (join_on (CHR ''='') (tl (split_on (CHR ''='') (trim part))))))"

text \<open>The public id of a valid tunnel token, as the JSON value the payload carries.\<close>

definition validateTunnelJWT :: "platform \<Rightarrow> int \<Rightarrow> string \<Rightarrow> string \<Rightarrow> json option" where
  "validateTunnelJWT pf now token secret = (case signed_payload pf secret token of
       None \<Rightarrow> None
     | Some payload \<Rightarrow> (case js_prop payload ''exp'' of
           None \<Rightarrow> None
         | Some e \<Rightarrow>
             if expired pf now e then None
             else if \<not> js_truthy (field payload ''public_id'') then None
             else field payload ''public_id''))"

definition try_token :: "platform \<Rightarrow> int \<Rightarrow> string \<Rightarrow> string option \<Rightarrow> json option" where
  "try_token pf now secret token =
     (if truthy token then validateTunnelJWT pf now (the token) secret else None)"

definition authenticateTunnel ::
    "platform \<Rightarrow> int \<Rightarrow> bridge_config \<Rightarrow> header_list \<Rightarrow> string option \<Rightarrow> json option" where
  "authenticateTunnel pf now cfg hs queryToken =
     (if cfg_jwtSecret cfg = [] then None
      else (case try_token pf now (cfg_jwtSecret cfg) (hdr hs ''X-Tunnel-Token'') of
          Some r \<Rightarrow> Some r
        | None \<Rightarrow> (case try_token pf now (cfg_jwtSecret cfg) (extractCookie hs ''tunnel_auth'') of
              Some r \<Rightarrow> Some r
            | None \<Rightarrow> try_token pf now (cfg_jwtSecret cfg) queryToken)))"

section \<open>What authentication accepts\<close>

lemma utf8_Cons: "utf8 (c # s) =
    (let n = (of_char c :: nat) in if n < 128 then [n] else [192 + n div 64, 128 + n mod 64]) @ utf8 s"
  by (simp add: utf8_def)

lemma utf8_inj: "length a = length b \<Longrightarrow> utf8 a = utf8 b \<Longrightarrow> a = b"
proof (induction a b rule: list_induct2)
  case (Cons x xs y ys)
  let ?x = "(of_char x :: nat)" and ?y = "(of_char y :: nat)"
  have "?x = ?y \<and> utf8 xs = utf8 ys"
  proof (cases "?x < 128 \<or> ?y < 128")
    case True
    then show ?thesis using Cons.prems by (auto simp: utf8_Cons Let_def split: if_splits)
  next
    case False
    with Cons.prems have "?x div 64 = ?y div 64" "?x mod 64 = ?y mod 64" "utf8 xs = utf8 ys"
      by (simp_all add: utf8_Cons Let_def)
    then show ?thesis by (metis div_mult_mod_eq)
  qed
  with Cons.IH show ?case by simp
qed simp

lemma timingSafe_true: "timingSafeEqualStrings a b = Inr True \<longleftrightarrow> a = b"
  by (auto simp: timingSafeEqualStrings_def intro: utf8_inj)

lemma signed_payload_SomeD:
  "signed_payload pf secret token = Some v \<Longrightarrow>
     \<exists>h p sig. split_on (CHR ''.'') token = [h, p, sig]
        \<and> hmac_verify pf secret (h @ CHR ''.'' # p) (b64url pf sig)
        \<and> parse_json pf (b64url pf p) = Some v"
  by (auto simp: signed_payload_def split: list.splits if_splits)

text \<open>Header names the routes look up.\<close>

lemma to_lower_names [simp]:
  "to_lower ''Authorization'' = ''authorization''"
  "to_lower ''Cookie'' = ''cookie''"
  "to_lower ''Upgrade'' = ''upgrade''"
  "to_lower ''X-Tunnel-Token'' = ''x-tunnel-token''"
  "to_lower ''X-Tunnel-Public-Id'' = ''x-tunnel-public-id''"
  "to_lower ''Sec-WebSocket-Protocol'' = ''sec-websocket-protocol''"
  by code_simp+

text \<open>\<open>authenticate\<close> accepts exactly the requests whose \<open>Authorization\<close> header is
  \<open>Bearer\<close> followed by the configured secret, and it accepts nothing when no secret is set.\<close>

theorem authenticate_exact:
  "authenticate hs secret = Inr True \<longleftrightarrow>
     secret \<noteq> [] \<and> hdr hs ''Authorization'' = Some (''Bearer '' @ secret)"
proof (cases "hdr hs ''Authorization''")
  case (Some a)
  show ?thesis
  proof (cases "starts_with a ''Bearer ''")
    case True
    then obtain r where "a = ''Bearer '' @ r" by (auto simp only: starts_with_iff)
    then show ?thesis
      using Some timingSafe_true [of r secret] True by (auto simp: authenticate_def Let_def)
  next
    case False
    then show ?thesis
      using Some starts_with_append [of "''Bearer ''" secret] by (auto simp: authenticate_def)
  qed
qed (simp add: authenticate_def)

text \<open>A session token opens exactly one session: it must have three parts, a signature over
  the first two that verifies under the secret, and a payload that is not expired, is addressed
  to the bridge and names the session; a payload without \<open>exp\<close> never expires.\<close>

theorem session_token_exact:
  "authenticateSessionToken pf now token sid secret = TokenValid uid i \<longleftrightarrow>
     (\<exists>h p sig payload m. split_on (CHR ''.'') token = [h, p, sig]
        \<and> hmac_verify pf secret (h @ CHR ''.'' # p) (b64url pf sig)
        \<and> parse_json pf (b64url pf p) = Some payload \<and> payload = JObj m
        \<and> \<not> expired pf now (map_of m ''exp'')
        \<and> map_of m ''aud'' = Some (JStr ''docker-bridge'')
        \<and> map_of m ''sid'' = Some (JStr sid) \<and> uid = map_of m ''uid'' \<and> i = sid)"
  (is "_ \<longleftrightarrow> ?rhs")
proof
  assume "authenticateSessionToken pf now token sid secret = TokenValid uid i"
  then obtain v where v: "signed_payload pf secret token = Some v"
    and r: "\<exists>m. v = JObj m \<and> \<not> expired pf now (map_of m ''exp'')
      \<and> map_of m ''aud'' = Some (JStr ''docker-bridge'')
      \<and> map_of m ''sid'' = Some (JStr sid) \<and> uid = map_of m ''uid'' \<and> i = sid"
    by (cases "signed_payload pf secret token"; cases "the (signed_payload pf secret token)")
       (auto simp: authenticateSessionToken_def split: if_splits)
  from signed_payload_SomeD [OF v] r show ?rhs by blast
next
  assume ?rhs
  then show "authenticateSessionToken pf now token sid secret = TokenValid uid i"
    by (auto simp: authenticateSessionToken_def signed_payload_def)
qed

text \<open>The comparison of the secret is not total: a token of as many characters as the secret
  but more bytes makes \<open>timingSafeEqual\<close> throw, so the request ends with 500 instead of 401.\<close>

theorem authenticate_throws:
  "authenticate [(''authorization'', ''Bearer '' @ [CHR 0xE9])] ''e''
     = Inl ''Input buffers must have the same byte length''"
  by (simp add: authenticate_def hdr_def starts_with_def timingSafeEqualStrings_def utf8_def)

end
