(* ===== verification/Bridge_Traffic.thy ===== *)
theory Bridge_Traffic
  imports Tunnel_Lifecycle Bridge_Auth
begin

text \<open>
  Requests that are proxied into a container: tunnel/tunnel-traffic.ts (\<open>handleTunnelTraffic\<close>)
  and the \<open>/sessions/:id/proxy\<close> route of http-server.ts.  A route that waits for the tunnel
  handler answers with what it waits for; \<open>settled_response\<close> turns the effect that settles the
  wait into the HTTP response.
\<close>

section \<open>Responses\<close>

definition CORS_HEADERS :: "(string \<times> string) list" where
  "CORS_HEADERS = [(''Access-Control-Allow-Origin'', ''*''),
     (''Access-Control-Allow-Methods'', ''GET, POST, DELETE, OPTIONS''),
     (''Access-Control-Allow-Headers'', ''Content-Type, Authorization'')]"

definition HOP_BY_HOP_HEADERS :: "string list" where
  "HOP_BY_HOP_HEADERS = [''connection'', ''keep-alive'', ''proxy-authenticate'',
     ''proxy-authorization'', ''te'', ''trailers'', ''transfer-encoding'', ''upgrade'']"

text \<open>\<open>jsonResponse\<close> of http-server.ts carries the CORS headers, the one of tunnel-traffic.ts
  does not.\<close>

definition jsonResponse :: "json \<Rightarrow> nat \<Rightarrow> response" where
  "jsonResponse v status = \<lparr>resp_status = status,
     resp_headers = hdr_set_all ((''Content-Type'', ''application/json'') # CORS_HEADERS) [],
     resp_body = JsonBody v\<rparr>"

definition tunnel_json :: "json \<Rightarrow> nat \<Rightarrow> response" where
  "tunnel_json v status = \<lparr>resp_status = status,
     resp_headers = hdr_set ''Content-Type'' ''application/json'' [], resp_body = JsonBody v\<rparr>"

definition err_json :: "string \<Rightarrow> json" where
  "err_json e = JObj [(''error'', JStr e)]"

definition err_msg_json :: "string \<Rightarrow> string \<Rightarrow> json" where
  "err_msg_json e m = JObj [(''error'', JStr e), (''message'', JStr m)]"

text \<open>The parameters a request draws: stream id, call number, session id, public ids, and the
  identity of the sentinel client.\<close>

record fresh =
  f_uuid :: string
  f_call :: nat
  f_newId :: string
  f_draw :: "nat \<Rightarrow> string"
  f_client :: nat

record ws_data =
  wsd_publicId :: string
  wsd_forwardPath :: string
  wsd_session :: string
  wsd_streamId :: string
  wsd_subprotocol :: "string option"

datatype docker_request =
    TestConnection | GetHostResources
  | PullImage json "json option"
  | ListContainersByLabels json | ListContainers
  | CreateContainer json
  | GetContainerInspect string | GetContainerStats string
  | GetContainerLogs string "int option"
  | IsContainerRunning string
  | StartContainer string | StopContainer string | RestartContainer string
  | RemoveContainer string "json option"
  | ExecInContainer string json "json option" "json option"

text \<open>\<open>IllTyped\<close>: a field of the JSON body does not have the type the code declares for it; the
  code passes such a value on unchecked.\<close>

datatype route_answer =
    Answer response
  | UpgradeWS ws_data
  | AwaitCreate nat
  | AwaitTeardown string
  | AwaitResize string
  | AwaitDirect string "string option"        \<comment> \<open>stream id, query token for the cookie\<close>
  | AwaitStream string string client          \<comment> \<open>stream id, session, sentinel\<close>
  | AwaitDocker string docker_request nat     \<comment> \<open>host, adapter call, status on success\<close>
  | IllTyped

section \<open>Forwarding headers and bodies\<close>

definition forwarded :: "string \<Rightarrow> bool" where
  "forwarded name = (let lower = to_lower name in
     lower \<notin> set HOP_BY_HOP_HEADERS \<and> \<not> starts_with lower ''x-tunnel-'')"

definition forward_headers :: "header_list \<Rightarrow> headers" where
  "forward_headers hs = filter (\<lambda>kv. forwarded (fst kv)) hs"

definition response_headers :: "headers \<Rightarrow> header_list" where
  "response_headers hs =
     hdr_set_all (filter (\<lambda>kv. to_lower (fst kv) \<notin> set HOP_BY_HOP_HEADERS) hs) []"

definition forward_body :: "http_request \<Rightarrow> buffer option" where
  "forward_body req =
     (if req_method req \<noteq> ''GET'' \<and> req_method req \<noteq> ''HEAD'' \<and> req_body req \<noteq> []
      then Some (req_body req) else None)"

definition wants_websocket :: "http_request \<Rightarrow> bool" where
  "wants_websocket req = (map_option to_lower (hdr (req_headers req) ''Upgrade'') = Some ''websocket'')"

section \<open>Tunnel traffic\<close>

definition forwardPath :: "http_request \<Rightarrow> string" where
  "forwardPath req = (let p = drop 9 (req_path req) in if p = [] then ''/'' else p)"

text \<open>Authentication by header or cookie first, then by the query token; the second component
  tells that the query token was the source.\<close>

definition tunnel_auth ::
    "platform \<Rightarrow> int \<Rightarrow> bridge_config \<Rightarrow> http_request \<Rightarrow> json option \<times> bool" where
  "tunnel_auth pf now cfg req =
     (case authenticateTunnel pf now cfg (req_headers req) None of
        Some v \<Rightarrow> (Some v, False)
      | None \<Rightarrow>
          if truthy (search_param req ''token'')
          then (let a = authenticateTunnel pf now cfg (req_headers req) (search_param req ''token'')
                in (a, a \<noteq> None))
          else (None, False))"

text \<open>The immediate answer of the direct proxy becomes a response at once.\<close>

definition direct_answer :: "proxy_answer \<Rightarrow> string option \<Rightarrow> route_answer" where
  "direct_answer a cookie = (case a of
       ProxyThrows msg \<Rightarrow> Answer (tunnel_json (err_msg_json ''proxy_error'' msg) 502)
     | TooManyRequests \<Rightarrow> Answer
         \<lparr>resp_status = 429,
          resp_headers = (case cookie of
              None \<Rightarrow> response_headers [(''Retry-After'', ''1'')]
            | Some tok \<Rightarrow> hdr_set ''Set-Cookie''
                (''tunnel_auth='' @ tok @ ''; Path=/-/tunnel/; HttpOnly; SameSite=None; Secure'')
                (response_headers [(''Retry-After'', ''1'')])),
          resp_body = JsonBody (err_json ''too_many_requests'')\<rparr>
     | Promised i \<Rightarrow> AwaitDirect i cookie)"

definition handleTunnelTraffic ::
    "platform \<Rightarrow> bridge_config \<Rightarrow> fresh \<Rightarrow> http_request \<Rightarrow> tunnel \<Rightarrow> tunnel \<times> route_answer" where
  "handleTunnelTraffic pf cfg fr req t =
     (let pid = hdr (req_headers req) ''X-Tunnel-Public-Id'' in
      if \<not> truthy pid then
        (t, Answer (tunnel_json (err_msg_json ''missing_headers''
               ''X-Tunnel-Public-Id header is required'') 400))
      else (case tunnel_auth pf (clock t) cfg req of
         (None, _) \<Rightarrow>
           (t, Answer (tunnel_json (err_msg_json ''unauthorized'' ''Tunnel token missing or expired.'') 401))
       | (Some v, viaQuery) \<Rightarrow>
           if v \<noteq> JStr (the pid) then
             (t, Answer (tunnel_json (err_msg_json ''unauthorized'' ''Token tunnel mismatch'') 401))
           else (case sm_getByPublicId (manager t) (the pid) of
               None \<Rightarrow>
                 (t, Answer (tunnel_json (err_msg_json ''session_unavailable''
                        ''No active tunnel session.'') 502))
             | Some s \<Rightarrow>
                 if \<not> agentReady s then
                   (t, Answer (tunnel_json (err_msg_json ''agent_not_ready''
                          ''Tunnel agent is starting up.'') 503))
                 else if wants_websocket req then
                   (t, UpgradeWS \<lparr>wsd_publicId = the pid,
                         wsd_forwardPath = forwardPath req @ url_search req,
                         wsd_session = session_id s, wsd_streamId = f_uuid fr,
                         wsd_subprotocol = hdr (req_headers req) ''Sec-WebSocket-Protocol''\<rparr>)
                 else
                   (let (t1, a) = proxyHTTPDirect (session_id s) (f_uuid fr) (req_method req)
                          (forwardPath req @ url_search req) (forward_headers (req_headers req))
                          (forward_body req) t
                    in (t1, direct_answer a (if viaQuery then search_param req ''token'' else None))))))"

section \<open>The session proxy\<close>

text \<open>\<open>/sessions/:id/proxy\<close>, with the rest of the path: \<open>None\<close> when the group did not match.\<close>

definition proxy_match :: "string \<Rightarrow> (string \<times> string) option" where
  "proxy_match path = (case segments path of
       a # b # c # d # rest \<Rightarrow>
         if a = [] \<and> b = ''sessions'' \<and> c \<noteq> [] \<and> d = ''proxy''
         then Some (c, if rest = [] then [] else CHR ''/'' # join_on (CHR ''/'') rest) else None
     | _ \<Rightarrow> None)"

definition session_forward_path :: "http_request \<Rightarrow> string \<Rightarrow> string" where
  "session_forward_path req rest =
     (let q = serialize_query (params_delete ''token'' (parse_query (req_query req)))
      in (if rest = [] then ''/'' else rest) @ (if q = [] then [] else CHR ''?'' # q))"

text \<open>The token: \<open>Authorization: Bearer\<close>, else \<open>?token=\<close>.\<close>

definition proxy_token :: "http_request \<Rightarrow> string option" where
  "proxy_token req = (case bearer (req_headers req) of
       Some token \<Rightarrow> Some token | None \<Rightarrow> search_param req ''token'')"

definition session_token_valid :: "platform \<Rightarrow> int \<Rightarrow> bridge_config \<Rightarrow> string option \<Rightarrow> string \<Rightarrow> bool" where
  "session_token_valid pf now cfg token sid =
     (truthy token \<and> cfg_apiSecret cfg \<noteq> [] \<and> token_ok pf now (the token) sid (cfg_apiSecret cfg))"

text \<open>Headers of a streamed response, and of the synthetic 429, whose stream is already closed.\<close>

definition stream_response :: "nat \<Rightarrow> headers \<Rightarrow> response_body \<Rightarrow> response" where
  "stream_response status hs b = \<lparr>resp_status = status,
     resp_headers = hdr_set_all CORS_HEADERS (response_headers hs), resp_body = b\<rparr>"

text \<open>A sentinel client keeps the ephemeral session alive while the request runs; it is detached
  when the proxy throws at once (the 429 branch detaches it through \<open>onClose\<close>).\<close>

definition proxy_stream ::
    "fresh \<Rightarrow> string \<Rightarrow> http_request \<Rightarrow> string \<Rightarrow> tunnel \<Rightarrow> tunnel \<times> route_answer" where
  "proxy_stream fr sid req path t =
     (let sentinel = Sentinel (f_client fr);
          t1 = attach sid sentinel t
      in case proxyHTTPStreaming sid (f_uuid fr) (req_method req) path
                (forward_headers (req_headers req)) (forward_body req) (Some sentinel) t1 of
           (t2, ProxyThrows msg) \<Rightarrow>
             (detachOnce sid sentinel t2, Answer (jsonResponse (err_msg_json ''proxy_error'' msg) 502))
         | (t2, TooManyRequests) \<Rightarrow>
             (t2, Answer (stream_response 429 [(''Retry-After'', ''1'')] (BytesBody [])))
         | (t2, Promised i) \<Rightarrow> (t2, AwaitStream i sid sentinel))"

definition session_proxy ::
    "platform \<Rightarrow> bridge_config \<Rightarrow> fresh \<Rightarrow> string \<Rightarrow> string \<Rightarrow> http_request \<Rightarrow> tunnel \<Rightarrow> tunnel \<times> route_answer" where
  "session_proxy pf cfg fr sid rest req t =
     (if \<not> session_token_valid pf (clock t) cfg (proxy_token req) sid then
        (t, Answer (jsonResponse (err_json ''Unauthorized'') 401))
      else (case sm_get (manager t) sid of
          None \<Rightarrow> (t, Answer (jsonResponse (err_json ''Session not found'') 404))
        | Some s \<Rightarrow>
            if protocol s \<noteq> Framed \<or> \<not> agentReady s then
              (t, Answer (jsonResponse (err_msg_json ''session_unavailable''
                     ''No active framed session.'') 502))
            else if wants_websocket req then
              (t, UpgradeWS \<lparr>wsd_publicId = session_id s,
                    wsd_forwardPath = session_forward_path req rest,
                    wsd_session = session_id s, wsd_streamId = f_uuid fr,
                    wsd_subprotocol = hdr (req_headers req) ''Sec-WebSocket-Protocol''\<rparr>)
            else proxy_stream fr (session_id s) req (session_forward_path req rest) t))"

end
