(* ===== verification/Bridge_Routes.thy ===== *)
theory Bridge_Routes
  imports Bridge_Traffic
begin

text \<open>
  The HTTP server of the bridge: http-server.ts (\<open>handleRoute\<close>, the error handling of
  \<open>fetch\<close>, and the WebSocket callbacks of proxied upgrades).  An exception of a route is the
  response \<open>fetch\<close> makes of it.  The routes are evaluated on one state of the handler; the waits
  for HMAC verification and for the request body inside a route are not interleaved with other
  events.
\<close>

section \<open>Sessions as JSON\<close>

fun mode_name :: "session_mode \<Rightarrow> string" where
  "mode_name Ephemeral = ''ephemeral''" | "mode_name Persistent = ''persistent''"

fun state_name :: "session_state \<Rightarrow> string" where
  "state_name Created = ''created''" | "state_name Active = ''active''" | "state_name Closing = ''closing''"

fun protocol_name :: "tunnel_protocol \<Rightarrow> string" where
  "protocol_name Framed = ''framed''" | "protocol_name Raw = ''raw''"

definition str_or_null :: "string option \<Rightarrow> json" where
  "str_or_null x = (case x of None \<Rightarrow> JNull | Some s \<Rightarrow> JStr s)"

definition sessionToJSON :: "tunnel_session \<Rightarrow> json" where
  "sessionToJSON s = JObj
     [(''id'', JStr (session_id s)), (''container_id'', JStr (containerId s)),
      (''host_id'', JStr (hostId s)), (''mode'', JStr (mode_name (mode s))),
      (''state'', JStr (state_name (state s))), (''protocol'', JStr (protocol_name (protocol s))),
      (''tty'', JBool (tty s)), (''command'', JArr (map JStr (command s))),
      (''agent_ready'', JBool (agentReady s)), (''public_id'', str_or_null (publicId s)),
      (''label'', JStr (label s)), (''app_id'', str_or_null (appId s)),
      (''client_count'', JNum (of_nat (length (clients s)))),
      (''created_at'', JNum (of_int (createdAt s))),
      (''last_activity_at'', JNum (of_int (lastActivityAt s)))]"

section \<open>Exceptions\<close>

text \<open>\<open>fetch\<close> answers an exception with its \<open>statusCode\<close> or 500.\<close>

definition error_response :: "http_error \<Rightarrow> response" where
  "error_response e = (case e of HttpError code msg \<Rightarrow>
     jsonResponse (err_json msg) (case code of None \<Rightarrow> 500 | Some c \<Rightarrow> c))"

definition throws :: "string \<Rightarrow> route_answer" where
  "throws msg = Answer (error_response (HttpError None msg))"

text \<open>\<open>await req.json()\<close> followed by a property access: neither a parse error nor \<open>null\<close> gives
  a body.\<close>

definition req_json :: "platform \<Rightarrow> http_request \<Rightarrow> json option" where
  "req_json pf req = (case parse_json pf (req_body req) of
       Some JNull \<Rightarrow> None | v \<Rightarrow> v)"

section \<open>Resize and delete\<close>

definition resize_match :: "string \<Rightarrow> string option" where
  "resize_match path = (case segments path of
       [a, b, c, d] \<Rightarrow> if a = [] \<and> b = ''sessions'' \<and> c \<noteq> [] \<and> d = ''resize'' then Some c else None
     | _ \<Rightarrow> None)"

definition session_match :: "string \<Rightarrow> string option" where
  "session_match path = (case segments path of
       [a, b, c] \<Rightarrow> if a = [] \<and> b = ''sessions'' \<and> c \<noteq> [] then Some c else None
     | _ \<Rightarrow> None)"

definition js_int :: "json option \<Rightarrow> int option" where
  "js_int v = (case v of
       Some (JNum r) \<Rightarrow> if is_integer r \<and> r \<ge> 1 then Some \<lfloor>r\<rfloor> else None
     | _ \<Rightarrow> None)"

definition resize_route :: "platform \<Rightarrow> string \<Rightarrow> http_request \<Rightarrow> tunnel \<Rightarrow> tunnel \<times> route_answer" where
  "resize_route pf sid req t = (case sm_get (manager t) sid of
       None \<Rightarrow> (t, Answer (jsonResponse (err_json ''Session not found'') 404))
     | Some s \<Rightarrow>
         if protocol s \<noteq> Raw then
           (t, Answer (jsonResponse (err_json ''Resize only supported for raw protocol sessions'') 400))
         else (case req_json pf req of
             None \<Rightarrow> (t, throws ''invalid JSON body'')
           | Some body \<Rightarrow> (case (js_int (field body ''cols''), js_int (field body ''rows'')) of
                 (Some cols, Some rows) \<Rightarrow> (case resize sid cols rows t of
                     (t1, Some err) \<Rightarrow> (t1, throws err)
                   | (t1, None) \<Rightarrow> (t1, AwaitResize sid))
               | _ \<Rightarrow> (t, Answer (jsonResponse (err_json ''cols and rows must be positive integers'') 400)))))"

definition delete_route :: "string \<Rightarrow> tunnel \<Rightarrow> tunnel \<times> route_answer" where
  "delete_route sid t = (case sm_get (manager t) sid of
       None \<Rightarrow> (t, Answer (jsonResponse (err_json ''Session not found'') 404))
     | Some s \<Rightarrow> (teardown sid t, AwaitTeardown sid))"

text \<open>The static secret, else a bearer token scoped to the session.\<close>

definition session_authorized ::
    "platform \<Rightarrow> int \<Rightarrow> bridge_config \<Rightarrow> http_request \<Rightarrow> string \<Rightarrow> string + bool" where
  "session_authorized pf now cfg req sid = (case authenticate (req_headers req) (cfg_apiSecret cfg) of
       Inl e \<Rightarrow> Inl e
     | Inr True \<Rightarrow> Inr True
     | Inr False \<Rightarrow> Inr (session_token_valid pf now cfg (extractBearerToken req False) sid))"

definition session_route ::
    "platform \<Rightarrow> bridge_config \<Rightarrow> http_request \<Rightarrow> tunnel \<Rightarrow> (tunnel \<times> route_answer) option" where
  "session_route pf cfg req t =
     (let target = (if req_method req = ''POST'' then resize_match (req_path req)
                    else if req_method req = ''DELETE'' then session_match (req_path req) else None) in
      case target of
        None \<Rightarrow> None
      | Some sid \<Rightarrow> Some (case session_authorized pf (clock t) cfg req sid of
            Inl e \<Rightarrow> (t, throws e)
          | Inr False \<Rightarrow> (t, Answer (jsonResponse (err_json ''Unauthorized'') 401))
          | Inr True \<Rightarrow>
              if req_method req = ''POST'' then resize_route pf sid req t else delete_route sid t))"

section \<open>Creating a session\<close>

text \<open>A string, a boolean, or one of two names, with the default for \<open>undefined\<close> and \<open>null\<close>;
  \<open>None\<close> when the value has another type.\<close>

definition opt_string :: "json option \<Rightarrow> string option option" where
  "opt_string v = (if nullish v then Some None
     else (case v of Some (JStr s) \<Rightarrow> Some (Some s) | _ \<Rightarrow> None))"

definition bool_default :: "bool \<Rightarrow> json option \<Rightarrow> bool option" where
  "bool_default d v = (if nullish v then Some d
     else (case v of Some (JBool b) \<Rightarrow> Some b | _ \<Rightarrow> None))"

definition choice :: "(string \<times> 'a) list \<Rightarrow> 'a \<Rightarrow> json option \<Rightarrow> 'a option" where
  "choice names d v = (if nullish v then Some d
     else (case v of Some (JStr s) \<Rightarrow> map_of names s | _ \<Rightarrow> None))"

fun json_string :: "json \<Rightarrow> string option" where
  "json_string (JStr s) = Some s" | "json_string _ = None"

fun json_strings :: "json list \<Rightarrow> string list option" where
  "json_strings [] = Some []"
| "json_strings (v # vs) = (case (json_string v, json_strings vs) of
       (Some s, Some ss) \<Rightarrow> Some (s # ss) | _ \<Rightarrow> None)"

text \<open>\<open>body.options?.k\<close>.\<close>

definition option_field :: "json \<Rightarrow> string \<Rightarrow> json option" where
  "option_field body k = (case field body ''options'' of None \<Rightarrow> None | Some o1 \<Rightarrow> field o1 k)"

text \<open>The validation: the message of the 400 response, if any.\<close>

definition create_invalid :: "json \<Rightarrow> string option" where
  "create_invalid body =
     (if \<not> js_truthy (field body ''host_id'') then Some ''host_id is required''
      else if \<not> js_truthy (field body ''container_id'') then Some ''container_id is required''
      else if (case field body ''command'' of Some (JArr (v # vs)) \<Rightarrow> False | _ \<Rightarrow> True)
      then Some ''command array is required''
      else if \<not> js_truthy (field body ''label'') then Some ''label is required''
      else if option_field body ''public'' = Some (JBool True) \<and> \<not> js_truthy (option_field body ''app_id'')
      then Some ''app_id is required for public sessions''
      else if option_field body ''durable'' = Some (JBool True) \<and> \<not> js_truthy (option_field body ''public_id'')
      then Some ''public_id is required for durable sessions''
      else if option_field body ''durable'' = Some (JBool True) \<and> \<not> js_truthy (option_field body ''app_id'')
      then Some ''app_id is required for durable sessions''
      else None)"

text \<open>The arguments of \<open>tunnelHandler.create\<close>: the defaults of mode, protocol and tty, and the
  options, which are dropped when \<open>body.options\<close> is falsy.\<close>

definition create_opts :: "json \<Rightarrow> create_options option" where
  "create_opts body =
     (let opts = (if js_truthy (field body ''options'') then option_field body else (\<lambda>_. None)) in
      case (choice [(''ephemeral'', Ephemeral), (''persistent'', Persistent)] Persistent (field body ''mode''),
            choice [(''framed'', Framed), (''raw'', Raw)] Framed (field body ''protocol'')) of
        (Some md, Some prot) \<Rightarrow>
          (case (bool_default (prot = Raw) (field body ''tty''), opt_string (opts ''app_id''),
                 bool_default False (opts ''public''), opt_string (opts ''public_id''),
                 bool_default False (opts ''durable'')) of
             (Some tt, Some app, Some pub, Some pid, Some dur) \<Rightarrow>
               Some \<lparr>opt_mode = md, opt_protocol = prot, opt_tty = tt, opt_appId = app,
                     opt_isPublic = pub, opt_desiredPublicId = pid, opt_durable = dur\<rparr>
           | _ \<Rightarrow> None)
      | _ \<Rightarrow> None)"

definition create_route :: "platform \<Rightarrow> fresh \<Rightarrow> http_request \<Rightarrow> tunnel \<Rightarrow> tunnel \<times> route_answer" where
  "create_route pf fr req t = (case req_json pf req of
       None \<Rightarrow> (t, throws ''invalid JSON body'')
     | Some body \<Rightarrow> (case create_invalid body of
           Some msg \<Rightarrow> (t, Answer (jsonResponse (err_json msg) 400))
         | None \<Rightarrow>
             (case (json_string (the (field body ''host_id'')),
                    json_string (the (field body ''container_id'')),
                    (case field body ''command'' of Some (JArr vs) \<Rightarrow> json_strings vs | _ \<Rightarrow> None),
                    json_string (the (field body ''label'')), create_opts body) of
                (Some host, Some cid, Some cmd, Some lbl, Some opts) \<Rightarrow>
                  (tunnel_create (f_call fr) (f_newId fr) (f_draw fr) host cid cmd lbl opts t,
                   AwaitCreate (f_call fr))
              | _ \<Rightarrow> (t, IllTyped))))"

section \<open>Reading sessions\<close>

definition list_route :: "http_request \<Rightarrow> tunnel \<Rightarrow> response" where
  "list_route req t = jsonResponse (JArr (map sessionToJSON
     (sm_list (manager t) (search_param req ''container_id'') (search_param req ''app_id'')))) 200"

definition get_route :: "string \<Rightarrow> tunnel \<Rightarrow> response" where
  "get_route sid t = (case sm_get (manager t) sid of
       None \<Rightarrow> jsonResponse (err_json ''Session not found'') 404
     | Some s \<Rightarrow> jsonResponse (sessionToJSON s) 200)"

end
