(* ===== verification/Bridge_Server.thy ===== *)
theory Bridge_Server
  imports Bridge_Routes
begin

text \<open>
  The Docker routes and the dispatch of http-server.ts, the responses that settle a waiting
  route, and the callbacks of proxied WebSockets.  The calls of the Docker adapter
  (docker/adapter.ts) are values; their results come back as JSON.
\<close>

section \<open>Docker routes\<close>

text \<open>\<open>/docker/:host\<close> with the optional rest, and \<open>containers/:id\<close> inside the rest.\<close>

definition docker_match :: "string \<Rightarrow> (string \<times> string) option" where
  "docker_match path = (case segments path of
       a # b # c # rest \<Rightarrow>
         if a = [] \<and> b = ''docker'' \<and> c \<noteq> [] then Some (c, join_on (CHR ''/'') rest) else None
     | _ \<Rightarrow> None)"

definition container_match :: "string \<Rightarrow> (string \<times> string) option" where
  "container_match subpath = (case segments subpath of
       a # b # rest \<Rightarrow>
         if a = ''containers'' \<and> b \<noteq> [] then Some (b, join_on (CHR ''/'') rest) else None
     | _ \<Rightarrow> None)"

text \<open>\<open>parseInt(s, 10)\<close>, with \<open>None\<close> for NaN.\<close>

definition is_digit :: "char \<Rightarrow> bool" where
  "is_digit c = (let n = (of_char c :: nat) in 48 \<le> n \<and> n \<le> 57)"

definition digits_value :: "string \<Rightarrow> nat" where
  "digits_value ds = foldl (\<lambda>n c. 10 * n + ((of_char c :: nat) - 48)) 0 ds"

definition parse_int :: "string \<Rightarrow> int option" where
  "parse_int s =
     (let s1 = dropWhile is_ws s;
          neg = (take 1 s1 = ''-'');
          s2 = (if take 1 s1 = ''-'' \<or> take 1 s1 = ''+'' then drop 1 s1 else s1);
          ds = takeWhile is_digit s2
      in if ds = [] then None else Some (if neg then - int (digits_value ds) else int (digits_value ds)))"

datatype docker_plan = Call docker_request nat | Bad string | BodyThrows | NoRoute

text \<open>The container sub-routes.\<close>

definition container_plan :: "platform \<Rightarrow> http_request \<Rightarrow> string \<Rightarrow> string \<Rightarrow> docker_plan" where
  "container_plan pf req cid action =
     (let m = req_method req in
      if m = ''GET'' \<and> action = ''inspect'' then Call (GetContainerInspect cid) 200
      else if m = ''GET'' \<and> action = ''stats'' then Call (GetContainerStats cid) 200
      else if m = ''GET'' \<and> action = ''logs'' then
        Call (GetContainerLogs cid (parse_int (case search_param req ''tail'' of
                None \<Rightarrow> ''100'' | Some s \<Rightarrow> s))) 200
      else if m = ''GET'' \<and> action = ''running'' then Call (IsContainerRunning cid) 200
      else if m = ''POST'' \<and> action = ''start'' then Call (StartContainer cid) 200
      else if m = ''POST'' \<and> action = ''stop'' then Call (StopContainer cid) 200
      else if m = ''POST'' \<and> action = ''restart'' then Call (RestartContainer cid) 200
      else if m = ''POST'' \<and> action = ''remove'' then
        (case parse_json pf (req_body req) of
           None \<Rightarrow> Call (RemoveContainer cid None) 200
         | Some JNull \<Rightarrow> BodyThrows
         | Some body \<Rightarrow> Call (RemoveContainer cid (field body ''force'')) 200)
      else if m = ''POST'' \<and> action = ''exec'' then
        (case req_json pf req of
           None \<Rightarrow> BodyThrows
         | Some body \<Rightarrow> (case field body ''command'' of
               Some (JArr vs) \<Rightarrow>
                 Call (ExecInContainer cid (JArr vs) (field body ''env'') (field body ''user'')) 200
             | _ \<Rightarrow> Bad ''command is required''))
      else NoRoute)"

text \<open>The routes of a host.\<close>

definition docker_plan_of :: "platform \<Rightarrow> http_request \<Rightarrow> string \<Rightarrow> docker_plan" where
  "docker_plan_of pf req subpath =
     (let m = req_method req in
      if m = ''GET'' \<and> subpath = ''test'' then Call TestConnection 200
      else if m = ''GET'' \<and> subpath = ''resources'' then Call GetHostResources 200
      else if m = ''POST'' \<and> subpath = ''images/pull'' then
        (case req_json pf req of
           None \<Rightarrow> BodyThrows
         | Some body \<Rightarrow>
             if \<not> js_truthy (field body ''image'') then Bad ''image is required''
             else Call (PullImage (the (field body ''image'')) (field body ''registry_auth'')) 200)
      else if m = ''GET'' \<and> subpath = ''containers'' then
        (if truthy (search_param req ''labels'') then
           (case parse_json pf (map of_char (the (search_param req ''labels''))) of
              None \<Rightarrow> Bad ''Invalid labels JSON''
            | Some labels \<Rightarrow> Call (ListContainersByLabels labels) 200)
         else Call ListContainers 200)
      else if m = ''POST'' \<and> subpath = ''containers'' then
        (case req_json pf req of
           None \<Rightarrow> BodyThrows
         | Some body \<Rightarrow>
             if \<not> js_truthy (field body ''image'') then Bad ''image is required''
             else Call (CreateContainer body) 201)
      else (case container_match subpath of
          Some (cid, action) \<Rightarrow> container_plan pf req cid action
        | None \<Rightarrow> NoRoute))"

definition docker_route :: "platform \<Rightarrow> http_request \<Rightarrow> tunnel \<Rightarrow> tunnel \<times> route_answer" where
  "docker_route pf req t = (case docker_match (req_path req) of
       None \<Rightarrow> (t, Answer (jsonResponse (err_json ''Not found'') 404))
     | Some (host, subpath) \<Rightarrow> (case pool_get (pool t) host of
           (p, Inl err) \<Rightarrow> (t\<lparr>pool := p\<rparr>, throws err)
         | (p, Inr a) \<Rightarrow> (t\<lparr>pool := p\<rparr>,
             (case docker_plan_of pf req subpath of
                Call c status \<Rightarrow> AwaitDocker host c status
              | Bad msg \<Rightarrow> Answer (jsonResponse (err_json msg) 400)
              | BodyThrows \<Rightarrow> throws ''invalid JSON body''
              | NoRoute \<Rightarrow> Answer (jsonResponse (err_json ''Not found'') 404)))))"

section \<open>The dispatch\<close>

definition health_response :: "int \<Rightarrow> tunnel \<Rightarrow> response" where
  "health_response startedAt t = jsonResponse (JObj
     [(''status'', JStr ''ok''),
      (''hosts'', JArr (map JStr (pool_hostIds (pool t)))),
      (''sessions'', JObj [(''total'', JNum (of_nat (length (sm_list (manager t) None None))))]),
      (''uptime_seconds'', JNum (of_int ((clock t - startedAt) div 1000)))]) 200"

definition secret_route ::
    "platform \<Rightarrow> fresh \<Rightarrow> http_request \<Rightarrow> tunnel \<Rightarrow> tunnel \<times> route_answer" where
  "secret_route pf fr req t =
     (if req_method req = ''POST'' \<and> req_path req = ''/sessions/tunnel'' then create_route pf fr req t
      else if req_method req = ''GET'' \<and> req_path req = ''/sessions'' then (t, Answer (list_route req t))
      else (case (if req_method req = ''GET'' then session_match (req_path req) else None) of
          Some sid \<Rightarrow> (t, Answer (get_route sid t))
        | None \<Rightarrow> docker_route pf req t))"

definition handleRoute ::
    "platform \<Rightarrow> bridge_config \<Rightarrow> int \<Rightarrow> fresh \<Rightarrow> http_request \<Rightarrow> tunnel \<Rightarrow> tunnel \<times> route_answer" where
  "handleRoute pf cfg startedAt fr req t =
     (if req_method req = ''OPTIONS'' then
        (t, Answer \<lparr>resp_status = 204, resp_headers = hdr_set_all CORS_HEADERS [], resp_body = NoBody\<rparr>)
      else if req_method req = ''GET'' \<and> req_path req = ''/health'' then
        (t, Answer (health_response startedAt t))
      else if starts_with (req_path req) ''/-/tunnel/'' then handleTunnelTraffic pf cfg fr req t
      else (case session_route pf cfg req t of
          Some r \<Rightarrow> r
        | None \<Rightarrow> (case proxy_match (req_path req) of
              Some (sid, rest) \<Rightarrow> session_proxy pf cfg fr sid rest req t
            | None \<Rightarrow> (case authenticate (req_headers req) (cfg_apiSecret cfg) of
                  Inl e \<Rightarrow> (t, throws e)
                | Inr False \<Rightarrow> (t, Answer (jsonResponse (err_json ''Unauthorized'') 401))
                | Inr True \<Rightarrow> secret_route pf fr req t))))"

section \<open>Settled waits\<close>

text \<open>The response of a route that waits for a promise of the tunnel handler, from the effect
  that settles it.\<close>

definition direct_response :: "nat \<Rightarrow> headers \<Rightarrow> buffer option \<Rightarrow> string option \<Rightarrow> response" where
  "direct_response status hs body cookie = \<lparr>resp_status = status,
     resp_headers = (case cookie of
         None \<Rightarrow> response_headers hs
       | Some tok \<Rightarrow> hdr_set ''Set-Cookie''
           (''tunnel_auth='' @ tok @ ''; Path=/-/tunnel/; HttpOnly; SameSite=None; Secure'')
           (response_headers hs)),
     resp_body = (case body of None \<Rightarrow> NoBody | Some b \<Rightarrow> BytesBody b)\<rparr>"

fun settled_response :: "tunnel \<Rightarrow> route_answer \<Rightarrow> effect \<Rightarrow> response option" where
  "settled_response t (AwaitCreate c) (CallOk c' sid) = (if c = c'
     then map_option (\<lambda>s. jsonResponse (sessionToJSON s) 201) (obj t sid) else None)"
| "settled_response t (AwaitCreate c) (CallFail c' e) = (if c = c' then Some (error_response e) else None)"
| "settled_response t (AwaitDirect i cookie) (Resolve i' status hs body) =
     (if i = i' then Some (direct_response status hs body cookie) else None)"
| "settled_response t (AwaitDirect i cookie) (Reject i' msg) =
     (if i = i' then Some (tunnel_json (err_msg_json ''proxy_error'' msg) 502) else None)"
| "settled_response t (AwaitStream i sid c) (ResolveMeta i' status hs) =
     (if i = i' then Some (stream_response status hs (StreamBody i)) else None)"
| "settled_response t (AwaitStream i sid c) (Reject i' msg) =
     (if i = i' then Some (jsonResponse (err_msg_json ''proxy_error'' msg) 502) else None)"
| "settled_response t _ _ = None"

text \<open>The end of a teardown or a resize, and the result of a Docker call.\<close>

definition teardown_response :: response where
  "teardown_response = \<lparr>resp_status = 204, resp_headers = hdr_set_all CORS_HEADERS [], resp_body = NoBody\<rparr>"

definition resize_response :: "string \<Rightarrow> tunnel \<Rightarrow> response option" where
  "resize_response sid t = map_option (\<lambda>s. jsonResponse (sessionToJSON s) 200) (obj t sid)"

fun docker_result :: "docker_request \<Rightarrow> json \<Rightarrow> json" where
  "docker_result (PullImage _ _) v = JObj [(''success'', JBool True)]"
| "docker_result (StartContainer _) v = JObj [(''success'', JBool True)]"
| "docker_result (StopContainer _) v = JObj [(''success'', JBool True)]"
| "docker_result (RestartContainer _) v = JObj [(''success'', JBool True)]"
| "docker_result (RemoveContainer _ _) v = JObj [(''success'', JBool True)]"
| "docker_result (IsContainerRunning _) v = JObj [(''running'', v)]"
| "docker_result _ v = v"

definition docker_response :: "docker_request \<Rightarrow> nat \<Rightarrow> http_error + json \<Rightarrow> response" where
  "docker_response c status r = (case r of
       Inl e \<Rightarrow> error_response e | Inr v \<Rightarrow> jsonResponse (docker_result c v) status)"

section \<open>Proxied WebSockets\<close>

text \<open>\<open>fetch\<close> upgrades the connection when a route asks for it; the callbacks of the socket
  forward its life to the handler.\<close>

definition ws_open :: "ws_data \<Rightarrow> client \<Rightarrow> tunnel \<Rightarrow> tunnel" where
  "ws_open d ws t =
     (case proxyWSUpgrade (wsd_session d) (wsd_streamId d)
             (WSUpgradeMsg (Some (wsd_streamId d)) (wsd_forwardPath d)
                (if truthy (wsd_subprotocol d)
                 then [(''Sec-WebSocket-Protocol'', the (wsd_subprotocol d))] else []))
             ws (Some ws) t of
        (t1, Some err) \<Rightarrow> emit (WsClose ws 1011 ''WS upgrade proxy failed'') t1
      | (t1, None) \<Rightarrow> t1)"

definition ws_message :: "ws_data \<Rightarrow> buffer \<Rightarrow> tunnel \<Rightarrow> tunnel" where
  "ws_message d data t = fst (forwardWSData (wsd_session d) (wsd_streamId d) data t)"

definition ws_close :: "ws_data \<Rightarrow> client \<Rightarrow> tunnel \<Rightarrow> tunnel" where
  "ws_close d ws t = detach (wsd_session d) ws t"

definition upgrade_failed :: response where
  "upgrade_failed = jsonResponse (err_json ''WebSocket upgrade failed'') 426"

end
