(* ===== verification/Bridge_Ws.thy ===== *)
theory Bridge_Ws
  imports Bridge_Server Tunnel_System
begin

text \<open>
  The WebSocket server of attached clients (ws-server.ts) and the control messages of the parent
  process (index.ts).  \<open>pendingRequestBodies\<close> is a map keyed by session id beside the state of
  the handler; \<open>json\<close> is \<open>JSON.parse\<close> of a client message.
\<close>

section \<open>The upgrade request\<close>

definition attach_match :: "string \<Rightarrow> string option" where
  "attach_match path = (case segments path of
       [a, b, c, d] \<Rightarrow> if a = [] \<and> b = ''sessions'' \<and> c \<noteq> [] \<and> d = ''attach'' then Some c else None
     | _ \<Rightarrow> None)"

text \<open>\<open>new Request(url, { headers: { Authorization: 'Bearer ' + token } })\<close>: surrounding white
  space of the value is removed; NUL and line breaks inside are refused with an exception.\<close>

definition http_ws :: "char \<Rightarrow> bool" where
  "http_ws c = ((of_char c :: nat) \<in> {9, 10, 13, 32})"

definition header_value :: "string \<Rightarrow> string option" where
  "header_value v =
     (let v1 = rev (dropWhile http_ws (rev (dropWhile http_ws v)))
      in if list_ex (\<lambda>c. (of_char c :: nat) \<in> {0, 10, 13}) v1 then None else Some v1)"

text \<open>Session token first, then the static secret; \<open>None\<close> when the check throws.\<close>

definition ws_authenticated ::
    "platform \<Rightarrow> int \<Rightarrow> bridge_config \<Rightarrow> http_request \<Rightarrow> string \<Rightarrow> bool option" where
  "ws_authenticated pf now cfg req sid = (case extractBearerToken req True of
       None \<Rightarrow> Some False
     | Some token \<Rightarrow>
         if session_token_valid pf now cfg (Some token) sid then Some True
         else (case header_value (''Bearer '' @ token) of
             None \<Rightarrow> None
           | Some v \<Rightarrow> (case authenticate [(''authorization'', v)] (cfg_apiSecret cfg) of
                 Inl e \<Rightarrow> None | Inr b \<Rightarrow> Some b)))"

datatype ws_fetch_answer = WsAnswer response | WsUpgrade string | WsThrows

definition ws_fetch :: "platform \<Rightarrow> bridge_config \<Rightarrow> http_request \<Rightarrow> tunnel \<Rightarrow> ws_fetch_answer" where
  "ws_fetch pf cfg req t = (case attach_match (req_path req) of
       None \<Rightarrow> WsAnswer (tunnel_json (err_json ''Not found'') 404)
     | Some sid \<Rightarrow> (case ws_authenticated pf (clock t) cfg req sid of
           None \<Rightarrow> WsThrows
         | Some False \<Rightarrow> WsAnswer (tunnel_json (err_json ''Unauthorized'') 401)
         | Some True \<Rightarrow> (case sm_get (manager t) sid of
               None \<Rightarrow> WsAnswer (tunnel_json (err_json ''Session not found'') 404)
             | Some s \<Rightarrow> WsUpgrade (session_id s))))"

section \<open>Client messages\<close>

record ws_server =
  handler :: tunnel
  pendingRequestBodies :: "string \<rightharpoonup> string \<times> tunnel_message"

text \<open>A message: whether it arrived as text, and its bytes.\<close>

record ws_msg =
  is_text :: bool
  msg_bytes :: buffer

definition isParsableJSON :: "buffer \<Rightarrow> bool" where
  "isParsableJSON b = (case b of [] \<Rightarrow> False | c # _ \<Rightarrow> c = 0x7b)"

definition attach_open :: "string \<Rightarrow> client \<Rightarrow> ws_server \<Rightarrow> ws_server" where
  "attach_open sid ws w = (let t = handler w in case sm_get (manager t) sid of
       None \<Rightarrow> w\<lparr>handler := emit (WsClose ws 1008 ''Session not found'') t\<rparr>
     | Some s \<Rightarrow> w\<lparr>handler := attach sid ws (touch sid t)\<rparr>)"

text \<open>The envelope of a text message; other types and envelopes without a stream id are
  ignored.\<close>

fun envelope_message ::
    "string \<Rightarrow> client \<Rightarrow> buffer \<Rightarrow> tunnel_message \<Rightarrow> ws_server \<Rightarrow> ws_server" where
  "envelope_message sid ws d (HTTPRequestMsg (Some i) meth path hs len follows) w =
     (if i = [] then w
      else if follows
      then w\<lparr>pendingRequestBodies :=
             (pendingRequestBodies w)(sid \<mapsto> (i, HTTPRequestMsg (Some i) meth path hs len follows))\<rparr>
      else w\<lparr>handler := fst (proxyHTTPRequest sid i
               (HTTPRequestMsg (Some i) meth path hs len follows) None (handler w))\<rparr>)"
| "envelope_message sid ws d (WSUpgradeMsg (Some i) path hs) w =
     (if i = [] then w
      else w\<lparr>handler := fst (proxyWSUpgrade sid i (WSUpgradeMsg (Some i) path hs) ws None (handler w))\<rparr>)"
| "envelope_message sid ws d (WSDataMsg (Some i) follows) w =
     (if i = [] then w else w\<lparr>handler := fst (forwardWSData sid i d (handler w))\<rparr>)"
| "envelope_message sid ws d _ w = w"

definition framed_message ::
    "(buffer \<Rightarrow> string + tunnel_message) \<Rightarrow> string \<Rightarrow> client \<Rightarrow> ws_msg \<Rightarrow> ws_server \<Rightarrow> ws_server" where
  "framed_message json sid ws m w =
     (let hasPending = (pendingRequestBodies w sid \<noteq> None);
          isBinary = (\<not> is_text m \<and> (hasPending \<or> \<not> isParsableJSON (msg_bytes m)))
      in if isBinary then
           (case pendingRequestBodies w sid of
              Some (i, envelope) \<Rightarrow>
                w\<lparr>pendingRequestBodies := (pendingRequestBodies w)(sid := None),
                  handler := fst (proxyHTTPRequest sid i envelope (Some (msg_bytes m)) (handler w))\<rparr>
            | None \<Rightarrow> w)
         else (case json (msg_bytes m) of
              Inl e \<Rightarrow> w
            | Inr envelope \<Rightarrow> envelope_message sid ws (msg_bytes m) envelope w))"

definition attach_message ::
    "(buffer \<Rightarrow> string + tunnel_message) \<Rightarrow> string \<Rightarrow> client \<Rightarrow> ws_msg \<Rightarrow> ws_server \<Rightarrow> ws_server" where
  "attach_message json sid ws m w = (case sm_get (manager (handler w)) sid of
       None \<Rightarrow> w
     | Some s \<Rightarrow>
         let w1 = w\<lparr>handler := touch sid (handler w)\<rparr> in
         if protocol s = Raw
         then w1\<lparr>handler := fst (writeToExec sid (msg_bytes m) (handler w1))\<rparr>
         else framed_message json sid ws m w1)"

definition attach_close :: "string \<Rightarrow> client \<Rightarrow> ws_server \<Rightarrow> ws_server" where
  "attach_close sid ws w = (case sm_get (manager (handler w)) sid of
       None \<Rightarrow> w
     | Some s \<Rightarrow> w\<lparr>handler := detach sid ws (handler w)\<rparr>)"

section \<open>The parent process\<close>

text \<open>Replacing the host table, and the shutdown: every listed session is torn down.\<close>

definition update_hosts :: "(string, host_entry) js_map \<Rightarrow> tunnel \<Rightarrow> tunnel" where
  "update_hosts hs t = t\<lparr>pool := pool_updateHosts (pool t) hs\<rparr>"

definition shutdown_bridge :: "tunnel \<Rightarrow> tunnel" where
  "shutdown_bridge t = foldl (\<lambda>t s. teardown (session_id s) t) t (sm_list (manager t) None None)"

section \<open>All events of the bridge\<close>

datatype bridge_event =
    Handler tunnel_event
  | HttpRequest fresh http_request
  | WsOpen ws_data client
  | WsMessage ws_data buffer
  | WsClosed ws_data client
  | AttachOpen string client
  | AttachMessage string client ws_msg
  | AttachClose string client
  | UpdateHosts "(string, host_entry) js_map"
  | Shutdown

fun bridge_step ::
    "platform \<Rightarrow> bridge_config \<Rightarrow> (buffer \<Rightarrow> string + tunnel_message) \<Rightarrow> ws_server \<Rightarrow> bridge_event
       \<Rightarrow> ws_server" where
  "bridge_step pf cfg json w (Handler ev) = w\<lparr>handler := tunnel_step json (handler w) ev\<rparr>"
| "bridge_step pf cfg json w (HttpRequest fr req) =
     w\<lparr>handler := fst (handleRoute pf cfg 0 fr req (handler w))\<rparr>"
| "bridge_step pf cfg json w (WsOpen d ws) = w\<lparr>handler := ws_open d ws (handler w)\<rparr>"
| "bridge_step pf cfg json w (WsMessage d b) = w\<lparr>handler := ws_message d b (handler w)\<rparr>"
| "bridge_step pf cfg json w (WsClosed d ws) = w\<lparr>handler := ws_close d ws (handler w)\<rparr>"
| "bridge_step pf cfg json w (AttachOpen sid ws) = attach_open sid ws w"
| "bridge_step pf cfg json w (AttachMessage sid ws m) = attach_message json sid ws m w"
| "bridge_step pf cfg json w (AttachClose sid ws) = attach_close sid ws w"
| "bridge_step pf cfg json w (UpdateHosts hs) = w\<lparr>handler := update_hosts hs (handler w)\<rparr>"
| "bridge_step pf cfg json w Shutdown = w\<lparr>handler := shutdown_bridge (handler w)\<rparr>"

end
