(* ===== verification/Bridge_Refinement.thy ===== *)
theory Bridge_Refinement
  imports Bridge_Ws Tunnel_Settlement Tunnel_Wellformed
begin

text \<open>
  The servers drive the tunnel handler only through its operations: every event of the bridge is
  a regular run of handler events.  The invariants of the handler therefore hold for the whole
  bridge (\<open>Bridge_Safety.bridge_runs_safe\<close>).
\<close>

section \<open>Runs of the handler\<close>

definition handler_run :: "(buffer \<Rightarrow> string + tunnel_message) \<Rightarrow> tunnel \<Rightarrow> tunnel \<Rightarrow> bool" where
  "handler_run json t t' \<longleftrightarrow> (\<exists>evs. regular_run json t evs \<and> t' = foldl (tunnel_step json) t evs)"

lemma regular_run_append:
  "regular_run json t (xs @ ys) \<longleftrightarrow>
     regular_run json t xs \<and> regular_run json (foldl (tunnel_step json) t xs) ys"
  by (induction xs arbitrary: t) auto

lemma run_refl [simp, intro]: "handler_run json t t"
  unfolding handler_run_def by (rule exI [of _ "[]"]) simp

lemma run_step: "regular t ev \<Longrightarrow> tunnel_step json t ev = t' \<Longrightarrow> handler_run json t t'"
  unfolding handler_run_def by (rule exI [of _ "[ev]"]) simp

lemma run_trans: "handler_run json t u \<Longrightarrow> handler_run json u v \<Longrightarrow> handler_run json t v"
  unfolding handler_run_def by (metis foldl_append regular_run_append)

lemma run_foldl:
  "(\<And>t x. x \<in> set xs \<Longrightarrow> handler_run json t (f t x)) \<Longrightarrow> handler_run json t (foldl f t xs)"
  by (induction xs arbitrary: t) (auto intro: run_trans)

text \<open>The single operations.\<close>

named_theorems run_rules "handler operations are runs"

lemma run_touch [run_rules]: "handler_run json t (touch sid t)"
  by (rule run_step [where ev = "ETouch sid"]) simp_all

lemma run_attach [run_rules]: "handler_run json t (attach sid ws t)"
  by (rule run_step [where ev = "EAttach sid ws"]) simp_all

lemma run_detach [run_rules]: "handler_run json t (detach sid ws t)"
  by (rule run_step [where ev = "EDetach sid ws"]) simp_all

lemma run_detachOnce [run_rules]: "handler_run json t (detachOnce sid c t)"
  by (rule run_step [where ev = "EDetachOnce sid c"]) simp_all

lemma run_teardown [run_rules]: "handler_run json t (teardown sid t)"
  by (rule run_step [where ev = "ETeardown sid"]) simp_all

lemma run_wsClose [run_rules]: "handler_run json t (emit (WsClose c code reason) t)"
  by (rule run_step [where ev = "EWsClose c code reason"]) simp_all

lemma run_proxyHTTPRequest [run_rules]: "handler_run json t (fst (proxyHTTPRequest sid i req body t))"
  by (rule run_step [where ev = "EProxyHTTP sid i req body"]) simp_all

lemma run_proxyWSUpgrade [run_rules]: "handler_run json t (fst (proxyWSUpgrade sid i msg ws onfail t))"
  by (rule run_step [where ev = "EProxyUpgrade sid i msg ws onfail"]) simp_all

lemma run_forwardWSData [run_rules]: "handler_run json t (fst (forwardWSData sid i d t))"
  by (rule run_step [where ev = "EForwardData sid i d"]) simp_all

lemma run_writeToExec [run_rules]: "handler_run json t (fst (writeToExec sid d t))"
  by (rule run_step [where ev = "EWriteExec sid d"]) simp_all

lemma run_resize [run_rules]: "handler_run json t (fst (resize sid cols rows t))"
  by (rule run_step [where ev = "EResize sid cols rows"]) simp_all

lemma run_adapter [run_rules]: "handler_run json t (t\<lparr>pool := fst (pool_get (pool t) host)\<rparr>)"
  by (rule run_step [where ev = "EAdapter host"]) simp_all

lemma run_updateHosts [run_rules]: "map_wf hs \<Longrightarrow> handler_run json t (update_hosts hs t)"
  by (rule run_step [where ev = "EUpdateHosts hs"]) (simp_all add: update_hosts_def)

lemma run_create [run_rules]:
  "fresh_id (manager t) newId \<Longrightarrow> handler_run json t (tunnel_create call newId draw host cid cmd lbl opts t)"
  by (rule run_step [where ev = "ECreate call newId draw host cid cmd lbl opts"]) simp_all

lemma run_direct [run_rules]:
  "requests t uuid = None \<Longrightarrow> handler_run json t (fst (proxyHTTPDirect sid uuid meth path hs body t))"
  by (rule run_step [where ev = "EProxyDirect sid uuid meth path hs body"]) simp_all

lemma run_streaming [run_rules]:
  "requests t uuid = None \<Longrightarrow>
     handler_run json t (fst (proxyHTTPStreaming sid uuid meth path hs body onClose t))"
  by (rule run_step [where ev = "EProxyStreaming sid uuid meth path hs body onClose"]) simp_all

section \<open>The routes\<close>

lemma requests_attach [simp]: "requests (attach sid ws t) = requests t"
  by (auto simp: attach_def startRawExec_def use_adapter_def attach_failed_def clear_grace_def touch_def
      upd_obj_def emit_def await_def clearTimeout_def Let_def split: option.splits sum.splits prod.splits)

lemma run_tunnel_traffic:
  assumes "requests t (f_uuid fr) = None"
  shows "handler_run json t (fst (handleTunnelTraffic pf cfg fr req t))"
  using assms
  by (auto simp: handleTunnelTraffic_def Let_def case_prod_unfold intro: run_rules split: option.splits)

lemma run_proxy_stream:
  assumes "requests t (f_uuid fr) = None"
  shows "handler_run json t (fst (proxy_stream fr sid req path t))"
proof -
  let ?c = "Sentinel (f_client fr)"
  let ?u = "attach sid ?c t"
  let ?p = "proxyHTTPStreaming sid (f_uuid fr) (req_method req) path (forward_headers (req_headers req))
              (forward_body req) (Some ?c) ?u"
  have "handler_run json ?u (fst ?p)" by (rule run_streaming) (simp add: assms)
  from run_trans [OF run_attach this] have r: "handler_run json t (fst ?p)" .
  show ?thesis
  proof (cases "snd ?p")
    case (ProxyThrows msg)
    then have "fst (proxy_stream fr sid req path t) = detachOnce sid ?c (fst ?p)"
      by (simp add: proxy_stream_def Let_def case_prod_unfold)
    then show ?thesis using run_trans [OF r run_detachOnce] by simp
  qed (use r in \<open>simp_all add: proxy_stream_def Let_def case_prod_unfold\<close>)
qed

lemma run_session_proxy:
  "requests t (f_uuid fr) = None \<Longrightarrow> handler_run json t (fst (session_proxy pf cfg fr sid rest req t))"
  by (auto simp: session_proxy_def intro: run_proxy_stream split: option.splits)

lemma run_session_route:
  assumes "session_route pf cfg req t = Some r"
  shows "handler_run json t (fst r)"
proof -
  have "handler_run json t (fst (resize_route pf sid req t))" for sid
    by (auto simp: resize_route_def split: option.splits prod.splits) (metis fst_conv run_resize)+
  moreover have "handler_run json t (fst (delete_route sid t))" for sid
    by (auto simp: delete_route_def intro: run_rules split: option.splits)
  ultimately show ?thesis
    using assms by (auto simp: session_route_def Let_def split: option.splits sum.splits bool.splits if_splits)
qed

lemma run_secret_route:
  assumes "fresh_id (manager t) (f_newId fr)"
  shows "handler_run json t (fst (secret_route pf fr req t))"
proof -
  have "handler_run json t (fst (create_route pf fr req t))"
    using assms by (auto simp: create_route_def intro: run_rules split: option.splits)
  moreover have "handler_run json t (fst (docker_route pf req t))"
    using run_adapter [of json t]
    by (auto simp: docker_route_def split: option.splits prod.splits sum.splits) (metis fst_conv)+
  ultimately show ?thesis by (auto simp: secret_route_def split: option.splits)
qed

lemma run_handleRoute:
  assumes "requests t (f_uuid fr) = None" "fresh_id (manager t) (f_newId fr)"
  shows "handler_run json t (fst (handleRoute pf cfg startedAt fr req t))"
  using run_tunnel_traffic [OF assms(1)] run_session_proxy [OF assms(1)] run_secret_route [OF assms(2)]
  by (auto simp: handleRoute_def dest: run_session_route split: option.splits sum.splits bool.splits)

section \<open>Client sockets\<close>

lemma run_ws_open: "handler_run json t (ws_open d ws t)"
proof -
  have "handler_run json t t'" if "proxyWSUpgrade sid i msg ws onfail t = (t', r)" for sid i msg onfail t' r
    using run_proxyWSUpgrade [of json t sid i msg ws onfail] that by simp
  then show ?thesis
    by (auto simp: ws_open_def intro: run_trans [OF _ run_wsClose] split: prod.splits option.splits)
qed

lemma run_envelope: "handler_run json (handler w) (handler (envelope_message sid ws d m w))"
  by (induction sid ws d m w rule: envelope_message.induct) (auto intro: run_rules)

lemma run_framed: "handler_run json (handler w) (handler (framed_message json' sid ws m w))"
  by (auto simp: framed_message_def Let_def intro: run_rules run_envelope split: option.splits sum.splits)

lemma run_attach_message: "handler_run json (handler w) (handler (attach_message json' sid ws m w))"
proof (cases "sm_get (manager (handler w)) sid")
  case (Some s)
  let ?w = "w\<lparr>handler := touch sid (handler w)\<rparr>"
  have t: "handler_run json (handler w) (handler ?w)" by (simp add: run_touch)
  show ?thesis
  proof (cases "protocol s = Raw")
    case True
    then show ?thesis
      using Some run_trans [OF t run_writeToExec] by (simp add: attach_message_def Let_def)
  next
    case False
    then show ?thesis
      using Some run_trans [OF t run_framed] by (simp add: attach_message_def Let_def)
  qed
qed (simp add: attach_message_def)

lemma run_attach_open: "handler_run json (handler w) (handler (attach_open sid ws w))"
  using run_trans [OF run_touch run_attach]
  by (auto simp: attach_open_def Let_def intro: run_rules split: option.splits)

section \<open>Every event of the bridge is a run of the handler\<close>

text \<open>Drawn ids are fresh, and the events of the handler itself are regular.\<close>

fun bridge_regular :: "ws_server \<Rightarrow> bridge_event \<Rightarrow> bool" where
  "bridge_regular w (Handler ev) = regular (handler w) ev"
| "bridge_regular w (HttpRequest fr req) =
     (requests (handler w) (f_uuid fr) = None \<and> fresh_id (manager (handler w)) (f_newId fr))"
| "bridge_regular w (UpdateHosts hs) = map_wf hs"
| "bridge_regular w _ = True"

fun bridge_regular_run ::
    "platform \<Rightarrow> bridge_config \<Rightarrow> (buffer \<Rightarrow> string + tunnel_message) \<Rightarrow> ws_server
       \<Rightarrow> bridge_event list \<Rightarrow> bool" where
  "bridge_regular_run pf cfg json w [] = True"
| "bridge_regular_run pf cfg json w (ev # evs) =
     (bridge_regular w ev \<and> bridge_regular_run pf cfg json (bridge_step pf cfg json w ev) evs)"

lemma bridge_step_run:
  assumes "bridge_regular w ev"
  shows "handler_run json (handler w) (handler (bridge_step pf cfg json w ev))"
proof (cases ev)
  case (Handler e)
  then show ?thesis using assms run_step by auto
next
  case (WsOpen d ws)
  then show ?thesis by (simp add: run_ws_open)
next
  case (AttachClose sid ws)
  then show ?thesis by (auto simp: attach_close_def intro: run_rules split: option.splits)
next
  case Shutdown
  then show ?thesis by (auto simp: shutdown_bridge_def intro!: run_foldl run_rules)
qed (use assms in \<open>auto simp: ws_message_def ws_close_def
      intro: run_handleRoute run_attach_open run_attach_message run_rules\<close>)

lemma bridge_run:
  "bridge_regular_run pf cfg json w evs \<Longrightarrow>
     handler_run json (handler w) (handler (foldl (bridge_step pf cfg json) w evs))"
  by (induction evs arbitrary: w) (auto intro: run_trans bridge_step_run)

definition bridge_init :: "tunnel \<Rightarrow> ws_server" where
  "bridge_init t = \<lparr>handler = t, pendingRequestBodies = Map.empty\<rparr>"

text \<open>The HTTP routes, the WebSocket servers and the control messages act on the tunnel handler only
  through its operations: the state of the handler is the result of a regular run of its own events,
  and what holds after such runs holds for the whole bridge.\<close>

lemma bridge_handler_run:
  assumes "bridge_regular_run pf cfg json (bridge_init t) evs"
  obtains hevs where "regular_run json t hevs"
    and "handler (foldl (bridge_step pf cfg json) (bridge_init t) evs) = foldl (tunnel_step json) t hevs"
  using bridge_run [OF assms] by (auto simp: handler_run_def bridge_init_def)

text \<open>A buffered envelope announces its body and names a stream.\<close>

definition bodies_ok :: "ws_server \<Rightarrow> bool" where
  "bodies_ok w \<longleftrightarrow> (\<forall>sid i e. pendingRequestBodies w sid = Some (i, e) \<longrightarrow>
     i \<noteq> [] \<and> (\<exists>meth path hs len. e = HTTPRequestMsg (Some i) meth path hs len True))"

lemma bodies_handler [simp]: "bodies_ok (w\<lparr>handler := t\<rparr>) = bodies_ok w"
  by (simp add: bodies_ok_def)

lemma bodies_envelope: "bodies_ok w \<Longrightarrow> bodies_ok (envelope_message sid ws d m w)"
  by (induction sid ws d m w rule: envelope_message.induct) (auto simp: bodies_ok_def)

lemma bodies_cleared:
  "bodies_ok w \<Longrightarrow> bodies_ok (w\<lparr>pendingRequestBodies := (pendingRequestBodies w)(sid := None)\<rparr>)"
  by (simp add: bodies_ok_def)

lemma bodies_framed: "bodies_ok w \<Longrightarrow> bodies_ok (framed_message json sid ws m w)"
  by (auto simp: framed_message_def Let_def bodies_envelope bodies_cleared split: option.split sum.split)

lemma bodies_message: "bodies_ok w \<Longrightarrow> bodies_ok (attach_message json sid ws m w)"
  by (simp add: attach_message_def Let_def bodies_framed split: option.split)

lemma bodies_step: "bodies_ok w \<Longrightarrow> bodies_ok (bridge_step pf cfg json w ev)"
  by (cases ev) (auto simp: attach_open_def attach_close_def Let_def bodies_message split: option.split)

lemma bodies_run: "bodies_ok w \<Longrightarrow> bodies_ok (foldl (bridge_step pf cfg json) w evs)"
  by (induction evs arbitrary: w) (simp_all add: bodies_step)

end
