(* ===== verification/Bridge_Safety.thy ===== *)
theory Bridge_Safety
  imports Bridge_Refinement Tunnel_Properties
begin

text \<open>
  What a request can achieve: without a valid credential nothing happens; what holds after every run of
  the whole bridge; a request of the session proxy reaches the container with exactly the filtered
  headers and the query without its token.
\<close>

section \<open>Authorization\<close>

text \<open>The session a path addresses with the routes a session token opens.\<close>

definition path_session :: "http_request \<Rightarrow> string option" where
  "path_session req = (case (if req_method req = ''POST'' then resize_match (req_path req)
        else if req_method req = ''DELETE'' then session_match (req_path req) else None) of
       Some sid \<Rightarrow> Some sid
     | None \<Rightarrow> map_option fst (proxy_match (req_path req)))"

text \<open>A request carries the static secret, or a session token for the session its path names, or
  a tunnel token for the tunnel of its public-id header.\<close>

definition authorized :: "platform \<Rightarrow> bridge_config \<Rightarrow> http_request \<Rightarrow> int \<Rightarrow> bool" where
  "authorized pf cfg req now \<longleftrightarrow>
     (cfg_apiSecret cfg \<noteq> [] \<and> hdr (req_headers req) ''Authorization'' = Some (''Bearer '' @ cfg_apiSecret cfg))
     \<or> (\<exists>sid token. path_session req = Some sid
          \<and> (bearer (req_headers req) = Some token \<or> search_param req ''token'' = Some token)
          \<and> token_ok pf now token sid (cfg_apiSecret cfg))
     \<or> (\<exists>pid. starts_with (req_path req) ''/-/tunnel/''
          \<and> hdr (req_headers req) ''X-Tunnel-Public-Id'' = Some pid
          \<and> fst (tunnel_auth pf now cfg req) = Some (JStr pid))"

lemma authenticate_true:
  "authenticate hs secret = Inr True \<Longrightarrow>
     secret \<noteq> [] \<and> hdr hs ''Authorization'' = Some (''Bearer '' @ secret)"
proof -
  assume a: "authenticate hs secret = Inr True"
  then obtain v where v: "hdr hs ''Authorization'' = Some v" "starts_with v ''Bearer ''"
    by (auto simp: authenticate_def split: option.splits if_splits)
  then obtain r where "v = ''Bearer '' @ r" by (auto simp only: starts_with_iff)
  then show ?thesis using a v timingSafe_true [of r secret]
    by (auto simp: authenticate_def Let_def split: if_splits)
qed

lemma session_token_carried:
  "session_token_valid pf now cfg (proxy_token req) sid \<Longrightarrow>
     \<exists>token. (bearer (req_headers req) = Some token \<or> search_param req ''token'' = Some token)
       \<and> token_ok pf now token sid (cfg_apiSecret cfg)"
  by (cases "proxy_token req") (auto simp: session_token_valid_def proxy_token_def split: option.splits)

lemma bearer_token_carried:
  "session_token_valid pf now cfg (extractBearerToken req False) sid \<Longrightarrow>
     \<exists>token. bearer (req_headers req) = Some token \<and> token_ok pf now token sid (cfg_apiSecret cfg)"
  by (cases "extractBearerToken req False")
     (auto simp: session_token_valid_def extractBearerToken_def split: option.splits)

lemma unauthorizedD:
  assumes "\<not> authorized pf cfg req now"
  shows "authenticate (req_headers req) (cfg_apiSecret cfg) \<noteq> Inr True"
    and "path_session req = Some sid \<Longrightarrow> \<not> session_token_valid pf now cfg (extractBearerToken req False) sid"
    and "path_session req = Some sid \<Longrightarrow> \<not> session_token_valid pf now cfg (proxy_token req) sid"
  using assms authenticate_true bearer_token_carried session_token_carried
  unfolding authorized_def by blast+

definition rejected :: "tunnel \<Rightarrow> tunnel \<times> route_answer \<Rightarrow> nat list \<Rightarrow> bool" where
  "rejected t r codes \<longleftrightarrow> (\<exists>x. r = (t, Answer x) \<and> resp_status x \<in> set codes)"

lemma rejected_mono: "rejected t r cs \<Longrightarrow> set cs \<subseteq> set ds \<Longrightarrow> rejected t r ds"
  by (auto simp: rejected_def)

lemma status_simps [simp]:
  "resp_status (jsonResponse v n) = n" "resp_status (tunnel_json v n) = n"
  "resp_status (error_response (HttpError c m)) = (case c of None \<Rightarrow> 500 | Some k \<Rightarrow> k)"
  by (simp_all add: jsonResponse_def tunnel_json_def error_response_def)

lemma traffic_rejected:
  assumes "\<not> authorized pf cfg req (clock t)" "starts_with (req_path req) ''/-/tunnel/''"
  shows "rejected t (handleTunnelTraffic pf cfg fr req t) [400, 401]"
proof (cases "hdr (req_headers req) ''X-Tunnel-Public-Id''")
  case (Some pid)
  have "fst (tunnel_auth pf (clock t) cfg req) \<noteq> Some (JStr pid)"
    using assms Some unfolding authorized_def by blast
  then show ?thesis
    using Some by (cases "tunnel_auth pf (clock t) cfg req"; cases "fst (tunnel_auth pf (clock t) cfg req)")
      (auto simp: rejected_def handleTunnelTraffic_def Let_def)
qed (simp add: rejected_def handleTunnelTraffic_def)

lemma session_route_rejected:
  assumes "\<not> authorized pf cfg req (clock t)" "session_route pf cfg req t = Some r"
  shows "rejected t r [401, 500]"
proof -
  let ?target = "if req_method req = ''POST'' then resize_match (req_path req)
                 else if req_method req = ''DELETE'' then session_match (req_path req) else None"
  obtain sid where sid: "?target = Some sid"
    using assms(2) by (cases ?target) (simp_all add: session_route_def Let_def)
  then have path: "path_session req = Some sid" by (simp add: path_session_def)
  have "session_authorized pf (clock t) cfg req sid \<noteq> Inr True"
    using unauthorizedD(1) [OF assms(1)] unauthorizedD(2) [OF assms(1) path]
    by (auto simp: session_authorized_def split: sum.splits bool.splits)
  then show ?thesis
    using assms(2) sid
    by (cases "session_authorized pf (clock t) cfg req sid")
       (auto simp: session_route_def Let_def rejected_def throws_def)
qed

lemma proxy_rejected:
  assumes "\<not> authorized pf cfg req (clock t)" "proxy_match (req_path req) = Some (sid, rest)"
    and "session_route pf cfg req t = None"
  shows "rejected t (session_proxy pf cfg fr sid rest req t) [401]"
proof -
  have "(if req_method req = ''POST'' then resize_match (req_path req)
         else if req_method req = ''DELETE'' then session_match (req_path req) else None) = None"
    using assms(3) by (auto simp: session_route_def Let_def split: option.splits)
  then have "path_session req = Some sid" using assms(2) by (simp add: path_session_def)
  then have "\<not> session_token_valid pf (clock t) cfg (proxy_token req) sid"
    by (rule unauthorizedD(3) [OF assms(1)])
  then show ?thesis by (simp add: session_proxy_def rejected_def)
qed

lemma unauthorized_rejected:
  assumes "\<not> authorized pf cfg req (clock t)" "req_method req \<noteq> ''OPTIONS''"
    and "\<not> (req_method req = ''GET'' \<and> req_path req = ''/health'')"
  shows "rejected t (handleRoute pf cfg startedAt fr req t) [400, 401, 500]"
proof -
  have base: "authenticate (req_headers req) (cfg_apiSecret cfg) \<noteq> Inr True"
    by (rule unauthorizedD(1) [OF assms(1)])
  show ?thesis
  proof (cases "starts_with (req_path req) ''/-/tunnel/''")
    case True
    then show ?thesis
      using rejected_mono [OF traffic_rejected [OF assms(1) True]] assms(2,3) by (auto simp: handleRoute_def)
  next
    case False
    show ?thesis
    proof (cases "session_route pf cfg req t")
      case (Some r)
      then show ?thesis
        using rejected_mono [OF session_route_rejected [OF assms(1) Some]] False assms(2,3)
        by (auto simp: handleRoute_def)
    next
      case None
      show ?thesis
      proof (cases "proxy_match (req_path req)")
        case (Some sr)
        then show ?thesis
          using rejected_mono [OF proxy_rejected [OF assms(1) _ None, of "fst sr" "snd sr"]] None False assms(2,3)
          by (cases sr) (auto simp: handleRoute_def)
      next
        case pm: None
        then show ?thesis
          using base None False assms(2,3)
          by (cases "authenticate (req_headers req) (cfg_apiSecret cfg)")
             (auto simp: handleRoute_def rejected_def throws_def)
      qed
    qed
  qed
qed

lemma unauthorized_state: "\<not> authorized pf cfg req (clock t) \<Longrightarrow> fst (handleRoute pf cfg startedAt fr req t) = t"
proof -
  assume no: "\<not> authorized pf cfg req (clock t)"
  show ?thesis
  proof (cases "req_method req = ''OPTIONS'' \<or> (req_method req = ''GET'' \<and> req_path req = ''/health'')")
    case True
    then show ?thesis by (auto simp: handleRoute_def)
  next
    case False
    then show ?thesis using unauthorized_rejected [OF no, of startedAt fr] by (auto simp: rejected_def)
  qed
qed

text \<open>C6: A request without a valid credential has no effect: apart from the CORS preflight and
  the health report, the state of the bridge is unchanged and the answer is 400 (no public-id
  header), 401 or, when the comparison of the secret throws, 500.  A session token counts only on
  the routes of the session it names, a tunnel token only for the tunnel it names; so no route
  reveals whether a session exists, upgrades a socket or reaches Docker without one.\<close>

theorem unauthorized_no_effect:
  assumes "\<not> authorized pf cfg req (clock t)" "req_method req \<noteq> ''OPTIONS''"
    and "\<not> (req_method req = ''GET'' \<and> req_path req = ''/health'')"
  shows "\<exists>x. handleRoute pf cfg startedAt fr req t = (t, Answer x) \<and> resp_status x \<in> {400, 401, 500}"
  using unauthorized_rejected [OF assms] by (auto simp: rejected_def)

section \<open>Runs of the whole bridge\<close>

text \<open>The events of a run without the HTTP requests that carry no valid credential when they arrive.\<close>

fun silent :: "platform \<Rightarrow> bridge_config \<Rightarrow> ws_server \<Rightarrow> bridge_event \<Rightarrow> bool" where
  "silent pf cfg w (HttpRequest fr req) = (\<not> authorized pf cfg req (clock (handler w)))"
| "silent pf cfg w ev = False"

fun without_silent ::
    "platform \<Rightarrow> bridge_config \<Rightarrow> (buffer \<Rightarrow> string + tunnel_message) \<Rightarrow> ws_server \<Rightarrow> bridge_event list
       \<Rightarrow> bridge_event list" where
  "without_silent pf cfg json w [] = []"
| "without_silent pf cfg json w (ev # evs) =
     (let rest = without_silent pf cfg json (bridge_step pf cfg json w ev) evs
      in if silent pf cfg w ev then rest else ev # rest)"

lemma silent_step: "silent pf cfg w ev \<Longrightarrow> bridge_step pf cfg json w ev = w"
  by (cases ev) (simp_all add: unauthorized_state)

lemma run_without_silent:
  "foldl (bridge_step pf cfg json) w (without_silent pf cfg json w evs) = foldl (bridge_step pf cfg json) w evs"
  by (induction evs arbitrary: w) (auto simp: Let_def silent_step)

text \<open>C5: The whole bridge, driven by HTTP requests, client sockets and their messages, agent bytes,
  timers, host updates and shutdowns in any order: HTTP requests without a valid credential can be
  taken out of the history without changing the state it leads to; and in that state no session has
  more requests in progress than its limit, no promise of a proxied request is settled twice, the
  registry, the adapters, the write chains, the buffered streams, the limiters and the timers are as
  in \<open>bridge_invariant\<close>, and every buffered request envelope announces a body.  In the run drawn ids
  are fresh, a list of hosts names each host once, and no write of a direct request fails after the
  request was settled (\<open>bridge_regular_run\<close>).\<close>

theorem bridge_runs_safe:
  assumes "map_wf hs" and "w0 = bridge_init (tunnel_init (sm_init mx idle) (pool_new hs) cap grace)"
    and "bridge_regular_run pf cfg json w0 evs" and "w = foldl (bridge_step pf cfg json) w0 evs"
  shows "w = foldl (bridge_step pf cfg json) w0 (without_silent pf cfg json w0 evs)
    \<and> (\<forall>sid e. limiters (handler w) sid = Some e \<longrightarrow> slots_used (handler w) sid \<le> inFlight e \<and> inFlight e \<le> max_slots e)
    \<and> (\<forall>i. settle_count (handler w) i \<le> 1) \<and> bridge_wf (handler w) \<and> timers_ok (handler w) \<and> bodies_ok w"
proof -
  let ?t = "tunnel_init (sm_init mx idle) (pool_new hs) cap grace"
  obtain hevs where run: "regular_run json ?t hevs" and h: "handler w = foldl (tunnel_step json) ?t hevs"
    using bridge_handler_run [OF assms(3) [unfolded assms(2)]] unfolding assms(2,4) by blast
  have acc: "acc_inv None (handler w)" unfolding h by (rule acc_run [OF acc_init run])
  have "settle_inv (handler w)" unfolding h by (rule settle_inv_run [OF acc_init settle_inv_init run])
  then have "settle_count (handler w) i \<le> 1" for i by (rule settled_once)
  moreover have "bridge_wf (handler w)" unfolding h by (rule wf_run [OF wf_init [OF assms(1)] run])
  moreover have "bodies_ok w" unfolding assms(2,4) by (rule bodies_run) (simp add: bodies_ok_def bridge_init_def)
  ultimately show ?thesis
    using acc_capD [OF acc] acc_timers_ok [OF acc] by (simp add: assms(4) run_without_silent)
qed

section \<open>What a proxied request carries\<close>

lemma out_touch [simp]: "out (touch sid t) = out t"
  by (simp add: touch_def)

lemma sent_head:
  "\<exists>e' len follows. AgentFrame e' (TextFrame (HTTPRequestMsg (Some i) meth path hs len follows))
     \<in> set (out (streaming_send i e (request_frames i meth path hs body) t))"
  "\<exists>e' len follows. AgentFrame e' (TextFrame (HTTPRequestMsg (Some i) meth path hs len follows))
     \<in> set (out (direct_send i e (request_frames i meth path hs body) t))"
  by (rule exI [of _ e], simp add: streaming_send_def direct_send_def request_frames_def await_def emit_def,
      blast)+

lemma streaming_frame:
  assumes "proxyHTTPStreaming sid uuid meth path hs body oc t = (t', Promised i)"
  shows "i = uuid \<and> (\<exists>e len follows. AgentFrame e (TextFrame
           (HTTPRequestMsg (Some uuid) meth path hs len follows)) \<in> set (out t'))"
  using assms
  by (auto simp: proxyHTTPStreaming_def Let_def intro!: sent_head split: option.splits prod.splits if_splits)

lemma direct_frame:
  assumes "proxyHTTPDirect sid uuid meth path hs body t = (t', Promised i)"
  shows "i = uuid \<and> (\<exists>e len follows. AgentFrame e (TextFrame
           (HTTPRequestMsg (Some uuid) meth path hs len follows)) \<in> set (out t'))"
  using assms
  by (auto simp: proxyHTTPDirect_def Let_def intro!: sent_head split: option.splits prod.splits if_splits)

text \<open>The streaming proxy writes one frame before it suspends, the envelope, to the exec of the session.\<close>

lemma streaming_output:
  assumes "proxyHTTPStreaming sid uuid meth path hs body oc t = (t', Promised i)"
  shows "i = uuid \<and> (\<exists>s e. obj t sid = Some s \<and> protocol s = Framed \<and> exec_of t sid = Some e
    \<and> out t' = out t @ [AgentFrame e (TextFrame (HTTPRequestMsg (Some uuid) meth path hs
        (if has_body body then map_option length body else None) (has_body body)))])"
  using assms
  by (auto simp: proxyHTTPStreaming_def Let_def proxy_guard_def streaming_send_def request_frames_def await_def emit_def
      set_pending_def setTimeout_def exec_of_def split: option.splits prod.splits if_splits)

text \<open>A client that is attached to a framed session changes neither its exec nor the output.\<close>

lemma attach_framed:
  assumes "obj (attach sid c t) sid = Some s" and "protocol s = Framed"
  shows "exec_of (attach sid c t) sid = exec_of t sid \<and> out (attach sid c t) = out t"
proof -
  let ?t1 = "touch sid (upd_obj sid (\<lambda>s. s\<lparr>clients := clients_add c (clients s)\<rparr>) (clear_grace sid t))"
  have same: "out ?t1 = out t" "exec_of ?t1 sid = exec_of t sid"
    by (auto simp: touch_def upd_obj_def clear_grace_def clearTimeout_def exec_of_def obj_def upd_session_def sm_touch_def
        split: option.split)
  have "attach sid c t = ?t1"
  proof (cases "obj ?t1 sid")
    case (Some r)
    have "protocol r = Framed"
    proof (rule ccontr)
      assume raw: "protocol r \<noteq> Framed"
      have "obj (startRawExec sid c ?t1) sid = obj ?t1 sid"
        by (auto simp: startRawExec_def attach_failed_def use_adapter_def emit_def await_def obj_def
            split: option.split sum.split prod.split)
      then have "obj (attach sid c t) sid = Some r" using Some raw by (simp add: attach_def Let_def)
      then show False using assms raw by simp
    qed
    then show ?thesis using Some by (simp add: attach_def Let_def)
  qed (simp add: attach_def Let_def)
  then show ?thesis using same by simp
qed

text \<open>Which routes wait for which promise.\<close>

lemma no_wait_simps [simp]:
  "throws e \<noteq> AwaitStream i sid c" "throws e \<noteq> AwaitDirect i cookie"
  by (simp_all add: throws_def)

lemma direct_answer_simps [simp]: "direct_answer a cookie \<noteq> AwaitStream i sid c"
  by (simp add: direct_answer_def split: proxy_answer.splits)

lemma secret_route_waits:
  "snd (secret_route pf fr req t) \<noteq> AwaitStream i sid c"
  "snd (secret_route pf fr req t) \<noteq> AwaitDirect i cookie"
  by (auto simp: secret_route_def create_route_def docker_route_def
      split: option.splits prod.splits sum.splits docker_plan.splits)

lemma session_route_waits:
  assumes "session_route pf cfg req t = Some r"
  shows "snd r \<noteq> AwaitStream i sid c" "snd r \<noteq> AwaitDirect i cookie"
proof -
  have "snd (resize_route pf sid' req t) \<noteq> AwaitStream i sid c"
    "snd (resize_route pf sid' req t) \<noteq> AwaitDirect i cookie"
    "snd (delete_route sid' t) \<noteq> AwaitStream i sid c"
    "snd (delete_route sid' t) \<noteq> AwaitDirect i cookie" for sid'
    by (auto simp: resize_route_def delete_route_def split: option.splits prod.splits)
  then show "snd r \<noteq> AwaitStream i sid c" "snd r \<noteq> AwaitDirect i cookie"
    using assms by (auto simp: session_route_def Let_def split: option.splits sum.splits bool.splits if_splits)
qed

lemma session_proxy_waits:
  "snd (session_proxy pf cfg fr sid rest req t) \<noteq> AwaitDirect i cookie"
  by (auto simp: session_proxy_def proxy_stream_def Let_def split: option.splits prod.splits proxy_answer.splits)

lemma traffic_waits: "snd (handleTunnelTraffic pf cfg fr req t) \<noteq> AwaitStream i sid c"
  by (auto simp: handleTunnelTraffic_def Let_def split: option.splits prod.splits)

lemma stream_route:
  assumes "handleRoute pf cfg startedAt fr req t = (t', AwaitStream i sid c)"
  shows "\<exists>target rest. proxy_match (req_path req) = Some (target, rest)
           \<and> session_proxy pf cfg fr target rest req t = (t', AwaitStream i sid c)"
  using assms traffic_waits [of pf cfg fr req t i sid c] secret_route_waits(1) [of pf fr req t i sid c]
    session_route_waits(1) [of pf cfg req t _ i sid c]
  by (auto simp: handleRoute_def split: option.splits sum.splits bool.splits if_splits)

lemma direct_route:
  assumes "handleRoute pf cfg startedAt fr req t = (t', AwaitDirect i cookie)"
  shows "handleTunnelTraffic pf cfg fr req t = (t', AwaitDirect i cookie)"
  using assms secret_route_waits(2) [of pf fr req t i cookie] session_proxy_waits [of pf cfg fr _ _ req t i cookie]
    session_route_waits(2) [of pf cfg req t _ i cookie]
  by (auto simp: handleRoute_def split: option.splits sum.splits bool.splits if_splits) (metis snd_conv)+

lemma stream_route_output:
  assumes "handleRoute pf cfg startedAt fr req t = (t', AwaitStream i sid c)"
  shows "\<exists>target rest s e. proxy_match (req_path req) = Some (target, rest)
    \<and> session_token_valid pf (clock t) cfg (proxy_token req) target
    \<and> sm_get (manager t) target = Some s \<and> exec_of t (session_id s) = Some e
    \<and> out t' = out t @ [AgentFrame e (TextFrame (HTTPRequestMsg (Some i) (req_method req) (session_forward_path req rest)
          (forward_headers (req_headers req)) (if has_body (forward_body req) then map_option length (forward_body req) else None)
          (has_body (forward_body req))))]"
proof -
  obtain target rest where r: "proxy_match (req_path req) = Some (target, rest)"
    "session_proxy pf cfg fr target rest req t = (t', AwaitStream i sid c)"
    using stream_route [OF assms] by blast
  then obtain s where s: "session_token_valid pf (clock t) cfg (proxy_token req) target" "sm_get (manager t) target = Some s"
      "proxy_stream fr (session_id s) req (session_forward_path req rest) t = (t', AwaitStream i sid c)"
    by (auto simp: session_proxy_def split: option.splits if_splits)
  define u where "u = attach (session_id s) (Sentinel (f_client fr)) t"
  have "proxyHTTPStreaming (session_id s) (f_uuid fr) (req_method req) (session_forward_path req rest)
      (forward_headers (req_headers req)) (forward_body req) (Some (Sentinel (f_client fr))) u = (t', Promised i)"
    using s(3) by (auto simp: proxy_stream_def Let_def u_def split: prod.splits proxy_answer.splits)
  from streaming_output [OF this] obtain s' e where e: "obj u (session_id s) = Some s'" "protocol s' = Framed"
    "exec_of u (session_id s) = Some e" "i = f_uuid fr"
    "out t' = out u @ [AgentFrame e (TextFrame (HTTPRequestMsg (Some i) (req_method req) (session_forward_path req rest)
          (forward_headers (req_headers req)) (if has_body (forward_body req) then map_option length (forward_body req) else None)
          (has_body (forward_body req))))]"
    by blast
  from attach_framed [OF e(1) [unfolded u_def] e(2)] show ?thesis
    using r(1) s(1,2) e(3,5) unfolding u_def by auto
qed

lemma stream_route_frame:
  assumes "handleRoute pf cfg startedAt fr req t = (t', AwaitStream i sid c)"
  shows "\<exists>target rest e len follows. proxy_match (req_path req) = Some (target, rest)
    \<and> AgentFrame e (TextFrame (HTTPRequestMsg (Some i) (req_method req) (session_forward_path req rest)
          (forward_headers (req_headers req)) len follows)) \<in> set (out t')"
proof -
  obtain target rest e where r: "proxy_match (req_path req) = Some (target, rest)"
    and o: "out t' = out t @ [AgentFrame e (TextFrame (HTTPRequestMsg (Some i) (req_method req) (session_forward_path req rest)
          (forward_headers (req_headers req)) (if has_body (forward_body req) then map_option length (forward_body req) else None)
          (has_body (forward_body req))))]"
    using stream_route_output [OF assms] by blast
  show ?thesis unfolding o r by auto
qed

text \<open>C37: A request that the bridge forwards through the session proxy (it then waits for the head of a
  streamed response) carried a valid token for the session its path names.  Exactly one frame is
  written for it so far, to the exec of that session: the envelope with the method, the remaining
  path, exactly the client's query parameters except \<open>token\<close>, in order, and the client's headers
  except the hop-by-hop ones and those of the tunnel.  Only the query loses the token: an
  \<open>Authorization\<close> header is forwarded (\<open>session_token_reaches_container\<close>), and tunnel traffic keeps
  the token of a shared link (\<open>shared_link_not_cleaned\<close>).\<close>

theorem session_proxy_forwards:
  assumes "handleRoute pf cfg startedAt fr req t = (t', AwaitStream i sid c)"
  shows "\<exists>target rest s q e. proxy_match (req_path req) = Some (target, rest)
    \<and> session_token_valid pf (clock t) cfg (proxy_token req) target
    \<and> sm_get (manager t) target = Some s \<and> exec_of t (session_id s) = Some e
    \<and> out t' = out t @ [AgentFrame e (TextFrame (HTTPRequestMsg (Some i) (req_method req)
          ((if rest = [] then ''/'' else rest) @ (if q = [] then [] else CHR ''?'' # q))
          (filter (\<lambda>kv. to_lower (fst kv) \<notin> set HOP_BY_HOP_HEADERS
              \<and> \<not> starts_with (to_lower (fst kv)) ''x-tunnel-'') (req_headers req))
          (if has_body (forward_body req) then map_option length (forward_body req) else None)
          (has_body (forward_body req))))]
    \<and> parse_query q = filter (\<lambda>kv. fst kv \<noteq> ''token'') (parse_query (req_query req))"
proof -
  let ?q = "serialize_query (params_delete ''token'' (parse_query (req_query req)))"
  have "parse_query ?q = filter (\<lambda>kv. fst kv \<noteq> ''token'') (parse_query (req_query req))"
    by (simp add: parse_serialize params_delete_def)
  then show ?thesis
    using stream_route_output [OF assms]
    unfolding session_forward_path_def forward_headers_def forwarded_def Let_def by blast
qed

text \<open>The session token is removed from the query only: a token sent in the
  \<open>Authorization\<close> header is forwarded into the container with the other headers.\<close>

theorem session_token_reaches_container:
  assumes "handleRoute pf cfg startedAt fr req t = (t', AwaitStream i sid c)"
    and "(''authorization'', token) \<in> set (req_headers req)"
  shows "\<exists>e path hs len follows. AgentFrame e (TextFrame
      (HTTPRequestMsg (Some i) (req_method req) path hs len follows)) \<in> set (out t')
    \<and> (''authorization'', token) \<in> set hs"
proof -
  have "forwarded ''authorization''" by code_simp
  then have "(''authorization'', token) \<in> set (forward_headers (req_headers req))"
    using assms(2) by (simp add: forward_headers_def)
  then show ?thesis using stream_route_frame [OF assms(1)] by blast
qed

text \<open>A shared link (tunnel traffic authenticated by the query token) is not redirected to a
  clean URL: the request is proxied at once, and the token stays in the path the container
  receives.\<close>

theorem shared_link_not_cleaned:
  assumes "handleRoute pf cfg startedAt fr req t = (t', AwaitDirect i (Some token))"
  shows "search_param req ''token'' = Some token
    \<and> (\<exists>e path hs len follows. AgentFrame e (TextFrame
      (HTTPRequestMsg (Some i) (req_method req) (path @ CHR ''?'' # req_query req) hs len follows)) \<in> set (out t'))"
proof -
  have tok: "search_param req ''token'' = Some token"
    and "\<exists>j. proxyHTTPDirect j (f_uuid fr) (req_method req) (forwardPath req @ url_search req)
      (forward_headers (req_headers req)) (forward_body req) t = (t', Promised i)"
    using direct_route [OF assms]
    by (auto simp: handleTunnelTraffic_def Let_def direct_answer_def
        split: option.splits prod.splits if_splits proxy_answer.splits)
  moreover have "req_query req \<noteq> []"
    using tok by (auto simp: search_param_def params_get_def parse_query_def)
  ultimately show ?thesis using direct_frame by (fastforce simp: url_search_def)
qed

end
