(* ===== verification/Bridge_Sockets.thy ===== *)
theory Bridge_Sockets
  imports Bridge_Safety
begin

text \<open>
  Messages of attached WebSocket clients: which body a buffered request gets, and what becomes
  of WebSocket data envelopes; and concrete inputs for the properties of the servers.
\<close>

section \<open>Envelopes and bodies\<close>

definition framed_live :: "ws_server \<Rightarrow> string \<Rightarrow> bool" where
  "framed_live w sid \<longleftrightarrow> (\<exists>s. sm_get (manager (handler w)) sid = Some s \<and> protocol s = Framed)"

text \<open>Messages of several clients, in the order they arrive: session, client, message.\<close>

definition client_messages ::
    "(buffer \<Rightarrow> string + tunnel_message) \<Rightarrow> (string \<times> client \<times> ws_msg) list \<Rightarrow> ws_server \<Rightarrow> ws_server" where
  "client_messages json ms w = foldl (\<lambda>w (sid, ws, m). attach_message json sid ws m w) w ms"

lemma client_messages_simps [simp]:
  "client_messages json [] w = w"
  "client_messages json ((sid, ws, m) # ms) w = client_messages json ms (attach_message json sid ws m w)"
  by (simp_all add: client_messages_def)

lemma framed_attach_message:
  "framed_live w sid \<Longrightarrow> attach_message json sid ws m w
     = framed_message json sid ws m (w\<lparr>handler := touch sid (handler w)\<rparr>)"
  by (auto simp: framed_live_def attach_message_def Let_def)

lemma pending_other_envelope:
  "sid' \<noteq> sid \<Longrightarrow> pendingRequestBodies (envelope_message sid' ws d m w) sid = pendingRequestBodies w sid"
  by (induction sid' ws d m w rule: envelope_message.induct) auto

lemma pending_other:
  "sid' \<noteq> sid \<Longrightarrow> pendingRequestBodies (attach_message json sid' ws m w) sid = pendingRequestBodies w sid"
  by (auto simp: attach_message_def framed_message_def Let_def pending_other_envelope
      split: option.splits sum.splits)

lemma pending_others:
  "\<forall>x \<in> set ms. fst x \<noteq> sid \<Longrightarrow>
     pendingRequestBodies (client_messages json ms w) sid = pendingRequestBodies w sid"
  by (induction ms arbitrary: w) (auto simp: pending_other)

text \<open>An envelope that announces a body is buffered; the next binary message of its session is
  the body.\<close>

lemma announce:
  assumes "framed_live w sid" "is_text m" "i \<noteq> []"
    and "json (msg_bytes m) = Inr (HTTPRequestMsg (Some i) meth path hs len True)"
  shows "attach_message json sid ws m w = w\<lparr>handler := touch sid (handler w),
    pendingRequestBodies := (pendingRequestBodies w)(sid \<mapsto> (i, HTTPRequestMsg (Some i) meth path hs len True))\<rparr>"
  using assms by (simp add: framed_attach_message framed_message_def)

lemma deliver:
  assumes "framed_live w sid" "\<not> is_text m" "pendingRequestBodies w sid = Some (i, envelope)"
  shows "attach_message json sid ws m w = w\<lparr>
    handler := fst (proxyHTTPRequest sid i envelope (Some (msg_bytes m)) (touch sid (handler w))),
    pendingRequestBodies := (pendingRequestBodies w)(sid := None)\<rparr>"
  using assms by (simp add: framed_attach_message framed_message_def)

text \<open>A request envelope with \<open>body_follows\<close> waits for its body whatever the clients of other
  sessions send meanwhile; the next binary message of its own session, even one that looks like
  JSON, starts the request with exactly those bytes, and the buffer is empty again.\<close>

theorem body_pairing:
  assumes "framed_live w sid" "is_text e" "i \<noteq> []"
    and "json (msg_bytes e) = Inr (HTTPRequestMsg (Some i) meth path hs len True)"
    and "\<forall>x \<in> set others. fst x \<noteq> sid"
    and "w' = client_messages json ((sid, ws, e) # others) w"
    and "framed_live w' sid" "\<not> is_text d"
  shows "handler (attach_message json sid ws' d w') = fst (proxyHTTPRequest sid i
           (HTTPRequestMsg (Some i) meth path hs len True) (Some (msg_bytes d)) (touch sid (handler w')))
    \<and> pendingRequestBodies (attach_message json sid ws' d w') sid = None"
proof -
  have "pendingRequestBodies w' sid = Some (i, HTTPRequestMsg (Some i) meth path hs len True)"
    unfolding assms(6) by (simp add: pending_others [OF assms(5)] announce [where json = json, OF assms(1-4)])
  from deliver [OF assms(7,8) this] show ?thesis by simp
qed

lemma framed_touch [simp]:
  "(\<exists>s. sm_get (manager (touch j t)) sid = Some s \<and> protocol s = Framed)
     \<longleftrightarrow> (\<exists>s. sm_get (manager t) sid = Some s \<and> protocol s = Framed)"
  by (auto simp: touch_def sm_touch_def sm_get_def upd_session_def split: option.splits)

lemma sm_get_proxyHTTPRequest [simp]:
  "sm_get (manager (fst (proxyHTTPRequest sid i req body t))) j = sm_get (manager t) j"
  by (auto simp: proxyHTTPRequest_def client_send_def sendToWS_def set_stream_def await_def emit_def Let_def
      split: option.splits prod.splits client.splits list.splits)

text \<open>The buffer is keyed by session, not by client: when two clients of one session announce
  bodies before sending them, the first request is never started, and the second one is started
  with the body of the first client; the second client's body is dropped.\<close>

theorem bodies_swapped:
  assumes "framed_live w sid" "is_text a" "is_text b" "i \<noteq> []" "j \<noteq> []"
    and "json (msg_bytes a) = Inr (HTTPRequestMsg (Some i) m1 p1 h1 l1 True)"
    and "json (msg_bytes b) = Inr (HTTPRequestMsg (Some j) m2 p2 h2 l2 True)"
    and "\<not> is_text d1" "\<not> is_text d2" "\<not> isParsableJSON (msg_bytes d2)"
  shows "handler (client_messages json [(sid, c1, a), (sid, c2, b), (sid, c1, d1), (sid, c2, d2)] w)
    = touch sid (fst (proxyHTTPRequest sid j (HTTPRequestMsg (Some j) m2 p2 h2 l2 True)
        (Some (msg_bytes d1)) (touch sid (touch sid (touch sid (handler w))))))"
proof -
  let ?p = "HTTPRequestMsg (Some j) m2 p2 h2 l2 True"
  define w1 where "w1 = attach_message json sid c1 a w"
  define w2 where "w2 = attach_message json sid c2 b w1"
  define w3 where "w3 = attach_message json sid c1 d1 w2"
  have w1: "framed_live w1 sid" "handler w1 = touch sid (handler w)"
    unfolding w1_def announce [where json = json, OF assms(1,2,4,6)] using assms(1) by (simp_all add: framed_live_def)
  have w2: "framed_live w2 sid" "handler w2 = touch sid (handler w1)" "pendingRequestBodies w2 sid = Some (j, ?p)"
    unfolding w2_def announce [where json = json, OF w1(1) assms(3,5,7)] using w1(1) by (simp_all add: framed_live_def)
  have w3: "handler w3 = fst (proxyHTTPRequest sid j ?p (Some (msg_bytes d1)) (touch sid (handler w2)))"
    "pendingRequestBodies w3 sid = None"
    unfolding w3_def deliver [OF w2(1) assms(8) w2(3)] by simp_all
  have "framed_live w3 sid"
    using w2(1) by (simp add: framed_live_def w3(1))
  from framed_attach_message [OF this, of json c2 d2]
  have "handler (attach_message json sid c2 d2 w3) = touch sid (handler w3)"
    using assms(9,10) w3(2) by (simp add: framed_message_def)
  then show ?thesis
    using w1(2) w2(2) w3(1) by (simp add: w1_def w2_def w3_def)
qed

text \<open>A WebSocket data envelope of a client is itself forwarded as the data: the agent gets the
  JSON text of the envelope, and the binary payload that follows is dropped.\<close>

theorem ws_envelope_is_data:
  assumes "framed_live w sid" "is_text a" "i \<noteq> []"
    and "json (msg_bytes a) = Inr (WSDataMsg (Some i) follows)"
    and "pendingRequestBodies w sid = None" "\<not> is_text d" "\<not> isParsableJSON (msg_bytes d)"
    and "framed_live (attach_message json sid ws a w) sid"
  shows "handler (client_messages json [(sid, ws, a), (sid, ws, d)] w)
    = touch sid (fst (forwardWSData sid i (msg_bytes a) (touch sid (handler w))))"
proof -
  let ?w = "attach_message json sid ws a w"
  have w: "?w = w\<lparr>handler := fst (forwardWSData sid i (msg_bytes a) (touch sid (handler w)))\<rparr>"
    using assms(2-4) by (simp add: framed_attach_message [OF assms(1)] framed_message_def)
  show ?thesis
    using assms(5-7) framed_attach_message [OF assms(8), of json ws d]
    by (simp add: framed_message_def) (simp add: w)
qed

end
