(* ===== verification/Bridge_Examples.thy ===== *)
theory Bridge_Examples
  imports Bridge_Sockets
begin

text \<open>
  Concrete inputs for the properties of the servers: a bridge with one live framed session
  \<open>s\<close>, a platform whose tokens all verify and carry claims for that session, and requests
  through the session proxy and the tunnel.
\<close>

definition ex_live :: tunnel where
  "ex_live = foldl (tunnel_step ex_json) ex_init (take 4 ex_start)"

definition ex_pf :: platform where
  "ex_pf = \<lparr>hmac_verify = (\<lambda>_ _ _. True), b64url = (\<lambda>_. []),
     parse_json = (\<lambda>_. Some (JObj [(''aud'', JStr ''docker-bridge''), (''sid'', JStr ''s''),
        (''public_id'', JStr ''tn-a'')])),
     strnum = (\<lambda>_. None)\<rparr>"

definition ex_cfg :: bridge_config where
  "ex_cfg = \<lparr>cfg_httpPort = 1, cfg_wsPort = 2, cfg_apiSecret = ''k'', cfg_jwtSecret = ''j'',
     cfg_jwtExpiry = 1, cfg_dockerHosts = JNull, cfg_logLevel = [], cfg_maxSessions = 2,
     cfg_maxConcurrent = 1, cfg_sessionIdleTimeout = 1, cfg_ephemeralGracePeriod = 1\<rparr>"

definition ex_fresh_draws :: fresh where
  "ex_fresh_draws = \<lparr>f_uuid = ''u'', f_call = 1, f_newId = ''n'', f_draw = (\<lambda>_. []), f_client = 7\<rparr>"

definition ex_plain_req :: http_request where
  "ex_plain_req = \<lparr>req_method = ''GET'', req_path = ''/sessions'', req_query = [], req_headers = [],
     req_body = []\<rparr>"

definition ex_proxy_req :: http_request where
  "ex_proxy_req = \<lparr>req_method = ''GET'', req_path = ''/sessions/s/proxy/x'', req_query = ''a=1'',
     req_headers = [(''authorization'', ''Bearer h.p.s'')], req_body = []\<rparr>"

lemmas ex_req_simps = handleRoute_def session_route_def resize_match_def session_match_def proxy_match_def
  segments_def Let_def starts_with_def hdr_def authenticate_def bearer_def proxy_token_def
  session_token_valid_def token_ok_def authenticateSessionToken_def signed_payload_def expired_def
  ex_pf_def ex_cfg_def ex_fresh_draws_def ex_plain_req_def ex_proxy_req_def search_param_def
  params_get_def parse_query_def

lemma ex_live_session:
  "\<exists>s. sm_get (manager ex_live) ''s'' = Some s \<and> session_id s = ''s'' \<and> protocol s = Framed \<and> agentReady s
     \<and> execStream s = Some (''e'', SockOpen) \<and> obj ex_live ''s'' = Some s"
  by (simp add: ex_live_def ex_run_simps)

theorem bridge_runs_safe_witness:
  "settle_count (handler (foldl (bridge_step ex_pf ex_cfg ex_json) (bridge_init ex_init)
      [HttpRequest ex_fresh_draws ex_plain_req, AttachMessage ''s'' (WebSocket 0) \<lparr>is_text = True, msg_bytes = []\<rparr>])) ''u'' \<le> 1
   \<and> foldl (bridge_step ex_pf ex_cfg ex_json) (bridge_init ex_init)
      [HttpRequest ex_fresh_draws ex_plain_req, AttachMessage ''s'' (WebSocket 0) \<lparr>is_text = True, msg_bytes = []\<rparr>]
     = foldl (bridge_step ex_pf ex_cfg ex_json) (bridge_init ex_init)
         [AttachMessage ''s'' (WebSocket 0) \<lparr>is_text = True, msg_bytes = []\<rparr>]"
proof -
  let ?m = "AttachMessage ''s'' (WebSocket 0) \<lparr>is_text = True, msg_bytes = []\<rparr>"
  let ?evs = "[HttpRequest ex_fresh_draws ex_plain_req, ?m]"
  have hosts: "map_wf [(''h'', \<lparr>host_type = ''docker_endpoint'', host_endpoint = ''x''\<rparr>)]" by (simp add: map_wf_def)
  have run: "bridge_regular_run ex_pf ex_cfg ex_json (bridge_init ex_init) ?evs"
    by (simp add: bridge_init_def ex_init_def tunnel_init_def ex_fresh_draws_def fresh_id_def sm_init_def)
  have "\<not> authorized ex_pf ex_cfg ex_plain_req now" for now
    by (simp add: authorized_def path_session_def ex_req_simps)
  then have quiet: "without_silent ex_pf ex_cfg ex_json (bridge_init ex_init) ?evs = [?m]" by simp
  have init: "bridge_init ex_init = bridge_init (tunnel_init (sm_init 2 1000)
      (pool_new [(''h'', \<lparr>host_type = ''docker_endpoint'', host_endpoint = ''x''\<rparr>)]) 1 5000)"
    by (simp add: ex_init_def ex_pool_def)
  note safe = bridge_runs_safe [OF hosts init run refl, unfolded quiet]
  show ?thesis using conjunct1 [OF safe] safe by blast
qed

theorem unauthorized_no_effect_witness:
  "\<exists>x. handleRoute ex_pf ex_cfg 0 ex_fresh_draws ex_plain_req ex_live = (ex_live, Answer x)
     \<and> resp_status x \<in> {400, 401, 500}"
  by (rule unauthorized_no_effect)
     (simp_all add: authorized_def path_session_def ex_req_simps)

lemma ex_proxy_token: "token_ok ex_pf now ''h.p.s'' ''s'' ''k''"
  by (simp add: token_ok_def authenticateSessionToken_def signed_payload_def expired_def ex_pf_def)

lemma ex_proxy_match: "proxy_match (req_path ex_proxy_req) = Some (''s'', ''/x'')"
  by (simp add: proxy_match_def segments_def ex_proxy_req_def)

lemma ex_proxy_valid: "session_token_valid ex_pf now ex_cfg (proxy_token ex_proxy_req) ''s''"
  using ex_proxy_token
  by (simp add: session_token_valid_def proxy_token_def bearer_def hdr_def starts_with_def
      ex_proxy_req_def ex_cfg_def)

lemma ex_proxy_route:
  "handleRoute ex_pf ex_cfg 0 ex_fresh_draws ex_proxy_req ex_live
     = session_proxy ex_pf ex_cfg ex_fresh_draws ''s'' ''/x'' ex_proxy_req ex_live"
proof -
  have "session_route ex_pf ex_cfg ex_proxy_req ex_live = None"
    by (simp add: session_route_def ex_proxy_req_def)
  then show ?thesis
    using ex_proxy_match by (simp add: handleRoute_def) (simp add: ex_proxy_req_def starts_with_def)
qed

lemma ex_proxy_awaits:
  "snd (session_proxy ex_pf ex_cfg ex_fresh_draws ''s'' rest ex_proxy_req ex_live)
     = AwaitStream ''u'' ''s'' (Sentinel 7)"
proof -
  have "snd (proxy_stream ex_fresh_draws ''s'' ex_proxy_req path ex_live)
      = AwaitStream ''u'' ''s'' (Sentinel 7)" for path
    by (simp add: proxy_stream_def ex_live_def ex_run_simps attach_def clear_grace_def clients_add_def
        proxyHTTPStreaming_def streaming_send_def ex_fresh_draws_def)
  moreover have "\<not> wants_websocket ex_proxy_req"
    by (simp add: wants_websocket_def hdr_def ex_proxy_req_def)
  ultimately show ?thesis
    using ex_live_session ex_proxy_valid by (auto simp: session_proxy_def)
qed

lemma ex_proxy_result:
  "handleRoute ex_pf ex_cfg 0 ex_fresh_draws ex_proxy_req ex_live
     = (fst (handleRoute ex_pf ex_cfg 0 ex_fresh_draws ex_proxy_req ex_live),
        AwaitStream ''u'' ''s'' (Sentinel 7))"
  unfolding ex_proxy_route by (metis ex_proxy_awaits prod.collapse)

theorem session_proxy_forwards_witness:
  "\<exists>e q hs len follows. exec_of ex_live ''s'' = Some e
    \<and> out (fst (handleRoute ex_pf ex_cfg 0 ex_fresh_draws ex_proxy_req ex_live)) = out ex_live
      @ [AgentFrame e (TextFrame (HTTPRequestMsg (Some ''u'') ''GET''
          (''/x'' @ (if q = [] then [] else CHR ''?'' # q)) hs len follows))]
    \<and> parse_query q = [(''a'', ''1'')]"
proof -
  have q: "filter (\<lambda>kv. fst kv \<noteq> ''token'') (parse_query (req_query ex_proxy_req)) = [(''a'', ''1'')]"
    by (simp add: ex_proxy_req_def parse_query_def parse_param_def)
  have m: "req_method ex_proxy_req = ''GET''" by (simp add: ex_proxy_req_def)
  have s: "session_id s = ''s''" if "sm_get (manager ex_live) ''s'' = Some s" for s
    using ex_live_session that by auto
  obtain target rest s q e where r: "Some (''s'', ''/x'') = Some (target, rest)"
    "sm_get (manager ex_live) target = Some s" "exec_of ex_live (session_id s) = Some e"
    "out (fst (handleRoute ex_pf ex_cfg 0 ex_fresh_draws ex_proxy_req ex_live)) = out ex_live
      @ [AgentFrame e (TextFrame (HTTPRequestMsg (Some ''u'') ''GET''
          ((if rest = [] then ''/'' else rest) @ (if q = [] then [] else CHR ''?'' # q))
          (filter (\<lambda>kv. to_lower (fst kv) \<notin> set HOP_BY_HOP_HEADERS
              \<and> \<not> starts_with (to_lower (fst kv)) ''x-tunnel-'') (req_headers ex_proxy_req))
          (if has_body (forward_body ex_proxy_req) then map_option length (forward_body ex_proxy_req) else None)
          (has_body (forward_body ex_proxy_req))))]"
    "parse_query q = [(''a'', ''1'')]"
    using session_proxy_forwards [OF ex_proxy_result] unfolding q m ex_proxy_match by blast
  have "target = ''s''" "rest = ''/x''" using r(1) by simp_all
  then show ?thesis using r(2-5) s [of s] by (simp only: list.distinct if_False) blast
qed

theorem session_token_reaches_container_witness:
  "\<exists>e path hs len follows. AgentFrame e (TextFrame (HTTPRequestMsg (Some ''u'') ''GET'' path hs len follows))
        \<in> set (out (fst (handleRoute ex_pf ex_cfg 0 ex_fresh_draws ex_proxy_req ex_live)))
    \<and> (''authorization'', ''Bearer h.p.s'') \<in> set hs"
  using session_token_reaches_container [OF ex_proxy_result, of "''Bearer h.p.s''"]
  by (simp add: ex_proxy_req_def)

section \<open>A shared link\<close>

definition ex_public :: create_options where
  "ex_public = ex_framed\<lparr>opt_isPublic := True, opt_desiredPublicId := Some ''tn-a''\<rparr>"

definition ex_shared :: tunnel where
  "ex_shared = foldl (tunnel_step ex_json) ex_init
     (ECreate 0 ''s'' (\<lambda>_. []) ''h'' ''c'' [] ''l'' ex_public # tl (take 4 ex_start))"

definition ex_link_req :: http_request where
  "ex_link_req = \<lparr>req_method = ''GET'', req_path = ''/-/tunnel/x'', req_query = ''token=h.p.s'',
     req_headers = [(''x-tunnel-public-id'', ''tn-a'')], req_body = []\<rparr>"

lemma ex_link_param: "search_param ex_link_req ''token'' = Some ''h.p.s''"
  by (simp add: search_param_def params_get_def parse_query_def parse_param_def ex_link_req_def)

lemma ex_link_auth: "tunnel_auth ex_pf now ex_cfg ex_link_req = (Some (JStr ''tn-a''), True)"
  unfolding tunnel_auth_def ex_link_param
  by (simp add: authenticateTunnel_def try_token_def validateTunnelJWT_def signed_payload_def
      expired_def extractCookie_def hdr_def ex_pf_def ex_cfg_def ex_link_req_def)

lemma ex_shared_session:
  "\<exists>s. sm_getByPublicId (manager ex_shared) ''tn-a'' = Some s \<and> session_id s = ''s'' \<and> agentReady s"
  by (simp add: ex_shared_def ex_public_def public_id_shape_def is_lower_alnum_def starts_with_def
      sm_getByPublicId_def ex_run_simps)

lemma ex_shared_direct:
  "snd (proxyHTTPDirect ''s'' ''u'' meth path hs body ex_shared) = Promised ''u''"
  by (simp add: ex_shared_def ex_public_def public_id_shape_def is_lower_alnum_def starts_with_def
      ex_run_simps)

lemma ex_link_result:
  "handleRoute ex_pf ex_cfg 0 ex_fresh_draws ex_link_req ex_shared
     = (fst (handleRoute ex_pf ex_cfg 0 ex_fresh_draws ex_link_req ex_shared),
        AwaitDirect ''u'' (Some ''h.p.s''))"
proof -
  have h: "hdr (req_headers ex_link_req) ''X-Tunnel-Public-Id'' = Some ''tn-a''"
    "\<not> wants_websocket ex_link_req"
    by (simp_all add: hdr_def wants_websocket_def ex_link_req_def)
  have "snd (handleTunnelTraffic ex_pf ex_cfg ex_fresh_draws ex_link_req ex_shared)
      = AwaitDirect ''u'' (Some ''h.p.s'')"
    using ex_shared_session ex_shared_direct [of "req_method ex_link_req"]
    by (auto simp: handleTunnelTraffic_def ex_link_auth h ex_link_param case_prod_unfold direct_answer_def
        Let_def ex_fresh_draws_def)
  moreover have "handleRoute ex_pf ex_cfg 0 ex_fresh_draws ex_link_req ex_shared
      = handleTunnelTraffic ex_pf ex_cfg ex_fresh_draws ex_link_req ex_shared"
    by (simp add: handleRoute_def ex_link_req_def starts_with_def)
  ultimately show ?thesis by (metis prod.collapse)
qed

theorem shared_link_not_cleaned_witness:
  "\<exists>e path hs len follows. AgentFrame e (TextFrame
      (HTTPRequestMsg (Some ''u'') ''GET'' (path @ ''?token=h.p.s'') hs len follows))
        \<in> set (out (fst (handleRoute ex_pf ex_cfg 0 ex_fresh_draws ex_link_req ex_shared)))"
  using shared_link_not_cleaned [OF ex_link_result] by (simp add: ex_link_req_def)

section \<open>Client messages\<close>

definition ex_client_json :: "buffer \<Rightarrow> string + tunnel_message" where
  "ex_client_json b =
     (if b = [0x7b] then Inr (HTTPRequestMsg (Some ''i'') ''POST'' ''/a'' [] None True)
      else if b = [0x7b, 1] then Inr (HTTPRequestMsg (Some ''j'') ''POST'' ''/b'' [] None True)
      else if b = [0x7b, 2] then Inr (WSDataMsg (Some ''k'') True)
      else Inl ''Unexpected token'')"

definition text_msg :: "buffer \<Rightarrow> ws_msg" where
  "text_msg b = \<lparr>is_text = True, msg_bytes = b\<rparr>"

definition bin_msg :: "buffer \<Rightarrow> ws_msg" where
  "bin_msg b = \<lparr>is_text = False, msg_bytes = b\<rparr>"

lemmas ex_msg_simps = text_msg_def bin_msg_def ex_client_json_def isParsableJSON_def

lemma ex_framed_live: "framed_live (bridge_init ex_live) ''s''"
  using ex_live_session by (auto simp: framed_live_def bridge_init_def)

lemma ex_announced:
  "attach_message ex_client_json ''s'' c (text_msg [0x7b]) (bridge_init ex_live)
     = (bridge_init ex_live)\<lparr>handler := touch ''s'' ex_live, pendingRequestBodies :=
          [''s'' \<mapsto> (''i'', HTTPRequestMsg (Some ''i'') ''POST'' ''/a'' [] None True)]\<rparr>"
  by (subst announce [OF ex_framed_live]) (simp_all add: ex_msg_simps bridge_init_def)

theorem body_pairing_witness:
  "handler (attach_message ex_client_json ''s'' (WebSocket 1) (bin_msg [0x7b, 9])
      (client_messages ex_client_json [(''s'', WebSocket 0, text_msg [0x7b])] (bridge_init ex_live)))
   = fst (proxyHTTPRequest ''s'' ''i'' (HTTPRequestMsg (Some ''i'') ''POST'' ''/a'' [] None True)
       (Some [0x7b, 9]) (touch ''s'' (touch ''s'' ex_live)))"
proof -
  let ?w = "client_messages ex_client_json [(''s'', WebSocket 0, text_msg [0x7b])] (bridge_init ex_live)"
  have h: "handler ?w = touch ''s'' ex_live" using ex_announced by simp
  have "framed_live ?w ''s''" using ex_framed_live unfolding framed_live_def h by (simp add: bridge_init_def)
  then have "handler (attach_message ex_client_json ''s'' (WebSocket 1) (bin_msg [0x7b, 9]) ?w)
      = fst (proxyHTTPRequest ''s'' ''i'' (HTTPRequestMsg (Some ''i'') ''POST'' ''/a'' [] None True)
          (Some (msg_bytes (bin_msg [0x7b, 9]))) (touch ''s'' (handler ?w)))"
    using body_pairing [OF ex_framed_live, where others = "[]" and w' = ?w and e = "text_msg [0x7b]"
        and d = "bin_msg [0x7b, 9]" and i = "''i''" and json = ex_client_json and meth = "''POST''"
        and path = "''/a''" and hs = "[]" and len = None and ws = "WebSocket 0" and ws' = "WebSocket 1"]
    by (simp add: ex_msg_simps)
  then show ?thesis unfolding h by (simp add: bin_msg_def)
qed

theorem bodies_swapped_witness:
  "handler (client_messages ex_client_json [(''s'', WebSocket 0, text_msg [0x7b]),
      (''s'', WebSocket 1, text_msg [0x7b, 1]), (''s'', WebSocket 0, bin_msg [8]),
      (''s'', WebSocket 1, bin_msg [9])] (bridge_init ex_live))
   = touch ''s'' (fst (proxyHTTPRequest ''s'' ''j'' (HTTPRequestMsg (Some ''j'') ''POST'' ''/b'' [] None True)
       (Some [8]) (touch ''s'' (touch ''s'' (touch ''s'' ex_live)))))"
proof -
  have e: "handler (bridge_init ex_live) = ex_live" by (simp add: bridge_init_def)
  show ?thesis
    using bodies_swapped [OF ex_framed_live, of "text_msg [0x7b]" "text_msg [0x7b, 1]" "''i''" "''j''"
        ex_client_json "''POST''" "''/a''" "[]" None "''POST''" "''/b''" "[]" None "bin_msg [8]" "bin_msg [9]"
        "WebSocket 0" "WebSocket 1"] unfolding e
    by (simp add: ex_msg_simps)
qed

lemma ex_forwarded_live:
  "framed_live (attach_message ex_client_json ''s'' c (text_msg [0x7b, 2]) (bridge_init ex_live)) ''s''"
proof -
  have "attach_message ex_client_json ''s'' c (text_msg [0x7b, 2]) (bridge_init ex_live)
      = (bridge_init ex_live)\<lparr>handler := fst (forwardWSData ''s'' ''k'' [0x7b, 2] (touch ''s'' ex_live))\<rparr>"
    by (simp add: framed_attach_message [OF ex_framed_live] framed_message_def)
       (simp add: ex_msg_simps bridge_init_def)
  moreover have "manager (fst (forwardWSData ''s'' ''k'' d t)) = manager t" for d t
    by (auto simp: forwardWSData_def client_send_def await_def emit_def split: option.splits)
  ultimately show ?thesis
    using ex_framed_live by (simp add: framed_live_def) (simp add: bridge_init_def)
qed

theorem ws_envelope_is_data_witness:
  "handler (client_messages ex_client_json [(''s'', WebSocket 0, text_msg [0x7b, 2]),
      (''s'', WebSocket 0, bin_msg [9])] (bridge_init ex_live))
   = touch ''s'' (fst (forwardWSData ''s'' ''k'' [0x7b, 2] (touch ''s'' ex_live)))"
proof -
  have e: "handler (bridge_init ex_live) = ex_live" by (simp add: bridge_init_def)
  show ?thesis
    using ws_envelope_is_data [OF ex_framed_live, of "text_msg [0x7b, 2]" "''k''" ex_client_json True
        "bin_msg [9]" "WebSocket 0"] ex_forwarded_live [of "WebSocket 0"] unfolding e
    by (simp add: ex_msg_simps) (simp add: bridge_init_def)
qed

end
