(* ===== verification/Task_State.thy ===== *)
theory Task_State
  imports Http
begin

text \<open>
  The task table of the platform API (packages/api, task/entities/task.entity.ts), the keys that
  make task creation idempotent (task/util/task-idempotency-key.util.ts) and the time buckets of
  schedules (shared/utils/timestamp.util.ts).  Times are milliseconds of one clock; JSON columns
  hold the value itself, whatever their encoding in the database.
\<close>

section \<open>Invocations\<close>

text \<open>\<open>TaskOnProgressConfig\<close> and \<open>TaskOnCompleteConfig\<close>: the task a handler creates, its condition,
  the template of its data and, for a completion handler, the completion handlers of that task.\<close>

datatype on_progress = OnProgress string "string option" "json option"

datatype on_complete = OnComplete string "string option" "json option" "on_complete list"

record event_context =
  ec_eventIdentifier :: string
  ec_emitterId :: string
  ec_eventId :: string
  ec_configIndex :: "nat option"
  ec_runtimeTriggerId :: "string option"
  ec_triggerKey :: "string option"
  ec_targetUserId :: "string option"
  ec_folderId :: "string option"
  ec_objectKey :: "string option"
  ec_eventData :: json

record schedule_context =
  sc_triggerKey :: string
  sc_config :: json
  sc_timestampBucket :: string
  sc_runtimeTriggerId :: "string option"

text \<open>\<open>TaskInvocation\<close>.  A system action without idempotency data draws a request id, which is
  its second argument.\<close>

datatype task_invocation =
    SystemAction "json option" string
  | EventTrigger event_context "on_complete list" "on_progress list"
  | ScheduleTrigger schedule_context
  | UserAction string string                       \<comment> \<open>user id, request id\<close>
  | AppAction string "on_complete list" "on_progress list"
  | CompleteChild string string bool json nat "on_complete list" "on_progress list"
      \<comment> \<open>parent id, its identifier, success and result, handler index\<close>
  | ProgressChild string string "string option" "string option" nat
      \<comment> \<open>parent id and identifier, code and timestamp of the report, handler index\<close>

fun inv_kind :: "task_invocation \<Rightarrow> string" where
  "inv_kind (SystemAction d r) = ''system_action''"
| "inv_kind (EventTrigger c oc op) = ''event''"
| "inv_kind (ScheduleTrigger c) = ''schedule''"
| "inv_kind (UserAction u r) = ''user_action''"
| "inv_kind (AppAction r oc op) = ''app_action''"
| "inv_kind (CompleteChild p q s r n oc op) = ''task_complete_child''"
| "inv_kind (ProgressChild p q c t n) = ''task_progress_child''"

fun inv_onComplete :: "task_invocation \<Rightarrow> on_complete list" where
  "inv_onComplete (EventTrigger c oc op) = oc"
| "inv_onComplete (AppAction r oc op) = oc"
| "inv_onComplete (CompleteChild p q s r n oc op) = oc"
| "inv_onComplete _ = []"

fun inv_onProgress :: "task_invocation \<Rightarrow> on_progress list" where
  "inv_onProgress (EventTrigger c oc op) = op"
| "inv_onProgress (AppAction r oc op) = op"
| "inv_onProgress (CompleteChild p q s r n oc op) = op"
| "inv_onProgress _ = []"

section \<open>Idempotency keys\<close>

definition nat_json :: "nat \<Rightarrow> json" where
  "nat_json n = JNum (of_nat n)"

definition null_or :: "('a \<Rightarrow> json) \<Rightarrow> 'a option \<Rightarrow> json" where
  "null_or f x = (case x of None \<Rightarrow> JNull | Some v \<Rightarrow> f v)"

fun buildTriggerIdempotencyData :: "task_invocation \<Rightarrow> json" where
  "buildTriggerIdempotencyData (SystemAction d r) =
     (if nullish d then JObj [(''requestId'', JStr r)] else the d)"
| "buildTriggerIdempotencyData (EventTrigger c oc op) = JObj
     [(''eventIdentifier'', JStr (ec_eventIdentifier c)), (''emitterId'', JStr (ec_emitterId c)),
      (''eventId'', JStr (ec_eventId c)),
      (''eventTriggerConfigIndex'', null_or nat_json (ec_configIndex c)),
      (''runtimeTriggerId'', null_or JStr (ec_runtimeTriggerId c))]"
| "buildTriggerIdempotencyData (ScheduleTrigger c) = JObj
     [(''triggerKey'', JStr (sc_triggerKey c)), (''config'', sc_config c),
      (''timestampBucket'', JStr (sc_timestampBucket c))]"
| "buildTriggerIdempotencyData (UserAction u r) = JObj [(''requestId'', JStr r)]"
| "buildTriggerIdempotencyData (AppAction r oc op) = JObj [(''requestId'', JStr r)]"
| "buildTriggerIdempotencyData (CompleteChild p q s r n oc op) = JObj
     [(''parentTaskId'', JStr p), (''onCompleteHandlerIndex'', nat_json n)]"
| "buildTriggerIdempotencyData (ProgressChild p q c t n) = JObj
     [(''parentTaskId'', JStr p), (''onProgressHandlerIndex'', nat_json n),
      (''progressReportCode'', null_or JStr c), (''progressReportTimestamp'', null_or JStr t)]"

text \<open>\<open>hash\<close> is the SHA-1 of the serialised value, in hex.\<close>

definition buildTaskIdempotencyKey :: "(json \<Rightarrow> string) \<Rightarrow> string \<Rightarrow> string \<Rightarrow> task_invocation \<Rightarrow> string" where
  "buildTaskIdempotencyKey hash owner identifier ti =
     inv_kind ti @ CHR '':'' # hash (JObj [(''ownerId'', JStr owner), (''taskIdentifier'', JStr identifier),
       (''triggerData'', buildTriggerIdempotencyData ti)])"

section \<open>Tasks\<close>

record log_entry =
  log_at :: int
  log_type :: string
  log_message :: string
  log_payload :: "json option"

record error_info =
  err_code :: string
  err_name :: "string option"
  err_message :: string
  err_stack :: "string option"
  err_cause :: "json option"
  err_details :: "json option"

text \<open>\<open>TaskProgressMessage\<close> and \<open>ReceivedTaskProgressReport\<close>.\<close>

datatype message_level = Debug | Info | Warn | Error
datatype audience = System | User

record update_message =
  um_level :: message_level
  um_text :: string
  um_audience :: audience

record progress_report =
  pr_code :: "string option"
  pr_details :: "json option"
  pr_message :: "update_message option"
  pr_timestamp :: "string option"
  pr_executorMetadata :: "json option"
  pr_receivedAt :: int

record task =
  task_id :: string
  ownerId :: string
  taskIdentifier :: string
  task_data :: json
  storageAccessPolicy :: "json option"
  taskDescription :: string
  invocation :: task_invocation
  idempotencyKey :: string
  targetUserId :: "string option"
  targetFolderId :: "string option"
  targetObjectKey :: "string option"
  startedAt :: "int option"
  completedAt :: "int option"
  attemptCount :: nat
  failureCount :: nat
  dontStartBefore :: "int option"
  systemLog :: "log_entry list"
  taskLog :: "log_entry list"
  success :: "bool option"
  task_error :: "error_info option"
  task_createdAt :: int
  task_updatedAt :: int
  latestHeartbeatAt :: "int option"
  handlerType :: string
  handlerIdentifier :: "string option"
  progressReports :: "progress_report list"
  correlationKey :: "string option"
  progress :: "json option"

type_synonym task_table = "(string, task) js_map"

definition MAX_TASK_ATTEMPTS :: nat where "MAX_TASK_ATTEMPTS = 5"

text \<open>An insert fails on a duplicate primary key and on a duplicate idempotency key.\<close>

definition insert_task :: "task \<Rightarrow> task_table \<Rightarrow> task_table option" where
  "insert_task x db =
     (if map_of db (task_id x) \<noteq> None \<or> idempotencyKey x \<in> (idempotencyKey \<circ> snd) ` set db then None
      else Some (db @ [(task_id x, x)]))"

fun insert_all :: "task list \<Rightarrow> task_table \<Rightarrow> task_table option" where
  "insert_all [] db = Some db"
| "insert_all (x # xs) db = (case insert_task x db of None \<Rightarrow> None | Some db' \<Rightarrow> insert_all xs db')"

definition update_task :: "string \<Rightarrow> (task \<Rightarrow> task) \<Rightarrow> task_table \<Rightarrow> task_table" where
  "update_task i f db = map (\<lambda>(j, x). if j = i then (j, f x) else (j, x)) db"

section \<open>Schedule buckets\<close>

datatype interval_unit = Minutes | Hours | Days | Seconds

fun UNIT_SECONDS :: "interval_unit \<Rightarrow> int" where
  "UNIT_SECONDS Minutes = 60"
| "UNIT_SECONDS Hours = 60 * 60"
| "UNIT_SECONDS Days = 24 * 60 * 60"
| "UNIT_SECONDS Seconds = 1"

text \<open>The index and the start of the bucket of a time; an interval that is not positive is an
  exception.\<close>

definition getUtcTimestampBucket :: "int \<Rightarrow> interval_unit \<Rightarrow> int \<Rightarrow> string + int \<times> int" where
  "getUtcTimestampBucket interval unit t =
     (if interval \<le> 0 then Inl ''interval must be > 0''
      else
        let periodSeconds = interval * UNIT_SECONDS unit;
            epochSeconds = t div 1000;
            bucketIndex = epochSeconds div periodSeconds
        in Inr (bucketIndex, bucketIndex * periodSeconds * 1000))"

lemma unit_seconds_pos [simp]: "0 < UNIT_SECONDS u"
  by (cases u) simp_all

lemma unit_seconds_nonzero [simp]: "UNIT_SECONDS u \<noteq> 0"
  by (cases u) simp_all

text \<open>The bucket of a time starts at a multiple of the period, contains the time, and two
  times get the same bucket exactly when no bucket boundary lies between them; so the
  idempotency key of a schedule is the same for all runs inside one period and changes at its
  end.\<close>

theorem bucket_exact:
  assumes "getUtcTimestampBucket n u t = Inr (i, s)" and "getUtcTimestampBucket n u t' = Inr (i', s')"
  shows "s mod (n * UNIT_SECONDS u * 1000) = 0 \<and> s \<le> t \<and> t < s + n * UNIT_SECONDS u * 1000
    \<and> (s = s' \<longleftrightarrow> i = i') \<and> (s = s' \<longleftrightarrow> s \<le> t' \<and> t' < s + n * UNIT_SECONDS u * 1000)"
proof -
  let ?p = "n * UNIT_SECONDS u"
  have n: "0 < n" and i: "i = t div 1000 div ?p" "s = i * ?p * 1000"
    and i': "i' = t' div 1000 div ?p" "s' = i' * ?p * 1000"
    using assms by (auto simp: getUtcTimestampBucket_def Let_def split: if_splits)
  have p: "0 < ?p * 1000" using n by simp
  have p0: "0 \<le> ?p" using p by simp
  have flat: "x div 1000 div ?p = x div (?p * 1000)" for x :: int
    using zdiv_zmult2_eq [OF p0, of x 1000] by (simp add: mult.commute)
  have in_bucket: "x div (?p * 1000) = k \<longleftrightarrow> k * (?p * 1000) \<le> x \<and> x < k * (?p * 1000) + ?p * 1000" for x k
  proof
    assume "x div (?p * 1000) = k"
    then show "k * (?p * 1000) \<le> x \<and> x < k * (?p * 1000) + ?p * 1000"
      using div_mult_mod_eq [of x "?p * 1000"] pos_mod_bound [OF p, of x] pos_mod_sign [OF p, of x] by simp
  next
    assume "k * (?p * 1000) \<le> x \<and> x < k * (?p * 1000) + ?p * 1000"
    then show "x div (?p * 1000) = k"
      by (intro int_div_pos_eq [where r = "x - k * (?p * 1000)"]) (simp_all add: mult.commute)
  qed
  have s: "s = i * (?p * 1000)" "s' = i' * (?p * 1000)" using i(2) i'(2) by simp_all
  have "s = s' \<longleftrightarrow> i = i'" unfolding s using n by simp
  moreover have "s \<le> t \<and> t < s + ?p * 1000"
    unfolding s using in_bucket [of t i] i(1) flat by simp
  moreover have "i' = i \<longleftrightarrow> s \<le> t' \<and> t' < s + ?p * 1000"
    unfolding s using in_bucket [of t' i] i'(1) flat by simp
  ultimately show ?thesis unfolding s by auto
qed

theorem bucket_exact_witness:
  "getUtcTimestampBucket 5 Minutes 600123 = Inr (2, 600000)
    \<and> ((600000::int) = 600000 \<longleftrightarrow> (2::int) = 2)"
  using bucket_exact [of 5 Minutes 600123 2 600000 600123 2 600000]
  by (simp add: getUtcTimestampBucket_def)

end
