(* ===== verification/Task_Env.thy ===== *)
theory Task_Env
  imports Task_State
begin

text \<open>
  What the task engine works on: the apps and their triggers (rows the engine only reads), the
  functions of other parts it calls, the tables it writes, and transactions.  An operation is a
  function from the database to a result or an exception and the database it leaves;
  \<open>transaction\<close> restores the tables when the body throws, but not what the body did on another
  connection, nor the messages it sent.
\<close>

section \<open>Apps and triggers\<close>

record task_def =
  td_identifier :: string
  td_description :: string
  td_handlerType :: string
  td_handlerIdentifier :: "string option"

datatype schedule_config = IntervalSchedule int interval_unit | CronSchedule string "string option"

record event_trigger =
  et_eventIdentifier :: string
  et_taskIdentifier :: string
  et_condition :: "string option"
  et_dataTemplate :: "json option"
  et_triggerKey :: "string option"
  et_onComplete :: "on_complete list"
  et_onProgress :: "on_progress list"

record schedule_trigger =
  st_taskIdentifier :: string
  st_triggerKey :: string
  st_config :: schedule_config

datatype trigger_config = EventTrig event_trigger | ScheduleTrig schedule_trigger | UserActionTrig

record app =
  app_id :: string
  app_identifier :: string
  app_enabled :: bool
  subscribedCoreEvents :: "string list"
  app_tasks :: "task_def list"
  app_triggers :: "trigger_config list"

record runtime_trigger =
  rt_id :: string
  rt_appId :: string
  rt_definition :: trigger_config

text \<open>The outcome of an access check of the app service.\<close>

datatype access = Allowed | Unauthorized | AccessError string

text \<open>
  \<open>hash\<close> is the SHA-1 of a serialised value, \<open>sha256\<close> the digest of a string, \<open>uuid\<close> the \<open>n\<close>-th
  random UUID drawn, \<open>iso\<close>, \<open>date_string\<close> and \<open>parse_date\<close> the conversions of a \<open>Date\<close>, \<open>cron_prev\<close> the
  last fire of a cron expression before a time (cron-parser), \<open>eval_condition\<close> the evaluation of
  a condition (util/eval-condition.util.ts, on jexpr) and \<open>dataFromTemplate\<close> the interpolation of
  a template (core/utils/data-template.util.ts); the access checks belong to the app service.
\<close>

record task_env =
  apps :: "app list"
  runtime_triggers :: "runtime_trigger list"
  validateAppFolderAccess :: "string \<Rightarrow> string \<Rightarrow> access"
  validateAppUserAccess :: "string \<Rightarrow> string \<Rightarrow> access"
  validateAppStorageAccessPolicy :: "string \<Rightarrow> json \<Rightarrow> access"
  eval_condition :: "string \<Rightarrow> json \<Rightarrow> bool"
  dataFromTemplate :: "string \<Rightarrow> json \<Rightarrow> json \<Rightarrow> string + json"
  hash :: "json \<Rightarrow> string"
  sha256 :: "string \<Rightarrow> string"
  uuid :: "nat \<Rightarrow> string"
  iso :: "int \<Rightarrow> string"
  date_string :: "int \<Rightarrow> string"
  parse_date :: "string \<Rightarrow> int"
  cron_prev :: "string \<Rightarrow> string \<Rightarrow> int \<Rightarrow> string + int"

definition CORE_IDENTIFIER :: string where "CORE_IDENTIFIER = ''core''"

definition getApp :: "task_env \<Rightarrow> string \<Rightarrow> app option" where
  "getApp env i = find (\<lambda>a. app_identifier a = i \<and> app_enabled a) (apps env)"

definition find_task_def :: "app \<Rightarrow> string \<Rightarrow> task_def option" where
  "find_task_def a i = find (\<lambda>d. td_identifier d = i) (app_tasks a)"

section \<open>The database and transactions\<close>

record event =
  event_id :: string
  event_identifier :: string
  event_emitterId :: string
  event_targetUserId :: "string option"
  event_folderId :: "string option"
  event_objectKey :: "string option"
  event_data :: json
  event_aggregationKey :: "string option"
  event_createdAt :: int
  event_handledAt :: "int option"       \<comment> \<open>\<open>aggregationHandledAt\<close>\<close>

datatype update_type = task_started | task_progress | task_completed | task_requeued | task_failed

text \<open>Messages: socket notices, the call of the update broadcaster and the start of a drain of the
  core tasks.\<close>

datatype notice =
    FolderTaskCreated string string string        \<comment> \<open>folder, task id, task identifier\<close>
  | FolderTaskUpdated string string string
  | FolderEventCreated string string string       \<comment> \<open>folder, event id, event identifier\<close>
  | NudgeServer string string                     \<comment> \<open>event id, event identifier\<close>
  | AppUserEvent string string string             \<comment> \<open>app, user, event id\<close>
  | TaskUpdate task update_type int "progress_report option"
  | StartDrain
  | TelemetryDue task                             \<comment> \<open>telemetry started inside a transaction\<close>
  | NotificationDelivered string string           \<comment> \<open>user, notification id\<close>

text \<open>Notifications and their deliveries (packages/api, notification/entities).\<close>

record notification =
  ntf_id :: string
  ntf_eventIdentifier :: string
  ntf_emitterIdentifier :: string
  ntf_aggregationKey :: string
  ntf_folderId :: "string option"
  ntf_objectKey :: "string option"
  ntf_targetUserId :: "string option"
  ntf_eventIds :: "string list"
  ntf_title :: string
  ntf_body :: "string option"
  ntf_path :: "string option"
  ntf_createdAt :: int

datatype channel_status = PendingChannel | SentChannel | FailedChannel

record delivery =
  dl_id :: string
  dl_notificationId :: string
  dl_userId :: string
  dl_email :: "channel_status option"
  dl_mobile :: "channel_status option"

text \<open>An email, and the delivery it is sent for.\<close>

record email =
  em_delivery :: string
  em_to :: string
  em_from :: string
  em_subject :: string
  em_text :: string
  em_html :: string

text \<open>\<open>outbox\<close> holds the emails the provider has accepted, \<open>outside\<close> the rows that were inserted on another connection since the current
  transaction began.\<close>

record task_db =
  tasks :: task_table
  events :: "(string, event) js_map"
  outside :: "task list"
  drawn :: nat
  sent :: "notice list"
  runningTasksCount :: nat
  notifications :: "notification list"
  deliveries :: "delivery list"
  outbox :: "email list"

definition empty_db :: task_db where
  "empty_db = \<lparr>tasks = [], events = [], outside = [], drawn = 0, sent = [], runningTasksCount = 0,
     notifications = [], deliveries = [], outbox = []\<rparr>"

text \<open>\<open>NoReturn\<close> is the outcome of a computation that used up its fuel.\<close>

datatype tx_error = Thrown string | NoReturn

type_synonym 'a txm = "task_db \<Rightarrow> (tx_error + 'a) \<times> task_db"

definition tx_return :: "'a \<Rightarrow> 'a txm" where "tx_return x = (\<lambda>db. (Inr x, db))"
definition tx_throw :: "string \<Rightarrow> 'a txm" where "tx_throw e = (\<lambda>db. (Inl (Thrown e), db))"

definition tx_bind :: "'a txm \<Rightarrow> ('a \<Rightarrow> 'b txm) \<Rightarrow> 'b txm" where
  "tx_bind m f = (\<lambda>db. case m db of (Inl e, db') \<Rightarrow> (Inl e, db') | (Inr x, db') \<Rightarrow> f x db')"

definition tx_then :: "unit txm \<Rightarrow> 'b txm \<Rightarrow> 'b txm" where
  "tx_then m n = tx_bind m (\<lambda>_. n)"

definition tx_when :: "bool \<Rightarrow> unit txm \<Rightarrow> unit txm" where
  "tx_when b m = (if b then m else tx_return ())"

fun tx_each :: "('a \<Rightarrow> unit txm) \<Rightarrow> 'a list \<Rightarrow> unit txm" where
  "tx_each f [] = tx_return ()"
| "tx_each f (x # xs) = tx_then (f x) (tx_each f xs)"

fun tx_collect :: "('a \<Rightarrow> 'b list txm) \<Rightarrow> 'a list \<Rightarrow> 'b list txm" where
  "tx_collect f [] = tx_return []"
| "tx_collect f (x # xs) = tx_bind (f x) (\<lambda>ys. tx_bind (tx_collect f xs) (\<lambda>zs. tx_return (ys @ zs)))"

definition tx_lift :: "string + 'a \<Rightarrow> 'a txm" where
  "tx_lift r = (case r of Inl e \<Rightarrow> tx_throw e | Inr x \<Rightarrow> tx_return x)"

definition draw_uuid :: "task_env \<Rightarrow> string txm" where
  "draw_uuid env = (\<lambda>db. (Inr (uuid env (drawn db)), db\<lparr>drawn := Suc (drawn db)\<rparr>))"

definition send :: "notice \<Rightarrow> unit txm" where
  "send n = (\<lambda>db. (Inr (), db\<lparr>sent := sent db @ [n]\<rparr>))"

definition find_task :: "string \<Rightarrow> task option txm" where
  "find_task i = (\<lambda>db. (Inr (map_of (tasks db) i), db))"

text \<open>\<open>tx.insert(tasksTable).values(rows)\<close>: one statement, all rows or an exception.\<close>

definition insert_tasks :: "task list \<Rightarrow> unit txm" where
  "insert_tasks xs = (\<lambda>db. case insert_all xs (tasks db) of
     None \<Rightarrow> (Inl (Thrown ''duplicate key value violates unique constraint''), db)
   | Some t \<Rightarrow> (Inr (), db\<lparr>tasks := t\<rparr>))"

text \<open>\<open>db.insert(tasksTable).values(row).onConflictDoNothing()\<close> on the pool.\<close>

definition insert_outside :: "task \<Rightarrow> unit txm" where
  "insert_outside x = (\<lambda>db. case insert_task x (tasks db) of
     None \<Rightarrow> (Inr (), db)
   | Some t \<Rightarrow> (Inr (), db\<lparr>tasks := t, outside := outside db @ [x]\<rparr>))"

text \<open>\<open>tx.update(tasksTable).set(f).where(id = i and p).returning()\<close>.\<close>

definition update_where :: "string \<Rightarrow> (task \<Rightarrow> bool) \<Rightarrow> (task \<Rightarrow> task) \<Rightarrow> task option txm" where
  "update_where i p f = (\<lambda>db. case map_of (tasks db) i of
     None \<Rightarrow> (Inr None, db)
   | Some x \<Rightarrow> if p x then (Inr (Some (f x)), db\<lparr>tasks := update_task i f (tasks db)\<rparr>) else (Inr None, db))"

definition insert_event :: "event \<Rightarrow> unit txm" where
  "insert_event e = (\<lambda>db. if map_of (events db) (event_id e) \<noteq> None
     then (Inl (Thrown ''duplicate key value violates unique constraint''), db)
     else (Inr (), db\<lparr>events := events db @ [(event_id e, e)]\<rparr>))"

definition transaction :: "'a txm \<Rightarrow> 'a txm" where
  "transaction m = (\<lambda>db. case m (db\<lparr>outside := []\<rparr>) of
     (Inr x, db') \<Rightarrow> (Inr x, db'\<lparr>outside := []\<rparr>)
   | (Inl e, db') \<Rightarrow> (Inl e, db'\<lparr>outside := [], events := events db,
       notifications := notifications db, deliveries := deliveries db,
       tasks := tasks db @ map (\<lambda>x. (task_id x, x)) (outside db')\<rparr>))"

end
