(* ===== verification/Task_Events.thy ===== *)
theory Task_Events
  imports Task_Env
begin

text \<open>
  Events and the tasks they create (packages/api, event/services/event.service.ts), with the core
  tasks of an event (task/constants/core-tasks.constants.ts) and the notification batching
  (notification/config/notification-batching.config.ts, notification/util/aggregation-key.util.ts).
  Creating a task that runs in a container or a worker emits an event, which may create tasks
  again: the recursion has a fuel argument, and \<open>NoReturn\<close> when it is used up.  The callbacks of
  a \<open>Promise.all\<close> run in list order.
\<close>

section \<open>New tasks\<close>

definition blank_task :: "task_env \<Rightarrow> string \<Rightarrow> string \<Rightarrow> string \<Rightarrow> string \<Rightarrow> task_invocation \<Rightarrow> json \<Rightarrow>
    string \<Rightarrow> int \<Rightarrow> task" where
  "blank_task env i owner identifier description ti data handler now =
     \<lparr>task_id = i, ownerId = owner, taskIdentifier = identifier, task_data = data,
      storageAccessPolicy = None, taskDescription = description, invocation = ti,
      idempotencyKey = buildTaskIdempotencyKey (hash env) owner identifier ti,
      targetUserId = None, targetFolderId = None, targetObjectKey = None, startedAt = None,
      completedAt = None, attemptCount = 0, failureCount = 0, dontStartBefore = None,
      systemLog = [], taskLog = [], success = None, task_error = None, task_createdAt = now,
      task_updatedAt = now, latestHeartbeatAt = None, handlerType = handler,
      handlerIdentifier = None, progressReports = [], correlationKey = None, progress = None\<rparr>"

section \<open>Events\<close>

datatype event_target = NoTarget | TargetUser string | TargetFolder string "string option"

fun target_user :: "event_target \<Rightarrow> string option" where
  "target_user (TargetUser u) = Some u"
| "target_user _ = None"

fun target_folder :: "event_target \<Rightarrow> string option" where
  "target_folder (TargetFolder f k) = Some f"
| "target_folder _ = None"

fun target_object :: "event_target \<Rightarrow> string option" where
  "target_object (TargetFolder f k) = k"
| "target_object _ = None"

record event_args =
  emitterIdentifier :: string
  eventIdentifier :: string
  ea_data :: json
  ea_target :: event_target

definition valid_event_identifier :: "string \<Rightarrow> bool" where
  "valid_event_identifier s = (s \<noteq> [] \<and>
     list_all (\<lambda>c. (97 \<le> (of_char c :: nat) \<and> (of_char c :: nat) \<le> 122) \<or> c = CHR ''_'') s)"

text \<open>The event row as the conditions and templates of a trigger see it.\<close>

definition event_object :: "task_env \<Rightarrow> event \<Rightarrow> json" where
  "event_object env e = JObj
     [(''id'', JStr (event_id e)), (''eventIdentifier'', JStr (event_identifier e)),
      (''emitterId'', JStr (event_emitterId e)), (''targetUserId'', null_or JStr (event_targetUserId e)),
      (''actorUserId'', JNull), (''targetLocationFolderId'', null_or JStr (event_folderId e)),
      (''targetLocationObjectKey'', null_or JStr (event_objectKey e)), (''data'', event_data e),
      (''aggregationKey'', null_or JStr (event_aggregationKey e)), (''aggregationHandledAt'', null_or (JStr \<circ> iso env) (event_handledAt e)),
      (''createdAt'', JStr (iso env (event_createdAt e)))]"

datatype trigger_ref = ConfigRef nat | RuntimeRef string

definition buildEventInvocation :: "event \<Rightarrow> trigger_ref \<Rightarrow> string option \<Rightarrow> event_context" where
  "buildEventInvocation e ref triggerKey =
     \<lparr>ec_eventIdentifier = event_identifier e, ec_emitterId = event_emitterId e,
      ec_eventId = event_id e,
      ec_configIndex = (case ref of ConfigRef n \<Rightarrow> Some n | RuntimeRef r \<Rightarrow> None),
      ec_runtimeTriggerId = (case ref of ConfigRef n \<Rightarrow> None | RuntimeRef r \<Rightarrow> Some r),
      ec_triggerKey = (if truthy triggerKey then triggerKey else None),
      ec_targetUserId = event_targetUserId e,
      ec_folderId = (if truthy (event_folderId e) then event_folderId e else None),
      ec_objectKey = (if truthy (event_folderId e) then event_objectKey e else None),
      ec_eventData = event_data e\<rparr>"

section \<open>Core tasks of an event\<close>

record core_task_def =
  ct_identifier :: string
  ct_description :: string
  ct_data :: json
  ct_folder :: "string option"
  ct_object :: "string option"
  ct_dontStartBefore :: "int option"

definition data_field :: "event \<Rightarrow> string \<Rightarrow> json option" where
  "data_field e k = (case js_prop (event_data e) k of None \<Rightarrow> None | Some v \<Rightarrow> v)"

text \<open>\<open>event.data?.k ?? null\<close>, as a field of the built data.\<close>

definition copy_field :: "event \<Rightarrow> string \<Rightarrow> string \<times> json" where
  "copy_field e k = (k, case data_field e k of None \<Rightarrow> JNull | Some v \<Rightarrow> v)"

definition data_date :: "task_env \<Rightarrow> event \<Rightarrow> int option" where
  "data_date env e = (case data_field e ''dontStartBefore'' of
     Some (JStr s) \<Rightarrow> Some (parse_date env s) | _ \<Rightarrow> None)"

definition core_event_tasks :: "task_env \<Rightarrow> event \<Rightarrow> core_task_def list" where
  "core_event_tasks env e =
     (if event_identifier e = ''object_added'' then
        [\<lparr>ct_identifier = ''analyze_object'',
          ct_description = ''Generate metadata and previews for an object'',
          ct_data = JObj [(''folderId'', null_or JStr (event_folderId e)),
                          (''objectKey'', null_or JStr (event_objectKey e))],
          ct_folder = event_folderId e,
          ct_object = (if truthy (event_folderId e) then event_objectKey e else None),
          ct_dontStartBefore = None\<rparr>]
      else if event_identifier e = ''new_user_registered'' then
        (if js_truthy (data_field e ''userEmail'')
            \<and> data_field e ''userEmailVerified'' = Some (JBool False)
         then [\<lparr>ct_identifier = ''send_email_verification_link'',
                ct_description = ''Send email verification link to a newly signed-up user'',
                ct_data = JObj (List.map_filter (\<lambda>k. map_option (Pair k) (data_field e k))
                                  [''userId'', ''userEmail'']),
                ct_folder = None, ct_object = None, ct_dontStartBefore = None\<rparr>]
         else [])
      else if event_identifier e = ''docker_task_enqueued'' then
        [\<lparr>ct_identifier = ''run_docker_worker'',
          ct_description = ''Run a docker worker to execute a task'',
          ct_data = JObj (map (copy_field e)
            [''innerTaskId'', ''appIdentifier'', ''profileIdentifier'', ''jobClassIdentifier'']),
          ct_folder = None, ct_object = None, ct_dontStartBefore = data_date env e\<rparr>]
      else if event_identifier e = ''serverless_task_enqueued'' then
        [\<lparr>ct_identifier = ''run_serverless_worker'',
          ct_description = ''Run a serverless worker to execute a task'',
          ct_data = JObj (map (copy_field e) [''innerTaskId'', ''appIdentifier'', ''workerIdentifier'']),
          ct_folder = None, ct_object = None, ct_dontStartBefore = data_date env e\<rparr>]
      else [])"

definition core_task_of :: "task_env \<Rightarrow> event \<Rightarrow> int \<Rightarrow> nat \<Rightarrow> core_task_def \<Rightarrow> string \<Rightarrow> task" where
  "core_task_of env e now n d i =
     (blank_task env i CORE_IDENTIFIER (ct_identifier d) (ct_description d)
        (EventTrigger (buildEventInvocation e (ConfigRef n) None) [] []) (ct_data d)
        CORE_IDENTIFIER now)
     \<lparr>dontStartBefore := ct_dontStartBefore d, targetFolderId := ct_folder d,
      targetObjectKey := ct_object d\<rparr>"

definition gatherCoreTasksForEvent :: "task_env \<Rightarrow> event \<Rightarrow> int \<Rightarrow> task list txm" where
  "gatherCoreTasksForEvent env e now =
     (if event_emitterId e \<noteq> CORE_IDENTIFIER then tx_return []
      else tx_collect (\<lambda>(n, d). tx_bind (draw_uuid env) (\<lambda>i. tx_return [core_task_of env e now n d i]))
             (List.enumerate 0 (core_event_tasks env e)))"

section \<open>Notification batching\<close>

datatype aggregation_scope = SERVER | FOLDER | FOLDER_OBJECT

text \<open>\<open>None\<close>: no notifications for this event.\<close>

definition getCoreEventAggregationConfig :: "string \<Rightarrow> aggregation_scope option" where
  "getCoreEventAggregationConfig i =
     (if i \<in> {''object_added'', ''object_removed'', ''object_updated'', ''folder_scanned''}
      then Some FOLDER else None)"

definition buildAggregationKey :: "task_env \<Rightarrow> string \<Rightarrow> string \<Rightarrow> string option \<Rightarrow> string option \<Rightarrow> string" where
  "buildAggregationKey env emitter identifier folder key =
     join_on (CHR '':'')
       [emitter @ CHR '':'' # identifier,
        case folder of None \<Rightarrow> [] | Some f \<Rightarrow> f,
        if truthy key then sha256 env (the key) else []]"

definition event_aggregation :: "task_env \<Rightarrow> event_args \<Rightarrow> string option" where
  "event_aggregation env a =
     (if emitterIdentifier a \<noteq> CORE_IDENTIFIER then None
      else case getCoreEventAggregationConfig (eventIdentifier a) of
          None \<Rightarrow> None
        | Some s \<Rightarrow> Some (buildAggregationKey env (emitterIdentifier a) (eventIdentifier a)
            (if s = FOLDER then target_folder (ea_target a) else None)
            (if s = FOLDER_OBJECT then target_object (ea_target a) else None)))"

text \<open>The task that builds the notifications of a batch, inserted on the pool.\<close>

definition enqueue_notifications :: "task_env \<Rightarrow> int \<Rightarrow> string \<Rightarrow> unit txm" where
  "enqueue_notifications env now key =
     (case getUtcTimestampBucket 5 Seconds (now + 5000) of
        Inl e \<Rightarrow> tx_throw e
      | Inr (bucketIndex, bucketStart) \<Rightarrow>
          tx_bind (draw_uuid env) (\<lambda>i.
            insert_outside
              ((blank_task env i CORE_IDENTIFIER ''create_event_notifications''
                  ''Create event notifications''
                  (SystemAction (Some (JObj
                     [(''aggregationKey'', JStr key), (''bucketIndex'', JNum (of_int bucketIndex)),
                      (''bucketStart'', JStr (date_string env bucketStart))])) [])
                  (JObj [(''aggregationKey'', JStr key)]) ''core'' now)
               \<lparr>dontStartBefore := Some (now + 5000 + 500)\<rparr>)))"

section \<open>Emitting an event\<close>

text \<open>The access checks before anything is written: \<open>False\<close> when the event is dropped.\<close>

definition check_access :: "access list \<Rightarrow> string + bool" where
  "check_access cs = (case find (\<lambda>c. c \<noteq> Allowed) cs of
       None \<Rightarrow> Inr True
     | Some (AccessError e) \<Rightarrow> Inl e
     | Some _ \<Rightarrow> Inr False)"

definition emitter_access :: "task_env \<Rightarrow> event_args \<Rightarrow> string + bool" where
  "emitter_access env a = check_access
     ((case target_folder (ea_target a) of None \<Rightarrow> []
        | Some f \<Rightarrow> [validateAppFolderAccess env (emitterIdentifier a) f]) @
      (case target_user (ea_target a) of None \<Rightarrow> []
        | Some u \<Rightarrow> [validateAppUserAccess env (emitterIdentifier a) u]))"

definition checkAppAccess :: "task_env \<Rightarrow> event_args \<Rightarrow> string \<Rightarrow> string + bool" where
  "checkAppAccess env a i = check_access
     (case ea_target a of NoTarget \<Rightarrow> []
      | TargetFolder f k \<Rightarrow> [validateAppFolderAccess env i f]
      | TargetUser u \<Rightarrow> [validateAppUserAccess env i u])"

text \<open>\<open>emitRunnableTaskEnqueuedEvent\<close>: the event of a task that a container or a worker runs.\<close>

definition handler_part :: "nat \<Rightarrow> task \<Rightarrow> json" where
  "handler_part n x = (case handlerIdentifier x of None \<Rightarrow> JNull
     | Some s \<Rightarrow> (let ps = split_on (CHR '':'') s in if n < length ps then JStr (ps ! n) else JNull))"

definition runnable_event :: "task_env \<Rightarrow> task \<Rightarrow> event_args option" where
  "runnable_event env x =
     (if handlerType x = ''runtime'' \<or> handlerType x = ''docker'' then
        Some \<lparr>emitterIdentifier = CORE_IDENTIFIER,
          eventIdentifier = (if handlerType x = ''runtime'' then ''serverless_task_enqueued''
                             else ''docker_task_enqueued''),
          ea_data = JObj ([(''dontStartBefore'', null_or (\<lambda>t. JStr (iso env t)) (dontStartBefore x)),
             (''innerTaskId'', JStr (task_id x)), (''appIdentifier'', JStr (ownerId x))] @
             (if handlerType x = ''runtime''
              then [(''workerIdentifier'', null_or JStr (handlerIdentifier x))]
              else [(''profileIdentifier'', handler_part 0 x), (''jobClassIdentifier'', handler_part 1 x)])),
          ea_target = NoTarget\<rparr>
      else None)"

definition emitRunnable :: "(event_args \<Rightarrow> unit txm) \<Rightarrow> task_env \<Rightarrow> task \<Rightarrow> unit txm" where
  "emitRunnable emit env x = (case runnable_event env x of None \<Rightarrow> tx_return () | Some a \<Rightarrow> emit a)"

text \<open>The event trigger of an app creates a task, whose log already says that it was started.\<close>

definition buildEventTriggeredTask :: "(task \<Rightarrow> unit txm) \<Rightarrow> task_env \<Rightarrow> int \<Rightarrow> event \<Rightarrow> event_target \<Rightarrow>
    app \<Rightarrow> event_trigger \<Rightarrow> trigger_ref \<Rightarrow> task list txm" where
  "buildEventTriggeredTask enqueued env now e target a tr ref =
     (case find_task_def a (et_taskIdentifier tr) of
        None \<Rightarrow> tx_return []
      | Some d \<Rightarrow>
          if truthy (et_condition tr)
             \<and> \<not> eval_condition env (the (et_condition tr)) (JObj [(''event'', event_object env e)])
          then tx_return []
          else
            tx_bind (draw_uuid env) (\<lambda>i.
            tx_bind (case et_dataTemplate tr of None \<Rightarrow> tx_return (JObj [])
                     | Some t \<Rightarrow> tx_lift (dataFromTemplate env (app_identifier a) t
                                           (JObj [(''event'', event_object env e)]))) (\<lambda>data.
            let x = (blank_task env i (app_identifier a) (td_identifier d) (td_description d)
                       (EventTrigger (buildEventInvocation e ref (et_triggerKey tr))
                          (et_onComplete tr) (et_onProgress tr)) data (td_handlerType d) now)
                    \<lparr>targetFolderId := target_folder target, targetObjectKey := target_object target,
                     handlerIdentifier := td_handlerIdentifier d,
                     systemLog := [\<lparr>log_at = now, log_type = ''started'',
                       log_message = ''Task is started'', log_payload = None\<rparr>]\<rparr>
            in tx_then (enqueued x) (tx_return [x]))))"

definition event_trigger_id :: "event_args \<Rightarrow> string" where
  "event_trigger_id a =
     (if emitterIdentifier a = CORE_IDENTIFIER then CORE_IDENTIFIER @ CHR '':'' # eventIdentifier a
      else eventIdentifier a)"

definition subscribed_apps :: "task_env \<Rightarrow> event_args \<Rightarrow> app option \<Rightarrow> app list" where
  "subscribed_apps env a emitter =
     (if emitterIdentifier a = CORE_IDENTIFIER
      then take 100 (filter (\<lambda>p. event_trigger_id a \<in> set (subscribedCoreEvents p) \<and> app_enabled p) (apps env))
      else case emitter of None \<Rightarrow> [] | Some p \<Rightarrow> [p])"

definition runtime_event_rows :: "task_env \<Rightarrow> event_args \<Rightarrow> app option \<Rightarrow> (string \<times> app \<times> event_trigger) list" where
  "runtime_event_rows env a emitter = List.map_filter
     (\<lambda>rt. case find (\<lambda>p. app_id p = rt_appId rt) (apps env) of
        None \<Rightarrow> None
      | Some p \<Rightarrow> (case rt_definition rt of
           EventTrig tr \<Rightarrow>
             if et_eventIdentifier tr = event_trigger_id a \<and> app_enabled p
                \<and> (case emitter of None \<Rightarrow> True | Some q \<Rightarrow> rt_appId rt = app_id q)
             then Some (rt_id rt, p, tr) else None
         | _ \<Rightarrow> None))
     (runtime_triggers env)"

text \<open>The tasks of the triggers in the configuration of the apps, then of the registered triggers.\<close>

definition config_tasks :: "(task \<Rightarrow> unit txm) \<Rightarrow> task_env \<Rightarrow> int \<Rightarrow> event \<Rightarrow> event_args \<Rightarrow> app \<Rightarrow> task list txm" where
  "config_tasks enqueued env now e a p =
     tx_bind (tx_lift (checkAppAccess env a (app_identifier p))) (\<lambda>ok.
       if \<not> ok then tx_return []
       else tx_collect (\<lambda>(n, t). case t of
           EventTrig tr \<Rightarrow>
             if et_eventIdentifier tr = event_trigger_id a
             then buildEventTriggeredTask enqueued env now e (ea_target a) p tr (ConfigRef n)
             else tx_return []
         | _ \<Rightarrow> tx_return []) (List.enumerate 0 (app_triggers p)))"

definition runtime_tasks :: "(task \<Rightarrow> unit txm) \<Rightarrow> task_env \<Rightarrow> int \<Rightarrow> event \<Rightarrow> event_args \<Rightarrow>
    string \<times> app \<times> event_trigger \<Rightarrow> task list txm" where
  "runtime_tasks enqueued env now e a = (\<lambda>(r, p, tr).
     tx_bind (tx_lift (checkAppAccess env a (app_identifier p))) (\<lambda>ok.
       if \<not> ok then tx_return []
       else buildEventTriggeredTask enqueued env now e (ea_target a) p tr (RuntimeRef r)))"

text \<open>The messages sent for the tasks and the event.\<close>

definition announce_tasks :: "task list \<Rightarrow> unit txm" where
  "announce_tasks xs = tx_each (\<lambda>x. case targetFolderId x of None \<Rightarrow> tx_return ()
     | Some f \<Rightarrow> if f = [] then tx_return ()
                 else send (FolderTaskCreated f (task_id x) (taskIdentifier x))) xs"

definition announce_event :: "event_args \<Rightarrow> event \<Rightarrow> unit txm" where
  "announce_event a e =
     tx_then (case target_folder (ea_target a) of None \<Rightarrow> tx_return ()
              | Some f \<Rightarrow> if f = [] then tx_return ()
                          else send (FolderEventCreated f (event_id e) (event_identifier e)))
     (tx_then (send (NudgeServer (event_id e) (event_identifier e)))
     (tx_then (case target_user (ea_target a) of None \<Rightarrow> tx_return ()
               | Some u \<Rightarrow> if emitterIdentifier a = CORE_IDENTIFIER \<or> u = [] then tx_return ()
                           else send (AppUserEvent (emitterIdentifier a) u (event_id e)))
              (send StartDrain)))"

text \<open>\<open>_emitEventInTx\<close>, after its checks.\<close>

definition write_event :: "(task \<Rightarrow> unit txm) \<Rightarrow> task_env \<Rightarrow> int \<Rightarrow> event_args \<Rightarrow> app option \<Rightarrow> unit txm" where
  "write_event enqueued env now a emitter =
     tx_bind (draw_uuid env) (\<lambda>i.
     let e = \<lparr>event_id = i, event_identifier = eventIdentifier a, event_emitterId = emitterIdentifier a,
              event_targetUserId = target_user (ea_target a), event_folderId = target_folder (ea_target a),
              event_objectKey = target_object (ea_target a), event_data = ea_data a,
              event_aggregationKey = event_aggregation env a, event_createdAt = now, event_handledAt = None\<rparr>
     in tx_then (insert_event e)
     (tx_bind (tx_collect (config_tasks enqueued env now e a) (subscribed_apps env a emitter)) (\<lambda>xs.
      tx_bind (tx_collect (runtime_tasks enqueued env now e a) (runtime_event_rows env a emitter)) (\<lambda>ys.
      tx_bind (gatherCoreTasksForEvent env e now) (\<lambda>zs.
      let ts = xs @ ys @ zs
      in tx_then (tx_when (ts \<noteq> []) (tx_then (insert_tasks ts) (announce_tasks ts)))
        (tx_then (announce_event a e)
          (case event_aggregation env a of None \<Rightarrow> tx_return ()
           | Some k \<Rightarrow> enqueue_notifications env now k)))))))"

text \<open>The identifier, the emitting app and its access; \<open>None\<close> when the event is dropped.\<close>

definition admit_event :: "bool \<Rightarrow> task_env \<Rightarrow> event_args \<Rightarrow> string + app option option" where
  "admit_event skipValidation env a =
     (if \<not> valid_event_identifier (eventIdentifier a) then Inl ''Invalid event identifier''
      else if emitterIdentifier a = CORE_IDENTIFIER then Inr (Some None)
      else case getApp env (to_lower (emitterIdentifier a)) of
          None \<Rightarrow> Inl ''No app found for identifier''
        | Some p \<Rightarrow>
            if skipValidation then Inr (Some (Some p))
            else (case emitter_access env a of Inl m \<Rightarrow> Inl m
                  | Inr ok \<Rightarrow> Inr (if ok then Some (Some p) else None)))"

definition emitEventStep :: "(task \<Rightarrow> unit txm) \<Rightarrow> bool \<Rightarrow> task_env \<Rightarrow> int \<Rightarrow> event_args \<Rightarrow> unit txm" where
  "emitEventStep enqueued skipValidation env now a =
     tx_bind (tx_lift (admit_event skipValidation env a)) (\<lambda>r.
       case r of None \<Rightarrow> tx_return () | Some emitter \<Rightarrow> write_event enqueued env now a emitter)"

definition tx_out_of_fuel :: "'a txm" where
  "tx_out_of_fuel = (\<lambda>db. (Inl NoReturn, db))"

primrec emitEventInTx :: "nat \<Rightarrow> bool \<Rightarrow> task_env \<Rightarrow> int \<Rightarrow> event_args \<Rightarrow> unit txm" where
  "emitEventInTx 0 skipValidation env now a = tx_out_of_fuel"
| "emitEventInTx (Suc n) skipValidation env now a =
     emitEventStep (emitRunnable (emitEventInTx n False env now) env) skipValidation env now a"

definition emitRunnableTaskEnqueuedEvent :: "nat \<Rightarrow> task_env \<Rightarrow> int \<Rightarrow> task \<Rightarrow> unit txm" where
  "emitRunnableTaskEnqueuedEvent n env now x = emitRunnable (emitEventInTx n False env now) env x"

text \<open>\<open>emitEvent\<close> without a transaction of the caller: the same checks first, then one.\<close>

definition emitEvent :: "nat \<Rightarrow> task_env \<Rightarrow> int \<Rightarrow> event_args \<Rightarrow> unit txm" where
  "emitEvent n env now a =
     tx_bind (tx_lift (admit_event False env a)) (\<lambda>r.
       case r of None \<Rightarrow> tx_return () | Some emitter \<Rightarrow> transaction (emitEventInTx n True env now a))"

section \<open>Scheduled triggers\<close>

fun unit_name :: "interval_unit \<Rightarrow> string" where
  "unit_name Minutes = ''minutes''"
| "unit_name Hours = ''hours''"
| "unit_name Days = ''days''"
| "unit_name Seconds = ''seconds''"

fun schedule_json :: "schedule_config \<Rightarrow> json" where
  "schedule_json (IntervalSchedule n u) = JObj [(''kind'', JStr ''interval''),
     (''interval'', JNum (of_int n)), (''unit'', JStr (unit_name u))]"
| "schedule_json (CronSchedule x z) = JObj ([(''kind'', JStr ''cron''), (''expression'', JStr x)] @
     (case z of None \<Rightarrow> [] | Some tz \<Rightarrow> [(''timezone'', JStr tz)]))"

text \<open>\<open>getUtcScheduleBucket\<close>: the start of the interval, or the last fire, to the minute.\<close>

fun getUtcScheduleBucket :: "task_env \<Rightarrow> schedule_config \<Rightarrow> int \<Rightarrow> string + int" where
  "getUtcScheduleBucket env (IntervalSchedule n u) t = map_sum id snd (getUtcTimestampBucket n u t)"
| "getUtcScheduleBucket env (CronSchedule x z) t =
     map_sum id (\<lambda>s. s - s mod 60000)
       (cron_prev env x (case z of None \<Rightarrow> ''UTC'' | Some tz \<Rightarrow> tz) (t + 1))"

definition find_task_where :: "(task \<Rightarrow> bool) \<Rightarrow> task option txm" where
  "find_task_where p = (\<lambda>db. (Inr (find p (map snd (tasks db))), db))"

text \<open>The task of a schedule; none when the app has no such task or the bucket has fired.\<close>

definition tryEnqueueScheduleTask :: "task_env \<Rightarrow> int \<Rightarrow> app \<times> schedule_trigger \<times> string option \<Rightarrow> task list txm" where
  "tryEnqueueScheduleTask env now = (\<lambda>(p, st, rid).
     tx_bind (tx_lift (getUtcScheduleBucket env (st_config st) now)) (\<lambda>bucketStart.
     case find_task_def p (st_taskIdentifier st) of
       None \<Rightarrow> tx_return []
     | Some d \<Rightarrow>
         tx_bind (draw_uuid env) (\<lambda>i.
         let x = (blank_task env i (app_identifier p) (td_identifier d) (td_description d)
                    (ScheduleTrigger \<lparr>sc_triggerKey = st_triggerKey st, sc_config = schedule_json (st_config st),
                       sc_timestampBucket = iso env bucketStart, sc_runtimeTriggerId = rid\<rparr>)
                    (JObj []) (td_handlerType d) now) \<lparr>handlerIdentifier := td_handlerIdentifier d\<rparr>
         in tx_bind (find_task_where (\<lambda>y. ownerId y = app_identifier p
                \<and> taskIdentifier y = taskIdentifier x \<and> idempotencyKey y = idempotencyKey x
                \<and> bucketStart \<le> task_createdAt y)) (\<lambda>found.
            tx_return (case found of Some y \<Rightarrow> [] | None \<Rightarrow> [x])))))"

definition config_schedules :: "task_env \<Rightarrow> (app \<times> schedule_trigger \<times> string option) list" where
  "config_schedules env = concat (map (\<lambda>p. List.map_filter
     (\<lambda>t. case t of ScheduleTrig st \<Rightarrow> Some (p, st, None) | _ \<Rightarrow> None) (app_triggers p))
     (filter app_enabled (apps env)))"

definition runtime_schedules :: "task_env \<Rightarrow> (app \<times> schedule_trigger \<times> string option) list" where
  "runtime_schedules env = List.map_filter
     (\<lambda>rt. case find (\<lambda>p. app_id p = rt_appId rt) (apps env) of
        None \<Rightarrow> None
      | Some p \<Rightarrow> (case rt_definition rt of
           ScheduleTrig st \<Rightarrow> if app_enabled p
             then Some (p, st, if rt_id rt = [] then None else Some (rt_id rt)) else None
         | _ \<Rightarrow> None))
     (runtime_triggers env)"

definition tx_catch :: "unit txm \<Rightarrow> unit txm" where
  "tx_catch m = (\<lambda>db. case m db of (Inl (Thrown e), db') \<Rightarrow> (Inr (), db') | r \<Rightarrow> r)"

definition schedule_batch :: "nat \<Rightarrow> task_env \<Rightarrow> int \<Rightarrow> task list \<Rightarrow> unit txm" where
  "schedule_batch n env now xs =
     tx_then (insert_tasks xs)
       (tx_each (\<lambda>x. if handlerType x = ''runtime'' \<or> handlerType x = ''docker''
                     then emitRunnableTaskEnqueuedEvent n env now x else tx_return ()) xs)"

definition processScheduledTaskTriggers :: "nat \<Rightarrow> bool \<Rightarrow> task_env \<Rightarrow> int \<Rightarrow> unit txm" where
  "processScheduledTaskTriggers n isProcessing env now =
     (if isProcessing then tx_return ()
      else tx_catch
        (tx_bind (tx_collect (tryEnqueueScheduleTask env now) (config_schedules env @ runtime_schedules env))
          (\<lambda>xs. tx_when (xs \<noteq> []) (transaction (schedule_batch n env now xs)))))"

end
