(* ===== verification/Task_Lifecycle.thy ===== *)
theory Task_Lifecycle
  imports Task_Events
begin

text \<open>
  The life of a task (packages/api, task/services/task.service.ts): the ways to trigger one, its
  start, its heartbeats, its progress reports and its completion with the tasks that completion
  and progress handlers create.  Every operation takes the fuel of the events it emits, the
  clock, and the database.
\<close>

section \<open>Triggering a task\<close>

datatype start_delay = StartAt int | StartAfter int

fun start_time :: "int \<Rightarrow> start_delay option \<Rightarrow> int option" where
  "start_time now None = None"
| "start_time now (Some (StartAt t)) = Some t"
| "start_time now (Some (StartAfter ms)) = Some (now + ms)"

record trigger_args =
  ta_data :: json
  ta_correlationKey :: "string option"
  ta_dontStartBefore :: "start_delay option"
  ta_targetUserId :: "string option"
  ta_targetLocation :: "(string \<times> string option) option"
  ta_policy :: "json option"
  ta_onComplete :: "on_complete list"
  ta_onProgress :: "on_progress list"

definition with_targets :: "trigger_args \<Rightarrow> task \<Rightarrow> task" where
  "with_targets g x = x\<lparr>storageAccessPolicy := ta_policy g, targetUserId := ta_targetUserId g,
     targetFolderId := map_option fst (ta_targetLocation g),
     targetObjectKey := Option.bind (ta_targetLocation g) snd\<rparr>"

definition triggerCoreUserActionTask :: "task_env \<Rightarrow> int \<Rightarrow> string \<Rightarrow> string \<Rightarrow> string \<Rightarrow> trigger_args \<Rightarrow> task txm" where
  "triggerCoreUserActionTask env now threadId userId identifier g =
     tx_bind (draw_uuid env) (\<lambda>i.
     let x = with_targets g (blank_task env i CORE_IDENTIFIER identifier ''Core task on user request''
               (UserAction userId threadId) (ta_data g) CORE_IDENTIFIER now)
     in tx_then (insert_tasks [x]) (tx_return x))"

text \<open>The definition of a task of an enabled app.\<close>

definition require_task :: "task_env \<Rightarrow> string \<Rightarrow> string \<Rightarrow> task_def txm" where
  "require_task env app identifier =
     (case getApp env app of
        None \<Rightarrow> tx_throw ''App not found''
      | Some p \<Rightarrow> (case find_task_def p identifier of
          None \<Rightarrow> tx_throw ''Task definition not found'' | Some d \<Rightarrow> tx_return d))"

definition insert_and_enqueue :: "nat \<Rightarrow> task_env \<Rightarrow> int \<Rightarrow> task \<Rightarrow> task txm" where
  "insert_and_enqueue n env now x =
     tx_then (insert_tasks [x]) (tx_then (emitRunnableTaskEnqueuedEvent n env now x) (tx_return x))"

definition triggerAppUserActionTask :: "nat \<Rightarrow> task_env \<Rightarrow> int \<Rightarrow> string \<Rightarrow> string \<Rightarrow> string \<Rightarrow> string \<Rightarrow>
    trigger_args \<Rightarrow> task txm" where
  "triggerAppUserActionTask n env now threadId userId app identifier g =
     tx_bind (require_task env app identifier) (\<lambda>d.
     tx_bind (draw_uuid env) (\<lambda>i.
     transaction (insert_and_enqueue n env now
       (with_targets g (blank_task env i app identifier (td_description d)
          (UserAction userId threadId) (ta_data g) CORE_IDENTIFIER now)))))"

definition require_access :: "access \<Rightarrow> unit txm" where
  "require_access c = (case c of Allowed \<Rightarrow> tx_return () | Unauthorized \<Rightarrow> tx_throw ''Unauthorized''
     | AccessError e \<Rightarrow> tx_throw e)"

definition triggerAppActionTask :: "nat \<Rightarrow> task_env \<Rightarrow> int \<Rightarrow> string \<Rightarrow> string \<Rightarrow> string \<Rightarrow> trigger_args \<Rightarrow> task txm" where
  "triggerAppActionTask n env now threadId app identifier g =
     tx_bind (require_task env app identifier) (\<lambda>d.
     tx_then (if truthy (ta_targetUserId g)
              then require_access (validateAppUserAccess env app (the (ta_targetUserId g)))
              else tx_return ())
     (tx_then (if truthy (map_option fst (ta_targetLocation g))
               then require_access (validateAppFolderAccess env app (fst (the (ta_targetLocation g))))
               else tx_return ())
     (tx_then (case ta_policy g of None \<Rightarrow> tx_return ()
               | Some p \<Rightarrow> require_access (validateAppStorageAccessPolicy env app p))
     (tx_bind (draw_uuid env) (\<lambda>i.
     transaction (insert_and_enqueue n env now
       ((with_targets g (blank_task env i app identifier (td_description d)
           (AppAction threadId (ta_onComplete g) (ta_onProgress g)) (ta_data g) (td_handlerType d) now))
        \<lparr>handlerIdentifier := td_handlerIdentifier d, correlationKey := ta_correlationKey g,
         dontStartBefore := start_time now (ta_dontStartBefore g)\<rparr>)))))))"

section \<open>Start and heartbeat\<close>

definition log_of :: "int \<Rightarrow> string \<Rightarrow> string \<Rightarrow> json option \<Rightarrow> log_entry" where
  "log_of now t m p = \<lparr>log_at = now, log_type = t, log_message = m, log_payload = p\<rparr>"

definition start_row :: "int \<Rightarrow> json \<Rightarrow> task \<Rightarrow> task" where
  "start_row now executorMetadata x =
     x\<lparr>startedAt := Some now, task_updatedAt := now,
       systemLog := systemLog x @ [log_of now ''started'' ''Task is started''
         (Some (JObj [(''executorMetadata'', executorMetadata)]))]\<rparr>"

definition registerTaskStartedInTx :: "int \<Rightarrow> string \<Rightarrow> json \<Rightarrow> task txm" where
  "registerTaskStartedInTx now taskId executorMetadata =
     tx_bind (find_task taskId) (\<lambda>found. case found of
       None \<Rightarrow> tx_throw ''Invalid request (no task found by id).''
     | Some x \<Rightarrow>
         if completedAt x \<noteq> None \<or> startedAt x \<noteq> None
         then tx_throw ''Task not in a state to be started.''
         else tx_bind (update_where taskId (\<lambda>y. startedAt y = None) (start_row now executorMetadata)) (\<lambda>r.
           case r of None \<Rightarrow> tx_throw ''Failed to secure task''
           | Some y \<Rightarrow> tx_then (send (TaskUpdate y task_started now None)) (tx_return y)))"

definition registerTaskStarted :: "int \<Rightarrow> string \<Rightarrow> json \<Rightarrow> task txm" where
  "registerTaskStarted now taskId executorMetadata =
     transaction (registerTaskStartedInTx now taskId executorMetadata)"

text \<open>\<open>{ ...(entry.payload ?? {}), executorMetadata }\<close>.\<close>

definition upgrade_start_log :: "json \<Rightarrow> log_entry \<Rightarrow> log_entry" where
  "upgrade_start_log m e =
     (if log_type e = ''started''
      then e\<lparr>log_payload := Some (JObj (map_set ''executorMetadata'' m
             (case log_payload e of Some (JObj kvs) \<Rightarrow> kvs | _ \<Rightarrow> [])))\<rparr>
      else e)"

definition heartbeat_row :: "int \<Rightarrow> (string \<times> json option) option \<Rightarrow> log_entry list option \<Rightarrow> task \<Rightarrow> task" where
  "heartbeat_row now context upgraded x =
     x\<lparr>task_updatedAt := now, latestHeartbeatAt := Some now,
       taskLog := taskLog x @ (case context of None \<Rightarrow> []
         | Some (m, p) \<Rightarrow> [log_of now ''heartbeat'' m p]),
       systemLog := (case upgraded of None \<Rightarrow> systemLog x | Some l \<Rightarrow> l)\<rparr>"

definition registerHeartbeatInTx :: "int \<Rightarrow> string \<Rightarrow> (string \<times> json option) option \<Rightarrow> json option \<Rightarrow> task txm" where
  "registerHeartbeatInTx now taskId context executorMetadata =
     tx_bind (find_task taskId) (\<lambda>found. case found of
       None \<Rightarrow> tx_throw ''Invalid request (no task found by id).''
     | Some x \<Rightarrow>
         if completedAt x \<noteq> None \<or> startedAt x = None
         then tx_throw ''Task not in a state to register heartbeat.''
         else
           let upgraded = (case executorMetadata of
                 Some m \<Rightarrow> if latestHeartbeatAt x = None
                           then Some (map (upgrade_start_log m) (systemLog x)) else None
               | None \<Rightarrow> None)
           in tx_bind (update_where taskId (\<lambda>y. completedAt y = None \<and> startedAt y \<noteq> None)
                         (heartbeat_row now context upgraded)) (\<lambda>r.
             case r of None \<Rightarrow> tx_throw ''Failed to register heartbeat for task''
             | Some y \<Rightarrow> tx_return y))"

definition registerHeartbeat :: "int \<Rightarrow> string \<Rightarrow> (string \<times> json option) option \<Rightarrow> json option \<Rightarrow> task txm" where
  "registerHeartbeat now taskId context executorMetadata =
     transaction (registerHeartbeatInTx now taskId context executorMetadata)"

end
