(* ===== verification/Task_Completion.thy ===== *)
theory Task_Completion
  imports Task_Lifecycle
begin

text \<open>
  Completion and progress of a task, and the tasks their handlers create (packages/api,
  task/services/task.service.ts).
\<close>

section \<open>Completions\<close>

text \<open>\<open>TaskCompletion\<close>: the result and the metadata of the executor, or the requeue delay, the
  error and the metadata.\<close>

datatype task_completion = Succeeded "json option" json | Failed "int option" error_info json

fun succeeded :: "task_completion \<Rightarrow> bool" where
  "succeeded (Succeeded r m) = True"
| "succeeded (Failed d e m) = False"

definition opt_field :: "string \<Rightarrow> json option \<Rightarrow> (string \<times> json) list" where
  "opt_field k v = (case v of None \<Rightarrow> [] | Some x \<Rightarrow> [(k, x)])"

definition error_json :: "error_info \<Rightarrow> json" where
  "error_json e = JObj ([(''code'', JStr (err_code e))] @ opt_field ''name'' (map_option JStr (err_name e))
     @ [(''message'', JStr (err_message e))] @ opt_field ''stack'' (map_option JStr (err_stack e))
     @ opt_field ''cause'' (err_cause e) @ opt_field ''details'' (err_details e))"

definition stored_error :: "error_info \<Rightarrow> error_info" where
  "stored_error e = e\<lparr>err_name := (case err_name e of None \<Rightarrow> Some ''Error'' | Some n \<Rightarrow> Some n),
     err_stack := (if truthy (err_stack e) then err_stack e else None),
     err_cause := (if js_truthy (err_cause e) then err_cause e else None)\<rparr>"

fun completion_log :: "int \<Rightarrow> task_completion \<Rightarrow> log_entry" where
  "completion_log now (Succeeded r m) = log_of now ''success'' ''Task completed successfully''
     (Some (JObj ((if js_truthy r then opt_field ''result'' r else []) @ [(''executorMetadata'', m)])))"
| "completion_log now (Failed d e m) = log_of now ''error'' ''Task failed''
     (Some (JObj [(''error'', error_json e), (''executorMetadata'', m)]))"

fun requeue_requested :: "task_completion \<Rightarrow> bool" where
  "requeue_requested (Failed (Some d) e m) = True"
| "requeue_requested _ = False"

definition should_requeue :: "task \<Rightarrow> task_completion \<Rightarrow> bool" where
  "should_requeue x c = (requeue_requested c \<and> \<not> MAX_TASK_ATTEMPTS \<le> attemptCount x)"

fun requeue_delay :: "task_completion \<Rightarrow> int" where
  "requeue_delay (Failed (Some d) e m) = d"
| "requeue_delay _ = 0"

definition requeue_log :: "task_env \<Rightarrow> int \<Rightarrow> int \<Rightarrow> log_entry" where
  "requeue_log env now d = log_of now ''requeue'' ''Task is requeued''
     (Some (JObj [(''requeueDelayMs'', JNum (of_int d)), (''dontStartBefore'', JStr (iso env (now + d)))]))"

text \<open>The row after a completion.  A failure that asks for a requeue after the last attempt sets
  only \<open>maxRequeuesReached\<close>, which is not a column, so the update leaves it out.\<close>

definition completed_row :: "task_env \<Rightarrow> int \<Rightarrow> bool \<Rightarrow> task_completion \<Rightarrow> task \<Rightarrow> task" where
  "completed_row env now requeue c x =
     (let y = x\<lparr>attemptCount := attemptCount x + 1, task_updatedAt := now,
                systemLog := systemLog x @ [completion_log now c] @
                  (if requeue then [requeue_log env now (requeue_delay c)] else [])\<rparr>
      in case c of
          Succeeded r m \<Rightarrow> y\<lparr>success := Some True, completedAt := Some now, task_error := None\<rparr>
        | Failed d e m \<Rightarrow>
            (let z = y\<lparr>failureCount := failureCount x + 1, task_error := Some (stored_error e)\<rparr>
             in if requeue
                then z\<lparr>dontStartBefore := Some (now + requeue_delay c), success := None,
                       completedAt := None, startedAt := None\<rparr>
                else if requeue_requested c then z
                else z\<lparr>success := Some False, completedAt := Some now\<rparr>))"

section \<open>Child tasks\<close>

definition json_field :: "json option \<Rightarrow> string \<Rightarrow> json option" where
  "json_field p k = (case p of Some (JObj m) \<Rightarrow> map_of m k | _ \<Rightarrow> None)"

definition or_empty :: "json option \<Rightarrow> json" where
  "or_empty v = (if nullish v then JObj [] else the v)"

definition find_log :: "string \<Rightarrow> log_entry list \<Rightarrow> json option" where
  "find_log t l = Option.bind (find (\<lambda>e. log_type e = t) l) log_payload"

text \<open>\<open>systemLog.reverse()\<close> reverses in place: the first search sees the log from its end, the
  second one sees it in order again.\<close>

definition parent_success_log :: "task \<Rightarrow> json option" where
  "parent_success_log x = find_log ''success'' (rev (systemLog x))"

definition parent_error_log :: "task \<Rightarrow> json option" where
  "parent_error_log x = find_log ''error'' (rev (rev (systemLog x)))"

definition date_json :: "task_env \<Rightarrow> int option \<Rightarrow> json" where
  "date_json env t = null_or (\<lambda>t. JStr (iso env t)) t"

definition location_json :: "task \<Rightarrow> json" where
  "location_json x = (if truthy (targetFolderId x)
     then JObj ([(''folderId'', JStr (the (targetFolderId x)))] @
                opt_field ''objectKey'' (map_option JStr (targetObjectKey x)))
     else JObj [])"

definition parent_dates :: "task_env \<Rightarrow> task \<Rightarrow> (string \<times> json) list" where
  "parent_dates env x = [(''startedAt'', date_json env (startedAt x)), (''completedAt'', date_json env (completedAt x)),
     (''createdAt'', date_json env (Some (task_createdAt x))), (''updatedAt'', date_json env (Some (task_updatedAt x)))]"

definition on_complete_context :: "task_env \<Rightarrow> task \<Rightarrow> bool \<Rightarrow> json" where
  "on_complete_context env x ok = JObj ([(''task'', JObj
       ([(''id'', JStr (task_id x)), (''success'', JBool ok)] @
        (if ok then [(''result'', or_empty (json_field (parent_success_log x) ''result''))]
         else [(''error'', or_empty (json_field (parent_error_log x) ''error''))]) @
        [(''targetLocation'', location_json x), (''data'', task_data x)] @ parent_dates env x))] @
     opt_field ''executorMetadata''
       (json_field (if ok then parent_success_log x else parent_error_log x) ''executorMetadata''))"

text \<open>What a child takes over from its parent.\<close>

definition child_of :: "task \<Rightarrow> task_def \<Rightarrow> task \<Rightarrow> task" where
  "child_of parent d x = x\<lparr>handlerIdentifier := td_handlerIdentifier d,
     correlationKey := correlationKey parent, storageAccessPolicy := storageAccessPolicy parent,
     targetUserId := targetUserId parent,
     targetFolderId := (if truthy (targetFolderId parent) then targetFolderId parent else None),
     targetObjectKey := (if truthy (targetFolderId parent) then targetObjectKey parent else None)\<rparr>"

fun executeOnCompleteHandler :: "nat \<Rightarrow> task_env \<Rightarrow> int \<Rightarrow> task \<Rightarrow> bool \<Rightarrow> nat \<Rightarrow> on_complete \<Rightarrow> unit txm" where
  "executeOnCompleteHandler n env now parent ok index (OnComplete identifier cond template handlers) =
     tx_bind (require_task env (ownerId parent) identifier) (\<lambda>d.
     tx_bind (draw_uuid env) (\<lambda>i.
     tx_bind (tx_lift (dataFromTemplate env (ownerId parent)
                (case template of None \<Rightarrow> JObj [] | Some t \<Rightarrow> t) (on_complete_context env parent ok))) (\<lambda>data.
     let x = child_of parent d (blank_task env i (ownerId parent) identifier (td_description d)
               (CompleteChild (task_id parent) (taskIdentifier parent) ok
                  (or_empty (json_field (parent_success_log parent) ''result'')) index handlers [])
               data (td_handlerType d) now)
     in tx_bind (insert_and_enqueue n env now x) (\<lambda>_. tx_return ()))))"

fun level_name :: "message_level \<Rightarrow> string" where
  "level_name Debug = ''debug''"
| "level_name Info = ''info''"
| "level_name Warn = ''warn''"
| "level_name Error = ''error''"

fun audience_name :: "audience \<Rightarrow> string" where
  "audience_name System = ''system''"
| "audience_name User = ''user''"

definition message_json :: "update_message \<Rightarrow> json" where
  "message_json m = JObj [(''level'', JStr (level_name (um_level m))), (''text'', JStr (um_text m)),
     (''audience'', JStr (audience_name (um_audience m)))]"

definition report_json :: "task_env \<Rightarrow> bool \<Rightarrow> progress_report \<Rightarrow> json" where
  "report_json env stored r = JObj (opt_field ''code'' (map_option JStr (pr_code r))
     @ opt_field ''details'' (pr_details r) @ opt_field ''message'' (map_option message_json (pr_message r))
     @ opt_field ''timestamp'' (map_option JStr (pr_timestamp r))
     @ opt_field ''executorMetadata'' (pr_executorMetadata r)
     @ (if stored then [(''receivedAt'', JStr (iso env (pr_receivedAt r)))] else []))"

definition on_progress_context :: "task_env \<Rightarrow> task \<Rightarrow> progress_report \<Rightarrow> json" where
  "on_progress_context env x r = JObj ([(''task'', JObj ([(''id'', JStr (task_id x)),
       (''targetLocation'', location_json x), (''data'', task_data x)] @ parent_dates env x)),
     (''progressReport'', report_json env True r)]
     @ opt_field ''executorMetadata'' (pr_executorMetadata r))"

fun executeOnProgressHandler :: "nat \<Rightarrow> task_env \<Rightarrow> int \<Rightarrow> task \<Rightarrow> progress_report \<Rightarrow> nat \<Rightarrow> on_progress \<Rightarrow> unit txm" where
  "executeOnProgressHandler n env now parent r index (OnProgress identifier cond template) =
     tx_bind (require_task env (ownerId parent) identifier) (\<lambda>d.
     tx_bind (draw_uuid env) (\<lambda>i.
     tx_bind (tx_lift (dataFromTemplate env (ownerId parent)
                (case template of None \<Rightarrow> JObj [] | Some t \<Rightarrow> t) (on_progress_context env parent r))) (\<lambda>data.
     let x = child_of parent d (blank_task env i (ownerId parent) identifier (td_description d)
               (ProgressChild (task_id parent) (taskIdentifier parent) (pr_code r) (pr_timestamp r) index)
               data (td_handlerType d) now)
     in tx_bind (insert_and_enqueue n env now x) (\<lambda>_. tx_return ()))))"

section \<open>Completion\<close>

fun completion_condition_input :: "string \<Rightarrow> task_completion \<Rightarrow> json" where
  "completion_condition_input i (Succeeded r m) = JObj [(''task'', JObj [(''id'', JStr i),
     (''success'', JBool True), (''result'', or_empty r)])]"
| "completion_condition_input i (Failed d e m) = JObj [(''task'', JObj [(''id'', JStr i),
     (''success'', JBool False), (''error'', error_json e)])]"

fun fires_on_completion :: "task_env \<Rightarrow> string \<Rightarrow> task_completion \<Rightarrow> on_complete \<Rightarrow> bool" where
  "fires_on_completion env i c (OnComplete identifier cond template handlers) =
     (\<not> truthy cond \<or> eval_condition env (the cond) (completion_condition_input i c))"

definition run_on_complete :: "nat \<Rightarrow> task_env \<Rightarrow> int \<Rightarrow> task \<Rightarrow> task_completion \<Rightarrow> on_complete list \<Rightarrow> unit txm" where
  "run_on_complete n env now x c hs = tx_each (\<lambda>(k, h).
     tx_when (fires_on_completion env (task_id x) c h)
       (executeOnCompleteHandler n env now x (succeeded c) k h)) (List.enumerate 0 hs)"

definition registerTaskCompletedInTx :: "nat \<Rightarrow> task_env \<Rightarrow> int \<Rightarrow> string \<Rightarrow> task_completion \<Rightarrow> task txm" where
  "registerTaskCompletedInTx n env now taskId c =
     tx_bind (find_task taskId) (\<lambda>found. case found of
       None \<Rightarrow> tx_throw ''Task not found''
     | Some x \<Rightarrow>
         if startedAt x = None then tx_throw ''Task has not been started.''
         else if completedAt x \<noteq> None then tx_throw ''Task has already been completed.''
         else
           let requeue = should_requeue x c
           in tx_bind (update_where taskId
                 (\<lambda>y. success y = None \<and> completedAt y = None \<and> startedAt y \<noteq> None)
                 (completed_row env now requeue c)) (\<lambda>r. case r of
               None \<Rightarrow> tx_throw ''Failed to register task completion task.''
             | Some y \<Rightarrow>
                 tx_then (tx_when requeue (emitRunnableTaskEnqueuedEvent n env now y))
                (tx_then (run_on_complete n env now y c (inv_onComplete (invocation x)))
                (tx_then (send (TaskUpdate y (if succeeded c then task_completed else task_failed) now None))
                (tx_then (tx_when requeue (send (TaskUpdate y task_requeued now None)))
                   (tx_return y))))))"

text \<open>Work that is started and not awaited: its outcome is dropped.\<close>

definition tx_detached :: "unit txm \<Rightarrow> unit txm" where
  "tx_detached m = (\<lambda>db. (Inr (), snd (m db)))"

definition emitTaskCompletionTelemetry :: "nat \<Rightarrow> task_env \<Rightarrow> int \<Rightarrow> task \<Rightarrow> unit txm" where
  "emitTaskCompletionTelemetry n env now x =
     (case success x of
        None \<Rightarrow> tx_return ()
      | Some ok \<Rightarrow> emitEvent n env now
          \<lparr>emitterIdentifier = ownerId x,
           eventIdentifier = (if ok then ''task_completed'' else ''task_failed''),
           ea_data = JObj [(''taskIdentifier'', JStr (taskIdentifier x)),
             (''durationMs'', case (startedAt x, completedAt x) of
                 (Some s, Some t) \<Rightarrow> JNum (of_int (t - s)) | _ \<Rightarrow> JNull),
             (''attemptCount'', nat_json (attemptCount x))],
           ea_target = NoTarget\<rparr>)"

definition registerTaskCompleted :: "nat \<Rightarrow> task_env \<Rightarrow> int \<Rightarrow> string \<Rightarrow> task_completion \<Rightarrow> task txm" where
  "registerTaskCompleted n env now taskId c =
     tx_bind (transaction (registerTaskCompletedInTx n env now taskId c)) (\<lambda>x.
       tx_then (tx_detached (emitTaskCompletionTelemetry n env now x)) (tx_return x))"

section \<open>Progress\<close>

definition progress_row :: "int \<Rightarrow> progress_report \<Rightarrow> task \<Rightarrow> task" where
  "progress_row now r x = x\<lparr>task_updatedAt := now, latestHeartbeatAt := Some now,
     progressReports := progressReports x @ [r],
     progress := (case pr_details r of None \<Rightarrow> progress x | Some d \<Rightarrow> Some d)\<rparr>"

fun fires_on_progress :: "task_env \<Rightarrow> task \<Rightarrow> progress_report \<Rightarrow> on_progress \<Rightarrow> bool" where
  "fires_on_progress env x r (OnProgress identifier cond template) =
     (\<not> truthy cond \<or> eval_condition env (the cond)
        (JObj [(''progressReport'', report_json env False r), (''jobInput'', task_data x)]))"

text \<open>Without a transaction of the caller every statement stands for itself; the result is
  \<open>None\<close> when the task is not running.\<close>

definition registerTaskProgress :: "nat \<Rightarrow> task_env \<Rightarrow> int \<Rightarrow> string \<Rightarrow> progress_report \<Rightarrow> task option txm" where
  "registerTaskProgress n env now taskId report =
     (let r = report\<lparr>pr_receivedAt := now\<rparr>
      in tx_bind (update_where taskId (\<lambda>y. completedAt y = None \<and> startedAt y \<noteq> None) (progress_row now r)) (\<lambda>u.
         case u of
           None \<Rightarrow> tx_return None
         | Some x \<Rightarrow>
             tx_then (send (TaskUpdate x task_progress now (Some r)))
            (tx_then (tx_each (\<lambda>(k, h). tx_when (fires_on_progress env x r h)
                 (executeOnProgressHandler n env now x r k h)) (List.enumerate 0 (inv_onProgress (invocation x))))
              (tx_return (Some x)))))"

end
