(* ===== verification/Task_Core.thy ===== *)
theory Task_Core
  imports Task_Completion
begin

text \<open>
  The execution of core tasks (packages/api, task/services/core-task.service.ts).  The
  processors are a parameter: for a task name, whether the service registers the completion, and
  the computation.
\<close>

definition MAX_CONCURRENT_CORE_TASKS :: nat where "MAX_CONCURRENT_CORE_TASKS = 10"

record core_env =
  processors :: "string \<Rightarrow> (bool \<times> (int \<Rightarrow> task \<Rightarrow> unit txm)) option"
  toEnvelope :: "string \<Rightarrow> string \<Rightarrow> error_info"    \<comment> \<open>of an exception of the processor of a task\<close>

definition startable_core_task :: "int \<Rightarrow> task \<Rightarrow> bool" where
  "startable_core_task now x =
     (startedAt x = None \<and> attemptCount x < MAX_TASK_ATTEMPTS
      \<and> (case dontStartBefore x of None \<Rightarrow> True | Some t \<Rightarrow> t \<le> now)
      \<and> ownerId x = CORE_IDENTIFIER)"

definition startable_ids :: "int \<Rightarrow> task_table \<Rightarrow> string list" where
  "startable_ids now t = map fst (filter (\<lambda>(i, x). startable_core_task now x) t)"

definition unstartedCoreTaskCount :: "int \<Rightarrow> nat txm" where
  "unstartedCoreTaskCount now = (\<lambda>db. (Inr (length (startable_ids now (tasks db))), db))"

definition system_metadata :: json where
  "system_metadata = JObj [(''type'', JStr ''system''), (''metadata'', JObj [])]"

text \<open>The row is read back before the log entry is added.\<close>

definition start_core_task :: "int \<Rightarrow> string \<Rightarrow> task option txm" where
  "start_core_task now taskId =
     tx_bind (update_where taskId (\<lambda>_. True) (\<lambda>x. x\<lparr>startedAt := Some now, task_updatedAt := now\<rparr>)) (\<lambda>r.
     tx_bind (update_where taskId (\<lambda>_. True)
       (\<lambda>x. x\<lparr>systemLog := systemLog x @ [log_of now ''started'' ''Task is started''
          (Some (JObj [(''executorMetadata'', system_metadata)]))]\<rparr>)) (\<lambda>_. tx_return r))"

definition notify_folder :: "task \<Rightarrow> unit txm" where
  "notify_folder x = (if truthy (targetFolderId x)
     then send (FolderTaskUpdated (the (targetFolderId x)) (task_id x) (taskIdentifier x))
     else tx_return ())"

definition tx_handle :: "'a txm \<Rightarrow> (string \<Rightarrow> 'a txm) \<Rightarrow> 'a txm" where
  "tx_handle m h = (\<lambda>db. case m db of (Inl (Thrown e), db') \<Rightarrow> h e db' | r \<Rightarrow> r)"

definition tx_finally :: "'a txm \<Rightarrow> (task_db \<Rightarrow> task_db) \<Rightarrow> 'a txm" where
  "tx_finally m f = (\<lambda>db. case m db of (r, db') \<Rightarrow> (r, f db'))"

definition count_running :: "(nat \<Rightarrow> nat) \<Rightarrow> task_db \<Rightarrow> task_db" where
  "count_running f db = db\<lparr>runningTasksCount := f (runningTasksCount db)\<rparr>"

text \<open>The processor of a started task and the registration of its outcome; an exception of the
  registration counts as one of the processor.\<close>

definition run_processor :: "nat \<Rightarrow> core_env \<Rightarrow> task_env \<Rightarrow> int \<Rightarrow> task \<Rightarrow> bool \<Rightarrow> (task \<Rightarrow> unit txm) \<Rightarrow> unit txm" where
  "run_processor n cenv env now x registers run =
     tx_bind
       (tx_handle
         (tx_then (run x)
           (if registers then registerTaskCompleted n env now (task_id x) (Succeeded None system_metadata)
            else tx_return x))
         (\<lambda>e. registerTaskCompleted n env now (task_id x)
                (Failed None (toEnvelope cenv (taskIdentifier x) e) system_metadata)))
       (\<lambda>_. notify_folder x)"

definition executeCoreTask :: "nat \<Rightarrow> core_env \<Rightarrow> task_env \<Rightarrow> int \<Rightarrow> string \<Rightarrow> unit txm" where
  "executeCoreTask n cenv env now taskId =
     tx_bind (find_task taskId) (\<lambda>found. case found of
       None \<Rightarrow> tx_throw ''Task not found''
     | Some x \<Rightarrow>
         if startedAt x \<noteq> None then tx_return ()
         else if ownerId x \<noteq> CORE_IDENTIFIER then tx_return ()
         else tx_bind (transaction (start_core_task now taskId)) (\<lambda>r. case r of
             None \<Rightarrow> tx_throw ''Task not found when attempting to start.''
           | Some y \<Rightarrow>
               tx_then (notify_folder y)
                 (case processors cenv (taskIdentifier y) of
                    None \<Rightarrow> tx_throw ''Processor not found''
                  | Some (registers, run) \<Rightarrow>
                      tx_bind (\<lambda>db. (Inr (), count_running Suc db)) (\<lambda>_.
                        tx_finally (run_processor n cenv env now y registers (run now))
                          (count_running (\<lambda>k. k - 1))))))"

text \<open>\<open>_drainCoreTasks\<close>: one batch; the result is the number of tasks it executed and of those
  still waiting.\<close>

definition drainCoreTasks :: "nat \<Rightarrow> core_env \<Rightarrow> task_env \<Rightarrow> int \<Rightarrow> (nat \<times> nat) txm" where
  "drainCoreTasks n cenv env now = (\<lambda>db.
     (let limit = MAX_CONCURRENT_CORE_TASKS - runningTasksCount db;
          ids = take limit (startable_ids now (tasks db))
      in tx_then (tx_each (executeCoreTask n cenv env now) ids)
           (tx_bind (unstartedCoreTaskCount now) (\<lambda>pending. tx_return (length ids, pending))) db))"

text \<open>\<open>startDrainCoreTasks\<close>: batches until none waits; a batch that throws ends the drain.\<close>

primrec startDrainCoreTasks :: "nat \<Rightarrow> nat \<Rightarrow> core_env \<Rightarrow> task_env \<Rightarrow> int \<Rightarrow> bool \<Rightarrow> unit txm" where
  "startDrainCoreTasks 0 n cenv env now draining = tx_out_of_fuel"
| "startDrainCoreTasks (Suc k) n cenv env now draining =
     (if draining then tx_return ()
      else tx_bind (tx_handle (drainCoreTasks n cenv env now) (\<lambda>e. tx_return (0, 0))) (\<lambda>(completed, pending).
        if 0 < pending then startDrainCoreTasks k n cenv env now False else tx_return ()))"

end
