(* ===== verification/Task_Runners.thy ===== *)
theory Task_Runners
  imports Task_Core "HOL-Library.Word"
begin

unbundle bit_operations_syntax

text \<open>
  The core tasks that run a task of an app (the inner task): the processors of worker and of
  container tasks (packages/api, core-worker/processors/run-serverless-worker-task.processor.ts,
  docker/processors/run-docker-worker.task-processor.ts), the completions they register for both
  tasks (task/util/build-task-completions.util.ts), and the errors they pass on
  (packages/worker-utils, errors/worker-errors.ts).
\<close>

section \<open>Errors of work done elsewhere\<close>

datatype error_origin = PlatformOrigin | AppOrigin

fun origin_name :: "error_origin \<Rightarrow> string" where
  "origin_name PlatformOrigin = ''platform''"
| "origin_name AppOrigin = ''app''"

text \<open>\<open>AsyncWorkError\<close>, with its chain of causes.\<close>

datatype work_error = WorkError (we_name: string) (we_origin: error_origin) (we_code: string)
  (we_message: string) (we_stack: "string option") (we_details: "json option")
  (we_requeueDelayMs: "int option") (we_executionMetadata: "json option") (we_cause: "work_error option")

text \<open>\<open>toEnvelope\<close>, as it is stored: undefined fields are left out.\<close>

fun work_envelope :: "work_error \<Rightarrow> json" where
  "work_envelope (WorkError nm og c m s d r x None) = JObj
     ([(''name'', JStr nm), (''origin'', JStr (origin_name og)), (''code'', JStr c)] @ opt_field ''details'' d
      @ opt_field ''requeueDelayMs'' (map_option (\<lambda>ms. JNum (of_int ms)) r)
      @ opt_field ''executionMetadata'' x @ [(''message'', JStr m)] @ opt_field ''stack'' (map_option JStr s))"
| "work_envelope (WorkError nm og c m s d r x (Some e)) = JObj
     ([(''name'', JStr nm), (''origin'', JStr (origin_name og)), (''code'', JStr c)] @ opt_field ''details'' d
      @ [(''cause'', work_envelope e)]
      @ opt_field ''requeueDelayMs'' (map_option (\<lambda>ms. JNum (of_int ms)) r)
      @ opt_field ''executionMetadata'' x @ [(''message'', JStr m)] @ opt_field ''stack'' (map_option JStr s))"

fun resolveHighestLevelAppError :: "work_error \<Rightarrow> work_error option" where
  "resolveHighestLevelAppError (WorkError nm AppOrigin c m s d r x cause) =
     Some (WorkError nm AppOrigin c m s d r x cause)"
| "resolveHighestLevelAppError (WorkError nm PlatformOrigin c m s d r x None) = None"
| "resolveHighestLevelAppError (WorkError nm PlatformOrigin c m s d r x (Some e)) = resolveHighestLevelAppError e"

section \<open>What the runners call\<close>

record docker_job =
  dj_appIdentifier :: string
  dj_profileIdentifier :: string
  dj_jobIdentifier :: string
  dj_jobData :: json
  dj_taskId :: string
  dj_jobId :: string
  dj_targetUserId :: "string option"
  dj_storageAccessPolicy :: "json option"

text \<open>
  \<open>executeServerlessAppTask\<close> runs a task in a worker and \<open>executeAppDockerJob\<close> submits a job to a
  container: they return nothing or an \<open>AsyncWorkError\<close>, or throw something else; both run code of
  the app, which may call the platform, so they act on the database.  \<open>profiles\<close> is the
  serialised container profile of an app, \<open>randomUUIDv5\<close> the function of Bun, \<open>thrown_name\<close> the
  class of an exception and \<open>call_stack\<close> the text of a stack.
\<close>

record runner_env =
  executeServerlessAppTask :: "task \<Rightarrow> string \<Rightarrow> string \<Rightarrow> work_error option txm"
  executeAppDockerJob :: "docker_job \<Rightarrow> work_error option txm"
  profiles :: "app \<Rightarrow> string \<Rightarrow> string option"
  randomUUIDv5 :: "string \<Rightarrow> string \<Rightarrow> string"
  thrown_name :: "string \<Rightarrow> string"
  call_stack :: string

definition buildUnexpectedError :: "runner_env \<Rightarrow> string \<Rightarrow> string \<Rightarrow> string \<Rightarrow> work_error" where
  "buildUnexpectedError renv code message thrown =
     WorkError ''UnexpectedError'' PlatformOrigin code message (Some (call_stack renv)) None None None
       (Some (WorkError (thrown_name renv thrown) PlatformOrigin ''UNEXPECTED_ERROR'' thrown
          (Some (call_stack renv)) None None None None))"

section \<open>The completions of a failed run\<close>

text \<open>The inner task gets the error of the app as it is, or a generic one; the runner has done its
  work when the error is one of the app.\<close>

definition buildTaskCompletions :: "work_error \<Rightarrow> json \<Rightarrow> json \<Rightarrow> task_completion \<times> task_completion" where
  "buildTaskCompletions e innerMetadata runnerMetadata =
     (let a = resolveHighestLevelAppError e
      in (Failed (Option.bind a we_requeueDelayMs)
            (case a of
               Some a \<Rightarrow> \<lparr>err_code = we_code a, err_name = Some (we_name a), err_message = we_message a,
                  err_stack = we_stack a, err_cause = None, err_details = Some (work_envelope a)\<rparr>
             | None \<Rightarrow> \<lparr>err_code = ''EXECUTION_ERROR'', err_name = Some ''ExecutionError'',
                  err_message = ''There was an error executing the task (see admin logs for details)'',
                  err_stack = None, err_cause = None, err_details = None\<rparr>)
            innerMetadata,
          if a \<noteq> None then Succeeded (Some (JObj [])) runnerMetadata
          else Failed None \<lparr>err_code = we_code e, err_name = Some (we_name e), err_message = we_message e,
                  err_stack = None, err_cause = None, err_details = Some (work_envelope e)\<rparr> runnerMetadata))"

section \<open>Completions inside a transaction\<close>

text \<open>\<open>registerTaskCompleted\<close> with the transaction of the caller: the telemetry is started, and runs
  on a connection of its own, whatever becomes of the transaction.\<close>

definition registerTaskCompletedTx :: "nat \<Rightarrow> task_env \<Rightarrow> int \<Rightarrow> string \<Rightarrow> task_completion \<Rightarrow> task txm" where
  "registerTaskCompletedTx n env now i c =
     tx_bind (registerTaskCompletedInTx n env now i c) (\<lambda>x. tx_then (send (TelemetryDue x)) (tx_return x))"

definition due_telemetry :: "notice list \<Rightarrow> task list" where
  "due_telemetry = List.map_filter (\<lambda>m. case m of TelemetryDue x \<Rightarrow> Some x | _ \<Rightarrow> None)"

text \<open>The telemetry that the body has started runs after it.\<close>

definition with_telemetry :: "nat \<Rightarrow> task_env \<Rightarrow> int \<Rightarrow> 'a txm \<Rightarrow> 'a txm" where
  "with_telemetry n env now m = (\<lambda>db. case m db of (r, db') \<Rightarrow>
     (r, snd (tx_each (\<lambda>x. tx_detached (emitTaskCompletionTelemetry n env now x))
                (due_telemetry (drop (length (sent db)) (sent db'))) db')))"

text \<open>Both tasks in one transaction.\<close>

definition complete_both :: "nat \<Rightarrow> task_env \<Rightarrow> int \<Rightarrow> string \<Rightarrow> task_completion \<Rightarrow> string \<Rightarrow> task_completion \<Rightarrow> unit txm" where
  "complete_both n env now i ci j cj =
     with_telemetry n env now (transaction
       (tx_bind (registerTaskCompletedTx n env now i ci) (\<lambda>_.
        tx_bind (registerTaskCompletedTx n env now j cj) (\<lambda>_. tx_return ()))))"

section \<open>The processors\<close>

definition data_string :: "task \<Rightarrow> string \<Rightarrow> string option" where
  "data_string x k = (case js_prop (task_data x) k of Some (Some (JStr s)) \<Rightarrow> Some s | _ \<Rightarrow> None)"

definition find_inner :: "task \<Rightarrow> task txm" where
  "find_inner x = (case data_string x ''innerTaskId'' of
     None \<Rightarrow> tx_throw ''Inner task not found''
   | Some i \<Rightarrow> tx_bind (find_task i) (\<lambda>found. case found of
        None \<Rightarrow> tx_throw ''Inner task not found'' | Some y \<Rightarrow> tx_return y))"

definition string_or_empty :: "string option \<Rightarrow> string" where
  "string_or_empty s = (case s of None \<Rightarrow> [] | Some t \<Rightarrow> t)"

definition runtime_metadata :: "string \<Rightarrow> json" where
  "runtime_metadata worker = JObj [(''type'', JStr ''runtime''),
     (''metadata'', JObj [(''workerIdentifier'', JStr worker)])]"

definition serverless_completions :: "runner_env \<Rightarrow> json \<Rightarrow> work_error option \<Rightarrow> task_completion \<times> task_completion" where
  "serverless_completions renv metadata r = (case r of
     None \<Rightarrow> (Succeeded (Some (JObj [])) metadata, Succeeded (Some (JObj [])) system_metadata)
   | Some e \<Rightarrow> buildTaskCompletions e metadata system_metadata)"

definition runServerlessWorker :: "nat \<Rightarrow> runner_env \<Rightarrow> task_env \<Rightarrow> int \<Rightarrow> task \<Rightarrow> unit txm" where
  "runServerlessWorker n renv env now x =
     (if inv_kind (invocation x) \<noteq> ''event'' then tx_throw ''RunServerlessWorkerProcessor requires event trigger''
      else tx_bind (find_inner x) (\<lambda>inner.
        let worker = string_or_empty (data_string x ''workerIdentifier'');
            metadata = runtime_metadata worker
        in tx_bind (registerTaskStarted now (task_id inner) metadata) (\<lambda>started.
           tx_bind (tx_handle
               (tx_bind (executeServerlessAppTask renv started
                     (string_or_empty (data_string x ''appIdentifier'')) worker)
                  (\<lambda>r. tx_return (serverless_completions renv metadata r)))
               (\<lambda>e. tx_return (buildTaskCompletions
                  (buildUnexpectedError renv ''UNEXPECTED_SERVERLESS_EXECUTION_ERROR''
                     ''Unexpected error during in run serverless worker core task processor (run-serverless-worker-task.processor.ts)'' e)
                  metadata system_metadata)))
             (\<lambda>(ci, cr). complete_both n env now (task_id inner) ci (task_id x) cr))))"

text \<open>\<open>getProfileSpec\<close> and the hash of the serialised profile: 32-bit arithmetic, where
  \<open>hash & hash\<close> is the conversion to a signed integer, and the hexadecimal digits of the absolute
  value.\<close>

definition getProfileSpec :: "runner_env \<Rightarrow> task_env \<Rightarrow> string \<Rightarrow> string \<Rightarrow> string + string" where
  "getProfileSpec renv env a p = (case getApp env a of
     None \<Rightarrow> Inl ''App not found''
   | Some q \<Rightarrow> (case profiles renv q p of None \<Rightarrow> Inl ''Container profile not found'' | Some s \<Rightarrow> Inr s))"

definition hash_char :: "32 word \<Rightarrow> char \<Rightarrow> 32 word" where
  "hash_char h c = push_bit 5 h - h + of_nat (of_char c)"

fun digits_of :: "nat \<Rightarrow> nat \<Rightarrow> string" where
  "digits_of b k = (if b < 2 \<or> k < b then [hex_digit k] else digits_of b (k div b) @ [hex_digit (k mod b)])"

declare digits_of.simps [simp del]

definition hashProfileSpec :: "string \<Rightarrow> string" where
  "hashProfileSpec content = to_lower (digits_of 16 (nat \<bar>sint (foldl hash_char 0 content)\<bar>))"

definition docker_metadata :: "string \<Rightarrow> string \<Rightarrow> string \<Rightarrow> string \<Rightarrow> json" where
  "docker_metadata content a p job = JObj [(''type'', JStr ''docker''), (''metadata'', JObj
     [(''profileHash'', JStr (hashProfileSpec content)), (''profileKey'', JStr (a @ '':'' @ p)),
      (''jobIdentifier'', JStr job)])]"

text \<open>The job is only submitted; the agent in the container reports its outcome.\<close>

definition runDockerWorker :: "nat \<Rightarrow> runner_env \<Rightarrow> task_env \<Rightarrow> int \<Rightarrow> task \<Rightarrow> unit txm" where
  "runDockerWorker n renv env now x =
     (if inv_kind (invocation x) \<noteq> ''event'' then tx_throw ''RunDockerJobProcessor requires event trigger''
      else tx_bind (find_inner x) (\<lambda>inner.
        let a = string_or_empty (data_string x ''appIdentifier'');
            p = string_or_empty (data_string x ''profileIdentifier'');
            job = string_or_empty (data_string x ''jobClassIdentifier'')
        in tx_bind (tx_lift (getProfileSpec renv env a p)) (\<lambda>content.
           let metadata = docker_metadata content a p job
           in tx_bind (registerTaskStarted now (task_id inner) metadata) (\<lambda>_.
              tx_bind (tx_handle
                  (executeAppDockerJob renv \<lparr>dj_appIdentifier = a, dj_profileIdentifier = p,
                     dj_jobIdentifier = job, dj_jobData = task_data inner, dj_taskId = task_id x,
                     dj_jobId = randomUUIDv5 renv (digits_of 10 (attemptCount inner + 1)) (task_id inner),
                     dj_targetUserId = targetUserId inner, dj_storageAccessPolicy = storageAccessPolicy inner\<rparr>)
                  (\<lambda>e. tx_return (Some (buildUnexpectedError renv ''UNEXPECTED_DOCKER_EXECUTION_ERROR''
                     ''Unexpected error during in run docker worker core task processor (run-docker-worker-task.processor.ts)'' e))))
                (\<lambda>r. case r of
                   None \<Rightarrow> tx_return ()
                 | Some e \<Rightarrow> (case buildTaskCompletions e metadata metadata of (ci, cr) \<Rightarrow>
                     complete_both n env now (task_id inner) ci (task_id x) cr))))))"

text \<open>The runners among the processors; neither lets the service register its completion.\<close>

definition runner_processors :: "nat \<Rightarrow> runner_env \<Rightarrow> task_env \<Rightarrow> string \<Rightarrow> (bool \<times> (int \<Rightarrow> task \<Rightarrow> unit txm)) option" where
  "runner_processors n renv env name =
     (if name = ''run_serverless_worker'' then Some (False, runServerlessWorker n renv env)
      else if name = ''run_docker_worker'' then Some (False, runDockerWorker n renv env)
      else None)"

text \<open>The error of a core task whose processor throws.\<close>

definition core_task_error :: "runner_env \<Rightarrow> string \<Rightarrow> string \<Rightarrow> error_info" where
  "core_task_error renv identifier thrown =
     (let e = buildUnexpectedError renv ''UNEXPECTED_ERROR_CORE_TASK_EXECUTION''
            (''Unexpected error while executing '' @ [CHR 0x27] @ identifier @ [CHR 0x27] @ '' core task'') thrown
      in \<lparr>err_code = we_code e, err_name = Some (we_name e), err_message = we_message e, err_stack = we_stack e,
           err_cause = map_option work_envelope (we_cause e), err_details = we_details e\<rparr>)"

end
