(* ===== verification/Task_Hooks.thy ===== *)
theory Task_Hooks
  imports Task_Runners
begin

text \<open>
  The calls of the agent of a container job (packages/api,
  docker/services/docker-worker-hook.service.ts): start, progress, completion and signed URLs.
  The claims of the job token name the core task that runs the job; its data name the inner task.
  Signature and lifetime of the token are checked before (jose), and \<open>createSignedContentUrlsAsApp\<close>
  of the app service gets the application and the files that are returned here.
\<close>

record policy_rule =
  pl_folderId :: string
  pl_methods :: "string list"
  pl_prefix :: "string option"
  pl_objectKey :: "string option"

record job_claims =
  cl_jobId :: string
  cl_taskId :: string
  cl_executorMetadata :: json
  cl_rules :: "policy_rule list"

definition docker_executor :: "job_claims \<Rightarrow> json" where
  "docker_executor c = JObj [(''type'', JStr ''docker''), (''metadata'', cl_executorMetadata c)]"

section \<open>Completion\<close>

text \<open>\<open>CompleteJobRequest\<close>: a result, or name, code, message, origin, details and requeue delay of
  an error.\<close>

datatype job_outcome = JobSucceeded json
  | JobFailed "string option" string string error_origin "(string \<times> json) list option" "int option"

text \<open>The completions of the inner task and of its runner.\<close>

fun job_completions :: "job_claims \<Rightarrow> job_outcome \<Rightarrow> task_completion \<times> task_completion" where
  "job_completions c (JobSucceeded r) =
     (Succeeded (Some r) (docker_executor c), Succeeded (Some (JObj [])) (docker_executor c))"
| "job_completions c (JobFailed nm code msg og details requeue) =
     (let e = \<lparr>err_code = code, err_name = Some (case nm of None \<Rightarrow> ''Error'' | Some s \<Rightarrow> s), err_message = msg,
            err_stack = None, err_cause = None,
            err_details = Some (JObj (map_set ''origin'' (JStr (origin_name og))
              (case details of None \<Rightarrow> [] | Some m \<Rightarrow> m)))\<rparr>
      in (Failed None e (docker_executor c),
          if og = AppOrigin then Succeeded (Some (JObj [])) (docker_executor c)
          else Failed None e (docker_executor c)))"

definition completeJobInTx :: "nat \<Rightarrow> task_env \<Rightarrow> int \<Rightarrow> job_claims \<Rightarrow> job_outcome \<Rightarrow> unit txm" where
  "completeJobInTx n env now c outcome =
     tx_bind (find_task (cl_taskId c)) (\<lambda>found. case found of
       None \<Rightarrow> tx_throw ''Task not found''
     | Some d \<Rightarrow>
         if startedAt d = None then tx_throw ''Task cannot be completed because it has not been started''
         else if completedAt d \<noteq> None then tx_throw ''Task cannot be completed because it has not been started''
         else tx_bind (find_inner d) (\<lambda>inner.
           case job_completions c outcome of (ci, cr) \<Rightarrow>
             tx_bind (registerTaskCompletedTx n env now (task_id d) cr) (\<lambda>_.
             tx_bind (registerTaskCompletedTx n env now (task_id inner) ci) (\<lambda>_. tx_return ()))))"

definition completeJob :: "nat \<Rightarrow> task_env \<Rightarrow> int \<Rightarrow> job_claims \<Rightarrow> job_outcome \<Rightarrow> unit txm" where
  "completeJob n env now c outcome = with_telemetry n env now (transaction (completeJobInTx n env now c outcome))"

section \<open>Start and progress\<close>

text \<open>The inner task of a runner: its identifier has to be a string that is not empty.\<close>

definition inner_id :: "task \<Rightarrow> string txm" where
  "inner_id d = (if truthy (data_string d ''innerTaskId'') then tx_return (the (data_string d ''innerTaskId''))
     else tx_throw ''Docker job task has no inner task'')"

definition startJob :: "int \<Rightarrow> job_claims \<Rightarrow> unit txm" where
  "startJob now c = transaction (
     tx_bind (find_task (cl_taskId c)) (\<lambda>found. case found of
       None \<Rightarrow> tx_throw ''Docker task not found''
     | Some d \<Rightarrow> tx_bind (inner_id d) (\<lambda>i. tx_bind (find_task i) (\<lambda>found. case found of
         None \<Rightarrow> tx_throw ''Docker handled task not found''
       | Some y \<Rightarrow>
           if completedAt y \<noteq> None then tx_throw ''the task has already been completed''
           else if startedAt y = None then tx_throw ''the task has not been started''
           else if latestHeartbeatAt y \<noteq> None then tx_throw ''initial heartbeat was already registered''
           else if startedAt d = None then tx_throw ''the associated docker task has not been started''
           else if completedAt d \<noteq> None then tx_throw ''the associated docker task has already been completed''
           else tx_bind (registerHeartbeatInTx now (task_id y) (Some (''Task worker first heartbeat'', None))
                  (Some (docker_executor c))) (\<lambda>_. tx_return ())))))"

definition processProgress :: "nat \<Rightarrow> task_env \<Rightarrow> int \<Rightarrow> job_claims \<Rightarrow> progress_report \<Rightarrow> unit txm" where
  "processProgress n env now c report = transaction (
     tx_bind (find_task (cl_taskId c)) (\<lambda>found. case found of
       None \<Rightarrow> tx_throw ''Docker task not found''
     | Some d \<Rightarrow> tx_bind (inner_id d) (\<lambda>i.
         tx_bind (registerTaskProgress n env now i (report\<lparr>pr_executorMetadata := Some (docker_executor c)\<rparr>)) (\<lambda>r.
           case r of None \<Rightarrow> tx_throw ''Task is not in a running state'' | Some y \<Rightarrow> tx_return ()))))"

section \<open>Signed URLs\<close>

record signed_file =
  sf_folderId :: string
  sf_objectKey :: string
  sf_method :: string

definition rule_allows :: "signed_file \<Rightarrow> policy_rule \<Rightarrow> bool" where
  "rule_allows f r \<longleftrightarrow> pl_folderId r = sf_folderId f \<and> sf_method f \<in> set (pl_methods r)
     \<and> (pl_objectKey r = None \<and> pl_prefix r = None
        \<or> truthy (pl_prefix r) \<and> starts_with (sf_objectKey f) (the (pl_prefix r))
        \<or> truthy (pl_objectKey r) \<and> sf_objectKey f = the (pl_objectKey r))"

definition requestPresignedStorageUrls :: "job_claims \<Rightarrow> signed_file list \<Rightarrow> (string \<times> signed_file list) txm" where
  "requestPresignedStorageUrls c files =
     tx_bind (find_task (cl_taskId c)) (\<lambda>found. case found of
       None \<Rightarrow> tx_throw ''Task not found''
     | Some d \<Rightarrow>
         if startedAt d = None then tx_throw ''Task has not been started yet''
         else if completedAt d \<noteq> None then tx_throw ''Task has already been completed''
         else tx_bind (find_inner d) (\<lambda>inner.
           if list_all (\<lambda>f. list_ex (rule_allows f) (cl_rules c)) files then tx_return (ownerId inner, files)
           else tx_throw ''Access is not allowed''))"

end
