(* ===== verification/Task_Store.thy ===== *)
theory Task_Store
  imports Task_Core
begin

text \<open>
  Reasoning about operations on the task tables.  \<open>tx_keeps R m\<close> says that \<open>m\<close>, whatever its
  outcome, leaves a database that is related by \<open>R\<close> to the one it started from.  The locale
  \<open>tx_relation\<close> has the rules of the combinators for a preorder \<open>R\<close>; the locale \<open>task_store\<close> adds
  what \<open>R\<close> has to allow (messages, identifiers, events and rows that are new), and shows once
  for all such relations that emitting events, firing schedules, creating child tasks and
  triggering tasks keep them.
\<close>

definition tx_keeps :: "(task_db \<Rightarrow> task_db \<Rightarrow> bool) \<Rightarrow> 'a txm \<Rightarrow> bool" where
  "tx_keeps R m \<longleftrightarrow> (\<forall>db. R db (snd (m db)))"

lemma tx_keepsD: "tx_keeps R m \<Longrightarrow> R db (snd (m db))"
  by (simp add: tx_keeps_def)

text \<open>The same with a condition on the result.\<close>

definition tx_gives :: "(task_db \<Rightarrow> task_db \<Rightarrow> bool) \<Rightarrow> ('a \<Rightarrow> bool) \<Rightarrow> 'a txm \<Rightarrow> bool" where
  "tx_gives R P m \<longleftrightarrow> tx_keeps R m \<and> (\<forall>db x. fst (m db) = Inr x \<longrightarrow> P x)"

text \<open>A row as the code inserts it: not started, no attempts, and its key is the one of its
  trigger.\<close>

definition new_row :: "task_env \<Rightarrow> task \<Rightarrow> bool" where
  "new_row env x \<longleftrightarrow> startedAt x = None \<and> completedAt x = None \<and> success x = None
     \<and> attemptCount x = 0 \<and> failureCount x = 0 \<and> task_error x = None
     \<and> idempotencyKey x = buildTaskIdempotencyKey (hash env) (ownerId x) (taskIdentifier x) (invocation x)"

lemma new_row_blank [simp]: "new_row env (blank_task env i ow idn d ti data h now)"
  by (simp add: new_row_def blank_task_def)

lemma new_row_core [simp]: "new_row env (core_task_of env e now k d i)"
  by (simp add: new_row_def blank_task_def core_task_of_def)

lemma new_row_child [simp]: "new_row env (child_of p d x) \<longleftrightarrow> new_row env x"
  by (simp add: new_row_def child_of_def)

lemma new_row_targets [simp]: "new_row env (with_targets g x) \<longleftrightarrow> new_row env x"
  by (simp add: new_row_def with_targets_def)

section \<open>Laws of the combinators\<close>

lemma bind_return: "tx_bind (tx_return x) f = f x"
  by (simp add: tx_bind_def tx_return_def)

lemma bind_lift: "tx_bind (tx_lift (Inr x)) f = f x"
  by (simp add: tx_bind_def tx_return_def tx_lift_def)

lemma bind_draw: "tx_bind (draw_uuid env) f db = f (uuid env (drawn db)) (db\<lparr>drawn := Suc (drawn db)\<rparr>)"
  by (simp add: tx_bind_def draw_uuid_def)

lemma then_return: "tx_then (tx_return ()) m = m"
  by (simp add: tx_then_def bind_return)

section \<open>The rules of the combinators\<close>

locale tx_relation =
  fixes R :: "task_db \<Rightarrow> task_db \<Rightarrow> bool"
  assumes R_refl: "R db db"
    and R_trans: "R a b \<Longrightarrow> R b c \<Longrightarrow> R a c"
begin

lemma keeps_pure:
  "tx_keeps R (tx_return x)" "tx_keeps R (tx_throw e)" "tx_keeps R tx_out_of_fuel"
  "tx_keeps R (tx_lift r)" "tx_keeps R (find_task i)" "tx_keeps R (find_task_where p)"
  "tx_keeps R (require_task env a t)" "tx_keeps R (require_access c)"
  by (auto simp: tx_keeps_def tx_return_def tx_throw_def tx_out_of_fuel_def tx_lift_def find_task_def
      find_task_where_def require_task_def require_access_def R_refl split: sum.split option.split access.split)

lemma keeps_bind:
  assumes "tx_keeps R m" and "\<And>x. tx_keeps R (f x)"
  shows "tx_keeps R (tx_bind m f)"
  unfolding tx_keeps_def
proof
  fix db
  show "R db (snd (tx_bind m f db))"
    using tx_keepsD [OF assms(1), of db] tx_keepsD [OF assms(2)] R_trans
    by (cases "m db") (auto simp: tx_bind_def split: sum.split)
qed

lemma keeps_then: "tx_keeps R m \<Longrightarrow> tx_keeps R n \<Longrightarrow> tx_keeps R (tx_then m n)"
  by (simp add: tx_then_def keeps_bind)

lemma keeps_when: "(b \<Longrightarrow> tx_keeps R m) \<Longrightarrow> tx_keeps R (tx_when b m)"
  by (simp add: tx_when_def keeps_pure)

lemma keeps_each: "(\<And>x. x \<in> set xs \<Longrightarrow> tx_keeps R (f x)) \<Longrightarrow> tx_keeps R (tx_each f xs)"
  by (induction xs) (simp_all add: keeps_pure keeps_then)

lemma keeps_collect: "(\<And>x. x \<in> set xs \<Longrightarrow> tx_keeps R (f x)) \<Longrightarrow> tx_keeps R (tx_collect f xs)"
  by (induction xs) (simp_all add: keeps_pure keeps_bind)

lemma keeps_catch:
  assumes "tx_keeps R m"
  shows "tx_keeps R (tx_catch m)"
  unfolding tx_keeps_def
proof
  fix db
  show "R db (snd (tx_catch m db))"
    using tx_keepsD [OF assms, of db]
    by (cases "m db") (auto simp: tx_catch_def split: sum.split tx_error.split)
qed

lemma keeps_handle:
  assumes "tx_keeps R m" and "\<And>e. tx_keeps R (h e)"
  shows "tx_keeps R (tx_handle m h)"
  unfolding tx_keeps_def
proof
  fix db
  show "R db (snd (tx_handle m h db))"
    using tx_keepsD [OF assms(1), of db] tx_keepsD [OF assms(2)] R_trans
    by (cases "m db") (auto simp: tx_handle_def split: sum.split tx_error.split)
qed

lemma keeps_detached: "tx_keeps R m \<Longrightarrow> tx_keeps R (tx_detached m)"
  by (simp add: tx_keeps_def tx_detached_def)

lemma keeps_if: "(b \<Longrightarrow> tx_keeps R m) \<Longrightarrow> (\<not> b \<Longrightarrow> tx_keeps R n) \<Longrightarrow> tx_keeps R (if b then m else n)"
  by simp

lemma keeps_option:
  "(x = None \<Longrightarrow> tx_keeps R m) \<Longrightarrow> (\<And>y. x = Some y \<Longrightarrow> tx_keeps R (f y)) \<Longrightarrow>
   tx_keeps R (case x of None \<Rightarrow> m | Some y \<Rightarrow> f y)"
  by (cases x) simp_all

lemma keeps_find:
  assumes "\<And>db. R db (snd (f (map_of (tasks db) i) db))"
  shows "tx_keeps R (tx_bind (find_task i) f)"
  using assms by (simp add: tx_keeps_def tx_bind_def find_task_def)

lemma at_bind:
  assumes "R db (snd (m db))" and "\<And>x. tx_keeps R (f x)"
  shows "R db (snd (tx_bind m f db))"
  using assms(1) tx_keepsD [OF assms(2)] R_trans
  by (cases "m db") (auto simp: tx_bind_def split: sum.split)

lemma gives_return: "P x \<Longrightarrow> tx_gives R P (tx_return x)"
  by (simp add: tx_gives_def keeps_pure) (simp add: tx_return_def)

lemma gives_bind: "tx_keeps R m \<Longrightarrow> (\<And>x. tx_gives R P (f x)) \<Longrightarrow> tx_gives R P (tx_bind m f)"
proof -
  assume m: "tx_keeps R m" and f: "\<And>x. tx_gives R P (f x)"
  have "tx_keeps R (tx_bind m f)" using m f by (intro keeps_bind) (simp_all add: tx_gives_def)
  moreover have "P y" if "fst (tx_bind m f db) = Inr y" for db y
  proof (cases "m db")
    case (Pair r db')
    with that obtain x where "fst (f x db') = Inr y"
      by (auto simp: tx_bind_def split: sum.splits)
    then show ?thesis using f [of x] by (simp add: tx_gives_def)
  qed
  ultimately show ?thesis by (simp add: tx_gives_def)
qed

lemma gives_then: "tx_keeps R m \<Longrightarrow> tx_gives R P n \<Longrightarrow> tx_gives R P (tx_then m n)"
  by (simp add: tx_then_def gives_bind)

lemma bind_gives:
  assumes "tx_gives R P m" and "\<And>x. P x \<Longrightarrow> tx_keeps R (f x)"
  shows "tx_keeps R (tx_bind m f)"
  unfolding tx_keeps_def
proof
  fix db
  show "R db (snd (tx_bind m f db))"
  proof (cases "m db")
    case (Pair r db')
    have "R db db'" using assms(1) tx_keepsD [of R m db] by (simp add: tx_gives_def Pair)
    moreover have "R db' (snd (f x db'))" if "r = Inr x" for x
    proof -
      have "P x" using assms(1) that Pair by (metis fst_conv tx_gives_def)
      from tx_keepsD [OF assms(2) [OF this]] show ?thesis .
    qed
    ultimately show ?thesis
      using R_trans by (cases r) (auto simp: tx_bind_def Pair)
  qed
qed

lemma gives_collect:
  assumes "\<And>x. tx_gives R (list_all Q) (f x)"
  shows "tx_gives R (list_all Q) (tx_collect f xs)"
proof (induction xs)
  case (Cons x xs)
  have k: "tx_keeps R (f x)" "tx_keeps R (tx_collect f xs)"
    using assms Cons.IH by (simp_all add: tx_gives_def)
  show ?case
    unfolding tx_gives_def
  proof (intro conjI allI impI)
    show "tx_keeps R (tx_collect f (x # xs))" using k by (simp add: keeps_bind keeps_pure)
    fix db ys
    assume "fst (tx_collect f (x # xs) db) = Inr ys"
    then obtain us db1 vs db2 where "f x db = (Inr us, db1)" "tx_collect f xs db1 = (Inr vs, db2)" "ys = us @ vs"
      by (auto simp: tx_bind_def tx_return_def split: prod.splits sum.splits)
    then show "list_all Q ys"
      using assms [of x] Cons.IH by (metis fst_conv list_all_append tx_gives_def)
  qed
qed (simp add: gives_return)

lemma gives_if: "(b \<Longrightarrow> tx_gives R P m) \<Longrightarrow> (\<not> b \<Longrightarrow> tx_gives R P n) \<Longrightarrow> tx_gives R P (if b then m else n)"
  by simp

lemma gives_option:
  "(x = None \<Longrightarrow> tx_gives R P m) \<Longrightarrow> (\<And>y. x = Some y \<Longrightarrow> tx_gives R P (f y)) \<Longrightarrow>
   tx_gives R P (case x of None \<Rightarrow> m | Some y \<Rightarrow> f y)"
  by (cases x) simp_all

lemmas gives_rules = gives_bind gives_then gives_if gives_option

lemmas keeps_rules = keeps_pure keeps_bind keeps_then keeps_when keeps_each keeps_collect
  keeps_if keeps_option

end

section \<open>Creating tasks\<close>

locale task_store = tx_relation +
  fixes env :: task_env
  assumes keeps_send: "tx_keeps R (send n)"
    and keeps_draw: "tx_keeps R (draw_uuid env)"
    and keeps_event: "event_handledAt e = None \<Longrightarrow> tx_keeps R (insert_event e)"
    and keeps_insert: "list_all (new_row env) xs \<Longrightarrow> tx_keeps R (insert_tasks xs)"
    and keeps_outside: "new_row env x \<Longrightarrow> tx_keeps R (insert_outside x)"
begin

lemmas store_rules = keeps_rules keeps_send keeps_draw keeps_event

lemma announce_keeps: "tx_keeps R (announce_tasks xs)" "tx_keeps R (announce_event a e)"
  unfolding announce_tasks_def announce_event_def by (intro store_rules)+

lemma notifications_keep: "tx_keeps R (enqueue_notifications env now k)"
  unfolding enqueue_notifications_def
  by (auto split: sum.split simp: new_row_def blank_task_def intro!: store_rules keeps_outside)

text \<open>The tasks that triggers build are new rows.\<close>

lemma trigger_gives:
  assumes "\<And>x. new_row env x \<Longrightarrow> tx_keeps R (enq x)"
  shows "tx_gives R (list_all (new_row env)) (buildEventTriggeredTask enq env now e target a tr ref)"
  unfolding buildEventTriggeredTask_def Let_def
  by (intro gives_rules gives_return store_rules assms)
    (simp_all add: new_row_def blank_task_def)

lemma config_gives:
  assumes "\<And>x. new_row env x \<Longrightarrow> tx_keeps R (enq x)"
  shows "tx_gives R (list_all (new_row env)) (config_tasks enq env now e a p)"
  unfolding config_tasks_def
  by (intro gives_rules gives_collect store_rules)
    (auto split: trigger_config.split intro!: gives_return trigger_gives assms)

lemma runtime_gives:
  assumes "\<And>x. new_row env x \<Longrightarrow> tx_keeps R (enq x)"
  shows "tx_gives R (list_all (new_row env)) (runtime_tasks enq env now e a row)"
  unfolding runtime_tasks_def
  by (cases row) (auto intro!: gives_rules gives_return store_rules trigger_gives assms)

lemma core_gives: "tx_gives R (list_all (new_row env)) (gatherCoreTasksForEvent env e now)"
  unfolding gatherCoreTasksForEvent_def
  by (intro gives_rules gives_collect gives_return) (auto intro!: gives_rules gives_return store_rules)

lemma write_event_keeps:
  assumes "\<And>x. new_row env x \<Longrightarrow> tx_keeps R (enq x)"
  shows "tx_keeps R (write_event enq env now a p)"
proof -
  have body: "tx_keeps R (tx_then (tx_when (ts \<noteq> []) (tx_then (insert_tasks ts) (announce_tasks ts)))
      (tx_then (announce_event a e) (case k of None \<Rightarrow> tx_return ()
         | Some k \<Rightarrow> enqueue_notifications env now k)))" if "list_all (new_row env) ts" for ts e k
    using that by (intro store_rules keeps_insert announce_keeps notifications_keep)
  show ?thesis
    unfolding write_event_def Let_def
    by (intro keeps_bind [OF keeps_draw] keeps_then [OF keeps_event]
        bind_gives [OF gives_collect [OF config_gives [OF assms]]]
        bind_gives [OF gives_collect [OF runtime_gives [OF assms]]] bind_gives [OF core_gives] body)
      simp_all
qed

lemma emit_keeps: "tx_keeps R (emitEventInTx n skip env now a)"
proof (induction n arbitrary: skip a)
  case (Suc n)
  have "tx_keeps R (emitRunnable (emitEventInTx n False env now) env x)" for x
    unfolding emitRunnable_def by (intro store_rules Suc.IH)
  then show ?case
    unfolding emitEventInTx.simps emitEventStep_def by (intro store_rules write_event_keeps)
qed (simp add: keeps_pure)

lemma enqueued_keeps: "tx_keeps R (emitRunnableTaskEnqueuedEvent n env now x)"
  unfolding emitRunnableTaskEnqueuedEvent_def emitRunnable_def by (intro store_rules emit_keeps)

lemma insert_enqueue_keeps: "new_row env x \<Longrightarrow> tx_keeps R (insert_and_enqueue n env now x)"
  unfolding insert_and_enqueue_def by (intro store_rules keeps_insert enqueued_keeps) simp

lemma batch_keeps: "list_all (new_row env) xs \<Longrightarrow> tx_keeps R (schedule_batch n env now xs)"
  unfolding schedule_batch_def by (intro store_rules keeps_insert enqueued_keeps)

lemma schedule_gives: "tx_gives R (list_all (new_row env)) (tryEnqueueScheduleTask env now s)"
  unfolding tryEnqueueScheduleTask_def
  by (cases s) (auto simp: Let_def new_row_def blank_task_def
      intro!: gives_rules gives_return store_rules split: option.split)

lemma on_complete_keeps: "tx_keeps R (executeOnCompleteHandler n env now p ok k h)"
  by (cases h) (auto simp: Let_def intro!: store_rules insert_enqueue_keeps)

lemma on_progress_keeps: "tx_keeps R (executeOnProgressHandler n env now p r k h)"
  by (cases h) (auto simp: Let_def intro!: store_rules insert_enqueue_keeps)

lemma run_on_complete_keeps: "tx_keeps R (run_on_complete n env now x c hs)"
  unfolding run_on_complete_def by (auto intro!: store_rules on_complete_keeps)

end

end
