(* ===== verification/Task_Invariant.thy ===== *)
theory Task_Invariant
  imports Task_Store
begin

text \<open>
  The invariant of the task table and the evolution of its rows: what every operation of the task
  engine, on every path, keeps.  \<open>body_rel\<close> is the relation for the body of a transaction, with
  the rows inserted outside of it; \<open>op_rel\<close> the one for whole operations.
\<close>

section \<open>Rows and tables\<close>

definition row_ok :: "task_env \<Rightarrow> task \<Rightarrow> bool" where
  "row_ok env x \<longleftrightarrow>
     (completedAt x \<noteq> None \<longleftrightarrow> success x \<noteq> None)
     \<and> (completedAt x \<noteq> None \<longrightarrow> startedAt x \<noteq> None)
     \<and> (success x = Some True \<longrightarrow> task_error x = None)
     \<and> (success x = Some False \<longrightarrow> task_error x \<noteq> None \<and> 0 < failureCount x)
     \<and> attemptCount x = failureCount x + (if success x = Some True then 1 else 0)
     \<and> (startedAt x = None \<longrightarrow> attemptCount x \<le> MAX_TASK_ATTEMPTS)
     \<and> idempotencyKey x = buildTaskIdempotencyKey (hash env) (ownerId x) (taskIdentifier x) (invocation x)"

definition table_ok :: "task_env \<Rightarrow> task_table \<Rightarrow> bool" where
  "table_ok env t \<longleftrightarrow> distinct (map fst t) \<and> distinct (map (idempotencyKey \<circ> snd) t)
     \<and> (\<forall>i x. (i, x) \<in> set t \<longrightarrow> task_id x = i \<and> row_ok env x)"

definition db_ok :: "task_env \<Rightarrow> task_db \<Rightarrow> bool" where
  "db_ok env db \<longleftrightarrow> table_ok env (tasks db) \<and> list_all (row_ok env) (outside db)"

text \<open>How a row may change: a completed one not at all, its identity never, its counters only
  upwards.\<close>

definition row_evolves :: "task \<Rightarrow> task \<Rightarrow> bool" where
  "row_evolves x y \<longleftrightarrow> (completedAt x \<noteq> None \<longrightarrow> y = x)
     \<and> task_id y = task_id x \<and> idempotencyKey y = idempotencyKey x \<and> ownerId y = ownerId x
     \<and> taskIdentifier y = taskIdentifier x \<and> invocation y = invocation x
     \<and> task_createdAt y = task_createdAt x
     \<and> attemptCount x \<le> attemptCount y \<and> failureCount x \<le> failureCount y
     \<and> length (systemLog x) \<le> length (systemLog y)
     \<and> prefix (taskLog x) (taskLog y) \<and> prefix (progressReports x) (progressReports y)"

definition table_evolves :: "task_table \<Rightarrow> task_table \<Rightarrow> bool" where
  "table_evolves t t' \<longleftrightarrow> list_all2 (\<lambda>p q. fst p = fst q \<and> row_evolves (snd p) (snd q)) t t'"

definition grows :: "task_table \<Rightarrow> task_table \<Rightarrow> bool" where
  "grows t t' \<longleftrightarrow> (\<exists>u new. t' = u @ new \<and> table_evolves t u)"

text \<open>The keys of a row; \<open>outside\<close> rows are among the new ones.\<close>

definition row_keys :: "task \<Rightarrow> string \<times> string" where
  "row_keys x = (task_id x, idempotencyKey x)"

definition grows_with :: "task_db \<Rightarrow> task_db \<Rightarrow> bool" where
  "grows_with db db' \<longleftrightarrow> (\<exists>u new extra. tasks db' = u @ new \<and> table_evolves (tasks db) u
     \<and> outside db' = outside db @ extra \<and> subseq (map row_keys extra) (map (row_keys \<circ> snd) new))"

definition body_rel :: "task_env \<Rightarrow> task_db \<Rightarrow> task_db \<Rightarrow> bool" where
  "body_rel env db db' \<longleftrightarrow> (db_ok env db \<longrightarrow> db_ok env db' \<and> grows_with db db')"

definition op_rel :: "task_env \<Rightarrow> task_db \<Rightarrow> task_db \<Rightarrow> bool" where
  "op_rel env db db' \<longleftrightarrow> (db_ok env db \<longrightarrow> db_ok env db' \<and> grows (tasks db) (tasks db'))"

lemma row_evolves_refl [simp]: "row_evolves x x"
  by (simp add: row_evolves_def)

lemma row_evolves_trans: "row_evolves x y \<Longrightarrow> row_evolves y z \<Longrightarrow> row_evolves x z"
  by (auto simp: row_evolves_def)

lemma table_evolves_refl [simp]: "table_evolves t t"
  by (simp add: table_evolves_def list.rel_refl)

lemma table_evolves_trans: "table_evolves t u \<Longrightarrow> table_evolves u v \<Longrightarrow> table_evolves t v"
  unfolding table_evolves_def
  by (erule (1) list_all2_trans [rotated]) (metis row_evolves_trans)

lemma table_evolves_append: "table_evolves (t @ u) v \<Longrightarrow>
    \<exists>v1 v2. v = v1 @ v2 \<and> table_evolves t v1 \<and> table_evolves u v2"
  by (auto simp: table_evolves_def list_all2_append1)

lemma table_evolves_keys: "table_evolves t u \<Longrightarrow> map (row_keys \<circ> snd) u = map (row_keys \<circ> snd) t"
  unfolding table_evolves_def
  by (induction rule: list_all2_induct) (auto simp: row_evolves_def row_keys_def)

lemma table_evolves_ids: "table_evolves t u \<Longrightarrow> map fst u = map fst t"
  unfolding table_evolves_def by (induction rule: list_all2_induct) auto

lemma grows_refl [simp]: "grows t t"
  unfolding grows_def by (metis append_Nil2 table_evolves_refl)

lemma grows_trans:
  assumes "grows t u" and "grows u v"
  shows "grows t v"
proof -
  obtain a x where u: "u = a @ x" "table_evolves t a" using assms(1) by (auto simp: grows_def)
  obtain b y where v: "v = b @ y" "table_evolves u b" using assms(2) by (auto simp: grows_def)
  obtain b1 b2 where "b = b1 @ b2" "table_evolves a b1"
    using table_evolves_append v(2) u(1) by blast
  then show ?thesis
    unfolding grows_def v(1) using u(2) table_evolves_trans by (metis append.assoc)
qed

lemma grows_with_refl [simp]: "grows_with db db"
  unfolding grows_with_def
  by (intro exI [of _ "tasks db"] exI [of _ "[]"]) simp

lemma grows_with_trans:
  assumes "grows_with a b" and "grows_with b c"
  shows "grows_with a c"
proof -
  obtain u x o1 where b: "tasks b = u @ x" "table_evolves (tasks a) u" "outside b = outside a @ o1"
      "subseq (map row_keys o1) (map (row_keys \<circ> snd) x)"
    using assms(1) by (auto simp: grows_with_def)
  obtain v y o2 where c: "tasks c = v @ y" "table_evolves (tasks b) v" "outside c = outside b @ o2"
      "subseq (map row_keys o2) (map (row_keys \<circ> snd) y)"
    using assms(2) by (auto simp: grows_with_def)
  obtain v1 v2 where v: "v = v1 @ v2" "table_evolves u v1" "table_evolves x v2"
    using table_evolves_append c(2) b(1) by metis
  have "subseq (map row_keys (o1 @ o2)) (map (row_keys \<circ> snd) (v2 @ y))"
    using b(4) c(4) table_evolves_keys [OF v(3)] by (simp add: list_emb_append_mono)
  then show ?thesis
    unfolding grows_with_def
    using b(2,3) c(1,3) v(1,2) table_evolves_trans
    by (intro exI [of _ v1] exI [of _ "v2 @ y"] exI [of _ "o1 @ o2"]) auto
qed

lemma grows_with_grows: "grows_with db db' \<Longrightarrow> grows (tasks db) (tasks db')"
  by (auto simp: grows_with_def grows_def)

lemma body_op: "body_rel env db db' \<Longrightarrow> op_rel env db db'"
  by (auto simp: body_rel_def op_rel_def grows_with_grows)

lemma keeps_body_op: "tx_keeps (body_rel env) m \<Longrightarrow> tx_keeps (op_rel env) m"
  by (simp add: tx_keeps_def body_op)

section \<open>The primitive operations\<close>

lemma new_row_ok: "new_row env x \<Longrightarrow> row_ok env x"
  by (simp add: new_row_def row_ok_def)

lemma insert_task_ok:
  assumes "table_ok env t" and "row_ok env x" and "insert_task x t = Some t'"
  shows "table_ok env t' \<and> t' = t @ [(task_id x, x)]"
proof -
  have "map_of t (task_id x) = None" "idempotencyKey x \<notin> (idempotencyKey \<circ> snd) ` set t"
    and t': "t' = t @ [(task_id x, x)]"
    using assms(3) by (auto simp: insert_task_def split: if_splits)
  then show ?thesis
    using assms(1,2) by (auto simp: table_ok_def map_of_eq_None_iff)
qed

lemma insert_all_ok:
  "table_ok env t \<Longrightarrow> list_all (row_ok env) xs \<Longrightarrow> insert_all xs t = Some t' \<Longrightarrow>
   table_ok env t' \<and> t' = t @ map (\<lambda>x. (task_id x, x)) xs"
proof (induction xs arbitrary: t)
  case (Cons x xs)
  obtain u where u: "insert_task x t = Some u" "insert_all xs u = Some t'"
    using Cons.prems(3) by (auto split: option.splits)
  have x: "table_ok env u" "u = t @ [(task_id x, x)]"
    using insert_task_ok [OF Cons.prems(1) _ u(1)] Cons.prems(2) by auto
  have "table_ok env t' \<and> t' = u @ map (\<lambda>x. (task_id x, x)) xs"
    by (rule Cons.IH [OF x(1) _ u(2)]) (use Cons.prems(2) in simp)
  then show ?case using x(2) by auto
qed simp

lemma grows_with_append: "outside db' = outside db \<Longrightarrow> tasks db' = tasks db @ xs \<Longrightarrow> grows_with db db'"
  unfolding grows_with_def by (intro exI [of _ "tasks db"] exI [of _ xs] exI [of _ "[]"]) simp

lemma body_insert: "list_all (row_ok env) xs \<Longrightarrow> tx_keeps (body_rel env) (insert_tasks xs)"
  unfolding tx_keeps_def
proof
  fix db
  assume xs: "list_all (row_ok env) xs"
  show "body_rel env db (snd (insert_tasks xs db))"
  proof (cases "insert_all xs (tasks db)")
    case (Some t)
    have "grows_with db (db\<lparr>tasks := t\<rparr>)" if "t = tasks db @ map (\<lambda>x. (task_id x, x)) xs"
      by (rule grows_with_append) (simp_all add: that)
    then show ?thesis
      using insert_all_ok [OF _ xs Some] Some by (auto simp: body_rel_def db_ok_def insert_tasks_def)
  qed (simp add: body_rel_def insert_tasks_def)
qed

lemma body_outside: "row_ok env x \<Longrightarrow> tx_keeps (body_rel env) (insert_outside x)"
  unfolding tx_keeps_def insert_outside_def
proof (intro allI, goal_cases)
  case (1 db)
  show ?case
  proof (cases "insert_task x (tasks db)")
    case (Some t)
    have "grows_with db (db\<lparr>tasks := t, outside := outside db @ [x]\<rparr>)" if "t = tasks db @ [(task_id x, x)]"
      unfolding grows_with_def
      by (intro exI [of _ "tasks db"] exI [of _ "[(task_id x, x)]"] exI [of _ "[x]"]) (simp add: that)
    then show ?thesis
      using insert_task_ok [OF _ 1 Some] 1 Some by (auto simp: body_rel_def db_ok_def)
  qed (simp add: body_rel_def)
qed

lemma update_task_map: "update_task i f t = map (\<lambda>p. if fst p = i then (fst p, f (snd p)) else p) t"
  by (auto simp: update_task_def)

lemma table_evolves_map:
  "(\<And>p. p \<in> set t \<Longrightarrow> fst (g p) = fst p \<and> row_evolves (snd p) (snd (g p))) \<Longrightarrow> table_evolves t (map g t)"
  by (simp add: table_evolves_def list_all2_map2 list_all2_same)

lemma update_table_ok:
  assumes ok: "table_ok env t" and x: "map_of t i = Some x"
    and f: "row_ok env (f x)" "row_evolves x (f x)"
  shows "table_ok env (update_task i f t) \<and> table_evolves t (update_task i f t)"
proof -
  have row: "task_id y = j" "row_ok env y" if "(j, y) \<in> set t" for j y
    using ok that by (simp_all add: table_ok_def)
  have only: "snd p = x" if "p \<in> set t" "fst p = i" for p
    using ok that map_of_SomeD [OF x] eq_key_imp_eq_value [of t i "snd p" x]
    by (cases p) (auto simp: table_ok_def)
  have ev: "table_evolves t (update_task i f t)"
    unfolding update_task_map by (rule table_evolves_map) (use only f(2) in auto)
  have keys: "map (idempotencyKey \<circ> snd) u = map snd (map (row_keys \<circ> snd) u)" for u :: task_table
    by (simp add: row_keys_def)
  have "task_id y = j \<and> row_ok env y" if y: "(j, y) \<in> set (update_task i f t)" for j y
  proof -
    obtain p where p: "p \<in> set t" "(j, y) = (if fst p = i then (fst p, f (snd p)) else p)"
      using y unfolding update_task_map set_map image_iff by blast
    have r: "task_id (snd p) = fst p" "row_ok env (snd p)" using row [of "fst p" "snd p"] p(1) by simp_all
    show ?thesis
    proof (cases "fst p = i")
      case True
      then have "snd p = x" "j = i" "y = f x" using p only [OF p(1)] by simp_all
      then show ?thesis using r f True by (simp add: row_evolves_def)
    next
      case False
      then have "snd p = y" "fst p = j" using p(2) by (metis fst_conv snd_conv)+
      then show ?thesis using r by simp
    qed
  qed
  moreover have "distinct (map fst (update_task i f t))"
    unfolding table_evolves_ids [OF ev] using ok by (simp add: table_ok_def)
  moreover have "distinct (map (idempotencyKey \<circ> snd) (update_task i f t))"
    unfolding keys table_evolves_keys [OF ev] unfolding keys [symmetric] using ok by (simp add: table_ok_def)
  ultimately show ?thesis using ev unfolding table_ok_def by blast
qed

text \<open>An update at a database whose row is known.\<close>

lemma body_update_at:
  assumes "map_of (tasks db) i = Some x"
    and "row_ok env x \<Longrightarrow> p x \<Longrightarrow> row_ok env (f x) \<and> row_evolves x (f x)"
  shows "body_rel env db (snd (update_where i p f db))"
proof (cases "p x")
  case True
  have eq: "snd (update_where i p f db) = db\<lparr>tasks := update_task i f (tasks db)\<rparr>"
    using True by (simp add: update_where_def assms(1))
  have "table_ok env (update_task i f (tasks db)) \<and> table_evolves (tasks db) (update_task i f (tasks db))"
    if ok: "table_ok env (tasks db)"
  proof -
    have "row_ok env x" using ok map_of_SomeD [OF assms(1)] by (auto simp: table_ok_def)
    then show ?thesis using update_table_ok [OF ok assms(1)] assms(2) True by blast
  qed
  moreover have "grows_with db (db\<lparr>tasks := update_task i f (tasks db)\<rparr>)"
    if "table_evolves (tasks db) (update_task i f (tasks db))"
    unfolding grows_with_def using that
    by (intro exI [of _ "update_task i f (tasks db)"] exI [of _ "[]"]) simp
  ultimately show ?thesis
    unfolding eq body_rel_def db_ok_def by simp
qed (simp add: update_where_def assms(1) body_rel_def)

lemma body_update:
  assumes "\<And>x. row_ok env x \<Longrightarrow> p x \<Longrightarrow> row_ok env (f x) \<and> row_evolves x (f x)"
  shows "tx_keeps (body_rel env) (update_where i p f)"
  unfolding tx_keeps_def
proof
  fix db
  show "body_rel env db (snd (update_where i p f db))"
  proof (cases "map_of (tasks db) i")
    case None
    then show ?thesis by (simp add: update_where_def body_rel_def)
  next
    case (Some x)
    then show ?thesis using assms by (rule body_update_at)
  qed
qed

interpretation body: task_store "body_rel env" env for env
proof
  show "body_rel env db db" for db by (simp add: body_rel_def)
  show "body_rel env a c" if "body_rel env a b" "body_rel env b c" for a b c
    using that grows_with_trans by (auto simp: body_rel_def)
  show "tx_keeps (body_rel env) (send n)" "tx_keeps (body_rel env) (draw_uuid env)"
    "tx_keeps (body_rel env) (insert_event e)" for n e
    by (auto simp: tx_keeps_def send_def draw_uuid_def insert_event_def body_rel_def db_ok_def
        intro!: grows_with_append [where xs = "[]"])
  show "tx_keeps (body_rel env) (insert_tasks xs)" if "list_all (new_row env) xs" for xs
    using that by (intro body_insert) (auto simp: list_all_iff new_row_ok)
  show "tx_keeps (body_rel env) (insert_outside x)" if "new_row env x" for x
    using that by (intro body_outside new_row_ok)
qed

end
