(* ===== verification/Task_Frame.thy ===== *)
theory Task_Frame
  imports Task_Store Task_Hooks
begin

text \<open>
  Relations that the whole engine keeps.  The locale \<open>core_engine\<close> has what the execution of core
  tasks needs of a relation, and shows that the drain and the runners keep it when the processors
  and the executors do; the locale \<open>task_frame\<close> is for relations that do not look at the task
  table, which every operation keeps.
\<close>

lemma tx_keeps_mono: "tx_keeps R m \<Longrightarrow> (\<And>a b. R a b \<Longrightarrow> Q a b) \<Longrightarrow> tx_keeps Q m"
  by (simp add: tx_keeps_def)

definition runs_keep :: "(task_db \<Rightarrow> task_db \<Rightarrow> bool) \<Rightarrow> core_env \<Rightarrow> bool" where
  "runs_keep R cenv \<longleftrightarrow> (\<forall>name registers run. processors cenv name = Some (registers, run) \<longrightarrow>
     (\<forall>now x. tx_keeps R (run now x)))"

text \<open>What the executors of the app do to the tables.\<close>

definition executors_keep_rel :: "(task_db \<Rightarrow> task_db \<Rightarrow> bool) \<Rightarrow> runner_env \<Rightarrow> bool" where
  "executors_keep_rel R renv \<longleftrightarrow>
     (\<forall>x a w. tx_keeps R (executeServerlessAppTask renv x a w)) \<and> (\<forall>j. tx_keeps R (executeAppDockerJob renv j))"

section \<open>The execution of core tasks\<close>

locale core_engine = tx_relation +
  fixes env :: task_env
  assumes engine_send: "tx_keeps R (send k)"
    and engine_count: "R db (count_running f db)"
    and engine_completed: "tx_keeps R (registerTaskCompleted n env now i c)"
    and engine_start: "map_of (tasks db) i = Some x \<Longrightarrow> startedAt x = None \<Longrightarrow>
      R db (snd (transaction (start_core_task now i) db))"
    and engine_started: "tx_keeps R (registerTaskStarted now i m)"
    and engine_both: "tx_keeps R (complete_both n env now i ci j cj)"
begin

lemma finally_keeps:
  assumes "tx_keeps R m"
  shows "tx_keeps R (tx_finally m (count_running f))"
  unfolding tx_keeps_def
proof
  fix db
  obtain r d where m: "m db = (r, d)" by (cases "m db")
  have "R db (count_running f d)" using R_trans [OF tx_keepsD [OF assms, of db] engine_count] m by simp
  then show "R db (snd (tx_finally m (count_running f) db))" by (simp add: tx_finally_def m)
qed

lemma notify_keeps: "tx_keeps R (notify_folder x)"
  unfolding notify_folder_def by (intro keeps_rules engine_send)

lemma execute_core_keeps:
  assumes "runs_keep R cenv"
  shows "tx_keeps R (executeCoreTask n cenv env now i)"
proof -
  have run: "tx_keeps R (run now x)" if "processors cenv name = Some (registers, run)"
    for name registers run now x
    using assms that by (auto simp: runs_keep_def)
  have after: "tx_keeps R (tx_then (notify_folder y)
      (case processors cenv (taskIdentifier y) of
         None \<Rightarrow> tx_throw ''Processor not found''
       | Some (registers, run) \<Rightarrow>
           tx_bind (\<lambda>db. (Inr (), count_running Suc db)) (\<lambda>_.
             tx_finally (run_processor n cenv env now y registers (run now)) (count_running (\<lambda>k. k - 1)))))" for y
  proof (cases "processors cenv (taskIdentifier y)")
    case None
    then show ?thesis by (simp add: keeps_then notify_keeps keeps_pure)
  next
    case (Some p)
    obtain registers go where p: "p = (registers, go)" by (cases p)
    have "tx_keeps R (run_processor n cenv env now y registers (go now))"
      unfolding run_processor_def
      using run [of _ registers go] Some p
      by (intro keeps_bind keeps_handle keeps_then keeps_if keeps_pure engine_completed notify_keeps) auto
    moreover have "tx_keeps R (\<lambda>db. (Inr (), count_running Suc db))"
      by (simp add: tx_keeps_def engine_count)
    ultimately show ?thesis using Some p by (simp add: keeps_then keeps_bind notify_keeps finally_keeps)
  qed
  show ?thesis
    unfolding executeCoreTask_def
  proof (rule keeps_find)
    fix db
    show "R db (snd ((case map_of (tasks db) i of
         None \<Rightarrow> tx_throw ''Task not found''
       | Some x \<Rightarrow> if startedAt x \<noteq> None then tx_return ()
           else if ownerId x \<noteq> CORE_IDENTIFIER then tx_return ()
           else tx_bind (transaction (start_core_task now i)) (\<lambda>r. case r of
               None \<Rightarrow> tx_throw ''Task not found when attempting to start.''
             | Some y \<Rightarrow> tx_then (notify_folder y)
                 (case processors cenv (taskIdentifier y) of
                    None \<Rightarrow> tx_throw ''Processor not found''
                  | Some (registers, run) \<Rightarrow>
                      tx_bind (\<lambda>db. (Inr (), count_running Suc db)) (\<lambda>_.
                        tx_finally (run_processor n cenv env now y registers (run now))
                          (count_running (\<lambda>k. k - 1)))))) db))"
    proof (cases "map_of (tasks db) i")
      case (Some x)
      then show ?thesis
        using after engine_start [OF Some] by (auto intro!: at_bind keeps_option keeps_pure
            tx_keepsD [OF keeps_pure(1)])
    qed (auto intro!: tx_keepsD [OF keeps_pure(2)])
  qed
qed

lemma drain_keeps:
  assumes "runs_keep R cenv"
  shows "tx_keeps R (drainCoreTasks n cenv env now)"
proof -
  have "tx_keeps R (unstartedCoreTaskCount now)"
    by (simp add: tx_keeps_def unstartedCoreTaskCount_def R_refl)
  then have "tx_keeps R (tx_then (tx_each (executeCoreTask n cenv env now) ids)
      (tx_bind (unstartedCoreTaskCount now) (\<lambda>pending. tx_return (length ids, pending))))" for ids
    by (intro keeps_rules execute_core_keeps assms)
  from tx_keepsD [OF this] show ?thesis unfolding tx_keeps_def drainCoreTasks_def Let_def by blast
qed

lemma start_drain_keeps:
  assumes "runs_keep R cenv"
  shows "tx_keeps R (startDrainCoreTasks k n cenv env now draining)"
proof (induction k arbitrary: draining)
  case (Suc k)
  then show ?case
    by (auto intro!: keeps_bind keeps_handle keeps_pure drain_keeps assms split: prod.split)
qed (simp add: keeps_pure)

lemma find_inner_keeps: "tx_keeps R (find_inner x)"
  unfolding find_inner_def by (intro keeps_rules)

lemma runners_keep:
  assumes "executors_keep_rel R renv"
  shows "tx_keeps R (runServerlessWorker n renv env now x)" "tx_keeps R (runDockerWorker n renv env now x)"
proof -
  have e: "tx_keeps R (executeServerlessAppTask renv y a w)" "tx_keeps R (executeAppDockerJob renv j)" for y a w j
    using assms by (simp_all add: executors_keep_rel_def)
  show "tx_keeps R (runServerlessWorker n renv env now x)" "tx_keeps R (runDockerWorker n renv env now x)"
    unfolding runServerlessWorker_def runDockerWorker_def Let_def split_beta
    by (intro keeps_rules keeps_handle find_inner_keeps engine_started engine_both e)+
qed

end

section \<open>Relations that do not look at the task table\<close>

locale task_frame = task_store +
  assumes keeps_update: "tx_keeps R (update_where i p f)"
    and commit: "R (db\<lparr>outside := []\<rparr>) d \<Longrightarrow> R db (d\<lparr>outside := []\<rparr>)"
    and rollback: "R (db\<lparr>outside := []\<rparr>) d \<Longrightarrow> R db (d\<lparr>outside := [], events := events db,
      notifications := notifications db, deliveries := deliveries db, tasks := t\<rparr>)"
    and keeps_count: "R db (count_running g db)"
begin

lemma keeps_transaction:
  assumes "tx_keeps R m"
  shows "tx_keeps R (transaction m)"
  unfolding tx_keeps_def
proof
  fix db
  obtain r d where m: "m (db\<lparr>outside := []\<rparr>) = (r, d)" by (cases "m (db\<lparr>outside := []\<rparr>)")
  have "R (db\<lparr>outside := []\<rparr>) d" using tx_keepsD [OF assms, of "db\<lparr>outside := []\<rparr>"] m by simp
  then show "R db (snd (transaction m db))"
    using commit rollback by (cases r) (simp_all add: transaction_def m)
qed

lemmas frame_rules = store_rules keeps_update keeps_transaction

lemma frame_trigger: "tx_keeps R (triggerCoreUserActionTask env now th u i g)"
    "tx_keeps R (triggerAppUserActionTask n env now th u a i g)" "tx_keeps R (triggerAppActionTask n env now th a i g)"
  unfolding triggerCoreUserActionTask_def triggerAppUserActionTask_def triggerAppActionTask_def Let_def
  by (intro frame_rules keeps_insert insert_enqueue_keeps; simp add: new_row_def with_targets_def blank_task_def)+

lemma frame_started: "tx_keeps R (registerTaskStarted now i m)"
  unfolding registerTaskStarted_def registerTaskStartedInTx_def by (intro frame_rules)

lemma frame_heartbeat_tx: "tx_keeps R (registerHeartbeatInTx now i c m)"
  unfolding registerHeartbeatInTx_def Let_def by (intro frame_rules)

lemma frame_heartbeat: "tx_keeps R (registerHeartbeat now i c m)"
  unfolding registerHeartbeat_def by (intro frame_rules frame_heartbeat_tx)

lemma frame_emit: "tx_keeps R (emitEvent n env now a)"
  unfolding emitEvent_def by (intro frame_rules emit_keeps)

lemma frame_completed_tx: "tx_keeps R (registerTaskCompletedInTx n env now i c)"
  unfolding registerTaskCompletedInTx_def Let_def by (intro frame_rules enqueued_keeps run_on_complete_keeps)

lemma frame_telemetry: "tx_keeps R (emitTaskCompletionTelemetry n env now x)"
  unfolding emitTaskCompletionTelemetry_def by (intro frame_rules frame_emit)

lemma frame_completed: "tx_keeps R (registerTaskCompleted n env now i c)"
  unfolding registerTaskCompleted_def by (intro frame_rules keeps_detached frame_telemetry frame_completed_tx)

lemma frame_progress: "tx_keeps R (registerTaskProgress n env now i r)"
  unfolding registerTaskProgress_def Let_def split_beta by (intro frame_rules on_progress_keeps)

lemma frame_schedules: "tx_keeps R (processScheduledTaskTriggers n busy env now)"
proof -
  have "tx_keeps R (tx_when (xs \<noteq> []) (transaction (schedule_batch n env now xs)))" if "list_all (new_row env) xs" for xs
    using that by (intro keeps_when keeps_transaction batch_keeps)
  then show ?thesis
    unfolding processScheduledTaskTriggers_def
    by (intro keeps_if keeps_pure keeps_catch bind_gives [OF gives_collect [OF schedule_gives]])
qed

lemma frame_start_core: "tx_keeps R (transaction (start_core_task now i))"
  unfolding start_core_task_def by (intro frame_rules)

lemma frame_telemetry_after:
  assumes "tx_keeps R m"
  shows "tx_keeps R (with_telemetry n env now m)"
  unfolding tx_keeps_def
proof
  fix db
  obtain r d where m: "m db = (r, d)" by (cases "m db")
  have "tx_keeps R (tx_each (\<lambda>x. tx_detached (emitTaskCompletionTelemetry n env now x)) xs)" for xs
    by (intro keeps_each keeps_detached frame_telemetry)
  then show "R db (snd (with_telemetry n env now m db))"
    using tx_keepsD [OF assms, of db] R_trans tx_keepsD by (simp add: with_telemetry_def m) blast
qed

lemma frame_both: "tx_keeps R (complete_both n env now i ci j cj)"
  unfolding complete_both_def registerTaskCompletedTx_def
  by (intro frame_telemetry_after frame_rules frame_completed_tx)

lemma frame_jobs: "tx_keeps R (completeJob n env now c r)" "tx_keeps R (startJob now c)"
    "tx_keeps R (processProgress n env now c p)"
  unfolding completeJob_def completeJobInTx_def registerTaskCompletedTx_def find_inner_def startJob_def inner_id_def
    processProgress_def split_beta
  by (intro frame_telemetry_after frame_rules frame_completed_tx frame_heartbeat_tx frame_progress)+

end

end
