(* ===== verification/Task_Operations.thy ===== *)
theory Task_Operations
  imports Task_Invariant Task_Frame
begin

text \<open>
  Every operation of the task engine keeps the invariant of the table and lets its rows only
  evolve; the system of the engine, a sequence of operations from the empty database.
\<close>

section \<open>Transactions\<close>

lemma subseq_distinct_list: "subseq xs ys \<Longrightarrow> distinct ys \<Longrightarrow> distinct xs"
  by (induction rule: list_emb.induct) (auto dest: list_emb_set)

lemma table_ok_iff: "table_ok env t \<longleftrightarrow> distinct (map fst (map (row_keys \<circ> snd) t))
    \<and> distinct (map snd (map (row_keys \<circ> snd) t)) \<and> (\<forall>p \<in> set t. fst p = task_id (snd p) \<and> row_ok env (snd p))"
  (is "_ \<longleftrightarrow> ?r")
proof -
  have ids: "map fst t = map fst (map (row_keys \<circ> snd) t)" if "\<forall>p \<in> set t. fst p = task_id (snd p)"
    using that by (simp add: row_keys_def)
  have keys: "map (idempotencyKey \<circ> snd) t = map snd (map (row_keys \<circ> snd) t)"
    by (simp add: row_keys_def)
  have all: "(\<forall>i x. (i, x) \<in> set t \<longrightarrow> task_id x = i \<and> row_ok env x)
      \<longleftrightarrow> (\<forall>p \<in> set t. fst p = task_id (snd p) \<and> row_ok env (snd p))"
    by auto
  show ?thesis unfolding table_ok_def keys all using ids by metis
qed

lemma rollback_ok:
  assumes t: "table_ok env t" and ok: "table_ok env (u @ new)" and ev: "table_evolves t u"
    and sub: "subseq (map row_keys extra) (map (row_keys \<circ> snd) new)" and rows: "list_all (row_ok env) extra"
  shows "table_ok env (t @ map (\<lambda>x. (task_id x, x)) extra)"
proof -
  let ?t = "t @ map (\<lambda>x. (task_id x, x)) extra"
  have "map (row_keys \<circ> snd) ?t = map (row_keys \<circ> snd) u @ map row_keys extra"
    unfolding table_evolves_keys [OF ev] by simp
  then have s: "subseq (map (row_keys \<circ> snd) ?t) (map (row_keys \<circ> snd) (u @ new))"
    using sub by (simp only: map_append) (simp add: list_emb_append_mono)
  have d: "distinct (map f (map (row_keys \<circ> snd) ?t))" if "distinct (map f (map (row_keys \<circ> snd) (u @ new)))" for f :: "_ \<Rightarrow> string"
    using subseq_distinct_list [OF subseq_map [OF s, of f] that] .
  show ?thesis
    using d [of fst] d [of snd] ok t rows unfolding table_ok_iff by (auto simp: list_all_iff)
qed

lemma op_transaction:
  assumes "tx_keeps (body_rel env) m"
  shows "tx_keeps (op_rel env) (transaction m)"
  unfolding tx_keeps_def
proof
  fix db
  obtain r db' where m: "m (db\<lparr>outside := []\<rparr>) = (r, db')" by (cases "m (db\<lparr>outside := []\<rparr>)")
  show "op_rel env db (snd (transaction m db))"
    unfolding op_rel_def
  proof
    assume "db_ok env db"
    then have t: "table_ok env (tasks db)" and "db_ok env (db\<lparr>outside := []\<rparr>)" by (simp_all add: db_ok_def)
    with tx_keepsD [OF assms, of "db\<lparr>outside := []\<rparr>"] m
    have ok: "db_ok env db'" and g: "grows_with (db\<lparr>outside := []\<rparr>) db'"
      by (simp_all add: body_rel_def)
    obtain u new where u: "tasks db' = u @ new" "table_evolves (tasks db) u"
        "subseq (map row_keys (outside db')) (map (row_keys \<circ> snd) new)"
      using g by (auto simp: grows_with_def)
    have roll: "table_ok env (tasks db @ map (\<lambda>x. (task_id x, x)) (outside db'))"
      using ok u by (intro rollback_ok [OF t]) (auto simp: db_ok_def)
    have "grows (tasks db) (tasks db @ xs)" for xs
      unfolding grows_def by (metis table_evolves_refl)
    then show "db_ok env (snd (transaction m db)) \<and> grows (tasks db) (tasks (snd (transaction m db)))"
      using ok roll grows_with_grows [OF g] by (cases r) (simp_all add: transaction_def m db_ok_def)
  qed
qed

interpretation op: task_store "op_rel env" env for env
proof
  show "op_rel env db db" for db by (simp add: op_rel_def)
  show "op_rel env a c" if "op_rel env a b" "op_rel env b c" for a b c
    using that grows_trans by (auto simp: op_rel_def)
  show "tx_keeps (op_rel env) (send n)" "tx_keeps (op_rel env) (draw_uuid env)"
    for n by (rule keeps_body_op, rule body.keeps_send body.keeps_draw)+
  show "tx_keeps (op_rel env) (insert_event e)" if "event_handledAt e = None" for e
    by (rule keeps_body_op, rule body.keeps_event, rule that)
  show "tx_keeps (op_rel env) (insert_tasks xs)" if "list_all (new_row env) xs" for xs
    by (rule keeps_body_op, rule body.keeps_insert, rule that)
  show "tx_keeps (op_rel env) (insert_outside x)" if "new_row env x" for x
    by (rule keeps_body_op, rule body.keeps_outside, rule that)
qed

section \<open>The operations of the task service\<close>

lemma trigger_core_keeps: "tx_keeps (op_rel env) (triggerCoreUserActionTask env now th u i g)"
  unfolding triggerCoreUserActionTask_def Let_def
  by (intro op.store_rules op.keeps_insert) simp

lemma trigger_app_user_keeps: "tx_keeps (op_rel env) (triggerAppUserActionTask n env now th u a i g)"
  unfolding triggerAppUserActionTask_def
  by (intro op.store_rules op_transaction body.insert_enqueue_keeps) simp

lemma trigger_app_keeps: "tx_keeps (op_rel env) (triggerAppActionTask n env now th a i g)"
  unfolding triggerAppActionTask_def
  by (intro op.store_rules op_transaction body.insert_enqueue_keeps)
    (simp add: new_row_def with_targets_def blank_task_def)

lemma emit_event_keeps: "tx_keeps (op_rel env) (emitEvent n env now a)"
  unfolding emitEvent_def by (intro op.store_rules op_transaction body.emit_keeps)

lemma schedules_keep: "tx_keeps (op_rel env) (processScheduledTaskTriggers n busy env now)"
proof -
  have "tx_keeps (op_rel env) (tx_when (xs \<noteq> []) (transaction (schedule_batch n env now xs)))"
    if "list_all (new_row env) xs" for xs
    using that by (intro op.keeps_when op_transaction body.batch_keeps)
  then show ?thesis
    unfolding processScheduledTaskTriggers_def
    by (intro op.keeps_if op.keeps_pure op.keeps_catch op.bind_gives [OF op.gives_collect [OF op.schedule_gives]])
qed

lemma start_row_ok:
  "row_ok env x \<Longrightarrow> startedAt x = None \<Longrightarrow>
   row_ok env (start_row now m x) \<and> row_evolves x (start_row now m x)"
  by (auto simp: row_ok_def row_evolves_def start_row_def)

lemma started_keeps: "tx_keeps (op_rel env) (registerTaskStarted now i m)"
  unfolding registerTaskStarted_def registerTaskStartedInTx_def
  by (intro op_transaction body.store_rules body_update start_row_ok)

lemma heartbeat_body: "tx_keeps (body_rel env) (registerHeartbeatInTx now i c m)"
  unfolding registerHeartbeatInTx_def Let_def
proof (rule body.keeps_find)
  fix db
  let ?f = "\<lambda>x. heartbeat_row now c (case m of None \<Rightarrow> None
    | Some v \<Rightarrow> if latestHeartbeatAt x = None then Some (map (upgrade_start_log v) (systemLog x)) else None)"
  show "body_rel env db (snd ((case map_of (tasks db) i of
       None \<Rightarrow> tx_throw ''Invalid request (no task found by id).''
     | Some x \<Rightarrow> if completedAt x \<noteq> None \<or> startedAt x = None
         then tx_throw ''Task not in a state to register heartbeat.''
         else tx_bind (update_where i (\<lambda>y. completedAt y = None \<and> startedAt y \<noteq> None) (?f x))
           (\<lambda>r. case r of None \<Rightarrow> tx_throw ''Failed to register heartbeat for task''
             | Some y \<Rightarrow> tx_return y)) db))"
  proof (cases "map_of (tasks db) i")
    case (Some x)
    have "body_rel env db (snd (update_where i (\<lambda>y. completedAt y = None \<and> startedAt y \<noteq> None) (?f x) db))"
      by (rule body_update_at [OF Some]) (auto simp: heartbeat_row_def row_ok_def row_evolves_def split: option.split)
    then show ?thesis
      using Some by (auto intro!: body.at_bind body.store_rules tx_keepsD [OF body.keeps_pure(2)])
  qed (auto intro!: tx_keepsD [OF body.keeps_pure(2)])
qed

lemma heartbeat_keeps: "tx_keeps (op_rel env) (registerHeartbeat now i c m)"
  unfolding registerHeartbeat_def by (rule op_transaction [OF heartbeat_body])

lemma completed_row_ok:
  assumes "row_ok env x" and "success x = None" "completedAt x = None" "startedAt x \<noteq> None"
  shows "row_ok env (completed_row env' now (should_requeue x c) c x)
    \<and> row_evolves x (completed_row env' now (should_requeue x c) c x)"
  using assms
  by (cases c) (auto simp: completed_row_def Let_def row_ok_def row_evolves_def should_requeue_def
      MAX_TASK_ATTEMPTS_def)

lemma completed_body: "tx_keeps (body_rel env) (registerTaskCompletedInTx n env now i c)"
  unfolding registerTaskCompletedInTx_def Let_def
proof (rule body.keeps_find)
  fix db
  show "body_rel env db (snd ((case map_of (tasks db) i of
       None \<Rightarrow> tx_throw ''Task not found''
     | Some x \<Rightarrow> if startedAt x = None then tx_throw ''Task has not been started.''
         else if completedAt x \<noteq> None then tx_throw ''Task has already been completed.''
         else tx_bind (update_where i (\<lambda>y. success y = None \<and> completedAt y = None \<and> startedAt y \<noteq> None)
             (completed_row env now (should_requeue x c) c)) (\<lambda>r. case r of
               None \<Rightarrow> tx_throw ''Failed to register task completion task.''
             | Some y \<Rightarrow>
                 tx_then (tx_when (should_requeue x c) (emitRunnableTaskEnqueuedEvent n env now y))
                (tx_then (run_on_complete n env now y c (inv_onComplete (invocation x)))
                (tx_then (send (TaskUpdate y (if succeeded c then task_completed else task_failed) now None))
                (tx_then (tx_when (should_requeue x c) (send (TaskUpdate y task_requeued now None)))
                   (tx_return y)))))) db))"
  proof (cases "map_of (tasks db) i")
    case (Some x)
    have "body_rel env db (snd (update_where i (\<lambda>y. success y = None \<and> completedAt y = None \<and> startedAt y \<noteq> None)
        (completed_row env now (should_requeue x c) c) db))"
      by (rule body_update_at [OF Some]) (simp add: completed_row_ok)
    then show ?thesis
      using Some by (auto intro!: body.at_bind body.store_rules body.enqueued_keeps body.run_on_complete_keeps
          tx_keepsD [OF body.keeps_pure(2)])
  qed (auto intro!: tx_keepsD [OF body.keeps_pure(2)])
qed

lemma telemetry_keeps: "tx_keeps (op_rel env) (emitTaskCompletionTelemetry n env now x)"
  unfolding emitTaskCompletionTelemetry_def by (intro op.store_rules emit_event_keeps)

lemma completed_keeps: "tx_keeps (op_rel env) (registerTaskCompleted n env now i c)"
  unfolding registerTaskCompleted_def
  by (intro op.store_rules op.keeps_detached telemetry_keeps op_transaction completed_body)

lemma progress_body: "tx_keeps (body_rel env) (registerTaskProgress n env now i r)"
proof -
  have "tx_keeps (body_rel env) (update_where i (\<lambda>y. completedAt y = None \<and> startedAt y \<noteq> None) (progress_row now r'))" for r'
    by (rule body_update) (auto simp: progress_row_def row_ok_def row_evolves_def)
  then show ?thesis
    unfolding registerTaskProgress_def Let_def
    by (auto intro!: body.store_rules body.on_progress_keeps)
qed

lemma progress_keeps: "tx_keeps (op_rel env) (registerTaskProgress n env now i r)"
  by (rule keeps_body_op [OF progress_body])

section \<open>Core tasks\<close>

lemma map_of_update_task: "map_of (update_task i f t) j = (if j = i then map_option f (map_of t i) else map_of t j)"
  by (induction t) (auto simp: update_task_def)

lemma two_updates:
  assumes "map_of (tasks db) i = Some x"
  shows "snd (tx_bind (update_where i (\<lambda>_. True) f) (\<lambda>r. tx_bind (update_where i (\<lambda>_. True) g) (\<lambda>_. tx_return r)) db)
    = snd (update_where i (\<lambda>_. True) g (db\<lparr>tasks := update_task i f (tasks db)\<rparr>))"
  using assms by (simp add: update_where_def tx_bind_def tx_return_def map_of_update_task)

lemma two_updates_keep:
  assumes x: "map_of (tasks db) i = Some x"
    and f: "row_ok env x \<Longrightarrow> row_ok env (f x) \<and> row_evolves x (f x)"
    and g: "row_ok env x \<Longrightarrow> row_ok env (f x) \<Longrightarrow> row_ok env (g (f x)) \<and> row_evolves (f x) (g (f x))"
  shows "body_rel env db (snd (tx_bind (update_where i (\<lambda>_. True) f)
    (\<lambda>r. tx_bind (update_where i (\<lambda>_. True) g) (\<lambda>_. tx_return r)) db))"
proof (cases "db_ok env db")
  case True
  then have ok: "row_ok env x" using map_of_SomeD [OF x] by (auto simp: db_ok_def table_ok_def)
  let ?db = "db\<lparr>tasks := update_task i f (tasks db)\<rparr>"
  have "snd (update_where i (\<lambda>_. True) f db) = ?db" using x by (simp add: update_where_def)
  then have 1: "body_rel env db ?db"
    using body_update_at [OF x, of env "\<lambda>_. True" f] f by simp
  have x': "map_of (tasks ?db) i = Some (f x)" using x by (simp add: map_of_update_task)
  have 2: "body_rel env ?db (snd (update_where i (\<lambda>_. True) g ?db))"
    using body_update_at [OF x', of env "\<lambda>_. True" g] g [OF ok] by simp
  show ?thesis unfolding two_updates [OF x] by (rule body.R_trans [OF 1 2])
qed (simp add: body_rel_def)

lemma start_core_keeps:
  assumes "map_of (tasks db) i = Some x" and s: "startedAt x = None"
  shows "body_rel env db (snd (start_core_task now i db))"
  unfolding start_core_task_def
proof (rule two_updates_keep [OF assms(1)])
  assume ok: "row_ok env x"
  then have c: "completedAt x = None" using s by (auto simp: row_ok_def)
  let ?y = "x\<lparr>startedAt := Some now, task_updatedAt := now\<rparr>"
  show "row_ok env ?y \<and> row_evolves x ?y" using ok c s by (auto simp: row_ok_def row_evolves_def)
  show "row_ok env (?y\<lparr>systemLog := systemLog ?y @ [l]\<rparr>) \<and> row_evolves ?y (?y\<lparr>systemLog := systemLog ?y @ [l]\<rparr>)"
    if "row_ok env ?y" for l
    using that c by (auto simp: row_ok_def row_evolves_def)
qed

text \<open>The transaction rule at one database.\<close>

lemma transaction_at:
  assumes "body_rel env (db\<lparr>outside := []\<rparr>) (snd (m (db\<lparr>outside := []\<rparr>)))"
  shows "op_rel env db (snd (transaction m db))"
proof -
  let ?m = "\<lambda>d. if d = db\<lparr>outside := []\<rparr> then m d else (Inl NoReturn, d)"
  have "tx_keeps (body_rel env) ?m"
    using assms by (simp add: tx_keeps_def body_rel_def)
  from tx_keepsD [OF op_transaction [OF this], of db] show ?thesis
    by (simp add: transaction_def)
qed

definition processors_keep :: "core_env \<Rightarrow> task_env \<Rightarrow> bool" where
  "processors_keep cenv env \<longleftrightarrow> runs_keep (op_rel env) cenv"

lemma count_running_keeps: "op_rel env db (count_running f db)"
  by (simp add: op_rel_def db_ok_def count_running_def)

end
