(* ===== verification/Task_Jobs.thy ===== *)
theory Task_Jobs
  imports Task_Operations Task_Hooks
begin

text \<open>
  The runners and the calls of the job agents keep the invariant of the task table and let its
  rows only evolve, as the other operations do; so the processors of the runner tasks meet the
  condition under which the invariant of the engine holds.
\<close>

lemma completed_tx_body: "tx_keeps (body_rel env) (registerTaskCompletedTx n env now i c)"
  unfolding registerTaskCompletedTx_def by (intro body.store_rules completed_body)

lemma with_telemetry_keeps:
  assumes "tx_keeps (op_rel env) m"
  shows "tx_keeps (op_rel env) (with_telemetry n env now m)"
  unfolding tx_keeps_def
proof
  fix db
  obtain r d where m: "m db = (r, d)" by (cases "m db")
  have "tx_keeps (op_rel env) (tx_each (\<lambda>x. tx_detached (emitTaskCompletionTelemetry n env now x)) xs)" for xs
    by (intro op.keeps_each op.keeps_detached telemetry_keeps)
  then show "op_rel env db (snd (with_telemetry n env now m db))"
    using tx_keepsD [OF assms, of db] op.R_trans tx_keepsD by (simp add: with_telemetry_def m) blast
qed

lemma complete_both_keeps: "tx_keeps (op_rel env) (complete_both n env now i ci j cj)"
  unfolding complete_both_def
  by (intro with_telemetry_keeps op_transaction body.store_rules completed_tx_body)

interpretation ops: core_engine "op_rel env" env for env
proof
  show "tx_keeps (op_rel env) (send k)" for k by (rule op.keeps_send)
  show "op_rel env db (count_running f db)" for db f by (rule count_running_keeps)
  show "tx_keeps (op_rel env) (registerTaskCompleted n env now i c)" for n now i c by (rule completed_keeps)
  show "op_rel env db (snd (transaction (start_core_task now i) db))"
    if "map_of (tasks db) i = Some x" "startedAt x = None" for db i x now
    by (rule transaction_at, rule start_core_keeps) (use that in simp_all)
  show "tx_keeps (op_rel env) (registerTaskStarted now i m)" for now i m by (rule started_keeps)
  show "tx_keeps (op_rel env) (complete_both n env now i ci j cj)" for n now i ci j cj by (rule complete_both_keeps)
qed

lemma find_inner_body: "tx_keeps (body_rel env) (find_inner x)"
  unfolding find_inner_def by (intro body.keeps_rules)

section \<open>The runners\<close>

definition executors_keep :: "runner_env \<Rightarrow> task_env \<Rightarrow> bool" where
  "executors_keep renv env \<longleftrightarrow> executors_keep_rel (op_rel env) renv"

lemma runner_processors_keep:
  assumes "executors_keep renv env"
  shows "processors_keep \<lparr>processors = runner_processors n renv env, toEnvelope = core_task_error renv\<rparr> env"
  using ops.runners_keep assms
  by (auto simp: processors_keep_def runs_keep_def executors_keep_def runner_processors_def split: if_splits)

section \<open>The calls of the agent\<close>

lemma complete_job_keeps: "tx_keeps (op_rel env) (completeJob n env now c r)"
  unfolding completeJob_def completeJobInTx_def split_beta
  by (intro with_telemetry_keeps op_transaction body.store_rules completed_tx_body find_inner_body)

lemma inner_id_keeps: "tx_keeps (body_rel env) (inner_id d)"
  unfolding inner_id_def by (intro body.keeps_rules)

lemma start_job_keeps: "tx_keeps (op_rel env) (startJob now c)"
  unfolding startJob_def
  by (intro op_transaction body.store_rules inner_id_keeps heartbeat_body)

lemma process_progress_keeps: "tx_keeps (op_rel env) (processProgress n env now c r)"
  unfolding processProgress_def
  by (intro op_transaction body.store_rules inner_id_keeps progress_body)

end
