(* ===== verification/Task_System.thy ===== *)
theory Task_System
  imports Task_Jobs
begin

text \<open>
  The task engine as a system: any sequence of its operations, from the empty database.  The
  operations of the service, the emission of events, the schedule poll, the drain of the core tasks
  and the calls of the job agents follow one another; each is one step.
\<close>

datatype task_op =
    TriggerCore string string string trigger_args          \<comment> \<open>thread, user, task\<close>
  | TriggerAppUser string string string string trigger_args \<comment> \<open>thread, user, app, task\<close>
  | TriggerApp string string string trigger_args            \<comment> \<open>thread, app, task\<close>
  | StartTask string json
  | Heartbeat string "(string \<times> json option) option" "json option"
  | Complete string task_completion
  | Progress string progress_report
  | EmitEvent event_args
  | PollSchedules bool
  | Drain nat bool
  | StartJob job_claims
  | JobProgress job_claims progress_report
  | CompleteJob job_claims job_outcome

definition task_step :: "nat \<Rightarrow> core_env \<Rightarrow> task_env \<Rightarrow> int \<times> task_op \<Rightarrow> task_db \<Rightarrow> task_db" where
  "task_step n cenv env e db = (case e of (now, a) \<Rightarrow> (case a of
       TriggerCore th u i g \<Rightarrow> snd (triggerCoreUserActionTask env now th u i g db)
     | TriggerAppUser th u p i g \<Rightarrow> snd (triggerAppUserActionTask n env now th u p i g db)
     | TriggerApp th p i g \<Rightarrow> snd (triggerAppActionTask n env now th p i g db)
     | StartTask i m \<Rightarrow> snd (registerTaskStarted now i m db)
     | Heartbeat i c m \<Rightarrow> snd (registerHeartbeat now i c m db)
     | Complete i c \<Rightarrow> snd (registerTaskCompleted n env now i c db)
     | Progress i r \<Rightarrow> snd (registerTaskProgress n env now i r db)
     | EmitEvent g \<Rightarrow> snd (emitEvent n env now g db)
     | PollSchedules busy \<Rightarrow> snd (processScheduledTaskTriggers n busy env now db)
     | Drain k draining \<Rightarrow> snd (startDrainCoreTasks k n cenv env now draining db)
     | StartJob c \<Rightarrow> snd (startJob now c db)
     | JobProgress c r \<Rightarrow> snd (processProgress n env now c r db)
     | CompleteJob c r \<Rightarrow> snd (completeJob n env now c r db)))"

inductive task_reachable :: "nat \<Rightarrow> core_env \<Rightarrow> task_env \<Rightarrow> task_db \<Rightarrow> bool" for n cenv env where
  init: "task_reachable n cenv env empty_db"
| step: "task_reachable n cenv env db \<Longrightarrow> task_reachable n cenv env (task_step n cenv env e db)"

lemma task_step_keeps:
  assumes "processors_keep cenv env"
  shows "op_rel env db (task_step n cenv env e db)"
proof -
  obtain now a where e: "e = (now, a)" by (cases e)
  note keeps = trigger_core_keeps trigger_app_user_keeps trigger_app_keeps started_keeps heartbeat_keeps
    completed_keeps progress_keeps emit_event_keeps schedules_keep ops.start_drain_keeps [OF assms [unfolded processors_keep_def]]
    start_job_keeps process_progress_keeps complete_job_keeps
  show ?thesis
    by (cases a) (simp_all add: task_step_def e keeps [THEN tx_keepsD])
qed

lemma reachable_ok: "task_reachable n cenv env db \<Longrightarrow> processors_keep cenv env \<Longrightarrow> db_ok env db"
proof (induction rule: task_reachable.induct)
  case init
  then show ?case by (simp add: db_ok_def table_ok_def empty_db_def)
next
  case (step db e)
  then show ?case using task_step_keeps [of cenv env db n e] by (simp add: op_rel_def)
qed

lemma run_grows:
  assumes "processors_keep cenv env" and "db_ok env db"
  shows "db_ok env (fold (task_step n cenv env) es db) \<and> grows (tasks db) (tasks (fold (task_step n cenv env) es db))"
  using assms(2)
proof (induction es arbitrary: db)
  case (Cons e es)
  have "db_ok env (task_step n cenv env e db) \<and> grows (tasks db) (tasks (task_step n cenv env e db))"
    using task_step_keeps [OF assms(1), of db n e] Cons.prems by (simp add: op_rel_def)
  then show ?case using Cons.IH [of "task_step n cenv env e db"] grows_trans by auto
qed simp

lemma evolves_lookup:
  "table_evolves t u \<Longrightarrow> map_of t i = Some x \<Longrightarrow> \<exists>y. map_of u i = Some y \<and> row_evolves x y"
  unfolding table_evolves_def by (induction rule: list_all2_induct) auto

lemma grows_lookup: "grows t t' \<Longrightarrow> map_of t i = Some x \<Longrightarrow> \<exists>y. map_of t' i = Some y \<and> row_evolves x y"
  using evolves_lookup by (fastforce simp: grows_def map_add_def)

text \<open>C2: The invariant of the task table, in every reachable database: identifiers and idempotency
  keys are unique; a task is completed exactly when its outcome is recorded, and only after it was
  started; a successful task has no error and a failed one has one; the attempts are the failures
  and the one success; a task that waits has had at most five attempts; and the key of a row is
  the one computed from its trigger.\<close>

theorem task_invariant:
  assumes "task_reachable n cenv env db" and "processors_keep cenv env"
  shows "table_ok env (tasks db)"
  using reachable_ok [OF assms] by (simp add: db_ok_def)

text \<open>C4: Whatever operations follow, a task stays in the table, with the identity, trigger and key it
  was created with; its counters and its logs only grow; and once it is completed its row never
  changes again.\<close>

theorem task_rows_evolve:
  assumes "task_reachable n cenv env db" and "processors_keep cenv env"
    and "map_of (tasks db) i = Some x"
  shows "\<exists>y. map_of (tasks (fold (task_step n cenv env) es db)) i = Some y \<and> row_evolves x y"
  using run_grows [OF assms(2) reachable_ok [OF assms(1,2)], of n es] grows_lookup assms(3) by blast

end
