(* ===== verification/Task_Requeue.thy ===== *)
theory Task_Requeue
  imports Task_System
begin

text \<open>
  What a requeue does to a task: the completion of a task on each branch, the completion handlers
  of a task that is tried again, and the task that asks for one requeue too many.
\<close>

declare executeOnCompleteHandler.simps [simp del] executeOnProgressHandler.simps [simp del]

section \<open>Relations for insertions\<close>

definition keys_of :: "task_db \<Rightarrow> string set" where
  "keys_of db = (idempotencyKey \<circ> snd) ` set (tasks db)"

definition keys_kept :: "task_db \<Rightarrow> task_db \<Rightarrow> bool" where
  "keys_kept db db' \<longleftrightarrow> keys_of db \<subseteq> keys_of db'"

definition rows_kept :: "task_db \<Rightarrow> task_db \<Rightarrow> bool" where
  "rows_kept db db' \<longleftrightarrow> map_of (tasks db) \<subseteq>\<^sub>m map_of (tasks db')"

lemma insert_task_append: "insert_task x t = Some t' \<Longrightarrow> t' = t @ [(task_id x, x)]"
  by (simp add: insert_task_def split: if_splits)

lemma insert_all_append: "insert_all xs t = Some t' \<Longrightarrow> t' = t @ map (\<lambda>x. (task_id x, x)) xs"
proof (induction xs arbitrary: t)
  case (Cons x xs)
  then obtain u where "insert_task x t = Some u" "insert_all xs u = Some t'" by (auto split: option.splits)
  then show ?case using Cons.IH [of u] insert_task_append [of x t u] by simp
qed simp

lemma map_of_append_le: "map_of t \<subseteq>\<^sub>m map_of (t @ u)"
  by (auto simp: map_le_def map_add_def split: option.split)

interpretation keys: task_store keys_kept env for env
proof
  show "keys_kept db db" for db by (simp add: keys_kept_def)
  show "keys_kept a b \<Longrightarrow> keys_kept b c \<Longrightarrow> keys_kept a c" for a b c by (auto simp: keys_kept_def)
  show "tx_keeps keys_kept (send n)" "tx_keeps keys_kept (draw_uuid env)" "tx_keeps keys_kept (insert_event e)"
    for n e env by (auto simp: tx_keeps_def send_def draw_uuid_def insert_event_def keys_kept_def keys_of_def)
  show "tx_keeps keys_kept (insert_tasks xs)" for xs
    by (auto simp: tx_keeps_def insert_tasks_def keys_kept_def keys_of_def dest!: insert_all_append split: option.split)
  show "tx_keeps keys_kept (insert_outside x)" for x
    by (auto simp: tx_keeps_def insert_outside_def keys_kept_def keys_of_def dest!: insert_task_append split: option.split)
qed

interpretation rows: task_store rows_kept env for env
proof
  show "rows_kept db db" for db by (simp add: rows_kept_def)
  show "rows_kept a b \<Longrightarrow> rows_kept b c \<Longrightarrow> rows_kept a c" for a b c by (auto simp: rows_kept_def dest: map_le_trans)
  show "tx_keeps rows_kept (send n)" "tx_keeps rows_kept (draw_uuid env)" "tx_keeps rows_kept (insert_event e)"
    for n e env by (auto simp: tx_keeps_def send_def draw_uuid_def insert_event_def rows_kept_def)
  show "tx_keeps rows_kept (insert_tasks xs)" for xs
    by (auto simp: tx_keeps_def insert_tasks_def rows_kept_def dest!: insert_all_append intro: map_of_append_le
        split: option.split)
  show "tx_keeps rows_kept (insert_outside x)" for x
    by (auto simp: tx_keeps_def insert_outside_def rows_kept_def dest!: insert_task_append intro: map_of_append_le
        split: option.split)
qed

section \<open>The key of a child task\<close>

text \<open>It depends on the parent and on the index of the handler, not on the attempt.\<close>

definition child_key :: "task_env \<Rightarrow> task \<Rightarrow> nat \<Rightarrow> string \<Rightarrow> string" where
  "child_key env x k identifier =
     buildTaskIdempotencyKey (hash env) (ownerId x) identifier (CompleteChild (task_id x) [] True JNull k [] [])"

lemma child_key_same:
  "buildTaskIdempotencyKey (hash env) (ownerId x) identifier (CompleteChild (task_id x) q s r k hs ps)
     = child_key env x k identifier"
  by (simp add: child_key_def buildTaskIdempotencyKey_def)

lemma tx_bindE:
  assumes "tx_bind m f db = (Inr y, db')"
  obtains x db1 where "m db = (Inr x, db1)" and "f x db1 = (Inr y, db')"
  using assms by (auto simp: tx_bind_def split: prod.splits sum.splits)

lemma tx_thenE:
  assumes "tx_then m n db = (Inr y, db')"
  obtains db1 where "m db = (Inr (), db1)" and "n db1 = (Inr y, db')"
  using assms by (auto simp: tx_then_def elim: tx_bindE)

lemma insert_one:
  assumes "insert_tasks [x] db = (Inr u, db')"
  shows "idempotencyKey x \<notin> keys_of db \<and> idempotencyKey x \<in> keys_of db'"
  using assms by (auto simp: insert_tasks_def insert_task_def keys_of_def split: option.splits if_splits)

lemma insert_enqueue_key:
  assumes "insert_and_enqueue n env now x db = (Inr y, db')"
  shows "idempotencyKey x \<notin> keys_of db \<and> idempotencyKey x \<in> keys_of db'"
proof -
  obtain db1 db2 where 1: "insert_tasks [x] db = (Inr (), db1)"
    and 2: "emitRunnableTaskEnqueuedEvent n env now x db1 = (Inr (), db2)" "db' = db2"
    using assms by (auto simp: insert_and_enqueue_def tx_return_def elim!: tx_thenE)
  have "keys_kept db1 db'" using tx_keepsD [OF keys.enqueued_keeps] 2 by (metis snd_conv)
  then show ?thesis using insert_one [OF 1] by (auto simp: keys_kept_def)
qed

lemma on_complete_key:
  assumes "executeOnCompleteHandler n env now x ok k (OnComplete identifier cond tmpl hs) db = (Inr u, db')"
  shows "child_key env x k identifier \<notin> keys_of db \<and> child_key env x k identifier \<in> keys_of db'"
proof -
  obtain d i data db1 db2 y where d: "require_task env (ownerId x) identifier db = (Inr d, db1)"
    and i: "draw_uuid env db1 = (Inr i, db2)"
    and ins: "insert_and_enqueue n env now (child_of x d (blank_task env i (ownerId x) identifier (td_description d)
        (CompleteChild (task_id x) (taskIdentifier x) ok (or_empty (json_field (parent_success_log x) ''result'')) k hs [])
        data (td_handlerType d) now)) db2 = (Inr y, db')"
    using assms by (auto simp: executeOnCompleteHandler.simps Let_def tx_lift_def tx_return_def tx_throw_def elim!: tx_bindE split: sum.splits)
  have "keys_of db2 = keys_of db"
    using d i by (auto simp: require_task_def draw_uuid_def tx_return_def tx_throw_def keys_of_def split: option.splits)
  then show ?thesis
    using insert_enqueue_key [OF ins] by (simp add: child_of_def blank_task_def child_key_same)
qed

lemma run_first_key:
  assumes "run_on_complete n env now x c (OnComplete identifier cond tmpl hs # rest) db = (Inr u, db')"
    and "\<not> truthy cond"
  shows "child_key env x 0 identifier \<notin> keys_of db \<and> child_key env x 0 identifier \<in> keys_of db'"
proof -
  let ?f = "\<lambda>(k, h). tx_when (fires_on_completion env (task_id x) c h)
       (executeOnCompleteHandler n env now x (succeeded c) k h)"
  let ?h = "OnComplete identifier cond tmpl hs"
  have first: "?f (0, ?h) = executeOnCompleteHandler n env now x (succeeded c) 0 ?h"
    using assms(2) by (simp add: tx_when_def)
  have "tx_then (?f (0, ?h)) (tx_each ?f (List.enumerate (Suc 0) rest)) db = (Inr u, db')"
    using assms(1) by (simp only: run_on_complete_def enumerate_simps tx_each.simps)
  then obtain db1 where 1: "executeOnCompleteHandler n env now x (succeeded c) 0 ?h db = (Inr (), db1)"
    and 2: "tx_each ?f (List.enumerate (Suc 0) rest) db1 = (Inr u, db')"
    unfolding first by (rule tx_thenE)
  have "tx_keeps keys_kept (?f p)" for p
    unfolding split_beta by (intro keys.keeps_when keys.on_complete_keeps)
  then have "tx_keeps keys_kept (tx_each ?f (List.enumerate (Suc 0) rest))"
    by (intro keys.keeps_each)
  from tx_keepsD [OF this, of db1] have "keys_kept db1 db'" unfolding 2 by simp
  then show ?thesis using on_complete_key [OF 1] by (auto simp: keys_kept_def)
qed

section \<open>One completion\<close>

text \<open>A completion that returns: the row it found, and the parts of the transaction.\<close>

lemma completedE:
  assumes "registerTaskCompletedInTx n env now i c db = (Inr y, db')"
  obtains x db1 db2 where "map_of (tasks db) i = Some x" "startedAt x \<noteq> None" "completedAt x = None" "success x = None"
    and "y = completed_row env now (should_requeue x c) c x"
    and "tx_when (should_requeue x c) (emitRunnableTaskEnqueuedEvent n env now y)
           (db\<lparr>tasks := update_task i (completed_row env now (should_requeue x c) c) (tasks db)\<rparr>) = (Inr (), db1)"
    and "run_on_complete n env now y c (inv_onComplete (invocation x)) db1 = (Inr (), db2)"
    and "tasks db' = tasks db2" "outside db' = outside db2"
proof -
  obtain x where x: "map_of (tasks db) i = Some x" "startedAt x \<noteq> None" "completedAt x = None"
    using assms by (auto simp: registerTaskCompletedInTx_def find_task_def tx_throw_def Let_def elim!: tx_bindE
        split: option.splits if_splits)
  obtain db1 db2 where "success x = None" "y = completed_row env now (should_requeue x c) c x"
    and 1: "tx_when (should_requeue x c) (emitRunnableTaskEnqueuedEvent n env now y)
           (db\<lparr>tasks := update_task i (completed_row env now (should_requeue x c) c) (tasks db)\<rparr>) = (Inr (), db1)"
    and 2: "run_on_complete n env now y c (inv_onComplete (invocation x)) db1 = (Inr (), db2)"
    and "tasks db' = tasks db2" "outside db' = outside db2"
    using assms x
    by (auto simp: registerTaskCompletedInTx_def find_task_def tx_throw_def Let_def update_where_def tx_return_def
        send_def tx_when_def elim!: tx_bindE tx_thenE split: option.splits if_splits)
  then show thesis using that x by blast
qed

lemma rows_keptD: "rows_kept a b \<Longrightarrow> map_of (tasks a) i = Some x \<Longrightarrow> map_of (tasks b) i = Some x"
  by (auto simp: rows_kept_def map_le_def dom_def)

lemma update_task_keys:
  "(\<And>z. idempotencyKey (f z) = idempotencyKey z) \<Longrightarrow>
   (\<lambda>p. idempotencyKey (snd p)) ` set (update_task i f t) = (\<lambda>p. idempotencyKey (snd p)) ` set t"
  unfolding update_task_map set_map image_image by (rule image_cong) simp_all

lemma transaction_Inr:
  assumes "transaction m db = (Inr y, db')"
  obtains db1 where "m (db\<lparr>outside := []\<rparr>) = (Inr y, db1)" "db' = db1\<lparr>outside := []\<rparr>"
  using assms by (auto simp: transaction_def split: prod.splits sum.splits)

text \<open>A relation of the tables that allows new rows survives a transaction.\<close>

lemma transaction_table:
  assumes m: "tx_keeps R m" and new: "\<And>a b xs. tasks b = tasks a @ xs \<Longrightarrow> R a b"
    and tab: "\<And>a b a' b'. R a b \<Longrightarrow> tasks a' = tasks a \<Longrightarrow> tasks b' = tasks b \<Longrightarrow> R a' b'"
  shows "tx_keeps R (transaction m)"
  unfolding tx_keeps_def
proof
  fix db
  obtain r db' where r: "m (db\<lparr>outside := []\<rparr>) = (r, db')" by (cases "m (db\<lparr>outside := []\<rparr>)")
  then have R: "R (db\<lparr>outside := []\<rparr>) db'" using tx_keepsD [OF m, of "db\<lparr>outside := []\<rparr>"] by simp
  show "R db (snd (transaction m db))"
  proof (cases r)
    case (Inl e)
    show ?thesis by (rule new) (simp add: transaction_def r Inl)
  next
    case (Inr x)
    show ?thesis by (rule tab [OF R]) (simp_all add: transaction_def r Inr)
  qed
qed

lemma emit_event_rows: "tx_keeps rows_kept (emitEvent n env now a)"
proof -
  have "tx_keeps rows_kept (transaction (emitEventInTx n True env now a))"
    by (rule transaction_table [OF rows.emit_keeps]) (auto simp: rows_kept_def map_of_append_le)
  then show ?thesis unfolding emitEvent_def by (intro rows.keeps_rules)
qed

lemma emit_event_keys: "tx_keeps keys_kept (emitEvent n env now a)"
proof -
  have "tx_keeps keys_kept (transaction (emitEventInTx n True env now a))"
    by (rule transaction_table [OF keys.emit_keeps]) (auto simp: keys_kept_def keys_of_def)
  then show ?thesis unfolding emitEvent_def by (intro keys.keeps_rules)
qed

lemma telemetry_rows: "tx_keeps rows_kept (emitTaskCompletionTelemetry n env now y)"
  and telemetry_keys: "tx_keeps keys_kept (emitTaskCompletionTelemetry n env now y)"
  unfolding emitTaskCompletionTelemetry_def
  by (intro rows.keeps_rules emit_event_rows, intro keys.keeps_rules emit_event_keys)

lemma registerCompletedE:
  assumes "registerTaskCompleted n env now i c db = (Inr y, db')"
  obtains db1 where "registerTaskCompletedInTx n env now i c (db\<lparr>outside := []\<rparr>) = (Inr y, db1)"
    and "rows_kept db1 db'" and "keys_kept db1 db'"
proof -
  obtain db1 where 1: "transaction (registerTaskCompletedInTx n env now i c) db = (Inr y, db1)"
    and 2: "db' = snd (emitTaskCompletionTelemetry n env now y db1)"
    using assms unfolding registerTaskCompleted_def
    by (elim tx_bindE tx_thenE) (simp add: tx_detached_def tx_return_def)
  obtain db0 where 0: "registerTaskCompletedInTx n env now i c (db\<lparr>outside := []\<rparr>) = (Inr y, db0)"
    and db1: "db1 = db0\<lparr>outside := []\<rparr>"
    using 1 by (rule transaction_Inr)
  have "rows_kept db1 db'" "keys_kept db1 db'"
    using 2 tx_keepsD [OF telemetry_rows] tx_keepsD [OF telemetry_keys] by metis+
  then show thesis
    using that [OF 0] by (simp add: rows_kept_def keys_kept_def keys_of_def db1)
qed

section \<open>The branches of a completion\<close>

text \<open>What a completion makes of a row.\<close>

definition completion_done :: "int \<Rightarrow> task_completion \<Rightarrow> task \<Rightarrow> task \<Rightarrow> bool" where
  "completion_done now c x y \<longleftrightarrow> attemptCount y = attemptCount x + 1 \<and> invocation y = invocation x
    \<and> task_data y = task_data x
    \<and> (case c of
        Succeeded r m \<Rightarrow> success y = Some True \<and> completedAt y = Some now \<and> startedAt y = startedAt x
          \<and> task_error y = None \<and> failureCount y = failureCount x
      | Failed d e m \<Rightarrow> failureCount y = failureCount x + 1 \<and> task_error y = Some (stored_error e)
          \<and> (case d of
               None \<Rightarrow> success y = Some False \<and> completedAt y = Some now \<and> startedAt y = startedAt x
             | Some ms \<Rightarrow> success y = None \<and> completedAt y = None
                 \<and> (if attemptCount x < MAX_TASK_ATTEMPTS
                    then startedAt y = None \<and> dontStartBefore y = Some (now + ms)
                    else startedAt y = startedAt x)))"

lemma completed_in_tx_effect:
  assumes "registerTaskCompletedInTx n env now i c db = (Inr y, db')"
  shows "\<exists>x. map_of (tasks db) i = Some x \<and> startedAt x \<noteq> None \<and> completedAt x = None
    \<and> map_of (tasks db') i = Some y \<and> completion_done now c x y
    \<and> (\<forall>j z. j \<noteq> i \<longrightarrow> map_of (tasks db) j = Some z \<longrightarrow> map_of (tasks db') j = Some z)"
proof -
  let ?f = "\<lambda>x. completed_row env now (should_requeue x c) c"
  obtain x d1 d2 where x: "map_of (tasks db) i = Some x" "startedAt x \<noteq> None" "completedAt x = None" "success x = None"
    and y: "y = ?f x x"
    and a: "tx_when (should_requeue x c) (emitRunnableTaskEnqueuedEvent n env now y)
      (db\<lparr>tasks := update_task i (?f x) (tasks db)\<rparr>) = (Inr (), d1)"
    and b: "run_on_complete n env now y c (inv_onComplete (invocation x)) d1 = (Inr (), d2)"
    and d2: "tasks db' = tasks d2"
    by (rule completedE [OF assms]; rule that; simp)
  have "rows_kept (db\<lparr>tasks := update_task i (?f x) (tasks db)\<rparr>) d1"
    using a tx_keepsD [OF rows.keeps_when [OF rows.enqueued_keeps]] by (metis snd_conv)
  moreover have "rows_kept d1 d2" using b tx_keepsD [OF rows.run_on_complete_keeps] by (metis snd_conv)
  ultimately have kept: "map_of (tasks db') j = Some z" if "map_of (update_task i (?f x) (tasks db)) j = Some z" for j z
    using that rows_keptD [of "db\<lparr>tasks := update_task i (?f x) (tasks db)\<rparr>" d1 j z] rows_keptD d2 by simp
  have "completion_done now c x y"
    using x y by (cases c) (auto simp: completion_done_def completed_row_def Let_def should_requeue_def split: option.split)
  then show ?thesis
    using x y kept by (auto simp: map_of_update_task)
qed

lemma completion_effect:
  assumes "registerTaskCompleted n env now i c db = (Inr y, db')"
  shows "\<exists>x. map_of (tasks db) i = Some x \<and> startedAt x \<noteq> None \<and> completedAt x = None
    \<and> map_of (tasks db') i = Some y \<and> completion_done now c x y"
proof -
  obtain db1 where 1: "registerTaskCompletedInTx n env now i c (db\<lparr>outside := []\<rparr>) = (Inr y, db1)"
    and kept: "rows_kept db1 db'"
    using assms by (rule registerCompletedE)
  show ?thesis using completed_in_tx_effect [OF 1] rows_keptD [OF kept] by auto
qed

text \<open>C8: What a completion that returns has done to the row it found, on each of its four
  branches: success, failure, failure with a requeue, and failure with a requeue asked after the
  fifth attempt, which neither completes the task nor lets it start again.\<close>

theorem completion_exact:
  assumes "registerTaskCompleted n env now i c db = (Inr y, db')"
  shows "\<exists>x. map_of (tasks db) i = Some x \<and> startedAt x \<noteq> None \<and> completedAt x = None
    \<and> map_of (tasks db') i = Some y \<and> attemptCount y = attemptCount x + 1
    \<and> (case c of
        Succeeded r m \<Rightarrow> success y = Some True \<and> completedAt y = Some now \<and> startedAt y = startedAt x
          \<and> task_error y = None \<and> failureCount y = failureCount x
      | Failed d e m \<Rightarrow> failureCount y = failureCount x + 1 \<and> task_error y = Some (stored_error e)
          \<and> (case d of
               None \<Rightarrow> success y = Some False \<and> completedAt y = Some now \<and> startedAt y = startedAt x
             | Some ms \<Rightarrow> success y = None \<and> completedAt y = None
                 \<and> (if attemptCount x < MAX_TASK_ATTEMPTS
                    then startedAt y = None \<and> dontStartBefore y = Some (now + ms)
                    else startedAt y = startedAt x)))"
  using completion_effect [OF assms] unfolding completion_done_def by blast

section \<open>Handlers and requeues\<close>

lemma completed_row_same [simp]:
  "ownerId (completed_row env now q c x) = ownerId x" "task_id (completed_row env now q c x) = task_id x"
  "invocation (completed_row env now q c x) = invocation x"
  by (cases c; simp add: completed_row_def Let_def)+

text \<open>A completion that returns has created the child of its first, unconditional, handler; the
  child was not there before.\<close>

lemma completion_needs_key:
  assumes "registerTaskCompleted n env now i c db = (Inr y, db')"
    and x: "map_of (tasks db) i = Some x"
    and h: "inv_onComplete (invocation x) = OnComplete identifier cond tmpl hs # rest" "\<not> truthy cond"
  shows "child_key env x 0 identifier \<notin> keys_of db \<and> child_key env x 0 identifier \<in> keys_of db'"
proof -
  obtain db1 where 1: "registerTaskCompletedInTx n env now i c (db\<lparr>outside := []\<rparr>) = (Inr y, db1)"
    and kept: "keys_kept db1 db'"
    using assms(1) by (rule registerCompletedE)
  let ?f = "completed_row env now (should_requeue x c) c"
  let ?db = "db\<lparr>outside := [], tasks := update_task i ?f (tasks db)\<rparr>"
  obtain d1 d2 where y: "y = ?f x"
    and a: "tx_when (should_requeue x c) (emitRunnableTaskEnqueuedEvent n env now y) ?db = (Inr (), d1)"
    and b: "run_on_complete n env now y c (inv_onComplete (invocation x)) d1 = (Inr (), d2)"
    and d2: "tasks db1 = tasks d2"
    by (rule completedE [OF 1]; rule that; use x in simp)
  have "keys_kept ?db d1" using a tx_keepsD [OF keys.keeps_when [OF keys.enqueued_keeps]] by (metis snd_conv)
  moreover have "child_key env y 0 identifier \<notin> keys_of d1 \<and> child_key env y 0 identifier \<in> keys_of d2"
    using b h(2) unfolding h(1) by (rule run_first_key)
  moreover have "child_key env y 0 identifier = child_key env x 0 identifier"
    by (simp add: y child_key_def)
  moreover have "idempotencyKey (?f z) = idempotencyKey z" for z
    by (cases c) (simp_all add: completed_row_def Let_def)
  then have "keys_of ?db = keys_of db" by (simp add: keys_of_def update_task_keys)
  ultimately show ?thesis using kept d2 by (auto simp: keys_kept_def keys_of_def [of db1] keys_of_def [of d2])
qed

lemma evolves_keys_sub: "grows t t' \<Longrightarrow> (idempotencyKey \<circ> snd) ` set t \<subseteq> (idempotencyKey \<circ> snd) ` set t'"
proof -
  assume "grows t t'"
  then obtain u new where u: "t' = u @ new" "table_evolves t u" by (auto simp: grows_def)
  have "map snd (map (row_keys \<circ> snd) u) = map snd (map (row_keys \<circ> snd) t)"
    by (simp only: table_evolves_keys [OF u(2)])
  then have "map (idempotencyKey \<circ> snd) u = map (idempotencyKey \<circ> snd) t" by (simp add: row_keys_def o_def)
  then show ?thesis unfolding u(1) by (metis Un_upper1 image_Un set_append set_map)
qed

text \<open>A completion handler without a condition breaks the requeue of its task: the failed
  attempt, which is requeued, already creates the handler's child, whose idempotency key does not
  depend on the attempt; so, whatever happens afterwards, every later completion of the task
  throws on the duplicate key and is rolled back.  The task can be started again, and never
  completed.\<close>

theorem requeue_blocks_completion:
  assumes "task_reachable n cenv env db" and "processors_keep cenv env"
    and "map_of (tasks db) i = Some x"
    and "inv_onComplete (invocation x) = OnComplete identifier cond tmpl hs # rest" and "\<not> truthy cond"
    and "attemptCount x < MAX_TASK_ATTEMPTS"
    and "registerTaskCompleted n env now i (Failed (Some d) err m) db = (Inr y, db')"
  shows "startedAt y = None \<and> completedAt y = None
    \<and> fst (registerTaskCompleted n env t i c (fold (task_step n cenv env) es db')) \<noteq> Inr z"
proof -
  obtain x' where "map_of (tasks db) i = Some x'" "startedAt y = None" "completedAt y = None"
    and row: "map_of (tasks db') i = Some y"
    using completion_effect [OF assms(7)] assms(3,6) by (auto simp: completion_done_def MAX_TASK_ATTEMPTS_def split: if_splits)
  have db': "task_step n cenv env (now, Complete i (Failed (Some d) err m)) db = db'"
    by (simp add: task_step_def assms(7))
  have "db_ok env db" by (rule reachable_ok [OF assms(1,2)])
  then have ok: "db_ok env db'" and xy: "grows (tasks db) (tasks db')"
    using task_step_keeps [OF assms(2), of db n "(now, Complete i (Failed (Some d) err m))"]
    by (simp_all add: op_rel_def db')
  let ?db = "fold (task_step n cenv env) es db'"
  have g: "grows (tasks db') (tasks ?db)" using run_grows [OF assms(2) ok] by blast
  obtain v where v: "map_of (tasks ?db) i = Some v" "row_evolves x v"
    using grows_lookup [OF grows_trans [OF xy g] assms(3)] by blast
  have "child_key env x 0 identifier \<in> keys_of db'"
    using completion_needs_key [OF assms(7,3,4,5)] by blast
  moreover have "child_key env x 0 identifier = child_key env v 0 identifier"
    using v(2) by (simp add: child_key_def row_evolves_def)
  ultimately have "child_key env v 0 identifier \<in> keys_of ?db"
    using evolves_keys_sub [OF g] by (auto simp: keys_of_def)
  moreover have "inv_onComplete (invocation v) = OnComplete identifier cond tmpl hs # rest"
    using v(2) assms(4) by (simp add: row_evolves_def)
  ultimately have "registerTaskCompleted n env t i c ?db \<noteq> (Inr z, db2)" for db2
    using completion_needs_key [OF _ v(1) _ assms(5)] by blast
  then show ?thesis
    using \<open>startedAt y = None\<close> \<open>completedAt y = None\<close> by (metis prod.collapse)
qed

text \<open>A task that fails a sixth time and asks for a requeue is neither requeued nor failed: the
  row stays started and not completed, so that it can neither be started again nor count as
  failed.\<close>

theorem max_requeues_stuck:
  assumes "map_of (tasks db) i = Some x" and "MAX_TASK_ATTEMPTS \<le> attemptCount x"
    and "registerTaskCompleted n env now i (Failed (Some d) err m) db = (Inr y, db')"
  shows "map_of (tasks db') i = Some y \<and> completedAt y = None \<and> success y = None
    \<and> fst (registerTaskStarted t i m' db') = Inl (Thrown ''Task not in a state to be started.'')"
proof -
  have y: "map_of (tasks db') i = Some y" "completedAt y = None" "success y = None" "startedAt y \<noteq> None"
    using completion_effect [OF assms(3)] assms(1,2) by (auto simp: completion_done_def)
  then show ?thesis
    by (simp add: registerTaskStarted_def transaction_def registerTaskStartedInTx_def find_task_def tx_bind_def
        tx_throw_def)
qed

text \<open>The handlers of a task that failed after a requeue see its first error: the second
  search in the log runs over the log in its original order.\<close>

theorem stale_error_context:
  assumes "find (\<lambda>l. log_type l = ''error'') (systemLog x) = Some old"
  shows "parent_error_log (completed_row env now q (Failed d e m) x) = log_payload old"
proof -
  have "find p (xs @ ys) = Some z" if "find p xs = Some z" for p :: "log_entry \<Rightarrow> bool" and xs ys z
    using that by (induction xs) (auto split: if_splits)
  then show ?thesis
    using assms by (cases d) (simp_all add: parent_error_log_def find_log_def completed_row_def Let_def)
qed

end
