(* ===== verification/Task_Emission.thy ===== *)
theory Task_Emission
  imports Task_Requeue
begin

text \<open>
  The recursion of \<open>emitEvent\<close>: what the event of a task that has to be run does, when the
  recursion ends, and the configuration in which it does not.
\<close>

section \<open>Nobody listens to the enqueue events\<close>

definition enqueue_events :: "string list" where
  "enqueue_events = [''serverless_task_enqueued'', ''docker_task_enqueued'']"

definition enqueue_triggers :: "string list" where
  "enqueue_triggers = map (\<lambda>i. CORE_IDENTIFIER @ CHR '':'' # i) enqueue_events"

fun listens :: "trigger_config \<Rightarrow> bool" where
  "listens (EventTrig tr) = (et_eventIdentifier tr \<in> set enqueue_triggers)"
| "listens _ = False"

text \<open>No enabled app has subscribed to an enqueue event, and no registered trigger is for one.\<close>

definition no_listeners :: "task_env \<Rightarrow> bool" where
  "no_listeners env \<longleftrightarrow>
     list_all (\<lambda>p. app_enabled p \<longrightarrow> list_all (\<lambda>i. i \<notin> set enqueue_triggers) (subscribedCoreEvents p)) (apps env)
     \<and> list_all (\<lambda>rt. \<not> listens (rt_definition rt)) (runtime_triggers env)"

definition enqueue_args :: "event_args \<Rightarrow> bool" where
  "enqueue_args a \<longleftrightarrow> emitterIdentifier a = CORE_IDENTIFIER \<and> eventIdentifier a \<in> set enqueue_events
     \<and> ea_target a = NoTarget"

lemma runnable_enqueue: "runnable_event env x = Some a \<Longrightarrow> enqueue_args a"
  by (auto simp: runnable_event_def enqueue_args_def enqueue_events_def split: if_splits)

lemma no_subscribers:
  assumes "no_listeners env" and "enqueue_args a"
  shows "subscribed_apps env a None = [] \<and> runtime_event_rows env a None = []"
proof -
  have t: "event_trigger_id a \<in> set enqueue_triggers"
    using assms(2) by (auto simp: enqueue_args_def event_trigger_id_def enqueue_triggers_def)
  have "runtime_event_rows env a None = []"
    unfolding runtime_event_rows_def List.map_filter_def
    using assms(1) t by (auto simp: filter_empty_conv no_listeners_def list_all_iff
        split: option.split trigger_config.split)
  moreover have "subscribed_apps env a None = []"
    using assms t by (auto simp: subscribed_apps_def enqueue_args_def no_listeners_def list_all_iff filter_empty_conv)
  ultimately show ?thesis by simp
qed

lemma admit_enqueue: "enqueue_args a \<Longrightarrow> admit_event s env a = Inr (Some None)"
  by (auto simp: enqueue_args_def enqueue_events_def admit_event_def valid_event_identifier_def)

lemma no_aggregation: "enqueue_args a \<Longrightarrow> event_aggregation env a = None"
  by (auto simp: enqueue_args_def enqueue_events_def event_aggregation_def getCoreEventAggregationConfig_def)

section \<open>One event, one runner\<close>

definition enqueue_event_row :: "task_env \<Rightarrow> int \<Rightarrow> event_args \<Rightarrow> task_db \<Rightarrow> event" where
  "enqueue_event_row env now a db =
     \<lparr>event_id = uuid env (drawn db), event_identifier = eventIdentifier a, event_emitterId = CORE_IDENTIFIER,
      event_targetUserId = None, event_folderId = None, event_objectKey = None, event_data = ea_data a,
      event_aggregationKey = None, event_createdAt = now, event_handledAt = None\<rparr>"

definition runner_row :: "task_env \<Rightarrow> int \<Rightarrow> event_args \<Rightarrow> task_db \<Rightarrow> task" where
  "runner_row env now a db =
     (let e = enqueue_event_row env now a db
      in core_task_of env e now 0 (hd (core_event_tasks env e)) (uuid env (Suc (drawn db))))"

lemma event_identifier_row [simp]: "event_identifier (enqueue_event_row env now a db) = eventIdentifier a"
  by (simp add: enqueue_event_row_def)

fun map_of_data :: "json \<Rightarrow> string \<Rightarrow> json option" where
  "map_of_data (JObj m) k = map_of m k"
| "map_of_data _ k = None"

lemma enqueue_core_tasks:
  "enqueue_args a \<Longrightarrow> length (core_event_tasks env (enqueue_event_row env now a db)) = 1"
  by (auto simp: enqueue_args_def enqueue_events_def core_event_tasks_def enqueue_event_row_def)

lemma gather_one:
  assumes "event_emitterId e = CORE_IDENTIFIER" and "length (core_event_tasks env e) = 1"
  shows "gatherCoreTasksForEvent env e now db =
    (Inr [core_task_of env e now 0 (hd (core_event_tasks env e)) (uuid env (drawn db))], db\<lparr>drawn := Suc (drawn db)\<rparr>)"
proof -
  obtain d where "core_event_tasks env e = [d]" using assms(2) by (auto simp: length_Suc_conv)
  then show ?thesis
    using assms(1) by (simp add: gatherCoreTasksForEvent_def tx_bind_def tx_return_def draw_uuid_def)
qed

lemma emit_enqueue:
  assumes "no_listeners env" and a: "enqueue_args a"
  shows "(\<exists>e. fst (emitEventInTx (Suc n) s env now a db) = Inl (Thrown e))
    \<or> (\<exists>db'. emitEventInTx (Suc n) s env now a db = (Inr (), db')
         \<and> tasks db' = tasks db @ [(task_id (runner_row env now a db), runner_row env now a db)]
         \<and> events db' = events db @ [(uuid env (drawn db), enqueue_event_row env now a db)]
         \<and> outside db' = outside db)"
proof -
  let ?e = "enqueue_event_row env now a db"
  have e: "\<lparr>event_id = uuid env (drawn db), event_identifier = eventIdentifier a,
      event_emitterId = emitterIdentifier a, event_targetUserId = target_user (ea_target a),
      event_folderId = target_folder (ea_target a), event_objectKey = target_object (ea_target a),
      event_data = ea_data a, event_aggregationKey = None, event_createdAt = now, event_handledAt = None\<rparr> = ?e"
    using a by (simp add: enqueue_event_row_def enqueue_args_def)
  have step: "emitEventInTx (Suc n) s env now a db = tx_then (insert_event ?e)
      (tx_bind (gatherCoreTasksForEvent env ?e now) (\<lambda>zs.
        tx_then (tx_when (zs \<noteq> []) (tx_then (insert_tasks zs) (announce_tasks zs)))
          (tx_then (announce_event a ?e) (tx_return ())))) (db\<lparr>drawn := Suc (drawn db)\<rparr>)"
    using no_subscribers [OF assms] no_aggregation [OF a]
    by (simp add: emitEventStep_def admit_enqueue [OF a] bind_lift write_event_def Let_def e bind_draw
        bind_return)
  show ?thesis
  proof (cases "map_of (events db) (event_id ?e)")
    case (Some x)
    then show ?thesis unfolding step by (simp add: tx_then_def tx_bind_def insert_event_def)
  next
    case None
    let ?db = "db\<lparr>drawn := Suc (drawn db), events := events db @ [(event_id ?e, ?e)]\<rparr>"
    have g: "gatherCoreTasksForEvent env ?e now ?db = (Inr [runner_row env now a db], ?db\<lparr>drawn := Suc (Suc (drawn db))\<rparr>)"
      using gather_one [OF _ enqueue_core_tasks [OF a], of env now db now ?db]
      by (simp add: runner_row_def Let_def enqueue_event_row_def)
    have folder: "targetFolderId (runner_row env now a db) = None"
      using a by (auto simp: runner_row_def core_task_of_def Let_def core_event_tasks_def enqueue_args_def
          enqueue_events_def enqueue_event_row_def)
    show ?thesis
      unfolding step
      using None g folder a
      by (auto simp: tx_then_def tx_bind_def insert_event_def tx_when_def insert_tasks_def announce_tasks_def
          announce_event_def enqueue_args_def tx_return_def send_def enqueue_event_row_def
          dest!: insert_task_append split: option.split)
  qed
qed

lemma enqueue_effect:
  assumes "no_listeners env" and "handlerType x = ''runtime'' \<or> handlerType x = ''docker''"
  shows "(\<exists>e. fst (emitRunnableTaskEnqueuedEvent (Suc n) env now x db) = Inl (Thrown e))
    \<or> (\<exists>db' r e. emitRunnableTaskEnqueuedEvent (Suc n) env now x db = (Inr (), db')
         \<and> tasks db' = tasks db @ [(task_id r, r)] \<and> events db' = events db @ [(event_id e, e)]
         \<and> taskIdentifier r = (if handlerType x = ''runtime'' then ''run_serverless_worker'' else ''run_docker_worker'')
         \<and> ownerId r = CORE_IDENTIFIER \<and> startedAt r = None
         \<and> js_prop (task_data r) ''innerTaskId'' = Some (Some (JStr (task_id x)))
         \<and> js_prop (task_data r) ''appIdentifier'' = Some (Some (JStr (ownerId x)))
         \<and> dontStartBefore r = map_option (\<lambda>t. parse_date env (iso env t)) (dontStartBefore x)
         \<and> new_row env r \<and> inv_kind (invocation r) = ''event'' \<and> inv_onComplete (invocation r) = [])"
proof -
  obtain a where a: "runnable_event env x = Some a" using assms(2) by (auto simp: runnable_event_def)
  let ?r = "runner_row env now a db"
  have ids: "eventIdentifier a = (if handlerType x = ''runtime'' then ''serverless_task_enqueued'' else ''docker_task_enqueued'')"
    and fields: "map_of_data (ea_data a) ''innerTaskId'' = Some (JStr (task_id x))"
      "map_of_data (ea_data a) ''appIdentifier'' = Some (JStr (ownerId x))"
      "map_of_data (ea_data a) ''dontStartBefore'' = Some (null_or (\<lambda>t. JStr (iso env t)) (dontStartBefore x))"
    using a by (auto simp: runnable_event_def split: if_splits)
  have df: "data_field (enqueue_event_row env now a db) k = map_of_data (ea_data a) k" for k
    using a by (auto simp: runnable_event_def data_field_def enqueue_event_row_def split: if_splits)
  have date: "data_date env (enqueue_event_row env now a db) = map_option (\<lambda>t. parse_date env (iso env t)) (dontStartBefore x)"
    by (cases "dontStartBefore x") (simp_all add: data_date_def df fields null_or_def)
  have r: "taskIdentifier ?r = (if handlerType x = ''runtime'' then ''run_serverless_worker'' else ''run_docker_worker'')
      \<and> ownerId ?r = CORE_IDENTIFIER \<and> startedAt ?r = None
      \<and> js_prop (task_data ?r) ''innerTaskId'' = Some (Some (JStr (task_id x)))
      \<and> js_prop (task_data ?r) ''appIdentifier'' = Some (Some (JStr (ownerId x)))
      \<and> dontStartBefore ?r = map_option (\<lambda>t. parse_date env (iso env t)) (dontStartBefore x)
      \<and> inv_kind (invocation ?r) = ''event'' \<and> inv_onComplete (invocation ?r) = []"
    using ids date fields
    by (simp add: runner_row_def core_task_of_def Let_def core_event_tasks_def event_identifier_row
        blank_task_def copy_field_def df)
  have fresh: "new_row env ?r" by (simp add: runner_row_def Let_def)
  have eid: "event_id (enqueue_event_row env now a db) = uuid env (drawn db)"
    by (simp add: enqueue_event_row_def)
  have emit: "emitRunnableTaskEnqueuedEvent (Suc n) env now x db = emitEventInTx (Suc n) False env now a db"
    by (simp only: emitRunnableTaskEnqueuedEvent_def emitRunnable_def a option.simps)
  from emit_enqueue [OF assms(1) runnable_enqueue [OF a], of n False now db]
  show ?thesis
    unfolding emit
  proof (elim disjE exE conjE, goal_cases)
    case (1 e)
    then show ?case by blast
  next
    case (2 db')
    then show ?case
      using r fresh eid by (intro disjI2 exI [of _ db'] exI [of _ ?r] exI [of _ "enqueue_event_row env now a db"]) simp
  qed
qed

text \<open>A task for a worker or a container that is enqueued, when nobody listens to the enqueue
  events, gets one event and one core task to run it, or the operation throws: the core task names
  the task, waits for the same time and belongs to the platform.\<close>

theorem enqueue_exact:
  assumes "no_listeners env" and "handlerType x = ''runtime'' \<or> handlerType x = ''docker''"
  shows "(\<exists>e. fst (emitRunnableTaskEnqueuedEvent (Suc n) env now x db) = Inl (Thrown e))
    \<or> (\<exists>db' r e. emitRunnableTaskEnqueuedEvent (Suc n) env now x db = (Inr (), db')
         \<and> tasks db' = tasks db @ [(task_id r, r)] \<and> events db' = events db @ [(event_id e, e)]
         \<and> taskIdentifier r = (if handlerType x = ''runtime'' then ''run_serverless_worker'' else ''run_docker_worker'')
         \<and> ownerId r = CORE_IDENTIFIER \<and> startedAt r = None
         \<and> js_prop (task_data r) ''innerTaskId'' = Some (Some (JStr (task_id x)))
         \<and> js_prop (task_data r) ''appIdentifier'' = Some (Some (JStr (ownerId x)))
         \<and> dontStartBefore r = map_option (\<lambda>t. parse_date env (iso env t)) (dontStartBefore x))"
  using enqueue_effect [OF assms, of n now db] by blast

section \<open>Fuel\<close>

text \<open>\<open>m\<close> returns or throws.\<close>

definition tx_returns :: "'a txm \<Rightarrow> bool" where
  "tx_returns m \<longleftrightarrow> (\<forall>db. fst (m db) \<noteq> Inl NoReturn)"

lemma returns_pure: "tx_returns (tx_return x)" "tx_returns (tx_throw e)" "tx_returns (tx_lift r)"
    "tx_returns (send k)" "tx_returns (draw_uuid env)" "tx_returns (insert_event v)" "tx_returns (insert_tasks xs)"
    "tx_returns (insert_outside y)"
  by (auto simp: tx_returns_def tx_return_def tx_throw_def tx_lift_def send_def draw_uuid_def insert_event_def
      insert_tasks_def insert_outside_def split: sum.split option.split)

lemma returns_bind: "tx_returns m \<Longrightarrow> (\<And>x. tx_returns (f x)) \<Longrightarrow> tx_returns (tx_bind m f)"
  by (auto simp: tx_returns_def tx_bind_def split: prod.splits sum.splits) (metis fst_conv)

lemma returns_then: "tx_returns m \<Longrightarrow> tx_returns n \<Longrightarrow> tx_returns (tx_then m n)"
  by (simp add: tx_then_def returns_bind)

lemma returns_when: "tx_returns m \<Longrightarrow> tx_returns (tx_when b m)"
  by (simp add: tx_when_def returns_pure)

lemma returns_each: "(\<And>x. tx_returns (f x)) \<Longrightarrow> tx_returns (tx_each f xs)"
  by (induction xs) (simp_all add: returns_pure returns_then)

lemma returns_collect: "(\<And>x. tx_returns (f x)) \<Longrightarrow> tx_returns (tx_collect f xs)"
  by (induction xs) (simp_all add: returns_pure returns_bind)

lemma returns_if: "tx_returns m \<Longrightarrow> tx_returns n \<Longrightarrow> tx_returns (if b then m else n)"
  by simp

lemma returns_option: "tx_returns m \<Longrightarrow> (\<And>x. tx_returns (f x)) \<Longrightarrow> tx_returns (case v of None \<Rightarrow> m | Some x \<Rightarrow> f x)"
  by (cases v) simp_all

lemma returns_sum: "(\<And>x. tx_returns (f x)) \<Longrightarrow> (\<And>x. tx_returns (g x)) \<Longrightarrow> tx_returns (case v of Inl x \<Rightarrow> f x | Inr x \<Rightarrow> g x)"
  by (cases v) simp_all

lemma returns_prod: "(\<And>x y. tx_returns (f x y)) \<Longrightarrow> tx_returns (case v of (x, y) \<Rightarrow> f x y)"
  by (cases v) simp

lemma returns_trigger: "(\<And>tr. tx_returns (f tr)) \<Longrightarrow> (\<And>st. tx_returns (g st)) \<Longrightarrow> tx_returns h \<Longrightarrow>
    tx_returns (case v of EventTrig tr \<Rightarrow> f tr | ScheduleTrig st \<Rightarrow> g st | UserActionTrig \<Rightarrow> h)"
  by (cases v) simp_all

lemmas returns_rules = returns_pure returns_bind returns_then returns_when returns_each returns_collect
  returns_if returns_option returns_sum returns_prod returns_trigger

lemma write_event_returns:
  assumes "\<And>x. tx_returns (enq x)"
  shows "tx_returns (write_event enq env now a p)"
  unfolding write_event_def Let_def config_tasks_def runtime_tasks_def buildEventTriggeredTask_def
    gatherCoreTasksForEvent_def announce_tasks_def announce_event_def enqueue_notifications_def
  by (intro returns_rules assms)

lemma emit_enqueue_returns:
  assumes "no_listeners env"
  shows "tx_returns (emitRunnable (emitEventInTx (Suc n) False env now) env x)"
  unfolding emitRunnable_def tx_returns_def
proof
  fix db
  show "fst ((case runnable_event env x of None \<Rightarrow> tx_return ()
      | Some a \<Rightarrow> emitEventInTx (Suc n) False env now a) db) \<noteq> Inl NoReturn"
  proof (cases "runnable_event env x")
    case (Some a)
    then show ?thesis
      using emit_enqueue [OF assms runnable_enqueue [OF Some], of n False now db]
      by (auto simp del: emitEventInTx.simps)
  qed (simp add: tx_return_def)
qed

text \<open>C38: Emitting an event comes to an end, with a result or an exception, when nobody listens to
  the enqueue events: two levels of the recursion are enough.\<close>

theorem emission_terminates:
  assumes "no_listeners env"
  shows "fst (emitEventInTx (Suc (Suc n)) skip env now a db) \<noteq> Inl NoReturn"
proof -
  have "tx_returns (emitEventInTx (Suc (Suc n)) skip env now a)"
    unfolding emitEventInTx.simps(2) [of "Suc n"] emitEventStep_def
    by (intro returns_rules write_event_returns emit_enqueue_returns assms)
  then show ?thesis by (simp add: tx_returns_def)
qed

section \<open>An app that listens to the event of its own task\<close>

text \<open>The app runs a worker task on every enqueued worker task.\<close>

definition echo_app :: "app \<Rightarrow> bool" where
  "echo_app p \<longleftrightarrow> app_enabled p \<and> ''core:serverless_task_enqueued'' \<in> set (subscribedCoreEvents p)
     \<and> (\<exists>tr rest d. app_triggers p = EventTrig tr # rest
          \<and> et_eventIdentifier tr = ''core:serverless_task_enqueued'' \<and> \<not> truthy (et_condition tr)
          \<and> et_dataTemplate tr = None
          \<and> find_task_def p (et_taskIdentifier tr) = Some d \<and> td_handlerType d = ''runtime'')"

definition fresh_events :: "task_env \<Rightarrow> task_db \<Rightarrow> bool" where
  "fresh_events env db \<longleftrightarrow> (\<forall>k \<ge> drawn db. map_of (events db) (uuid env k) = None)"

lemma no_return_bind: "fst (m db) = Inl NoReturn \<Longrightarrow> fst (tx_bind m f db) = Inl NoReturn"
  by (auto simp: tx_bind_def split: prod.splits sum.splits)

lemma no_return_then: "fst (m db) = Inl NoReturn \<Longrightarrow> fst (tx_then m n db) = Inl NoReturn"
  by (simp add: tx_then_def no_return_bind)

lemma emit_echo:
  assumes env: "apps env = p # ps" "echo_app p" "inj (uuid env)"
  shows "fresh_events env db \<Longrightarrow> handlerType x = ''runtime'' \<Longrightarrow>
    fst (emitRunnable (emitEventInTx n False env now) env x db) = Inl NoReturn"
proof (induction n arbitrary: db x)
  case 0
  then show ?case by (simp add: emitRunnable_def runnable_event_def tx_out_of_fuel_def)
next
  case (Suc n)
  obtain a where a: "runnable_event env x = Some a" using Suc.prems(2) by (simp add: runnable_event_def)
  have q: "enqueue_args a" by (rule runnable_enqueue [OF a])
  have ident: "eventIdentifier a = ''serverless_task_enqueued''" "emitterIdentifier a = CORE_IDENTIFIER"
    using a Suc.prems(2) by (auto simp: runnable_event_def)
  have trig: "event_trigger_id a = ''core:serverless_task_enqueued''"
    by (simp add: event_trigger_id_def ident CORE_IDENTIFIER_def)
  obtain tr rest d where t: "app_triggers p = EventTrig tr # rest"
      "et_eventIdentifier tr = ''core:serverless_task_enqueued''" "\<not> truthy (et_condition tr)"
      "et_dataTemplate tr = None" "find_task_def p (et_taskIdentifier tr) = Some d" "td_handlerType d = ''runtime''"
    using env(2) by (auto simp: echo_app_def)
  obtain qs where subs: "subscribed_apps env a None = p # qs"
    using env(1,2) by (auto simp: subscribed_apps_def ident trig echo_app_def)
  let ?enq = "emitRunnable (emitEventInTx n False env now) env"
  let ?e = "enqueue_event_row env now a db"
  let ?d1 = "db\<lparr>drawn := Suc (drawn db)\<rparr>"
  let ?d2 = "?d1\<lparr>events := events db @ [(event_id ?e, ?e)]\<rparr>"
  let ?d3 = "?d2\<lparr>drawn := Suc (Suc (drawn db))\<rparr>"
  have none: "map_of (events db) (event_id ?e) = None"
    using Suc.prems(1) by (simp add: fresh_events_def enqueue_event_row_def)
  have fresh: "fresh_events env ?d3"
    using Suc.prems(1) injD [OF env(3)]
    by (force simp: fresh_events_def enqueue_event_row_def map_add_def split: option.split)
  have build: "fst (buildEventTriggeredTask ?enq env now ?e (ea_target a) p tr (ConfigRef 0) ?d2) = Inl NoReturn"
    using t Suc.IH [OF fresh]
    by (simp add: buildEventTriggeredTask_def bind_draw bind_return Let_def no_return_then blank_task_def)
  have "fst (config_tasks ?enq env now ?e a p ?d2) = Inl NoReturn"
    using t(1,2) trig q build
    by (simp add: no_return_bind config_tasks_def checkAppAccess_def enqueue_args_def check_access_def bind_lift)
  then have c: "fst (tx_collect (config_tasks ?enq env now ?e a) (subscribed_apps env a None) ?d2) = Inl NoReturn"
    by (simp add: subs no_return_bind)
  have e: "\<lparr>event_id = uuid env (drawn db), event_identifier = eventIdentifier a,
      event_emitterId = emitterIdentifier a, event_targetUserId = target_user (ea_target a),
      event_folderId = target_folder (ea_target a), event_objectKey = target_object (ea_target a),
      event_data = ea_data a, event_aggregationKey = None, event_createdAt = now, event_handledAt = None\<rparr> = ?e"
    using q by (simp add: enqueue_event_row_def enqueue_args_def)
  have ins: "insert_event ?e ?d1 = (Inr (), ?d2)" using none by (simp add: insert_event_def)
  have "fst (write_event ?enq env now a None db) = Inl NoReturn"
    unfolding write_event_def bind_draw Let_def no_aggregation [OF q] e
    unfolding tx_then_def tx_bind_def [of "insert_event ?e"] ins prod.case sum.case
    by (rule no_return_bind, rule c)
  then show ?case
    by (simp add: emitRunnable_def a emitEventStep_def admit_enqueue [OF q] bind_lift)
qed

text \<open>An app that is subscribed to the enqueue event of worker tasks and answers it with a
  worker task of its own makes every such emission recurse for ever: no amount of fuel gives a
  result, so no worker task can be enqueued any more.\<close>

theorem emission_never_returns:
  assumes "apps env = p # ps" and "echo_app p" and "inj (uuid env)" and "fresh_events env db"
    and "handlerType x = ''runtime''"
  shows "fst (emitRunnableTaskEnqueuedEvent n env now x db) = Inl NoReturn"
  unfolding emitRunnableTaskEnqueuedEvent_def by (rule emit_echo [OF assms])

end
