(* ===== verification/Task_Schedules.thy ===== *)
theory Task_Schedules
  imports Task_Requeue
begin

text \<open>
  The poll of the schedules: a schedule fires once in each of its buckets, and two triggers of an
  app with the same key, task and schedule stop the schedules of all apps.
\<close>

section \<open>One schedule\<close>

definition schedule_row :: "task_env \<Rightarrow> int \<Rightarrow> app \<Rightarrow> schedule_trigger \<Rightarrow> string option \<Rightarrow> task_def \<Rightarrow> int \<Rightarrow> string \<Rightarrow> task" where
  "schedule_row env now p st rid d b i =
     (blank_task env i (app_identifier p) (td_identifier d) (td_description d)
        (ScheduleTrigger \<lparr>sc_triggerKey = st_triggerKey st, sc_config = schedule_json (st_config st),
           sc_timestampBucket = iso env b, sc_runtimeTriggerId = rid\<rparr>)
        (JObj []) (td_handlerType d) now) \<lparr>handlerIdentifier := td_handlerIdentifier d\<rparr>"

text \<open>The key of a bucket: the registered trigger is not part of it.\<close>

definition schedule_key :: "task_env \<Rightarrow> app \<Rightarrow> schedule_trigger \<Rightarrow> task_def \<Rightarrow> int \<Rightarrow> string" where
  "schedule_key env p st d b = buildTaskIdempotencyKey (hash env) (app_identifier p) (td_identifier d)
     (ScheduleTrigger \<lparr>sc_triggerKey = st_triggerKey st, sc_config = schedule_json (st_config st),
        sc_timestampBucket = iso env b, sc_runtimeTriggerId = None\<rparr>)"

lemma schedule_row_key [simp]: "idempotencyKey (schedule_row env now p st rid d b i) = schedule_key env p st d b"
  by (simp add: schedule_row_def schedule_key_def blank_task_def buildTaskIdempotencyKey_def)

lemma schedule_row_sel:
  "ownerId (schedule_row env now p st rid d b i) = app_identifier p"
  "taskIdentifier (schedule_row env now p st rid d b i) = td_identifier d"
  "task_createdAt (schedule_row env now p st rid d b i) = now"
  by (simp_all add: schedule_row_def blank_task_def)

definition fired :: "task_env \<Rightarrow> app \<Rightarrow> schedule_trigger \<Rightarrow> task_def \<Rightarrow> int \<Rightarrow> task_table \<Rightarrow> bool" where
  "fired env p st d b t \<longleftrightarrow> (\<exists>y \<in> snd ` set t. ownerId y = app_identifier p \<and> taskIdentifier y = td_identifier d
     \<and> idempotencyKey y = schedule_key env p st d b \<and> b \<le> task_createdAt y)"

lemma try_cases:
  "tryEnqueueScheduleTask env now (p, st, rid) db =
    (case getUtcScheduleBucket env (st_config st) now of
       Inl e \<Rightarrow> (Inl (Thrown e), db)
     | Inr b \<Rightarrow> (case find_task_def p (st_taskIdentifier st) of
         None \<Rightarrow> (Inr [], db)
       | Some d \<Rightarrow> (Inr (if fired env p st d b (tasks db) then []
                         else [schedule_row env now p st rid d b (uuid env (drawn db))]),
                     db\<lparr>drawn := Suc (drawn db)\<rparr>)))"
proof (cases "getUtcScheduleBucket env (st_config st) now")
  case (Inr b)
  show ?thesis
  proof (cases "find_task_def p (st_taskIdentifier st)")
    case (Some d)
    let ?x = "schedule_row env now p st rid d b (uuid env (drawn db))"
    let ?p = "\<lambda>y. ownerId y = app_identifier p \<and> taskIdentifier y = taskIdentifier ?x
        \<and> idempotencyKey y = idempotencyKey ?x \<and> b \<le> task_createdAt y"
    have "find ?p (map snd (tasks db)) = None \<longleftrightarrow> \<not> fired env p st d b (tasks db)"
      unfolding find_None_iff fired_def schedule_row_key
      by (auto simp: schedule_row_def blank_task_def)
    then show ?thesis
      using Inr Some
      by (auto simp: tryEnqueueScheduleTask_def tx_lift_def tx_bind_def tx_return_def draw_uuid_def Let_def
          find_task_where_def schedule_row_def [symmetric] split: option.split)
  qed (simp add: Inr tryEnqueueScheduleTask_def tx_lift_def tx_bind_def tx_return_def)
qed (simp add: tryEnqueueScheduleTask_def tx_lift_def tx_bind_def tx_throw_def)

section \<open>All schedules\<close>

abbreviation all_schedules :: "task_env \<Rightarrow> (app \<times> schedule_trigger \<times> string option) list" where
  "all_schedules env \<equiv> config_schedules env @ runtime_schedules env"

text \<open>The keys a poll collects.\<close>

definition due_keys :: "task_env \<Rightarrow> int \<Rightarrow> task_table \<Rightarrow> app \<times> schedule_trigger \<times> string option \<Rightarrow> string list" where
  "due_keys env now t = (\<lambda>(p, st, rid). case getUtcScheduleBucket env (st_config st) now of
     Inl e \<Rightarrow> []
   | Inr b \<Rightarrow> (case find_task_def p (st_taskIdentifier st) of
       None \<Rightarrow> []
     | Some d \<Rightarrow> if fired env p st d b t then [] else [schedule_key env p st d b]))"

lemma collect_schedules:
  "\<exists>r k. tx_collect (tryEnqueueScheduleTask env now) ss db = (r, db\<lparr>drawn := k\<rparr>)
     \<and> (\<forall>xs. r = Inr xs \<longrightarrow> map idempotencyKey xs = concat (map (due_keys env now (tasks db)) ss))
     \<and> r \<noteq> Inl NoReturn"
proof (induction ss arbitrary: db)
  case Nil
  show ?case by (intro exI [of _ "Inr []"] exI [of _ "drawn db"]) (simp add: tx_return_def)
next
  case (Cons s ss)
  obtain p st rid where s: "s = (p, st, rid)" by (cases s)
  show ?case
  proof (cases "tryEnqueueScheduleTask env now s db")
    case (Pair r1 db1)
    obtain k1 where k1: "db1 = db\<lparr>drawn := k1\<rparr>"
    proof -
      have "\<exists>k. db1 = db\<lparr>drawn := k\<rparr>"
        using Pair unfolding s try_cases by (auto split: sum.splits option.splits intro: exI [of _ "drawn db"])
      then show thesis using that by blast
    qed
    show ?thesis
    proof (cases r1)
      case (Inl e)
      then have "e \<noteq> NoReturn" using Pair unfolding s try_cases by (auto split: sum.splits option.splits)
      then show ?thesis
        using Inl Pair k1 by (intro exI [of _ "Inl e"] exI [of _ k1]) (simp add: tx_bind_def)
    next
      case (Inr ys)
      have ys: "map idempotencyKey ys = due_keys env now (tasks db) s"
        using Pair Inr unfolding s try_cases due_keys_def by (auto split: sum.splits option.splits)
      obtain r k where r: "tx_collect (tryEnqueueScheduleTask env now) ss db1 = (r, db1\<lparr>drawn := k\<rparr>)"
        "\<And>xs. r = Inr xs \<Longrightarrow> map idempotencyKey xs = concat (map (due_keys env now (tasks db1)) ss)"
        "r \<noteq> Inl NoReturn"
        using Cons.IH [of db1] by blast
      then show ?thesis
        using Pair Inr ys k1
        by (intro exI [of _ "case r of Inl e \<Rightarrow> Inl e | Inr zs \<Rightarrow> Inr (ys @ zs)"] exI [of _ k])
          (auto simp: tx_bind_def tx_return_def split: sum.split)
    qed
  qed
qed

lemma insert_all_keys:
  "insert_all xs t = Some t' \<Longrightarrow> distinct (map idempotencyKey xs)
     \<and> (\<forall>x \<in> set xs. idempotencyKey x \<notin> (idempotencyKey \<circ> snd) ` set t)"
proof (induction xs arbitrary: t)
  case (Cons x xs)
  obtain u where u: "insert_task x t = Some u" "insert_all xs u = Some t'"
    using Cons.prems by (auto split: option.splits)
  have "idempotencyKey x \<notin> (idempotencyKey \<circ> snd) ` set t" "u = t @ [(task_id x, x)]"
    using u(1) by (auto simp: insert_task_def split: if_splits)
  then show ?case using Cons.IH [OF u(2)] by auto
qed simp

text \<open>An app that has two schedule triggers with the same key, task and schedule, one of its
  configuration and one that it registered, or two of either, stops the schedules of every app:
  their rows have the same idempotency key, the one insert of the poll fails, and no task of any
  schedule is created, at this poll and at every later one.\<close>

theorem schedule_collision:
  assumes "all_schedules env = as @ (p, st, r) # bs @ (p, st, r') # cs"
    and "getUtcScheduleBucket env (st_config st) now = Inr b"
    and "find_task_def p (st_taskIdentifier st) = Some d" and "\<not> fired env p st d b (tasks db)"
  shows "tasks (snd (processScheduledTaskTriggers n busy env now db)) = tasks db
    \<and> events (snd (processScheduledTaskTriggers n busy env now db)) = events db"
proof -
  obtain c k where c: "tx_collect (tryEnqueueScheduleTask env now) (all_schedules env) db = (c, db\<lparr>drawn := k\<rparr>)"
    "\<And>xs. c = Inr xs \<Longrightarrow> map idempotencyKey xs = concat (map (due_keys env now (tasks db)) (all_schedules env))"
    "c \<noteq> Inl NoReturn"
    using collect_schedules [of env now "all_schedules env" db] by blast
  show ?thesis
  proof (cases c)
    case (Inl e)
    then show ?thesis
      using c(1,3) by (cases e) (simp_all add: processScheduledTaskTriggers_def tx_catch_def tx_bind_def tx_return_def)
  next
    case (Inr xs)
    have "\<not> distinct (map idempotencyKey xs)"
      using c(2) [OF Inr] assms by (simp add: due_keys_def)
    then have none: "insert_all xs (tasks db) = None"
      using insert_all_keys by (cases "insert_all xs (tasks db)") blast+
    have "transaction (schedule_batch n env now xs) (db\<lparr>drawn := k\<rparr>)
        = (Inl (Thrown ''duplicate key value violates unique constraint''), db\<lparr>drawn := k, outside := []\<rparr>)"
      using none by (simp add: transaction_def schedule_batch_def tx_then_def tx_bind_def insert_tasks_def)
    then show ?thesis
      using c(1) Inr by (simp add: processScheduledTaskTriggers_def tx_catch_def tx_bind_def tx_return_def tx_when_def)
  qed
qed

section \<open>Once per bucket\<close>

lemma fired_grows: "fired env p st d b t \<Longrightarrow> grows t t' \<Longrightarrow> table_ok env t \<Longrightarrow> fired env p st d b t'"
proof -
  assume f: "fired env p st d b t" and g: "grows t t'" and ok: "table_ok env t"
  obtain i y where y: "(i, y) \<in> set t" "ownerId y = app_identifier p" "taskIdentifier y = td_identifier d"
      "idempotencyKey y = schedule_key env p st d b" "b \<le> task_createdAt y"
    using f by (auto simp: fired_def)
  have "map_of t i = Some y" using y(1) ok by (simp add: table_ok_def)
  from grows_lookup [OF g this] obtain z where z: "map_of t' i = Some z" "row_evolves y z" by blast
  have "z \<in> snd ` set t'" using map_of_SomeD [OF z(1)] by force
  then show ?thesis using y z(2) unfolding fired_def by (intro bexI [of _ z]) (simp_all add: row_evolves_def)
qed

text \<open>cron-parser: the last fire strictly before a time.\<close>

definition cron_before :: "task_env \<Rightarrow> bool" where
  "cron_before env \<longleftrightarrow> (\<forall>x z t s. cron_prev env x z t = Inr s \<longrightarrow> s < t)"

lemma bucket_before:
  assumes "cron_before env" and "getUtcScheduleBucket env c now = Inr b"
  shows "b \<le> now"
proof (cases c)
  case (IntervalSchedule m u)
  then obtain i where i: "getUtcTimestampBucket m u now = Inr (i, b)"
    using assms(2) by (cases "getUtcTimestampBucket m u now") auto
  then have m: "0 < m" "b = now div 1000 div (m * UNIT_SECONDS u) * (m * UNIT_SECONDS u) * 1000"
    by (auto simp: getUtcTimestampBucket_def Let_def split: if_splits)
  have "now div 1000 div (m * UNIT_SECONDS u) * (m * UNIT_SECONDS u) \<le> now div 1000"
    using m(1) pos_mod_sign [of "m * UNIT_SECONDS u" "now div 1000"]
      div_mult_mod_eq [of "now div 1000" "m * UNIT_SECONDS u"] by (smt (verit) mult_pos_pos unit_seconds_pos)
  then show ?thesis using m(2) by linarith
next
  case (CronSchedule x z)
  then obtain s where s: "cron_prev env x (case z of None \<Rightarrow> ''UTC'' | Some tz \<Rightarrow> tz) (now + 1) = Inr s" "b = s - s mod 60000"
    using assms(2) by (cases "cron_prev env x (case z of None \<Rightarrow> ''UTC'' | Some tz \<Rightarrow> tz) (now + 1)") auto
  then have "s < now + 1" using assms(1) unfolding cron_before_def by blast
  then show ?thesis using s(2) pos_mod_sign [of 60000 s] by simp
qed

text \<open>The rows of the table survive what a batch does after its insert.\<close>

definition elems_kept :: "task_db \<Rightarrow> task_db \<Rightarrow> bool" where
  "elems_kept db db' \<longleftrightarrow> set (tasks db) \<subseteq> set (tasks db')"

interpretation elems: task_store elems_kept env for env
proof
  show "elems_kept db db" for db by (simp add: elems_kept_def)
  show "elems_kept a b \<Longrightarrow> elems_kept b c \<Longrightarrow> elems_kept a c" for a b c by (auto simp: elems_kept_def)
  show "tx_keeps elems_kept (send n)" "tx_keeps elems_kept (draw_uuid env)" "tx_keeps elems_kept (insert_event e)"
    for n e env by (auto simp: tx_keeps_def send_def draw_uuid_def insert_event_def elems_kept_def)
  show "tx_keeps elems_kept (insert_tasks xs)" for xs
    by (auto simp: tx_keeps_def insert_tasks_def elems_kept_def dest!: insert_all_append split: option.split)
  show "tx_keeps elems_kept (insert_outside x)" for x
    by (auto simp: tx_keeps_def insert_outside_def elems_kept_def dest!: insert_task_append split: option.split)
qed

lemma batch_inserts:
  assumes "schedule_batch n env now xs db = (Inr (), db')" and "x \<in> set xs"
  shows "(task_id x, x) \<in> set (tasks db')"
proof -
  let ?f = "\<lambda>x. if handlerType x = ''runtime'' \<or> handlerType x = ''docker''
                     then emitRunnableTaskEnqueuedEvent n env now x else tx_return ()"
  obtain db1 where 1: "insert_tasks xs db = (Inr (), db1)" and 2: "tx_each ?f xs db1 = (Inr (), db')"
    using assms(1) unfolding schedule_batch_def by (rule tx_thenE)
  have "tx_keeps elems_kept (tx_each ?f xs)"
    by (intro elems.keeps_each elems.keeps_if elems.enqueued_keeps elems.keeps_pure)
  from tx_keepsD [OF this, of db1] have "elems_kept db1 db'" unfolding 2 by simp
  moreover have "(task_id x, x) \<in> set (tasks db1)"
    using 1 assms(2) by (auto simp: insert_tasks_def dest!: insert_all_append split: option.splits)
  ultimately show ?thesis by (auto simp: elems_kept_def)
qed

text \<open>What a poll collects for a schedule that has a bucket and a task.\<close>

lemma collected_row:
  assumes "tx_collect (tryEnqueueScheduleTask env now) ss db = (Inr xs, db')" and "(p, st, rid) \<in> set ss"
    and "getUtcScheduleBucket env (st_config st) now = Inr b" and "find_task_def p (st_taskIdentifier st) = Some d"
  shows "fired env p st d b (tasks db)
    \<or> (\<exists>x \<in> set xs. ownerId x = app_identifier p \<and> taskIdentifier x = td_identifier d
         \<and> idempotencyKey x = schedule_key env p st d b \<and> task_createdAt x = now)"
  using assms(1,2)
proof (induction ss arbitrary: db xs)
  case (Cons s ss)
  obtain ys db1 zs where y: "tryEnqueueScheduleTask env now s db = (Inr ys, db1)"
    and z: "tx_collect (tryEnqueueScheduleTask env now) ss db1 = (Inr zs, db')" and xs: "xs = ys @ zs"
    using Cons.prems(1) by (auto simp: tx_return_def elim!: tx_bindE)
  have tab: "tasks db1 = tasks db"
    using y by (cases s) (auto simp: try_cases split: sum.splits option.splits)
  show ?case
  proof (cases "s = (p, st, rid)")
    case True
    have "schedule_row env now p st rid d b i \<in> set xs \<or> fired env p st d b (tasks db)" if "i = uuid env (drawn db)" for i
      using y that unfolding True try_cases assms(3,4) xs by (auto split: if_splits)
    then show ?thesis
      using schedule_row_sel by (metis schedule_row_key)
  next
    case False
    then show ?thesis using Cons.IH [OF z] Cons.prems(2) tab xs by auto
  qed
qed simp

text \<open>A poll that finds every bucket fired does nothing.\<close>

lemma poll_nothing:
  assumes "\<And>p st rid b d. (p, st, rid) \<in> set (all_schedules env) \<Longrightarrow>
     getUtcScheduleBucket env (st_config st) now = Inr b \<Longrightarrow>
     find_task_def p (st_taskIdentifier st) = Some d \<Longrightarrow> fired env p st d b (tasks db)"
  shows "tasks (snd (processScheduledTaskTriggers n busy env now db)) = tasks db"
proof -
  obtain c k where c: "tx_collect (tryEnqueueScheduleTask env now) (all_schedules env) db = (c, db\<lparr>drawn := k\<rparr>)"
    "\<And>xs. c = Inr xs \<Longrightarrow> map idempotencyKey xs = concat (map (due_keys env now (tasks db)) (all_schedules env))"
    using collect_schedules [of env now "all_schedules env" db] by blast
  have "due_keys env now (tasks db) s = []" if "s \<in> set (all_schedules env)" for s
    using assms that by (cases s) (auto simp: due_keys_def split: sum.split option.split)
  then have "concat (map (due_keys env now (tasks db)) (all_schedules env)) = []"
    by (simp only: concat_eq_Nil_conv set_map) auto
  then have "xs = []" if "c = Inr xs" for xs using c(2) [OF that] by (metis map_is_Nil_conv)
  then show ?thesis
    using c(1) by (cases c) (auto simp: processScheduledTaskTriggers_def tx_catch_def tx_bind_def tx_return_def
        tx_when_def split: tx_error.split)
qed

text \<open>C22: A schedule fires at most once in a bucket: after a poll whose batch was inserted, whatever
  operations follow, a poll in the same buckets creates no task, whether the tasks of the first
  one are waiting, running or done.\<close>

theorem schedule_once:
  assumes "task_reachable n cenv env db" and "processors_keep cenv env" and "cron_before env"
    and "tx_collect (tryEnqueueScheduleTask env now) (all_schedules env) db = (Inr xs, db0)" and "xs \<noteq> []"
    and "transaction (schedule_batch n env now xs) db0 = (Inr (), db1)"
    and "list_all (\<lambda>s. getUtcScheduleBucket env (st_config (fst (snd s))) now'
        = getUtcScheduleBucket env (st_config (fst (snd s))) now) (all_schedules env)"
  shows "tasks (task_step n cenv env (now, PollSchedules False) db) = tasks db1
    \<and> (let db2 = fold (task_step n cenv env) es (task_step n cenv env (now, PollSchedules False) db)
       in tasks (task_step n cenv env (now', PollSchedules busy) db2) = tasks db2)"
proof -
  let ?db = "task_step n cenv env (now, PollSchedules False) db"
  have poll: "?db = db1"
    using assms(4,5,6) by (simp add: task_step_def processScheduledTaskTriggers_def tx_catch_def tx_bind_def
        tx_when_def)
  have ok: "db_ok env db" by (rule reachable_ok [OF assms(1,2)])
  then have ok1: "db_ok env db1" and g: "grows (tasks db) (tasks db1)"
    using task_step_keeps [OF assms(2), of db n "(now, PollSchedules False)"] unfolding poll
    by (simp_all add: op_rel_def)
  obtain e where e: "schedule_batch n env now xs (db0\<lparr>outside := []\<rparr>) = (Inr (), e)" "db1 = e\<lparr>outside := []\<rparr>"
    using assms(6) by (rule transaction_Inr)
  have fired1: "fired env p st d b (tasks db1)"
    if s: "(p, st, rid) \<in> set (all_schedules env)" "getUtcScheduleBucket env (st_config st) now = Inr b"
      "find_task_def p (st_taskIdentifier st) = Some d" for p st rid b d
    using collected_row [OF assms(4) s]
  proof
    assume "fired env p st d b (tasks db)"
    then show ?thesis by (rule fired_grows) (use g ok in \<open>simp_all add: db_ok_def\<close>)
  next
    assume "\<exists>x \<in> set xs. ownerId x = app_identifier p \<and> taskIdentifier x = td_identifier d
         \<and> idempotencyKey x = schedule_key env p st d b \<and> task_createdAt x = now"
    then obtain x where x: "x \<in> set xs" "ownerId x = app_identifier p" "taskIdentifier x = td_identifier d"
      "idempotencyKey x = schedule_key env p st d b" "task_createdAt x = now" by blast
    have "(task_id x, x) \<in> set (tasks db1)" using batch_inserts [OF e(1) x(1)] by (simp add: e(2))
    then have "x \<in> snd ` set (tasks db1)" by (rule image_eqI [rotated]) simp
    then show ?thesis
      using x bucket_before [OF assms(3) s(2)] unfolding fired_def by blast
  qed
  let ?db2 = "fold (task_step n cenv env) es db1"
  have g2: "grows (tasks db1) (tasks ?db2)" using run_grows [OF assms(2) ok1] by blast
  have fired2: "fired env p st d b (tasks ?db2)"
    if s: "(p, st, rid) \<in> set (all_schedules env)" "getUtcScheduleBucket env (st_config st) now' = Inr b"
      "find_task_def p (st_taskIdentifier st) = Some d" for p st rid b d
  proof -
    have "getUtcScheduleBucket env (st_config st) now = Inr b"
      using assms(7) s(1,2) unfolding list_all_iff by fastforce
    then show ?thesis
      by (rule fired_grows [OF fired1 [OF s(1) _ s(3)] g2]) (use ok1 in \<open>simp add: db_ok_def\<close>)
  qed
  from poll_nothing [OF fired2] show ?thesis
    unfolding poll Let_def by (simp add: task_step_def)
qed

end
