(* ===== verification/Task_Drain.thy ===== *)
theory Task_Drain
  imports Task_Requeue
begin

text \<open>
  The drain of the core tasks: it comes to an end with every waiting task completed when the
  processors neither touch the tables nor hang, and it stops early, leaving tasks behind, when a
  processor is missing.
\<close>

section \<open>Operations that leave the task table alone\<close>

definition still :: "task_db \<Rightarrow> task_db \<Rightarrow> bool" where
  "still db db' \<longleftrightarrow> tasks db' = tasks db \<and> outside db' = outside db \<and> runningTasksCount db' = runningTasksCount db"

interpretation still: tx_relation still
  by standard (simp_all add: still_def)

lemma still_prims: "tx_keeps still (send n)" "tx_keeps still (draw_uuid env)" "tx_keeps still (insert_event e)"
  by (auto simp: tx_keeps_def still_def send_def draw_uuid_def insert_event_def)

text \<open>No enabled app has subscribed to an event of the platform.\<close>

definition quiet :: "task_env \<Rightarrow> bool" where
  "quiet env \<longleftrightarrow> list_all (\<lambda>p. app_enabled p \<longrightarrow> subscribedCoreEvents p = []) (apps env) \<and> runtime_triggers env = []"

lemma quiet_emit:
  assumes "quiet env" and "emitterIdentifier a = CORE_IDENTIFIER" and "ea_target a = NoTarget"
    and "eventIdentifier a \<in> {''task_completed'', ''task_failed''}"
  shows "tx_keeps still (emitEventInTx n s env now a)"
proof (cases n)
  case (Suc k)
  have subs: "subscribed_apps env a p = []" for p
    using assms(1,2) by (auto simp: subscribed_apps_def quiet_def list_all_iff filter_empty_conv)
  have rows: "runtime_event_rows env a p = []" for p
    using assms(1) by (simp add: runtime_event_rows_def quiet_def List.map_filter_simps)
  have agg: "event_aggregation env a = None"
    using assms(4) by (auto simp: event_aggregation_def getCoreEventAggregationConfig_def)
  have core: "core_event_tasks env e = []" if "event_identifier e = eventIdentifier a" for e
    using assms(4) that by (auto simp: core_event_tasks_def)
  have "tx_keeps still (write_event enq env now a p)" for enq p
    unfolding write_event_def Let_def subs rows agg gatherCoreTasksForEvent_def announce_event_def
    by (simp add: core assms(2) tx_when_def bind_return then_return)
      (intro still.keeps_rules still_prims)
  then show ?thesis
    unfolding Suc emitEventInTx.simps emitEventStep_def
    by (intro still.keeps_rules) auto
qed (simp add: still.keeps_pure)

lemma still_transaction:
  assumes "tx_keeps still m"
  shows "tasks (snd (transaction m db)) = tasks db \<and> runningTasksCount (snd (transaction m db)) = runningTasksCount db"
  using tx_keepsD [OF assms, of "db\<lparr>outside := []\<rparr>"]
  by (auto simp: transaction_def still_def split: prod.split sum.split)

lemma telemetry_still:
  assumes "quiet env" and "ownerId x = CORE_IDENTIFIER"
  shows "tasks (snd (emitTaskCompletionTelemetry n env now x db)) = tasks db
    \<and> runningTasksCount (snd (emitTaskCompletionTelemetry n env now x db)) = runningTasksCount db"
proof (cases "success x")
  case (Some ok)
  let ?a = "\<lparr>emitterIdentifier = ownerId x, eventIdentifier = (if ok then ''task_completed'' else ''task_failed''),
     ea_data = JObj [(''taskIdentifier'', JStr (taskIdentifier x)),
       (''durationMs'', case (startedAt x, completedAt x) of (Some s, Some t) \<Rightarrow> JNum (of_int (t - s)) | _ \<Rightarrow> JNull),
       (''attemptCount'', nat_json (attemptCount x))], ea_target = NoTarget\<rparr>"
  have "tx_keeps still (emitEventInTx n True env now ?a)"
    using assms by (intro quiet_emit) auto
  from still_transaction [OF this, of db] show ?thesis
    by (simp add: emitTaskCompletionTelemetry_def Some emitEvent_def admit_event_def tx_bind_def tx_lift_def
        tx_return_def tx_throw_def assms(2) split: option.split sum.split)
qed (simp add: emitTaskCompletionTelemetry_def tx_return_def)

section \<open>One core task\<close>

text \<open>A completion that neither requeues nor creates a task cannot fail.\<close>

lemma complete_plain:
  assumes x: "map_of (tasks db) i = Some x" "startedAt x \<noteq> None" "completedAt x = None" "success x = None"
    and "inv_onComplete (invocation x) = []" and "\<not> requeue_requested c"
  shows "registerTaskCompletedInTx n env now i c db = (Inr (completed_row env now False c x),
    db\<lparr>tasks := update_task i (completed_row env now False c) (tasks db),
       sent := sent db @ [TaskUpdate (completed_row env now False c x) (if succeeded c then task_completed else task_failed) now None]\<rparr>)"
proof -
  have q: "should_requeue x c = False" using assms(6) by (simp add: should_requeue_def)
  obtain t where t: "startedAt x = Some t" using x(2) by auto
  show ?thesis
    using x(1,3,4) t assms(5) by (simp add: registerTaskCompletedInTx_def find_task_def tx_bind_def Let_def q
        update_where_def tx_then_def tx_when_def tx_return_def run_on_complete_def send_def)
qed

lemma complete_quiet:
  assumes "quiet env" and x: "map_of (tasks db) i = Some x" "startedAt x \<noteq> None" "completedAt x = None" "success x = None"
    and "inv_onComplete (invocation x) = []" and "ownerId x = CORE_IDENTIFIER" and "\<not> requeue_requested c"
  shows "\<exists>y db'. registerTaskCompleted n env now i c db = (Inr y, db')
    \<and> tasks db' = update_task i (completed_row env now False c) (tasks db)
    \<and> runningTasksCount db' = runningTasksCount db"
proof -
  let ?f = "completed_row env now False c"
  let ?db = "db\<lparr>outside := [], tasks := update_task i ?f (tasks db),
      sent := sent db @ [TaskUpdate (?f x) (if succeeded c then task_completed else task_failed) now None]\<rparr>"
  have "transaction (registerTaskCompletedInTx n env now i c) db = (Inr (?f x), ?db)"
    using complete_plain [of "db\<lparr>outside := []\<rparr>" i x c] assms by (simp add: transaction_def)
  then show ?thesis
    using telemetry_still [of env "?f x" n now ?db] assms(1,7)
    by (simp add: registerTaskCompleted_def tx_bind_def tx_then_def tx_detached_def tx_return_def)
qed

text \<open>A processor that returns or throws and leaves the task tables alone.\<close>

definition calm :: "(task \<Rightarrow> unit txm) \<Rightarrow> bool" where
  "calm run \<longleftrightarrow> (\<forall>x. tx_keeps still (run x) \<and> (\<forall>db. fst (run x db) \<noteq> Inl NoReturn))"

abbreviation started_row :: "int \<Rightarrow> task \<Rightarrow> task" where
  "started_row now x \<equiv> x\<lparr>startedAt := Some now, task_updatedAt := now,
     systemLog := systemLog x @ [log_of now ''started'' ''Task is started''
       (Some (JObj [(''executorMetadata'', system_metadata)]))]\<rparr>"

lemma update_task_twice: "update_task i g (update_task i f t) = update_task i (\<lambda>x. g (f x)) t"
  by (auto simp: update_task_def)

lemma start_core_exact:
  assumes "map_of (tasks db) i = Some x"
  shows "transaction (start_core_task now i) db =
    (Inr (Some (x\<lparr>startedAt := Some now, task_updatedAt := now\<rparr>)),
     db\<lparr>outside := [], tasks := update_task i (started_row now) (tasks db)\<rparr>)"
  using assms
  by (simp add: transaction_def start_core_task_def tx_bind_def update_where_def tx_return_def map_of_update_task
      update_task_twice)

text \<open>A waiting task that the drain can run to its end.\<close>

definition ready_task :: "core_env \<Rightarrow> task \<Rightarrow> bool" where
  "ready_task cenv x \<longleftrightarrow> completedAt x = None \<and> success x = None \<and> inv_onComplete (invocation x) = []
     \<and> (\<exists>run. processors cenv (taskIdentifier x) = Some (True, run) \<and> (\<forall>now. calm (run now)))"

lemma notify_exact:
  obtains d where "notify_folder y e = (Inr (), d)" "tasks d = tasks e" "runningTasksCount d = runningTasksCount e"
  by (cases "truthy (targetFolderId y)") (simp_all add: notify_folder_def send_def tx_return_def)

lemma run_processor_quiet:
  assumes "quiet env" and y: "taskIdentifier y = taskIdentifier x" "task_id y = i"
    and x: "map_of (tasks db) i = Some x" "startedAt x \<noteq> None" "completedAt x = None" "success x = None"
      "inv_onComplete (invocation x) = []" "ownerId x = CORE_IDENTIFIER" and run: "calm run"
  shows "\<exists>c db'. run_processor n cenv env now y True run db = (Inr (), db')
    \<and> tasks db' = update_task i (completed_row env now False c) (tasks db)
    \<and> runningTasksCount db' = runningTasksCount db \<and> \<not> requeue_requested c"
proof -
  obtain r d where d: "run y db = (r, d)" by (cases "run y db")
  have s: "still db d" and nr: "r \<noteq> Inl NoReturn"
    using run d tx_keepsD [of still "run y" db] unfolding calm_def by (metis fst_conv snd_conv)+
  have complete: "\<exists>v db'. registerTaskCompleted n env now (task_id y) c d = (Inr v, db')
      \<and> tasks db' = update_task i (completed_row env now False c) (tasks db)
      \<and> runningTasksCount db' = runningTasksCount db" if "\<not> requeue_requested c" for c
    using complete_quiet [OF assms(1), of d i x c n now] x s y(2) that by (simp add: still_def)
  define c where "c = (case r of Inr u \<Rightarrow> Succeeded None system_metadata
    | Inl (Thrown e) \<Rightarrow> Failed None (toEnvelope cenv (taskIdentifier y) e) system_metadata
    | Inl NoReturn \<Rightarrow> Succeeded None system_metadata)"
  have c: "\<not> requeue_requested c" by (simp add: c_def split: sum.split tx_error.split)
  obtain v d2 where d2: "registerTaskCompleted n env now (task_id y) c d = (Inr v, d2)"
    "tasks d2 = update_task i (completed_row env now False c) (tasks db)" "runningTasksCount d2 = runningTasksCount db"
    using complete [OF c] by blast
  have "run_processor n cenv env now y True run db = notify_folder y d2"
    using nr d d2(1)
    by (auto simp: run_processor_def tx_bind_def tx_handle_def tx_then_def c_def split: sum.splits tx_error.splits)
  moreover obtain d3 where "notify_folder y d2 = (Inr (), d3)" "tasks d3 = tasks d2" "runningTasksCount d3 = runningTasksCount d2"
    by (rule notify_exact)
  ultimately show ?thesis using d2(2,3) c by auto
qed

lemma completed_row_done:
  "\<not> requeue_requested c \<Longrightarrow> completedAt (completed_row env now False c x) = Some now
    \<and> startedAt (completed_row env now False c x) = startedAt x"
  by (cases c) (auto simp: completed_row_def Let_def)

lemma execute_quiet:
  assumes "quiet env" and x: "map_of (tasks db) i = Some x" and "startable_core_task now x"
    and "ready_task cenv x" and "task_id x = i"
  shows "\<exists>g db'. executeCoreTask n cenv env now i db = (Inr (), db') \<and> tasks db' = update_task i g (tasks db)
    \<and> runningTasksCount db' = runningTasksCount db
    \<and> completedAt (g x) = Some now \<and> startedAt (g x) \<noteq> None"
proof -
  let ?y = "x\<lparr>startedAt := Some now, task_updatedAt := now\<rparr>"
  let ?d = "db\<lparr>outside := [], tasks := update_task i (started_row now) (tasks db)\<rparr>"
  obtain run where p: "processors cenv (taskIdentifier x) = Some (True, run)" "calm (run now)"
    using assms(4) by (auto simp: ready_task_def)
  have st: "startedAt x = None" "ownerId x = CORE_IDENTIFIER"
    using assms(3) by (simp_all add: startable_core_task_def)
  obtain d1 where d1: "notify_folder ?y ?d = (Inr (), d1)" "tasks d1 = tasks ?d" "runningTasksCount d1 = runningTasksCount db"
    using notify_exact [of ?y ?d] by auto
  have row: "map_of (tasks (count_running Suc d1)) i = Some (started_row now x)"
    using x d1(2) by (simp add: count_running_def map_of_update_task)
  obtain c d2 where d2: "run_processor n cenv env now ?y True (run now) (count_running Suc d1) = (Inr (), d2)"
    "tasks d2 = update_task i (completed_row env now False c) (tasks (count_running Suc d1))"
    "runningTasksCount d2 = Suc (runningTasksCount db)" "\<not> requeue_requested c"
    using run_processor_quiet [OF assms(1) _ _ row _ _ _ _ _ p(2), of ?y n cenv now] assms(4,5) st d1(3)
    by (auto simp: ready_task_def count_running_def)
  have "executeCoreTask n cenv env now i db = (Inr (), count_running (\<lambda>k. k - 1) d2)"
    using x st d1(1) d2(1) p(1)
    by (simp add: executeCoreTask_def tx_bind_def find_task_def start_core_exact [OF x] tx_then_def tx_finally_def)
  moreover have "tasks d2 = update_task i (\<lambda>z. completed_row env now False c (started_row now z)) (tasks db)"
    using d2(2) d1(2) by (simp add: count_running_def update_task_twice)
  ultimately show ?thesis
    using d2(3) completed_row_done [OF d2(4), of env now "started_row now x"]
    by (intro exI [of _ "\<lambda>z. completed_row env now False c (started_row now z)"]
        exI [of _ "count_running (\<lambda>k. k - 1) d2"]) (simp add: count_running_def)
qed

section \<open>The whole drain\<close>

definition ready :: "core_env \<Rightarrow> int \<Rightarrow> task_table \<Rightarrow> bool" where
  "ready cenv now t \<longleftrightarrow> distinct (map fst t)
     \<and> (\<forall>(i, x) \<in> set t. startable_core_task now x \<longrightarrow> ready_task cenv x \<and> task_id x = i)"

lemma startable_update:
  assumes "distinct (map fst t)" and "map_of t i = Some x" and "startedAt (g x) \<noteq> None"
  shows "startable_ids now (update_task i g t) = filter (\<lambda>j. j \<noteq> i) (startable_ids now t)"
proof -
  have "startable_ids now (update_task i g u) = filter (\<lambda>j. j \<noteq> i) (startable_ids now u)" if "set u \<subseteq> set t" for u
    using that
  proof (induction u)
    case (Cons p u)
    obtain j z where p: "p = (j, z)" by (cases p)
    have "j = i \<Longrightarrow> z = x"
      using Cons.prems assms(1) map_of_SomeD [OF assms(2)] p eq_key_imp_eq_value by fastforce
    then show ?case
      using Cons assms(3) p by (auto simp: startable_ids_def update_task_def startable_core_task_def)
  qed (simp add: startable_ids_def update_task_def)
  then show ?thesis by blast
qed

lemma ready_update:
  assumes "ready cenv now t" and "map_of t i = Some x" and "startedAt (g x) \<noteq> None"
  shows "ready cenv now (update_task i g t)"
proof -
  have "map fst (update_task i g t) = map fst t" by (simp add: update_task_map o_def)
  moreover have "ready_task cenv z \<and> task_id z = j"
    if z: "(j, z) \<in> set (update_task i g t)" "startable_core_task now z" for j z
  proof -
    obtain u where u: "(j, u) \<in> set t" "z = (if j = i then g u else u)"
      using z(1) by (auto simp: update_task_def split: if_splits)
    have "u = x" if "j = i"
      using u(1) that assms(1) map_of_SomeD [OF assms(2)] eq_key_imp_eq_value by (fastforce simp: ready_def)
    then have "j \<noteq> i" using z(2) u(2) assms(3) by (auto simp: startable_core_task_def)
    then show ?thesis using u z(2) assms(1) by (auto simp: ready_def)
  qed
  ultimately show ?thesis using assms(1) by (auto simp: ready_def)
qed

lemma startable_row:
  assumes "ready cenv now t" and "i \<in> set (startable_ids now t)"
  obtains x where "map_of t i = Some x" "startable_core_task now x" "ready_task cenv x" "task_id x = i"
proof -
  obtain x where x: "(i, x) \<in> set t" "startable_core_task now x" using assms(2) by (auto simp: startable_ids_def)
  moreover have "map_of t i = Some x" using x(1) assms(1) by (simp add: ready_def)
  ultimately show thesis using that [of x] assms(1) by (fastforce simp: ready_def)
qed

lemma each_quiet:
  assumes "quiet env"
  shows "ready cenv now (tasks db) \<Longrightarrow> set ids \<subseteq> set (startable_ids now (tasks db)) \<Longrightarrow> distinct ids \<Longrightarrow>
    \<exists>db'. tx_each (executeCoreTask n cenv env now) ids db = (Inr (), db') \<and> ready cenv now (tasks db')
      \<and> startable_ids now (tasks db') = filter (\<lambda>j. j \<notin> set ids) (startable_ids now (tasks db))
      \<and> runningTasksCount db' = runningTasksCount db
      \<and> (\<forall>j. map_of (tasks db') j = map_of (tasks db) j \<or>
             j \<in> set ids \<and> (\<exists>y. map_of (tasks db') j = Some y \<and> completedAt y = Some now))"
proof (induction ids arbitrary: db)
  case Nil
  then show ?case by (simp add: tx_return_def)
next
  case (Cons i ids)
  obtain x where x: "map_of (tasks db) i = Some x" "startable_core_task now x" "ready_task cenv x" "task_id x = i"
    using startable_row [OF Cons.prems(1)] Cons.prems(2) by auto
  obtain g d where d: "executeCoreTask n cenv env now i db = (Inr (), d)" "tasks d = update_task i g (tasks db)"
    "runningTasksCount d = runningTasksCount db" "completedAt (g x) = Some now" "startedAt (g x) \<noteq> None"
    using execute_quiet [OF assms x] by blast
  have r: "ready cenv now (tasks d)" using ready_update [of cenv now "tasks db" i x g] Cons.prems(1) x(1) d(2,5) by simp
  have s: "startable_ids now (tasks d) = filter (\<lambda>j. j \<noteq> i) (startable_ids now (tasks db))"
    using startable_update [of "tasks db" i x g now] Cons.prems(1) x(1) d(2,5) by (simp add: ready_def)
  have sub: "set ids \<subseteq> set (startable_ids now (tasks d))" "distinct ids" using Cons.prems s by auto
  obtain e where e: "tx_each (executeCoreTask n cenv env now) ids d = (Inr (), e)" "ready cenv now (tasks e)"
    "startable_ids now (tasks e) = filter (\<lambda>j. j \<notin> set ids) (startable_ids now (tasks d))"
    "runningTasksCount e = runningTasksCount d"
    "\<And>j. map_of (tasks e) j = map_of (tasks d) j \<or> j \<in> set ids \<and> (\<exists>y. map_of (tasks e) j = Some y \<and> completedAt y = Some now)"
    using Cons.IH [OF r sub] by blast
  have "map_of (tasks e) j = map_of (tasks db) j \<or>
      j \<in> set (i # ids) \<and> (\<exists>y. map_of (tasks e) j = Some y \<and> completedAt y = Some now)" for j
    using e(5) [of j] d(2,4) x(1) by (auto simp: map_of_update_task split: if_splits)
  moreover have "startable_ids now (tasks e) = filter (\<lambda>j. j \<notin> set (i # ids)) (startable_ids now (tasks db))"
    unfolding e(3) s by (simp add: conj_commute)
  ultimately show ?case
    using d(1,3) e(1,2,4) by (intro exI [of _ e]) (simp add: tx_then_def tx_bind_def)
qed

lemma startable_distinct: "ready cenv now t \<Longrightarrow> distinct (startable_ids now t)"
  unfolding ready_def startable_ids_def by (metis distinct_map_filter)

lemma filter_not_taken: "distinct xs \<Longrightarrow> filter (\<lambda>j. j \<notin> set (take l xs)) xs = drop l xs"
proof -
  assume "distinct xs"
  then have "set (take l xs) \<inter> set (drop l xs) = {}" by (metis append_take_drop_id distinct_append)
  then have "filter (\<lambda>j. j \<notin> set (take l xs)) (take l xs @ drop l xs) = drop l xs"
    by (auto simp: filter_empty_conv filter_id_conv simp del: append_take_drop_id)
  then show ?thesis by simp
qed

lemma drain_quiet:
  assumes "quiet env"
  shows "ready cenv now (tasks db) \<Longrightarrow> runningTasksCount db < MAX_CONCURRENT_CORE_TASKS \<Longrightarrow>
    length (startable_ids now (tasks db)) < k \<Longrightarrow>
    \<exists>db'. startDrainCoreTasks k n cenv env now False db = (Inr (), db') \<and> startable_ids now (tasks db') = []
      \<and> (\<forall>j. map_of (tasks db') j = map_of (tasks db) j \<or>
             j \<in> set (startable_ids now (tasks db)) \<and> (\<exists>y. map_of (tasks db') j = Some y \<and> completedAt y = Some now))"
proof (induction k arbitrary: db)
  case (Suc k)
  let ?l = "MAX_CONCURRENT_CORE_TASKS - runningTasksCount db"
  let ?s = "startable_ids now (tasks db)"
  let ?ids = "take ?l ?s"
  have dist: "distinct ?s" by (rule startable_distinct [OF Suc.prems(1)])
  obtain e where e: "tx_each (executeCoreTask n cenv env now) ?ids db = (Inr (), e)" "ready cenv now (tasks e)"
    "startable_ids now (tasks e) = filter (\<lambda>j. j \<notin> set ?ids) ?s" "runningTasksCount e = runningTasksCount db"
    "\<And>j. map_of (tasks e) j = map_of (tasks db) j \<or> j \<in> set ?ids \<and> (\<exists>y. map_of (tasks e) j = Some y \<and> completedAt y = Some now)"
    using each_quiet [OF assms Suc.prems(1) set_take_subset [of ?l ?s] distinct_take [OF dist], of n] by blast
  have rest: "startable_ids now (tasks e) = drop ?l ?s" unfolding e(3) by (rule filter_not_taken [OF dist])
  have drain: "tx_handle (drainCoreTasks n cenv env now) (\<lambda>x. tx_return (0, 0)) db
      = (Inr (length ?ids, length (startable_ids now (tasks e))), e)"
    by (simp add: tx_handle_def drainCoreTasks_def Let_def tx_then_def tx_bind_def e(1) unstartedCoreTaskCount_def
        tx_return_def)
  show ?case
  proof (cases "startable_ids now (tasks e) = []")
    case True
    then show ?thesis
      using drain e(5) set_take_subset [of ?l ?s]
      by (auto simp: tx_bind_def tx_return_def intro!: exI [of _ e])
  next
    case False
    have len: "length (startable_ids now (tasks e)) < k"
      using Suc.prems(2,3) False unfolding rest by simp
    obtain f where f: "startDrainCoreTasks k n cenv env now False e = (Inr (), f)" "startable_ids now (tasks f) = []"
      "\<And>j. map_of (tasks f) j = map_of (tasks e) j \<or>
          j \<in> set (startable_ids now (tasks e)) \<and> (\<exists>y. map_of (tasks f) j = Some y \<and> completedAt y = Some now)"
      using Suc.IH [OF e(2) _ len] Suc.prems(2) e(4) by auto
    have "map_of (tasks f) j = map_of (tasks db) j \<or>
        j \<in> set ?s \<and> (\<exists>y. map_of (tasks f) j = Some y \<and> completedAt y = Some now)" for j
      using f(3) [of j] e(5) [of j] set_take_subset [of ?l ?s] set_drop_subset [of ?l ?s] unfolding rest by auto
    then show ?thesis
      using drain False f(1,2) by (intro exI [of _ f]) (simp add: tx_bind_def)
  qed
qed simp

text \<open>C34: A drain of the core tasks that starts in a quiet system comes to an end and completes every
  waiting task.  Quiet means: nobody has subscribed to the platform's events, every waiting task has
  a registered processor whose completion the service registers, the processors return or throw and
  leave the task table alone, and fewer than ten tasks run already.  The drain then needs no more
  rounds than there are waiting tasks, and afterwards none is waiting.  (A waiting task without a
  processor ends the drain early: \<open>missing_processor_stops_drain\<close>.)\<close>

theorem drain_completes:
  assumes "quiet env" and "ready cenv now (tasks db)" and "runningTasksCount db < MAX_CONCURRENT_CORE_TASKS"
    and "length (startable_ids now (tasks db)) < k"
  shows "\<exists>db'. startDrainCoreTasks k n cenv env now False db = (Inr (), db')
    \<and> startable_ids now (tasks db') = []
    \<and> list_all (\<lambda>i. \<exists>y. map_of (tasks db') i = Some y \<and> completedAt y = Some now) (startable_ids now (tasks db))"
proof -
  obtain db' where d: "startDrainCoreTasks k n cenv env now False db = (Inr (), db')" "startable_ids now (tasks db') = []"
    "\<And>j. map_of (tasks db') j = map_of (tasks db) j \<or>
        j \<in> set (startable_ids now (tasks db)) \<and> (\<exists>y. map_of (tasks db') j = Some y \<and> completedAt y = Some now)"
    using drain_quiet [OF assms] by blast
  have "\<exists>y. map_of (tasks db') i = Some y \<and> completedAt y = Some now" if i: "i \<in> set (startable_ids now (tasks db))" for i
  proof (rule ccontr)
    assume "\<not> ?thesis"
    then have same: "map_of (tasks db') i = map_of (tasks db) i" using d(3) [of i] by auto
    obtain x where "map_of (tasks db) i = Some x" "startable_core_task now x"
      using startable_row [OF assms(2) i] by blast
    then have "i \<in> set (startable_ids now (tasks db'))"
      using same map_of_SomeD [of "tasks db'" i x] by (force simp: startable_ids_def)
    then show False by (simp add: d(2))
  qed
  then show ?thesis using d(1,2) by (auto simp: list_all_iff)
qed

section \<open>A missing processor\<close>

text \<open>A waiting task whose processor is not registered (yet) ends the drain: the task stays
  started for ever, and the tasks behind it wait for the next drain although they could run.\<close>

theorem missing_processor_stops_drain:
  assumes "startable_ids now (tasks db) = i # is" and "map_of (tasks db) i = Some x"
    and "processors cenv (taskIdentifier x) = None" and "runningTasksCount db < MAX_CONCURRENT_CORE_TASKS"
    and "distinct (map fst (tasks db))"
  shows "\<exists>db' y. startDrainCoreTasks (Suc k) n cenv env now False db = (Inr (), db')
    \<and> startable_ids now (tasks db') = is
    \<and> map_of (tasks db') i = Some y \<and> startedAt y = Some now \<and> completedAt y = completedAt x"
proof -
  let ?y = "x\<lparr>startedAt := Some now, task_updatedAt := now\<rparr>"
  let ?d = "db\<lparr>outside := [], tasks := update_task i (started_row now) (tasks db)\<rparr>"
  obtain d where d: "notify_folder ?y ?d = (Inr (), d)" "tasks d = tasks ?d" by (rule notify_exact)
  have "(i, x) \<in> set (tasks db)" by (rule map_of_SomeD [OF assms(2)])
  moreover have "i \<in> set (startable_ids now (tasks db))" by (simp add: assms(1))
  then obtain z where "(i, z) \<in> set (tasks db)" "startable_core_task now z" by (auto simp: startable_ids_def)
  ultimately have x: "startable_core_task now x" using eq_key_imp_eq_value [OF assms(5)] by blast
  have i: "startable_ids now (tasks d) = is"
  proof -
    have "startable_ids now (tasks d) = filter (\<lambda>j. j \<noteq> i) (i # is)"
      using startable_update [OF assms(5,2), of "started_row now" now] d(2) assms(1) by simp
    moreover have "distinct (i # is)" using assms(1,5) unfolding startable_ids_def by (metis distinct_map_filter)
    ultimately show ?thesis by (simp add: filter_id_conv) (metis filter_True)
  qed
  have "executeCoreTask n cenv env now i db = (Inl (Thrown ''Processor not found''), d)"
    using assms(2,3) x d(1)
    by (simp add: executeCoreTask_def tx_bind_def find_task_def start_core_exact [OF assms(2)] tx_then_def tx_throw_def
        startable_core_task_def)
  then have "tx_handle (drainCoreTasks n cenv env now) (\<lambda>x. tx_return (0, 0)) db = (Inr (0, 0), d)"
    using assms(1,4)
    by (cases "MAX_CONCURRENT_CORE_TASKS - runningTasksCount db")
      (simp_all add: tx_handle_def drainCoreTasks_def Let_def tx_then_def tx_bind_def tx_return_def)
  then have "startDrainCoreTasks (Suc k) n cenv env now False db = (Inr (), d)"
    by (simp add: tx_bind_def tx_return_def)
  then show ?thesis
    using i d(2) assms(2) by (intro exI [of _ d] exI [of _ "started_row now x"]) (simp add: map_of_update_task)
qed

end
