(* ===== verification/Task_Atomic.thy ===== *)
theory Task_Atomic
  imports Task_Emission
begin

text \<open>
  A completion and the triggering of a task are all or nothing: when they throw, the tables are
  as before.  The events they emit never schedule notifications, so nothing is inserted outside
  their transaction.
\<close>

definition outside_kept :: "task_db \<Rightarrow> task_db \<Rightarrow> bool" where
  "outside_kept db db' \<longleftrightarrow> outside db' = outside db"

interpretation outside: tx_relation outside_kept
  by standard (simp_all add: outside_kept_def)

lemma outside_prims: "tx_keeps outside_kept (send n)" "tx_keeps outside_kept (draw_uuid env)"
    "tx_keeps outside_kept (insert_event e)" "tx_keeps outside_kept (insert_tasks xs)"
    "tx_keeps outside_kept (update_where i p f)"
  by (auto simp: tx_keeps_def outside_kept_def send_def draw_uuid_def insert_event_def insert_tasks_def
      update_where_def split: option.split)

lemmas outside_rules = outside.keeps_rules outside_prims

lemma outside_prod: "(\<And>x y. tx_keeps outside_kept (f x y)) \<Longrightarrow> tx_keeps outside_kept (case v of (x, y) \<Rightarrow> f x y)"
  by (cases v) simp

lemma outside_trigger: "(\<And>tr. tx_keeps outside_kept (f tr)) \<Longrightarrow> (\<And>st. tx_keeps outside_kept (g st)) \<Longrightarrow>
    tx_keeps outside_kept h \<Longrightarrow>
    tx_keeps outside_kept (case v of EventTrig tr \<Rightarrow> f tr | ScheduleTrig st \<Rightarrow> g st | UserActionTrig \<Rightarrow> h)"
  by (cases v) simp_all

lemma enqueue_outside: "enqueue_args a \<Longrightarrow> tx_keeps outside_kept (emitEventInTx n s env now a)"
proof (induction n arbitrary: s a)
  case (Suc n)
  have enq: "tx_keeps outside_kept (emitRunnable (emitEventInTx n False env now) env x)" for x
    unfolding emitRunnable_def
    by (intro outside.keeps_option outside.keeps_pure Suc.IH) (rule runnable_enqueue)
  have "tx_keeps outside_kept (write_event (emitRunnable (emitEventInTx n False env now) env) env now a p)" for p
    unfolding write_event_def no_aggregation [OF Suc.prems] option.simps Let_def config_tasks_def runtime_tasks_def
      buildEventTriggeredTask_def gatherCoreTasksForEvent_def announce_tasks_def announce_event_def
    by (intro outside_rules outside_prod outside_trigger enq)
  then show ?case
    unfolding emitEventInTx.simps emitEventStep_def by (intro outside_rules)
qed (simp add: outside.keeps_pure)

lemma enqueued_outside: "tx_keeps outside_kept (emitRunnableTaskEnqueuedEvent n env now x)"
  unfolding emitRunnableTaskEnqueuedEvent_def emitRunnable_def
  by (intro outside.keeps_option outside.keeps_pure enqueue_outside) (rule runnable_enqueue)

lemma insert_enqueue_outside: "tx_keeps outside_kept (insert_and_enqueue n env now x)"
  unfolding insert_and_enqueue_def by (intro outside_rules enqueued_outside)

lemma on_complete_outside: "tx_keeps outside_kept (executeOnCompleteHandler n env now p ok k h)"
  by (cases h) (auto simp: executeOnCompleteHandler.simps Let_def intro!: outside_rules insert_enqueue_outside)

lemma completed_outside: "tx_keeps outside_kept (registerTaskCompletedInTx n env now i c)"
  unfolding registerTaskCompletedInTx_def run_on_complete_def Let_def
  by (intro outside_rules outside_prod enqueued_outside on_complete_outside)

text \<open>A transaction whose body inserts nothing outside restores the tables when it throws.\<close>

lemma transaction_atomic:
  assumes "tx_keeps outside_kept m" and "fst (transaction m db) = Inl e"
  shows "tasks (snd (transaction m db)) = tasks db \<and> events (snd (transaction m db)) = events db"
  using assms tx_keepsD [OF assms(1), of "db\<lparr>outside := []\<rparr>"]
  by (auto simp: transaction_def outside_kept_def split: prod.splits sum.splits)

text \<open>C33: A completion that throws, for whatever reason, has not happened: the row, the children and
  the events are those of before the call.\<close>

theorem completion_atomic:
  assumes "fst (registerTaskCompleted n env now i c db) = Inl e"
  shows "tasks (snd (registerTaskCompleted n env now i c db)) = tasks db
    \<and> events (snd (registerTaskCompleted n env now i c db)) = events db"
proof (cases "transaction (registerTaskCompletedInTx n env now i c) db")
  case (Pair r db')
  show ?thesis
  proof (cases r)
    case (Inl e')
    then show ?thesis
      using transaction_atomic [OF completed_outside, of n env now i c db e'] Pair
      by (simp add: registerTaskCompleted_def tx_bind_def)
  next
    case (Inr x)
    then show ?thesis
      using assms Pair by (simp add: registerTaskCompleted_def tx_bind_def tx_then_def tx_detached_def tx_return_def)
  qed
qed

text \<open>Likewise the triggering of a task by an app or for a user.\<close>

lemma trigger_atomic:
  assumes "fst (tx_bind (draw_uuid env) (\<lambda>i. transaction (insert_and_enqueue n env now (x i))) db) = Inl e"
  shows "tasks (snd (tx_bind (draw_uuid env) (\<lambda>i. transaction (insert_and_enqueue n env now (x i))) db)) = tasks db"
  using assms transaction_atomic [OF insert_enqueue_outside, of n env now "x (uuid env (drawn db))" "db\<lparr>drawn := Suc (drawn db)\<rparr>" e]
  by (simp add: bind_draw)

end
