(* ===== verification/Task_Broadcast.thy ===== *)
theory Task_Broadcast
  imports Task_Completion
begin

text \<open>
  The broadcast of task updates to the sockets (packages/api,
  task/services/task-update-broadcaster.service.ts): progress updates wait 300 ms and are replaced
  by later ones of the same task, all other updates are sent at once and cancel a waiting one.
\<close>

section \<open>Updates\<close>

fun type_name :: "update_type \<Rightarrow> string" where
  "type_name task_started = ''task_started''"
| "type_name task_progress = ''task_progress''"
| "type_name task_completed = ''task_completed''"
| "type_name task_requeued = ''task_requeued''"
| "type_name task_failed = ''task_failed''"

fun taskUpdateDescriptionForType :: "update_type \<Rightarrow> task \<Rightarrow> string" where
  "taskUpdateDescriptionForType task_started x = ''Task started: '' @ taskIdentifier x"
| "taskUpdateDescriptionForType task_progress x = ''Task progress: '' @ taskIdentifier x"
| "taskUpdateDescriptionForType task_completed x = ''Task completed: '' @ taskIdentifier x"
| "taskUpdateDescriptionForType task_failed x = ''Task failed: '' @ taskIdentifier x"
| "taskUpdateDescriptionForType task_requeued x = ''Task requeued: '' @ taskIdentifier x"

fun TASK_UPDATE_AUDIENCES_MAP :: "update_type \<Rightarrow> audience" where
  "TASK_UPDATE_AUDIENCES_MAP task_started = System"
| "TASK_UPDATE_AUDIENCES_MAP task_completed = User"
| "TASK_UPDATE_AUDIENCES_MAP task_failed = User"
| "TASK_UPDATE_AUDIENCES_MAP task_progress = User"
| "TASK_UPDATE_AUDIENCES_MAP task_requeued = System"

definition PROGRESS_THROTTLE_MS :: int where "PROGRESS_THROTTLE_MS = 300"

record task_update =
  tu_task :: task
  tu_type :: update_type
  tu_message :: update_message
  tu_progress :: "json option"
  tu_receivedAt :: int

definition build_update :: "task \<Rightarrow> update_type \<Rightarrow> int \<Rightarrow> progress_report option \<Rightarrow> task_update" where
  "build_update x ty ts report =
     \<lparr>tu_task = x, tu_type = ty,
      tu_message = (case Option.bind report pr_message of
          Some m \<Rightarrow> m
        | None \<Rightarrow> \<lparr>um_level = (if ty = task_failed then Error else Info),
             um_text = taskUpdateDescriptionForType ty x,
             um_audience = TASK_UPDATE_AUDIENCES_MAP ty\<rparr>),
      tu_progress = (case Option.bind report pr_details of
          Some d \<Rightarrow> Some d
        | None \<Rightarrow> if ty = task_completed then Some (JObj [(''percent'', JNum 100)]) else None),
      tu_receivedAt = ts\<rparr>"

section \<open>Frames\<close>

datatype frame =
    ServerFrame string task_update
  | FolderFrame string string task_update
  | UserFrame string string task_update
  | AppUserFrame string string "string option" string task_update
      \<comment> \<open>update code, user, folder, app\<close>

definition UPDATE_CODE_PREFIX :: string where "UPDATE_CODE_PREFIX = ''platform:tasks:''"

definition emit_frames :: "task_update \<Rightarrow> frame list" where
  "emit_frames u =
     (let x = tu_task u in
      [ServerFrame (task_id x) u] @
      (if truthy (targetFolderId x) then [FolderFrame (the (targetFolderId x)) (task_id x) u] else []) @
      (if truthy (targetUserId x)
       then [UserFrame (the (targetUserId x)) (task_id x) u] @
            (if ownerId x \<noteq> CORE_IDENTIFIER
             then [AppUserFrame (UPDATE_CODE_PREFIX @ type_name (tu_type u)) (the (targetUserId x))
                     (targetFolderId x) (ownerId x) u]
             else [])
       else []))"

section \<open>The broadcaster\<close>

text \<open>\<open>progressTimers\<close> holds the due time and the update of the waiting timer of a task,
  \<open>emitted\<close> the updates sent so far.\<close>

record broadcaster =
  progressTimers :: "(string, int \<times> task_update) js_map"
  emitted :: "task_update list"

definition new_broadcaster :: broadcaster where
  "new_broadcaster = \<lparr>progressTimers = [], emitted = []\<rparr>"

definition handleTaskUpdate :: "task \<Rightarrow> update_type \<Rightarrow> int \<Rightarrow> progress_report option \<Rightarrow> int \<Rightarrow>
    broadcaster \<Rightarrow> broadcaster" where
  "handleTaskUpdate x ty ts report now b =
     (let u = build_update x ty ts report in
      if ty = task_progress
      then b\<lparr>progressTimers := map_set (task_id x) (now + PROGRESS_THROTTLE_MS, u)
               (map_delete (task_id x) (progressTimers b))\<rparr>
      else b\<lparr>progressTimers := map_delete (task_id x) (progressTimers b), emitted := emitted b @ [u]\<rparr>)"

text \<open>The timer of a task goes off, at its due time or later.\<close>

definition fire_timer :: "string \<Rightarrow> int \<Rightarrow> broadcaster \<Rightarrow> broadcaster" where
  "fire_timer i now b = (case map_of (progressTimers b) i of
       Some (due, u) \<Rightarrow> if due \<le> now
         then b\<lparr>progressTimers := map_delete i (progressTimers b), emitted := emitted b @ [u]\<rparr> else b
     | None \<Rightarrow> b)"

datatype broadcast_event = Update task update_type int "progress_report option" | Fire string

definition broadcast_step :: "int \<times> broadcast_event \<Rightarrow> broadcaster \<Rightarrow> broadcaster" where
  "broadcast_step e b = (case e of
       (now, Update x ty ts r) \<Rightarrow> handleTaskUpdate x ty ts r now b
     | (now, Fire i) \<Rightarrow> fire_timer i now b)"

lemma broadcast_step_simps [simp]:
  "broadcast_step (now, Update x ty ts r) b = handleTaskUpdate x ty ts r now b"
  "broadcast_step (now, Fire i) b = fire_timer i now b"
  by (simp_all add: broadcast_step_def)

definition broadcast_run :: "(int \<times> broadcast_event) list \<Rightarrow> broadcaster" where
  "broadcast_run es = fold broadcast_step es new_broadcaster"

definition sent_frames :: "broadcaster \<Rightarrow> frame list" where
  "sent_frames b = concat (map emit_frames (emitted b))"

text \<open>The updates of a task that were handed over, and those that were sent.\<close>

fun updates_of :: "string \<Rightarrow> (int \<times> broadcast_event) list \<Rightarrow> task_update list" where
  "updates_of i [] = []"
| "updates_of i ((now, Update x ty ts r) # es) =
     (if task_id x = i then [build_update x ty ts r] else []) @ updates_of i es"
| "updates_of i ((now, Fire j) # es) = updates_of i es"

definition emitted_of :: "string \<Rightarrow> broadcaster \<Rightarrow> task_update list" where
  "emitted_of i b = filter (\<lambda>u. task_id (tu_task u) = i) (emitted b)"

abbreviation lifecycle :: "task_update \<Rightarrow> bool" where
  "lifecycle u \<equiv> tu_type u \<noteq> task_progress"

section \<open>The order of the updates of a task\<close>

text \<open>Everything sent for the task, then what waits, is a subsequence of what was handed over;
  a waiting update is a progress update of the task whose timer holds it.\<close>

definition waiting_of :: "string \<Rightarrow> broadcaster \<Rightarrow> task_update list" where
  "waiting_of i b = (case map_of (progressTimers b) i of None \<Rightarrow> [] | Some (due, u) \<Rightarrow> [u])"

definition ordered :: "(int \<times> broadcast_event) list \<Rightarrow> broadcaster \<Rightarrow> bool" where
  "ordered es b \<longleftrightarrow> (\<forall>i. subseq (emitted_of i b @ waiting_of i b) (updates_of i es)
     \<and> filter lifecycle (emitted_of i b) = filter lifecycle (updates_of i es))
   \<and> (\<forall>i due u. map_of (progressTimers b) i = Some (due, u) \<longrightarrow>
        task_id (tu_task u) = i \<and> tu_type u = task_progress)"

lemma updates_of_append: "updates_of i (es @ fs) = updates_of i es @ updates_of i fs"
  by (induction i es rule: updates_of.induct) auto

lemma build_update_sel [simp]:
  "tu_task (build_update x ty ts r) = x" "tu_type (build_update x ty ts r) = ty"
  by (simp_all add: build_update_def)

lemma subseq_drop_waiting: "subseq (xs @ ys) zs \<Longrightarrow> subseq xs zs"
  by (metis list_emb_appendD list_emb_append2 subseq_append_iff subseq_order.dual_order.trans
      subseq_rev_drop_many subseq_order.order_refl)

lemma ordered_update:
  assumes "ordered es b"
  shows "ordered (es @ [(now, Update x ty ts r)]) (handleTaskUpdate x ty ts r now b)"
  unfolding ordered_def
proof (intro conjI allI impI)
  fix i
  have sub: "subseq (emitted_of i b @ waiting_of i b) (updates_of i es)"
    and life: "filter lifecycle (emitted_of i b) = filter lifecycle (updates_of i es)"
    using assms by (simp_all add: ordered_def)
  have sent: "subseq (emitted_of i b) (updates_of i es)" using sub by (rule subseq_drop_waiting)
  show "subseq (emitted_of i (handleTaskUpdate x ty ts r now b) @ waiting_of i (handleTaskUpdate x ty ts r now b))
      (updates_of i (es @ [(now, Update x ty ts r)]))"
  proof (cases "task_id x = i")
    case True
    then show ?thesis
      using sent by (simp add: handleTaskUpdate_def emitted_of_def waiting_of_def updates_of_append Let_def
          subseq_append_iff [symmetric] list_emb_append_mono)
  next
    case False
    then show ?thesis
      using sub by (simp add: handleTaskUpdate_def emitted_of_def waiting_of_def updates_of_append Let_def)
  qed
  show "filter lifecycle (emitted_of i (handleTaskUpdate x ty ts r now b)) =
      filter lifecycle (updates_of i (es @ [(now, Update x ty ts r)]))"
    using life by (auto simp: handleTaskUpdate_def emitted_of_def updates_of_append Let_def)
next
  fix i due u
  assume "map_of (progressTimers (handleTaskUpdate x ty ts r now b)) i = Some (due, u)"
  then show "task_id (tu_task u) = i" "tu_type u = task_progress"
    using assms by (auto simp: handleTaskUpdate_def ordered_def Let_def split: if_splits)
qed

lemma ordered_fire:
  assumes "ordered es b"
  shows "ordered (es @ [(now, Fire j)]) (fire_timer j now b)"
proof (cases "map_of (progressTimers b) j")
  case None
  then show ?thesis using assms by (simp add: fire_timer_def ordered_def updates_of_append)
next
  case (Some p)
  obtain due u where p: "p = (due, u)" by (cases p)
  have u: "task_id (tu_task u) = j" "tu_type u = task_progress"
    using assms Some p by (simp_all add: ordered_def)
  show ?thesis
  proof (cases "due \<le> now")
    case False
    then show ?thesis using assms Some p by (simp add: fire_timer_def ordered_def updates_of_append)
  next
    case True
    have "emitted_of i (fire_timer j now b) @ waiting_of i (fire_timer j now b)
        = emitted_of i b @ waiting_of i b" for i
      using True Some p u by (cases "j = i") (simp_all add: fire_timer_def emitted_of_def waiting_of_def)
    moreover have "filter lifecycle (emitted_of i (fire_timer j now b)) = filter lifecycle (emitted_of i b)" for i
      using True Some p u by (simp add: fire_timer_def emitted_of_def)
    ultimately show ?thesis
      using assms True Some p by (auto simp: ordered_def updates_of_append fire_timer_def split: if_splits)
  qed
qed

lemma ordered_run: "ordered es (broadcast_run es)"
proof (induction es rule: rev_induct)
  case Nil
  then show ?case
    by (simp add: ordered_def broadcast_run_def new_broadcaster_def emitted_of_def waiting_of_def)
next
  case (snoc e es)
  obtain now a where e: "e = (now, a)" by (cases e)
  show ?case
    using snoc.IH ordered_update ordered_fire
    by (cases a) (simp_all add: broadcast_run_def e)
qed

text \<open>The updates of a task leave in the order in which they came: what is sent is a subsequence
  of what was handed over, with every lifecycle update in it; so no progress update comes after
  the completion it preceded.\<close>

theorem broadcast_in_order:
  "subseq (emitted_of i (broadcast_run es)) (updates_of i es)
   \<and> filter lifecycle (emitted_of i (broadcast_run es)) = filter lifecycle (updates_of i es)"
  using ordered_run [of es] subseq_drop_waiting by (auto simp: ordered_def)

section \<open>A steady stream of progress is never sent\<close>

text \<open>Reports of one task at the given times, the timers firing whenever they can.\<close>

fun report_events :: "task \<Rightarrow> (int \<times> progress_report) list \<Rightarrow> (int \<times> broadcast_event) list" where
  "report_events x [] = []"
| "report_events x ((t, r) # rs) =
     [(t, Fire (task_id x)), (t, Update x task_progress t (Some r))] @ report_events x rs"

fun close_gaps :: "(int \<times> progress_report) list \<Rightarrow> bool" where
  "close_gaps ((t, r) # (t', r') # rs) \<longleftrightarrow> t' - t < PROGRESS_THROTTLE_MS \<and> close_gaps ((t', r') # rs)"
| "close_gaps _ \<longleftrightarrow> True"

lemma starved:
  assumes "close_gaps ((t, r) # rs)" and "emitted b = []"
    and "map_of (progressTimers b) (task_id x) = Some (t + PROGRESS_THROTTLE_MS, u)"
  shows "emitted (fold broadcast_step (report_events x rs) b) = []"
  using assms
proof (induction rs arbitrary: t r b u)
  case (Cons p rs)
  obtain t' r' where p: "p = (t', r')" by (cases p)
  let ?b = "handleTaskUpdate x task_progress t' (Some r') t' b"
  have fire: "fire_timer (task_id x) t' b = b"
    using Cons.prems p by (simp add: fire_timer_def)
  have "emitted (fold broadcast_step (report_events x rs) ?b) = []"
    by (rule Cons.IH [where t = t' and r = r' and u = "build_update x task_progress t' (Some r')"])
      (use Cons.prems p in \<open>simp_all add: handleTaskUpdate_def Let_def\<close>)
  then show ?case by (simp add: p fire)
qed simp

text \<open>The 300 ms are a debounce, not a throttle: as long as the reports of a task follow one
  another in less than 300 ms, none is ever sent.\<close>

theorem progress_starvation:
  assumes "close_gaps rs"
  shows "emitted (broadcast_run (report_events x rs)) = []"
proof (cases rs)
  case (Cons p ps)
  obtain t r where p: "p = (t, r)" by (cases p)
  show ?thesis
    using assms starved [of t r ps "handleTaskUpdate x task_progress t (Some r) t new_broadcaster" x
        "build_update x task_progress t (Some r)"]
    by (simp add: Cons p broadcast_run_def fire_timer_def new_broadcaster_def
        handleTaskUpdate_def Let_def)
qed (simp add: broadcast_run_def new_broadcaster_def)

end
