(* ===== verification/Task_Agent.thy ===== *)
theory Task_Agent
  imports Task_Requeue Task_Atomic
begin

text \<open>
  What the runners and the calls of a job agent achieve: both tasks get their outcome in one
  transaction, errors of the platform are kept from the task of the app, an agent can do nothing
  after it completed its job, and the telemetry of a completion that is rolled back.
\<close>

section \<open>Completions in the transaction of a caller\<close>

lemma completed_tx_effect:
  assumes "registerTaskCompletedTx n env now i c db = (Inr y, db')"
  shows "\<exists>x. map_of (tasks db) i = Some x \<and> startedAt x \<noteq> None \<and> completedAt x = None
    \<and> map_of (tasks db') i = Some y \<and> completion_done now c x y
    \<and> (\<forall>j z. j \<noteq> i \<longrightarrow> map_of (tasks db) j = Some z \<longrightarrow> map_of (tasks db') j = Some z)"
proof -
  obtain d where "registerTaskCompletedInTx n env now i c db = (Inr y, d)" "tasks db' = tasks d"
    using assms by (auto simp: registerTaskCompletedTx_def send_def tx_return_def elim!: tx_bindE tx_thenE)
  then show ?thesis using completed_in_tx_effect by simp
qed

text \<open>Two completions of different tasks: each does what it does alone.\<close>

lemma two_completions:
  assumes a: "registerTaskCompletedTx n env now i ci db = (Inr u, d)"
    and b: "registerTaskCompletedTx n env now j cj d = (Inr v, d')"
    and y: "map_of (tasks db) j = Some y" and ij: "i \<noteq> j"
  shows "\<exists>x. map_of (tasks db) i = Some x \<and> startedAt x \<noteq> None \<and> completedAt x = None
    \<and> startedAt y \<noteq> None \<and> completedAt y = None
    \<and> map_of (tasks d') i = Some u \<and> map_of (tasks d') j = Some v
    \<and> completion_done now ci x u \<and> completion_done now cj y v"
  using completed_tx_effect [OF a] completed_tx_effect [OF b] y ij by fastforce

lemma completed_twice:
  assumes a: "registerTaskCompletedTx n env now i ci db = (Inr u, d)" and c: "\<not> requeue_requested ci"
  shows "registerTaskCompletedTx n env now i cj d \<noteq> (Inr v, d')"
proof
  assume b: "registerTaskCompletedTx n env now i cj d = (Inr v, d')"
  have "completedAt u \<noteq> None"
    using completed_tx_effect [OF a] c by (cases ci) (auto simp: completion_done_def split: option.splits)
  then show False using completed_tx_effect [OF a] completed_tx_effect [OF b] by auto
qed

lemma telemetry_after: "rows_kept (snd (m db)) (snd (with_telemetry n env now m db))"
proof -
  have "tx_keeps rows_kept (tx_each (\<lambda>x. tx_detached (emitTaskCompletionTelemetry n env now x)) xs)" for xs
    by (intro rows.keeps_each rows.keeps_detached telemetry_rows)
  then show ?thesis using tx_keepsD by (cases "m db") (simp add: with_telemetry_def, blast)
qed

lemma with_telemetry_Inr:
  assumes "with_telemetry n env now m db = (Inr y, db')"
  obtains d where "m db = (Inr y, d)" "rows_kept d db'"
proof -
  obtain r d where m: "m db = (r, d)" by (cases "m db")
  then show thesis
    using that [of d] telemetry_after [of m db n env now] assms by (simp add: with_telemetry_def)
qed

section \<open>The completion of a job\<close>

lemma table_ids: "table_ok env t \<Longrightarrow> map_of t i = Some y \<Longrightarrow> task_id y = i"
  using map_of_SomeD by (fastforce simp: table_ok_def)

lemma find_inner_Inr:
  assumes "find_inner x db = (Inr y, db')"
  obtains i where "data_string x ''innerTaskId'' = Some i" "map_of (tasks db) i = Some y" "db' = db"
  using assms by (auto simp: find_inner_def find_task_def tx_throw_def tx_return_def elim!: tx_bindE split: option.splits)

lemma job_completions_final: "\<not> requeue_requested (fst (job_completions c r))" "\<not> requeue_requested (snd (job_completions c r))"
  by (cases r; simp add: Let_def)+

lemma completeJobE:
  assumes ok: "table_ok env (tasks db)" and run: "completeJob n env now c r db = (Inr (), db')"
  obtains d i y d' y' where "map_of (tasks db) (cl_taskId c) = Some d" "data_string d ''innerTaskId'' = Some i"
    "map_of (tasks db) i = Some y" "i \<noteq> cl_taskId c"
    "startedAt d \<noteq> None" "completedAt d = None" "startedAt y \<noteq> None" "completedAt y = None"
    "map_of (tasks db') (cl_taskId c) = Some d'" "map_of (tasks db') i = Some y'"
    "completion_done now (snd (job_completions c r)) d d'" "completion_done now (fst (job_completions c r)) y y'"
proof -
  obtain e where e: "transaction (completeJobInTx n env now c r) db = (Inr (), e)" and kept: "rows_kept e db'"
    using run unfolding completeJob_def by (rule with_telemetry_Inr)
  obtain f where f: "completeJobInTx n env now c r (db\<lparr>outside := []\<rparr>) = (Inr (), f)" and fe: "e = f\<lparr>outside := []\<rparr>"
    using e by (rule transaction_Inr)
  obtain ci cr where c: "job_completions c r = (ci, cr)" by (cases "job_completions c r")
  obtain d where d: "map_of (tasks db) (cl_taskId c) = Some d" "startedAt d \<noteq> None" "completedAt d = None"
    and rest: "tx_bind (find_inner d) (\<lambda>inner. tx_bind (registerTaskCompletedTx n env now (task_id d) cr) (\<lambda>_.
        tx_bind (registerTaskCompletedTx n env now (task_id inner) ci) (\<lambda>_. tx_return ()))) (db\<lparr>outside := []\<rparr>) = (Inr (), f)"
    using f by (auto simp: completeJobInTx_def c find_task_def tx_throw_def elim!: tx_bindE split: option.splits if_splits)
  obtain y u v g h where y: "find_inner d (db\<lparr>outside := []\<rparr>) = (Inr y, g)"
    and u: "registerTaskCompletedTx n env now (task_id d) cr g = (Inr u, h)"
    and v: "registerTaskCompletedTx n env now (task_id y) ci h = (Inr v, f)"
    using rest by (auto simp: tx_return_def elim!: tx_bindE)
  obtain i where i: "data_string d ''innerTaskId'' = Some i" "map_of (tasks db) i = Some y" "g = db\<lparr>outside := []\<rparr>"
    using y by (rule find_inner_Inr) simp
  have ids: "task_id d = cl_taskId c" "task_id y = i"
    using table_ids [OF ok] d(1) i(2) by simp_all
  have "\<not> requeue_requested cr" using job_completions_final(2) [of c r] c by simp
  then have "i \<noteq> cl_taskId c" using completed_twice [OF u] v ids by metis
  then have "\<exists>x. map_of (tasks g) (cl_taskId c) = Some x \<and> startedAt x \<noteq> None \<and> completedAt x = None
    \<and> startedAt y \<noteq> None \<and> completedAt y = None
    \<and> map_of (tasks f) (cl_taskId c) = Some u \<and> map_of (tasks f) i = Some v
    \<and> completion_done now cr x u \<and> completion_done now ci y v"
    using two_completions [OF u v] ids i by simp
  then have both: "map_of (tasks f) (cl_taskId c) = Some u" "map_of (tasks f) i = Some v" "startedAt y \<noteq> None"
    "completedAt y = None" "completion_done now cr d u" "completion_done now ci y v"
    using d(1) i(3) by auto
  have "map_of (tasks db') (cl_taskId c) = Some u" "map_of (tasks db') i = Some v"
    using rows_keptD [OF kept] both(1,2) fe by simp_all
  then show thesis
    using that [of d i y u v] d i \<open>i \<noteq> cl_taskId c\<close> both(3-6) c by simp
qed

text \<open>C19: A completion of a job that returns has completed the core task that ran the job and the
  task of the app, both running before: the task of the app with the outcome that the agent
  reported, and the core task successfully, unless the error is one of the platform.  A requeue
  delay in the report changes nothing.\<close>

theorem complete_job_exact:
  assumes "table_ok env (tasks db)" and "completeJob n env now c r db = (Inr (), db')"
  shows "\<exists>d i y d' y'. map_of (tasks db) (cl_taskId c) = Some d \<and> data_string d ''innerTaskId'' = Some i
    \<and> map_of (tasks db) i = Some y \<and> i \<noteq> cl_taskId c \<and> completedAt d = None \<and> completedAt y = None
    \<and> map_of (tasks db') (cl_taskId c) = Some d' \<and> map_of (tasks db') i = Some y'
    \<and> completedAt d' = Some now \<and> completedAt y' = Some now
    \<and> (case r of
        JobSucceeded v \<Rightarrow> success d' = Some True \<and> success y' = Some True \<and> task_error y' = None
      | JobFailed nm code msg og details requeue \<Rightarrow> success y' = Some False \<and> success d' = Some (og = AppOrigin)
          \<and> (\<exists>e. task_error y' = Some e \<and> err_code e = code \<and> err_message e = msg
               \<and> task_error d' = (if og = AppOrigin then None else Some e)))"
proof -
  obtain d i y d' y' where "map_of (tasks db) (cl_taskId c) = Some d" "data_string d ''innerTaskId'' = Some i"
    "map_of (tasks db) i = Some y" "i \<noteq> cl_taskId c" "completedAt d = None" "completedAt y = None"
    "map_of (tasks db') (cl_taskId c) = Some d'" "map_of (tasks db') i = Some y'"
    and "completion_done now (snd (job_completions c r)) d d'" "completion_done now (fst (job_completions c r)) y y'"
    by (rule completeJobE [OF assms])
  moreover have "err_code (stored_error e) = err_code e \<and> err_message (stored_error e) = err_message e" for e
    by (simp add: stored_error_def)
  ultimately show ?thesis
    by (cases r) (auto simp: completion_done_def Let_def)
qed

lemma complete_job_outside: "tx_keeps outside_kept (completeJobInTx n env now c r)"
  unfolding completeJobInTx_def registerTaskCompletedTx_def find_inner_def split_beta
  by (intro outside_rules completed_outside)

text \<open>A completion of a job that throws has changed no task: neither of the two is completed
  alone.\<close>

theorem complete_job_atomic:
  assumes "completeJob n env now c r db = (Inl e, db')" and "map_of (tasks db) i = Some x"
  shows "map_of (tasks db') i = Some x"
proof -
  let ?m = "transaction (completeJobInTx n env now c r)"
  obtain d where d: "?m db = (Inl e, d)" using assms(1) by (auto simp: completeJob_def with_telemetry_def split: prod.splits)
  have "tasks d = tasks db" using transaction_atomic [OF complete_job_outside, of n env now c r db e] d by simp
  moreover have "rows_kept d db'"
    using telemetry_after [of ?m db n env now] d assms(1) by (simp add: completeJob_def)
  ultimately show ?thesis using rows_keptD assms(2) by metis
qed

section \<open>After the completion\<close>

lemma completed_row_stays:
  assumes "processors_keep cenv env" and "db_ok env db" and "map_of (tasks db) i = Some x" and "completedAt x \<noteq> None"
  shows "map_of (tasks (fold (task_step n cenv env) es db)) i = Some x"
proof -
  have "grows (tasks db) (tasks (fold (task_step n cenv env) es db))" using run_grows [OF assms(1,2)] by blast
  then show ?thesis using grows_lookup [OF _ assms(3)] assms(4) by (auto simp: row_evolves_def)
qed

text \<open>Every call of the agent fails on two tasks that are completed, and changes no task.\<close>

lemma transaction_pure_throw: "(\<And>db. m db = (Inl e, db)) \<Longrightarrow> transaction m db = (Inl e, db\<lparr>outside := []\<rparr>)"
  by (simp add: transaction_def)

lemma agent_rejected:
  assumes d: "map_of (tasks db) (cl_taskId c) = Some d" "completedAt d \<noteq> None" "data_string d ''innerTaskId'' = Some i"
    and y: "map_of (tasks db) i = Some y" "completedAt y \<noteq> None"
  shows "isl (fst (completeJob n env now c r db)) \<and> tasks (snd (completeJob n env now c r db)) = tasks db"
    "isl (fst (startJob now c db)) \<and> tasks (snd (startJob now c db)) = tasks db"
    "isl (fst (processProgress n env now c p db)) \<and> tasks (snd (processProgress n env now c p db)) = tasks db"
    "isl (fst (requestPresignedStorageUrls c files db)) \<and> tasks (snd (requestPresignedStorageUrls c files db)) = tasks db"
  using assms
  by (auto simp: completeJob_def with_telemetry_def transaction_def completeJobInTx_def find_task_def tx_bind_def
      tx_throw_def due_telemetry_def tx_return_def startJob_def inner_id_def processProgress_def
      registerTaskProgress_def update_where_def Let_def requestPresignedStorageUrls_def split: option.splits)

text \<open>C20: After an agent has completed its job it can do nothing more with its token: whatever
  operations the platform performs in between, starting the job, reporting progress, asking for
  signed URLs and completing it again all fail and change no task.\<close>

theorem completed_job_closed:
  assumes "task_reachable n cenv env db" and "processors_keep cenv env"
    and "completeJob n env now c r db = (Inr (), db')" and "cl_taskId c' = cl_taskId c"
    and "db2 = fold (task_step n cenv env) es db'"
  shows "isl (fst (completeJob n env t c' r' db2)) \<and> tasks (snd (completeJob n env t c' r' db2)) = tasks db2
    \<and> isl (fst (startJob t c' db2)) \<and> tasks (snd (startJob t c' db2)) = tasks db2
    \<and> isl (fst (processProgress n env t c' p db2)) \<and> tasks (snd (processProgress n env t c' p db2)) = tasks db2
    \<and> isl (fst (requestPresignedStorageUrls c' files db2))"
proof -
  have ok: "db_ok env db" by (rule reachable_ok [OF assms(1,2)])
  then have table: "table_ok env (tasks db)" by (simp add: db_ok_def)
  obtain d i y d' y' where d: "data_string d ''innerTaskId'' = Some i"
    "map_of (tasks db') (cl_taskId c) = Some d'" "map_of (tasks db') i = Some y'"
    "completion_done now (snd (job_completions c r)) d d'" "completion_done now (fst (job_completions c r)) y y'"
    by (rule completeJobE [OF table assms(3)])
  have "data_string d' ''innerTaskId'' = Some i" using d(1,4) by (simp add: completion_done_def data_string_def)
  moreover have "completedAt d' \<noteq> None" "completedAt y' \<noteq> None"
    using d(4,5) by (cases r; auto simp: completion_done_def Let_def split: if_splits)+
  moreover have "db_ok env db'"
    using tx_keepsD [OF complete_job_keeps, of env db n now c r] ok assms(3) by (simp add: op_rel_def)
  ultimately show ?thesis
    using agent_rejected [of db2 c' d' i y'] completed_row_stays [OF assms(2), of db'] d(2,3)
    unfolding assms(4,5) by simp
qed

section \<open>The run of a worker task\<close>

lemma complete_bothE:
  assumes "complete_both n env now i ci j cj db = (Inr (), db')" and "i \<noteq> j"
  obtains x u y v where "completion_done now ci x u" "completion_done now cj y v"
    "map_of (tasks db') i = Some u" "map_of (tasks db') j = Some v"
proof -
  obtain e where e: "transaction (tx_bind (registerTaskCompletedTx n env now i ci) (\<lambda>_.
        tx_bind (registerTaskCompletedTx n env now j cj) (\<lambda>_. tx_return ()))) db = (Inr (), e)" and kept: "rows_kept e db'"
    using assms(1) unfolding complete_both_def by (rule with_telemetry_Inr)
  obtain f where f: "tx_bind (registerTaskCompletedTx n env now i ci) (\<lambda>_.
        tx_bind (registerTaskCompletedTx n env now j cj) (\<lambda>_. tx_return ())) (db\<lparr>outside := []\<rparr>) = (Inr (), f)"
    and fe: "e = f\<lparr>outside := []\<rparr>"
    using e by (rule transaction_Inr)
  obtain u g v where u: "registerTaskCompletedTx n env now i ci (db\<lparr>outside := []\<rparr>) = (Inr u, g)"
    and v: "registerTaskCompletedTx n env now j cj g = (Inr v, f)"
    using f by (auto simp: tx_return_def elim!: tx_bindE)
  have "\<exists>x y. completion_done now ci x u \<and> completion_done now cj y v
      \<and> map_of (tasks f) i = Some u \<and> map_of (tasks f) j = Some v"
    using completed_tx_effect [OF u] completed_tx_effect [OF v] assms(2) by fastforce
  then show thesis using that rows_keptD [OF kept] fe by auto
qed

text \<open>The failure that the owner of a task sees when the platform fails: nothing of the cause.\<close>

definition hidden_failure :: "task \<Rightarrow> task \<Rightarrow> string \<Rightarrow> bool" where
  "hidden_failure y x code \<longleftrightarrow> success y = Some False
     \<and> task_error y = Some \<lparr>err_code = ''EXECUTION_ERROR'', err_name = Some ''ExecutionError'',
         err_message = ''There was an error executing the task (see admin logs for details)'',
         err_stack = None, err_cause = None, err_details = None\<rparr>
     \<and> success x = Some False \<and> map_option err_code (task_error x) = Some code"

lemma completions_of_error:
  assumes "buildTaskCompletions e m m' = (ci, cj)" and "completion_done now ci x0 y" and "completion_done now cj x1 x"
  shows "case resolveHighestLevelAppError e of
      None \<Rightarrow> hidden_failure y x (we_code e)
    | Some a \<Rightarrow> success x = Some True \<and> success y = (if we_requeueDelayMs a = None then Some False else None)
        \<and> map_option err_code (task_error y) = Some (we_code a)
        \<and> map_option err_message (task_error y) = Some (we_message a)"
  using assms by (cases "resolveHighestLevelAppError e")
    (auto simp: buildTaskCompletions_def completion_done_def hidden_failure_def stored_error_def split: option.splits)

lemma completions_complete:
  assumes "buildTaskCompletions e m m' = (ci, cj)" and "completion_done now cj x1 x"
  shows "completedAt x = Some now"
  using assms by (cases "resolveHighestLevelAppError e") (auto simp: buildTaskCompletions_def completion_done_def)

lemma serverless_effect:
  assumes "\<And>i y. map_of (tasks db) i = Some y \<Longrightarrow> task_id y = i" and "map_of (tasks db) (task_id x) = Some x0" and "startedAt x0 \<noteq> None"
    and "runServerlessWorker n renv env now x db = (Inr (), db')"
  shows "\<exists>i s d1 r d2 y' x'. data_string x ''innerTaskId'' = Some i
    \<and> registerTaskStarted now i (runtime_metadata (string_or_empty (data_string x ''workerIdentifier''))) db = (Inr s, d1)
    \<and> executeServerlessAppTask renv s (string_or_empty (data_string x ''appIdentifier''))
        (string_or_empty (data_string x ''workerIdentifier'')) d1 = (r, d2)
    \<and> map_of (tasks db') i = Some y' \<and> map_of (tasks db') (task_id x) = Some x' \<and> completedAt x' = Some now
    \<and> (success y' \<noteq> None \<longrightarrow> completedAt y' = Some now)
    \<and> (case r of
        Inr None \<Rightarrow> success y' = Some True \<and> success x' = Some True
      | Inr (Some e) \<Rightarrow> (case resolveHighestLevelAppError e of
            None \<Rightarrow> hidden_failure y' x' (we_code e)
          | Some a \<Rightarrow> success x' = Some True \<and> success y' = (if we_requeueDelayMs a = None then Some False else None)
              \<and> map_option err_code (task_error y') = Some (we_code a)
              \<and> map_option err_message (task_error y') = Some (we_message a))
      | Inl (Thrown m) \<Rightarrow> hidden_failure y' x' ''UNEXPECTED_SERVERLESS_EXECUTION_ERROR''
      | Inl NoReturn \<Rightarrow> False)"
proof -
  let ?w = "string_or_empty (data_string x ''workerIdentifier'')"
  let ?a = "string_or_empty (data_string x ''appIdentifier'')"
  let ?m = "runtime_metadata ?w"
  let ?h = "\<lambda>e. buildTaskCompletions (buildUnexpectedError renv ''UNEXPECTED_SERVERLESS_EXECUTION_ERROR''
      ''Unexpected error during in run serverless worker core task processor (run-serverless-worker-task.processor.ts)'' e)
      ?m system_metadata"
  obtain y g s d1 cs d2 where y: "find_inner x db = (Inr y, g)"
    and s: "registerTaskStarted now (task_id y) ?m g = (Inr s, d1)"
    and cs: "tx_handle (tx_bind (executeServerlessAppTask renv s ?a ?w)
        (\<lambda>r. tx_return (serverless_completions renv ?m r))) (\<lambda>e. tx_return (?h e)) d1 = (Inr cs, d2)"
    and both: "complete_both n env now (task_id y) (fst cs) (task_id x) (snd cs) d2 = (Inr (), db')"
    using assms(4) by (auto simp: runServerlessWorker_def Let_def tx_throw_def split_beta elim!: tx_bindE split: if_splits)
  obtain i where i: "data_string x ''innerTaskId'' = Some i" "map_of (tasks db) i = Some y" "g = db"
    using y by (rule find_inner_Inr)
  have id: "task_id y = i" by (rule assms(1) [OF i(2)])
  have "startedAt y = None"
    using s i(2,3) id by (auto simp: registerTaskStarted_def registerTaskStartedInTx_def find_task_def tx_throw_def
        elim!: transaction_Inr tx_bindE split: option.splits if_splits)
  then have "i \<noteq> task_id x" using assms(2,3) i(2) by auto
  then obtain z0 y' z1 x' where fin: "completion_done now (fst cs) z0 y'" "completion_done now (snd cs) z1 x'"
    "map_of (tasks db') i = Some y'" "map_of (tasks db') (task_id x) = Some x'"
    using both id by (metis complete_bothE)
  obtain r e where r: "executeServerlessAppTask renv s ?a ?w d1 = (r, e)" by (cases "executeServerlessAppTask renv s ?a ?w d1")
  have unexpected: "resolveHighestLevelAppError (buildUnexpectedError renv k t v) = None"
    "we_code (buildUnexpectedError renv k t v) = k" for k t v
    by (simp_all add: buildUnexpectedError_def)
  have res: "case r of Inr v \<Rightarrow> cs = serverless_completions renv ?m v | Inl (Thrown t) \<Rightarrow> cs = ?h t | Inl NoReturn \<Rightarrow> False"
    using cs r by (auto simp: tx_handle_def tx_bind_def tx_return_def split: sum.splits tx_error.splits)
  have "completedAt x' = Some now \<and> (case r of
        Inr None \<Rightarrow> success y' = Some True \<and> success x' = Some True
      | Inr (Some e) \<Rightarrow> (case resolveHighestLevelAppError e of
            None \<Rightarrow> hidden_failure y' x' (we_code e)
          | Some a \<Rightarrow> success x' = Some True \<and> success y' = (if we_requeueDelayMs a = None then Some False else None)
              \<and> map_option err_code (task_error y') = Some (we_code a)
              \<and> map_option err_message (task_error y') = Some (we_message a))
      | Inl (Thrown m) \<Rightarrow> hidden_failure y' x' ''UNEXPECTED_SERVERLESS_EXECUTION_ERROR''
      | Inl NoReturn \<Rightarrow> False)"
  proof (cases r)
    case (Inl t)
    then obtain m where m: "t = Thrown m" "?h m = (fst cs, snd cs)" using res by (cases t) auto
    show ?thesis
      using completions_of_error [OF m(2) fin(1,2)] completions_complete [OF m(2) fin(2)] Inl m(1)
      by (simp add: unexpected)
  next
    case (Inr v)
    show ?thesis
    proof (cases v)
      case None
      then show ?thesis using Inr res fin(1,2) by (simp add: serverless_completions_def completion_done_def)
    next
      case (Some e)
      then have m: "buildTaskCompletions e ?m system_metadata = (fst cs, snd cs)"
        using Inr res by (simp add: serverless_completions_def)
      show ?thesis
        using completions_of_error [OF m fin(1,2)] completions_complete [OF m fin(2)] Inr Some by simp
    qed
  qed
  moreover have "success y' \<noteq> None \<longrightarrow> completedAt y' = Some now"
    using fin(1) by (cases "fst cs") (auto simp: completion_done_def split: option.splits)
  ultimately show ?thesis using i(1,3) s id r fin(3,4) by blast
qed

text \<open>C16: A worker task whose runner returns has been run once and settled, and its runner with it:
  both succeed when the worker returns; an error of the app is passed on and the runner has done
  its work, the task being requeued if the error asks for it; and any other error, or exception,
  fails both, with a message for the owner of the task that tells nothing of the cause.\<close>

theorem serverless_outcome:
  assumes "table_ok env (tasks db)" and "map_of (tasks db) (task_id x) = Some x0" and "startedAt x0 \<noteq> None"
    and "runServerlessWorker n renv env now x db = (Inr (), db')"
  shows "\<exists>i s d1 r d2 y' x'. data_string x ''innerTaskId'' = Some i
    \<and> registerTaskStarted now i (runtime_metadata (string_or_empty (data_string x ''workerIdentifier''))) db = (Inr s, d1)
    \<and> executeServerlessAppTask renv s (string_or_empty (data_string x ''appIdentifier''))
        (string_or_empty (data_string x ''workerIdentifier'')) d1 = (r, d2)
    \<and> map_of (tasks db') i = Some y' \<and> map_of (tasks db') (task_id x) = Some x' \<and> completedAt x' = Some now
    \<and> (success y' \<noteq> None \<longrightarrow> completedAt y' = Some now)
    \<and> (case r of
        Inr None \<Rightarrow> success y' = Some True \<and> success x' = Some True
      | Inr (Some e) \<Rightarrow> (case resolveHighestLevelAppError e of
            None \<Rightarrow> hidden_failure y' x' (we_code e)
          | Some a \<Rightarrow> success x' = Some True \<and> success y' = (if we_requeueDelayMs a = None then Some False else None)
              \<and> map_option err_code (task_error y') = Some (we_code a)
              \<and> map_option err_message (task_error y') = Some (we_message a))
      | Inl (Thrown m) \<Rightarrow> hidden_failure y' x' ''UNEXPECTED_SERVERLESS_EXECUTION_ERROR''
      | Inl NoReturn \<Rightarrow> False)"
  by (rule serverless_effect [OF table_ids [OF assms(1)] assms(2-4)])

end
