(* ===== verification/Task_Run.thy ===== *)
theory Task_Run
  imports Task_Agent Task_Drain
begin

text \<open>
  A worker task from its trigger to its end: the app triggers it, the emission of its event creates
  the core task that runs it, and the execution of the core task runs and completes it.
\<close>

section \<open>The trigger\<close>

lemma transaction_tasks:
  assumes "transaction m db = (Inr y, db')"
  obtains d where "m (db\<lparr>outside := []\<rparr>) = (Inr y, d)" "tasks db' = tasks d"
  using assms by (auto elim: transaction_Inr)

text \<open>A worker task that was triggered waits in the table, and behind it its runner.\<close>

lemma trigger_runner:
  assumes "no_listeners env" and ok: "db_ok env db"
    and trig: "triggerAppActionTask (Suc n) env now th p i g db = (Inr x, db')" and h: "handlerType x = ''runtime''"
  obtains r where "map_of (tasks db') (task_id x) = Some x" "map_of (tasks db') (task_id r) = Some r" "task_id r \<noteq> task_id x"
    "new_row env x" "inv_onComplete (invocation x) = ta_onComplete g"
    "new_row env r" "taskIdentifier r = ''run_serverless_worker''" "ownerId r = CORE_IDENTIFIER"
    "data_string r ''innerTaskId'' = Some (task_id x)" "inv_kind (invocation r) = ''event''"
    "inv_onComplete (invocation r) = []" "table_ok env (tasks db')"
proof -
  let ?row = "\<lambda>k (d :: task_def). (with_targets g (blank_task env k p i (td_description d)
           (AppAction th (ta_onComplete g) (ta_onProgress g)) (ta_data g) (td_handlerType d) now))
        \<lparr>handlerIdentifier := td_handlerIdentifier d, correlationKey := ta_correlationKey g,
         dontStartBefore := start_time now (ta_dontStartBefore g)\<rparr>"
  obtain q k d0 where t0: "transaction (insert_and_enqueue (Suc n) env now (?row k q)) d0 = (Inr x, db')"
    using trig unfolding triggerAppActionTask_def by (elim tx_bindE tx_thenE) (erule that)
  have row: "x = ?row k q"
    using t0 by (auto simp: insert_and_enqueue_def tx_return_def elim!: transaction_tasks tx_thenE)
  have x: "new_row env x" "inv_onComplete (invocation x) = ta_onComplete g"
    unfolding row by (simp_all add: with_targets_def blank_task_def new_row_def)
  have t: "transaction (insert_and_enqueue (Suc n) env now x) d0 = (Inr x, db')" using t0 row by simp
  obtain d where d: "insert_and_enqueue (Suc n) env now x (d0\<lparr>outside := []\<rparr>) = (Inr x, d)" "tasks db' = tasks d"
    using t by (metis transaction_tasks)
  obtain e where e: "insert_tasks [x] (d0\<lparr>outside := []\<rparr>) = (Inr (), e)"
    and em: "emitRunnableTaskEnqueuedEvent (Suc n) env now x e = (Inr (), d)"
    using d(1) by (auto simp: insert_and_enqueue_def tx_return_def elim!: tx_thenE)
  obtain r where r: "tasks d = tasks e @ [(task_id r, r)]" "taskIdentifier r = ''run_serverless_worker''"
    "ownerId r = CORE_IDENTIFIER" "js_prop (task_data r) ''innerTaskId'' = Some (Some (JStr (task_id x)))"
    "new_row env r" "inv_kind (invocation r) = ''event''" "inv_onComplete (invocation r) = []"
    using enqueue_effect [OF assms(1), of x n now e] h em by auto
  have in_e: "(task_id x, x) \<in> set (tasks e)"
    using e by (auto simp: insert_tasks_def split: option.splits dest!: insert_task_append)
  have table: "table_ok env (tasks db')"
    using tx_keepsD [OF trigger_app_keeps, of env db "Suc n" now th p i g] ok trig by (simp add: op_rel_def db_ok_def)
  then have dist: "distinct (map fst (tasks db'))" by (simp add: table_ok_def)
  have both: "(task_id x, x) \<in> set (tasks db')" "(task_id r, r) \<in> set (tasks db')"
    using in_e r(1) d(2) by simp_all
  have "task_id r \<noteq> task_id x"
    using dist in_e unfolding d(2) r(1) by force
  then show thesis
    using that [of r] both dist x r table by (simp add: data_string_def)
qed

section \<open>The run\<close>

text \<open>An executor that comes back with \<open>r\<close> and leaves the tables alone, and asks for no requeue.\<close>

definition executor_gives :: "runner_env \<Rightarrow> tx_error + work_error option \<Rightarrow> bool" where
  "executor_gives renv r \<longleftrightarrow> (\<forall>x a w db. fst (executeServerlessAppTask renv x a w db) = r
     \<and> still db (snd (executeServerlessAppTask renv x a w db)))"

fun settles :: "tx_error + work_error option \<Rightarrow> bool" where
  "settles (Inl (Thrown m)) = True"
| "settles (Inl NoReturn) = False"
| "settles (Inr None) = True"
| "settles (Inr (Some e)) = (Option.bind (resolveHighestLevelAppError e) we_requeueDelayMs = None)"

lemma complete_both_plain:
  assumes x: "map_of (tasks db) i = Some x" "startedAt x \<noteq> None" "completedAt x = None" "success x = None"
      "inv_onComplete (invocation x) = []" "\<not> requeue_requested ci"
    and y: "map_of (tasks db) j = Some y" "startedAt y \<noteq> None" "completedAt y = None" "success y = None"
      "inv_onComplete (invocation y) = []" "\<not> requeue_requested cj" and ij: "i \<noteq> j"
  shows "fst (complete_both n env now i ci j cj db) = Inr ()"
proof -
  have "fst (tx_bind (registerTaskCompletedTx n env now i ci) (\<lambda>_.
      tx_bind (registerTaskCompletedTx n env now j cj) (\<lambda>_. tx_return ())) (db\<lparr>outside := []\<rparr>)) = Inr ()"
    using complete_plain [of "db\<lparr>outside := []\<rparr>" i x ci n env now] x y ij
    by (simp add: registerTaskCompletedTx_def tx_bind_def tx_then_def send_def tx_return_def complete_plain map_of_update_task)
  then show ?thesis by (auto simp: complete_both_def with_telemetry_def transaction_def split: prod.split sum.split)
qed

lemma start_plain:
  assumes "map_of (tasks db) i = Some x" and "startedAt x = None" and "completedAt x = None"
  shows "\<exists>d. registerTaskStarted now i m db = (Inr (start_row now m x), d)
    \<and> tasks d = update_task i (start_row now m) (tasks db)"
  using assms by (simp add: registerTaskStarted_def transaction_def registerTaskStartedInTx_def find_task_def tx_bind_def
      update_where_def tx_then_def send_def tx_return_def)

lemma run_serverless_returns:
  assumes r: "executor_gives renv r" "settles r"
    and x: "map_of (tasks db) (task_id x) = Some x" "new_row env x" "inv_onComplete (invocation x) = []"
    and y: "data_string y ''innerTaskId'' = Some (task_id x)" "inv_kind (invocation y) = ''event''" "task_id y \<noteq> task_id x"
    and z: "map_of (tasks db) (task_id y) = Some z" "startedAt z \<noteq> None" "completedAt z = None" "success z = None"
      "inv_onComplete (invocation z) = []"
  shows "fst (runServerlessWorker n renv env now y db) = Inr ()"
proof -
  let ?w = "string_or_empty (data_string y ''workerIdentifier'')"
  let ?a = "string_or_empty (data_string y ''appIdentifier'')"
  let ?m = "runtime_metadata ?w"
  let ?h = "\<lambda>e. buildTaskCompletions (buildUnexpectedError renv ''UNEXPECTED_SERVERLESS_EXECUTION_ERROR''
      ''Unexpected error during in run serverless worker core task processor (run-serverless-worker-task.processor.ts)'' e)
      ?m system_metadata"
  obtain d where d: "registerTaskStarted now (task_id x) ?m db = (Inr (start_row now ?m x), d)"
    "tasks d = update_task (task_id x) (start_row now ?m) (tasks db)"
    using start_plain [OF x(1)] x(2) by (auto simp: new_row_def)
  obtain e where e: "executeServerlessAppTask renv (start_row now ?m x) ?a ?w d = (r, e)" "tasks e = tasks d"
    using r(1) unfolding executor_gives_def still_def by (metis prod.collapse)
  obtain ci cj where c: "tx_handle (tx_bind (executeServerlessAppTask renv (start_row now ?m x) ?a ?w)
        (\<lambda>r. tx_return (serverless_completions renv ?m r))) (\<lambda>e. tx_return (?h e)) d = (Inr (ci, cj), e)"
      "\<not> requeue_requested ci" "\<not> requeue_requested cj"
  proof (cases r rule: settles.cases)
    case (1 m)
    then show thesis
      using that e(1) by (simp add: tx_handle_def tx_bind_def tx_return_def buildTaskCompletions_def buildUnexpectedError_def)
  next
    case 2
    then show thesis using r(2) by simp
  next
    case 3
    then show thesis
      using that e(1) by (simp add: tx_handle_def tx_bind_def tx_return_def serverless_completions_def)
  next
    case (4 v)
    then show thesis
      using that e(1) r(2)
      by (cases "resolveHighestLevelAppError v")
        (simp_all add: tx_handle_def tx_bind_def tx_return_def serverless_completions_def buildTaskCompletions_def)
  qed
  have rows: "map_of (tasks e) (task_id x) = Some (start_row now ?m x)" "map_of (tasks e) (task_id y) = Some z"
    using x(1) y(3) z(1) d(2) e(2) by (simp_all add: map_of_update_task)
  have "fst (complete_both n env now (task_id x) ci (task_id y) cj e) = Inr ()"
    by (rule complete_both_plain [OF rows(1) _ _ _ _ c(2) rows(2) z(2-5) c(3)])
      (use x(2,3) y(3) in \<open>simp_all add: start_row_def new_row_def\<close>)
  moreover have "find_inner y db = (Inr x, db)"
    using y(1) x(1) by (simp add: find_inner_def find_task_def tx_bind_def tx_return_def)
  ultimately show ?thesis
    using y(2) d(1) c(1) by (simp add: runServerlessWorker_def tx_bind_def Let_def)
qed

lemma execute_runner:
  assumes r: "map_of (tasks db) k = Some z" "new_row env z" "ownerId z = CORE_IDENTIFIER"
      "taskIdentifier z = ''run_serverless_worker''" "task_id z = k"
    and p: "processors cenv ''run_serverless_worker'' = Some (False, run)"
    and go: "\<And>d. tasks d = update_task k (started_row t) (tasks db) \<Longrightarrow>
      \<exists>d'. run t (z\<lparr>startedAt := Some t, task_updatedAt := t\<rparr>) d = (Inr (), d') \<and> P (tasks d')"
  shows "\<exists>db'. executeCoreTask n cenv env t k db = (Inr (), db') \<and> P (tasks db')"
proof -
  let ?y = "z\<lparr>startedAt := Some t, task_updatedAt := t\<rparr>"
  let ?d = "db\<lparr>outside := [], tasks := update_task k (started_row t) (tasks db)\<rparr>"
  obtain d1 where d1: "notify_folder ?y ?d = (Inr (), d1)" "tasks d1 = tasks ?d" by (rule notify_exact)
  obtain d2 where d2: "run t ?y (count_running Suc d1) = (Inr (), d2)" "P (tasks d2)"
    using go [of "count_running Suc d1"] d1(2) by (auto simp: count_running_def)
  obtain d3 where d3: "notify_folder ?y d2 = (Inr (), d3)" "tasks d3 = tasks d2" by (rule notify_exact)
  have "run_processor n cenv env t ?y False (run t) (count_running Suc d1) = (Inr (), d3)"
    by (simp add: run_processor_def tx_bind_def tx_handle_def tx_then_def d2(1) tx_return_def d3(1))
  then have "executeCoreTask n cenv env t k db = (Inr (), count_running (\<lambda>k. k - 1) d3)"
    using r d1(1) p
    by (simp add: executeCoreTask_def tx_bind_def find_task_def new_row_def start_core_exact [OF r(1)] tx_then_def
        tx_finally_def)
  then show ?thesis using d2(2) d3(2) by (simp add: count_running_def)
qed

text \<open>C7: Under four conditions a worker task that an app triggers gets to its end.  When nobody
  listens to the enqueue events, the task has no completion handlers, the executor of workers
  leaves the tables alone, and an error it reports asks for no requeue, then the trigger leaves a
  core task behind, and the execution of that core task runs the worker task and completes it,
  successfully exactly when the worker returned.  (With a completion handler and a requeue it may
  never complete: \<open>requeue_blocks_completion\<close>.)\<close>

theorem worker_task_runs:
  assumes "no_listeners env" and "db_ok env db"
    and "triggerAppActionTask (Suc n) env now th p i g db = (Inr x, db1)" and "handlerType x = ''runtime''"
    and "ta_onComplete g = []" and "executor_gives renv r" and "settles r"
    and "cenv = \<lparr>processors = runner_processors m renv env, toEnvelope = core_task_error renv\<rparr>"
  shows "\<exists>k db2 y. executeCoreTask m cenv env t k db1 = (Inr (), db2)
    \<and> map_of (tasks db2) (task_id x) = Some y \<and> completedAt y = Some t \<and> success y = Some (r = Inr None)"
proof -
  obtain z where x: "map_of (tasks db1) (task_id x) = Some x" "new_row env x" "inv_onComplete (invocation x) = []"
    and z: "map_of (tasks db1) (task_id z) = Some z" "new_row env z" "ownerId z = CORE_IDENTIFIER"
      "taskIdentifier z = ''run_serverless_worker''" "data_string z ''innerTaskId'' = Some (task_id x)"
      "inv_kind (invocation z) = ''event''" "inv_onComplete (invocation z) = []" "task_id z \<noteq> task_id x"
    and ok: "table_ok env (tasks db1)"
    by (rule trigger_runner [OF assms(1-4)]) (simp add: assms(5))
  let ?z = "z\<lparr>startedAt := Some t, task_updatedAt := t\<rparr>"
  have dz: "data_string ?z k = data_string z k" for k by (simp add: data_string_def)
  have "\<exists>d'. runServerlessWorker m renv env t ?z d = (Inr (), d')
      \<and> (\<exists>y. map_of (tasks d') (task_id x) = Some y \<and> completedAt y = Some t \<and> success y = Some (r = Inr None))"
    if d: "tasks d = update_task (task_id z) (started_row t) (tasks db1)" for d
  proof -
    have rows: "map_of (tasks d) (task_id x) = Some x" "map_of (tasks d) (task_id z) = Some (started_row t z)"
      using x(1) z(1,8) by (simp_all add: d map_of_update_task)
    have "fst (runServerlessWorker m renv env t ?z d) = Inr ()"
      by (rule run_serverless_returns [OF assms(6,7) rows(1) x(2,3), of _ "started_row t z"])
        (use z rows(2) in \<open>simp_all add: dz new_row_def\<close>)
    then obtain d' where d': "runServerlessWorker m renv env t ?z d = (Inr (), d')" by (metis prod.collapse)
    have ids: "task_id w = j" if "map_of (tasks d) j = Some w" for j w
      using that table_ids [OF ok] by (auto simp: d map_of_update_task split: if_splits)
    obtain s d1 r' d2 y z' where e: "executeServerlessAppTask renv s (string_or_empty (data_string ?z ''appIdentifier''))
        (string_or_empty (data_string ?z ''workerIdentifier'')) d1 = (r', d2)"
      "map_of (tasks d') (task_id x) = Some y" "map_of (tasks d') (task_id z) = Some z'" "completedAt z' = Some t"
      "success y \<noteq> None \<longrightarrow> completedAt y = Some t"
      and res: "case r' of
        Inr None \<Rightarrow> success y = Some True \<and> success z' = Some True
      | Inr (Some e) \<Rightarrow> (case resolveHighestLevelAppError e of
            None \<Rightarrow> hidden_failure y z' (we_code e)
          | Some a \<Rightarrow> success z' = Some True \<and> success y = (if we_requeueDelayMs a = None then Some False else None)
              \<and> map_option err_code (task_error y) = Some (we_code a)
              \<and> map_option err_message (task_error y) = Some (we_message a))
      | Inl (Thrown m) \<Rightarrow> hidden_failure y z' ''UNEXPECTED_SERVERLESS_EXECUTION_ERROR''
      | Inl NoReturn \<Rightarrow> False"
      using serverless_effect [where db = d and x = ?z and n = m and renv = renv
          and now = t and env = env and db' = d'] ids d' rows(2) z(5) by (fastforce simp: dz)
    have "r' = r" using e(1) assms(6) unfolding executor_gives_def by (metis fst_conv)
    then have "success y = Some (r = Inr None)"
      using res assms(7) by (auto simp: hidden_failure_def split: sum.splits option.splits tx_error.splits)
    then show ?thesis using d' e(2,5) by auto
  qed
  then show ?thesis
    using execute_runner [OF z(1-4) refl, of cenv "runServerlessWorker m renv env" t
        "\<lambda>u. \<exists>y. map_of u (task_id x) = Some y \<and> completedAt y = Some t \<and> success y = Some (r = Inr None)" m]
    by (auto simp: assms(8) runner_processors_def)
qed

end
