(* ===== verification/Task_Examples.thy ===== *)
theory Task_Examples
  imports Task_Schedules Task_Drain Task_Atomic Task_Broadcast
begin

text \<open>
  A small installation on which the theorems of the task engine are applied: one app with a worker
  task \<open>job\<close>, a container task \<open>child\<close> and a schedule, identifiers \<open>u\<close>, \<open>uu\<close>, ..., and
  a hash that keeps the strings and indices of its argument.
\<close>

fun demo_atom :: "json \<Rightarrow> string" where
  "demo_atom (JStr s) = s"
| "demo_atom (JNum r) = (if r = 0 then ''0'' else ''1'')"
| "demo_atom _ = ''-''"

fun demo_hash :: "json \<Rightarrow> string" where
  "demo_hash (JObj m) = concat (map (\<lambda>(k, v). case v of
       JObj m' \<Rightarrow> concat (map (\<lambda>(k, v). demo_atom v) m') | _ \<Rightarrow> demo_atom v) m)"
| "demo_hash v = demo_atom v"

definition demo_schedule :: schedule_trigger where
  "demo_schedule = \<lparr>st_taskIdentifier = ''job'', st_triggerKey = ''nightly'', st_config = IntervalSchedule 1 Hours\<rparr>"

definition demo_app :: app where
  "demo_app = \<lparr>app_id = ''1'', app_identifier = ''demo'', app_enabled = True, subscribedCoreEvents = [],
     app_tasks = [\<lparr>td_identifier = ''job'', td_description = ''d'', td_handlerType = ''runtime'', td_handlerIdentifier = Some ''w''\<rparr>,
                  \<lparr>td_identifier = ''child'', td_description = ''c'', td_handlerType = ''docker'', td_handlerIdentifier = Some ''p:j''\<rparr>],
     app_triggers = [ScheduleTrig demo_schedule]\<rparr>"

definition demo_env :: task_env where
  "demo_env = \<lparr>apps = [demo_app], runtime_triggers = [],
     validateAppFolderAccess = (\<lambda>a f. Allowed), validateAppUserAccess = (\<lambda>a u. Allowed),
     validateAppStorageAccessPolicy = (\<lambda>a p. Allowed), eval_condition = (\<lambda>c v. False),
     dataFromTemplate = (\<lambda>a t v. Inr t), hash = demo_hash, sha256 = (\<lambda>s. s),
     uuid = (\<lambda>n. replicate (Suc n) (CHR ''u'')), iso = (\<lambda>t. if t = 0 then ''T0'' else ''T''),
     date_string = (\<lambda>t. ''D''), parse_date = (\<lambda>s. 0), cron_prev = (\<lambda>x z t. Inr (t - 1))\<rparr>"

definition demo_args :: trigger_args where
  "demo_args = \<lparr>ta_data = JObj [], ta_correlationKey = None, ta_dontStartBefore = None, ta_targetUserId = None,
     ta_targetLocation = None, ta_policy = None, ta_onComplete = [OnComplete ''child'' None None []], ta_onProgress = []\<rparr>"

definition demo_cenv :: core_env where
  "demo_cenv = \<lparr>processors = (\<lambda>i. if i = ''run_serverless_worker'' then Some (True, \<lambda>now x. tx_return ()) else None),
     toEnvelope = (\<lambda>i e. \<lparr>err_code = ''X'', err_name = None, err_message = e, err_stack = None, err_cause = None,
       err_details = None\<rparr>)\<rparr>"

definition demo_error :: error_info where
  "demo_error = \<lparr>err_code = ''E'', err_name = None, err_message = ''m'', err_stack = None, err_cause = None,
     err_details = None\<rparr>"

abbreviation demo_step :: "int \<times> task_op \<Rightarrow> task_db \<Rightarrow> task_db" where
  "demo_step \<equiv> task_step 2 demo_cenv demo_env"

text \<open>The worker task is triggered (\<open>u\<close>), with its event (\<open>uu\<close>) and its runner (\<open>uuu\<close>), and
  started.\<close>

definition demo_triggered :: task_db where
  "demo_triggered = demo_step (10, TriggerApp ''req'' ''demo'' ''job'' demo_args) empty_db"

definition demo_started :: task_db where
  "demo_started = demo_step (20, StartTask ''u'' JNull) demo_triggered"

lemma demo_processors: "processors_keep demo_cenv demo_env"
  by (auto simp: processors_keep_def runs_keep_def demo_cenv_def op.keeps_pure split: if_splits)

lemma demo_triggered_reachable: "task_reachable 2 demo_cenv demo_env demo_triggered"
  unfolding demo_triggered_def by (intro task_reachable.intros)

lemma demo_started_reachable: "task_reachable 2 demo_cenv demo_env demo_started"
  unfolding demo_started_def by (intro task_reachable.intros demo_triggered_reachable)

lemma demo_ids: "map fst (tasks demo_started) = [''u'', ''uuu'']"
  by code_simp

section \<open>Invariant and evolution\<close>

theorem task_invariant_witness: "table_ok demo_env (tasks demo_started) \<and> length (tasks demo_started) = 2"
proof
  show "table_ok demo_env (tasks demo_started)"
    by (rule task_invariant [OF demo_started_reachable demo_processors])
  show "length (tasks demo_started) = 2" by code_simp
qed

definition demo_row :: task where "demo_row = the (map_of (tasks demo_started) ''u'')"

lemma demo_row_found: "map_of (tasks demo_started) ''u'' = Some demo_row"
proof -
  have "\<not> Option.is_none (map_of (tasks demo_started) ''u'')" by code_simp
  then show ?thesis by (simp add: demo_row_def Option.is_none_def)
qed

lemma demo_row_fields:
  "inv_onComplete (invocation demo_row) = [OnComplete ''child'' None None []]" "attemptCount demo_row = 0"
  "completedAt demo_row = None" "taskIdentifier demo_row = ''job''"
  by code_simp+

theorem task_rows_evolve_witness:
  "\<exists>y. map_of (tasks (fold demo_step [(30, Complete ''u'' (Succeeded None JNull)), (40, StartTask ''u'' JNull)] demo_started)) ''u'' = Some y
     \<and> row_evolves demo_row y"
  by (rule task_rows_evolve [OF demo_started_reachable demo_processors demo_row_found])

section \<open>Completions\<close>

definition demo_requeue :: "(tx_error + task) \<times> task_db" where
  "demo_requeue = registerTaskCompleted 2 demo_env 30 ''u'' (Failed (Some 1000) demo_error JNull) demo_started"

lemma demo_requeue_result:
  "registerTaskCompleted 2 demo_env 30 ''u'' (Failed (Some 1000) demo_error JNull) demo_started
     = (Inr (projr (fst demo_requeue)), snd demo_requeue)"
proof -
  have "\<not> isl (fst demo_requeue)" by code_simp
  then show ?thesis unfolding demo_requeue_def by (metis prod.collapse sum.collapse(2))
qed

theorem completion_exact_witness:
  "\<exists>x. map_of (tasks demo_started) ''u'' = Some x \<and> startedAt x \<noteq> None
     \<and> map_of (tasks (snd demo_requeue)) ''u'' = Some (projr (fst demo_requeue))
     \<and> failureCount (projr (fst demo_requeue)) = failureCount x + 1"
  using completion_exact [OF demo_requeue_result] by auto

theorem requeue_blocks_completion_witness:
  "startedAt (projr (fst demo_requeue)) = None
   \<and> fst (registerTaskCompleted 2 demo_env 50 ''u'' (Succeeded None JNull)
           (fold demo_step [(40, StartTask ''u'' JNull)] (snd demo_requeue))) \<noteq> Inr demo_row"
  using requeue_blocks_completion [OF demo_started_reachable demo_processors demo_row_found demo_row_fields(1) _ _
      demo_requeue_result, of 50 "Succeeded None JNull" "[(40, StartTask ''u'' JNull)]" demo_row]
  by (simp add: demo_row_fields(2) MAX_TASK_ATTEMPTS_def)

text \<open>A row that has failed five times.\<close>

definition demo_tired :: task_db where
  "demo_tired = demo_started\<lparr>tasks := update_task ''u'' (\<lambda>x. x\<lparr>attemptCount := 5, failureCount := 5\<rparr>) (tasks demo_started)\<rparr>"

definition demo_sixth :: "(tx_error + task) \<times> task_db" where
  "demo_sixth = registerTaskCompleted 2 demo_env 30 ''u'' (Failed (Some 1000) demo_error JNull) demo_tired"

theorem max_requeues_stuck_witness:
  "completedAt (projr (fst demo_sixth)) = None
   \<and> fst (registerTaskStarted 60 ''u'' JNull (snd demo_sixth)) = Inl (Thrown ''Task not in a state to be started.'')"
proof -
  have "\<not> isl (fst demo_sixth)" by code_simp
  then have r: "registerTaskCompleted 2 demo_env 30 ''u'' (Failed (Some 1000) demo_error JNull) demo_tired
      = (Inr (projr (fst demo_sixth)), snd demo_sixth)"
    unfolding demo_sixth_def by (metis prod.collapse sum.collapse(2))
  have x: "map_of (tasks demo_tired) ''u'' = Some (demo_row\<lparr>attemptCount := 5, failureCount := 5\<rparr>)"
    by (simp add: demo_tired_def map_of_update_task demo_row_found)
  show ?thesis
    using max_requeues_stuck [OF x _ r, of 60 JNull] by (simp add: MAX_TASK_ATTEMPTS_def)
qed

theorem stale_error_context_witness:
  "parent_error_log (completed_row demo_env 70 False (Failed None (demo_error\<lparr>err_code := ''second''\<rparr>) JNull)
     (projr (fst demo_requeue))) = Some (JObj [(''error'', error_json demo_error), (''executorMetadata'', JNull)])"
proof -
  let ?old = "completion_log 30 (Failed (Some 1000) demo_error JNull)"
  have "find (\<lambda>l. log_type l = ''error'') (systemLog (projr (fst demo_requeue))) = Some ?old"
    by code_simp
  from stale_error_context [OF this] show ?thesis by (simp add: log_of_def)
qed

theorem completion_atomic_witness:
  "tasks (snd (registerTaskCompleted 2 demo_env 30 ''u'' (Succeeded None JNull) demo_triggered)) = tasks demo_triggered"
proof -
  have "fst (registerTaskCompleted 2 demo_env 30 ''u'' (Succeeded None JNull) demo_triggered)
      = Inl (Thrown ''Task has not been started.'')" by code_simp
  from completion_atomic [OF this] show ?thesis by simp
qed

section \<open>Events\<close>

lemma demo_quiet: "no_listeners demo_env" "quiet demo_env"
  by (simp_all add: no_listeners_def quiet_def demo_env_def demo_app_def)

theorem enqueue_exact_witness:
  "(\<exists>e. fst (emitRunnableTaskEnqueuedEvent 1 demo_env 30 demo_row demo_started) = Inl (Thrown e))
   \<or> (\<exists>db' r. emitRunnableTaskEnqueuedEvent 1 demo_env 30 demo_row demo_started = (Inr (), db')
        \<and> tasks db' = tasks demo_started @ [(task_id r, r)] \<and> ownerId r = CORE_IDENTIFIER)"
proof -
  have h: "handlerType demo_row = ''runtime''" by code_simp
  show ?thesis
    using enqueue_exact [OF demo_quiet(1), of demo_row 0 30 demo_started] h by auto
qed

theorem emission_terminates_witness:
  "fst (emitEventInTx 2 False demo_env 10 \<lparr>emitterIdentifier = ''core'', eventIdentifier = ''object_added'',
     ea_data = JObj [], ea_target = TargetFolder ''f'' (Some ''k'')\<rparr> empty_db) \<noteq> Inl NoReturn"
  using emission_terminates [OF demo_quiet(1), of 0 False 10 "\<lparr>emitterIdentifier = ''core'', eventIdentifier = ''object_added'',
     ea_data = JObj [], ea_target = TargetFolder ''f'' (Some ''k'')\<rparr>" empty_db]
  unfolding numeral_2_eq_2 .

text \<open>The app answers the enqueue event of worker tasks with its own worker task.\<close>

definition echo_demo :: app where
  "echo_demo = demo_app\<lparr>subscribedCoreEvents := [''core:serverless_task_enqueued''],
     app_triggers := [EventTrig \<lparr>et_eventIdentifier = ''core:serverless_task_enqueued'', et_taskIdentifier = ''job'',
       et_condition = None, et_dataTemplate = None, et_triggerKey = None, et_onComplete = [], et_onProgress = []\<rparr>]\<rparr>"

theorem emission_never_returns_witness:
  "fst (emitRunnableTaskEnqueuedEvent 100 (demo_env\<lparr>apps := [echo_demo]\<rparr>) 10
     (blank_task demo_env ''i'' ''demo'' ''job'' ''d'' (UserAction ''u'' ''r'') JNull ''runtime'' 5) empty_db) = Inl NoReturn"
proof (rule emission_never_returns)
  show "apps (demo_env\<lparr>apps := [echo_demo]\<rparr>) = echo_demo # []" by simp
  show "echo_app echo_demo"
    by (simp add: echo_app_def echo_demo_def demo_app_def find_task_def_def)
  show "inj (uuid (demo_env\<lparr>apps := [echo_demo]\<rparr>))"
    by (auto simp: demo_env_def inj_def replicate_eq_replicate)
  show "fresh_events (demo_env\<lparr>apps := [echo_demo]\<rparr>) empty_db" by (simp add: fresh_events_def empty_db_def)
  show "handlerType (blank_task demo_env ''i'' ''demo'' ''job'' ''d'' (UserAction ''u'' ''r'') JNull ''runtime'' 5) = ''runtime''"
    by (simp add: blank_task_def)
qed

section \<open>Schedules\<close>

definition demo_poll :: "(tx_error + task list) \<times> task_db" where
  "demo_poll = tx_collect (tryEnqueueScheduleTask demo_env 10) (all_schedules demo_env) empty_db"

definition demo_batch :: "(tx_error + unit) \<times> task_db" where
  "demo_batch = transaction (schedule_batch 2 demo_env 10 (projr (fst demo_poll))) (snd demo_poll)"

theorem schedule_once_witness:
  "length (tasks (snd demo_batch)) = 2
   \<and> (let db2 = fold demo_step [(15, PollSchedules False)] (demo_step (10, PollSchedules False) empty_db)
      in tasks (demo_step (20, PollSchedules False) db2) = tasks db2)"
proof -
  have p: "\<not> isl (fst demo_poll) \<and> projr (fst demo_poll) \<noteq> []" by code_simp
  have b: "\<not> isl (fst demo_batch) \<and> length (tasks (snd demo_batch)) = 2" by code_simp
  have p': "tx_collect (tryEnqueueScheduleTask demo_env 10) (all_schedules demo_env) empty_db
      = (Inr (projr (fst demo_poll)), snd demo_poll)"
    using p unfolding demo_poll_def by (metis prod.collapse sum.collapse(2))
  have b': "transaction (schedule_batch 2 demo_env 10 (projr (fst demo_poll))) (snd demo_poll) = (Inr (), snd demo_batch)"
    using b unfolding demo_batch_def by (metis old.unit.exhaust prod.collapse sum.collapse(2))
  have c: "cron_before demo_env" by (simp add: cron_before_def demo_env_def)
  have same: "list_all (\<lambda>s. getUtcScheduleBucket demo_env (st_config (fst (snd s))) 20
      = getUtcScheduleBucket demo_env (st_config (fst (snd s))) 10) (all_schedules demo_env)" by code_simp
  show ?thesis
    using schedule_once [OF task_reachable.init demo_processors c p' conjunct2 [OF p] b' same,
        of "[(15, PollSchedules False)]" False] b by simp
qed

text \<open>The app has registered the schedule of its configuration once more.\<close>

definition twin_env :: task_env where
  "twin_env = demo_env\<lparr>runtime_triggers := [\<lparr>rt_id = ''r'', rt_appId = ''1'', rt_definition = ScheduleTrig demo_schedule\<rparr>]\<rparr>"

theorem schedule_collision_witness:
  "tasks (snd (processScheduledTaskTriggers 2 False twin_env 10 empty_db)) = []"
proof -
  have "all_schedules twin_env = [] @ (demo_app, demo_schedule, None) # [] @ (demo_app, demo_schedule, Some ''r'') # []"
    by (simp add: config_schedules_def runtime_schedules_def List.map_filter_simps twin_env_def demo_env_def demo_app_def)
  moreover have "getUtcScheduleBucket twin_env (st_config demo_schedule) 10 = Inr 0"
    by (simp add: demo_schedule_def getUtcTimestampBucket_def Let_def)
  moreover have "find_task_def demo_app (st_taskIdentifier demo_schedule)
      = Some \<lparr>td_identifier = ''job'', td_description = ''d'', td_handlerType = ''runtime'', td_handlerIdentifier = Some ''w''\<rparr>"
    by (simp add: find_task_def_def demo_app_def demo_schedule_def)
  moreover have "\<not> fired twin_env demo_app demo_schedule
      \<lparr>td_identifier = ''job'', td_description = ''d'', td_handlerType = ''runtime'', td_handlerIdentifier = Some ''w''\<rparr> 0 (tasks empty_db)"
    by (simp add: fired_def empty_db_def)
  ultimately show ?thesis
    using schedule_collision [of twin_env "[]" demo_app demo_schedule None "[]" "Some ''r''" "[]" 10 0 _ empty_db 2 False]
    by (simp add: empty_db_def)
qed

section \<open>Core tasks\<close>

lemma demo_ready: "ready demo_cenv 100 (tasks demo_triggered)"
proof -
  have rows: "list_all (\<lambda>(i, x). task_id x = i \<and> (startable_core_task 100 x \<longrightarrow> Option.is_none (completedAt x)
      \<and> Option.is_none (success x) \<and> inv_onComplete (invocation x) = []
      \<and> taskIdentifier x = ''run_serverless_worker'')) (tasks demo_triggered)" by code_simp
  have "distinct (map fst (tasks demo_triggered))" by code_simp
  moreover have "calm (\<lambda>x. tx_return ())"
    by (simp add: calm_def still.keeps_pure) (simp add: tx_return_def)
  ultimately show ?thesis
    using rows by (auto simp: ready_def ready_task_def list_all_iff demo_cenv_def Option.is_none_def split: option.splits)
qed

theorem drain_completes_witness:
  "startable_ids 100 (tasks demo_triggered) = [''uuu'']
   \<and> (\<exists>db' y. startDrainCoreTasks 2 2 demo_cenv demo_env 100 False demo_triggered = (Inr (), db')
        \<and> startable_ids 100 (tasks db') = [] \<and> map_of (tasks db') ''uuu'' = Some y \<and> completedAt y = Some 100)"
proof -
  have s: "startable_ids 100 (tasks demo_triggered) = [''uuu'']" by code_simp
  have r: "runningTasksCount demo_triggered < MAX_CONCURRENT_CORE_TASKS" by code_simp
  show ?thesis
    using drain_completes [OF demo_quiet(2) demo_ready r, of 2 2] by (auto simp: s)
qed

theorem missing_processor_stops_drain_witness:
  "\<exists>db'. startDrainCoreTasks 1 2 (demo_cenv\<lparr>processors := (\<lambda>i. None)\<rparr>) demo_env 100 False demo_triggered = (Inr (), db')
     \<and> startable_ids 100 (tasks db') = []"
proof -
  have s: "startable_ids 100 (tasks demo_triggered) = ''uuu'' # []" by code_simp
  have r: "runningTasksCount demo_triggered < MAX_CONCURRENT_CORE_TASKS" by code_simp
  have d: "distinct (map fst (tasks demo_triggered))" by code_simp
  have "\<not> Option.is_none (map_of (tasks demo_triggered) ''uuu'')" by code_simp
  then obtain x where x: "map_of (tasks demo_triggered) ''uuu'' = Some x" by (auto simp: Option.is_none_def)
  show ?thesis
    using missing_processor_stops_drain [OF s x _ r d, of "demo_cenv\<lparr>processors := (\<lambda>i. None)\<rparr>" 0 2 demo_env] by auto
qed

section \<open>Broadcasts\<close>

definition demo_report :: progress_report where
  "demo_report = \<lparr>pr_code = None, pr_details = None, pr_message = None, pr_timestamp = None,
     pr_executorMetadata = None, pr_receivedAt = 0\<rparr>"

theorem progress_starvation_witness:
  "emitted (broadcast_run (report_events demo_row [(0, demo_report), (250, demo_report), (500, demo_report)])) = []"
  by (rule progress_starvation) (simp add: PROGRESS_THROTTLE_MS_def)

end
