(* ===== verification/Task_Run_Examples.thy ===== *)
theory Task_Run_Examples
  imports Task_Run Task_Examples
begin

text \<open>
  The theorems on runners and job agents, applied in the small installation of the other examples.
\<close>

section \<open>A worker task\<close>

definition demo_runner :: "tx_error + work_error option \<Rightarrow> runner_env" where
  "demo_runner r = \<lparr>executeServerlessAppTask = (\<lambda>x a w db. (r, db)), executeAppDockerJob = (\<lambda>j db. (Inr None, db)),
     profiles = (\<lambda>a p. Some ''{}''), randomUUIDv5 = (\<lambda>s n. s @ n), thrown_name = (\<lambda>e. ''Error''), call_stack = ''s''\<rparr>"

definition demo_failure :: work_error where
  "demo_failure = WorkError ''Outer'' PlatformOrigin ''PLATFORM'' ''m'' None None None None
     (Some (WorkError ''Inner'' AppOrigin ''APP'' ''bad input'' None None None None None))"

definition plain_args :: trigger_args where "plain_args = demo_args\<lparr>ta_onComplete := []\<rparr>"

lemma empty_ok: "db_ok env empty_db"
  by (simp add: db_ok_def table_ok_def empty_db_def)

lemma Inr_pair: "\<not> isl (fst p) \<Longrightarrow> p = (Inr (projr (fst p)), snd p)"
  by (metis prod.collapse sum.collapse(2))

definition plain_trigger :: "(tx_error + task) \<times> task_db" where
  "plain_trigger = triggerAppActionTask 2 demo_env 10 ''req'' ''demo'' ''job'' plain_args empty_db"

lemma plain_trigger_result:
  "triggerAppActionTask (Suc 1) demo_env 10 ''req'' ''demo'' ''job'' plain_args empty_db
     = (Inr (projr (fst plain_trigger)), snd plain_trigger)"
proof -
  have "\<not> isl (fst plain_trigger)" by code_simp
  then show ?thesis using Inr_pair [of plain_trigger] by (simp add: plain_trigger_def numeral_2_eq_2)
qed

theorem worker_task_runs_witness:
  "\<exists>k db2 y. executeCoreTask 2 \<lparr>processors = runner_processors 2 (demo_runner (Inr (Some demo_failure))) demo_env,
        toEnvelope = core_task_error (demo_runner (Inr (Some demo_failure)))\<rparr> demo_env 50 k (snd plain_trigger) = (Inr (), db2)
     \<and> map_of (tasks db2) (task_id (projr (fst plain_trigger))) = Some y \<and> completedAt y = Some 50 \<and> success y = Some False"
proof -
  have "no_listeners demo_env" by code_simp
  moreover have "handlerType (projr (fst plain_trigger)) = ''runtime''" by code_simp
  moreover have "executor_gives (demo_runner r) r" for r by (simp add: executor_gives_def demo_runner_def still_def)
  ultimately show ?thesis
    using worker_task_runs [OF _ empty_ok plain_trigger_result, of "demo_runner (Inr (Some demo_failure))"
        "Inr (Some demo_failure)" _ 2 50]
    by (simp add: plain_args_def demo_failure_def)
qed

definition runner_started :: task_db where
  "runner_started = demo_step (20, StartTask ''uuu'' JNull) demo_triggered"

definition runner_task :: task where "runner_task = the (map_of (tasks runner_started) ''uuu'')"

definition demo_run :: "(tx_error + unit) \<times> task_db" where
  "demo_run = runServerlessWorker 2 (demo_runner (Inr (Some demo_failure))) demo_env 30 runner_task runner_started"

lemma runner_reachable: "task_reachable 2 demo_cenv demo_env runner_started"
  unfolding runner_started_def by (intro task_reachable.intros demo_triggered_reachable)

lemma reachable_table: "task_reachable 2 demo_cenv demo_env db \<Longrightarrow> table_ok demo_env (tasks db)"
  using reachable_ok [OF _ demo_processors] by (simp add: db_ok_def)

lemma lookup_the: "\<not> Option.is_none (map_of t i) \<Longrightarrow> map_of t i = Some (the (map_of t i))"
  by (simp add: Option.is_none_def)

theorem serverless_outcome_witness:
  "\<exists>i y' x'. data_string runner_task ''innerTaskId'' = Some i
     \<and> map_of (tasks (snd demo_run)) i = Some y' \<and> map_of (tasks (snd demo_run)) (task_id runner_task) = Some x'
     \<and> success x' = Some True \<and> success y' = Some False"
proof -
  have "\<not> Option.is_none (map_of (tasks runner_started) ''uuu'')" by code_simp
  then have row: "map_of (tasks runner_started) ''uuu'' = Some runner_task"
    unfolding runner_task_def by (rule lookup_the)
  have id: "task_id runner_task = ''uuu''" by code_simp
  have st: "startedAt runner_task = Some 20" by code_simp
  have "\<not> isl (fst demo_run)" by code_simp
  then have run: "runServerlessWorker 2 (demo_runner (Inr (Some demo_failure))) demo_env 30 runner_task runner_started
      = (Inr (), snd demo_run)"
    using Inr_pair [of demo_run] by (simp add: demo_run_def)
  have exec: "executeServerlessAppTask (demo_runner r) s a w d = (r, d)" for r s a w d by (simp add: demo_runner_def)
  show ?thesis
    using serverless_outcome [OF reachable_table [OF runner_reachable] row [folded id] _ run]
    by (auto simp: st exec demo_failure_def)
qed

section \<open>A container job\<close>

definition demo_claims :: job_claims where
  "demo_claims = \<lparr>cl_jobId = ''jj'', cl_taskId = ''uuu'', cl_executorMetadata = JNull, cl_rules = []\<rparr>"

definition job_started :: task_db where
  "job_started = demo_step (20, StartTask ''u'' JNull) (demo_step (20, StartTask ''uuu'' JNull)
     (demo_step (10, TriggerApp ''req'' ''demo'' ''child'' demo_args) empty_db))"

definition demo_outcome :: job_outcome where
  "demo_outcome = JobFailed None ''E'' ''m'' AppOrigin None (Some 1000)"

definition job_done :: "(tx_error + unit) \<times> task_db" where
  "job_done = completeJob 2 demo_env 30 demo_claims demo_outcome job_started"

lemma job_reachable: "task_reachable 2 demo_cenv demo_env job_started"
  unfolding job_started_def by (intro task_reachable.intros)

lemma job_done_result: "completeJob 2 demo_env 30 demo_claims demo_outcome job_started = (Inr (), snd job_done)"
proof -
  have "\<not> isl (fst job_done)" by code_simp
  then show ?thesis using Inr_pair [of job_done] by (simp add: job_done_def)
qed

theorem complete_job_exact_witness:
  "\<exists>i d' y'. map_of (tasks (snd job_done)) ''uuu'' = Some d' \<and> map_of (tasks (snd job_done)) i = Some y'
     \<and> success d' = Some True \<and> success y' = Some False \<and> completedAt y' = Some 30"
  using complete_job_exact [OF reachable_table [OF job_reachable] job_done_result]
  by (auto simp: demo_claims_def demo_outcome_def)

theorem completed_job_closed_witness:
  "isl (fst (completeJob 2 demo_env 60 demo_claims (JobSucceeded JNull)
     (fold demo_step [(40, StartTask ''u'' JNull), (50, PollSchedules False)] (snd job_done))))"
  using completed_job_closed [OF job_reachable demo_processors job_done_result refl refl, of 60]
  by blast

text \<open>The same job, when the task of the app was completed in another way: the completion of the
  runner comes first and is taken back.\<close>

definition job_raced :: task_db where
  "job_raced = demo_step (25, Complete ''u'' (Succeeded None JNull)) job_started"

definition job_lost :: "(tx_error + unit) \<times> task_db" where
  "job_lost = completeJob 2 demo_env 30 demo_claims demo_outcome job_raced"

theorem complete_job_atomic_witness:
  "\<exists>x. map_of (tasks (snd job_lost)) ''uuu'' = Some x \<and> completedAt x = None \<and> startedAt x = Some 20"
proof -
  have "isl (fst job_lost)" by code_simp
  then have "job_lost = (Inl (projl (fst job_lost)), snd job_lost)" by (metis prod.collapse sum.collapse(1))
  then have lost: "completeJob 2 demo_env 30 demo_claims demo_outcome job_raced = (Inl (projl (fst job_lost)), snd job_lost)"
    by (simp add: job_lost_def)
  have "\<not> Option.is_none (map_of (tasks job_raced) ''uuu'')" by code_simp
  moreover have "completedAt (the (map_of (tasks job_raced) ''uuu'')) = None"
    "startedAt (the (map_of (tasks job_raced) ''uuu'')) = Some 20" by code_simp+
  ultimately show ?thesis using complete_job_atomic [OF lost lookup_the] by blast
qed

end
