(* ===== verification/Notify_Content.thy ===== *)
theory Notify_Content
  imports Task_Runners
begin

text \<open>
  The texts of notifications (packages/api, notification/util/notification-content.util.ts) and of
  their emails (notification/processors/send-notification-emails.processor.ts), with the encoding
  of object keys in a path (packages/utils, s3.util.ts).  A string is a sequence of bytes.
\<close>

section \<open>Object keys in a URL\<close>

definition uri_plain :: "char \<Rightarrow> bool" where
  "uri_plain c = (let n = (of_char c :: nat) in (48 \<le> n \<and> n \<le> 57) \<or> (65 \<le> n \<and> n \<le> 90) \<or> (97 \<le> n \<and> n \<le> 122)
     \<or> n \<in> {45, 95, 46, 33, 126, 42, 39, 40, 41})"

definition encodeURIComponent :: "string \<Rightarrow> string" where
  "encodeURIComponent s = concat (map (\<lambda>c. if uri_plain c then [c]
     else [CHR ''%'', hex_digit ((of_char c :: nat) div 16), hex_digit ((of_char c :: nat) mod 16)]) s)"

text \<open>\<open>s.replace(/p/g, r)\<close> for a literal \<open>p\<close> that is not empty.\<close>

function replace_all :: "string \<Rightarrow> string \<Rightarrow> string \<Rightarrow> string" where
  "replace_all p r [] = []"
| "replace_all p r (c # s) = (if p \<noteq> [] \<and> starts_with (c # s) p then r @ replace_all p r (drop (length p) (c # s))
     else c # replace_all p r s)"
  by pat_completeness auto
termination
  by (relation "measure (\<lambda>(p, r, s). length s)") (auto simp: Suc_le_eq)

definition encodeObjectKeyPreservingSlashes :: "string \<Rightarrow> string" where
  "encodeObjectKeyPreservingSlashes key = replace_all ''%2F'' ''/'' (encodeURIComponent key)"

text \<open>\<open>decodeURIComponent\<close>: \<open>None\<close> is a \<open>URIError\<close>.\<close>

fun decodeURIComponent :: "string \<Rightarrow> string option" where
  "decodeURIComponent [] = Some []"
| "decodeURIComponent (c # s) =
     (if c \<noteq> CHR ''%'' then map_option ((#) c) (decodeURIComponent s)
      else (case s of
          h # l # r \<Rightarrow> (case (hex_value h, hex_value l) of
             (Some a, Some b) \<Rightarrow> map_option ((#) (char_of (16 * a + b))) (decodeURIComponent r)
           | _ \<Rightarrow> None)
        | _ \<Rightarrow> None))"

section \<open>Titles, bodies and paths\<close>

definition upper_char :: "char \<Rightarrow> char" where
  "upper_char c = (if 97 \<le> (of_char c :: nat) \<and> (of_char c :: nat) \<le> 122
                   then char_of ((of_char c :: nat) - 32) else c)"

definition DEFAULT_EVENT_TITLES :: "(string \<times> string) list" where
  "DEFAULT_EVENT_TITLES = [(''object_added'', ''Object added''), (''object_removed'', ''Object removed''),
     (''object_updated'', ''Object updated''), (''folder_scanned'', ''Folder scanned''),
     (''serverless_task_enqueued'', ''Task enqueued''), (''docker_task_enqueued'', ''Task enqueued''),
     (''new_user_registered'', ''New user registered'')]"

definition capitalize :: "string \<Rightarrow> string" where
  "capitalize w = map upper_char (take 1 w) @ to_lower (drop 1 w)"

definition defaultTitleFallback :: "string \<Rightarrow> string" where
  "defaultTitleFallback i = (case map_of DEFAULT_EVENT_TITLES i of
     Some t \<Rightarrow> t | None \<Rightarrow> join_on (CHR '' '') (map capitalize (split_on (CHR ''_'') i)))"

definition counted_title :: "event list option \<Rightarrow> string \<Rightarrow> string \<Rightarrow> string" where
  "counted_title es many one = (case es of
     Some xs \<Rightarrow> if 1 < length xs then digits_of 10 (length xs) @ many else one
   | None \<Rightarrow> one)"

definition buildNotificationTitle :: "event \<Rightarrow> event list option \<Rightarrow> string" where
  "buildNotificationTitle e es =
     (let i = event_identifier e
      in if i = ''object_added'' then counted_title es '' objects added'' ''Object added''
         else if i = ''object_removed'' then counted_title es '' objects removed'' ''Object removed''
         else if i = ''object_updated'' then counted_title es '' objects updated'' ''Object updated''
         else if i = ''folder_scanned'' then ''Folder scanned''
         else defaultTitleFallback i)"

definition buildNotificationBody :: "event \<Rightarrow> event list option \<Rightarrow> string option" where
  "buildNotificationBody e es =
     (if event_identifier e \<in> {''object_added'', ''object_removed'', ''object_updated''}
      then (if truthy (event_objectKey e) then event_objectKey e else None)
      else None)"

definition buildNotificationPath :: "event \<Rightarrow> event list option \<Rightarrow> string option" where
  "buildNotificationPath e es =
     (if truthy (event_folderId e)
      then Some (if truthy (event_objectKey e) \<and> es = None
                 then ''/folders/'' @ the (event_folderId e) @ ''/objects/''
                        @ encodeObjectKeyPreservingSlashes (the (event_objectKey e))
                 else ''/folders/'' @ the (event_folderId e))
      else None)"

section \<open>Emails\<close>

definition escape_char :: "char \<Rightarrow> string" where
  "escape_char c =
     (if c = CHR ''&'' then ''&amp;'' else if c = CHR ''<'' then ''&lt;'' else if c = CHR ''>'' then ''&gt;''
      else if c = CHR 0x22 then ''&quot;'' else if c = CHR 0x27 then ''&#039;'' else [c])"

definition escapeHtml :: "string \<Rightarrow> string" where
  "escapeHtml s = concat (map escape_char s)"

definition buildTextEmail :: "string \<Rightarrow> string option \<Rightarrow> string \<Rightarrow> string" where
  "buildTextEmail title body url = title @ [CHR 0x0A, CHR 0x0A]
     @ (if truthy body then the body @ [CHR 0x0A, CHR 0x0A] else [])
     @ ''View notification: '' @ url @ [CHR 0x0A]"

text \<open>The page around title, body and address, as its constant parts.\<close>

definition quoted :: "string \<Rightarrow> string" where "quoted s = CHR 0x22 # s @ [CHR 0x22]"
definition html_line :: "string \<Rightarrow> string" where "html_line s = s @ [CHR 0x0A]"

definition html_head :: string where
  "html_head = concat (map html_line [''<!DOCTYPE html>'', ''<html>'', ''<head>'',
     ''  <meta charset='' @ quoted ''utf-8'' @ ''>'',
     ''  <meta name='' @ quoted ''viewport'' @ '' content='' @ quoted ''width=device-width, initial-scale=1.0'' @ ''>'',
     ''</head>'',
     ''<body style='' @ quoted (''font-family: -apple-system, BlinkMacSystemFont, '' @ [CHR 0x27] @ ''Segoe UI'' @ [CHR 0x27]
        @ '', Roboto, '' @ [CHR 0x27] @ ''Helvetica Neue'' @ [CHR 0x27]
        @ '', Arial, sans-serif; line-height: 1.6; color: #333; max-width: 600px; margin: 0 auto; padding: 20px;'') @ ''>'',
     ''  <div style='' @ quoted ''background-color: #f8f9fa; border-radius: 8px; padding: 30px; margin-bottom: 20px;'' @ ''>''])
     @ ''    <h1 style='' @ quoted ''margin: 0 0 15px 0; font-size: 24px; color: #1a1a1a;'' @ ''>''"

definition html_body :: "string option \<Rightarrow> string" where
  "html_body body = (if truthy body
     then ''<p style='' @ quoted ''color: #666; margin-bottom: 20px;'' @ ''>'' @ escapeHtml (the body) @ ''</p>''
     else [])"

definition html_link :: string where
  "html_link = quoted (''display: inline-block; background-color: #007bff; color: white; text-decoration: none; ''
     @ ''padding: 12px 24px; border-radius: 6px; font-weight: 500; margin-top: 10px;'')"

definition html_foot :: string where
  "html_foot = concat (map html_line [''  </div>'',
     ''  <p style='' @ quoted ''color: #999; font-size: 12px; text-align: center;'' @ ''>'',
     ''    You received this email because you have email notifications enabled for this event type.'',
     ''  </p>'', ''</body>'']) @ ''</html>''"

definition buildHtmlEmail :: "string \<Rightarrow> string option \<Rightarrow> string \<Rightarrow> string" where
  "buildHtmlEmail title body url =
     html_head @ html_line (escapeHtml title @ ''</h1>'')
     @ html_line (''    '' @ html_body body)
     @ html_line (''    <a href='' @ [CHR 0x22] @ escapeHtml url @ [CHR 0x22] @ '' style='' @ html_link @ ''>View Notification</a>'')
     @ html_foot"

record platform_origin =
  platformHost :: string
  platformHttps :: bool
  platformPort :: "nat option"

definition buildPlatformOrigin :: "platform_origin \<Rightarrow> string" where
  "buildPlatformOrigin c = (if platformHttps c then ''https'' else ''http'') @ ''://'' @ platformHost c
     @ (case platformPort c of None \<Rightarrow> [] | Some p \<Rightarrow> if p \<in> {80, 443} then [] else CHR '':'' # digits_of 10 p)"

end
