(* ===== verification/Notify_Engine.thy ===== *)
theory Notify_Engine
  imports Notify_Content Task_Core
begin

text \<open>
  Notifications (packages/api, notification): the batching decision
  (services/notification-batching.service.ts), the settings of a user
  (services/notification-settings.service.ts), and the three core tasks that turn a batch of events
  into a notification, a notification into deliveries and deliveries into emails
  (processors/create-event-notifications, notification-deliveries, send-notification-emails).
  A query without an order gives its rows in the order of the table.
\<close>

section \<open>Batching\<close>

record batching_decision =
  shouldFlush :: bool
  requeueDelayMs :: "int option"

definition ABSOLUTE_MAX_REQUEUES :: rat where "ABSOLUTE_MAX_REQUEUES = 100"

text \<open>Debounce and longest interval in seconds; \<open>None\<close> when notifications are not enabled.\<close>

definition batching_config :: "string \<Rightarrow> string \<Rightarrow> (int \<times> int option) option" where
  "batching_config emitter i = (if emitter = CORE_IDENTIFIER \<and> getCoreEventAggregationConfig i \<noteq> None
     then Some (5, Some 60) else None)"

definition max_requeues :: "int option \<Rightarrow> rat" where
  "max_requeues m = (case m of Some s \<Rightarrow> if s \<noteq> 0 then of_int s + 10 else ABSOLUTE_MAX_REQUEUES
     | None \<Rightarrow> ABSOLUTE_MAX_REQUEUES)"

text \<open>Both outcomes of the last test flush, as in the code.\<close>

definition flush_decision :: "int \<Rightarrow> int \<Rightarrow> int option \<Rightarrow> rat \<Rightarrow> int list \<Rightarrow> batching_decision" where
  "flush_decision now debounceSeconds maxIntervalSeconds requeueCount timestamps =
     (let flush = \<lparr>shouldFlush = True, requeueDelayMs = None\<rparr>;
          lastUnhandledAt = Max (set timestamps); firstUnhandledAt = Min (set timestamps)
      in if timestamps = [] then \<lparr>shouldFlush = False, requeueDelayMs = None\<rparr>
         else if debounceSeconds = 0 then flush
         else if now \<le> lastUnhandledAt then flush
         else
           let quietForMs = now - lastUnhandledAt; debounceMs = debounceSeconds * 1000
           in if quietForMs < debounceMs then
                (if max_requeues maxIntervalSeconds \<le> requeueCount then flush
                 else \<lparr>shouldFlush = False, requeueDelayMs = Some (max 1000 (debounceMs - quietForMs))\<rparr>)
              else (case maxIntervalSeconds of
                  Some s \<Rightarrow> if s \<noteq> 0 \<and> s * 1000 \<le> now - firstUnhandledAt then flush else flush
                | None \<Rightarrow> flush))"

definition unhandled_events :: "string \<Rightarrow> task_db \<Rightarrow> event list" where
  "unhandled_events key db =
     filter (\<lambda>e. event_aggregationKey e = Some key \<and> event_handledAt e = None) (map snd (events db))"

definition getUnhandledEvents :: "string \<Rightarrow> event list txm" where
  "getUnhandledEvents key = (\<lambda>db. (Inr (unhandled_events key db), db))"

definition shouldFlushEvents :: "int \<Rightarrow> string \<Rightarrow> string \<Rightarrow> string \<Rightarrow> rat \<Rightarrow> batching_decision txm" where
  "shouldFlushEvents now key emitter i requeueCount =
     (case batching_config emitter i of
        None \<Rightarrow> tx_return \<lparr>shouldFlush = False, requeueDelayMs = None\<rparr>
      | Some (debounce, longest) \<Rightarrow> tx_bind (getUnhandledEvents key) (\<lambda>es.
          tx_return (flush_decision now debounce longest requeueCount (map event_createdAt es))))"

section \<open>A notification for a batch\<close>

definition data_number :: "task \<Rightarrow> string \<Rightarrow> rat option" where
  "data_number x k = (case js_prop (task_data x) k of Some (Some (JNum r)) \<Rightarrow> Some r | _ \<Rightarrow> None)"

definition requeue_count :: "task \<Rightarrow> rat" where
  "requeue_count x = (case data_number x ''requeueCount'' of None \<Rightarrow> 0 | Some r \<Rightarrow> r)"

text \<open>The task that looks at a batch again.\<close>

definition batch_task :: "task_env \<Rightarrow> int \<Rightarrow> string \<Rightarrow> string \<Rightarrow> json \<Rightarrow> int option \<Rightarrow> task" where
  "batch_task env now i request data start =
     (blank_task env i CORE_IDENTIFIER ''create_event_notifications'' ''Create event notifications''
        (UserAction ''system'' request) data ''core'' now)\<lparr>dontStartBefore := start\<rparr>"

definition queueCreateEventNotificationsTask :: "task_env \<Rightarrow> int \<Rightarrow> string \<Rightarrow> int option \<Rightarrow> unit txm" where
  "queueCreateEventNotificationsTask env now key delayMs =
     tx_bind (draw_uuid env) (\<lambda>i. tx_bind (draw_uuid env) (\<lambda>request.
       insert_tasks [batch_task env now i request (JObj [(''aggregationKey'', JStr key)])
         (case delayMs of Some ms \<Rightarrow> if ms \<noteq> 0 then Some (now + ms) else None | None \<Rightarrow> None)]))"

definition requeue_batch :: "task_env \<Rightarrow> int \<Rightarrow> string \<Rightarrow> rat \<Rightarrow> int \<Rightarrow> unit txm" where
  "requeue_batch env now key count delay =
     tx_bind (draw_uuid env) (\<lambda>i. tx_bind (draw_uuid env) (\<lambda>request.
       insert_tasks [batch_task env now i request
         (JObj [(''aggregationKey'', JStr key), (''requeueCount'', JNum (count + 1))]) (Some (now + delay))]))"

definition insert_notification :: "notification \<Rightarrow> unit txm" where
  "insert_notification x = (\<lambda>db. if ntf_id x \<in> ntf_id ` set (notifications db)
     then (Inl (Thrown ''duplicate key value violates unique constraint''), db)
     else (Inr (), db\<lparr>notifications := notifications db @ [x]\<rparr>))"

text \<open>The number of rows that were updated.\<close>

definition mark_handled :: "int \<Rightarrow> string list \<Rightarrow> nat txm" where
  "mark_handled now ids = (\<lambda>db.
     (let hit = (\<lambda>(i, e). i \<in> set ids \<and> event_handledAt e = None)
      in (Inr (length (filter hit (events db))),
          db\<lparr>events := map (\<lambda>(i, e). if hit (i, e) then (i, e\<lparr>event_handledAt := Some now\<rparr>) else (i, e)) (events db)\<rparr>)))"

definition notification_of :: "string \<Rightarrow> string \<Rightarrow> int \<Rightarrow> event list \<Rightarrow> notification" where
  "notification_of i key now es =
     (let e = hd es
      in \<lparr>ntf_id = i, ntf_eventIdentifier = event_identifier e, ntf_emitterIdentifier = event_emitterId e,
          ntf_aggregationKey = key, ntf_folderId = event_folderId e, ntf_objectKey = event_objectKey e,
          ntf_targetUserId = event_targetUserId e, ntf_eventIds = map event_id es,
          ntf_title = buildNotificationTitle e (Some es), ntf_body = buildNotificationBody e (Some es),
          ntf_path = buildNotificationPath e None, ntf_createdAt = now\<rparr>)"

definition system_task :: "task_env \<Rightarrow> int \<Rightarrow> string \<Rightarrow> string \<Rightarrow> string \<Rightarrow> json \<Rightarrow> json \<Rightarrow> int option \<Rightarrow> task" where
  "system_task env now i name description key data start =
     (blank_task env i CORE_IDENTIFIER name description (SystemAction (Some key) []) data ''core'' now)
     \<lparr>dontStartBefore := start\<rparr>"

definition queue_deliveries :: "task_env \<Rightarrow> int \<Rightarrow> string \<Rightarrow> string \<Rightarrow> unit txm" where
  "queue_deliveries env now key i =
     tx_bind (tx_lift (getUtcTimestampBucket 2 Seconds (now + 2000))) (\<lambda>(bucketIndex, bucketStart).
     tx_bind (draw_uuid env) (\<lambda>j.
       insert_tasks [system_task env now j ''build_notification_deliveries'' ''Create notification deliveries''
         (JObj [(''aggregationKey'', JStr key), (''bucketIndex'', JNum (of_int bucketIndex))])
         (JObj [(''notificationId'', JStr i)]) None]))"

definition flush_batch :: "task_env \<Rightarrow> int \<Rightarrow> string \<Rightarrow> unit txm" where
  "flush_batch env now key = transaction (
     tx_bind (getUnhandledEvents key) (\<lambda>es.
       if es = [] then tx_return ()
       else tx_bind (draw_uuid env) (\<lambda>i.
         tx_then (insert_notification (notification_of i key now es))
        (tx_bind (mark_handled now (map event_id es)) (\<lambda>updated.
         if updated \<noteq> length es then tx_throw ''Another task may have processed some events''
         else queue_deliveries env now key i)))))"

definition createEventNotifications :: "task_env \<Rightarrow> int \<Rightarrow> task \<Rightarrow> unit txm" where
  "createEventNotifications env now x =
     (let key = string_or_empty (data_string x ''aggregationKey'')
      in tx_bind (getUnhandledEvents key) (\<lambda>es. case es of
           [] \<Rightarrow> tx_return ()
         | e # rest \<Rightarrow>
             tx_bind (shouldFlushEvents now key (event_emitterId e) (event_identifier e) (requeue_count x)) (\<lambda>d.
               if \<not> shouldFlush d then
                 (case requeueDelayMs d of
                    Some ms \<Rightarrow> if ms \<noteq> 0 then requeue_batch env now key (requeue_count x) ms else tx_return ()
                  | None \<Rightarrow> tx_return ())
               else flush_batch env now key)))"

text \<open>\<open>createNotificationFromEvents\<close> of the notification service.\<close>

definition createNotificationFromEvents :: "task_env \<Rightarrow> int \<Rightarrow> event list \<Rightarrow> string \<Rightarrow> notification txm" where
  "createNotificationFromEvents env now es key =
     (if es = [] then tx_throw ''Cannot create notification from empty events array''
      else tx_bind (draw_uuid env) (\<lambda>i.
        tx_then (insert_notification (notification_of i key now es)) (tx_return (notification_of i key now es))))"

section \<open>Settings\<close>

datatype channel = Web | Email | Mobile

record setting =
  set_userId :: string
  set_eventIdentifier :: string
  set_emitterIdentifier :: string
  set_channel :: channel
  set_enabled :: bool
  set_folderId :: "string option"

record channel_settings =
  ch_web :: bool
  ch_email :: bool
  ch_mobile :: bool

definition default_channels :: channel_settings where
  "default_channels = \<lparr>ch_web = True, ch_email = False, ch_mobile = False\<rparr>"

definition apply_setting :: "setting \<Rightarrow> channel_settings \<Rightarrow> channel_settings" where
  "apply_setting s c = (case set_channel s of
       Web \<Rightarrow> c\<lparr>ch_web := set_enabled s\<rparr> | Email \<Rightarrow> c\<lparr>ch_email := set_enabled s\<rparr>
     | Mobile \<Rightarrow> c\<lparr>ch_mobile := set_enabled s\<rparr>)"

definition settings_for :: "setting list \<Rightarrow> string \<Rightarrow> string \<Rightarrow> string \<Rightarrow> string option \<Rightarrow> setting list" where
  "settings_for t u ev emitter folder = filter (\<lambda>s. set_userId s = u \<and> set_eventIdentifier s = ev
     \<and> set_emitterIdentifier s = emitter \<and> set_folderId s = folder) t"

definition resolveSettings :: "setting list \<Rightarrow> string \<Rightarrow> string \<Rightarrow> string \<Rightarrow> string option \<Rightarrow> channel_settings" where
  "resolveSettings t u ev emitter folder =
     (let resolved = fold apply_setting (settings_for t u ev emitter None) default_channels
      in if truthy folder then fold apply_setting (settings_for t u ev emitter folder) resolved else resolved)"

text \<open>The columns of the unique index.\<close>

definition setting_key :: "setting \<Rightarrow> string \<times> string \<times> string \<times> channel" where
  "setting_key s = (set_userId s, set_emitterIdentifier s, set_eventIdentifier s, set_channel s)"

record setting_input =
  in_eventIdentifier :: string
  in_emitterIdentifier :: string
  in_channel :: channel
  in_enabled :: bool

definition setting_of :: "string \<Rightarrow> string option \<Rightarrow> setting_input \<Rightarrow> setting" where
  "setting_of u folder i = \<lparr>set_userId = u, set_eventIdentifier = in_eventIdentifier i,
     set_emitterIdentifier = in_emitterIdentifier i, set_channel = in_channel i, set_enabled = in_enabled i,
     set_folderId = folder\<rparr>"

definition same_setting :: "setting \<Rightarrow> setting \<Rightarrow> bool" where
  "same_setting s r \<longleftrightarrow> setting_key r = setting_key s \<and> set_folderId r = set_folderId s"

text \<open>\<open>updateUserSettings\<close> (folder \<open>None\<close>) and \<open>updateFolderSettings\<close>: one statement after the other,
  so the settings before one that throws stay.\<close>

definition update_setting :: "setting \<Rightarrow> setting list \<Rightarrow> (string + unit) \<times> setting list" where
  "update_setting s t =
     (if list_ex (same_setting s) t
      then (Inr (), map (\<lambda>r. if same_setting s r then r\<lparr>set_enabled := set_enabled s\<rparr> else r) t)
      else if setting_key s \<in> setting_key ` set t
      then (Inl ''duplicate key value violates unique constraint'', t)
      else (Inr (), t @ [s]))"

fun update_settings :: "setting list \<Rightarrow> setting list \<Rightarrow> (string + unit) \<times> setting list" where
  "update_settings [] t = (Inr (), t)"
| "update_settings (s # ss) t = (case update_setting s t of
       (Inl e, t') \<Rightarrow> (Inl e, t') | (Inr _, t') \<Rightarrow> update_settings ss t')"

definition updateUserSettings :: "string \<Rightarrow> setting_input list \<Rightarrow> setting list \<Rightarrow> (string + unit) \<times> setting list" where
  "updateUserSettings u is = update_settings (map (setting_of u None) is)"

definition updateFolderSettings :: "string \<Rightarrow> string \<Rightarrow> setting_input list \<Rightarrow> setting list \<Rightarrow> (string + unit) \<times> setting list" where
  "updateFolderSettings u folder is = update_settings (map (setting_of u (Some folder)) is)"

definition getUserSettings :: "setting list \<Rightarrow> string \<Rightarrow> string option \<Rightarrow> string option \<Rightarrow> setting list" where
  "getUserSettings t u ev emitter =
     (if truthy ev \<and> truthy emitter then settings_for t u (the ev) (the emitter) None
      else filter (\<lambda>s. set_userId s = u \<and> set_folderId s = None) t)"

definition getFolderSettings :: "setting list \<Rightarrow> string \<Rightarrow> string \<Rightarrow> string option \<Rightarrow> string option \<Rightarrow> setting list" where
  "getFolderSettings t u folder ev emitter =
     (if truthy ev \<and> truthy emitter then settings_for t u (the ev) (the emitter) (Some folder)
      else filter (\<lambda>s. set_userId s = u \<and> set_folderId s = Some folder) t)"

section \<open>Deliveries\<close>

text \<open>What the processors read of other parts: the owner and the shares of a folder, the settings,
  the email address of a user (\<open>None\<close>: no such user), the sender of emails (\<open>None\<close>: not configured)
  and the outcome of sending one.\<close>

datatype email_outcome = EmailAccepted | EmailNotConfigured | EmailRejected

record notify_env =
  folder_members :: "string \<Rightarrow> (string option \<times> string list) option"
  user_settings :: "setting list"
  user_email :: "string \<Rightarrow> string option option"
  email_from :: "string option"
  origin :: platform_origin
  sendEmail :: "int \<Rightarrow> email \<Rightarrow> email_outcome"

definition set_add :: "string \<Rightarrow> string list \<Rightarrow> string list" where
  "set_add u us = (if u \<in> set us then us else us @ [u])"

definition getRelevantUsers :: "notify_env \<Rightarrow> notification \<Rightarrow> string list" where
  "getRelevantUsers nenv x =
     (let members = (if truthy (ntf_folderId x)
            then (case folder_members nenv (the (ntf_folderId x)) of
                None \<Rightarrow> []
              | Some (owner, shares) \<Rightarrow> fold set_add shares (if truthy owner then [the owner] else []))
            else [])
      in if truthy (ntf_targetUserId x) then set_add (the (ntf_targetUserId x)) members else members)"

definition same_delivery :: "string \<Rightarrow> string \<Rightarrow> delivery \<Rightarrow> bool" where
  "same_delivery n u d \<longleftrightarrow> dl_notificationId d = n \<and> dl_userId d = u"

definition request_channel :: "bool \<Rightarrow> channel_status option \<Rightarrow> channel_status option" where
  "request_channel wanted s = (if wanted \<and> s = None then Some PendingChannel else s)"

definition upsertDelivery :: "task_env \<Rightarrow> string \<Rightarrow> string \<Rightarrow> bool \<Rightarrow> bool \<Rightarrow> unit txm" where
  "upsertDelivery env n u email mobile = tx_bind (draw_uuid env) (\<lambda>i db.
     if list_ex (same_delivery n u) (deliveries db)
     then (Inr (), db\<lparr>deliveries := map (\<lambda>d. if same_delivery n u d
             then d\<lparr>dl_email := request_channel email (dl_email d), dl_mobile := request_channel mobile (dl_mobile d)\<rparr>
             else d) (deliveries db)\<rparr>)
     else if i \<in> dl_id ` set (deliveries db)
     then (Inl (Thrown ''duplicate key value violates unique constraint''), db)
     else (Inr (), db\<lparr>deliveries := deliveries db @ [\<lparr>dl_id = i, dl_notificationId = n, dl_userId = u,
             dl_email = request_channel email None, dl_mobile = request_channel mobile None\<rparr>]\<rparr>))"

definition find_notification :: "string \<Rightarrow> notification option txm" where
  "find_notification i = (\<lambda>db. (Inr (find (\<lambda>x. ntf_id x = i) (notifications db)), db))"

text \<open>\<open>firstEvent.data.actorId ?? null\<close>.\<close>

definition actor_of :: "notification \<Rightarrow> json txm" where
  "actor_of x = (\<lambda>db. (Inr (case ntf_eventIds x of
       [] \<Rightarrow> JNull
     | i # _ \<Rightarrow> (case map_of (events db) i of
           None \<Rightarrow> JNull
         | Some e \<Rightarrow> (case data_field e ''actorId'' of None \<Rightarrow> JNull | Some v \<Rightarrow> v))), db))"

definition channels_of :: "notify_env \<Rightarrow> notification \<Rightarrow> string \<Rightarrow> channel_settings" where
  "channels_of nenv x u =
     resolveSettings (user_settings nenv) u (ntf_eventIdentifier x) (ntf_emitterIdentifier x) (ntf_folderId x)"

definition deliver_to :: "task_env \<Rightarrow> notify_env \<Rightarrow> notification \<Rightarrow> json \<Rightarrow> string \<Rightarrow> unit txm" where
  "deliver_to env nenv x actor u =
     (let c = channels_of nenv x u
      in tx_then (upsertDelivery env (ntf_id x) u (ch_email c) (ch_mobile c))
           (tx_when (actor \<noteq> JStr u) (send (NotificationDelivered u (ntf_id x)))))"

definition queue_emails :: "task_env \<Rightarrow> int \<Rightarrow> int \<Rightarrow> int \<Rightarrow> unit txm" where
  "queue_emails env now interval start =
     tx_bind (tx_lift (getUtcTimestampBucket interval Seconds start)) (\<lambda>(bucketIndex, bucketStart).
     tx_bind (draw_uuid env) (\<lambda>i.
       insert_tasks [system_task env now i ''send_notification_emails'' ''Send batched notification emails''
         (JObj [(''bucketIndex'', JNum (of_int bucketIndex))]) (JObj [(''bucketIndex'', JNum (of_int bucketIndex))])
         (Some start)]))"

definition buildNotificationDeliveries :: "task_env \<Rightarrow> notify_env \<Rightarrow> int \<Rightarrow> task \<Rightarrow> unit txm" where
  "buildNotificationDeliveries env nenv now x =
     tx_bind (find_notification (string_or_empty (data_string x ''notificationId''))) (\<lambda>found. case found of
       None \<Rightarrow> tx_throw ''Notification not found''
     | Some y \<Rightarrow> tx_bind (actor_of y) (\<lambda>actor.
         let users = getRelevantUsers nenv y
         in tx_then (tx_each (deliver_to env nenv y actor) users)
              (tx_when (list_ex (\<lambda>u. ch_email (channels_of nenv y u)) users) (queue_emails env now 5 (now + 2000)))))"

section \<open>Emails\<close>

definition email_of :: "notify_env \<Rightarrow> string \<Rightarrow> delivery \<Rightarrow> notification \<Rightarrow> string \<Rightarrow> email" where
  "email_of nenv from d x to =
     (let url = buildPlatformOrigin (origin nenv) @ (if truthy (ntf_path x) then the (ntf_path x) else ''/notifications'')
      in \<lparr>em_delivery = dl_id d, em_to = to, em_from = from, em_subject = ntf_title x,
          em_text = buildTextEmail (ntf_title x) (ntf_body x) url,
          em_html = buildHtmlEmail (ntf_title x) (ntf_body x) url\<rparr>)"

text \<open>The pending deliveries with their notification and user, at most 100.\<close>

definition pending_emails :: "notify_env \<Rightarrow> task_db \<Rightarrow> (delivery \<times> notification \<times> string option) list" where
  "pending_emails nenv db = take 100 (List.map_filter (\<lambda>d.
     if dl_email d \<noteq> Some PendingChannel then None
     else (case (find (\<lambda>x. ntf_id x = dl_notificationId d) (notifications db), user_email nenv (dl_userId d)) of
         (Some x, Some a) \<Rightarrow> Some (d, x, a) | _ \<Rightarrow> None)) (deliveries db))"

text \<open>The emails that are sent, the deliveries they are for and those that failed.  The loop stops when
  the provider turns out not to be configured.\<close>

fun send_loop :: "notify_env \<Rightarrow> string \<Rightarrow> int \<Rightarrow> (delivery \<times> notification \<times> string option) list \<Rightarrow> email list \<times> string list" where
  "send_loop nenv from now [] = ([], [])"
| "send_loop nenv from now ((d, x, a) # rest) =
     (if \<not> truthy a then (case send_loop nenv from now rest of (ms, fs) \<Rightarrow> (ms, dl_id d # fs))
      else let m = email_of nenv from d x (the a)
           in (case sendEmail nenv now m of
               EmailAccepted \<Rightarrow> (case send_loop nenv from now rest of (ms, fs) \<Rightarrow> (m # ms, fs))
             | EmailRejected \<Rightarrow> (case send_loop nenv from now rest of (ms, fs) \<Rightarrow> (ms, dl_id d # fs))
             | EmailNotConfigured \<Rightarrow> ([], [])))"

definition set_email_status :: "channel_status \<Rightarrow> string list \<Rightarrow> task_db \<Rightarrow> task_db" where
  "set_email_status s ids db = db\<lparr>deliveries := map (\<lambda>d. if dl_id d \<in> set ids then d\<lparr>dl_email := Some s\<rparr> else d) (deliveries db)\<rparr>"

definition sendNotificationEmails :: "task_env \<Rightarrow> notify_env \<Rightarrow> int \<Rightarrow> task \<Rightarrow> unit txm" where
  "sendNotificationEmails env nenv now x =
     (case email_from nenv of
        None \<Rightarrow> tx_return ()
      | Some from \<Rightarrow> (\<lambda>db.
          (let pending = pending_emails nenv db; (mails, failed) = send_loop nenv from now pending
           in tx_when (length pending = 100) (queue_emails env now 1 (now + 1000))
                (set_email_status FailedChannel failed
                  (set_email_status SentChannel (map em_delivery mails)
                    (db\<lparr>outbox := outbox db @ mails\<rparr>))))))"

definition notification_processors :: "task_env \<Rightarrow> notify_env \<Rightarrow> string \<Rightarrow> (bool \<times> (int \<Rightarrow> task \<Rightarrow> unit txm)) option" where
  "notification_processors env nenv name =
     (if name = ''create_event_notifications'' then Some (True, createEventNotifications env)
      else if name = ''build_notification_deliveries'' then Some (True, buildNotificationDeliveries env nenv)
      else if name = ''send_notification_emails'' then Some (True, sendNotificationEmails env nenv)
      else None)"

end
