(* ===== verification/Notify_Invariant.thy ===== *)
theory Notify_Invariant
  imports Notify_Engine Task_System
begin

text \<open>
  The invariant of events, notifications, deliveries and emails, kept by every operation of the
  task engine and by the three processors: an event is reported in one notification at most, and
  marked as handled exactly when it was; a user has one delivery of a notification; and a delivery
  is sent in one email at most.
\<close>

section \<open>The invariant\<close>

definition reported :: "task_db \<Rightarrow> string list" where
  "reported db = concat (map ntf_eventIds (notifications db))"

definition reports_ok :: "task_db \<Rightarrow> bool" where
  "reports_ok db \<longleftrightarrow> distinct (map fst (events db)) \<and> (\<forall>(i, e) \<in> set (events db). event_id e = i)
     \<and> distinct (map ntf_id (notifications db)) \<and> distinct (reported db)
     \<and> (\<forall>(i, e) \<in> set (events db). event_handledAt e \<noteq> None \<longleftrightarrow> i \<in> set (reported db))
     \<and> (\<forall>x \<in> set (notifications db). \<forall>i \<in> set (ntf_eventIds x).
          \<exists>e. (i, e) \<in> set (events db) \<and> event_aggregationKey e = Some (ntf_aggregationKey x))"

definition delivery_key :: "delivery \<Rightarrow> string \<times> string" where
  "delivery_key d = (dl_notificationId d, dl_userId d)"

definition mail_ok :: "task_db \<Rightarrow> bool" where
  "mail_ok db \<longleftrightarrow> distinct (map dl_id (deliveries db)) \<and> distinct (map delivery_key (deliveries db))
     \<and> distinct (map em_delivery (outbox db))
     \<and> (\<forall>m \<in> set (outbox db). \<exists>d \<in> set (deliveries db). dl_id d = em_delivery m \<and> dl_email d = Some SentChannel)"

definition notify_ok :: "task_db \<Rightarrow> bool" where
  "notify_ok db \<longleftrightarrow> reports_ok db \<and> mail_ok db"

definition notify_rel :: "task_db \<Rightarrow> task_db \<Rightarrow> bool" where
  "notify_rel db db' \<longleftrightarrow> (notify_ok db \<longrightarrow> notify_ok db')"

text \<open>The tables of the invariant, and what leaves them alone.\<close>

lemma notify_ok_cong:
  "events db' = events db \<Longrightarrow> notifications db' = notifications db \<Longrightarrow> deliveries db' = deliveries db \<Longrightarrow>
   outbox db' = outbox db \<Longrightarrow> notify_ok db' = notify_ok db"
  by (simp add: notify_ok_def reports_ok_def mail_ok_def reported_def)

definition frame_rel :: "task_db \<Rightarrow> task_db \<Rightarrow> bool" where
  "frame_rel db db' \<longleftrightarrow> (notify_ok db \<longrightarrow> notify_ok db') \<and> outbox db' = outbox db"

lemma frame_same: "events db' = events db \<Longrightarrow> notifications db' = notifications db \<Longrightarrow> deliveries db' = deliveries db \<Longrightarrow>
   outbox db' = outbox db \<Longrightarrow> frame_rel db db'"
  using notify_ok_cong [of db' db] by (simp add: frame_rel_def)

lemma new_event_ok:
  assumes ok: "reports_ok db" and new: "event_id e \<notin> fst ` set (events db)" and e: "event_handledAt e = None"
  shows "reports_ok (db\<lparr>events := events db @ [(event_id e, e)]\<rparr>)"
proof -
  have "event_id e \<notin> set (reported db)"
    using ok new unfolding reports_ok_def reported_def by (auto simp: image_iff) (metis fst_conv)
  then show ?thesis
    using ok new e unfolding reports_ok_def reported_def by (simp add: ball_Un) blast
qed

lemma insert_event_frame:
  assumes "event_handledAt e = None"
  shows "tx_keeps frame_rel (insert_event e)"
  unfolding tx_keeps_def
proof
  fix db
  show "frame_rel db (snd (insert_event e db))"
  proof (cases "map_of (events db) (event_id e)")
    case None
    then have new: "event_id e \<notin> fst ` set (events db)" by (simp add: map_of_eq_None_iff)
    then show ?thesis
      using new_event_ok [OF _ new assms] None by (simp add: insert_event_def frame_rel_def notify_ok_def mail_ok_def)
  qed (simp add: insert_event_def frame_rel_def)
qed

lemma insert_tasks_frame: "tx_keeps frame_rel (insert_tasks xs)"
  by (auto simp: tx_keeps_def insert_tasks_def intro!: frame_same split: option.split)

interpretation frame: task_frame frame_rel env for env
proof
  show "frame_rel db db" for db by (simp add: frame_rel_def)
  show "frame_rel a c" if "frame_rel a b" "frame_rel b c" for a b c using that by (simp add: frame_rel_def)
  show "tx_keeps frame_rel (send k)" "tx_keeps frame_rel (draw_uuid env)" for k env
    by (auto simp: tx_keeps_def send_def draw_uuid_def intro!: frame_same)
  show "tx_keeps frame_rel (insert_event e)" if "event_handledAt e = None" for e
    using that by (rule insert_event_frame)
  show "tx_keeps frame_rel (insert_tasks xs)" for xs by (rule insert_tasks_frame)
  show "tx_keeps frame_rel (insert_outside x)" for x
    by (auto simp: tx_keeps_def insert_outside_def intro!: frame_same split: option.split)
  show "tx_keeps frame_rel (update_where i p f)" for i p f
    by (auto simp: tx_keeps_def update_where_def intro!: frame_same split: option.split)
  show "frame_rel db (d\<lparr>outside := []\<rparr>)" if "frame_rel (db\<lparr>outside := []\<rparr>) d" for db d
    using that notify_ok_cong [of "db\<lparr>outside := []\<rparr>" db] notify_ok_cong [of "d\<lparr>outside := []\<rparr>" d] by (simp add: frame_rel_def)
  show "frame_rel db (d\<lparr>outside := [], events := events db, notifications := notifications db,
      deliveries := deliveries db, tasks := t\<rparr>)" if "frame_rel (db\<lparr>outside := []\<rparr>) d" for db d t
    using that by (intro frame_same) (simp_all add: frame_rel_def)
  show "frame_rel db (count_running g db)" for db g by (rule frame_same) (simp_all add: count_running_def)
qed

lemma frame_notify: "tx_keeps frame_rel m \<Longrightarrow> tx_keeps notify_rel m"
  by (erule tx_keeps_mono) (simp add: frame_rel_def notify_rel_def)

interpretation notify: core_engine notify_rel env for env
proof
  show "notify_rel db db" for db by (simp add: notify_rel_def)
  show "notify_rel a c" if "notify_rel a b" "notify_rel b c" for a b c using that by (simp add: notify_rel_def)
  show "tx_keeps notify_rel (send k)" for k by (rule frame_notify, rule frame.keeps_send)
  show "notify_rel db (count_running f db)" for db f using frame.keeps_count by (simp add: notify_rel_def frame_rel_def)
  show "tx_keeps notify_rel (registerTaskCompleted n env now i c)" for n now i c
    by (rule frame_notify, rule frame.frame_completed)
  show "notify_rel db (snd (transaction (start_core_task now i) db))" for db now i
    using frame_notify [OF frame.frame_start_core] by (rule tx_keepsD)
  show "tx_keeps notify_rel (registerTaskStarted now i m)" for now i m
    by (rule frame_notify, rule frame.frame_started)
  show "tx_keeps notify_rel (complete_both n env now i ci j cj)" for n now i ci j cj
    by (rule frame_notify, rule frame.frame_both)
qed

section \<open>The notification of a batch\<close>

definition marked :: "int \<Rightarrow> string list \<Rightarrow> string \<times> event \<Rightarrow> string \<times> event" where
  "marked now ids = (\<lambda>(i, e). if i \<in> set ids \<and> event_handledAt e = None then (i, e\<lparr>event_handledAt := Some now\<rparr>) else (i, e))"

lemma marked_fst: "fst (marked now ids p) = fst p"
  by (simp add: marked_def split: prod.split)

lemma mark_handled_db: "snd (mark_handled now ids db) = db\<lparr>events := map (marked now ids) (events db)\<rparr>"
  by (simp add: mark_handled_def marked_def Let_def)

lemma marked_there: "(i, e) \<in> set es \<Longrightarrow>
  \<exists>e'. (i, e') \<in> set (map (marked now ids) es) \<and> event_aggregationKey e' = event_aggregationKey e"
proof -
  assume e: "(i, e) \<in> set es"
  obtain e' where e': "marked now ids (i, e) = (i, e')" "event_aggregationKey e' = event_aggregationKey e"
    by (cases "i \<in> set ids \<and> event_handledAt e = None") (auto simp: marked_def)
  have "(i, e') \<in> set (map (marked now ids) es)" unfolding set_map e'(1) [symmetric] using e by (rule imageI)
  then show ?thesis using e'(2) by blast
qed

lemma unhandled_iff:
  assumes "\<forall>(i, e) \<in> set (events db). event_id e = i"
  shows "j \<in> event_id ` set (unhandled_events key db)
    \<longleftrightarrow> (\<exists>e. (j, e) \<in> set (events db) \<and> event_aggregationKey e = Some key \<and> event_handledAt e = None)"
proof
  assume "j \<in> event_id ` set (unhandled_events key db)"
  then obtain e i where e: "(i, e) \<in> set (events db)" "event_aggregationKey e = Some key" "event_handledAt e = None"
    "j = event_id e"
    by (auto simp: unhandled_events_def)
  then have "i = j" using assms by blast
  then show "\<exists>e. (j, e) \<in> set (events db) \<and> event_aggregationKey e = Some key \<and> event_handledAt e = None"
    using e by blast
next
  assume "\<exists>e. (j, e) \<in> set (events db) \<and> event_aggregationKey e = Some key \<and> event_handledAt e = None"
  then obtain e where e: "(j, e) \<in> set (events db)" "event_aggregationKey e = Some key" "event_handledAt e = None"
    by blast
  then have "event_id e = j" using assms by blast
  moreover have "e \<in> snd ` set (events db)" using e(1) by (metis imageI snd_conv)
  ultimately show "j \<in> event_id ` set (unhandled_events key db)"
    using e(2,3) by (auto simp: unhandled_events_def intro!: image_eqI [of _ event_id e])
qed

lemma unhandled_distinct:
  assumes "distinct (map fst (events db))" and "\<forall>(i, e) \<in> set (events db). event_id e = i"
  shows "distinct (map event_id (unhandled_events key db))"
proof -
  have "map event_id (map snd (events db)) = map fst (events db)" using assms(2) by auto
  then show ?thesis using assms(1) unfolding unhandled_events_def by (metis distinct_map_filter)
qed

lemma mark_ok:
  assumes ok: "reports_ok db" and x: "ntf_eventIds x = map event_id (unhandled_events key db)"
      "ntf_aggregationKey x = key" "ntf_id x \<notin> ntf_id ` set (notifications db)"
  shows "reports_ok (db\<lparr>notifications := notifications db @ [x],
    events := map (marked now (map event_id (unhandled_events key db))) (events db)\<rparr>)"
    (is "reports_ok ?db")
proof -
  let ?ids = "map event_id (unhandled_events key db)"
  have keys: "distinct (map fst (events db))" and ids: "\<forall>(i, e) \<in> set (events db). event_id e = i"
    and handled: "\<forall>(i, e) \<in> set (events db). event_handledAt e \<noteq> None \<longleftrightarrow> i \<in> set (reported db)"
    using ok by (simp_all add: reports_ok_def)
  have in_ids: "j \<in> set ?ids \<longleftrightarrow> (\<exists>e. (j, e) \<in> set (events db) \<and> event_aggregationKey e = Some key \<and> event_handledAt e = None)" for j
    using unhandled_iff [OF ids] by simp
  have fresh: "i \<notin> set (reported db)" if "i \<in> set ?ids" for i
  proof -
    obtain e where "(i, e) \<in> set (events db)" "event_handledAt e = None" using \<open>i \<in> set ?ids\<close> unfolding in_ids by blast
    then show ?thesis using handled by fastforce
  qed
  have new: "reported ?db = reported db @ ?ids" by (simp add: reported_def x(1))
  have row: "\<exists>e0. (i, e0) \<in> set (events db) \<and> event_id e = event_id e0 \<and> event_aggregationKey e = event_aggregationKey e0
      \<and> (event_handledAt e \<noteq> None \<longleftrightarrow> event_handledAt e0 \<noteq> None \<or> i \<in> set ?ids)"
    if "(i, e) \<in> set (events ?db)" for i e
  proof -
    have "(i, e) \<in> marked now ?ids ` set (events db)" using that by simp
    then obtain j e0 where p: "(j, e0) \<in> set (events db)" "(i, e) = marked now ?ids (j, e0)" by (elim imageE) auto
    then have "j = i" by (cases "j \<in> set ?ids \<and> event_handledAt e0 = None") (auto simp: marked_def)
    with p have e0: "(i, e0) \<in> set (events db)" "(i, e) = marked now ?ids (i, e0)" by simp_all
    show ?thesis
      by (intro exI [of _ e0], cases "i \<in> set ?ids \<and> event_handledAt e0 = None") (use e0 in \<open>auto simp: marked_def\<close>)
  qed
  have there: "\<exists>e'. (i, e') \<in> set (events ?db) \<and> event_aggregationKey e' = event_aggregationKey e"
    if "(i, e) \<in> set (events db)" for i e
    using marked_there [OF that, where ids = ?ids and now = now] by simp
  have "distinct (map fst (events ?db))" using keys by (simp add: comp_def marked_fst)
  moreover have "\<forall>(i, e) \<in> set (events ?db). event_id e = i" using row ids by fastforce
  moreover have "distinct (map ntf_id (notifications ?db))" using ok x(3) by (simp add: reports_ok_def)
  moreover have "distinct (reported ?db)"
    unfolding new using ok fresh unhandled_distinct [OF keys ids] by (auto simp: reports_ok_def)
  moreover have "event_handledAt e \<noteq> None \<longleftrightarrow> i \<in> set (reported ?db)" if p: "(i, e) \<in> set (events ?db)" for i e
  proof -
    obtain e0 where e0: "(i, e0) \<in> set (events db)"
      and e: "event_handledAt e \<noteq> None \<longleftrightarrow> event_handledAt e0 \<noteq> None \<or> i \<in> set ?ids"
      using row [OF p] by blast
    have "event_handledAt e0 \<noteq> None \<longleftrightarrow> i \<in> set (reported db)" using handled e0 by blast
    then show ?thesis unfolding e new by auto
  qed
  moreover have "\<exists>e. (i, e) \<in> set (events ?db) \<and> event_aggregationKey e = Some (ntf_aggregationKey y)"
    if y: "y \<in> set (notifications ?db)" "i \<in> set (ntf_eventIds y)" for y i
  proof -
    have "\<exists>e. (i, e) \<in> set (events db) \<and> event_aggregationKey e = Some (ntf_aggregationKey y)"
    proof (cases "y = x")
      case True
      then show ?thesis using y(2) in_ids x(1,2) by auto
    next
      case False
      then show ?thesis using y ok by (auto simp: reports_ok_def)
    qed
    then show ?thesis using there by metis
  qed
  ultimately show ?thesis unfolding reports_ok_def by blast
qed

lemma keeps_lift: "tx_keeps frame_rel (tx_lift r)"
  by (cases r) (simp_all add: tx_lift_def frame.keeps_pure)

lemma queue_keeps:
  "tx_keeps frame_rel (tx_bind (tx_lift r) (\<lambda>(bucket, start). tx_bind (draw_uuid env) (\<lambda>j. insert_tasks [f bucket j])))"
  unfolding split_beta by (intro frame.frame_rules keeps_lift insert_tasks_frame)

lemma batch_saved:
  assumes k: "\<And>updated. tx_keeps frame_rel (k updated)"
  shows "frame_rel db (snd (tx_then (insert_notification (notification_of i key now (unhandled_events key db)))
    (tx_bind (mark_handled now (map event_id (unhandled_events key db))) k) db))"
proof (cases "i \<in> ntf_id ` set (notifications db)")
  case True
  then show ?thesis by (simp add: insert_notification_def notification_of_def Let_def tx_then_def tx_bind_def frame.R_refl)
next
  case False
  let ?x = "notification_of i key now (unhandled_events key db)" and ?ids = "map event_id (unhandled_events key db)"
  have x: "ntf_eventIds ?x = ?ids" "ntf_aggregationKey ?x = key" "ntf_id ?x = i"
    by (simp_all add: notification_of_def Let_def)
  obtain u d where m: "mark_handled now ?ids (db\<lparr>notifications := notifications db @ [?x]\<rparr>) = (Inr u, d)"
    by (simp add: mark_handled_def Let_def)
  have d: "d = db\<lparr>notifications := notifications db @ [?x], events := map (marked now ?ids) (events db)\<rparr>"
    using mark_handled_db [of now ?ids "db\<lparr>notifications := notifications db @ [?x]\<rparr>"] m by simp
  have "frame_rel db d"
    using mark_ok [of db ?x key now] False x by (simp add: d frame_rel_def notify_ok_def mail_ok_def)
  moreover have "frame_rel d (snd (k u d))" using k by (rule tx_keepsD)
  ultimately have "frame_rel db (snd (k u d))" by (rule frame.R_trans)
  then show ?thesis using False m by (simp add: insert_notification_def tx_then_def tx_bind_def x(3))
qed

lemma flush_keeps: "tx_keeps frame_rel (flush_batch env now key)"
  unfolding flush_batch_def
proof (rule frame.keeps_transaction, unfold tx_keeps_def, rule allI)
  fix db
  let ?k = "\<lambda>es i updated. if updated \<noteq> length es then tx_throw ''Another task may have processed some events''
    else queue_deliveries env now key i"
  let ?es = "unhandled_events key db" and ?db = "db\<lparr>drawn := Suc (drawn db)\<rparr>" and ?i = "uuid env (drawn db)"
  have "unhandled_events key ?db = ?es" by (simp add: unhandled_events_def)
  moreover have "tx_keeps frame_rel (?k ?es ?i updated)" for updated
    unfolding queue_deliveries_def by (intro frame.keeps_if frame.keeps_pure queue_keeps)
  ultimately have "frame_rel ?db (snd (tx_then (insert_notification (notification_of ?i key now ?es))
      (tx_bind (mark_handled now (map event_id ?es)) (?k ?es ?i)) ?db))"
    using batch_saved [of "?k ?es ?i" ?db ?i key now] by simp
  moreover have "frame_rel db ?db" by (rule frame_same) simp_all
  ultimately show "frame_rel db (snd (tx_bind (getUnhandledEvents key) (\<lambda>es. if es = [] then tx_return ()
      else tx_bind (draw_uuid env) (\<lambda>i. tx_then (insert_notification (notification_of i key now es))
        (tx_bind (mark_handled now (map event_id es)) (?k es i)))) db))"
    using frame.R_trans frame.R_refl
    by (cases "?es = []") (simp_all add: getUnhandledEvents_def tx_bind_def draw_uuid_def tx_return_def)
qed

end
