(* ===== verification/Notify_Once.thy ===== *)
theory Notify_Once
  imports Notify_Invariant
begin

text \<open>
  The notification processors run by the task engine: together with every other operation they keep
  the invariant of events, notifications, deliveries and emails.
\<close>

section \<open>Deliveries\<close>

lemma reports_ok_cong:
  "events db' = events db \<Longrightarrow> notifications db' = notifications db \<Longrightarrow> reports_ok db' = reports_ok db"
  by (simp add: reports_ok_def reported_def)

definition with_requests :: "string \<Rightarrow> string \<Rightarrow> bool \<Rightarrow> bool \<Rightarrow> delivery \<Rightarrow> delivery" where
  "with_requests n u email mobile d = (if same_delivery n u d
     then d\<lparr>dl_email := request_channel email (dl_email d), dl_mobile := request_channel mobile (dl_mobile d)\<rparr> else d)"

lemma with_requests_simps [simp]:
  "dl_id (with_requests n u a b d) = dl_id d" "delivery_key (with_requests n u a b d) = delivery_key d"
  "dl_email d = Some s \<Longrightarrow> dl_email (with_requests n u a b d) = Some s"
  by (simp_all add: with_requests_def delivery_key_def request_channel_def)

lemma upsert_keeps: "tx_keeps frame_rel (upsertDelivery env n u email mobile)"
  unfolding tx_keeps_def
proof
  fix db :: task_db
  let ?i = "uuid env (drawn db)" and ?db = "db\<lparr>drawn := Suc (drawn db)\<rparr>"
  show "frame_rel db (snd (upsertDelivery env n u email mobile db))"
  proof (cases "list_ex (same_delivery n u) (deliveries db)")
    case True
    let ?ds = "map (with_requests n u email mobile) (deliveries db)"
    have "mail_ok (?db\<lparr>deliveries := ?ds\<rparr>)" if "mail_ok db"
      using that by (auto simp: mail_ok_def comp_def) (metis (no_types, lifting) with_requests_simps(1,3))
    then have "frame_rel db (?db\<lparr>deliveries := ?ds\<rparr>)"
      using reports_ok_cong [of "?db\<lparr>deliveries := ?ds\<rparr>" db] by (simp add: frame_rel_def notify_ok_def)
    then show ?thesis
      using True by (simp add: upsertDelivery_def tx_bind_def draw_uuid_def with_requests_def [abs_def])
  next
    case False
    let ?d = "\<lparr>dl_id = ?i, dl_notificationId = n, dl_userId = u,
      dl_email = request_channel email None, dl_mobile = request_channel mobile None\<rparr>"
    have new: "(n, u) \<notin> delivery_key ` set (deliveries db)"
      using False by (auto simp: list_ex_iff same_delivery_def delivery_key_def)
    show ?thesis
    proof (cases "?i \<in> dl_id ` set (deliveries db)")
      case True
      then show ?thesis
        using False by (auto simp: upsertDelivery_def tx_bind_def draw_uuid_def intro!: frame_same)
    next
      case i: False
      have "mail_ok (?db\<lparr>deliveries := deliveries db @ [?d]\<rparr>)" if "mail_ok db"
        using that new i by (auto simp: mail_ok_def delivery_key_def)
      then have "frame_rel db (?db\<lparr>deliveries := deliveries db @ [?d]\<rparr>)"
        using reports_ok_cong [of "?db\<lparr>deliveries := deliveries db @ [?d]\<rparr>" db] by (simp add: frame_rel_def notify_ok_def)
      then show ?thesis
        using False i by (simp add: upsertDelivery_def tx_bind_def draw_uuid_def)
    qed
  qed
qed

lemma queue_emails_keeps: "tx_keeps frame_rel (queue_emails env now k start)"
  unfolding queue_emails_def by (rule queue_keeps)

lemma deliveries_keep: "tx_keeps frame_rel (buildNotificationDeliveries env nenv now x)"
  unfolding buildNotificationDeliveries_def deliver_to_def Let_def
proof (rule frame.keeps_bind)
  show "tx_keeps frame_rel (find_notification i)" for i by (simp add: tx_keeps_def find_notification_def frame.R_refl)
next
  have a: "tx_keeps frame_rel (actor_of y)" for y by (simp add: tx_keeps_def actor_of_def frame.R_refl)
  show "tx_keeps frame_rel (case found of None \<Rightarrow> tx_throw ''Notification not found''
      | Some y \<Rightarrow> tx_bind (actor_of y) (\<lambda>actor.
          tx_then (tx_each (\<lambda>u. tx_then (upsertDelivery env (ntf_id y) u (ch_email (channels_of nenv y u)) (ch_mobile (channels_of nenv y u)))
              (tx_when (actor \<noteq> JStr u) (send (NotificationDelivered u (ntf_id y))))) (getRelevantUsers nenv y))
            (tx_when (list_ex (\<lambda>u. ch_email (channels_of nenv y u)) (getRelevantUsers nenv y)) (queue_emails env now 5 (now + 2000)))))"
    for found
    by (intro frame.keeps_rules frame.keeps_send upsert_keeps queue_emails_keeps a)
qed

section \<open>Emails\<close>

lemma send_loop_ids:
  assumes "send_loop nenv from now ps = (ms, fs)" and "distinct (map (dl_id \<circ> fst) ps)"
  shows "set (map em_delivery ms @ fs) \<subseteq> (dl_id \<circ> fst) ` set ps \<and> distinct (map em_delivery ms @ fs)"
  using assms
proof (induction ps arbitrary: ms fs)
  case (Cons p ps)
  obtain d x a where p: "p = (d, x, a)" by (cases p)
  obtain ms' fs' where rest: "send_loop nenv from now ps = (ms', fs')" by (cases "send_loop nenv from now ps")
  have new: "dl_id d \<notin> (dl_id \<circ> fst) ` set ps" "distinct (map (dl_id \<circ> fst) ps)" using Cons.prems(2) p by (auto simp: comp_def)
  note IH = Cons.IH [OF rest new(2)]
  consider "(ms, fs) = (ms', dl_id d # fs')" | "(ms, fs) = (email_of nenv from d x (the a) # ms', fs')" | "(ms, fs) = ([], [])"
    using Cons.prems(1) by (auto simp: p rest Let_def split: if_splits email_outcome.splits)
  then show ?case
  proof cases
    case 1 then show ?thesis using IH new p by auto
  next
    case 2
    moreover have "em_delivery (email_of nenv from d x (the a)) = dl_id d" by (simp add: email_of_def Let_def)
    ultimately show ?thesis using IH new p by auto
  qed simp
qed simp

lemma pending_ids:
  assumes "distinct (map dl_id (deliveries db))"
  shows "distinct (map (dl_id \<circ> fst) (pending_emails nenv db))"
    and "p \<in> set (pending_emails nenv db) \<Longrightarrow> fst p \<in> set (deliveries db) \<and> dl_email (fst p) = Some PendingChannel"
proof -
  define f where "f = (\<lambda>d :: delivery. if dl_email d \<noteq> Some PendingChannel then None
     else (case (find (\<lambda>x. ntf_id x = dl_notificationId d) (notifications db), user_email nenv (dl_userId d)) of
         (Some x, Some a) \<Rightarrow> Some (d, x, a) | _ \<Rightarrow> None))"
  have f: "fst y = d \<and> dl_email d = Some PendingChannel" if "f d = Some y" for d y
    using that by (auto simp: f_def split: if_splits option.splits)
  have pending: "pending_emails nenv db = take 100 (List.map_filter f (deliveries db))"
    by (simp add: pending_emails_def f_def)
  have all: "set (List.map_filter f ds) \<subseteq> {p. fst p \<in> set ds \<and> dl_email (fst p) = Some PendingChannel}" for ds
    by (induction ds) (auto simp: List.map_filter_simps split: option.splits dest: f)
  have "distinct (map (dl_id \<circ> fst) (List.map_filter f ds))" if "distinct (map dl_id ds)" for ds
    using that
  proof (induction ds)
    case (Cons d ds)
    then show ?case
      using all [of ds] f [of d] by (cases "f d") (force simp: List.map_filter_simps)+
  qed (simp add: List.map_filter_simps)
  then show "distinct (map (dl_id \<circ> fst) (pending_emails nenv db))"
    using assms by (simp add: pending take_map [symmetric])
  show "fst p \<in> set (deliveries db) \<and> dl_email (fst p) = Some PendingChannel" if "p \<in> set (pending_emails nenv db)"
    using that all [of "deliveries db"] in_set_takeD unfolding pending by fast
qed

definition mail_status :: "channel_status \<Rightarrow> string list \<Rightarrow> delivery \<Rightarrow> delivery" where
  "mail_status s ids d = (if dl_id d \<in> set ids then d\<lparr>dl_email := Some s\<rparr> else d)"

lemma mail_status_simps [simp]:
  "dl_id (mail_status s ids d) = dl_id d" "delivery_key (mail_status s ids d) = delivery_key d"
  "dl_email (mail_status s ids d) = (if dl_id d \<in> set ids then Some s else dl_email d)"
  by (simp_all add: mail_status_def delivery_key_def)

lemma set_email_status_deliveries:
  "set_email_status s ids db = db\<lparr>deliveries := map (mail_status s ids) (deliveries db)\<rparr>"
  by (simp add: set_email_status_def mail_status_def [abs_def])

lemma sent_mails_ok:
  assumes ok: "mail_ok db" and loop: "send_loop nenv from now (pending_emails nenv db) = (ms, fs)"
  shows "mail_ok (set_email_status FailedChannel fs (set_email_status SentChannel (map em_delivery ms)
    (db\<lparr>outbox := outbox db @ ms\<rparr>)))"
proof -
  have ids: "distinct (map dl_id (deliveries db))" and out: "distinct (map em_delivery (outbox db))"
    and was: "\<forall>m \<in> set (outbox db). \<exists>d \<in> set (deliveries db). dl_id d = em_delivery m \<and> dl_email d = Some SentChannel"
    using ok by (simp_all add: mail_ok_def)
  let ?f = "\<lambda>d. mail_status FailedChannel fs (mail_status SentChannel (map em_delivery ms) d)"
  have loop_ids: "set (map em_delivery ms @ fs) \<subseteq> (dl_id \<circ> fst) ` set (pending_emails nenv db)"
    "distinct (map em_delivery ms @ fs)"
    using send_loop_ids [OF loop pending_ids(1) [OF ids]] by simp_all
  have pending: "\<exists>d \<in> set (deliveries db). dl_id d = i \<and> dl_email d = Some PendingChannel"
    if "i \<in> set (map em_delivery ms @ fs)" for i
  proof -
    have "i \<in> (dl_id \<circ> fst) ` set (pending_emails nenv db)" using that loop_ids(1) by blast
    then show ?thesis using pending_ids(2) [OF ids] by fastforce
  qed
  have before: "em_delivery m \<notin> set (map em_delivery ms @ fs)" if m: "m \<in> set (outbox db)" for m
  proof
    assume "em_delivery m \<in> set (map em_delivery ms @ fs)"
    then obtain d where d: "d \<in> set (deliveries db)" "dl_id d = em_delivery m" "dl_email d = Some PendingChannel"
      using pending by blast
    obtain d' where d': "d' \<in> set (deliveries db)" "dl_id d' = em_delivery m" "dl_email d' = Some SentChannel"
      using was m by blast
    have "d = d'" using ids d d' by (metis inj_on_def distinct_map)
    then show False using d d' by simp
  qed
  have "\<exists>d \<in> set (deliveries db). dl_id (?f d) = em_delivery m \<and> dl_email (?f d) = Some SentChannel"
    if "m \<in> set (outbox db @ ms)" for m
  proof (cases "m \<in> set (outbox db)")
    case True
    then obtain d where d: "d \<in> set (deliveries db)" "dl_id d = em_delivery m" "dl_email d = Some SentChannel"
      using was by blast
    then show ?thesis using before [OF True] by (intro bexI [of _ d]) auto
  next
    case False
    then have m: "em_delivery m \<in> set (map em_delivery ms)" using that by auto
    then obtain d where d: "d \<in> set (deliveries db)" "dl_id d = em_delivery m" using pending [of "em_delivery m"] by auto
    have "em_delivery m \<notin> set fs" using loop_ids(2) m by auto
    then show ?thesis using d m by (intro bexI [of _ d]) auto
  qed
  moreover have "distinct (map em_delivery (outbox db @ ms))"
    using out loop_ids(2) before by auto
  moreover have "map (dl_id \<circ> ?f) ds = map dl_id ds" "map (delivery_key \<circ> ?f) ds = map delivery_key ds" for ds
    by simp_all
  ultimately show ?thesis
    using ok by (simp add: mail_ok_def set_email_status_deliveries comp_def)
qed

lemma emails_keep: "tx_keeps notify_rel (sendNotificationEmails env nenv now x)"
proof (cases "email_from nenv")
  case None
  then show ?thesis by (simp add: sendNotificationEmails_def notify.keeps_pure)
next
  case (Some sender)
  show ?thesis
    unfolding tx_keeps_def
  proof
    fix db :: task_db
    obtain ms fs where loop: "send_loop nenv sender now (pending_emails nenv db) = (ms, fs)"
      by (cases "send_loop nenv sender now (pending_emails nenv db)")
    let ?db = "set_email_status FailedChannel fs (set_email_status SentChannel (map em_delivery ms)
      (db\<lparr>outbox := outbox db @ ms\<rparr>))"
    have "reports_ok ?db = reports_ok db" by (rule reports_ok_cong) (simp_all add: set_email_status_def)
    then have "notify_rel db ?db"
      using sent_mails_ok [OF _ loop] by (simp add: notify_rel_def notify_ok_def)
    moreover have "tx_keeps notify_rel (tx_when b (queue_emails env now 1 (now + 1000)))" for b
      by (intro notify.keeps_when frame_notify queue_emails_keeps)
    ultimately have "notify_rel db (snd (tx_when b (queue_emails env now 1 (now + 1000)) ?db))" for b
      using notify.R_trans tx_keepsD by metis
    then show "notify_rel db (snd (sendNotificationEmails env nenv now x db))"
      by (simp add: sendNotificationEmails_def Some loop Let_def)
  qed
qed

section \<open>Batches\<close>

lemma batch_run_keeps: "tx_keeps frame_rel (createEventNotifications env now x)"
proof -
  have g: "tx_keeps frame_rel (getUnhandledEvents key)" for key
    by (simp add: tx_keeps_def getUnhandledEvents_def frame.R_refl)
  have s: "tx_keeps frame_rel (shouldFlushEvents now key e i r)" for key e i r
    unfolding shouldFlushEvents_def
    by (cases "batching_config e i") (auto intro!: frame.keeps_bind frame.keeps_pure g)
  have r: "tx_keeps frame_rel (requeue_batch env now key c d)" for key c d
    unfolding requeue_batch_def by (intro frame.frame_rules insert_tasks_frame)
  have d: "tx_keeps frame_rel (if \<not> shouldFlush d then (case requeueDelayMs d of
       Some ms \<Rightarrow> if ms \<noteq> 0 then requeue_batch env now key c ms else tx_return () | None \<Rightarrow> tx_return ())
     else flush_batch env now key)" for d c key
    by (intro frame.keeps_if frame.keeps_option frame.keeps_pure r flush_keeps)
  have "tx_keeps frame_rel (case es of [] \<Rightarrow> tx_return ()
     | e # rest \<Rightarrow> tx_bind (shouldFlushEvents now key (event_emitterId e) (event_identifier e) c) (\<lambda>d.
         if \<not> shouldFlush d then (case requeueDelayMs d of
             Some ms \<Rightarrow> if ms \<noteq> 0 then requeue_batch env now key c ms else tx_return () | None \<Rightarrow> tx_return ())
         else flush_batch env now key))" for es key c
    by (cases es) (auto intro!: frame.keeps_pure frame.keeps_bind s d)
  then show ?thesis
    unfolding createEventNotifications_def Let_def by (intro frame.keeps_bind g)
qed

section \<open>The platform\<close>

text \<open>The core tasks of the runners and of the notifications.\<close>

definition platform_processors ::
    "nat \<Rightarrow> runner_env \<Rightarrow> notify_env \<Rightarrow> task_env \<Rightarrow> string \<Rightarrow> (bool \<times> (int \<Rightarrow> task \<Rightarrow> unit txm)) option" where
  "platform_processors n renv nenv env name = (case notification_processors env nenv name of
       Some p \<Rightarrow> Some p | None \<Rightarrow> runner_processors n renv env name)"

definition platform :: "nat \<Rightarrow> runner_env \<Rightarrow> notify_env \<Rightarrow> task_env \<Rightarrow> core_env" where
  "platform n renv nenv env = \<lparr>processors = platform_processors n renv nenv env, toEnvelope = core_task_error renv\<rparr>"

lemma platform_keeps:
  assumes "executors_keep_rel notify_rel renv"
  shows "runs_keep notify_rel (platform n renv nenv env)"
  using notify.runners_keep [OF assms] frame_notify [OF batch_run_keeps] frame_notify [OF deliveries_keep] emails_keep
  by (auto simp: runs_keep_def platform_def platform_processors_def notification_processors_def runner_processors_def
      split: if_splits option.splits)

lemma notify_step:
  assumes "runs_keep notify_rel cenv"
  shows "notify_rel db (task_step n cenv env e db)"
proof -
  obtain now a where e: "e = (now, a)" by (cases e)
  note keeps = frame.frame_trigger frame.frame_started frame.frame_heartbeat frame.frame_completed frame.frame_progress
    frame.frame_emit frame.frame_schedules frame.frame_jobs
  show ?thesis
    by (cases a) (simp_all add: task_step_def e keeps [THEN frame_notify, THEN tx_keepsD]
        notify.start_drain_keeps [OF assms, THEN tx_keepsD])
qed

lemma reachable_notify:
  assumes "task_reachable n (platform k renv nenv env) env db" and "executors_keep_rel notify_rel renv"
  shows "notify_ok db"
  using assms(1)
proof (induction rule: task_reachable.induct)
  case init
  then show ?case by (simp add: notify_ok_def reports_ok_def mail_ok_def reported_def empty_db_def)
next
  case (step db e)
  then show ?case using notify_step [OF platform_keeps [OF assms(2)]] by (simp add: notify_rel_def)
qed

section \<open>The task table\<close>

lemma same_tables:
  assumes "tasks db' = tasks db" and "outside db' = outside db"
  shows "body_rel env db db'" and "op_rel env db db'"
proof -
  have "grows_with db db' = grows_with db db" unfolding grows_with_def assms by (rule refl)
  moreover have "db_ok env db \<longrightarrow> grows_with db db" using body.R_refl [of env db] by (simp add: body_rel_def)
  ultimately show "body_rel env db db'" using assms by (simp add: body_rel_def db_ok_def)
  show "op_rel env db db'" using op.R_refl [of env db] assms by (simp add: op_rel_def db_ok_def)
qed

lemma new_row_notify [simp]:
  "new_row env (system_task env now i name d k v s)" "new_row env (batch_task env now i r v s)"
  by (simp_all add: new_row_def system_task_def batch_task_def blank_task_def)

lemma notification_steps_keep:
  "tx_keeps (body_rel env) (getUnhandledEvents key)" "tx_keeps (body_rel env) (insert_notification x)"
  "tx_keeps (body_rel env) (mark_handled now ids)" "tx_keeps (op_rel env) (getUnhandledEvents key)"
  "tx_keeps (op_rel env) (find_notification i)" "tx_keeps (op_rel env) (actor_of x)"
  "tx_keeps (op_rel env) (upsertDelivery env n u e m)"
  by (auto simp: tx_keeps_def getUnhandledEvents_def insert_notification_def mark_handled_def Let_def
      find_notification_def actor_of_def upsertDelivery_def tx_bind_def draw_uuid_def intro!: same_tables)

lemma queue_emails_ops: "tx_keeps (op_rel env) (queue_emails env now k s)"
  unfolding queue_emails_def split_beta by (intro op.store_rules op.keeps_insert) simp

lemma flush_ops: "tx_keeps (op_rel env) (flush_batch env now key)"
  unfolding flush_batch_def queue_deliveries_def split_beta
  by (intro op_transaction body.store_rules body.keeps_insert notification_steps_keep) simp

lemma batch_ops: "tx_keeps (op_rel env) (createEventNotifications env now x)"
proof -
  have s: "tx_keeps (op_rel env) (shouldFlushEvents now key e i r)" for key e i r
    unfolding shouldFlushEvents_def
    by (cases "batching_config e i") (auto intro!: op.keeps_bind op.keeps_pure notification_steps_keep)
  have d: "tx_keeps (op_rel env) (if \<not> shouldFlush d then (case requeueDelayMs d of
       Some ms \<Rightarrow> if ms \<noteq> 0 then requeue_batch env now key c ms else tx_return () | None \<Rightarrow> tx_return ())
     else flush_batch env now key)" for d c key
    unfolding requeue_batch_def
    by (intro op.store_rules op.keeps_insert flush_ops) simp
  have "tx_keeps (op_rel env) (case es of [] \<Rightarrow> tx_return ()
     | e # rest \<Rightarrow> tx_bind (shouldFlushEvents now key (event_emitterId e) (event_identifier e) c) (\<lambda>d.
         if \<not> shouldFlush d then (case requeueDelayMs d of
             Some ms \<Rightarrow> if ms \<noteq> 0 then requeue_batch env now key c ms else tx_return () | None \<Rightarrow> tx_return ())
         else flush_batch env now key))" for es key c
    by (cases es) (auto intro!: op.keeps_pure op.keeps_bind s d)
  then show ?thesis
    unfolding createEventNotifications_def Let_def by (intro op.keeps_bind notification_steps_keep)
qed

lemma deliveries_ops: "tx_keeps (op_rel env) (buildNotificationDeliveries env nenv now x)"
  unfolding buildNotificationDeliveries_def deliver_to_def Let_def
  by (intro op.store_rules notification_steps_keep queue_emails_ops)

lemma emails_ops: "tx_keeps (op_rel env) (sendNotificationEmails env nenv now x)"
proof (cases "email_from nenv")
  case None
  then show ?thesis by (simp add: sendNotificationEmails_def op.keeps_pure)
next
  case (Some sender)
  have "op_rel env db (snd (tx_when b (queue_emails env now 1 (now + 1000)) (set_email_status s i (set_email_status s' i'
    (db\<lparr>outbox := ms\<rparr>)))))" for b db s i s' i' ms
    using op.R_trans [OF same_tables(2) tx_keepsD [OF op.keeps_when [OF queue_emails_ops]]]
    by (simp add: set_email_status_def)
  then show ?thesis by (simp add: sendNotificationEmails_def Some tx_keeps_def Let_def split_beta)
qed

lemma platform_ops:
  assumes "executors_keep renv env"
  shows "processors_keep (platform n renv nenv env) env"
  using runner_processors_keep [OF assms, of n] batch_ops deliveries_ops emails_ops
  by (auto simp: processors_keep_def runs_keep_def platform_def platform_processors_def notification_processors_def
      split: if_splits option.splits)

section \<open>Once\<close>

text \<open>C9: In every reachable database of the platform an event is reported in one notification at
  most; it is marked as handled exactly when a notification reports it; and the events of a notification
  are stored events with its aggregation key.\<close>

theorem reported_once:
  assumes "task_reachable n (platform k renv nenv env) env db" and "executors_keep_rel notify_rel renv"
  shows "distinct (concat (map ntf_eventIds (notifications db)))
    \<and> (\<forall>(i, e) \<in> set (events db). event_handledAt e \<noteq> None \<longleftrightarrow> (\<exists>x \<in> set (notifications db). i \<in> set (ntf_eventIds x)))
    \<and> (\<forall>x \<in> set (notifications db). \<forall>i \<in> set (ntf_eventIds x). \<exists>e.
         map_of (events db) i = Some e \<and> event_aggregationKey e = Some (ntf_aggregationKey x))"
proof -
  have ok: "reports_ok db" using reachable_notify [OF assms] by (simp add: notify_ok_def)
  then have "map_of (events db) i = Some e" if "(i, e) \<in> set (events db)" for i e
    using that by (simp add: reports_ok_def)
  then show ?thesis using ok unfolding reports_ok_def reported_def by simp
qed

text \<open>C18: In every reachable database of the platform at most one email was sent for a delivery, a user has
  one delivery of a notification, and a delivery for which an email was sent is marked as sent.\<close>

theorem emailed_once:
  assumes "task_reachable n (platform k renv nenv env) env db" and "executors_keep_rel notify_rel renv"
  shows "distinct (map em_delivery (outbox db))
    \<and> distinct (map (\<lambda>d. (dl_notificationId d, dl_userId d)) (deliveries db))
    \<and> (\<forall>m \<in> set (outbox db). \<exists>d \<in> set (deliveries db). dl_id d = em_delivery m \<and> dl_email d = Some SentChannel)"
  using reachable_notify [OF assms] by (simp add: notify_ok_def mail_ok_def delivery_key_def [abs_def])

end
