(* ===== verification/Notify_Flow.thy ===== *)
theory Notify_Flow
  imports Notify_Once Task_Requeue
begin

text \<open>
  What becomes of a batch of events: it is reported, or looked at again later, at most seventy times.
\<close>

section \<open>Batches\<close>

lemma config_values: "batching_config e i = Some c \<Longrightarrow> c = (5, Some 60)"
  by (auto simp: batching_config_def split: if_splits)

text \<open>The decision with the one configuration there is.\<close>

lemma decision_exact:
  assumes "ts \<noteq> []"
  shows "flush_decision now 5 (Some 60) r ts =
    (if Max (set ts) < now \<and> now < Max (set ts) + 5000 \<and> r < 70
     then \<lparr>shouldFlush = False, requeueDelayMs = Some (max 1000 (Max (set ts) + 5000 - now))\<rparr>
     else \<lparr>shouldFlush = True, requeueDelayMs = None\<rparr>)"
proof -
  define l where "l = Max (set ts)"
  show ?thesis
    using assms unfolding flush_decision_def Let_def max_requeues_def l_def [symmetric]
    by (simp add: not_le algebra_simps)
qed

lemma should_flush:
  assumes "unhandled_events key db \<noteq> []" and "batching_config em i = Some c"
  shows "shouldFlushEvents now key em i r db
    = (Inr (flush_decision now 5 (Some 60) r (map event_createdAt (unhandled_events key db))), db)"
  using config_values [OF assms(2)] assms
  by (simp add: shouldFlushEvents_def getUnhandledEvents_def tx_bind_def tx_return_def)

text \<open>What a run of the task does, in its three cases.\<close>

lemma create_cases:
  assumes key: "string_or_empty (data_string x ''aggregationKey'') = key" and es: "unhandled_events key db = e # rest"
    and l: "Max (event_createdAt ` set (unhandled_events key db)) = l"
  shows "createEventNotifications env now x db =
    (if batching_config (event_emitterId e) (event_identifier e) = None then (Inr (), db)
     else if l < now \<and> now < l + 5000 \<and> requeue_count x < 70
     then requeue_batch env now key (requeue_count x) (max 1000 (l + 5000 - now)) db
     else flush_batch env now key db)"
proof (cases "batching_config (event_emitterId e) (event_identifier e)")
  case None
  then show ?thesis
    by (simp add: createEventNotifications_def Let_def key getUnhandledEvents_def es tx_bind_def shouldFlushEvents_def
        tx_return_def)
next
  case (Some c)
  have "map event_createdAt (unhandled_events key db) \<noteq> []" by (simp add: es)
  from decision_exact [OF this, unfolded set_map l]
  have d: "shouldFlushEvents now key (event_emitterId e) (event_identifier e) r db =
    (Inr (if l < now \<and> now < l + 5000 \<and> r < 70
       then \<lparr>shouldFlush = False, requeueDelayMs = Some (max 1000 (l + 5000 - now))\<rparr>
       else \<lparr>shouldFlush = True, requeueDelayMs = None\<rparr>), db)" for r
    using should_flush [OF _ Some] es by simp
  have "max 1000 q \<noteq> (0 :: int)" for q by simp
  then show ?thesis
    by (simp add: createEventNotifications_def Let_def key getUnhandledEvents_def es tx_bind_def d Some)
qed

text \<open>The row a requeue inserts.\<close>

lemma draw_bind: "tx_bind (draw_uuid env) f db = f (uuid env (drawn db)) (db\<lparr>drawn := Suc (drawn db)\<rparr>)"
  by (simp add: tx_bind_def draw_uuid_def)

lemma requeue_row:
  assumes "requeue_batch env now key r d db = (Inr (), db')"
  obtains y where "tasks db' = tasks db @ [(task_id y, y)]" "taskIdentifier y = ''create_event_notifications''"
    "data_string y ''aggregationKey'' = Some key" "requeue_count y = r + 1" "dontStartBefore y = Some (now + d)"
    "new_row env y" "ownerId y = CORE_IDENTIFIER" "notifications db' = notifications db" "events db' = events db"
proof -
  let ?y = "batch_task env now (uuid env (drawn db)) (uuid env (Suc (drawn db)))
    (JObj [(''aggregationKey'', JStr key), (''requeueCount'', JNum (r + 1))]) (Some (now + d))"
  obtain t where t: "insert_all [?y] (tasks db) = Some t" and db': "db' = db\<lparr>drawn := Suc (Suc (drawn db)), tasks := t\<rparr>"
    using assms by (auto simp: requeue_batch_def tx_bind_def draw_uuid_def insert_tasks_def split: option.splits)
  have "t = tasks db @ [(task_id ?y, ?y)]"
    using t by (auto dest!: insert_task_append [where t' = t] split: option.splits)
  then show thesis
    by (intro that [of ?y])
      (simp_all add: db' del: insert_all.simps, simp_all add: batch_task_def blank_task_def data_string_def
        requeue_count_def data_number_def)
qed

text \<open>What a report leaves.\<close>

lemma queue_deliveries_row:
  assumes "queue_deliveries env now key i db = (Inr (), db')"
  obtains y where "tasks db' = tasks db @ [(task_id y, y)]" "taskIdentifier y = ''build_notification_deliveries''"
    "data_string y ''notificationId'' = Some i" "new_row env y" "ownerId y = CORE_IDENTIFIER" "dontStartBefore y = None"
    "notifications db' = notifications db" "events db' = events db"
proof -
  obtain b t where t: "insert_tasks [system_task env now (uuid env (drawn db)) ''build_notification_deliveries''
      ''Create notification deliveries'' (JObj [(''aggregationKey'', JStr key), (''bucketIndex'', JNum b)])
      (JObj [(''notificationId'', JStr i)]) None] (db\<lparr>drawn := Suc (drawn db)\<rparr>) = (Inr (), db')"
    using assms by (auto simp: queue_deliveries_def tx_throw_def tx_return_def tx_lift_def tx_bind_def draw_uuid_def
        split: sum.splits prod.splits)
  define y where "y = system_task env now (uuid env (drawn db)) ''build_notification_deliveries''
      ''Create notification deliveries'' (JObj [(''aggregationKey'', JStr key), (''bucketIndex'', JNum b)])
      (JObj [(''notificationId'', JStr i)]) None"
  have "tasks db' = tasks db @ [(task_id y, y)]" "notifications db' = notifications db" "events db' = events db"
    using t unfolding y_def [symmetric] by (auto simp: insert_tasks_def dest!: insert_task_append split: option.splits)
  moreover have "new_row env y" by (simp add: y_def)
  ultimately show thesis
    by (intro that [of y]) (simp_all add: y_def data_string_def system_task_def blank_task_def)
qed

lemma flush_row:
  assumes es: "unhandled_events key db = e # rest" and run: "flush_batch env now key db = (Inr (), db')"
  obtains y where "tasks db' = tasks db @ [(task_id y, y)]" "taskIdentifier y = ''build_notification_deliveries''"
    "data_string y ''notificationId'' = Some (uuid env (drawn db))" "new_row env y" "ownerId y = CORE_IDENTIFIER"
    "dontStartBefore y = None"
    "notifications db' = notifications db @ [notification_of (uuid env (drawn db)) key now (e # rest)]"
    "events db' = map (marked now (map event_id (e # rest))) (events db)"
proof -
  let ?i = "uuid env (drawn db)" and ?es = "e # rest"
  let ?d0 = "db\<lparr>outside := []\<rparr>" and ?d1 = "db\<lparr>outside := [], drawn := Suc (drawn db)\<rparr>"
  have es0: "getUnhandledEvents key ?d0 = (Inr ?es, ?d0)" using es by (simp add: getUnhandledEvents_def unhandled_events_def)
  obtain d where "tx_bind (getUnhandledEvents key) (\<lambda>es.
       if es = [] then tx_return ()
       else tx_bind (draw_uuid env) (\<lambda>i.
         tx_then (insert_notification (notification_of i key now es))
        (tx_bind (mark_handled now (map event_id es)) (\<lambda>updated.
         if updated \<noteq> length es then tx_throw ''Another task may have processed some events''
         else queue_deliveries env now key i)))) ?d0 = (Inr (), d)" and db': "db' = d\<lparr>outside := []\<rparr>"
    using run unfolding flush_batch_def by (rule transaction_Inr)
  then have "tx_then (insert_notification (notification_of ?i key now ?es))
      (tx_bind (mark_handled now (map event_id ?es)) (\<lambda>updated.
         if updated \<noteq> length ?es then tx_throw ''Another task may have processed some events''
         else queue_deliveries env now key ?i)) ?d1 = (Inr (), d)"
    by (simp add: tx_bind_def [of "getUnhandledEvents key"] es0 draw_bind cong: if_cong)
  then obtain d2 d3 u where d2: "insert_notification (notification_of ?i key now ?es) ?d1 = (Inr (), d2)"
    and d3: "mark_handled now (map event_id ?es) d2 = (Inr u, d3)" and q: "queue_deliveries env now key ?i d3 = (Inr (), d)"
    by (auto elim!: tx_thenE tx_bindE simp: tx_throw_def split: if_splits)
  obtain y where y: "tasks d = tasks d3 @ [(task_id y, y)]" "taskIdentifier y = ''build_notification_deliveries''"
    "data_string y ''notificationId'' = Some ?i" "new_row env y" "ownerId y = CORE_IDENTIFIER" "dontStartBefore y = None"
    "notifications d = notifications d3" "events d = events d3"
    using q by (rule queue_deliveries_row)
  have d1: "d2 = ?d1\<lparr>notifications := notifications db @ [notification_of ?i key now ?es]\<rparr>"
    using d2 by (auto simp: insert_notification_def split: if_splits)
  have e3: "d3 = d2\<lparr>events := map (marked now (map event_id ?es)) (events d2)\<rparr>"
    using mark_handled_db [of now "map event_id ?es" d2] d3 by simp
  show thesis
    by (rule that [of y]) (simp_all add: db' y e3 d1)
qed

lemma unhandled_marked:
  assumes "\<forall>(i, e) \<in> set (events db). event_id e = i"
    and "events db' = map (marked now (map event_id (unhandled_events key db))) (events db)"
  shows "unhandled_events key db' = []"
proof -
  have "event_aggregationKey e \<noteq> Some key \<or> event_handledAt e \<noteq> None" if e: "(i, e) \<in> set (events db')" for i e
  proof -
    have "(i, e) \<in> marked now (map event_id (unhandled_events key db)) ` set (events db)"
      using e assms(2) by simp
    then obtain p where p: "p \<in> set (events db)"
      "(i, e) = marked now (map event_id (unhandled_events key db)) p" by (elim imageE)
    obtain j f where f: "p = (j, f)" by (cases p)
    then have "j = event_id f" using assms(1) p(1) by auto
    moreover have "f \<in> snd ` set (events db)" using p(1) f by force
    ultimately have "event_aggregationKey f = Some key \<Longrightarrow> event_handledAt f = None \<Longrightarrow>
        j \<in> set (map event_id (unhandled_events key db))"
      by (auto simp: unhandled_events_def)
    then show ?thesis
      using p(2) f by (auto simp: marked_def split: if_splits)
  qed
  then show ?thesis by (auto simp: unhandled_events_def filter_empty_conv)
qed

text \<open>A run that fails: the inserts of a requeue and of a report are refused, or another run was faster.\<close>

lemma queue_deliveries_frame:
  "outside (snd (queue_deliveries env now key i db)) = outside db"
  by (simp add: queue_deliveries_def tx_bind_def tx_lift_def tx_return_def tx_throw_def draw_uuid_def insert_tasks_def
      split: sum.split prod.split option.split)

lemma flush_fails:
  assumes "flush_batch env now key db = (Inl err, db')"
  shows "notifications db' = notifications db \<and> events db' = events db \<and> tasks db' = tasks db \<and> deliveries db' = deliveries db"
proof -
  define m where "m = tx_bind (getUnhandledEvents key) (\<lambda>es.
       if es = [] then tx_return ()
       else tx_bind (draw_uuid env) (\<lambda>i.
         tx_then (insert_notification (notification_of i key now es))
        (tx_bind (mark_handled now (map event_id es)) (\<lambda>updated.
         if updated \<noteq> length es then tx_throw ''Another task may have processed some events''
         else queue_deliveries env now key i))))"
  have "outside (snd (m d)) = outside d" for d
    using queue_deliveries_frame [of env now key]
    by (simp add: m_def tx_bind_def tx_then_def getUnhandledEvents_def tx_return_def draw_uuid_def insert_notification_def
        mark_handled_def tx_throw_def Let_def split: sum.split prod.split)
  then have "outside (snd (m (db\<lparr>outside := []\<rparr>))) = []" by simp
  then show ?thesis
    using assms unfolding flush_batch_def m_def [symmetric] by (auto simp: transaction_def split: prod.splits sum.splits)
qed

lemma requeue_fails:
  assumes "requeue_batch env now key r d db = (Inl err, db')"
  shows "notifications db' = notifications db \<and> events db' = events db \<and> tasks db' = tasks db \<and> deliveries db' = deliveries db"
  using assms by (auto simp: requeue_batch_def draw_bind insert_tasks_def split: option.splits)

text \<open>C17: A run that finds unhandled events of a notified kind has one of three outcomes.  It puts all
  of them in one new notification, marks them as handled and queues the task of the deliveries; or
  it changes nothing but queues the batch again, with the count raised, for a time one to five
  seconds later, and that fewer than seventy times; or it throws (another run took some of the
  events, or a unique index refuses one of its rows, as the index of the idempotency keys does) and
  notifications, events, tasks and deliveries are what they were, so that the events are unhandled still.\<close>

theorem batch_settled:
  assumes run: "createEventNotifications env now x db = (r, db')" and ok: "reports_ok db"
    and key: "string_or_empty (data_string x ''aggregationKey'') = key" and es: "unhandled_events key db = e # rest"
    and "batching_config (event_emitterId e) (event_identifier e) \<noteq> None"
  shows "case r of
      Inl err \<Rightarrow> notifications db' = notifications db \<and> events db' = events db \<and> tasks db' = tasks db
        \<and> deliveries db' = deliveries db
    | Inr _ \<Rightarrow> (\<exists>i y. notifications db' = notifications db @ [notification_of i key now (e # rest)]
        \<and> unhandled_events key db' = [] \<and> tasks db' = tasks db @ [(task_id y, y)]
        \<and> taskIdentifier y = ''build_notification_deliveries'' \<and> data_string y ''notificationId'' = Some i)
    \<or> (\<exists>y d. requeue_count x < 70 \<and> 1000 \<le> d \<and> d < 5000
        \<and> notifications db' = notifications db \<and> events db' = events db \<and> tasks db' = tasks db @ [(task_id y, y)]
        \<and> taskIdentifier y = ''create_event_notifications'' \<and> data_string y ''aggregationKey'' = Some key
        \<and> requeue_count y = requeue_count x + 1 \<and> dontStartBefore y = Some (now + d))"
proof -
  define l where "l = Max (event_createdAt ` set (unhandled_events key db))"
  have cases: "createEventNotifications env now x db =
    (if l < now \<and> now < l + 5000 \<and> requeue_count x < 70
     then requeue_batch env now key (requeue_count x) (max 1000 (l + 5000 - now)) db
     else flush_batch env now key db)"
    using create_cases [OF key es l_def [symmetric]] assms(5) by simp
  show ?thesis
  proof (cases r)
    case (Inl err)
    then show ?thesis
      using cases run flush_fails [of env now key db err db'] requeue_fails [of env now key _ _ db err db']
      by (simp split: if_splits)
  next
    case (Inr u)
    then have r: "r = Inr ()" by simp
    show ?thesis
    proof (cases "l < now \<and> now < l + 5000 \<and> requeue_count x < 70")
      case True
      then have "requeue_batch env now key (requeue_count x) (max 1000 (l + 5000 - now)) db = (Inr (), db')"
        using cases run r by simp
      then obtain y where "tasks db' = tasks db @ [(task_id y, y)]" "taskIdentifier y = ''create_event_notifications''"
        "data_string y ''aggregationKey'' = Some key" "requeue_count y = requeue_count x + 1"
        "dontStartBefore y = Some (now + max 1000 (l + 5000 - now))" "notifications db' = notifications db" "events db' = events db"
        by (rule requeue_row)
      then have "\<exists>y d. requeue_count x < 70 \<and> 1000 \<le> d \<and> d < 5000
        \<and> notifications db' = notifications db \<and> events db' = events db \<and> tasks db' = tasks db @ [(task_id y, y)]
        \<and> taskIdentifier y = ''create_event_notifications'' \<and> data_string y ''aggregationKey'' = Some key
        \<and> requeue_count y = requeue_count x + 1 \<and> dontStartBefore y = Some (now + d)"
        using True by (intro exI [of _ y] exI [of _ "max 1000 (l + 5000 - now)"]) simp
      then show ?thesis by (simp add: r)
    next
      case False
      then have flush: "flush_batch env now key db = (Inr (), db')" using cases run r by (simp only: if_False)
      obtain y where y: "tasks db' = tasks db @ [(task_id y, y)]" "taskIdentifier y = ''build_notification_deliveries''"
        "data_string y ''notificationId'' = Some (uuid env (drawn db))"
        "notifications db' = notifications db @ [notification_of (uuid env (drawn db)) key now (e # rest)]"
        "events db' = map (marked now (map event_id (e # rest))) (events db)"
        using es flush by (rule flush_row)
      have "unhandled_events key db' = []"
        by (rule unhandled_marked [of db _ now]) (use ok in \<open>simp add: reports_ok_def\<close>, simp only: es y(5))
      then show ?thesis using y unfolding r by auto
    qed
  qed
qed

section \<open>How often a batch is looked at again\<close>

text \<open>The tasks of a batch: each but the first was queued by a run of the one before, on whatever
  database and at whatever time.\<close>

inductive batch_chain :: "task_env \<Rightarrow> task \<Rightarrow> nat \<Rightarrow> task \<Rightarrow> bool" for env x where
  first_task: "batch_chain env x 0 x"
| next_task: "batch_chain env x k y \<Longrightarrow> createEventNotifications env now y db = (Inr (), db') \<Longrightarrow>
    (i, z) \<in> set (tasks db') - set (tasks db) \<Longrightarrow> taskIdentifier z = ''create_event_notifications'' \<Longrightarrow>
    batch_chain env x (Suc k) z"

lemma chain_step:
  assumes run: "createEventNotifications env now x db = (Inr (), db')" and z: "(i, z) \<in> set (tasks db') - set (tasks db)"
    "taskIdentifier z = ''create_event_notifications''"
  shows "requeue_count x < 70 \<and> requeue_count z = requeue_count x + 1"
proof (cases "unhandled_events (string_or_empty (data_string x ''aggregationKey'')) db")
  case Nil
  then have "db' = db" using run by (simp add: createEventNotifications_def getUnhandledEvents_def tx_bind_def tx_return_def Let_def)
  then show ?thesis using z by simp
next
  case (Cons e rest)
  define key where "key = string_or_empty (data_string x ''aggregationKey'')"
  define l where "l = Max (event_createdAt ` set (unhandled_events key db))"
  note es = Cons [folded key_def]
  note cases = create_cases [OF key_def [symmetric] es l_def [symmetric], of env now]
  consider "db' = db" | "requeue_batch env now key (requeue_count x) (max 1000 (l + 5000 - now)) db = (Inr (), db')" "requeue_count x < 70"
    | "flush_batch env now key db = (Inr (), db')"
    using run unfolding cases
    by (cases "batching_config (event_emitterId e) (event_identifier e) = None";
        cases "l < now \<and> now < l + 5000 \<and> requeue_count x < 70") (simp_all only: simp_thms if_True if_False prod.inject)
  then show ?thesis
  proof cases
    case 1 then show ?thesis using z by simp
  next
    case 2
    obtain y where "tasks db' = tasks db @ [(task_id y, y)]" "requeue_count y = requeue_count x + 1"
      using 2(1) by (rule requeue_row)
    then show ?thesis using z 2(2) by auto
  next
    case 3
    obtain y where "tasks db' = tasks db @ [(task_id y, y)]" "taskIdentifier y = ''build_notification_deliveries''"
      using es 3 by (rule flush_row)
    then show ?thesis using z by auto
  qed
qed

text \<open>In a chain of tasks of one batch, each queued by a run of the one before on whatever database
  and at whatever time, a batch is put off seventy times at most.\<close>

theorem batch_bounded:
  assumes "batch_chain env x k y" and "requeue_count x = 0"
  shows "k \<le> 70"
proof -
  have "requeue_count y = of_nat k \<and> k \<le> 70"
    using assms
  proof (induction rule: batch_chain.induct)
    case (next_task k y now db db' i z)
    then have "requeue_count y < 70" "requeue_count z = of_nat k + 1" "requeue_count y = of_nat k"
      using chain_step by (metis, metis, simp)
    moreover from this have "k < 70" by (metis of_nat_less_iff of_nat_numeral)
    ultimately show ?case by simp
  qed simp
  then show ?thesis by simp
qed

end
