(* ===== verification/Notify_Deliver.thy ===== *)
theory Notify_Deliver
  imports Notify_Flow
begin

text \<open>
  What reaches the users: every relevant user has one delivery of a notification, and every selected
  delivery is settled by the email that is sent for it or by its failure.
\<close>

section \<open>Deliveries\<close>

lemma relevant_distinct: "distinct (getRelevantUsers nenv x)"
proof -
  have add: "distinct us \<Longrightarrow> distinct (set_add u us)" for u us by (simp add: set_add_def)
  have "distinct us \<Longrightarrow> distinct (fold set_add xs us)" for xs us
    by (induction xs arbitrary: us) (simp_all add: add)
  then show ?thesis by (auto simp: getRelevantUsers_def Let_def add split: option.split prod.split)
qed

text \<open>The delivery of a notification to a user.\<close>

definition delivery_of :: "task_db \<Rightarrow> string \<Rightarrow> string \<Rightarrow> delivery option" where
  "delivery_of db n u = find (same_delivery n u) (deliveries db)"

lemma find_map_same:
  assumes "\<And>d. P (f d) = P d"
  shows "find P (map f ds) = map_option f (find P ds)"
  using assms by (induction ds) auto

lemma find_snoc: "find P (ds @ [d]) = (case find P ds of None \<Rightarrow> if P d then Some d else None | Some x \<Rightarrow> Some x)"
  by (induction ds) auto

lemma upsert_effect:
  assumes "upsertDelivery env n u email mobile db = (Inr (), db')"
  shows "\<exists>d. delivery_of db' n u = Some d
      \<and> dl_email d = request_channel email (Option.bind (delivery_of db n u) dl_email)
      \<and> dl_mobile d = request_channel mobile (Option.bind (delivery_of db n u) dl_mobile)"
    and "(m, v) \<noteq> (n, u) \<Longrightarrow> delivery_of db' m v = delivery_of db m v"
    and "notifications db' = notifications db" and "tasks db' = tasks db" and "sent db' = sent db"
proof -
  let ?ds = "map (with_requests n u email mobile) (deliveries db)"
  let ?d = "\<lparr>dl_id = uuid env (drawn db), dl_notificationId = n, dl_userId = u,
      dl_email = request_channel email None, dl_mobile = request_channel mobile None\<rparr>"
  have same: "same_delivery m v (with_requests n u email mobile d) = same_delivery m v d" for m v d
    by (simp add: same_delivery_def with_requests_def)
  have map_find: "find (same_delivery m v) ?ds = map_option (with_requests n u email mobile) (find (same_delivery m v) (deliveries db))" for m v
    by (rule find_map_same) (rule same)
  have found: "find (same_delivery n u) (deliveries db) \<noteq> None \<longleftrightarrow> list_ex (same_delivery n u) (deliveries db)"
    by (auto simp: find_None_iff list_ex_iff)
  consider (old) "list_ex (same_delivery n u) (deliveries db)" "db' = db\<lparr>drawn := Suc (drawn db), deliveries := ?ds\<rparr>"
    | (new) "\<not> list_ex (same_delivery n u) (deliveries db)"
        "db' = db\<lparr>drawn := Suc (drawn db), deliveries := deliveries db @ [?d]\<rparr>"
    using assms by (auto simp: upsertDelivery_def draw_bind with_requests_def [abs_def] split: if_splits)
  note cases = this
  show "\<exists>d. delivery_of db' n u = Some d
      \<and> dl_email d = request_channel email (Option.bind (delivery_of db n u) dl_email)
      \<and> dl_mobile d = request_channel mobile (Option.bind (delivery_of db n u) dl_mobile)"
    using cases
  proof cases
    case old
    then obtain d where d: "find (same_delivery n u) (deliveries db) = Some d" using found by auto
    then have "same_delivery n u d" by (auto simp: find_Some_iff)
    then show ?thesis using old(2) d by (simp add: delivery_of_def map_find) (simp add: with_requests_def)
  next
    case new
    then have "find (same_delivery n u) (deliveries db) = None" using found by auto
    then show ?thesis using new(2) by (simp add: delivery_of_def find_snoc same_delivery_def)
  qed
  show "delivery_of db' m v = delivery_of db m v" if other: "(m, v) \<noteq> (n, u)"
    using cases
  proof cases
    case old
    have "with_requests n u email mobile d = d" if "find (same_delivery m v) (deliveries db) = Some d" for d
      using that other by (auto simp: find_Some_iff same_delivery_def with_requests_def)
    then show ?thesis
      using old(2) by (cases "find (same_delivery m v) (deliveries db)") (simp_all add: delivery_of_def map_find)
  next
    case new
    then show ?thesis using other by (auto simp: delivery_of_def find_snoc same_delivery_def split: option.split)
  qed
  show "notifications db' = notifications db" "tasks db' = tasks db" "sent db' = sent db"
    using cases by (cases, simp_all)+
qed

text \<open>The requests of a user for a notification, as one run leaves them.\<close>

definition delivered :: "notify_env \<Rightarrow> notification \<Rightarrow> string \<Rightarrow> delivery option \<Rightarrow> delivery option \<Rightarrow> bool" where
  "delivered nenv x u was is \<longleftrightarrow> (\<exists>d. is = Some d
     \<and> dl_email d = request_channel (ch_email (channels_of nenv x u)) (Option.bind was dl_email)
     \<and> dl_mobile d = request_channel (ch_mobile (channels_of nenv x u)) (Option.bind was dl_mobile))"

definition notices :: "notification \<Rightarrow> json \<Rightarrow> string list \<Rightarrow> notice list" where
  "notices x actor us = map (\<lambda>u. NotificationDelivered u (ntf_id x)) (filter (\<lambda>u. actor \<noteq> JStr u) us)"

lemma deliver_to_effect:
  assumes "deliver_to env nenv x actor u db = (Inr (), db')"
  shows "delivered nenv x u (delivery_of db (ntf_id x) u) (delivery_of db' (ntf_id x) u)"
    and "(m, v) \<noteq> (ntf_id x, u) \<Longrightarrow> delivery_of db' m v = delivery_of db m v"
    and "tasks db' = tasks db \<and> sent db' = sent db @ notices x actor [u]"
proof -
  obtain e where e: "upsertDelivery env (ntf_id x) u (ch_email (channels_of nenv x u)) (ch_mobile (channels_of nenv x u)) db = (Inr (), e)"
    and w: "tx_when (actor \<noteq> JStr u) (send (NotificationDelivered u (ntf_id x))) e = (Inr (), db')"
    using assms unfolding deliver_to_def Let_def by (rule tx_thenE)
  have db': "db' = e\<lparr>sent := sent e @ notices x actor [u]\<rparr>"
    using w by (auto simp: tx_when_def send_def tx_return_def notices_def split: if_splits)
  note up = upsert_effect [OF e]
  have same: "delivery_of db' m v = delivery_of e m v" for m v by (simp add: db' delivery_of_def)
  show "delivered nenv x u (delivery_of db (ntf_id x) u) (delivery_of db' (ntf_id x) u)"
    unfolding same delivered_def by (rule up(1))
  show "(m, v) \<noteq> (ntf_id x, u) \<Longrightarrow> delivery_of db' m v = delivery_of db m v" unfolding same by (rule up(2))
  show "tasks db' = tasks db \<and> sent db' = sent db @ notices x actor [u]"
    using up(3-5) by (simp add: db')
qed

lemma deliver_all_effect:
  assumes "tx_each (deliver_to env nenv x actor) us db = (Inr (), db')" and "distinct us"
  shows "delivery_of db' m v = delivery_of db m v \<and> \<not> (m = ntf_id x \<and> v \<in> set us)
      \<or> m = ntf_id x \<and> v \<in> set us \<and> delivered nenv x v (delivery_of db m v) (delivery_of db' m v)"
    and "tasks db' = tasks db \<and> sent db' = sent db @ notices x actor us"
proof -
  have "(delivery_of db' m v = delivery_of db m v \<and> \<not> (m = ntf_id x \<and> v \<in> set us)
      \<or> m = ntf_id x \<and> v \<in> set us \<and> delivered nenv x v (delivery_of db m v) (delivery_of db' m v))
     \<and> tasks db' = tasks db \<and> sent db' = sent db @ notices x actor us"
    using assms
  proof (induction us arbitrary: db)
    case Nil
    then show ?case by (simp add: tx_return_def notices_def)
  next
    case (Cons w us)
    obtain e where e: "deliver_to env nenv x actor w db = (Inr (), e)" "tx_each (deliver_to env nenv x actor) us e = (Inr (), db')"
      using Cons.prems(1) by (auto elim: tx_thenE)
    have IH: "(delivery_of db' m v = delivery_of e m v \<and> \<not> (m = ntf_id x \<and> v \<in> set us)
      \<or> m = ntf_id x \<and> v \<in> set us \<and> delivered nenv x v (delivery_of e m v) (delivery_of db' m v))
     \<and> tasks db' = tasks e \<and> sent db' = sent e @ notices x actor us"
      using Cons.IH [OF e(2)] Cons.prems(2) by simp
    have w: "(m, v) \<noteq> (ntf_id x, w) \<Longrightarrow> delivery_of e m v = delivery_of db m v"
      "delivered nenv x w (delivery_of db (ntf_id x) w) (delivery_of e (ntf_id x) w)"
      using deliver_to_effect(1,2) [OF e(1)] by blast+
    have "tasks db' = tasks db \<and> sent db' = sent db @ notices x actor (w # us)"
      using IH deliver_to_effect(3) [OF e(1)] by (simp add: notices_def)
    moreover have "delivery_of db' m v = delivery_of db m v \<and> \<not> (m = ntf_id x \<and> v \<in> set (w # us))
      \<or> m = ntf_id x \<and> v \<in> set (w # us) \<and> delivered nenv x v (delivery_of db m v) (delivery_of db' m v)"
    proof (cases "m = ntf_id x \<and> v = w")
      case True
      then show ?thesis using IH w(2) Cons.prems(2) by auto
    next
      case False
      then show ?thesis using IH w(1) by auto
    qed
    ultimately show ?case by blast
  qed
  then show "delivery_of db' m v = delivery_of db m v \<and> \<not> (m = ntf_id x \<and> v \<in> set us)
      \<or> m = ntf_id x \<and> v \<in> set us \<and> delivered nenv x v (delivery_of db m v) (delivery_of db' m v)"
    and "tasks db' = tasks db \<and> sent db' = sent db @ notices x actor us"
    by blast+
qed

lemma queue_emails_row:
  assumes "queue_emails env now k s db = (Inr (), db')"
  obtains z where "tasks db' = tasks db @ [(task_id z, z)]" "taskIdentifier z = ''send_notification_emails''"
    "dontStartBefore z = Some s" "deliveries db' = deliveries db" "sent db' = sent db" "outbox db' = outbox db"
proof -
  obtain b d where t: "insert_tasks [system_task env now (uuid env (drawn db)) ''send_notification_emails''
      ''Send batched notification emails'' (JObj [(''bucketIndex'', JNum b)]) d (Some s)]
      (db\<lparr>drawn := Suc (drawn db)\<rparr>) = (Inr (), db')"
    using assms by (auto simp: queue_emails_def tx_throw_def tx_return_def tx_lift_def tx_bind_def draw_uuid_def
        split: sum.splits prod.splits)
  define z where "z = system_task env now (uuid env (drawn db)) ''send_notification_emails''
      ''Send batched notification emails'' (JObj [(''bucketIndex'', JNum b)]) d (Some s)"
  have "tasks db' = tasks db @ [(task_id z, z)]" "deliveries db' = deliveries db" "sent db' = sent db" "outbox db' = outbox db"
    using t unfolding z_def [symmetric] by (auto simp: insert_tasks_def dest!: insert_task_append split: option.splits)
  then show thesis
    by (intro that [of z]) (simp_all add: z_def system_task_def blank_task_def)
qed

lemma queue_when:
  assumes "tx_when b (queue_emails env now k s) db = (Inr (), db')"
  shows "deliveries db' = deliveries db \<and> sent db' = sent db \<and> outbox db' = outbox db"
    and "if b then \<exists>z. tasks db' = tasks db @ [(task_id z, z)] \<and> taskIdentifier z = ''send_notification_emails''
           \<and> dontStartBefore z = Some s
         else tasks db' = tasks db"
proof -
  consider "\<not> b" "db' = db" | "b" "queue_emails env now k s db = (Inr (), db')"
    using assms by (auto simp: tx_when_def tx_return_def split: if_splits)
  note cases = this
  show "deliveries db' = deliveries db \<and> sent db' = sent db \<and> outbox db' = outbox db"
    using cases by cases (auto elim: queue_emails_row)
  show "if b then \<exists>z. tasks db' = tasks db @ [(task_id z, z)] \<and> taskIdentifier z = ''send_notification_emails''
           \<and> dontStartBefore z = Some s
         else tasks db' = tasks db"
    using cases
  proof cases
    case 2
    then show ?thesis using queue_emails_row [OF 2(2)] by metis
  qed simp
qed

text \<open>C24: A run of the deliveries task that returns (it throws when a unique index refuses a row) gives
  every relevant user of the notification one delivery whose channels are those of the settings or
  were requested before, and touches no other delivery.  It sends the notice over the socket to every
  relevant user except the one whose id the first event records as \<open>actorId\<close>; no code writes that
  field, so in practice the actor is a recipient like the others, against the comment of
  notification-recipient.service.ts that promises to leave the actor out.  It queues the email task
  exactly when a relevant user wants emails.\<close>

theorem deliveries_exact:
  assumes run: "buildNotificationDeliveries env nenv now x db = (Inr (), db')"
    and y: "find (\<lambda>y. ntf_id y = string_or_empty (data_string x ''notificationId'')) (notifications db) = Some y"
  shows "(if n = ntf_id y \<and> u \<in> set (getRelevantUsers nenv y)
        then delivered nenv y u (delivery_of db n u) (delivery_of db' n u)
        else delivery_of db' n u = delivery_of db n u)
    \<and> sent db' = sent db @ notices y (projr (fst (actor_of y db))) (getRelevantUsers nenv y)
    \<and> (if \<exists>v \<in> set (getRelevantUsers nenv y). ch_email (channels_of nenv y v)
       then \<exists>z. tasks db' = tasks db @ [(task_id z, z)] \<and> taskIdentifier z = ''send_notification_emails''
              \<and> dontStartBefore z = Some (now + 2000)
       else tasks db' = tasks db)"
proof -
  let ?us = "getRelevantUsers nenv y"
  obtain actor where actor: "actor_of y db = (Inr actor, db)" by (simp add: actor_of_def)
  have get: "tx_bind (find_notification i) f db = f (find (\<lambda>y. ntf_id y = i) (notifications db)) db" for i f
    by (simp add: find_notification_def tx_bind_def)
  have act: "tx_bind (actor_of y) f db = f actor db" for f
    using actor by (simp add: tx_bind_def)
  have "tx_then (tx_each (deliver_to env nenv y actor) ?us)
      (tx_when (list_ex (\<lambda>u. ch_email (channels_of nenv y u)) ?us) (queue_emails env now 5 (now + 2000))) db = (Inr (), db')"
    using run y by (simp add: buildNotificationDeliveries_def get act Let_def)
  then obtain e where e: "tx_each (deliver_to env nenv y actor) ?us db = (Inr (), e)"
    and q: "tx_when (list_ex (\<lambda>u. ch_email (channels_of nenv y u)) ?us) (queue_emails env now 5 (now + 2000)) e = (Inr (), db')"
    by (rule tx_thenE)
  note all = deliver_all_effect [OF e relevant_distinct]
  have same: "deliveries db' = deliveries e" "sent db' = sent e"
    and mails: "if list_ex (\<lambda>u. ch_email (channels_of nenv y u)) ?us
       then \<exists>z. tasks db' = tasks e @ [(task_id z, z)] \<and> taskIdentifier z = ''send_notification_emails''
              \<and> dontStartBefore z = Some (now + 2000)
       else tasks db' = tasks e"
    using queue_when [OF q] by simp_all
  have t: "tasks e = tasks db" using all(2) by blast
  have "delivery_of db' n u = delivery_of e n u" by (simp add: delivery_of_def same)
  then have "if n = ntf_id y \<and> u \<in> set ?us then delivered nenv y u (delivery_of db n u) (delivery_of db' n u)
      else delivery_of db' n u = delivery_of db n u"
    using all(1) [of n u] by auto
  moreover have "sent db' = sent db @ notices y (projr (fst (actor_of y db))) ?us"
    using all(2) actor same by simp
  ultimately show ?thesis
    using mails unfolding list_ex_iff t by blast
qed

section \<open>Emails\<close>

definition accepted :: "notify_env \<Rightarrow> string \<Rightarrow> int \<Rightarrow> delivery \<times> notification \<times> string option \<Rightarrow> bool" where
  "accepted nenv sender now p = (case p of (d, x, a) \<Rightarrow>
     truthy a \<and> sendEmail nenv now (email_of nenv sender d x (the a)) = EmailAccepted)"

definition mail_for :: "notify_env \<Rightarrow> string \<Rightarrow> delivery \<times> notification \<times> string option \<Rightarrow> email" where
  "mail_for nenv sender p = (case p of (d, x, a) \<Rightarrow> email_of nenv sender d x (the a))"

lemma send_loop_exact:
  assumes "\<And>m. sendEmail nenv now m \<noteq> EmailNotConfigured"
  shows "send_loop nenv sender now ps
    = (map (mail_for nenv sender) (filter (accepted nenv sender now) ps), map (dl_id \<circ> fst) (filter (Not \<circ> accepted nenv sender now) ps))"
proof (induction ps)
  case (Cons p ps)
  obtain d x a where p: "p = (d, x, a)" by (cases p)
  show ?case
    using Cons assms [of "email_of nenv sender d x (the a)"]
    by (cases "sendEmail nenv now (email_of nenv sender d x (the a))") (auto simp: p accepted_def mail_for_def Let_def)
qed simp

text \<open>A run of the email task with a configured provider settles each selected delivery: it is marked
  as sent when its email was accepted, which is then in the outbox, and as failed otherwise; and
  after a full batch another run is queued for a second later.\<close>

theorem emails_settled:
  assumes run: "sendNotificationEmails env nenv now x db = (Inr (), db')" and sender: "email_from nenv = Some sender"
    and conf: "\<And>m. sendEmail nenv now m \<noteq> EmailNotConfigured" and ids: "distinct (map dl_id (deliveries db))"
  shows "outbox db' = outbox db @ map (mail_for nenv sender) (filter (accepted nenv sender now) (pending_emails nenv db))
    \<and> map dl_id (deliveries db') = map dl_id (deliveries db)
    \<and> (\<forall>d \<in> set (deliveries db'). \<forall>p \<in> set (pending_emails nenv db). dl_id d = dl_id (fst p) \<longrightarrow>
         dl_email d = Some (if accepted nenv sender now p then SentChannel else FailedChannel))
    \<and> (length (pending_emails nenv db) = 100 \<longrightarrow> (\<exists>z. tasks db' = tasks db @ [(task_id z, z)]
         \<and> taskIdentifier z = ''send_notification_emails'' \<and> dontStartBefore z = Some (now + 1000)))"
proof -
  let ?ps = "pending_emails nenv db" and ?acc = "accepted nenv sender now"
  let ?ms = "map (mail_for nenv sender) (filter ?acc ?ps)" and ?fs = "map (dl_id \<circ> fst) (filter (Not \<circ> ?acc) ?ps)"
  let ?e = "set_email_status FailedChannel ?fs (set_email_status SentChannel (map em_delivery ?ms)
    (db\<lparr>outbox := outbox db @ ?ms\<rparr>))"
  have q: "tx_when (length ?ps = 100) (queue_emails env now 1 (now + 1000)) ?e = (Inr (), db')"
    using run by (simp add: sendNotificationEmails_def sender send_loop_exact [OF conf] Let_def)
  have same: "deliveries db' = deliveries ?e" "outbox db' = outbox ?e" and tasks: "tasks ?e = tasks db"
    using queue_when(1) [OF q] by (simp_all add: set_email_status_def)
  have sent_ids: "map em_delivery ?ms = map (dl_id \<circ> fst) (filter ?acc ?ps)"
    by (auto simp: mail_for_def email_of_def Let_def split: prod.split)
  let ?f = "\<lambda>d. mail_status FailedChannel ?fs (mail_status SentChannel (map em_delivery ?ms) d)"
  have ds: "deliveries db' = map ?f (deliveries db)"
    unfolding same set_email_status_deliveries by (simp del: map_map add: list.map_comp comp_def)
  have status: "dl_email (?f d) = Some (if ?acc p then SentChannel else FailedChannel)"
    if d: "dl_id d = dl_id (fst p)" and p: "p \<in> set ?ps" for d p
  proof -
    have one: "p' = p" if "p' \<in> set ?ps" "dl_id (fst p') = dl_id (fst p)" for p'
      using pending_ids(1) [OF ids, of nenv] p that by (metis (no_types, lifting) comp_apply distinct_map inj_onD)
    have "dl_id d \<in> set ?fs \<longleftrightarrow> \<not> ?acc p" using d p one by auto
    moreover have "dl_id d \<in> set (map em_delivery ?ms) \<longleftrightarrow> ?acc p" unfolding sent_ids using d p one by auto
    ultimately show ?thesis by simp
  qed
  have "length ?ps = 100 \<longrightarrow> (\<exists>z. tasks db' = tasks db @ [(task_id z, z)]
      \<and> taskIdentifier z = ''send_notification_emails'' \<and> dontStartBefore z = Some (now + 1000))"
    using queue_when(2) [OF q, unfolded tasks] by simp
  moreover have "map dl_id (deliveries db') = map dl_id (deliveries db)" by (simp add: ds comp_def)
  moreover have "outbox db' = outbox db @ ?ms" unfolding same by (simp add: set_email_status_def)
  moreover have "\<forall>d \<in> set (deliveries db'). \<forall>p \<in> set ?ps. dl_id d = dl_id (fst p) \<longrightarrow>
      dl_email d = Some (if ?acc p then SentChannel else FailedChannel)"
    unfolding ds using status by auto
  ultimately show ?thesis by blast
qed

end
