(* ===== verification/Notify_Texts.thy ===== *)
theory Notify_Texts
  imports Notify_Engine
begin

text \<open>
  The texts and the settings of notifications: object keys survive their encoding in a path, the
  markup of an email does not depend on what it shows, and a stored setting decides its channel.
\<close>

section \<open>Object keys\<close>

lemma nibble: "(of_char c :: nat) div 16 < 16" "(of_char c :: nat) mod 16 < 16"
  using of_char_mod_256 [of c] by (simp_all add: less_mult_imp_div_less)

lemma plain_not_percent: "uri_plain c \<Longrightarrow> c \<noteq> CHR ''%''" "\<not> uri_plain (CHR ''/'')"
  by (auto simp: uri_plain_def Let_def)

lemma hex_digit_values: "n < 16 \<Longrightarrow> hex_digit n \<noteq> CHR ''%''" "n < 16 \<Longrightarrow> hex_digit n = CHR ''2'' \<longleftrightarrow> n = 2"
    "n < 16 \<Longrightarrow> hex_digit n = CHR ''F'' \<longleftrightarrow> n = 15"
proof -
  assume n: "n < 16"
  have two: "hex_digit 2 = CHR ''2''" and fifteen: "hex_digit 15 = CHR ''F''" by code_simp+
  have v: "hex_value (CHR ''%'') = None" "hex_value (CHR ''2'') = Some 2" "hex_value (CHR ''F'') = Some 15"
    by code_simp+
  show "hex_digit n \<noteq> CHR ''%''" "hex_digit n = CHR ''2'' \<longleftrightarrow> n = 2" "hex_digit n = CHR ''F'' \<longleftrightarrow> n = 15"
    using hex_value_digit [OF n] two fifteen v by (metis option.distinct(1) option.inject)+
qed

text \<open>One character of the encoded key.\<close>

definition key_char :: "char \<Rightarrow> string" where
  "key_char c = (if c = CHR ''/'' then ''/'' else if uri_plain c then [c]
     else [CHR ''%'', hex_digit ((of_char c :: nat) div 16), hex_digit ((of_char c :: nat) mod 16)])"

lemma replace_other: "c \<noteq> CHR ''%'' \<Longrightarrow> replace_all ''%2F'' r (c # s) = c # replace_all ''%2F'' r s"
  by (simp add: starts_with_def)

lemma starts_other: "c \<noteq> CHR ''%'' \<Longrightarrow> \<not> starts_with (c # s) ''%2F''"
  by (simp add: starts_with_def)

lemma slash_code: "(of_char c :: nat) div 16 = 2 \<and> (of_char c :: nat) mod 16 = 15 \<longleftrightarrow> c = CHR ''/''"
proof
  assume "(of_char c :: nat) div 16 = 2 \<and> (of_char c :: nat) mod 16 = 15"
  then have "(of_char c :: nat) = of_char (CHR ''/'')" by (simp) presburger
  then show "c = CHR ''/''" by (simp only: of_char_eq_iff)
qed simp

lemma replace_encoded:
  "replace_all ''%2F'' ''/'' (encodeURIComponent (c # s)) = key_char c @ replace_all ''%2F'' ''/'' (encodeURIComponent s)"
proof (cases "uri_plain c")
  case True
  then have "c \<noteq> CHR ''%''" "c \<noteq> CHR ''/''" using plain_not_percent by auto
  then show ?thesis using True by (simp add: encodeURIComponent_def key_char_def replace_other del: replace_all.simps)
next
  case False
  let ?h = "hex_digit ((of_char c :: nat) div 16)" and ?l = "hex_digit ((of_char c :: nat) mod 16)"
  have e: "encodeURIComponent (c # s) = CHR ''%'' # ?h # ?l # encodeURIComponent s"
    using False by (simp add: encodeURIComponent_def)
  have d: "?h \<noteq> CHR ''%''" "?l \<noteq> CHR ''%''" "?h = CHR ''2'' \<and> ?l = CHR ''F'' \<longleftrightarrow> c = CHR ''/''"
    using hex_digit_values nibble [of c] slash_code [of c] by simp_all
  show ?thesis
  proof (cases "c = CHR ''/''")
    case True
    then show ?thesis unfolding e using d by (simp add: starts_with_def key_char_def)
  next
    case other: False
    then have "\<not> starts_with (CHR ''%'' # ?h # ?l # t) ''%2F''" for t using d by (simp add: starts_with_def)
    then show ?thesis unfolding e using d other False by (simp add: key_char_def starts_other)
  qed
qed

lemma encoded_key: "encodeObjectKeyPreservingSlashes k = concat (map key_char k)"
  by (induction k) (simp_all add: encodeObjectKeyPreservingSlashes_def replace_encoded, simp add: encodeURIComponent_def)

text \<open>An object key encoded for a path is decoded to itself.\<close>

theorem object_key_roundtrip: "decodeURIComponent (encodeObjectKeyPreservingSlashes k) = Some k"
  unfolding encoded_key
proof (induction k)
  case (Cons c k)
  have "char_of (16 * ((of_char c :: nat) div 16) + of_char c mod 16) = c" by simp
  then show ?case
    using Cons plain_not_percent nibble [of c] by (auto simp: key_char_def hex_value_digit)
qed simp

section \<open>Emails\<close>

definition markup :: "char \<Rightarrow> bool" where
  "markup c \<longleftrightarrow> c \<in> {CHR ''<'', CHR ''>'', CHR 0x22, CHR 0x27}"

lemma escaped_plain: "filter markup (escapeHtml s) = []"
proof -
  have "filter markup (escape_char c) = []" for c by (simp add: escape_char_def markup_def)
  then show ?thesis by (induction s) (simp_all add: escapeHtml_def)
qed

text \<open>The markup characters of an email are the same whatever title, body and address it shows:
  none of them can open or close a tag or an attribute.\<close>

theorem email_markup_fixed:
  assumes "truthy b = truthy b'"
  shows "filter markup (buildHtmlEmail t b u) = filter markup (buildHtmlEmail t' b' u')"
  using assms by (simp add: buildHtmlEmail_def html_line_def html_body_def escaped_plain)

section \<open>Settings\<close>

fun channel_on :: "channel \<Rightarrow> channel_settings \<Rightarrow> bool" where
  "channel_on Web c = ch_web c"
| "channel_on Email c = ch_email c"
| "channel_on Mobile c = ch_mobile c"

lemma apply_on: "channel_on k (apply_setting r c) = (if set_channel r = k then set_enabled r else channel_on k c)"
  by (cases k; cases "set_channel r") (simp_all add: apply_setting_def)

lemma fold_on:
  assumes "\<forall>r \<in> set rs. set_channel r = k \<longrightarrow> set_enabled r = b"
  shows "channel_on k c = b \<or> (\<exists>r \<in> set rs. set_channel r = k) \<Longrightarrow> channel_on k (fold apply_setting rs c) = b"
  using assms by (induction rs arbitrary: c) (auto simp: apply_on)

lemma update_rows:
  assumes "update_setting s t = (Inr (), t')"
  shows "\<forall>r \<in> set t'. same_setting s r \<longrightarrow> set_enabled r = set_enabled s"
    and "\<exists>r \<in> set t'. same_setting s r"
    and "filter (\<lambda>r. \<not> same_setting s r) t' = filter (\<lambda>r. \<not> same_setting s r) t"
proof -
  let ?f = "\<lambda>r. if same_setting s r then r\<lparr>set_enabled := set_enabled s\<rparr> else r"
  have f: "same_setting s (?f r) = same_setting s r" for r by (simp add: same_setting_def setting_key_def)
  have self: "same_setting s s" by (simp add: same_setting_def)
  consider "list_ex (same_setting s) t" "t' = map ?f t" | "\<not> list_ex (same_setting s) t" "t' = t @ [s]"
    using assms by (auto simp: update_setting_def split: if_splits)
  note cases = this
  show "\<forall>r \<in> set t'. same_setting s r \<longrightarrow> set_enabled r = set_enabled s"
    using cases by cases (auto simp: f list_ex_iff)
  show "\<exists>r \<in> set t'. same_setting s r"
  proof (use cases in cases)
    case 1
    then obtain r where "r \<in> set t" "same_setting s r" by (auto simp: list_ex_iff)
    then show ?thesis using 1(2) f [of r] by (auto intro!: bexI [of _ "?f r"])
  qed (simp add: self)
  have same: "filter (\<lambda>r. \<not> same_setting s r) (map ?f u) = filter (\<lambda>r. \<not> same_setting s r) u" for u
    by (induction u) (simp_all add: same_setting_def setting_key_def)
  show "filter (\<lambda>r. \<not> same_setting s r) t' = filter (\<lambda>r. \<not> same_setting s r) t"
  proof (use cases in cases)
    case 1
    show ?thesis unfolding 1(2) by (rule same)
  qed (simp add: self)
qed

lemma same_for:
  "r \<in> set (settings_for t (set_userId s) (set_eventIdentifier s) (set_emitterIdentifier s) (set_folderId s))
    \<and> set_channel r = set_channel s \<longleftrightarrow> r \<in> set t \<and> same_setting s r"
  by (auto simp: settings_for_def same_setting_def setting_key_def)

text \<open>A setting that was stored decides its channel for its user, event and folder, and storing it
  leaves all other settings as they were.\<close>

theorem setting_resolved:
  assumes "update_setting s t = (Inr (), t')" and "set_folderId s \<noteq> Some []"
  shows "channel_on (set_channel s) (resolveSettings t' (set_userId s) (set_eventIdentifier s) (set_emitterIdentifier s)
      (set_folderId s)) = set_enabled s
    \<and> filter (\<lambda>r. \<not> same_setting s r) t' = filter (\<lambda>r. \<not> same_setting s r) t"
proof -
  let ?rs = "settings_for t' (set_userId s) (set_eventIdentifier s) (set_emitterIdentifier s) (set_folderId s)"
  have "\<forall>r \<in> set ?rs. set_channel r = set_channel s \<longrightarrow> set_enabled r = set_enabled s"
    "\<exists>r \<in> set ?rs. set_channel r = set_channel s"
    using update_rows(1,2) [OF assms(1)] same_for [of _ t' s] by blast+
  then have on: "channel_on (set_channel s) (fold apply_setting ?rs c) = set_enabled s" for c
    using fold_on by blast
  have "channel_on (set_channel s) (resolveSettings t' (set_userId s) (set_eventIdentifier s) (set_emitterIdentifier s)
      (set_folderId s)) = set_enabled s"
    using on assms(2) by (cases "set_folderId s") (simp_all add: resolveSettings_def Let_def)
  then show ?thesis using update_rows(3) [OF assms(1)] by simp
qed

text \<open>The unique index leaves the folder out: a folder cannot override a setting the user has.\<close>

lemma folder_override_rejected:
  assumes "distinct (map setting_key t)" and "r \<in> set t" and "set_folderId r \<noteq> Some f"
    and "setting_key r = setting_key (setting_of u (Some f) i)"
  shows "updateFolderSettings u f (i # is) t = (Inl ''duplicate key value violates unique constraint'', t)"
proof -
  let ?s = "setting_of u (Some f) i"
  have "\<not> same_setting ?s q" if "q \<in> set t" for q
  proof
    assume q: "same_setting ?s q"
    then have "setting_key q = setting_key r" using assms(4) by (simp add: same_setting_def)
    then have "q = r" using assms(1,2) that by (metis distinct_map inj_onD)
    then show False using q assms(3) by (simp add: same_setting_def setting_of_def)
  qed
  moreover have "setting_key ?s \<in> setting_key ` set t" using assms(2,4) by (metis imageI)
  ultimately show ?thesis
    by (auto simp: updateFolderSettings_def update_setting_def list_ex_iff)
qed

end
