(* ===== verification/Notify_Examples.thy ===== *)
theory Notify_Examples
  imports Notify_Deliver Notify_Texts Task_Run_Examples
begin

text \<open>
  A folder is scanned in the small installation of the other examples: the event is reported to the
  owner of the folder, who gets an email.
\<close>

text \<open>The evaluation keeps the page of an email as it is.\<close>

declare buildHtmlEmail_def [code del]

definition demo_nenv :: notify_env where
  "demo_nenv = \<lparr>folder_members = (\<lambda>f. Some (Some ''o'', [''s'', ''o''])),
     user_settings = [\<lparr>set_userId = ''o'', set_eventIdentifier = ''folder_scanned'', set_emitterIdentifier = ''core'',
       set_channel = Email, set_enabled = True, set_folderId = None\<rparr>],
     user_email = (\<lambda>u. Some (Some (u @ ''@x''))), email_from = Some ''p@x'',
     origin = \<lparr>platformHost = ''h'', platformHttps = True, platformPort = None\<rparr>, sendEmail = (\<lambda>t m. EmailAccepted)\<rparr>"

abbreviation demo_platform :: core_env where
  "demo_platform \<equiv> platform 2 (demo_runner (Inr None)) demo_nenv demo_env"

abbreviation scan :: "int \<times> task_op" where
  "scan \<equiv> (10, EmitEvent \<lparr>emitterIdentifier = ''core'', eventIdentifier = ''folder_scanned'', ea_data = JNull,
     ea_target = TargetFolder ''f'' None\<rparr>)"

definition scanned :: task_db where
  "scanned = fold (task_step 2 demo_platform demo_env) [scan, (15, snd scan)] empty_db"

definition reported_db :: task_db where
  "reported_db = fold (task_step 2 demo_platform demo_env) [(6000, Drain 3 False), (9000, Drain 3 False)] scanned"

text \<open>One run of each processor: \<open>flushed\<close> and \<open>waiting\<close> of the batch, at two times, then the
  deliveries and the emails.\<close>

definition batch_row :: task where "batch_row = snd (hd (tasks scanned))"

definition flushed :: "(tx_error + unit) \<times> task_db" where
  "flushed = createEventNotifications demo_env 6000 batch_row scanned"

definition waiting :: "(tx_error + unit) \<times> task_db" where
  "waiting = createEventNotifications demo_env 4000 batch_row scanned"

definition waiting_row :: task where "waiting_row = snd (last (tasks (snd waiting)))"

definition delivery_row :: task where "delivery_row = snd (last (tasks (snd flushed)))"

definition scan_notification :: notification where "scan_notification = hd (notifications (snd flushed))"

definition delivered_run :: "(tx_error + unit) \<times> task_db" where
  "delivered_run = buildNotificationDeliveries demo_env demo_nenv 6100 delivery_row (snd flushed)"

definition emailed_run :: "(tx_error + unit) \<times> task_db" where
  "emailed_run = sendNotificationEmails demo_env demo_nenv 9000 delivery_row (snd delivered_run)"

text \<open>What is read off these states, each evaluated once.\<close>

definition system_view :: "task_db \<Rightarrow> string list list \<times> string list" where
  "system_view db = (map ntf_eventIds (notifications db), map em_to (outbox db))"

definition batch_view :: "task_db \<Rightarrow> string \<times> rat \<times> (string \<times> string) list \<times> nat \<times> string list" where
  "batch_view db = (string_or_empty (data_string (snd (hd (tasks db))) ''aggregationKey''), requeue_count (snd (hd (tasks db))),
     map (\<lambda>e. (event_emitterId e, event_identifier e)) (unhandled_events ''core:folder_scanned:f:'' db),
     length (notifications db), map fst (tasks db))"

definition waiting_view :: "(tx_error + unit) \<times> task_db \<Rightarrow> bool \<times> (bool \<times> string) list" where
  "waiting_view r = (isl (fst r), map (\<lambda>(i, x). (i = ''uu'', taskIdentifier x)) (tasks (snd r)))"

definition flushed_view :: "(tx_error + unit) \<times> task_db \<Rightarrow> bool \<times> string list \<times> string list \<times> bool \<times> string" where
  "flushed_view r = (isl (fst r), map ntf_id (notifications (snd r)), getRelevantUsers demo_nenv (hd (notifications (snd r))),
     ch_email (channels_of demo_nenv (hd (notifications (snd r))) ''o''),
     string_or_empty (data_string (snd (last (tasks (snd r)))) ''notificationId''))"

definition delivered_view :: "(tx_error + unit) \<times> task_db \<Rightarrow> bool \<times> bool \<times> nat" where
  "delivered_view r = (isl (fst r), distinct (map dl_id (deliveries (snd r))), length (outbox (snd r)))"

lemma system_seen: "system_view reported_db = ([[''u'', ''uuu'']], [''o@x''])"
  by code_simp

lemma batch_seen: "batch_view scanned = (''core:folder_scanned:f:'', 0, [(''core'', ''folder_scanned''), (''core'', ''folder_scanned'')], 0, [''uu''])"
  by code_simp

lemma waiting_seen: "waiting_view waiting = (False, [(True, ''create_event_notifications''), (False, ''create_event_notifications'')])"
  by code_simp

lemma flushed_seen: "flushed_view flushed = (False, [''uuuuu''], [''o'', ''s''], True, ''uuuuu'')"
  by code_simp

lemma delivered_seen: "delivered_view delivered_run = (False, True, 0)"
  by code_simp

lemma emailed_seen: "delivered_view emailed_run = (False, True, 1)"
  by code_simp

lemmas views = system_view_def batch_view_def waiting_view_def flushed_view_def delivered_view_def
lemmas system_values = system_seen [unfolded views, simplified]
lemmas batch_values = batch_seen [unfolded views, folded batch_row_def, simplified]
lemmas waiting_values = waiting_seen [unfolded views, simplified]
lemmas flushed_values = flushed_seen [unfolded views, folded delivery_row_def scan_notification_def, simplified]
lemmas delivered_values = delivered_seen [unfolded views, simplified]
lemmas emailed_values = emailed_seen [unfolded views, simplified]

lemmas run_facts = batch_values waiting_values flushed_values delivered_values emailed_values

lemma demo_executors: "executors_keep_rel notify_rel (demo_runner r)"
  by (simp add: executors_keep_rel_def demo_runner_def tx_keeps_def notify.R_refl)

lemma scanned_reachable: "task_reachable 2 demo_platform demo_env scanned"
  unfolding scanned_def by (simp, intro task_reachable.intros)

lemma reported_reachable: "task_reachable 2 demo_platform demo_env reported_db"
  unfolding reported_db_def by (simp, intro task_reachable.intros scanned_reachable)

theorem reported_once_witness:
  "map ntf_eventIds (notifications reported_db) = [[''u'', ''uuu'']]
   \<and> distinct (concat (map ntf_eventIds (notifications reported_db)))
   \<and> (\<exists>x e. x \<in> set (notifications reported_db) \<and> map_of (events reported_db) ''u'' = Some e
         \<and> event_aggregationKey e = Some (ntf_aggregationKey x))"
proof -
  obtain x where "x \<in> set (notifications reported_db)" "''u'' \<in> set (ntf_eventIds x)"
    using system_values by (cases "notifications reported_db") auto
  then show ?thesis using reported_once [OF reported_reachable demo_executors] system_values by blast
qed

theorem emailed_once_witness:
  "map em_to (outbox reported_db) = [''o@x'']
   \<and> (\<exists>m d. m \<in> set (outbox reported_db) \<and> d \<in> set (deliveries reported_db)
         \<and> dl_id d = em_delivery m \<and> dl_email d = Some SentChannel)"
proof -
  obtain m where "m \<in> set (outbox reported_db)"
    using system_values by (cases "outbox reported_db") auto
  then show ?thesis using emailed_once [OF reported_reachable demo_executors] system_values by blast
qed

section \<open>One run of each processor\<close>

lemma unit_pair: "\<not> isl (fst p) \<Longrightarrow> p = (Inr (), snd p)"
  by (cases p; cases "fst p") auto

lemma flushed_run: "createEventNotifications demo_env 6000 batch_row scanned = (Inr (), snd flushed)"
proof -
  have "\<not> isl (fst flushed)" using run_facts by simp
  then show ?thesis using unit_pair [of flushed] by (simp add: flushed_def)
qed

lemma waiting_run: "createEventNotifications demo_env 4000 batch_row scanned = (Inr (), snd waiting)"
proof -
  have "\<not> isl (fst waiting)" using run_facts by simp
  then show ?thesis using unit_pair [of waiting] by (simp add: waiting_def)
qed

lemma scanned_ok: "reports_ok scanned"
  using reachable_notify [OF scanned_reachable demo_executors] by (simp add: notify_ok_def)

lemma batch_key: "string_or_empty (data_string batch_row ''aggregationKey'') = ''core:folder_scanned:f:''"
  using run_facts by simp

lemma batch_events:
  obtains e rest where "unhandled_events ''core:folder_scanned:f:'' scanned = e # rest"
    "event_emitterId e = ''core''" "event_identifier e = ''folder_scanned''"
  using batch_values by (cases "unhandled_events ''core:folder_scanned:f:'' scanned") auto

theorem batch_settled_witness:
  "unhandled_events ''core:folder_scanned:f:'' (snd flushed) = [] \<and> length (notifications (snd flushed)) = 1"
proof -
  obtain e rest where e: "unhandled_events ''core:folder_scanned:f:'' scanned = e # rest"
    "event_emitterId e = ''core''" "event_identifier e = ''folder_scanned''" by (rule batch_events)
  have c: "batching_config (event_emitterId e) (event_identifier e) \<noteq> None"
    using e by (simp add: batching_config_def CORE_IDENTIFIER_def getCoreEventAggregationConfig_def)
  show ?thesis
    using batch_settled [OF flushed_run scanned_ok batch_key e(1) c] run_facts by auto
qed

theorem batch_bounded_witness: "batch_chain demo_env batch_row 1 waiting_row \<and> (1 :: nat) \<le> 70"
proof -
  obtain i x y where t: "tasks (snd waiting) = [(''uu'', x), (i, y)]" "i \<noteq> ''uu''"
    "taskIdentifier y = ''create_event_notifications''"
    using waiting_values by (auto simp: map_eq_Cons_conv)
  have "waiting_row = y" by (simp add: waiting_row_def t(1))
  moreover have "(i, y) \<in> set (tasks (snd waiting)) - set (tasks scanned)"
    using t batch_values by (auto simp: map_eq_Cons_conv)
  ultimately have c: "batch_chain demo_env batch_row (Suc 0) waiting_row"
    using waiting_run t(3) by (intro batch_chain.intros(2) [OF batch_chain.intros(1)]) simp_all
  have "requeue_count batch_row = 0" using run_facts by simp
  with batch_bounded [OF c] c show ?thesis by simp
qed

theorem deliveries_exact_witness:
  "delivered demo_nenv scan_notification ''o'' (delivery_of (snd flushed) ''uuuuu'' ''o'')
     (delivery_of (snd delivered_run) ''uuuuu'' ''o'')
   \<and> (\<exists>z. tasks (snd delivered_run) = tasks (snd flushed) @ [(task_id z, z)]
         \<and> taskIdentifier z = ''send_notification_emails'' \<and> dontStartBefore z = Some (6100 + 2000))"
proof -
  have "\<not> isl (fst delivered_run)" using run_facts by simp
  then have run: "buildNotificationDeliveries demo_env demo_nenv 6100 delivery_row (snd flushed) = (Inr (), snd delivered_run)"
    using unit_pair [of delivered_run] by (simp add: delivered_run_def)
  have one: "notifications (snd flushed) = [scan_notification]" and "ntf_id scan_notification = ''uuuuu''"
    using flushed_values by (auto simp: scan_notification_def map_eq_Cons_conv)
  moreover have "string_or_empty (data_string delivery_row ''notificationId'') = ''uuuuu''" using run_facts by simp
  note i = calculation this
  then have found: "find (\<lambda>y. ntf_id y = string_or_empty (data_string delivery_row ''notificationId'')) (notifications (snd flushed))
      = Some scan_notification"
    by simp
  have users: "getRelevantUsers demo_nenv scan_notification = [''o'', ''s'']"
    "ch_email (channels_of demo_nenv scan_notification ''o'')" using run_facts by simp_all
  from i show ?thesis
    using deliveries_exact [OF run found, of "''uuuuu''" "''o''"] users by simp
qed

theorem emails_settled_witness:
  "outbox (snd emailed_run) = outbox (snd delivered_run)
     @ map (mail_for demo_nenv ''p@x'') (filter (accepted demo_nenv ''p@x'' 9000) (pending_emails demo_nenv (snd delivered_run)))
   \<and> length (outbox (snd emailed_run)) = 1"
proof -
  have "\<not> isl (fst emailed_run)" using run_facts by simp
  then have run: "sendNotificationEmails demo_env demo_nenv 9000 delivery_row (snd delivered_run) = (Inr (), snd emailed_run)"
    using unit_pair [of emailed_run] by (simp add: emailed_run_def)
  have "distinct (map dl_id (deliveries (snd delivered_run)))" using run_facts by simp
  moreover have "length (outbox (snd emailed_run)) = 1" using run_facts by simp
  ultimately show ?thesis
    using emails_settled [OF run, of "''p@x''"] by (simp add: demo_nenv_def)
qed

section \<open>Texts and settings\<close>

theorem email_markup_fixed_witness:
  "filter markup (buildHtmlEmail ''<b>'' (Some ''a > b'') ''u'') = filter markup (buildHtmlEmail ''t'' (Some ''c'') ''v'')"
  by (rule email_markup_fixed) simp

abbreviation folder_off :: setting where
  "folder_off \<equiv> \<lparr>set_userId = ''o'', set_eventIdentifier = ''folder_scanned'', set_emitterIdentifier = ''core'',
     set_channel = Web, set_enabled = False, set_folderId = Some ''f''\<rparr>"

theorem setting_resolved_witness:
  "\<not> ch_web (resolveSettings (snd (update_setting folder_off (user_settings demo_nenv))) ''o'' ''folder_scanned'' ''core'' (Some ''f''))"
proof -
  have "\<not> isl (fst (update_setting folder_off (user_settings demo_nenv)))" by code_simp
  then have "update_setting folder_off (user_settings demo_nenv) = (Inr (), snd (update_setting folder_off (user_settings demo_nenv)))"
    by (cases "update_setting folder_off (user_settings demo_nenv)"; cases "fst (update_setting folder_off (user_settings demo_nenv))") auto
  from setting_resolved [OF this] show ?thesis by simp
qed

end
