(* ===== verification/Auth_Codec.thy ===== *)
theory Auth_Codec
  imports Http
begin

text \<open>
  The codings behind the sessions (packages/api, auth): refresh tokens
  (auth/utils/hashed-token-helper.ts) with the base 64 coding of \<open>Buffer\<close>, and the expiry of a
  session (auth/services/auth.service.ts, packages/utils date.util.ts).  A secret is a sequence of
  bytes; a date is its time in milliseconds.
\<close>

section \<open>Base 64\<close>

fun to_sextets :: "nat list \<Rightarrow> nat list" where
  "to_sextets [] = []"
| "to_sextets [a] = [a div 4, (a mod 4) * 16]"
| "to_sextets [a, b] = [a div 4, (a mod 4) * 16 + b div 16, (b mod 16) * 4]"
| "to_sextets (a # b # c # r) =
     a div 4 # ((a mod 4) * 16 + b div 16) # ((b mod 16) * 4 + c div 64) # c mod 64 # to_sextets r"

fun of_sextets :: "nat list \<Rightarrow> nat list" where
  "of_sextets (a # b # c # d # r) =
     (a * 4 + b div 16) # ((b mod 16) * 16 + c div 4) # ((c mod 4) * 64 + d) # of_sextets r"
| "of_sextets [a, b, c] = [a * 4 + b div 16, (b mod 16) * 16 + c div 4]"
| "of_sextets [a, b] = [a * 4 + b div 16]"
| "of_sextets _ = []"

definition base64_char :: "nat \<Rightarrow> char" where
  "base64_char n = (if n < 26 then char_of (65 + n) else if n < 52 then char_of (71 + n)
     else if n < 62 then char_of (n - 4) else if n = 62 then CHR ''+'' else CHR ''/'')"

definition base64_value :: "char \<Rightarrow> nat option" where
  "base64_value c = (let n = (of_char c :: nat) in
     if 65 \<le> n \<and> n \<le> 90 then Some (n - 65) else if 97 \<le> n \<and> n \<le> 122 then Some (n - 71)
     else if 48 \<le> n \<and> n \<le> 57 then Some (n + 4) else if c = CHR ''+'' then Some 62
     else if c = CHR ''/'' then Some 63 else None)"

text \<open>\<open>secret.toString('base64')\<close> and \<open>Buffer.from(s, 'base64')\<close>, which skips what is not in the alphabet.\<close>

definition to_base64 :: "string \<Rightarrow> string" where
  "to_base64 s = map base64_char (to_sextets (map of_char s)) @ replicate ((3 - length s mod 3) mod 3) (CHR ''='')"

definition of_base64 :: "string \<Rightarrow> string" where
  "of_base64 s = map char_of (of_sextets (List.map_filter base64_value s))"

section \<open>Refresh tokens\<close>

definition replace_char :: "char \<Rightarrow> char \<Rightarrow> string \<Rightarrow> string" where
  "replace_char a b = map (\<lambda>c. if c = a then b else c)"

definition encode_token :: "string \<Rightarrow> string \<Rightarrow> string" where
  "encode_token i secret = join_on (CHR '':'')
     [i, rev (dropWhile (\<lambda>c. c = CHR ''='') (rev (replace_char (CHR ''/'') (CHR ''_'') (replace_char (CHR ''+'') (CHR ''-'') (to_base64 secret)))))]"

definition hex_text :: "nat \<Rightarrow> string \<Rightarrow> bool" where
  "hex_text n s \<longleftrightarrow> length s = n \<and> list_all (\<lambda>c. hex_value c \<noteq> None) s"

text \<open>\<open>z.guid()\<close>.\<close>

definition is_guid :: "string \<Rightarrow> bool" where
  "is_guid s = (case split_on (CHR ''-'') s of
     [a, b, c, d, e] \<Rightarrow> hex_text 8 a \<and> hex_text 4 b \<and> hex_text 4 c \<and> hex_text 4 d \<and> hex_text 12 e
   | _ \<Rightarrow> False)"

text \<open>\<open>None\<close> is an \<open>UnauthorizedException\<close>.\<close>

definition decodeRefreshToken :: "string \<Rightarrow> (string \<times> string) option" where
  "decodeRefreshToken token =
     (let parts = split_on (CHR '':'') token; i = hd parts;
          secret = replace_char (CHR ''_'') (CHR ''/'') (replace_char (CHR ''-'') (CHR ''+'')
            (case parts of _ # x # _ \<Rightarrow> x | _ \<Rightarrow> []))
      in if i = [] \<or> secret = [] \<or> \<not> is_guid i then None
         else Some (i, of_base64 (secret @ replicate ((4 - length secret mod 4) mod 4) (CHR ''=''))))"

lemma byte_parts:
  assumes "(b :: nat) < 256"
  shows "b div 4 < 64" "b div 16 < 16" "b div 64 < 4"
  using assms by (simp_all add: less_mult_imp_div_less)

lemma of_to_sextets: "list_all (\<lambda>a. a < 256) xs \<Longrightarrow> of_sextets (to_sextets xs) = xs"
proof (induction xs rule: to_sextets.induct)
  case (3 a b)
  then show ?case using byte_parts [of b] by simp
next
  case (4 a b c r)
  then show ?case using byte_parts [of b] byte_parts [of c] by simp
qed simp_all

lemma sextet_sums:
  assumes "(b :: nat) < 256"
  shows "(a mod 4) * 16 + b div 16 < 64" "(a mod 16) * 4 + b div 64 < 64"
proof -
  have a: "a mod 4 < 4" "a mod 16 < 16" by simp_all
  show "(a mod 4) * 16 + b div 16 < 64" using a(1) byte_parts(2) [OF assms] by linarith
  show "(a mod 16) * 4 + b div 64 < 64" using a(2) byte_parts(3) [OF assms] by linarith
qed

lemma sextets_less: "list_all (\<lambda>a. a < 256) xs \<Longrightarrow> list_all (\<lambda>a. a < 64) (to_sextets xs)"
  by (induction xs rule: to_sextets.induct) (simp_all add: byte_parts sextet_sums)

lemma base64_values: "n < 64 \<Longrightarrow> base64_value (base64_char n) = Some n"
  by (auto simp: base64_value_def base64_char_def Let_def of_char_of)

lemma base64_chars:
  assumes "n < 64"
  shows "base64_char n \<noteq> CHR ''='' \<and> base64_char n \<noteq> CHR '':'' \<and> base64_char n \<noteq> CHR ''-'' \<and> base64_char n \<noteq> CHR ''_''"
proof -
  have "base64_value (CHR ''='') = None" "base64_value (CHR '':'') = None" "base64_value (CHR ''-'') = None"
    "base64_value (CHR ''_'') = None" by code_simp+
  then show ?thesis using base64_values [OF assms] by (metis option.distinct(1))
qed

lemma byte_codes: "list_all (\<lambda>a. a < 256) (map (of_char :: char \<Rightarrow> nat) s)"
  by (simp add: list_all_iff)

lemma of_to_base64_sextets:
  "List.map_filter base64_value (map base64_char (to_sextets (map of_char s)) @ replicate n (CHR ''='')) = to_sextets (map of_char s)"
proof -
  have "base64_value (CHR ''='') = None" by code_simp
  then have pad: "List.map_filter base64_value (replicate n (CHR ''='')) = []"
    by (induction n) (simp_all add: List.map_filter_simps)
  have "List.map_filter base64_value (map base64_char ns @ t) = ns @ List.map_filter base64_value t"
    if "list_all (\<lambda>a. a < 64) ns" for ns t
    using that by (induction ns) (simp_all add: List.map_filter_simps base64_values)
  then show ?thesis using sextets_less [OF byte_codes] pad by simp
qed

lemma of_sextets_bytes: "map char_of (of_sextets (to_sextets (map (of_char :: char \<Rightarrow> nat) s))) = s"
  by (simp add: of_to_sextets [OF byte_codes] comp_def)

lemma of_to_base64: "of_base64 (to_base64 s) = s"
  unfolding of_base64_def to_base64_def of_to_base64_sextets by (rule of_sextets_bytes)

text \<open>The characters of a token.\<close>

lemma url_characters:
  "replace_char (CHR ''_'') (CHR ''/'') (replace_char (CHR ''-'') (CHR ''+'')
     (replace_char (CHR ''/'') (CHR ''_'') (replace_char (CHR ''+'') (CHR ''-'') (map base64_char ns)))) = map base64_char ns"
  if "list_all (\<lambda>a. a < 64) ns"
  using that by (induction ns) (auto simp: replace_char_def dest: base64_chars)

lemma stripped:
  assumes "list_all (\<lambda>a. a < 64) ns"
  shows "rev (dropWhile (\<lambda>c. c = CHR ''='') (rev (replace_char (CHR ''/'') (CHR ''_'') (replace_char (CHR ''+'') (CHR ''-'')
      (map base64_char ns @ replicate n (CHR ''=''))))))
    = replace_char (CHR ''/'') (CHR ''_'') (replace_char (CHR ''+'') (CHR ''-'') (map base64_char ns))" (is "rev (dropWhile ?p (rev ?l)) = ?r")
proof -
  have l: "?l = ?r @ replicate n (CHR ''='')" by (simp add: replace_char_def)
  have "c \<noteq> CHR ''=''" if "c \<in> set ?r" for c
    using that assms base64_chars by (auto simp: replace_char_def list_all_iff split: if_splits)
  then have "dropWhile ?p (rev ?r) = rev ?r" by (cases "rev ?r") (auto simp: dropWhile_eq_self_iff)
  then show ?thesis unfolding l by (simp add: dropWhile_append)
qed

lemma guid_colon:
  assumes "is_guid i"
  shows "i \<noteq> []" and "CHR '':'' \<notin> set i"
proof -
  show "i \<noteq> []" using assms by (auto simp: is_guid_def)
  have "hex_value (CHR '':'') = None" by code_simp
  then have part: "CHR '':'' \<notin> set p" if "hex_text n p" for n p
    using that by (auto simp: hex_text_def list_all_iff)
  obtain a b c d e where parts: "split_on (CHR ''-'') i = [a, b, c, d, e]"
    and "hex_text 8 a" "hex_text 4 b" "hex_text 4 c" "hex_text 4 d" "hex_text 12 e"
    using assms by (auto simp: is_guid_def split: list.splits)
  then have "i = join_on (CHR ''-'') [a, b, c, d, e]" by (metis join_split)
  then show "CHR '':'' \<notin> set i" using part \<open>hex_text 8 a\<close> \<open>hex_text 4 b\<close> \<open>hex_text 4 c\<close> \<open>hex_text 4 d\<close> \<open>hex_text 12 e\<close> by simp
qed

lemma refresh_token_decoded:
  assumes "is_guid i" and "secret \<noteq> []"
  shows "decodeRefreshToken (encode_token i secret) = Some (i, secret)"
proof -
  let ?ns = "to_sextets (map of_char secret)"
  let ?r = "replace_char (CHR ''/'') (CHR ''_'') (replace_char (CHR ''+'') (CHR ''-'') (map base64_char ?ns))"
  have ns: "list_all (\<lambda>a. a < 64) ?ns" by (rule sextets_less [OF byte_codes])
  have e: "encode_token i secret = i @ CHR '':'' # ?r"
    unfolding encode_token_def to_base64_def stripped [OF ns] by simp
  have "CHR '':'' \<notin> set ?r"
    using ns by (auto simp: replace_char_def list_all_iff split: if_splits) (metis base64_chars)
  then have parts: "split_on (CHR '':'') (encode_token i secret) = [i, ?r]"
    unfolding e using guid_colon [OF assms(1)] by (simp add: split_on_append split_on_notin)
  have "?ns \<noteq> []" using assms(2) by (cases secret rule: to_sextets.cases [of "map of_char secret" for secret]) auto
  then have "map base64_char ?ns \<noteq> []" by simp
  then show ?thesis
    unfolding decodeRefreshToken_def parts Let_def
    using assms(1) guid_colon [OF assms(1)] url_characters [OF ns] of_to_base64_sextets of_sextets_bytes
    by (simp add: of_base64_def)
qed

text \<open>The codec of refresh tokens: decoding a token gives back the session id and the secret it was encoded from, for every id in the shape of a UUID and every secret that is not empty (URL alphabet, padding and the bytes included).\<close>

theorem refresh_token_roundtrip:
  "is_guid i \<Longrightarrow> secret \<noteq> [] \<Longrightarrow> decodeRefreshToken (encode_token i secret) = Some (i, secret)"
  by (rule refresh_token_decoded)

section \<open>The expiry of a session\<close>

text \<open>\<open>date.getDate()\<close>: the day of the month, in the time zone of the server; \<open>zone\<close> is its distance from
  UTC.\<close>

definition day_of_month :: "int \<Rightarrow> int" where
  "day_of_month doy = doy - (153 * ((5 * doy + 2) div 153) + 2) div 5 + 1"    \<comment> \<open>days are counted from March\<close>

definition year_of_era :: "int \<Rightarrow> int" where
  "year_of_era doe = (doe - doe div 1460 + doe div 36524 - doe div 146096) div 365"

definition days_before :: "int \<Rightarrow> int" where
  "days_before yoe = 365 * yoe + yoe div 4 - yoe div 100"

definition day_in_era :: "int \<Rightarrow> int" where
  "day_in_era doe = day_of_month (doe - days_before (year_of_era doe))"

definition getDate :: "int \<Rightarrow> int \<Rightarrow> int" where
  "getDate zone t = day_in_era (((t + zone) div 86400000 + 719468) mod 146097)"

definition addMs :: "int \<Rightarrow> int \<Rightarrow> int" where "addMs date ms = date + ms"

definition earliest :: "int \<Rightarrow> int \<Rightarrow> int \<Rightarrow> int" where
  "earliest zone a b = (if getDate zone a \<le> getDate zone b then a else b)"

definition SessionAbsolute :: int where "SessionAbsolute = 30 * 24 * 60 * 60 * 1000"
definition SessionSliding :: int where "SessionSliding = 15 * 24 * 60 * 60 * 1000"

definition sessionExpiresAt :: "int \<Rightarrow> int \<Rightarrow> int \<Rightarrow> int" where
  "sessionExpiresAt zone now createdAt =
     earliest zone (addMs now SessionSliding) (addMs createdAt SessionAbsolute)"

lemma day_le: "day_of_month doy \<le> 31"
proof -
  define m where "m = (5 * doy + 2) div 153"
  define q where "q = (153 * m + 2) div 5"
  have "5 * doy + 2 < 153 * m + 153" unfolding m_def by linarith
  moreover have "153 * m + 2 < 5 * q + 5" unfolding q_def by linarith
  ultimately have "doy - q \<le> 30" by linarith
  then show ?thesis by (simp add: day_of_month_def m_def [symmetric] q_def [symmetric])
qed

lemma getDate_le: "getDate zone t \<le> 31"
  by (simp add: getDate_def day_in_era_def day_le)

lemmas date_values = getDate_def day_in_era_def day_of_month_def days_before_def year_of_era_def SessionAbsolute_def SessionSliding_def

lemma expiry_cases: "sessionExpiresAt zone now c = now + SessionSliding \<or> sessionExpiresAt zone now c = c + SessionAbsolute"
  by (simp add: sessionExpiresAt_def earliest_def addMs_def)

text \<open>\<open>earliest\<close> compares days of the month: when the absolute limit falls on a 31st it never applies.\<close>

lemma absolute_limit_skipped:
  "getDate zone (c + SessionAbsolute) = 31 \<Longrightarrow> sessionExpiresAt zone now c = now + SessionSliding"
  using getDate_le [of zone "now + SessionSliding"] by (simp add: sessionExpiresAt_def earliest_def addMs_def)

end
