(* ===== verification/Auth_State.thy ===== *)
theory Auth_State
  imports Auth_Codec Task_Events
begin

text \<open>
  The tables of users, sessions and identities (packages/api, auth/entities, users/entities), the
  operations on them, and tokens (auth/services/jwt.service.ts).  The signing and checking of a
  JWT (jose), the hashes and the random values are parameters; an operation is a function from the
  database to a result or an exception and the database it leaves, one statement after the other
  and without a transaction, as in the code.
\<close>

section \<open>Tables\<close>

record user =
  usr_id :: string
  usr_isAdmin :: bool
  usr_name :: "string option"
  usr_username :: string
  usr_email :: "string option"
  usr_emailVerified :: bool
  usr_emailVerificationKey :: "string option"
  usr_permissions :: "string list"
  usr_passwordHash :: "string option"
  usr_passwordSalt :: "string option"
  usr_createdAt :: int
  usr_updatedAt :: int

record user_session =
  ses_id :: string
  ses_hash :: string
  ses_userId :: string
  ses_type :: string
  ses_typeDetails :: "json option"
  ses_expiresAt :: int
  ses_createdAt :: int
  ses_updatedAt :: int

record identity =
  idn_id :: string
  idn_userId :: string
  idn_provider :: string
  idn_providerUserId :: string
  idn_providerEmail :: "string option"
  idn_providerName :: "string option"
  idn_createdAt :: int

text \<open>\<open>randoms\<close> counts the random values that were drawn; \<open>engine\<close> is the database of the task engine,
  where the events go.\<close>

record auth_db =
  users :: "user list"
  sessions :: "user_session list"
  identities :: "identity list"
  randoms :: nat
  engine :: task_db

definition empty_auth :: auth_db where
  "empty_auth = \<lparr>users = [], sessions = [], identities = [], randoms = 0, engine = empty_db\<rparr>"

datatype auth_error =
    ForbiddenError string | BadRequestError string | ConflictError string | UnauthorizedError
  | LoginInvalid | SessionInvalid | SessionExpired | SessionNotFound | TokenInvalid | TokenExpired
  | InternalError | UserNotFound | UserIdentityConflict | DatabaseError string | EngineError tx_error

type_synonym 'a aum = "auth_db \<Rightarrow> (auth_error + 'a) \<times> auth_db"

definition au_return :: "'a \<Rightarrow> 'a aum" where "au_return x = (\<lambda>db. (Inr x, db))"
definition au_throw :: "auth_error \<Rightarrow> 'a aum" where "au_throw e = (\<lambda>db. (Inl e, db))"

definition au_bind :: "'a aum \<Rightarrow> ('a \<Rightarrow> 'b aum) \<Rightarrow> 'b aum" where
  "au_bind m f = (\<lambda>db. case m db of (Inl e, db') \<Rightarrow> (Inl e, db') | (Inr x, db') \<Rightarrow> f x db')"

definition au_lift :: "auth_error + 'a \<Rightarrow> 'a aum" where
  "au_lift r = (case r of Inl e \<Rightarrow> au_throw e | Inr x \<Rightarrow> au_return x)"

definition au_require :: "bool \<Rightarrow> auth_error \<Rightarrow> unit aum" where
  "au_require b e = (if b then au_return () else au_throw e)"

text \<open>\<open>findFirst\<close> on the three tables.\<close>

definition find_user :: "(user \<Rightarrow> bool) \<Rightarrow> user option aum" where
  "find_user p = (\<lambda>db. (Inr (find p (users db)), db))"

definition find_session :: "(user_session \<Rightarrow> bool) \<Rightarrow> user_session option aum" where
  "find_session p = (\<lambda>db. (Inr (find p (sessions db)), db))"

definition find_identity :: "(identity \<Rightarrow> bool) \<Rightarrow> identity option aum" where
  "find_identity p = (\<lambda>db. (Inr (find p (identities db)), db))"

text \<open>Inserts, with the unique indexes of the tables.\<close>

definition duplicate_key :: auth_error where
  "duplicate_key = DatabaseError ''duplicate key value violates unique constraint''"

definition lower_name :: "user \<Rightarrow> string" where "lower_name u = to_lower (usr_username u)"

definition insert_user :: "user \<Rightarrow> unit aum" where
  "insert_user u = (\<lambda>db. if usr_id u \<in> usr_id ` set (users db) \<or> lower_name u \<in> lower_name ` set (users db)
     then (Inl duplicate_key, db) else (Inr (), db\<lparr>users := users db @ [u]\<rparr>))"

definition insert_session :: "user_session \<Rightarrow> unit aum" where
  "insert_session s = (\<lambda>db. if ses_id s \<in> ses_id ` set (sessions db)
     then (Inl duplicate_key, db) else (Inr (), db\<lparr>sessions := sessions db @ [s]\<rparr>))"

definition identity_key :: "identity \<Rightarrow> string \<times> string" where
  "identity_key i = (idn_provider i, idn_providerUserId i)"

definition identity_link :: "identity \<Rightarrow> string \<times> string" where
  "identity_link i = (idn_userId i, idn_provider i)"

definition insert_identity :: "identity \<Rightarrow> unit aum" where
  "insert_identity i = (\<lambda>db. if idn_id i \<in> idn_id ` set (identities db) \<or> identity_key i \<in> identity_key ` set (identities db)
       \<or> identity_link i \<in> identity_link ` set (identities db)
     then (Inl duplicate_key, db)
     else if idn_userId i \<notin> usr_id ` set (users db)
     then (Inl (DatabaseError ''violates foreign key constraint''), db)
     else (Inr (), db\<lparr>identities := identities db @ [i]\<rparr>))"

section \<open>Parameters\<close>

text \<open>The secret of the user tokens, the key pair of the app tokens, the key of email verification.\<close>

datatype jwt_key = HsKey | EdKey | EmailKey

datatype jwt_failure = JwtExpired | JwtInvalid

text \<open>The account of a user at a provider.\<close>

record provider_user =
  pu_id :: string
  pu_email :: "string option"
  pu_name :: "string option"
  pu_picture :: "string option"

text \<open>
  \<open>zone\<close> is the time zone of the server, \<open>new_uuid\<close>, \<open>secret_bytes\<close> and \<open>salt_text\<close> the random values, by the number
  of the draw; \<open>sso_signature\<close> the HMAC of a serialised value under the secret of the platform,
  \<open>jwtVerify\<close> the check of a token for a key, an audience and an issuer at a time in seconds;
  \<open>email_keys\<close> says whether the keys for signing and for checking email tokens are configured, and
  \<open>json_size\<close> is the size of a serialised value.
\<close>

record auth_env =
  zone :: int
  platform_host :: string
  new_uuid :: "nat \<Rightarrow> string"
  secret_bytes :: "nat \<Rightarrow> string"
  salt_text :: "nat \<Rightarrow> string"
  sha512_hex :: "string \<Rightarrow> string"
  pbkdf2_hex :: "string \<Rightarrow> string \<Rightarrow> string"
  sha256_url :: "string \<Rightarrow> string"
  sso_signature :: "json \<Rightarrow> string"
  signJwt :: "jwt_key \<Rightarrow> json \<Rightarrow> string"
  decodeJwt :: "string \<Rightarrow> json option"
  jwtVerify :: "jwt_key \<Rightarrow> string option \<Rightarrow> string option \<Rightarrow> int \<Rightarrow> string \<Rightarrow> jwt_failure + json"
  email_keys :: "bool \<times> bool"
  json_size :: "json \<Rightarrow> nat"
  date_text :: "int \<Rightarrow> string"
  date_of :: "string \<Rightarrow> int"
  googleCallback :: "string \<Rightarrow> string \<Rightarrow> auth_error + provider_user"
  googleAuthUrl :: "string \<Rightarrow> auth_error + string"
  signup_setting :: "json option"

definition au_random :: "(nat \<Rightarrow> 'a) \<Rightarrow> 'a aum" where
  "au_random f = (\<lambda>db. (Inr (f (randoms db)), db\<lparr>randoms := Suc (randoms db)\<rparr>))"

definition in_engine :: "unit txm \<Rightarrow> unit aum" where
  "in_engine m = (\<lambda>db. case m (engine db) of
     (Inl e, d) \<Rightarrow> (Inl (EngineError e), db\<lparr>engine := d\<rparr>) | (Inr _, d) \<Rightarrow> (Inr (), db\<lparr>engine := d\<rparr>))"

section \<open>Tokens\<close>

definition str_claim :: "json \<Rightarrow> string \<Rightarrow> string option" where
  "str_claim v k = (case js_prop v k of Some (Some (JStr s)) \<Rightarrow> Some s | _ \<Rightarrow> None)"

definition num_claim :: "json \<Rightarrow> string \<Rightarrow> rat option" where
  "num_claim v k = (case js_prop v k of Some (Some (JNum r)) \<Rightarrow> Some r | _ \<Rightarrow> None)"

definition mapJoseError :: "jwt_failure + 'a \<Rightarrow> auth_error + 'a" where
  "mapJoseError r = (case r of Inr p \<Rightarrow> Inr p | Inl JwtExpired \<Rightarrow> Inl TokenExpired | Inl JwtInvalid \<Rightarrow> Inl TokenInvalid)"

definition verifyUserJWT :: "auth_env \<Rightarrow> int \<Rightarrow> string \<Rightarrow> auth_error + json" where
  "verifyUserJWT env now token = mapJoseError (jwtVerify env HsKey (Some (platform_host env)) None (now div 1000) token)"

text \<open>\<open>setIssuedAt\<close> and \<open>setExpirationTime\<close>.\<close>

definition time_claims :: "int \<Rightarrow> int \<Rightarrow> (string \<times> json) list" where
  "time_claims now seconds = [(''iat'', JNum (of_int (now div 1000))), (''exp'', JNum (of_int (now div 1000 + seconds)))]"

definition session_claims :: "auth_env \<Rightarrow> int \<Rightarrow> user_session \<Rightarrow> string \<Rightarrow> json" where
  "session_claims env now s jti = JObj ([(''scp'', JArr []), (''aud'', JStr (platform_host env)),
     (''sub'', JStr (''user:'' @ ses_userId s)), (''jti'', JStr (ses_id s @ CHR '':'' # jti))] @ time_claims now 1296000)"

text \<open>\<open>AccessTokenJWT.parse\<close>.\<close>

definition access_token :: "json \<Rightarrow> bool" where
  "access_token v \<longleftrightarrow> str_claim v ''aud'' \<noteq> None \<and> str_claim v ''jti'' \<noteq> None \<and> str_claim v ''sub'' \<noteq> None
     \<and> (case js_prop v ''scp'' of Some (Some (JArr xs)) \<Rightarrow> list_all (\<lambda>x. case x of JStr _ \<Rightarrow> True | _ \<Rightarrow> False) xs | _ \<Rightarrow> False)"

definition createSessionAccessToken :: "auth_env \<Rightarrow> int \<Rightarrow> user_session \<Rightarrow> string aum" where
  "createSessionAccessToken env now s =
     au_bind (find_user (\<lambda>u. usr_id u = ses_userId s)) (\<lambda>u. case u of
       None \<Rightarrow> au_throw InternalError
     | Some _ \<Rightarrow> au_bind (au_random (new_uuid env)) (\<lambda>jti.
         let token = signJwt env HsKey (session_claims env now s jti)
         in au_bind (au_lift (verifyUserJWT env now token)) (\<lambda>payload.
              if access_token payload then au_return token else au_throw InternalError)))"

datatype app_claims =
    AppActor string
  | AppUserActor string string string "string option" bool "json option"
      \<comment> \<open>app, user, session, worker, platform access, extra\<close>

fun claims_app :: "app_claims \<Rightarrow> string" where
  "claims_app (AppActor a) = a"
| "claims_app (AppUserActor a u s w p x) = a"

fun claims_subject :: "app_claims \<Rightarrow> string" where
  "claims_subject (AppActor a) = ''app:'' @ a"
| "claims_subject (AppUserActor a u s w p x) = ''app_user:'' @ u @ CHR '':'' # a"

definition optional_field :: "string \<Rightarrow> json option \<Rightarrow> (string \<times> json) list" where
  "optional_field k v = (case v of None \<Rightarrow> [] | Some x \<Rightarrow> [(k, x)])"

fun claims_fields :: "app_claims \<Rightarrow> (string \<times> json) list" where
  "claims_fields (AppActor a) = [(''actorType'', JStr ''app''), (''appIdentifier'', JStr a)]"
| "claims_fields (AppUserActor a u s w p x) =
     [(''actorType'', JStr ''app_user''), (''appIdentifier'', JStr a), (''userId'', JStr u), (''sessionId'', JStr s),
      (''platformAccess'', JBool p)] @ optional_field ''worker'' (map_option JStr w) @ optional_field ''extra'' x"

definition app_payload :: "int \<Rightarrow> app_claims \<Rightarrow> string \<Rightarrow> int \<Rightarrow> json" where
  "app_payload now c jti seconds = JObj (claims_fields c @
     [(''iss'', JStr ''lombok''), (''aud'', JStr (claims_app c)), (''sub'', JStr (claims_subject c)), (''jti'', JStr jti)]
     @ time_claims now seconds)"

definition signAppJwt :: "auth_env \<Rightarrow> int \<Rightarrow> app_claims \<Rightarrow> string \<Rightarrow> int \<Rightarrow> string" where
  "signAppJwt env now c jti seconds = signJwt env EdKey (app_payload now c jti seconds)"

definition mintAppToken :: "auth_env \<Rightarrow> int \<Rightarrow> string \<Rightarrow> string aum" where
  "mintAppToken env now a = au_bind (au_random (new_uuid env)) (\<lambda>jti.
     au_return (signAppJwt env now (AppActor a) jti 900))"

definition resolvePlatformAccess :: "string option \<Rightarrow> bool option \<Rightarrow> bool" where
  "resolvePlatformAccess worker access = (case access of Some b \<Rightarrow> b | None \<Rightarrow> worker = None)"

definition assertExtraSize :: "auth_env \<Rightarrow> json option \<Rightarrow> auth_error + unit" where
  "assertExtraSize env extra = (case extra of None \<Rightarrow> Inr ()
     | Some x \<Rightarrow> if 1024 < json_size env x then Inl (BadRequestError ''App token extra payload exceeds 1024 bytes'') else Inr ())"

definition createAppUserToken :: "auth_env \<Rightarrow> int \<Rightarrow> user_session \<Rightarrow> string \<Rightarrow> string option \<Rightarrow> bool option \<Rightarrow> json option \<Rightarrow>
    int option \<Rightarrow> string aum" where
  "createAppUserToken env now s a worker access extra seconds =
     au_bind (au_lift (assertExtraSize env extra)) (\<lambda>_.
     au_bind (au_random (new_uuid env)) (\<lambda>jti.
       au_return (signAppJwt env now
         (AppUserActor a (ses_userId s) (ses_id s) worker (resolvePlatformAccess worker access) extra)
         (ses_id s @ CHR '':'' # jti) (case seconds of Some n \<Rightarrow> n | None \<Rightarrow> 120))))"

text \<open>\<open>appJwtClaimsSchema\<close> (packages/types, app-jwt-claims.ts).\<close>

definition parse_app_claims :: "json \<Rightarrow> app_claims option" where
  "parse_app_claims v =
     (if str_claim v ''iss'' \<noteq> Some ''lombok'' \<or> str_claim v ''aud'' = None \<or> str_claim v ''sub'' = None
         \<or> str_claim v ''jti'' = None \<or> num_claim v ''iat'' = None \<or> num_claim v ''exp'' = None then None
      else case (str_claim v ''actorType'', str_claim v ''appIdentifier'') of
          (Some t, Some a) \<Rightarrow>
            if t = ''app'' then Some (AppActor a)
            else if t = ''app_user'' then
              (case (str_claim v ''userId'', str_claim v ''sessionId'', js_prop v ''platformAccess'',
                     js_prop v ''worker'', js_prop v ''extra'') of
                 (Some u, Some s, Some (Some (JBool p)), Some w, Some x) \<Rightarrow>
                   (case (w, x) of
                      (None, None) \<Rightarrow> Some (AppUserActor a u s None p None)
                    | (Some (JStr n), None) \<Rightarrow> Some (AppUserActor a u s (Some n) p None)
                    | (None, Some (JObj m)) \<Rightarrow> Some (AppUserActor a u s None p (Some (JObj m)))
                    | (Some (JStr n), Some (JObj m)) \<Rightarrow> Some (AppUserActor a u s (Some n) p (Some (JObj m)))
                    | _ \<Rightarrow> None)
               | _ \<Rightarrow> None)
            else None
        | _ \<Rightarrow> None)"

definition verifyAppToken :: "auth_env \<Rightarrow> int \<Rightarrow> string \<Rightarrow> auth_error + app_claims" where
  "verifyAppToken env now token =
     (case mapJoseError (jwtVerify env EdKey None (Some ''lombok'') (now div 1000) token) of
        Inl e \<Rightarrow> Inl e
      | Inr v \<Rightarrow> (case parse_app_claims v of
            None \<Rightarrow> Inl TokenInvalid
          | Some c \<Rightarrow> if str_claim v ''sub'' \<noteq> Some (claims_subject c) then Inl TokenInvalid
                      else if str_claim v ''aud'' \<noteq> Some (claims_app c) then Inl TokenInvalid
                      else Inr c))"

section \<open>Email verification\<close>

definition normalizeEmail :: "string \<Rightarrow> string" where "normalizeEmail e = to_lower (trim e)"

definition createEmailVerificationToken :: "auth_env \<Rightarrow> int \<Rightarrow> string \<Rightarrow> string \<Rightarrow> string \<Rightarrow> string aum" where
  "createEmailVerificationToken env now userId email key =
     (if \<not> fst (email_keys env) then au_throw InternalError
      else au_bind (au_random (new_uuid env)) (\<lambda>jti. au_return (signJwt env EmailKey (JObj
        ([(''evk'', JStr key), (''eh'', JStr (sha256_url env (normalizeEmail email))), (''iss'', JStr ''lombok-api''),
          (''aud'', JStr ''email-verify''), (''sub'', JStr userId), (''jti'', JStr jti)] @ time_claims now 86400)))))"

definition verifyEmailVerificationToken :: "auth_env \<Rightarrow> int \<Rightarrow> string \<Rightarrow> auth_error + (string \<times> string \<times> string)" where
  "verifyEmailVerificationToken env now token =
     (if \<not> snd (email_keys env) then Inl InternalError
      else case mapJoseError (jwtVerify env EmailKey (Some ''email-verify'') (Some ''lombok-api'') (now div 1000) token) of
          Inl e \<Rightarrow> Inl e
        | Inr v \<Rightarrow> (case (str_claim v ''sub'', str_claim v ''evk'', str_claim v ''eh'') of
              (Some i, Some k, Some h) \<Rightarrow> Inr (i, k, h) | _ \<Rightarrow> Inl TokenInvalid))"

end
