(* ===== verification/Auth_Session.thy ===== *)
theory Auth_Session
  imports Auth_State
begin

text \<open>
  Sessions (packages/api, auth/services/session.service.ts) and the guard of the requests
  (auth/guards/auth.guard.ts).  \<open>now\<close> is the time of an operation, in milliseconds.
\<close>

section \<open>New sessions\<close>

record session_tokens =
  tok_session :: user_session
  tok_access :: string
  tok_refresh :: string

text \<open>The row of \<open>createUserSession\<close> and of \<open>createAppUserSession\<close>, and its secret.\<close>

definition start_session :: "auth_env \<Rightarrow> int \<Rightarrow> string \<Rightarrow> string \<Rightarrow> json option \<Rightarrow> (user_session \<times> string) aum" where
  "start_session env now userId type details =
     au_bind (au_random (secret_bytes env)) (\<lambda>secret.
     au_bind (au_random (new_uuid env)) (\<lambda>i.
       let s = \<lparr>ses_id = i, ses_hash = sha512_hex env secret, ses_userId = userId, ses_type = type,
                ses_typeDetails = details, ses_expiresAt = sessionExpiresAt (zone env) now now,
                ses_createdAt = now, ses_updatedAt = now\<rparr>
       in au_bind (insert_session s) (\<lambda>_. au_return (s, secret))))"

definition createUserSession :: "auth_env \<Rightarrow> int \<Rightarrow> user \<Rightarrow> session_tokens aum" where
  "createUserSession env now u =
     au_bind (start_session env now (usr_id u) ''user'' None) (\<lambda>(s, secret).
     au_bind (createSessionAccessToken env now s) (\<lambda>token.
       au_return \<lparr>tok_session = s, tok_access = token, tok_refresh = encode_token (ses_id s) secret\<rparr>))"

definition app_details :: "string \<Rightarrow> bool \<Rightarrow> string option \<Rightarrow> json option \<Rightarrow> json" where
  "app_details a access worker extra = JObj ([(''app'', JStr a), (''platformAccess'', JBool access)]
     @ optional_field ''worker'' (map_option JStr worker) @ optional_field ''extra'' extra)"

definition createAppUserSession :: "auth_env \<Rightarrow> int \<Rightarrow> user \<Rightarrow> string \<Rightarrow> string option \<Rightarrow> bool option \<Rightarrow> json option \<Rightarrow>
    int option \<Rightarrow> session_tokens aum" where
  "createAppUserSession env now u a worker access extra seconds =
     (let allowed = resolvePlatformAccess worker access in
      au_bind (start_session env now (usr_id u) ''app_user'' (Some (app_details a allowed worker extra))) (\<lambda>(s, secret).
      au_bind (createAppUserToken env now s a worker (Some allowed) extra seconds) (\<lambda>token.
        au_return \<lparr>tok_session = s, tok_access = token, tok_refresh = encode_token (ses_id s) secret\<rparr>)))"

section \<open>Existing sessions\<close>

definition delete_session :: "user_session \<Rightarrow> unit aum" where
  "delete_session s = (\<lambda>db. (Inr (), db\<lparr>sessions := filter (\<lambda>r. ses_id r \<noteq> ses_id s) (sessions db)\<rparr>))"

definition revokeSession :: "user_session \<Rightarrow> unit aum" where
  "revokeSession s = (\<lambda>db. case delete_session s db of
     (Inl SessionNotFound, db') \<Rightarrow> (Inr (), db') | r \<Rightarrow> r)"

definition getById :: "string \<Rightarrow> string \<Rightarrow> user_session aum" where
  "getById actorId i =
     (if actorId = [] then au_throw UnauthorizedError
      else au_bind (find_session (\<lambda>s. ses_userId s = actorId \<and> ses_id s = i)) (\<lambda>s. case s of
          None \<Rightarrow> au_throw SessionNotFound | Some s \<Rightarrow> au_return s))"

definition not_expired :: "int \<Rightarrow> user_session \<Rightarrow> user_session aum" where
  "not_expired now s = (if ses_expiresAt s < now then au_throw SessionExpired else au_return s)"

definition verifySessionWithRefreshToken :: "auth_env \<Rightarrow> int \<Rightarrow> string \<Rightarrow> user_session aum" where
  "verifySessionWithRefreshToken env now token = (case decodeRefreshToken token of
     None \<Rightarrow> au_throw UnauthorizedError
   | Some (i, secret) \<Rightarrow>
       au_bind (find_session (\<lambda>s. ses_id s = i \<and> ses_hash s = sha512_hex env secret)) (\<lambda>s. case s of
         None \<Rightarrow> au_throw SessionInvalid | Some s \<Rightarrow> not_expired now s))"

text \<open>\<open>update ... returning\<close>: the first row that was updated.\<close>

definition update_session :: "string \<Rightarrow> (user_session \<Rightarrow> user_session) \<Rightarrow> user_session option aum" where
  "update_session i f = (\<lambda>db. (Inr (map_option f (find (\<lambda>s. ses_id s = i) (sessions db))),
     db\<lparr>sessions := map (\<lambda>s. if ses_id s = i then f s else s) (sessions db)\<rparr>))"

definition str_field :: "json option \<Rightarrow> string \<Rightarrow> string option" where
  "str_field v k = Option.bind v (\<lambda>d. str_claim d k)"

definition createAppUserAccessTokenForSession :: "auth_env \<Rightarrow> int \<Rightarrow> user_session \<Rightarrow> string aum" where
  "createAppUserAccessTokenForSession env now s =
     (let field = (\<lambda>k. case ses_typeDetails s of None \<Rightarrow> None | Some d \<Rightarrow> (case js_prop d k of Some v \<Rightarrow> v | None \<Rightarrow> None))
      in case field ''app'' of
         Some (JStr a) \<Rightarrow> createAppUserToken env now s a (str_field (ses_typeDetails s) ''worker'')
           (case field ''platformAccess'' of Some (JBool b) \<Rightarrow> Some b | _ \<Rightarrow> None)
           (case field ''extra'' of Some (JObj m) \<Rightarrow> Some (JObj m) | Some (JArr m) \<Rightarrow> Some (JArr m) | _ \<Rightarrow> None) None
       | _ \<Rightarrow> au_throw SessionInvalid)"

definition extendSession :: "auth_env \<Rightarrow> int \<Rightarrow> user_session \<Rightarrow> session_tokens aum" where
  "extendSession env now s =
     au_bind (not_expired now s) (\<lambda>_.
     au_bind (au_random (secret_bytes env)) (\<lambda>secret.
     au_bind (update_session (ses_id s) (\<lambda>r. r\<lparr>ses_expiresAt := sessionExpiresAt (zone env) now (ses_createdAt s),
         ses_hash := sha512_hex env secret\<rparr>)) (\<lambda>r. case r of
       None \<Rightarrow> au_throw InternalError
     | Some r \<Rightarrow>
         au_bind (if ses_type r = ''app_user'' then createAppUserAccessTokenForSession env now r
                  else createSessionAccessToken env now r) (\<lambda>token.
           au_return \<lparr>tok_session = r, tok_access = token, tok_refresh = encode_token (ses_id r) secret\<rparr>))))"

definition verifySessionWithAccessToken :: "int \<Rightarrow> string \<Rightarrow> user_session aum" where
  "verifySessionWithAccessToken now jti =
     au_bind (find_session (\<lambda>s. ses_id s = hd (split_on (CHR '':'') jti))) (\<lambda>s. case s of
       None \<Rightarrow> au_throw SessionInvalid | Some s \<Rightarrow> not_expired now s)"

text \<open>The sessions of a user, the latest first.\<close>

definition listActiveUserSessions :: "string \<Rightarrow> user_session list aum" where
  "listActiveUserSessions userId = (\<lambda>db. (Inr (sort_key (\<lambda>s. - ses_createdAt s)
     (filter (\<lambda>s. ses_userId s = userId) (sessions db))), db))"

section \<open>The guard\<close>

datatype AllowedActor = UserActor | AppUser

definition resolveConfig :: "AllowedActor list option \<Rightarrow> AllowedActor list option \<Rightarrow> AllowedActor list" where
  "resolveConfig handler controller = (case handler of Some c \<Rightarrow> c
     | None \<Rightarrow> (case controller of Some c \<Rightarrow> c | None \<Rightarrow> [UserActor]))"

text \<open>\<open>getUserById\<close> of the users service, whose failure the guard turns into \<open>None\<close>.\<close>

definition getUserById :: "string \<Rightarrow> user aum" where
  "getUserById i = au_bind (find_user (\<lambda>u. usr_id u = i)) (\<lambda>u. case u of
     None \<Rightarrow> au_throw UserNotFound | Some u \<Rightarrow> au_return u)"

definition guarded_user :: "string \<Rightarrow> user option aum" where
  "guarded_user i = (\<lambda>db. case getUserById i db of
     (Inl e, db') \<Rightarrow> (Inl UnauthorizedError, db') | (Inr u, db') \<Rightarrow> (Inr (Some u), db'))"

text \<open>The branches of \<open>canActivate\<close> on the subject of a token: the user of the request, \<open>None\<close> when it is refused.\<close>

definition subject_user :: "auth_env \<Rightarrow> int \<Rightarrow> AllowedActor list \<Rightarrow> string \<Rightarrow> string \<Rightarrow> user option aum" where
  "subject_user env now allowed token subject =
     (if starts_with subject ''user:'' \<and> UserActor \<in> set allowed then
        au_bind (au_lift (verifyUserJWT env now token)) (\<lambda>_.
          guarded_user (case split_on (CHR '':'') subject of _ # i # _ \<Rightarrow> i | _ \<Rightarrow> []))
      else if starts_with subject ''app_user:'' \<and> AppUser \<in> set allowed then
        au_bind (au_lift (verifyAppToken env now token)) (\<lambda>c. case c of
            AppActor a \<Rightarrow> au_return None
          | AppUserActor a u s w access x \<Rightarrow>
              if \<not> access then au_throw UnauthorizedError else guarded_user u)
      else au_return None)"

definition canActivate :: "auth_env \<Rightarrow> int \<Rightarrow> AllowedActor list \<Rightarrow> string option \<Rightarrow> user option aum" where
  "canActivate env now allowed header = (case header of
     None \<Rightarrow> au_throw UnauthorizedError
   | Some h \<Rightarrow>
       if \<not> starts_with h ''Bearer '' then au_throw UnauthorizedError
       else (case decodeJwt env (drop 7 h) of
           None \<Rightarrow> au_throw TokenInvalid
         | Some payload \<Rightarrow> (case js_prop payload ''sub'' of
               Some (Some (JStr subject)) \<Rightarrow>
                 if subject = [] then au_throw UnauthorizedError else subject_user env now allowed (drop 7 h) subject
             | Some v \<Rightarrow> au_throw (if js_truthy v then InternalError else UnauthorizedError)
             | None \<Rightarrow> au_throw UnauthorizedError)))"

end
