(* ===== verification/Auth_Users.thy ===== *)
theory Auth_Users
  imports Auth_Session Task_Store
begin

text \<open>
  The users service (packages/api, users/services/users.service.ts) and the validation of names
  (packages/utils, validation.util.ts).  The avatar of a user is not part of the model.
\<close>

section \<open>Validation\<close>

definition word_char :: "char \<Rightarrow> bool" where
  "word_char c = (let n = (of_char c :: nat) in
     (48 \<le> n \<and> n \<le> 57) \<or> (65 \<le> n \<and> n \<le> 90) \<or> (97 \<le> n \<and> n \<le> 122) \<or> n = 95)"

text \<open>\<open>/^\w+$/\<close>.\<close>

definition username_regex :: "string \<Rightarrow> bool" where
  "username_regex s \<longleftrightarrow> s \<noteq> [] \<and> list_all word_char s"

definition valid_username :: "string \<Rightarrow> bool" where
  "valid_username n \<longleftrightarrow> length n \<noteq> 0 \<and> 2 \<le> length n \<and> length n \<le> 64 \<and> username_regex n"

section \<open>Registration\<close>

definition registered_event :: "user \<Rightarrow> event_args" where
  "registered_event u = \<lparr>emitterIdentifier = CORE_IDENTIFIER, eventIdentifier = ''new_user_registered'',
     ea_data = JObj [(''userId'', JStr (usr_id u)),
       (''userEmail'', case usr_email u of Some e \<Rightarrow> JStr e | None \<Rightarrow> JNull),
       (''userEmailVerified'', JBool (usr_emailVerified u))],
     ea_target = TargetUser (usr_id u)\<rparr>"

definition nonempty :: "string option \<Rightarrow> bool" where
  "nonempty s = (case s of None \<Rightarrow> False | Some t \<Rightarrow> t \<noteq> [])"

section \<open>The service\<close>

text \<open>\<open>update ... where id returning\<close>, under the unique index on the lower-case name.\<close>

definition update_user :: "(user \<Rightarrow> bool) \<Rightarrow> (user \<Rightarrow> user) \<Rightarrow> user option aum" where
  "update_user p f = (\<lambda>db. let us = map (\<lambda>u. if p u then f u else u) (users db) in
     if distinct (map lower_name us) then (Inr (map_option f (find p (users db))), db\<lparr>users := us\<rparr>)
     else (Inl duplicate_key, db))"

definition updated_row :: "user option \<Rightarrow> user aum" where
  "updated_row r = (case r of None \<Rightarrow> au_throw InternalError | Some u \<Rightarrow> au_return u)"

definition updateViewer :: "int \<Rightarrow> user \<Rightarrow> string \<Rightarrow> user aum" where
  "updateViewer now actor name = au_bind
     (update_user (\<lambda>u. usr_id u = usr_id actor) (\<lambda>u. u\<lparr>usr_name := Some name, usr_updatedAt := now\<rparr>)) updated_row"

definition getUserByEmail :: "string \<Rightarrow> user aum" where
  "getUserByEmail email = au_bind (find_user (\<lambda>u. usr_email u = Some email)) (\<lambda>u. case u of
     None \<Rightarrow> au_throw UserNotFound | Some u \<Rightarrow> au_return u)"

definition getUserByIdAsAdmin :: "user \<Rightarrow> string \<Rightarrow> user aum" where
  "getUserByIdAsAdmin actor i = au_bind (au_require (usr_isAdmin actor) UnauthorizedError) (\<lambda>_. getUserById i)"

definition name_taken :: "string \<Rightarrow> user \<Rightarrow> bool" where
  "name_taken n u \<longleftrightarrow> lower_name u = to_lower n"

record user_create =
  cre_name :: "string option"
  cre_email :: "string option"
  cre_emailVerified :: "bool option"
  cre_isAdmin :: "bool option"
  cre_username :: string
  cre_password :: string
  cre_permissions :: "string list option"

definition default :: "'a \<Rightarrow> 'a option \<Rightarrow> 'a" where
  "default d v = (case v of None \<Rightarrow> d | Some x \<Rightarrow> x)"

text \<open>A unique index that refuses the row is a \<open>UserIdentityConflictException\<close> when it is the one of the
  names; a new row whose id is taken is any other error.\<close>

definition insert_named_user :: "user \<Rightarrow> unit aum" where
  "insert_named_user u = (\<lambda>db. case insert_user u db of
     (Inl e, db') \<Rightarrow> (Inl (if usr_id u \<in> usr_id ` set (users db) then e else UserIdentityConflict), db')
   | r \<Rightarrow> r)"

definition createUserAsAdmin :: "auth_env \<Rightarrow> nat \<Rightarrow> task_env \<Rightarrow> int \<Rightarrow> user \<Rightarrow> user_create \<Rightarrow> user aum" where
  "createUserAsAdmin env n tenv now actor c =
     au_bind (au_require (usr_isAdmin actor) UnauthorizedError) (\<lambda>_.
     au_bind (if cre_username c = [] then au_return None else find_user (name_taken (cre_username c))) (\<lambda>taken.
     au_bind (au_require (taken = None) UserIdentityConflict) (\<lambda>_.
     au_bind (au_random (salt_text env)) (\<lambda>salt.
     au_bind (au_random (new_uuid env)) (\<lambda>i.
       let u = \<lparr>usr_id = i, usr_isAdmin = default False (cre_isAdmin c), usr_name = cre_name c, usr_username = cre_username c,
                usr_email = cre_email c, usr_emailVerified = default False (cre_emailVerified c),
                usr_emailVerificationKey = None, usr_permissions = default [] (cre_permissions c),
                usr_passwordHash = Some (pbkdf2_hex env (cre_password c) salt), usr_passwordSalt = Some salt,
                usr_createdAt = now, usr_updatedAt = now\<rparr>
       in au_bind (insert_named_user u) (\<lambda>_.
          au_bind (if nonempty (cre_email c) then in_engine (transaction (emitEventInTx n False tenv now (registered_event u))) else au_return ())
            (\<lambda>_. au_return u)))))))"

text \<open>The fields of an update; the outer option says whether the payload has the key.\<close>

record user_update =
  upd_name :: "string option option"
  upd_email :: "string option option"
  upd_isAdmin :: "bool option"
  upd_username :: "string option"
  upd_password :: "string option"
  upd_permissions :: "string list option"

definition apply_update :: "auth_env \<Rightarrow> int \<Rightarrow> user_update \<Rightarrow> string option \<Rightarrow> user \<Rightarrow> user" where
  "apply_update env now p salt u = u\<lparr>
     usr_name := default (usr_name u) (upd_name p),
     usr_isAdmin := default (usr_isAdmin u) (upd_isAdmin p),
     usr_email := default (usr_email u) (upd_email p),
     usr_username := default (usr_username u) (upd_username p),
     usr_permissions := default (usr_permissions u) (upd_permissions p),
     usr_passwordHash := (case (salt, upd_password p) of (Some s, Some w) \<Rightarrow> Some (pbkdf2_hex env w s) | _ \<Rightarrow> usr_passwordHash u),
     usr_passwordSalt := (case salt of Some s \<Rightarrow> Some s | None \<Rightarrow> usr_passwordSalt u),
     usr_updatedAt := now\<rparr>"

definition updateUserAsAdmin :: "auth_env \<Rightarrow> int \<Rightarrow> user \<Rightarrow> string \<Rightarrow> user_update \<Rightarrow> user aum" where
  "updateUserAsAdmin env now actor i p =
     au_bind (au_require (usr_isAdmin actor) UnauthorizedError) (\<lambda>_.
     au_bind (getUserById i) (\<lambda>existing.
     au_bind (if nonempty (upd_username p) then find_user (\<lambda>u. name_taken (the (upd_username p)) u \<and> usr_id u \<noteq> i) else au_return None) (\<lambda>taken.
     au_bind (au_require (taken = None) UserIdentityConflict) (\<lambda>_.
     au_bind (if nonempty (upd_password p) then au_bind (au_random (salt_text env)) (\<lambda>s. au_return (Some s)) else au_return None) (\<lambda>salt.
     au_bind (update_user (\<lambda>u. usr_id u = usr_id existing) (apply_update env now p salt)) updated_row)))))"

text \<open>The identities of a deleted user go with it; its sessions stay.\<close>

definition deleteUserAsAdmin :: "user \<Rightarrow> string \<Rightarrow> unit aum" where
  "deleteUserAsAdmin actor i = au_bind (au_require (usr_isAdmin actor) UnauthorizedError) (\<lambda>_ db.
     (Inr (), db\<lparr>users := filter (\<lambda>u. usr_id u \<noteq> i) (users db), identities := filter (\<lambda>d. idn_userId d \<noteq> i) (identities db)\<rparr>))"

text \<open>
  The controller runs the creation and the update of a user in a transaction.  The event is the last
  step of the creation, so that its effects on the engine are undone exactly when it fails itself.
\<close>

definition au_transaction :: "'a aum \<Rightarrow> 'a aum" where
  "au_transaction m = (\<lambda>db. case m db of
     (Inl e, db') \<Rightarrow> (Inl e, db'\<lparr>users := users db, sessions := sessions db, identities := identities db\<rparr>) | r \<Rightarrow> r)"

end
