(* ===== verification/Auth_Service.thy ===== *)
theory Auth_Service
  imports Auth_Users
begin

text \<open>
  Signing up, logging in and refreshing a session, the sign-up with an account of a provider, and
  the verification of an email address (packages/api, auth/services/auth.service.ts).
\<close>

section \<open>Names and passwords\<close>

text \<open>\<open>emitEvent\<close> opens its own transaction: the user stays when the event is refused.\<close>

definition createSignup :: "auth_env \<Rightarrow> int \<Rightarrow> string \<Rightarrow> string option \<Rightarrow> string \<Rightarrow> user aum" where
  "createSignup env now username email password =
     au_bind (find_user (name_taken username)) (\<lambda>taken.
     au_bind (au_require (taken = None) (ConflictError (''User already exists with username \"'' @ username @ ''\".''))) (\<lambda>_.
     au_bind (au_random (salt_text env)) (\<lambda>salt.
     au_bind (au_random (new_uuid env)) (\<lambda>i.
     au_bind (if nonempty email then au_bind (au_random (new_uuid env)) (\<lambda>k. au_return (Some k)) else au_return None) (\<lambda>key.
       let u = \<lparr>usr_id = i, usr_isAdmin = False, usr_name = None, usr_username = username, usr_email = email,
                usr_emailVerified = False, usr_emailVerificationKey = key, usr_permissions = [],
                usr_passwordHash = Some (pbkdf2_hex env password salt), usr_passwordSalt = Some salt,
                usr_createdAt = now, usr_updatedAt = now\<rparr>
       in au_bind (insert_user u) (\<lambda>_. au_return u))))))"

definition signup :: "auth_env \<Rightarrow> nat \<Rightarrow> task_env \<Rightarrow> int \<Rightarrow> string \<Rightarrow> string option \<Rightarrow> string \<Rightarrow> user aum" where
  "signup env n tenv now username email password =
     au_bind (au_require (signup_setting env \<noteq> Some (JBool False)) (ForbiddenError ''Signups are not enabled.'')) (\<lambda>_.
     au_bind (au_require (valid_username username) (BadRequestError ''Invalid username'')) (\<lambda>_.
     au_bind (createSignup env now username email password) (\<lambda>u.
     au_bind (in_engine (emitEvent n tenv now (registered_event u))) (\<lambda>_. au_return u))))"

text \<open>The stored hash is the hexadecimal text of the derived key, so that the texts are compared.\<close>

definition verifyPassword :: "auth_env \<Rightarrow> user \<Rightarrow> string \<Rightarrow> bool" where
  "verifyPassword env u password \<longleftrightarrow>
     nonempty (usr_passwordHash u) \<and> password \<noteq> [] \<and> nonempty (usr_passwordSalt u)
     \<and> usr_passwordHash u = Some (pbkdf2_hex env password (the (usr_passwordSalt u)))"

definition login_row :: "string \<Rightarrow> user \<Rightarrow> bool" where
  "login_row l u \<longleftrightarrow> usr_email u = Some l \<or> name_taken l u"

definition login :: "auth_env \<Rightarrow> int \<Rightarrow> string \<Rightarrow> string \<Rightarrow> (user \<times> session_tokens) aum" where
  "login env now l password =
     au_bind (find_user (login_row l)) (\<lambda>u. case u of
       None \<Rightarrow> au_throw LoginInvalid
     | Some u \<Rightarrow>
         au_bind (au_require (verifyPassword env u password) LoginInvalid) (\<lambda>_.
         au_bind (createUserSession env now u) (\<lambda>t. au_return (u, t))))"

definition extendSessionWithRefreshToken :: "auth_env \<Rightarrow> int \<Rightarrow> string \<Rightarrow> (user \<times> session_tokens) aum" where
  "extendSessionWithRefreshToken env now token =
     au_bind (verifySessionWithRefreshToken env now token) (\<lambda>s.
     au_bind (find_user (\<lambda>u. usr_id u = ses_userId s)) (\<lambda>u. case u of
       None \<Rightarrow> au_throw SessionInvalid
     | Some u \<Rightarrow> au_bind (extendSession env now s) (\<lambda>t. au_return (u, t))))"

section \<open>Accounts of providers\<close>

definition initiateSSOSignup :: "auth_env \<Rightarrow> string \<Rightarrow> string \<Rightarrow> auth_error + string" where
  "initiateSSOSignup env provider origin =
     (if provider = ''google'' then googleAuthUrl env origin
      else Inl (BadRequestError (''Unsupported provider: '' @ provider)))"

definition provider_account :: "auth_env \<Rightarrow> string \<Rightarrow> string \<Rightarrow> string \<Rightarrow> auth_error + provider_user" where
  "provider_account env provider code origin =
     (if provider = ''google'' then googleCallback env code origin
      else Inl (BadRequestError (''Unsupported provider: '' @ provider)))"

definition findIdentityByProvider :: "string \<Rightarrow> string \<Rightarrow> identity option aum" where
  "findIdentityByProvider provider i = find_identity (\<lambda>d. idn_provider d = provider \<and> idn_providerUserId d = i)"

definition findUserById :: "string \<Rightarrow> user aum" where
  "findUserById i = au_bind (find_user (\<lambda>u. usr_id u = i)) (\<lambda>u. case u of
     None \<Rightarrow> au_throw SessionInvalid | Some u \<Rightarrow> au_return u)"

definition usernameExists :: "string \<Rightarrow> bool aum" where
  "usernameExists username = au_bind (find_user (name_taken username)) (\<lambda>u. au_return (u \<noteq> None))"

definition createIdentity :: "auth_env \<Rightarrow> int \<Rightarrow> string \<Rightarrow> string \<Rightarrow> provider_user \<Rightarrow> unit aum" where
  "createIdentity env now userId provider p =
     au_bind (au_random (new_uuid env)) (\<lambda>i. insert_identity
       \<lparr>idn_id = i, idn_userId = userId, idn_provider = provider, idn_providerUserId = pu_id p,
        idn_providerEmail = pu_email p, idn_providerName = pu_name p, idn_createdAt = now\<rparr>)"

definition generateUsernameFromEmail :: "string \<Rightarrow> string" where
  "generateUsernameFromEmail email =
     (if email = [] then ''user''
      else let n = take 20 (filter is_lower_alnum (to_lower (hd (split_on (CHR ''@'') email))))
           in if n = [] then ''user'' else n)"

definition provider_json :: "provider_user \<Rightarrow> json" where
  "provider_json p = JObj ((''id'', JStr (pu_id p)) # optional_field ''email'' (map_option JStr (pu_email p))
     @ optional_field ''name'' (map_option JStr (pu_name p)) @ optional_field ''picture'' (map_option JStr (pu_picture p)))"

text \<open>The value that is serialised and signed.\<close>

definition signed_data :: "string \<Rightarrow> provider_user \<Rightarrow> string \<Rightarrow> json" where
  "signed_data provider p expiry =
     JObj [(''provider'', JStr provider), (''providerUserInfo'', provider_json p), (''expiry'', JStr expiry)]"

datatype sso_response =
    SSOLogin user session_tokens
  | NeedsUsername string provider_user string string string
      \<comment> \<open>provider, account, expiry, signature, suggested name\<close>

definition handleSSOCallback :: "auth_env \<Rightarrow> int \<Rightarrow> string \<Rightarrow> string \<Rightarrow> string \<Rightarrow> sso_response aum" where
  "handleSSOCallback env now provider code origin =
     au_bind (au_lift (provider_account env provider code origin)) (\<lambda>p.
     au_bind (findIdentityByProvider provider (pu_id p)) (\<lambda>d. case d of
       Some d \<Rightarrow> au_bind (findUserById (idn_userId d)) (\<lambda>u.
                 au_bind (createUserSession env now u) (\<lambda>t. au_return (SSOLogin u t)))
     | None \<Rightarrow>
         let expiry = date_text env (addMs now 600000)
         in au_return (NeedsUsername provider p expiry (sso_signature env (signed_data provider p expiry))
              (generateUsernameFromEmail (default [] (pu_email p))))))"

text \<open>\<open>Buffer.from(s, 'hex')\<close>, which stops at what is not a hexadecimal pair.\<close>

fun hex_bytes :: "string \<Rightarrow> nat list" where
  "hex_bytes (a # b # r) = (case (hex_value a, hex_value b) of
     (Some x, Some y) \<Rightarrow> (16 * x + y) # hex_bytes r | _ \<Rightarrow> [])"
| "hex_bytes _ = []"

text \<open>\<open>timingSafeEqual\<close> raises when the lengths differ.\<close>

definition verifySSOSignature :: "string \<Rightarrow> string \<Rightarrow> auth_error + bool" where
  "verifySSOSignature signature expected =
     (if length (hex_bytes signature) \<noteq> length (hex_bytes expected) then Inl InternalError
      else Inr (hex_bytes signature = hex_bytes expected))"

definition completeSSOSignup :: "auth_env \<Rightarrow> int \<Rightarrow> string \<Rightarrow> string \<Rightarrow> provider_user \<Rightarrow> string \<Rightarrow> string \<Rightarrow>
    (user \<times> session_tokens) aum" where
  "completeSSOSignup env now username provider p expiry signature =
     au_bind (au_require (now \<le> date_of env expiry) (BadRequestError ''SSO signup request has expired'')) (\<lambda>_.
     au_bind (au_lift (verifySSOSignature signature (sso_signature env (signed_data provider p expiry)))) (\<lambda>ok.
     au_bind (au_require ok (BadRequestError ''Invalid signature'')) (\<lambda>_.
     au_bind (au_require (valid_username username) (BadRequestError ''Invalid username'')) (\<lambda>_.
     au_bind (usernameExists username) (\<lambda>taken.
     au_bind (au_require (\<not> taken) (ConflictError (''Username \"'' @ username @ ''\" is already taken''))) (\<lambda>_.
     au_bind (au_random (new_uuid env)) (\<lambda>i.
       let u = \<lparr>usr_id = i, usr_isAdmin = False, usr_name = None, usr_username = username, usr_email = pu_email p,
                usr_emailVerified = nonempty (pu_email p), usr_emailVerificationKey = None, usr_permissions = [],
                usr_passwordHash = None, usr_passwordSalt = None, usr_createdAt = now, usr_updatedAt = now\<rparr>
       in au_bind (insert_user u) (\<lambda>_.
          au_bind (createIdentity env now (usr_id u) provider p) (\<lambda>_.
          au_bind (createUserSession env now u) (\<lambda>t. au_return (u, t)))))))))))"

definition linkSSOProvider :: "auth_env \<Rightarrow> int \<Rightarrow> string \<Rightarrow> string \<Rightarrow> string \<Rightarrow> string \<Rightarrow> unit aum" where
  "linkSSOProvider env now userId provider code origin =
     au_bind (au_lift (provider_account env provider code origin)) (\<lambda>p.
     au_bind (findIdentityByProvider provider (pu_id p)) (\<lambda>d.
     au_bind (au_require (d = None) (ConflictError (''This '' @ provider @ '' account is already linked to another user''))) (\<lambda>_.
     au_bind (find_identity (\<lambda>d. idn_userId d = userId \<and> idn_provider d = provider)) (\<lambda>own.
     au_bind (au_require (own = None) (ConflictError (''You already have a '' @ provider @ '' account linked''))) (\<lambda>_.
       createIdentity env now userId provider p)))))"

section \<open>Email verification\<close>

definition invalid_link :: auth_error where "invalid_link = BadRequestError ''Invalid verification link''"

definition link_error :: "auth_error \<Rightarrow> auth_error" where
  "link_error e = (case e of TokenExpired \<Rightarrow> BadRequestError ''Verification link has expired''
     | TokenInvalid \<Rightarrow> invalid_link | _ \<Rightarrow> e)"

definition verifyEmail :: "auth_env \<Rightarrow> int \<Rightarrow> string \<Rightarrow> unit aum" where
  "verifyEmail env now token = (case verifyEmailVerificationToken env now token of
     Inl e \<Rightarrow> au_throw (link_error e)
   | Inr (i, evk, eh) \<Rightarrow>
       au_bind (find_user (\<lambda>u. usr_id u = i)) (\<lambda>u. case u of
         None \<Rightarrow> au_throw invalid_link
       | Some u \<Rightarrow>
           au_bind (au_require (nonempty (usr_email u) \<and> nonempty (usr_emailVerificationKey u)) invalid_link) (\<lambda>_.
           au_bind (au_require (Some evk = usr_emailVerificationKey u
               \<and> eh = sha256_url env (normalizeEmail (the (usr_email u)))) invalid_link) (\<lambda>_.
           au_bind (update_user (\<lambda>r. usr_id r = usr_id u \<and> usr_emailVerificationKey r = Some evk)
               (\<lambda>r. r\<lparr>usr_emailVerified := True, usr_emailVerificationKey := None, usr_updatedAt := now\<rparr>)) (\<lambda>updated.
             au_require (updated = None) invalid_link)))))"

section \<open>The system\<close>

datatype auth_call =
    Signup string "string option" string
  | Login string string
  | Refresh string
  | SSOCallback string string string
  | CompleteSSO string string provider_user string string
  | LinkSSO string string string string
  | VerifyEmail string
  | CreateAppSession user string "string option" "bool option" "json option" "int option"
  | RevokeSession user_session
  | UpdateViewer user string
  | CreateUser user user_create
  | UpdateUser user string user_update
  | DeleteUser user string

fun auth_step :: "auth_env \<Rightarrow> nat \<Rightarrow> task_env \<Rightarrow> int \<Rightarrow> auth_call \<Rightarrow> auth_db \<Rightarrow> auth_db" where
  "auth_step env n tenv now (Signup name email password) db = snd (signup env n tenv now name email password db)"
| "auth_step env n tenv now (Login l password) db = snd (login env now l password db)"
| "auth_step env n tenv now (Refresh token) db = snd (extendSessionWithRefreshToken env now token db)"
| "auth_step env n tenv now (SSOCallback provider code origin) db = snd (handleSSOCallback env now provider code origin db)"
| "auth_step env n tenv now (CompleteSSO name provider p expiry signature) db =
     snd (completeSSOSignup env now name provider p expiry signature db)"
| "auth_step env n tenv now (LinkSSO u provider code origin) db = snd (linkSSOProvider env now u provider code origin db)"
| "auth_step env n tenv now (VerifyEmail token) db = snd (verifyEmail env now token db)"
| "auth_step env n tenv now (CreateAppSession u a worker access extra seconds) db =
     snd (createAppUserSession env now u a worker access extra seconds db)"
| "auth_step env n tenv now (RevokeSession s) db = snd (revokeSession s db)"
| "auth_step env n tenv now (UpdateViewer u name) db = snd (updateViewer now u name db)"
| "auth_step env n tenv now (CreateUser actor c) db = snd (au_transaction (createUserAsAdmin env n tenv now actor c) db)"
| "auth_step env n tenv now (UpdateUser actor i p) db = snd (au_transaction (updateUserAsAdmin env now actor i p) db)"
| "auth_step env n tenv now (DeleteUser actor i) db = snd (deleteUserAsAdmin actor i db)"

primrec auth_run :: "auth_env \<Rightarrow> nat \<Rightarrow> task_env \<Rightarrow> (int \<times> auth_call) list \<Rightarrow> auth_db \<Rightarrow> auth_db" where
  "auth_run env n tenv [] db = db"
| "auth_run env n tenv (c # cs) db = auth_run env n tenv cs (auth_step env n tenv (fst c) (snd c) db)"

text \<open>The calls of an administrator.\<close>

fun by_admin :: "auth_call \<Rightarrow> bool" where
  "by_admin (CreateUser actor c) = usr_isAdmin actor"
| "by_admin (UpdateUser actor i p) = usr_isAdmin actor"
| "by_admin (DeleteUser actor i) = usr_isAdmin actor"
| "by_admin _ = False"

end
