(* ===== verification/Auth_Frame.thy ===== *)
theory Auth_Frame
  imports Auth_Service
begin

text \<open>
  Relations that the operations of the authentication service keep.  The locale \<open>auth_frame\<close> has
  what the calls of users need of a relation, \<open>auth_admin_frame\<close> what those of administrators
  need as well; the lemma of a locale is that every call keeps the relation, but those that touch
  the sessions \<open>mine\<close> or the users \<open>kept\<close> (\<open>spares\<close>).
\<close>

section \<open>The statements\<close>

lemma au_bind_assoc: "au_bind (au_bind m f) g = au_bind m (\<lambda>x. au_bind (f x) g)"
  by (auto simp: au_bind_def fun_eq_iff split: prod.splits sum.splits)

lemma au_bind_return [simp]: "au_bind (au_return x) f = f x" "au_bind (au_throw e) f = au_throw e"
  by (simp_all add: au_bind_def au_return_def au_throw_def fun_eq_iff)

lemma au_bind_Inr: "au_bind m f db = (Inr y, db') \<longleftrightarrow> (\<exists>x d. m db = (Inr x, d) \<and> f x d = (Inr y, db'))"
  by (auto simp: au_bind_def split: prod.splits sum.splits)

lemma au_results:
  "au_return x db = (Inr y, db') \<longleftrightarrow> y = x \<and> db' = db"
  "au_throw e db = (Inr y, db') \<longleftrightarrow> False"
  "au_require b e db = (Inr u, db') \<longleftrightarrow> b \<and> db' = db"
  "find_user p db = (Inr v, db') \<longleftrightarrow> v = find p (users db) \<and> db' = db"
  "find_session q db = (Inr s, db') \<longleftrightarrow> s = find q (sessions db) \<and> db' = db"
  "find_identity r db = (Inr i, db') \<longleftrightarrow> i = find r (identities db) \<and> db' = db"
  "au_random f db = (Inr w, db') \<longleftrightarrow> w = f (randoms db) \<and> db' = db\<lparr>randoms := Suc (randoms db)\<rparr>"
  by (auto simp: au_return_def au_throw_def au_require_def find_user_def find_session_def find_identity_def au_random_def)

lemma au_lift_Inr: "au_lift r db = (Inr y, db') \<longleftrightarrow> r = Inr y \<and> db' = db"
  by (auto simp: au_lift_def au_return_def au_throw_def split: sum.splits)

text \<open>The new secret of \<open>extendSession\<close>.\<close>

definition restart_session :: "auth_env \<Rightarrow> string \<Rightarrow> int \<Rightarrow> (string \<times> user_session option) aum" where
  "restart_session env i expires = au_bind (au_random (secret_bytes env)) (\<lambda>secret.
     au_bind (update_session i (\<lambda>r. r\<lparr>ses_expiresAt := expires, ses_hash := sha512_hex env secret\<rparr>)) (\<lambda>r.
       au_return (secret, r)))"

definition session_token :: "auth_env \<Rightarrow> int \<Rightarrow> user_session \<Rightarrow> string aum" where
  "session_token env now r = (if ses_type r = ''app_user'' then createAppUserAccessTokenForSession env now r
     else createSessionAccessToken env now r)"

lemma extendSession_parts: "extendSession env now s =
  au_bind (not_expired now s) (\<lambda>_. au_bind (restart_session env (ses_id s) (sessionExpiresAt (zone env) now (ses_createdAt s)))
    (\<lambda>(secret, r). case r of None \<Rightarrow> au_throw InternalError | Some r \<Rightarrow> au_bind (session_token env now r) (\<lambda>token.
       au_return \<lparr>tok_session = r, tok_access = token, tok_refresh = encode_token (ses_id r) secret\<rparr>)))"
  by (simp add: extendSession_def restart_session_def au_bind_assoc session_token_def)

section \<open>Relations\<close>

definition au_keeps :: "(auth_db \<Rightarrow> auth_db \<Rightarrow> bool) \<Rightarrow> 'a aum \<Rightarrow> bool" where
  "au_keeps R m \<longleftrightarrow> (\<forall>db. R db (snd (m db)))"

lemma au_keepsD: "au_keeps R m \<Longrightarrow> R db (snd (m db))"
  by (simp add: au_keeps_def)

locale auth_relation =
  fixes R :: "auth_db \<Rightarrow> auth_db \<Rightarrow> bool"
  assumes au_refl: "R db db"
    and au_trans: "R a b \<Longrightarrow> R b c \<Longrightarrow> R a c"
begin

lemma same_keeps: "(\<And>db. snd (m db) = db) \<Longrightarrow> au_keeps R m"
  by (simp add: au_keeps_def au_refl)

lemma bind_keeps: "au_keeps R m \<Longrightarrow> (\<And>x. au_keeps R (f x)) \<Longrightarrow> au_keeps R (au_bind m f)"
  by (auto simp: au_keeps_def au_bind_def split: prod.splits sum.splits) (metis au_trans snd_conv)+

text \<open>The second statement runs on the results of the first only.\<close>

lemma bind_keeps_post:
  assumes m: "au_keeps R m" and f: "\<And>x db d. m db = (Inr x, d) \<Longrightarrow> au_keeps R (f x)"
  shows "au_keeps R (au_bind m f)"
  unfolding au_keeps_def
proof
  fix db
  show "R db (snd (au_bind m f db))"
  proof (cases "m db")
    case (Pair r d)
    then have d: "R db d" using au_keepsD [OF m, of db] by simp
    show ?thesis
    proof (cases r)
      case (Inr x)
      then have "R d (snd (f x d))" using f [of db x d] Pair by (simp add: au_keepsD)
      then show ?thesis using Inr Pair au_trans [OF d] by (simp add: au_bind_def)
    qed (use Pair d in \<open>simp add: au_bind_def\<close>)
  qed
qed

lemma reads_keep:
  "au_keeps R (au_return x)" "au_keeps R (au_throw e)" "au_keeps R (au_require b e)" "au_keeps R (au_lift r)"
  "au_keeps R (find_user p)" "au_keeps R (find_session q)" "au_keeps R (find_identity i)" "au_keeps R (not_expired now s)"
  by (auto intro!: same_keeps simp: au_return_def au_throw_def au_require_def au_lift_def find_user_def find_session_def
    find_identity_def not_expired_def split: sum.splits)

lemma case_keeps:
  "au_keeps R m \<Longrightarrow> (\<And>x. au_keeps R (f x)) \<Longrightarrow> au_keeps R (case v of None \<Rightarrow> m | Some x \<Rightarrow> f x)"
  "(\<And>e. au_keeps R (g e)) \<Longrightarrow> (\<And>x. au_keeps R (h x)) \<Longrightarrow> au_keeps R (case r of Inl e \<Rightarrow> g e | Inr x \<Rightarrow> h x)"
  "(\<And>a b. au_keeps R (k a b)) \<Longrightarrow> au_keeps R (case p of (a, b) \<Rightarrow> k a b)"
  "au_keeps R m \<Longrightarrow> au_keeps R m' \<Longrightarrow> au_keeps R (if c then m else m')"
  by (auto split: option.splits sum.splits prod.splits)

lemmas au_rules = bind_keeps reads_keep case_keeps

end

section \<open>The calls\<close>

text \<open>The calls that leave the sessions \<open>mine\<close> and the users \<open>kept\<close> alone: no refresh with a token of such
  a session, no revocation of it, and no deletion of such a user.\<close>

fun spares :: "(string \<Rightarrow> bool) \<Rightarrow> (string \<Rightarrow> bool) \<Rightarrow> auth_call \<Rightarrow> bool" where
  "spares mine kept (Refresh token) = (case decodeRefreshToken token of None \<Rightarrow> True | Some (i, secret) \<Rightarrow> \<not> mine i)"
| "spares mine kept (RevokeSession s) = (\<not> mine (ses_id s))"
| "spares mine kept (DeleteUser actor i) = (\<not> kept i)"
| "spares mine kept c = True"

lemma spares_any: "spares (\<lambda>i. False) (\<lambda>i. False) c"
  by (cases c) (simp_all split: option.split)

locale auth_frame = auth_relation +
  fixes env :: auth_env and mine :: "string \<Rightarrow> bool"
  assumes random_kept: "R db (db\<lparr>randoms := Suc (randoms db)\<rparr>)"
    and engine_kept: "R db (db\<lparr>engine := d\<rparr>)"
    and signup_kept: "\<not> usr_isAdmin u \<Longrightarrow> usr_permissions u = [] \<Longrightarrow> au_keeps R (insert_user u)"
    and identity_kept: "au_keeps R (insert_identity i)"
    and new_kept: "au_keeps R (start_session env now userId type details)"
    and renew_kept: "\<not> mine sid \<Longrightarrow> au_keeps R (restart_session env sid expires)"
    and delete_kept: "\<not> mine (ses_id s) \<Longrightarrow> au_keeps R (delete_session s)"
    and profile_kept: "(\<And>u. usr_id (f u) = usr_id u \<and> usr_username (f u) = usr_username u
      \<and> usr_isAdmin (f u) = usr_isAdmin u \<and> usr_permissions (f u) = usr_permissions u
      \<and> usr_passwordHash (f u) = usr_passwordHash u \<and> usr_passwordSalt (f u) = usr_passwordSalt u)
      \<Longrightarrow> au_keeps R (update_user p f)"
begin

lemma au_random_keeps: "au_keeps R (au_random f)"
  by (simp add: au_keeps_def au_random_def random_kept)

lemma engine_keeps: "au_keeps R (in_engine m)"
  by (auto simp: au_keeps_def in_engine_def engine_kept split: prod.splits sum.splits)

lemmas call_rules = au_rules au_random_keeps engine_keeps identity_kept new_kept

lemma token_keeps: "au_keeps R (createSessionAccessToken env now s)"
  unfolding createSessionAccessToken_def Let_def by (intro call_rules)

lemma app_token_keeps: "au_keeps R (createAppUserToken env now s a worker access extra seconds)"
  unfolding createAppUserToken_def by (intro call_rules)

lemma session_token_keeps: "au_keeps R (session_token env now s)"
proof -
  have "au_keeps R (createAppUserAccessTokenForSession env now s)"
    unfolding createAppUserAccessTokenForSession_def Let_def
    by (auto simp: app_token_keeps reads_keep split: option.split json.split)
  then show ?thesis unfolding session_token_def by (intro call_rules token_keeps)
qed

lemma create_keeps: "au_keeps R (createUserSession env now u)"
  unfolding createUserSession_def by (intro call_rules token_keeps)

lemma extend_keeps: "\<not> mine (ses_id s) \<Longrightarrow> au_keeps R (extendSession env now s)"
  unfolding extendSession_parts by (intro call_rules session_token_keeps renew_kept)

lemma verified_session:
  assumes "verifySessionWithRefreshToken env now token db = (Inr s, d)"
  obtains secret where "decodeRefreshToken token = Some (ses_id s, secret)"
  using assms by (auto simp: verifySessionWithRefreshToken_def au_bind_Inr au_results not_expired_def find_Some_iff
    split: option.splits if_splits)

lemma refresh_keeps:
  assumes "spares mine kept (Refresh token)"
  shows "au_keeps R (extendSessionWithRefreshToken env now token)"
  unfolding extendSessionWithRefreshToken_def
proof (rule bind_keeps_post)
  show "au_keeps R (verifySessionWithRefreshToken env now token)"
    unfolding verifySessionWithRefreshToken_def by (intro call_rules)
next
  fix s db d
  assume "verifySessionWithRefreshToken env now token db = (Inr s, d)"
  then have "\<not> mine (ses_id s)" using assms by (elim verified_session) simp
  then show "au_keeps R (au_bind (find_user (\<lambda>u. usr_id u = ses_userId s)) (\<lambda>u. case u of
      None \<Rightarrow> au_throw SessionInvalid
    | Some u \<Rightarrow> au_bind (extendSession env now s) (\<lambda>t. au_return (u, t))))"
    by (intro call_rules extend_keeps)
qed

lemma signup_keeps: "au_keeps R (signup env n tenv now name email password)"
  unfolding signup_def createSignup_def Let_def by (intro call_rules signup_kept) simp_all

lemma login_keeps: "au_keeps R (login env now l password)"
  unfolding login_def by (intro call_rules create_keeps)

lemma createIdentity_keeps: "au_keeps R (createIdentity env now userId provider p)"
  unfolding createIdentity_def by (intro call_rules)

lemma callback_keeps: "au_keeps R (handleSSOCallback env now provider code origin)"
  unfolding handleSSOCallback_def findIdentityByProvider_def findUserById_def Let_def by (intro call_rules create_keeps)

lemma complete_keeps: "au_keeps R (completeSSOSignup env now name provider p expiry signature)"
  unfolding completeSSOSignup_def usernameExists_def Let_def
  by (intro call_rules create_keeps createIdentity_keeps signup_kept) simp_all

lemma link_keeps: "au_keeps R (linkSSOProvider env now userId provider code origin)"
  unfolding linkSSOProvider_def findIdentityByProvider_def by (intro call_rules createIdentity_keeps)

lemma verify_keeps: "au_keeps R (verifyEmail env now token)"
  unfolding verifyEmail_def by (intro call_rules profile_kept) simp

lemma app_session_keeps: "au_keeps R (createAppUserSession env now u a worker access extra seconds)"
  unfolding createAppUserSession_def Let_def by (intro call_rules app_token_keeps)

lemma revoke_keeps: "\<not> mine (ses_id s) \<Longrightarrow> au_keeps R (revokeSession s)"
  using delete_kept [of s] by (simp add: au_keeps_def revokeSession_def delete_session_def)

lemma viewer_keeps: "au_keeps R (updateViewer now u name)"
  unfolding updateViewer_def updated_row_def by (intro call_rules profile_kept) simp

lemma refused:
  assumes "\<not> usr_isAdmin actor"
  shows "snd (au_transaction (createUserAsAdmin env n tenv now actor c) db) = db"
    "snd (au_transaction (updateUserAsAdmin env now actor i p) db) = db"
    "snd (deleteUserAsAdmin actor i db) = db"
proof -
  have "au_require (usr_isAdmin actor) UnauthorizedError = au_throw UnauthorizedError"
    using assms by (simp add: au_require_def)
  then have "createUserAsAdmin env n tenv now actor c = au_throw UnauthorizedError"
    "updateUserAsAdmin env now actor i p = au_throw UnauthorizedError" "deleteUserAsAdmin actor i = au_throw UnauthorizedError"
    by (simp_all add: createUserAsAdmin_def updateUserAsAdmin_def deleteUserAsAdmin_def)
  then show "snd (au_transaction (createUserAsAdmin env n tenv now actor c) db) = db"
    "snd (au_transaction (updateUserAsAdmin env now actor i p) db) = db" "snd (deleteUserAsAdmin actor i db) = db"
    by (simp_all add: au_transaction_def au_throw_def)
qed

lemma refresh_call: "spares mine kept (Refresh token) \<Longrightarrow> R db (snd (extendSessionWithRefreshToken env now token db))"
  by (rule au_keepsD [OF refresh_keeps])

lemma user_call: "spares mine kept c \<Longrightarrow> \<not> by_admin c \<Longrightarrow> R db (auth_step env n tenv now c db)"
  by (cases c) (simp_all add: au_keepsD signup_keeps login_keeps refresh_call callback_keeps complete_keeps link_keeps
    verify_keeps app_session_keeps revoke_keeps viewer_keeps refused au_refl del: spares.simps(1))

end

locale auth_admin_frame = auth_frame +
  fixes kept :: "string \<Rightarrow> bool"
  assumes insert_kept: "au_keeps R (insert_user u)"
    and update_kept: "(\<And>u. usr_id (f u) = usr_id u) \<Longrightarrow> au_keeps R (update_user p f)"
    and delete_user_kept: "\<not> kept i \<Longrightarrow> R db (db\<lparr>users := filter (\<lambda>u. usr_id u \<noteq> i) (users db),
      identities := filter (\<lambda>d. idn_userId d \<noteq> i) (identities db)\<rparr>)"
    and rollback_kept: "R db d \<Longrightarrow> R db (d\<lparr>users := users db, sessions := sessions db, identities := identities db\<rparr>)"
begin

lemma transaction_keeps: "au_keeps R m \<Longrightarrow> R db (snd (au_transaction m db))"
  using au_keepsD [of R m db] rollback_kept [of db "snd (m db)"]
  by (auto simp: au_transaction_def split: prod.splits sum.splits)

lemma named_keeps: "au_keeps R (insert_named_user u)"
proof -
  have "snd (insert_named_user u db) = snd (insert_user u db)" for db
    by (simp add: insert_named_user_def split: prod.split sum.split)
  then show ?thesis using insert_kept [of u] by (simp add: au_keeps_def)
qed

lemma admin_create_keeps: "au_keeps R (createUserAsAdmin env n tenv now actor c)"
  unfolding createUserAsAdmin_def Let_def by (intro call_rules named_keeps)

lemma admin_update_keeps: "au_keeps R (updateUserAsAdmin env now actor i p)"
  unfolding updateUserAsAdmin_def getUserById_def updated_row_def by (intro call_rules update_kept) (simp add: apply_update_def)

lemma admin_delete_keeps: "\<not> kept i \<Longrightarrow> au_keeps R (deleteUserAsAdmin actor i)"
  unfolding deleteUserAsAdmin_def by (intro call_rules) (simp add: au_keeps_def delete_user_kept)

lemma call_kept: "spares mine kept c \<Longrightarrow> R db (auth_step env n tenv now c db)"
  by (cases c) (simp_all add: au_keepsD signup_keeps login_keeps refresh_call callback_keeps complete_keeps link_keeps
    verify_keeps app_session_keeps revoke_keeps viewer_keeps transaction_keeps admin_create_keeps admin_update_keeps
    admin_delete_keeps del: spares.simps(1))

lemma run_kept: "list_all (\<lambda>c. spares mine kept (snd c)) cs \<Longrightarrow> R db (auth_run env n tenv cs db)"
  by (induction cs arbitrary: db) (auto simp: au_refl intro: au_trans [OF call_kept])

end

end
