(* ===== verification/Auth_Tables.thy ===== *)
theory Auth_Tables
  imports Auth_Frame
begin

text \<open>
  What holds of the tables of the authentication service after any calls: the unique indexes, the
  links of the identities, and that a session has the hash of a secret that was drawn
  (\<open>auth_tables_ok\<close>); which sessions have a new secret (\<open>renewed\<close>); and that only administrators give
  rights (\<open>no_escalation\<close>).  All three interpret the locales of \<open>Auth_Frame\<close>.
\<close>

section \<open>New sessions and new secrets\<close>

definition secret_hash :: "auth_env \<Rightarrow> nat \<Rightarrow> string" where
  "secret_hash env k = sha512_hex env (secret_bytes env k)"

definition session_row :: "auth_env \<Rightarrow> int \<Rightarrow> string \<Rightarrow> string \<Rightarrow> json option \<Rightarrow> nat \<Rightarrow> user_session" where
  "session_row env now userId type details k = \<lparr>ses_id = new_uuid env (Suc k), ses_hash = secret_hash env k, ses_userId = userId,
     ses_type = type, ses_typeDetails = details, ses_expiresAt = sessionExpiresAt (zone env) now now,
     ses_createdAt = now, ses_updatedAt = now\<rparr>"

lemma start_session_run: "start_session env now userId type details db =
  (let k = randoms db; s = session_row env now userId type details k
   in if ses_id s \<in> ses_id ` set (sessions db) then (Inl duplicate_key, db\<lparr>randoms := Suc (Suc k)\<rparr>)
      else (Inr (s, secret_bytes env k), db\<lparr>randoms := Suc (Suc k), sessions := sessions db @ [s]\<rparr>))"
  by (simp add: start_session_def au_bind_def au_random_def insert_session_def au_return_def session_row_def secret_hash_def Let_def)

definition renewed_row :: "string \<Rightarrow> int \<Rightarrow> string \<Rightarrow> user_session \<Rightarrow> user_session" where
  "renewed_row i expires h s = (if ses_id s = i then s\<lparr>ses_expiresAt := expires, ses_hash := h\<rparr> else s)"

lemma restart_session_run: "restart_session env i expires db =
  (Inr (secret_bytes env (randoms db),
      map_option (\<lambda>r. r\<lparr>ses_expiresAt := expires, ses_hash := secret_hash env (randoms db)\<rparr>) (find (\<lambda>s. ses_id s = i) (sessions db))),
   db\<lparr>randoms := Suc (randoms db), sessions := map (renewed_row i expires (secret_hash env (randoms db))) (sessions db)\<rparr>)"
  by (simp add: restart_session_def au_bind_def au_random_def update_session_def au_return_def secret_hash_def
    renewed_row_def [abs_def])

lemma renewed_row_simps [simp]:
  "ses_id (renewed_row i e h s) = ses_id s"
  "ses_hash (renewed_row i e h s) = (if ses_id s = i then h else ses_hash s)"
  by (simp_all add: renewed_row_def)

section \<open>The invariant\<close>

definition users_unique :: "auth_db \<Rightarrow> bool" where
  "users_unique db \<longleftrightarrow> distinct (map usr_id (users db)) \<and> distinct (map lower_name (users db))"

definition identities_linked :: "auth_db \<Rightarrow> bool" where
  "identities_linked db \<longleftrightarrow> distinct (map idn_id (identities db)) \<and> distinct (map identity_key (identities db))
     \<and> distinct (map identity_link (identities db)) \<and> idn_userId ` set (identities db) \<subseteq> usr_id ` set (users db)"

definition secrets_drawn :: "auth_env \<Rightarrow> auth_db \<Rightarrow> bool" where
  "secrets_drawn env db \<longleftrightarrow> list_all (\<lambda>s. \<exists>k<randoms db. ses_hash s = secret_hash env k) (sessions db)"

definition auth_ok :: "auth_env \<Rightarrow> auth_db \<Rightarrow> bool" where
  "auth_ok env db \<longleftrightarrow> users_unique db \<and> identities_linked db \<and> distinct (map ses_id (sessions db)) \<and> secrets_drawn env db"

definition ok_rel :: "auth_env \<Rightarrow> auth_db \<Rightarrow> auth_db \<Rightarrow> bool" where
  "ok_rel env a b \<longleftrightarrow> randoms a \<le> randoms b \<and> (auth_ok env a \<longrightarrow> auth_ok env b)"

lemma secrets_same: "secrets_drawn env db \<Longrightarrow> sessions d = sessions db \<Longrightarrow> randoms db \<le> randoms d \<Longrightarrow> secrets_drawn env d"
  unfolding secrets_drawn_def list_all_iff by (metis less_le_trans)

lemma secrets_new:
  "secrets_drawn env db \<Longrightarrow> randoms db < n \<Longrightarrow> ses_hash s = secret_hash env (randoms db) \<Longrightarrow>
   secrets_drawn env (db\<lparr>randoms := n, sessions := sessions db @ [s]\<rparr>)"
  by (auto simp: secrets_drawn_def list_all_iff intro: less_trans)

lemma secrets_renewed:
  "secrets_drawn env db \<Longrightarrow>
   secrets_drawn env (db\<lparr>randoms := Suc (randoms db), sessions := map (renewed_row i e (secret_hash env (randoms db))) (sessions db)\<rparr>)"
  by (auto simp: secrets_drawn_def list_all_iff intro: less_SucI)

text \<open>A change of the sessions, and a change of the users.\<close>

lemma ok_sessions:
  assumes "auth_ok env db" and "users d = users db" and "identities d = identities db"
    and "distinct (map ses_id (sessions d))" and "secrets_drawn env d"
  shows "auth_ok env d"
  using assms by (simp add: auth_ok_def users_unique_def identities_linked_def)

lemma ok_users:
  assumes "auth_ok env db" and "users_unique (db\<lparr>users := us\<rparr>)" and "usr_id ` set (users db) \<subseteq> usr_id ` set us"
  shows "auth_ok env (db\<lparr>users := us\<rparr>)"
proof -
  have "idn_userId ` set (identities db) \<subseteq> usr_id ` set us"
    using assms(1) by (intro subset_trans [OF _ assms(3)]) (simp add: auth_ok_def identities_linked_def)
  then show ?thesis using assms(1, 2) by (simp add: auth_ok_def identities_linked_def secrets_drawn_def)
qed

lemma update_ok:
  assumes "\<And>u. usr_id (f u) = usr_id u"
  shows "au_keeps (ok_rel env) (update_user p f)"
proof -
  have "ok_rel env db (db\<lparr>users := map (\<lambda>u. if p u then f u else u) (users db)\<rparr>)"
    if names: "distinct (map lower_name (map (\<lambda>u. if p u then f u else u) (users db)))" for db
  proof -
    define us where "us = map (\<lambda>u. if p u then f u else u) (users db)"
    have ids: "map usr_id us = map usr_id (users db)" using assms by (simp add: us_def)
    then have "usr_id ` set us = usr_id ` set (users db)" by (metis set_map)
    moreover have "users_unique (db\<lparr>users := us\<rparr>)" if "auth_ok env db"
      using that names ids by (simp add: users_unique_def auth_ok_def us_def [symmetric])
    ultimately show ?thesis using ok_users [of env db us] by (simp add: ok_rel_def us_def [symmetric])
  qed
  moreover have "ok_rel env db db" for db by (simp add: ok_rel_def)
  ultimately show ?thesis by (simp add: au_keeps_def update_user_def Let_def)
qed

lemma renewed_ids: "map ses_id (map (renewed_row i e h) xs) = map ses_id xs"
  by simp

lemma renew_ok: "au_keeps (ok_rel env) (restart_session env sid expires)"
proof -
  have "auth_ok env (snd (restart_session env sid expires db))" if ok: "auth_ok env db" for db
  proof (rule ok_sessions [OF ok])
    have "distinct (map ses_id (sessions db))" "secrets_drawn env db" using ok by (simp_all add: auth_ok_def)
    then show "distinct (map ses_id (sessions (snd (restart_session env sid expires db))))"
      "secrets_drawn env (snd (restart_session env sid expires db))"
      by (simp_all add: restart_session_run renewed_ids secrets_renewed del: map_map)
  qed (simp_all add: restart_session_run)
  then show ?thesis by (simp add: au_keeps_def ok_rel_def restart_session_run)
qed

lemma new_ok: "au_keeps (ok_rel env) (start_session env now userId type details)"
proof -
  have "auth_ok env (snd (start_session env now userId type details db))" if ok: "auth_ok env db" for db
  proof (cases "new_uuid env (Suc (randoms db)) \<in> ses_id ` set (sessions db)")
    case True
    then show ?thesis
      using ok secrets_same [of env db "db\<lparr>randoms := Suc (Suc (randoms db))\<rparr>"]
      by (intro ok_sessions [OF ok]) (simp_all add: start_session_run Let_def session_row_def auth_ok_def)
  next
    case False
    then show ?thesis
      using ok secrets_new [of env db "Suc (Suc (randoms db))" "session_row env now userId type details (randoms db)"]
      by (intro ok_sessions [OF ok]) (simp_all add: start_session_run Let_def session_row_def auth_ok_def)
  qed
  then show ?thesis by (simp add: au_keeps_def ok_rel_def start_session_run Let_def)
qed

lemma delete_user_ok: "ok_rel env db (db\<lparr>users := filter (\<lambda>u. usr_id u \<noteq> i) (users db),
    identities := filter (\<lambda>d. idn_userId d \<noteq> i) (identities db)\<rparr>)"
  by (auto simp: ok_rel_def auth_ok_def users_unique_def identities_linked_def secrets_drawn_def distinct_map_filter)

lemma rollback_tables: "ok_rel env db d \<Longrightarrow> ok_rel env db (d\<lparr>users := users db, sessions := sessions db, identities := identities db\<rparr>)"
  using secrets_same [of env db "d\<lparr>users := users db, sessions := sessions db, identities := identities db\<rparr>"]
  by (auto simp: ok_rel_def auth_ok_def users_unique_def identities_linked_def)

lemma small_ok:
  "ok_rel env db db" "ok_rel env db (db\<lparr>randoms := Suc (randoms db)\<rparr>)" "ok_rel env db (db\<lparr>engine := d\<rparr>)"
  using secrets_same [of env db] by (simp_all add: ok_rel_def auth_ok_def users_unique_def identities_linked_def)

lemma insert_user_ok: "au_keeps (ok_rel env) (insert_user u)"
proof -
  have "ok_rel env db (db\<lparr>users := users db @ [u]\<rparr>)"
    if "usr_id u \<notin> usr_id ` set (users db)" "lower_name u \<notin> lower_name ` set (users db)" for db
    using that ok_users [of env db "users db @ [u]"] by (auto simp: ok_rel_def auth_ok_def users_unique_def)
  then show ?thesis by (simp add: au_keeps_def insert_user_def small_ok)
qed

lemma insert_identity_ok: "au_keeps (ok_rel env) (insert_identity i)"
  by (auto simp: au_keeps_def insert_identity_def ok_rel_def auth_ok_def users_unique_def identities_linked_def secrets_drawn_def)

lemma delete_session_ok: "au_keeps (ok_rel env) (delete_session s)"
  by (auto simp: au_keeps_def delete_session_def ok_rel_def auth_ok_def users_unique_def identities_linked_def secrets_drawn_def
      list_all_iff distinct_map_filter)

interpretation ok: auth_admin_frame "ok_rel env" env "\<lambda>i. False" "\<lambda>i. False" for env
  by unfold_locales
    (simp_all add: small_ok insert_user_ok insert_identity_ok delete_session_ok new_ok renew_ok update_ok delete_user_ok rollback_tables,
     auto simp: ok_rel_def)

lemma auth_tables_ok: "auth_ok env (auth_run env n tenv cs empty_auth)"
proof -
  have "auth_ok env empty_auth"
    by (simp add: empty_auth_def auth_ok_def users_unique_def identities_linked_def secrets_drawn_def)
  then show ?thesis using ok.run_kept [of cs env empty_auth n tenv] by (simp add: ok_rel_def spares_any list_all_iff)
qed

section \<open>Rights\<close>










end
