(* ===== verification/Auth_Guard.thy ===== *)
theory Auth_Guard
  imports Auth_Tokens
begin

text \<open>
  Who passes the guard: the token of a login does, as its user and until the token expires
  (\<open>login_authenticates\<close>), and who does holds a token that was verified (\<open>guard_sound\<close>); its refresh token
  works whatever other calls do (\<open>login_refreshes\<close>).  Then the lifetime of a session (\<open>session_lifetime\<close>) and the verification of an email address, which never
  succeeds (\<open>verify_email_never_succeeds\<close>).
\<close>

section \<open>Signed tokens\<close>

text \<open>What jose documents: the payload of a token is what was signed, and \<open>jwtVerify\<close> checks the issuer,
  the audience and the expiry.\<close>

definition jwt_check :: "string option \<Rightarrow> string option \<Rightarrow> int \<Rightarrow> json \<Rightarrow> jwt_failure + json" where
  "jwt_check audience issuer t v =
     (if (issuer \<noteq> None \<and> str_claim v ''iss'' \<noteq> issuer) \<or> (audience \<noteq> None \<and> str_claim v ''aud'' \<noteq> audience) then Inl JwtInvalid
      else case num_claim v ''exp'' of
          Some e \<Rightarrow> if e \<le> of_int t then Inl JwtExpired else Inr v | None \<Rightarrow> Inr v)"

definition jose_ok :: "auth_env \<Rightarrow> bool" where
  "jose_ok env \<longleftrightarrow>
     (\<forall>k m. decodeJwt env (signJwt env k (JObj m)) = Some (JObj m))
   \<and> (\<forall>k m audience issuer t. jwtVerify env k audience issuer t (signJwt env k (JObj m)) = jwt_check audience issuer t (JObj m))
   \<and> (\<forall>k audience issuer t token v. jwtVerify env k audience issuer t token = Inr v \<longrightarrow> decodeJwt env token = Some v)"

lemma session_claims_object: "session_claims env now s jti = JObj ([(''scp'', JArr []), (''aud'', JStr (platform_host env)),
     (''sub'', JStr (''user:'' @ ses_userId s)), (''jti'', JStr (ses_id s @ CHR '':'' # jti)),
     (''iat'', JNum (of_int (now div 1000))), (''exp'', JNum (of_int (now div 1000 + 1296000)))])"
  by (simp add: session_claims_def time_claims_def)

lemma session_sub: "js_prop (session_claims env now s jti) ''sub'' = Some (Some (JStr (''user:'' @ ses_userId s)))"
  by (simp add: session_claims_object)

lemma session_token_verified:
  assumes "jose_ok env" and "t div 1000 < now div 1000 + 1296000"
  shows "verifyUserJWT env t (signJwt env HsKey (session_claims env now s jti)) = Inr (session_claims env now s jti)"
proof -
  have "\<not> (of_int (now div 1000 + 1296000) :: rat) \<le> of_int (t div 1000)" using assms(2) by (simp only: of_int_le_iff not_le)
  then have "jwt_check (Some (platform_host env)) None (t div 1000) (session_claims env now s jti) = Inr (session_claims env now s jti)"
    by (simp add: session_claims_object jwt_check_def str_claim_def num_claim_def del: of_int_add)
  then show ?thesis
    using assms(1) by (simp add: verifyUserJWT_def mapJoseError_def jose_ok_def session_claims_object)
qed

lemma user_token_shape:
  assumes "createUserSession env now u db = (Inr t, db')"
  shows "\<exists>jti. tok_access t = signJwt env HsKey (session_claims env now (tok_session t) jti) \<and> ses_userId (tok_session t) = usr_id u"
  using assms by (auto simp: createUserSession_def createSessionAccessToken_def start_session_run session_row_def Let_def
    au_bind_Inr au_results au_lift_Inr split: if_splits option.splits)

lemma find_own: "distinct (map f xs) \<Longrightarrow> x \<in> set xs \<Longrightarrow> find (\<lambda>y. f y = f x) xs = Some x"
  by (induction xs) (auto simp: image_iff)

lemma guarded_user_found:
  "find (\<lambda>r. usr_id r = i) (users d) = Some u \<Longrightarrow> guarded_user i d = (Inr (Some u), d)"
  by (simp add: guarded_user_def getUserById_def au_bind_def find_user_def au_return_def)

lemma user_token_accepted:
  assumes "jose_ok env" and "is_guid i" and "t div 1000 < now div 1000 + 1296000"
    and "find (\<lambda>r. usr_id r = i) (users d) = Some u" and "ses_userId s = i" and "UserActor \<in> set allowed"
  shows "canActivate env t allowed (Some (''Bearer '' @ signJwt env HsKey (session_claims env now s jti))) d = (Inr (Some u), d)"
proof -
  have "decodeJwt env (signJwt env HsKey (session_claims env now s jti)) = Some (session_claims env now s jti)"
    using assms(1) by (simp add: jose_ok_def session_claims_object)
  moreover have "split_on (CHR '':'') (''user:'' @ i) = [''user'', i]"
    using guid_colon(2) [OF assms(2)] split_on_append [of "CHR '':''" "''user''" i] by (simp add: split_on_notin)
  ultimately show ?thesis
    using session_token_verified [OF assms(1, 3), of s jti] session_sub [of env now s jti] assms(5, 6) guarded_user_found [OF assms(4)]
    by (simp add: canActivate_def subject_user_def au_bind_def au_lift_def au_return_def starts_with_append drop_append
      starts_with_append [of "''Bearer ''", simplified] starts_with_append [of "''user:''", simplified])
qed

text \<open>C12: A login checks the password of the first account with that email or name, and its access token passes the guard as that account until it expires, whatever happens to the sessions meanwhile (they may have been revoked or be expired: the guard looks at the token and the user only).\<close>

theorem login_authenticates:
  assumes "jose_ok env" and "login env now l password db = (Inr (u, t), db')" and "is_guid (usr_id u)"
    and "find (\<lambda>r. usr_id r = usr_id u) (users d) = Some u'" and "later div 1000 < now div 1000 + 1296000"
  shows "u \<in> set (users db) \<and> login_row l u \<and> verifyPassword env u password
    \<and> canActivate env later [UserActor] (Some (''Bearer '' @ tok_access t)) d = (Inr (Some u'), d)"
proof -
  have find: "find (login_row l) (users db) = Some u" and pw: "verifyPassword env u password"
    and t: "createUserSession env now u db = (Inr t, db')"
    using assms(2) by (auto simp: login_def au_bind_Inr au_results split: option.splits)
  have row: "u \<in> set (users db)" "login_row l u" using find by (auto simp: find_Some_iff)
  obtain jti where token: "tok_access t = signJwt env HsKey (session_claims env now (tok_session t) jti)"
    and owner: "ses_userId (tok_session t) = usr_id u" using user_token_shape [OF t] by blast
  show ?thesis
    using row pw user_token_accepted [OF assms(1, 3, 5, 4) owner, of "[UserActor]"] by (simp add: token)
qed

section \<open>A session and its refresh\<close>

definition first_tokens :: "auth_env \<Rightarrow> int \<Rightarrow> user \<Rightarrow> nat \<Rightarrow> session_tokens" where
  "first_tokens env now u k = (let s = session_row env now (usr_id u) ''user'' None k in
     \<lparr>tok_session = s, tok_access = signJwt env HsKey (session_claims env now s (new_uuid env (Suc (Suc k)))),
      tok_refresh = encode_token (new_uuid env (Suc k)) (secret_bytes env k)\<rparr>)"

lemma access_token_claims: "access_token (session_claims env now s jti)"
  by (simp add: access_token_def session_claims_object str_claim_def)

lemma token_signed:
  assumes "jose_ok env" and "find (\<lambda>r. usr_id r = ses_userId s) (users db) = Some v"
  shows "createSessionAccessToken env now s db =
    (Inr (signJwt env HsKey (session_claims env now s (new_uuid env (randoms db)))), db\<lparr>randoms := Suc (randoms db)\<rparr>)"
  using session_token_verified [OF assms(1), of now now s] assms(2)
  by (simp add: createSessionAccessToken_def au_bind_def find_user_def au_random_def Let_def au_lift_def au_return_def access_token_claims)

lemma session_created:
  assumes "jose_ok env" and "find (\<lambda>r. usr_id r = usr_id u) (users db) = Some v"
    and "new_uuid env (Suc (randoms db)) \<notin> ses_id ` set (sessions db)"
  shows "createUserSession env now u db = (Inr (first_tokens env now u (randoms db)),
    db\<lparr>randoms := Suc (Suc (Suc (randoms db))), sessions := sessions db @ [session_row env now (usr_id u) ''user'' None (randoms db)]\<rparr>)"
proof -
  let ?s = "session_row env now (usr_id u) ''user'' None (randoms db)"
  let ?d = "db\<lparr>randoms := Suc (Suc (randoms db)), sessions := sessions db @ [?s]\<rparr>"
  have "start_session env now (usr_id u) ''user'' None db = (Inr (?s, secret_bytes env (randoms db)), ?d)"
    using assms(3) by (simp add: start_session_run Let_def session_row_def)
  moreover have "createSessionAccessToken env now ?s ?d =
      (Inr (signJwt env HsKey (session_claims env now ?s (new_uuid env (Suc (Suc (randoms db)))))), ?d\<lparr>randoms := Suc (Suc (Suc (randoms db)))\<rparr>)"
    using token_signed [OF assms(1), of ?s ?d v now] assms(2) by (simp add: session_row_def)
  ultimately show ?thesis
    by (simp add: createUserSession_def au_bind_def au_return_def first_tokens_def Let_def session_row_def)
qed

lemma find_split: "p s \<Longrightarrow> (\<And>r. r \<in> set xs \<Longrightarrow> \<not> p r) \<Longrightarrow> find p (xs @ s # ys) = Some s"
  by (induction xs) simp_all

text \<open>A user session that is not expired is refreshed with its secret.\<close>

lemma session_refreshed:
  assumes "jose_ok env" and "is_guid (ses_id s)" and "secret \<noteq> []" and "ses_hash s = sha512_hex env secret" and "ses_type s = ''user''"
    and "sessions db = xs @ s # ys" and "ses_id s \<notin> ses_id ` set xs" and "now \<le> ses_expiresAt s"
    and "find (\<lambda>r. usr_id r = ses_userId s) (users db) = Some u"
  shows "\<exists>t db'. extendSessionWithRefreshToken env now (encode_token (ses_id s) secret) db = (Inr (u, t), db')
    \<and> tok_session t = s\<lparr>ses_expiresAt := sessionExpiresAt (zone env) now (ses_createdAt s), ses_hash := secret_hash env (randoms db)\<rparr>
    \<and> tok_refresh t = encode_token (ses_id s) (secret_bytes env (randoms db))"
proof -
  have "ses_id r \<noteq> ses_id s" if "r \<in> set xs" for r using that assms(7) by (metis imageI)
  then have "find (\<lambda>r. ses_id r = ses_id s \<and> ses_hash r = sha512_hex env secret) (sessions db) = Some s"
    "find (\<lambda>r. ses_id r = ses_id s) (sessions db) = Some s"
    unfolding assms(6) using assms(4) by (simp_all add: find_split)
  moreover define r where "r = s\<lparr>ses_expiresAt := sessionExpiresAt (zone env) now (ses_createdAt s), ses_hash := secret_hash env (randoms db)\<rparr>"
  moreover define d where "d = snd (restart_session env (ses_id s) (sessionExpiresAt (zone env) now (ses_createdAt s)) db)"
  moreover have "session_token env now r d = (Inr (signJwt env HsKey (session_claims env now r (new_uuid env (randoms d)))), d\<lparr>randoms := Suc (randoms d)\<rparr>)"
    using token_signed [OF assms(1), of r d u now] assms(5, 9) by (simp add: session_token_def r_def d_def restart_session_run)
  ultimately show ?thesis
    using refresh_token_decoded [OF assms(2, 3)] assms(8, 9)
    by (simp add: extendSessionWithRefreshToken_def verifySessionWithRefreshToken_def extendSession_parts au_bind_def
      find_session_def find_user_def not_expired_def au_return_def restart_session_run)
qed

text \<open>A session and a user that calls leave alone.\<close>

definition session_kept :: "string \<Rightarrow> string \<Rightarrow> auth_db \<Rightarrow> auth_db \<Rightarrow> bool" where
  "session_kept i u a b \<longleftrightarrow>
     (\<forall>s. find (\<lambda>r. ses_id r = i) (sessions a) = Some s \<longrightarrow> find (\<lambda>r. ses_id r = i) (sessions b) = Some s)
     \<and> (u \<in> usr_id ` set (users a) \<longrightarrow> u \<in> usr_id ` set (users b))"

lemma kept_same: "sessions b = sessions a \<Longrightarrow> usr_id ` set (users a) \<subseteq> usr_id ` set (users b) \<Longrightarrow> session_kept i u a b"
  by (auto simp: session_kept_def)

lemma find_append_Some: "find p xs = Some x \<Longrightarrow> find p (xs @ ys) = Some x"
  by (induction xs) (auto split: if_splits)

lemma find_filter_kept: "(\<And>x. p x \<Longrightarrow> q x) \<Longrightarrow> find p (filter q xs) = find p xs"
  by (induction xs) auto

lemma find_map_kept: "(\<And>x. p (f x) = p x) \<Longrightarrow> (\<And>x. p x \<Longrightarrow> f x = x) \<Longrightarrow> find p (map f xs) = find p xs"
  by (induction xs) auto

lemma kept_delete: "ses_id s \<noteq> i \<Longrightarrow> au_keeps (session_kept i u) (delete_session s)"
  by (auto simp: au_keeps_def delete_session_def session_kept_def find_filter_kept)

lemma kept_renew: "sid \<noteq> i \<Longrightarrow> au_keeps (session_kept i u) (restart_session env sid expires)"
proof -
  assume "sid \<noteq> i"
  then have "find (\<lambda>r. ses_id r = i) (map (renewed_row sid expires h) xs) = find (\<lambda>r. ses_id r = i) xs" for h xs
    by (intro find_map_kept) (simp_all, simp add: renewed_row_def)
  then show ?thesis by (simp add: au_keeps_def restart_session_run session_kept_def)
qed

lemma kept_new: "au_keeps (session_kept i u) (start_session env now userId type details)"
  by (auto simp: au_keeps_def start_session_run Let_def session_kept_def find_append_Some)

lemma kept_update:
  assumes "\<And>r. usr_id (f r) = usr_id r"
  shows "au_keeps (session_kept i u) (update_user p f)"
proof -
  have "usr_id (if p r then f r else r) = usr_id r" for r using assms by simp
  then have "usr_id ` set (map (\<lambda>r. if p r then f r else r) xs) = usr_id ` set xs" for xs
    by (simp only: set_map image_image)
  then show ?thesis by (simp add: au_keeps_def update_user_def Let_def kept_same del: set_map)
qed

lemma kept_delete_user:
  "j \<noteq> u \<Longrightarrow> session_kept i u db (db\<lparr>users := filter (\<lambda>r. usr_id r \<noteq> j) (users db),
      identities := filter (\<lambda>d. idn_userId d \<noteq> j) (identities db)\<rparr>)"
  by (auto simp: session_kept_def)

interpretation spared: auth_admin_frame "session_kept i u" env "\<lambda>j. j = i" "\<lambda>j. j = u" for i u env
proof unfold_locales
  fix a b c :: auth_db
  show "session_kept i u a b \<Longrightarrow> session_kept i u b c \<Longrightarrow> session_kept i u a c" by (simp add: session_kept_def)
  show "session_kept i u db (d\<lparr>users := users db, sessions := sessions db, identities := identities db\<rparr>)" for db d
    by (simp add: kept_same)
qed (auto simp: kept_new kept_renew kept_delete kept_update kept_delete_user kept_same,
    auto simp: au_keeps_def insert_user_def insert_identity_def intro!: kept_same)

lemma find_row_split:
  assumes "find (\<lambda>r. f r = i) xs = Some x"
  obtains ys zs where "xs = ys @ x # zs" "i \<notin> f ` set ys" "f x = i"
proof -
  obtain k where k: "k < length xs" "f (xs ! k) = i" "x = xs ! k" "\<And>j. j < k \<Longrightarrow> f (xs ! j) \<noteq> i"
    using assms by (auto simp: find_Some_iff)
  show thesis
  proof (rule that [of "take k xs" "drop (Suc k) xs"])
    show "xs = take k xs @ x # drop (Suc k) xs" using k(1,3) by (simp add: id_take_nth_drop)
    show "i \<notin> f ` set (take k xs)" using k(1,4) by (fastforce simp: in_set_conv_nth)
  qed (use k in simp)
qed

text \<open>C32: The refresh token of a login extends its session at any time until the session expires,
  whatever calls of users and administrators come in between, as long as none of them refreshes
  with a token of this session, revokes it or deletes its user: it is the same user and the same
  session, whose time of creation is kept.\<close>

theorem login_refreshes:
  assumes "jose_ok env" and "login env now l password db = (Inr (u, t), db')"
    and "is_guid (ses_id (tok_session t))" and "secret_bytes env (randoms db) \<noteq> []"
    and "list_all (\<lambda>c. spares (\<lambda>i. i = ses_id (tok_session t)) (\<lambda>i. i = usr_id u) (snd c)) cs"
    and "later \<le> ses_expiresAt (tok_session t)"
  shows "\<exists>u' t' db''. extendSessionWithRefreshToken env later (tok_refresh t) (auth_run env n tenv cs db') = (Inr (u', t'), db'')
    \<and> usr_id u' = usr_id u \<and> ses_id (tok_session t') = ses_id (tok_session t) \<and> ses_createdAt (tok_session t') = now"
proof -
  have find: "find (login_row l) (users db) = Some u" and t: "createUserSession env now u db = (Inr t, db')"
    using assms(2) by (auto simp: login_def au_bind_Inr au_results split: option.splits)
  have u: "u \<in> set (users db)" using find by (auto simp: find_Some_iff)
  then obtain v where own: "find (\<lambda>r. usr_id r = usr_id u) (users db) = Some v"
    by (cases "find (\<lambda>r. usr_id r = usr_id u) (users db)") (auto simp: find_None_iff)
  have new: "new_uuid env (Suc (randoms db)) \<notin> ses_id ` set (sessions db)"
    using t by (auto simp: createUserSession_def au_bind_Inr start_session_run Let_def session_row_def split: if_splits)
  define s where "s = session_row env now (usr_id u) ''user'' None (randoms db)"
  have t': "t = first_tokens env now u (randoms db)" and db': "sessions db' = sessions db @ s # []" "users db' = users db"
    using session_created [OF assms(1) own new, of now] t by (simp_all add: s_def)
  have s: "tok_session t = s" "tok_refresh t = encode_token (ses_id s) (secret_bytes env (randoms db))"
    by (simp_all add: t' first_tokens_def Let_def s_def session_row_def)
  have row: "ses_hash s = sha512_hex env (secret_bytes env (randoms db))" "ses_type s = ''user''" "ses_userId s = usr_id u"
    "ses_createdAt s = now" "ses_id s \<notin> ses_id ` set (sessions db)"
    using new by (simp_all add: s_def session_row_def secret_hash_def)
  define e where "e = auth_run env n tenv cs db'"
  have "session_kept (ses_id s) (usr_id u) db' e"
    unfolding e_def by (rule spared.run_kept) (use assms(5) in \<open>simp add: s(1)\<close>)
  moreover have "find (\<lambda>r. ses_id r = ses_id s) (sessions db') = Some s"
    unfolding db'(1) by (rule find_split) (use row(5) in \<open>simp, metis imageI\<close>)
  ultimately have kept: "find (\<lambda>r. ses_id r = ses_id s) (sessions e) = Some s" "usr_id u \<in> usr_id ` set (users e)"
    using u by (simp_all add: session_kept_def db'(2))
  obtain xs ys where e: "sessions e = xs @ s # ys" "ses_id s \<notin> ses_id ` set xs" using kept(1) by (rule find_row_split)
  obtain u' where u': "find (\<lambda>r. usr_id r = usr_id u) (users e) = Some u'"
    using kept(2) by (cases "find (\<lambda>r. usr_id r = usr_id u) (users e)") (auto simp: find_None_iff)
  then have "usr_id u' = usr_id u" by (auto simp: find_Some_iff)
  then show ?thesis
    using session_refreshed [OF assms(1), of s "secret_bytes env (randoms db)" e xs ys later u'] e row(1-4) u' assms(3, 4, 6) s
    unfolding e_def [symmetric] by auto
qed

section \<open>The guard\<close>

lemma guarded_user_row: "guarded_user i db = (Inr (Some u), db') \<Longrightarrow> db' = db \<and> u \<in> set (users db) \<and> usr_id u = i"
  by (auto simp: guarded_user_def getUserById_def au_bind_def find_user_def au_return_def au_throw_def find_Some_iff
    split: option.splits)

lemma app_claims_user:
  assumes "(case c of AppActor a \<Rightarrow> au_return None | AppUserActor a i s w access x \<Rightarrow>
      if \<not> access then au_throw UnauthorizedError else guarded_user i) db = (Inr (Some u), db')"
  shows "db' = db \<and> u \<in> set (users db) \<and> (\<exists>a s w x. c = AppUserActor a (usr_id u) s w True x)"
  using assms by (cases c) (auto simp: au_results dest!: guarded_user_row split: if_splits)

lemma subject_user_sound:
  assumes "subject_user env now allowed token subject db = (Inr (Some u), db')"
  shows "db' = db \<and> u \<in> set (users db) \<and>
    ((UserActor \<in> set allowed \<and> starts_with subject ''user:'' \<and> (\<exists>v. verifyUserJWT env now token = Inr v)
        \<and> usr_id u = (case split_on (CHR '':'') subject of _ # i # _ \<Rightarrow> i | _ \<Rightarrow> []))
     \<or> (AppUser \<in> set allowed \<and> (\<exists>a s w x. verifyAppToken env now token = Inr (AppUserActor a (usr_id u) s w True x))))"
  using assms by (auto simp: subject_user_def au_bind_Inr au_lift_Inr au_results dest!: guarded_user_row app_claims_user
    split: if_splits)

lemma guard_token:
  assumes "canActivate env now allowed header db = (Inr (Some u), db')"
  obtains token payload subject where "header = Some (''Bearer '' @ token)" and "decodeJwt env token = Some payload"
    and "str_claim payload ''sub'' = Some subject" and "subject_user env now allowed token subject db = (Inr (Some u), db')"
proof -
  obtain h where h: "header = Some h" "starts_with h ''Bearer ''"
    using assms by (auto simp: canActivate_def au_results split: option.splits if_splits)
  then obtain token where token: "h = ''Bearer '' @ token" by (auto simp only: starts_with_iff)
  obtain payload where p: "decodeJwt env token = Some payload"
    using assms h(2) by (auto simp: canActivate_def au_results h(1) token split: option.splits)
  obtain subject where s: "js_prop payload ''sub'' = Some (Some (JStr subject))"
    using assms h(2) by (auto simp: canActivate_def au_results h(1) token p split: option.splits json.splits)
  have "subject_user env now allowed token subject db = (Inr (Some u), db')"
    using assms h(2) by (auto simp: canActivate_def au_results h(1) token p s split: if_splits)
  then show ?thesis using that [OF _ p] h(1) token s by (simp add: str_claim_def)
qed

lemma subject_id: "(case split_on (CHR '':'') (''user:'' @ rest) of _ # i # _ \<Rightarrow> i | _ \<Rightarrow> []) = hd (split_on (CHR '':'') rest)"
proof -
  have "split_on (CHR '':'') (''user:'' @ rest) = ''user'' # split_on (CHR '':'') rest"
    using split_on_append [of "CHR '':''" "''user''" rest] by simp
  then show ?thesis by (cases "split_on (CHR '':'') rest") simp_all
qed

text \<open>C11: Who passes the guard as a user is in the table and holds a bearer token that was verified: a user token with that user as its subject, where users are allowed, or an app-user token of that user with platform access, where those are; the guard changes nothing.\<close>

theorem guard_sound:
  assumes "jose_ok env" and "canActivate env now allowed header db = (Inr (Some u), db')"
  shows "db' = db \<and> u \<in> set (users db) \<and> (\<exists>token. header = Some (''Bearer '' @ token) \<and>
    ((UserActor \<in> set allowed \<and> (\<exists>v. verifyUserJWT env now token = Inr v \<and>
        (\<exists>rest. str_claim v ''sub'' = Some (''user:'' @ rest) \<and> usr_id u = hd (split_on (CHR '':'') rest))))
     \<or> (AppUser \<in> set allowed \<and> (\<exists>a s w x. verifyAppToken env now token = Inr (AppUserActor a (usr_id u) s w True x)))))"
proof -
  obtain token payload subject where header: "header = Some (''Bearer '' @ token)" and p: "decodeJwt env token = Some payload"
    and s: "str_claim payload ''sub'' = Some subject" and run: "subject_user env now allowed token subject db = (Inr (Some u), db')"
    by (rule guard_token [OF assms(2)])
  have "v = payload" if "verifyUserJWT env now token = Inr v" for v
    using that p assms(1) by (auto simp: verifyUserJWT_def mapJoseError_def jose_ok_def split: sum.splits jwt_failure.splits)
  moreover have "\<exists>rest. subject = ''user:'' @ rest \<and> i = hd (split_on (CHR '':'') rest)"
    if "starts_with subject ''user:''" "i = (case split_on (CHR '':'') subject of _ # i # _ \<Rightarrow> i | _ \<Rightarrow> [])" for i
    using that subject_id by (auto simp only: starts_with_iff)
  ultimately show ?thesis using subject_user_sound [OF run] header s by metis
qed

section \<open>The lifetime of a session\<close>

text \<open>C40: A session that is extended was not expired, and its new expiry is the sliding or the absolute limit; when the absolute limit falls on the 31st of a month it is always the sliding one, however old the session is (the code compares days of the month).\<close>

theorem session_lifetime:
  assumes "extendSession env now s db = (Inr t, db')"
  shows "now \<le> ses_expiresAt s
    \<and> (ses_expiresAt (tok_session t) = now + SessionSliding \<or> ses_expiresAt (tok_session t) = ses_createdAt s + SessionAbsolute)
    \<and> (getDate (zone env) (ses_createdAt s + SessionAbsolute) = 31 \<longrightarrow> ses_expiresAt (tok_session t) = now + SessionSliding)"
proof -
  have "now \<le> ses_expiresAt s" "ses_expiresAt (tok_session t) = sessionExpiresAt (zone env) now (ses_createdAt s)"
    using assms by (auto simp: extendSession_parts restart_session_run au_bind_Inr au_results not_expired_def
      split: option.splits if_splits)
  then show ?thesis using expiry_cases [of "zone env" now "ses_createdAt s"] absolute_limit_skipped [of "zone env" "ses_createdAt s" now]
    by simp
qed

section \<open>Email verification\<close>

text \<open>The verification of an email address never reports success: with a good link the address is marked as verified and the request is answered with an error, as every other request is.\<close>

theorem verify_email_never_succeeds:
  "\<exists>e. fst (verifyEmail env now token db) = Inl e"
proof (rule ccontr)
  assume "\<not> ?thesis"
  then obtain db' where ok: "verifyEmail env now token db = (Inr (), db')"
    by (metis (full_types) old.unit.exhaust prod.collapse sum.exhaust)
  obtain i k h where t: "verifyEmailVerificationToken env now token = Inr (i, k, h)"
    using ok by (auto simp: verifyEmail_def au_results split: sum.splits)
  obtain u where u: "find (\<lambda>u. usr_id u = i) (users db) = Some u" "Some k = usr_emailVerificationKey u"
    and none: "find (\<lambda>r. usr_id r = usr_id u \<and> usr_emailVerificationKey r = Some k) (users db) = None"
    using ok by (auto simp: verifyEmail_def t au_bind_Inr au_results update_user_def Let_def split: option.splits if_splits)
  then show False by (auto simp: find_Some_iff find_None_iff)
qed

end
