(* ===== verification/Auth_Examples.thy ===== *)
theory Auth_Examples
  imports Auth_Guard Task_Examples "HOL-Library.Countable"
begin

text \<open>
  The properties of the authentication service at concrete inputs: a signing of JWTs that meets
  \<open>jose_ok\<close> (the text of a token encodes its key and its payload), a user with a password, and a
  user who signed up with an account of a provider.
\<close>

instance json :: countable
  by countable_datatype

fun key_code :: "jwt_key \<Rightarrow> nat" where
  "key_code HsKey = 0" | "key_code EdKey = 1" | "key_code EmailKey = 2"

definition demo_uuid :: "nat \<Rightarrow> string" where
  "demo_uuid k = ''00000000-0000-0000-0000-00000000000'' @ [char_of (48 + k mod 10)]"

definition auth_demo :: auth_env where
  "auth_demo = \<lparr>zone = 0, platform_host = ''h'',
     new_uuid = demo_uuid,
     secret_bytes = (\<lambda>k. replicate (Suc k) (CHR ''s'')), salt_text = (\<lambda>k. ''salt''), sha512_hex = (\<lambda>s. s),
     pbkdf2_hex = (\<lambda>p s. p @ s), sha256_url = (\<lambda>s. s), sso_signature = (\<lambda>v. ''ab''),
     signJwt = (\<lambda>k v. replicate (to_nat (key_code k, v)) (CHR ''t'')),
     decodeJwt = (\<lambda>s. Some (snd (from_nat (length s) :: nat \<times> json))),
     jwtVerify = (\<lambda>k audience issuer t s. let (c, v) = (from_nat (length s) :: nat \<times> json) in
       if c = key_code k then jwt_check audience issuer t v else Inl JwtInvalid),
     email_keys = (True, True), json_size = (\<lambda>v. 0), date_text = (\<lambda>d. ''d''), date_of = (\<lambda>s. 600000),
     googleCallback = (\<lambda>code origin. Inr \<lparr>pu_id = code, pu_email = None, pu_name = None, pu_picture = None\<rparr>),
     googleAuthUrl = (\<lambda>origin. Inr origin), signup_setting = None\<rparr>"

lemma jwt_check_same: "jwt_check audience issuer t v = Inr w \<Longrightarrow> w = v"
  by (auto simp: jwt_check_def split: if_splits option.splits)

lemma jose_demo: "jose_ok auth_demo"
  by (auto simp: jose_ok_def auth_demo_def Let_def dest: jwt_check_same split: prod.splits if_splits)

lemma demo_fields: "zone auth_demo = 0" "new_uuid auth_demo = demo_uuid" "secret_bytes auth_demo k = replicate (Suc k) (CHR ''s'')"
  "sha512_hex auth_demo s = s" "pbkdf2_hex auth_demo p s = p @ s" "sso_signature auth_demo v = ''ab''" "date_of auth_demo s = 600000"
  by (simp_all add: auth_demo_def)

lemma demo_hashes: "fresh_hashes auth_demo"
  by (auto simp: fresh_hashes_def secret_hash_def auth_demo_def inj_def dest: arg_cong [of _ _ length])

definition alice :: user where
  "alice = \<lparr>usr_id = ''00000000-0000-0000-0000-00000000000a'', usr_isAdmin = False, usr_name = None, usr_username = ''Alice'',
     usr_email = Some ''a@x.io'', usr_emailVerified = False, usr_emailVerificationKey = None, usr_permissions = [],
     usr_passwordHash = Some ''pwsalt'', usr_passwordSalt = Some ''salt'', usr_createdAt = 0, usr_updatedAt = 0\<rparr>"

definition alice_db :: auth_db where "alice_db = empty_auth\<lparr>users := [alice]\<rparr>"

lemma guids: "is_guid ''00000000-0000-0000-0000-00000000000a''" "is_guid ''00000000-0000-0000-0000-000000000003''"
  "is_guid ''00000000-0000-0000-0000-000000000001''"
  by code_simp+

lemma demo_uuids: "demo_uuid 1 = ''00000000-0000-0000-0000-000000000001''" "demo_uuid 3 = ''00000000-0000-0000-0000-000000000003''"
  by code_simp+

lemmas demo_uuid_1 = demo_uuids(1) [unfolded One_nat_def]

lemma alice_found: "find (\<lambda>r. usr_id r = usr_id alice) (users alice_db) = Some alice"
  by (simp add: alice_db_def)

lemma alice_login: "login auth_demo 0 ''alice'' ''pw'' alice_db = (Inr (alice, first_tokens auth_demo 0 alice 0),
  alice_db\<lparr>randoms := 3, sessions := [session_row auth_demo 0 (usr_id alice) ''user'' None 0]\<rparr>)"
proof -
  have "login_row ''alice'' alice" by code_simp
  moreover have "verifyPassword auth_demo alice ''pw''"
    by (simp add: verifyPassword_def alice_def auth_demo_def nonempty_def)
  ultimately show ?thesis
    using session_created [OF jose_demo alice_found, of 0]
    by (simp add: login_def au_bind_def find_user_def au_require_def au_return_def alice_db_def empty_auth_def)
qed

theorem login_authenticates_witness:
  "alice \<in> set (users alice_db) \<and> login_row ''alice'' alice \<and> verifyPassword auth_demo alice ''pw''
   \<and> canActivate auth_demo 1000 [UserActor] (Some (''Bearer '' @ tok_access (first_tokens auth_demo 0 alice 0))) alice_db
     = (Inr (Some alice), alice_db)"
  by (rule login_authenticates [OF jose_demo alice_login _ alice_found]) (simp_all add: alice_def guids)

lemma alice_access: "tok_access (first_tokens auth_demo 0 alice 0) = signJwt auth_demo HsKey
  (session_claims auth_demo 0 (session_row auth_demo 0 (usr_id alice) ''user'' None 0) (new_uuid auth_demo 2))"
  by (simp add: first_tokens_def Let_def numeral_2_eq_2)

lemma alice_guard: "canActivate auth_demo 1000 [UserActor] (Some (''Bearer '' @ tok_access (first_tokens auth_demo 0 alice 0))) alice_db
  = (Inr (Some alice), alice_db)"
  unfolding alice_access by (rule user_token_accepted [OF jose_demo _ _ alice_found]) (simp_all add: alice_def guids session_row_def)

theorem guard_sound_witness:
  "\<exists>token. Some (''Bearer '' @ tok_access (first_tokens auth_demo 0 alice 0)) = Some (''Bearer '' @ token) \<and>
    ((UserActor \<in> set [UserActor] \<and> (\<exists>v. verifyUserJWT auth_demo 1000 token = Inr v \<and>
        (\<exists>rest. str_claim v ''sub'' = Some (''user:'' @ rest) \<and> usr_id alice = hd (split_on (CHR '':'') rest))))
     \<or> (AppUser \<in> set [UserActor] \<and> (\<exists>a s w x. verifyAppToken auth_demo 1000 token = Inr (AppUserActor a (usr_id alice) s w True x))))"
  using guard_sound [OF jose_demo alice_guard] by blast

lemma alice_session: "ses_id (tok_session (first_tokens auth_demo 0 alice 0)) = ''00000000-0000-0000-0000-000000000001''"
  "ses_createdAt (tok_session (first_tokens auth_demo 0 alice 0)) = 0"
  "ses_expiresAt (tok_session (first_tokens auth_demo 0 alice 0)) = sessionExpiresAt 0 0 0"
  by (simp_all add: first_tokens_def Let_def session_row_def demo_fields demo_uuid_1)

lemma first_lifetime: "sessionExpiresAt 0 0 0 = SessionSliding"
  by (simp add: sessionExpiresAt_def earliest_def addMs_def date_values)

definition other_calls :: "(int \<times> auth_call) list" where
  "other_calls = [(1, Login ''alice'' ''pw''), (2, UpdateViewer alice ''A''),
     (3, RevokeSession (session_row auth_demo 0 (usr_id alice) ''user'' None 7))]"

theorem login_refreshes_witness:
  "\<exists>u' t' db''. extendSessionWithRefreshToken auth_demo 5 (tok_refresh (first_tokens auth_demo 0 alice 0))
      (auth_run auth_demo 0 demo_env other_calls
        (alice_db\<lparr>randoms := 3, sessions := [session_row auth_demo 0 (usr_id alice) ''user'' None 0]\<rparr>)) = (Inr (u', t'), db'')
    \<and> usr_id u' = usr_id alice
    \<and> ses_id (tok_session t') = ses_id (tok_session (first_tokens auth_demo 0 alice 0)) \<and> ses_createdAt (tok_session t') = 0"
proof (rule login_refreshes [OF jose_demo alice_login])
  show "is_guid (ses_id (tok_session (first_tokens auth_demo 0 alice 0)))" by (simp add: alice_session guids)
  show "5 \<le> ses_expiresAt (tok_session (first_tokens auth_demo 0 alice 0))"
    by (simp add: alice_session first_lifetime SessionSliding_def)
  show "secret_bytes auth_demo (randoms alice_db) \<noteq> []"
    by (simp add: auth_demo_def alice_db_def empty_auth_def)
  have "demo_uuid 8 \<noteq> demo_uuid 1" by code_simp
  then show "list_all (\<lambda>c. spares (\<lambda>i. i = ses_id (tok_session (first_tokens auth_demo 0 alice 0))) (\<lambda>i. i = usr_id alice) (snd c))
      other_calls"
    by (simp add: other_calls_def first_tokens_def Let_def session_row_def demo_fields)
qed

text \<open>A sign-up with an account, on the empty tables.\<close>

definition account_1 :: provider_user where
  "account_1 = \<lparr>pu_id = ''1'', pu_email = None, pu_name = None, pu_picture = None\<rparr>"

definition signups :: "(int \<times> auth_call) list" where
  "signups = [(0, CompleteSSO ''bob'' ''google'' account_1 ''d'' ''ab'')]"

definition bob :: user where
  "bob = \<lparr>usr_id = new_uuid auth_demo 0, usr_isAdmin = False, usr_name = None, usr_username = ''bob'', usr_email = None,
     usr_emailVerified = False, usr_emailVerificationKey = None, usr_permissions = [], usr_passwordHash = None,
     usr_passwordSalt = None, usr_createdAt = 0, usr_updatedAt = 0\<rparr>"

definition bob_db :: auth_db where
  "bob_db = empty_auth\<lparr>users := [bob], identities := [\<lparr>idn_id = new_uuid auth_demo 1, idn_userId = usr_id bob,
     idn_provider = ''google'', idn_providerUserId = ''1'', idn_providerEmail = None, idn_providerName = None, idn_createdAt = 0\<rparr>],
     randoms := 2\<rparr>"

lemma bob_signup: "auth_run auth_demo 0 demo_env signups empty_auth =
  bob_db\<lparr>randoms := 5, sessions := [session_row auth_demo 0 (usr_id bob) ''user'' None 2]\<rparr>"
proof -
  have "valid_username ''bob''" by code_simp
  moreover have "createUserSession auth_demo 0 bob bob_db = (Inr (first_tokens auth_demo 0 bob 2),
      bob_db\<lparr>randoms := 5, sessions := [session_row auth_demo 0 (usr_id bob) ''user'' None 2]\<rparr>)"
    using session_created [OF jose_demo, of bob bob_db bob 0] by (simp add: bob_db_def empty_auth_def)
  ultimately show ?thesis
    by (simp add: signups_def completeSSOSignup_def au_bind_def au_require_def au_lift_def au_return_def verifySSOSignature_def
      usernameExists_def find_user_def au_random_def Let_def insert_user_def createIdentity_def insert_identity_def account_1_def
      bob_db_def bob_def empty_auth_def demo_fields nonempty_def numeral_2_eq_2)
qed

lemma bob_refresh: "\<exists>r db'. extendSessionWithRefreshToken auth_demo 5 (encode_token (new_uuid auth_demo 3) (secret_bytes auth_demo 2))
  (auth_run auth_demo 0 demo_env signups empty_auth) = (Inr r, db')"
proof -
  let ?s = "session_row auth_demo 0 (usr_id bob) ''user'' None 2"
  have id: "ses_id ?s = new_uuid auth_demo 3" by (simp add: session_row_def)
  have guid: "is_guid (ses_id ?s)" by (simp add: id demo_fields demo_uuids guids)
  have "5 \<le> ses_expiresAt ?s" using first_lifetime by (simp add: session_row_def demo_fields SessionSliding_def)
  then show ?thesis
    using session_refreshed [OF jose_demo guid, of "secret_bytes auth_demo 2" "bob_db\<lparr>randoms := 5, sessions := [?s]\<rparr>" "[]" "[]" 5 bob]
    unfolding bob_signup id by (auto simp: session_row_def secret_hash_def bob_db_def demo_fields)
qed

theorem refresh_single_use_witness:
  "\<exists>r db'. extendSessionWithRefreshToken auth_demo 5 (encode_token (new_uuid auth_demo 3) (secret_bytes auth_demo 2))
      (auth_run auth_demo 0 demo_env signups empty_auth) = (Inr r, db')
    \<and> extendSessionWithRefreshToken auth_demo 6 (encode_token (new_uuid auth_demo 3) (secret_bytes auth_demo 2))
      (auth_run auth_demo 0 demo_env [] db') = (Inl SessionInvalid, auth_run auth_demo 0 demo_env [] db')"
  using bob_refresh refresh_single_use [OF demo_hashes] by blast

theorem refresh_token_roundtrip_witness:
  "decodeRefreshToken (encode_token ''00000000-0000-0000-0000-00000000000a'' ''secret'') = Some (''00000000-0000-0000-0000-00000000000a'', ''secret'')"
  by (rule refresh_token_roundtrip [OF guids(1)]) simp

text \<open>A session of the first of January, refreshed two weeks later.\<close>

lemma january: "getDate 0 SessionAbsolute = 31"
  by (simp add: date_values)

theorem session_lifetime_witness:
  "\<exists>t db'. extendSession auth_demo 1209600000 (session_row auth_demo 0 (usr_id alice) ''user'' None 0)
      (alice_db\<lparr>randoms := 3, sessions := [session_row auth_demo 0 (usr_id alice) ''user'' None 0]\<rparr>) = (Inr t, db')
    \<and> ses_expiresAt (tok_session t) = 1209600000 + SessionSliding"
proof -
  let ?s = "session_row auth_demo 0 (usr_id alice) ''user'' None 0"
  let ?db = "alice_db\<lparr>randoms := 3, sessions := [?s]\<rparr>"
  have guid: "is_guid (ses_id ?s)" by (simp add: session_row_def demo_fields demo_uuid_1 guids)
  have "1209600000 \<le> ses_expiresAt ?s" using first_lifetime by (simp add: session_row_def demo_fields SessionSliding_def)
  then have "\<exists>t db'. extendSessionWithRefreshToken auth_demo 1209600000 (encode_token (ses_id ?s) (secret_bytes auth_demo 0)) ?db = (Inr (alice, t), db')"
    using session_refreshed [OF jose_demo guid, of "secret_bytes auth_demo 0" ?db "[]" "[]" 1209600000 alice] alice_found
    by (auto simp: session_row_def secret_hash_def demo_fields alice_db_def)
  then obtain t db' where t: "extendSession auth_demo 1209600000 ?s ?db = (Inr t, db')"
    by (auto simp: extendSessionWithRefreshToken_def verifySessionWithRefreshToken_def refresh_token_decoded [OF guid] au_bind_Inr au_results
      not_expired_def demo_fields split: option.splits if_splits)
  have "getDate (zone auth_demo) (ses_createdAt ?s + SessionAbsolute) = 31" using january by (simp add: demo_fields session_row_def)
  then show ?thesis using t session_lifetime [OF t] by blast
qed


end
