(* ===== verification/Folder_Listing.thy ===== *)
theory Folder_Listing
  imports Http
begin

text \<open>
  The listing of the objects of a folder, page by page (packages/api, folders/services/folder.service.ts,
  \<open>listFolderObjectsAsUser\<close>; core/utils/sort.util.ts): the order of the query, the keyset condition
  of a cursor, and the cursors of a page.  The order of texts (the collation of the database), the
  pattern match of a search and the coding of a cursor are parameters; dates are milliseconds.
\<close>

section \<open>Objects\<close>

record folder_object =
  obj_id :: string
  obj_folderId :: string
  obj_objectKey :: string
  obj_filename :: string
  obj_eTag :: string
  obj_sizeBytes :: int
  obj_lastModified :: int
  obj_hash :: "string option"
  obj_mimeType :: string
  obj_mediaType :: string
  obj_contentMetadata :: json
  obj_createdAt :: int
  obj_updatedAt :: int

section \<open>Sorting\<close>

datatype obj_column = SizeBytes | Filename | ObjectKey | CreatedAt | UpdatedAt
datatype sort_dir = Asc | Desc
datatype col_value = NumCol int | TextCol string

type_synonym obj_sort = "obj_column \<times> sort_dir"

fun column_value :: "obj_column \<Rightarrow> folder_object \<Rightarrow> col_value" where
  "column_value SizeBytes x = NumCol (obj_sizeBytes x)"
| "column_value Filename x = TextCol (obj_filename x)"
| "column_value ObjectKey x = TextCol (obj_objectKey x)"
| "column_value CreatedAt x = NumCol (obj_createdAt x)"
| "column_value UpdatedAt x = NumCol (obj_updatedAt x)"

datatype page_direction = NextPage | PreviousPage

record object_cursor =
  cur_lastId :: string
  cur_keys :: "(obj_column \<times> col_value) list"
  cur_direction :: page_direction

text \<open>\<open>text_less\<close> is the collation, \<open>ilike\<close> the pattern match; \<open>cursor_text\<close> and \<open>cursor_value\<close> are the
  coding of a cursor, whose reading may fail.\<close>

record listing_env =
  text_less :: "string \<Rightarrow> string \<Rightarrow> bool"
  ilike :: "string \<Rightarrow> string \<Rightarrow> bool"
  cursor_text :: "object_cursor \<Rightarrow> string"
  cursor_value :: "string \<Rightarrow> object_cursor option"

fun value_less :: "listing_env \<Rightarrow> col_value \<Rightarrow> col_value \<Rightarrow> bool" where
  "value_less env (NumCol a) (NumCol b) \<longleftrightarrow> a < b"
| "value_less env (TextCol a) (TextCol b) \<longleftrightarrow> text_less env a b"
| "value_less env _ _ \<longleftrightarrow> False"

text \<open>Ids are compared byte by byte, as UUIDs are.\<close>

fun id_less :: "string \<Rightarrow> string \<Rightarrow> bool" where
  "id_less [] [] \<longleftrightarrow> False"
| "id_less [] (b # bs) \<longleftrightarrow> True"
| "id_less (a # as) [] \<longleftrightarrow> False"
| "id_less (a # as) (b # bs) \<longleftrightarrow> (of_char a :: nat) < of_char b \<or> a = b \<and> id_less as bs"

text \<open>One term of the order: whether \<open>v\<close> comes after \<open>w\<close>.\<close>

fun flip_dir :: "sort_dir \<Rightarrow> sort_dir" where
  "flip_dir Asc = Desc" | "flip_dir Desc = Asc"

fun comes_after :: "listing_env \<Rightarrow> sort_dir \<Rightarrow> col_value \<Rightarrow> col_value \<Rightarrow> bool" where
  "comes_after env Asc v w \<longleftrightarrow> value_less env w v"
| "comes_after env Desc v w \<longleftrightarrow> value_less env v w"

fun id_after :: "sort_dir \<Rightarrow> string \<Rightarrow> string \<Rightarrow> bool" where
  "id_after Asc i j \<longleftrightarrow> id_less j i"
| "id_after Desc i j \<longleftrightarrow> id_less i j"

text \<open>\<open>orderBy\<close>: the columns of the sort, then the id in a direction of its own.\<close>

primrec row_before :: "listing_env \<Rightarrow> obj_sort list \<Rightarrow> sort_dir \<Rightarrow> folder_object \<Rightarrow> folder_object \<Rightarrow> bool" where
  "row_before env [] d x y \<longleftrightarrow> id_after d (obj_id y) (obj_id x)"
| "row_before env (s # ss) d x y \<longleftrightarrow>
     comes_after env (snd s) (column_value (fst s) y) (column_value (fst s) x)
     \<or> column_value (fst s) x = column_value (fst s) y \<and> row_before env ss d x y"

primrec place :: "('a \<Rightarrow> 'a \<Rightarrow> bool) \<Rightarrow> 'a \<Rightarrow> 'a list \<Rightarrow> 'a list" where
  "place before x [] = [x]"
| "place before x (y # ys) = (if before y x then y # place before x ys else x # y # ys)"

definition sort_rows :: "('a \<Rightarrow> 'a \<Rightarrow> bool) \<Rightarrow> 'a list \<Rightarrow> 'a list" where
  "sort_rows before xs = foldr (place before) xs []"

section \<open>Cursors\<close>

text \<open>The keyset condition, from the last column to the first; a column without a key is left out.\<close>

primrec keyset_chain :: "listing_env \<Rightarrow> object_cursor \<Rightarrow> bool \<Rightarrow> obj_sort list \<Rightarrow> (folder_object \<Rightarrow> bool) option" where
  "keyset_chain env c isNext [] = None"
| "keyset_chain env c isNext (s # ss) =
     (let d = if isNext then snd s else flip_dir (snd s); rest = keyset_chain env c isNext ss in
      case map_of (cur_keys c) (fst s) of
        None \<Rightarrow> rest
      | Some v \<Rightarrow> Some (\<lambda>x. comes_after env d (column_value (fst s) x) v
          \<or> column_value (fst s) x = v \<and>
            (case rest of None \<Rightarrow> id_after (if isNext then Asc else Desc) (obj_id x) (cur_lastId c)
             | Some r \<Rightarrow> r x)))"

definition keyset_where :: "listing_env \<Rightarrow> object_cursor \<Rightarrow> bool \<Rightarrow> obj_sort list \<Rightarrow> folder_object \<Rightarrow> bool" where
  "keyset_where env c isNext sorts = (case keyset_chain env c isNext sorts of
     None \<Rightarrow> (\<lambda>x. id_after (if isNext then Asc else Desc) (obj_id x) (cur_lastId c))
   | Some p \<Rightarrow> p)"

definition row_cursor :: "obj_sort list \<Rightarrow> page_direction \<Rightarrow> folder_object \<Rightarrow> object_cursor" where
  "row_cursor sorts d x = \<lparr>cur_lastId = obj_id x, cur_keys = map (\<lambda>s. (fst s, column_value (fst s) x)) sorts, cur_direction = d\<rparr>"

text \<open>The condition that counts the rows before the first one of a page.\<close>

definition before_first :: "listing_env \<Rightarrow> obj_sort list \<Rightarrow> folder_object \<Rightarrow> folder_object \<Rightarrow> bool" where
  "before_first env sorts first x \<longleftrightarrow>
     list_ex (\<lambda>i. comes_after env (snd (sorts ! i)) (column_value (fst (sorts ! i)) first) (column_value (fst (sorts ! i)) x)
       \<and> list_all (\<lambda>s. column_value (fst s) x = column_value (fst s) first) (take i sorts)) [0..<length sorts]
     \<or> list_all (\<lambda>s. column_value (fst s) x = column_value (fst s) first) sorts \<and> id_less (obj_id x) (obj_id first)"

section \<open>Pages\<close>

record object_page =
  page_result :: "folder_object list"
  page_totalCount :: nat
  page_nextCursor :: "string option"
  page_previousCursor :: "string option"

record object_query =
  q_search :: "string option"
  q_cursor :: "string option"
  q_offset :: nat
  q_limit :: nat
  q_sort :: "obj_sort list"
  q_media :: "string list"

text \<open>\<open>where\<close>: the folder, the search and the media types.\<close>

definition object_where :: "listing_env \<Rightarrow> string \<Rightarrow> object_query \<Rightarrow> folder_object \<Rightarrow> bool" where
  "object_where env folderId q x \<longleftrightarrow> obj_folderId x = folderId
     \<and> (case q_search q of None \<Rightarrow> True | Some s \<Rightarrow> s = [] \<or> ilike env (obj_objectKey x) (CHR ''%'' # s @ ''%''))
     \<and> (q_media q = [] \<or> obj_mediaType x \<in> set (q_media q))"

definition page_cursor :: "listing_env \<Rightarrow> object_query \<Rightarrow> object_cursor option" where
  "page_cursor env q = (case q_cursor q of None \<Rightarrow> None | Some t \<Rightarrow> if t = [] then None else cursor_value env t)"

definition fetched_rows :: "listing_env \<Rightarrow> string \<Rightarrow> object_query \<Rightarrow> folder_object list \<Rightarrow> folder_object list" where
  "fetched_rows env folderId q rows =
     (let cursor = page_cursor env q;
          isNext = (case cursor of None \<Rightarrow> True | Some c \<Rightarrow> cur_direction c \<noteq> PreviousPage);
          sorts = (if isNext then q_sort q else map (\<lambda>s. (fst s, flip_dir (snd s))) (q_sort q));
          keyset = (case cursor of None \<Rightarrow> (\<lambda>x. True) | Some c \<Rightarrow> keyset_where env c isNext (q_sort q));
          offset = (case q_cursor q of Some (t # ts) \<Rightarrow> 0 | _ \<Rightarrow> q_offset q)
      in take (Suc (q_limit q)) (drop offset (sort_rows (row_before env sorts (if isNext then Asc else Desc))
           (filter (\<lambda>x. object_where env folderId q x \<and> keyset x) rows))))"

text \<open>\<open>listFolderObjectsAsUser\<close>, once the folder was found; a limit of zero would read a row of an empty page.\<close>

definition listFolderObjects :: "listing_env \<Rightarrow> string \<Rightarrow> object_query \<Rightarrow> folder_object list \<Rightarrow> object_page option" where
  "listFolderObjects env folderId q rows =
     (let cursor = page_cursor env q;
          isNext = (case cursor of None \<Rightarrow> True | Some c \<Rightarrow> cur_direction c \<noteq> PreviousPage);
          fetched = fetched_rows env folderId q rows;
          page = take (q_limit q) (if isNext then fetched else rev fetched);
          found = filter (object_where env folderId q) rows
      in if q_limit q < length fetched \<and> page = [] then None
         else Some \<lparr>page_result = page, page_totalCount = length found,
           page_nextCursor = (if q_limit q < length fetched
             then Some (cursor_text env (row_cursor (q_sort q) NextPage (last page))) else None),
           page_previousCursor = (case page of [] \<Rightarrow> None
             | x # xs \<Rightarrow> if filter (before_first env (q_sort q) x) found = [] then None
                         else Some (cursor_text env (row_cursor (q_sort q) PreviousPage x)))\<rparr>)"

text \<open>A client that follows the next cursors.\<close>

primrec follow_pages :: "listing_env \<Rightarrow> string \<Rightarrow> nat \<Rightarrow> object_query \<Rightarrow> folder_object list \<Rightarrow> folder_object list" where
  "follow_pages env folderId 0 q rows = []"
| "follow_pages env folderId (Suc n) q rows = (case listFolderObjects env folderId q rows of
     None \<Rightarrow> []
   | Some p \<Rightarrow> page_result p @ (case page_nextCursor p of None \<Rightarrow> []
       | Some c \<Rightarrow> follow_pages env folderId n (q\<lparr>q_cursor := Some c\<rparr>) rows))"

end
