(* ===== verification/Folder_Pages.thy ===== *)
theory Folder_Pages
  imports Folder_Listing "HOL-Library.Multiset"
begin

text \<open>
  What the pages of a listing hold: following the next cursors lists every object once and in order
  (\<open>pages_complete\<close>), and a previous cursor leads to a page that leaves out the row next to the one it
  was made of (\<open>previous_page_skips\<close>).
\<close>

section \<open>Sorting by a strict order\<close>

definition total_rows :: "('a \<Rightarrow> 'a \<Rightarrow> bool) \<Rightarrow> 'a list \<Rightarrow> bool" where
  "total_rows before xs \<longleftrightarrow> distinct xs \<and> (\<forall>x\<in>set xs. \<forall>y\<in>set xs. x = y \<or> before x y \<or> before y x)"

locale row_order =
  fixes before :: "'a \<Rightarrow> 'a \<Rightarrow> bool"
  assumes before_irrefl: "\<not> before x x"
    and before_trans: "before x y \<Longrightarrow> before y z \<Longrightarrow> before x z"
begin

lemma place_mset: "mset (place before x ys) = add_mset x (mset ys)"
  by (induction ys) simp_all

lemma sort_mset: "mset (sort_rows before xs) = mset xs"
  by (induction xs) (simp_all add: sort_rows_def place_mset)

lemma sort_set: "set (sort_rows before xs) = set xs"
  using sort_mset [of xs] by (metis set_mset_mset)

lemma place_set: "set (place before x ys) = insert x (set ys)"
  by (induction ys) auto

lemma place_sorted:
  "sorted_wrt before ys \<Longrightarrow> (\<And>y. y \<in> set ys \<Longrightarrow> before x y \<or> before y x) \<Longrightarrow> sorted_wrt before (place before x ys)"
proof (induction ys)
  case (Cons y ys)
  show ?case
  proof (cases "before y x")
    case True
    then show ?thesis using Cons by (auto simp: place_set)
  next
    case False
    then have "before x y" using Cons.prems(2) by auto
    then show ?thesis using False Cons.prems(1) by (auto intro: before_trans)
  qed
qed simp

lemma sort_sorted: "total_rows before xs \<Longrightarrow> sorted_wrt before (sort_rows before xs)"
proof (induction xs)
  case (Cons x xs)
  have "sorted_wrt before (sort_rows before xs)" using Cons by (simp add: total_rows_def)
  moreover have "before x y \<or> before y x" if "y \<in> set (sort_rows before xs)" for y
    using that Cons.prems by (auto simp: total_rows_def sort_set)
  ultimately show ?case by (simp add: sort_rows_def place_sorted)
qed (simp add: sort_rows_def)

lemma sorted_unique: "sorted_wrt before xs \<Longrightarrow> sorted_wrt before ys \<Longrightarrow> set xs = set ys \<Longrightarrow> xs = ys"
proof (induction xs arbitrary: ys)
  case (Cons x xs)
  then obtain y zs where ys: "ys = y # zs" by (cases ys) auto
  have xy: "x = y"
  proof (rule ccontr)
    assume "x \<noteq> y"
    then have "before x y" "before y x" using Cons.prems by (auto simp: ys)
    then show False using before_trans before_irrefl by blast
  qed
  have "x \<notin> set xs" "y \<notin> set zs" using Cons.prems before_irrefl by (auto simp: ys)
  then have "set xs = set zs" using Cons.prems(3) xy by (auto simp: ys)
  then show ?case using Cons by (simp add: ys xy)
qed simp

lemma total_filter: "total_rows before xs \<Longrightarrow> total_rows before (filter p xs)"
  by (simp add: total_rows_def)

lemma sort_filter: "total_rows before xs \<Longrightarrow> sort_rows before (filter p xs) = filter p (sort_rows before xs)"
  by (rule sorted_unique) (simp_all add: sort_sorted total_filter sorted_wrt_filter sort_set)

lemma sort_converse: "total_rows before xs \<Longrightarrow> sorted_wrt (\<lambda>x y. before y x) ys \<Longrightarrow> set ys = set xs \<Longrightarrow> ys = rev (sort_rows before xs)"
  by (metis rev_rev_ident set_rev sort_set sort_sorted sorted_unique sorted_wrt_rev)

text \<open>The rows after one row, and those before it.\<close>

lemma after_row:
  assumes "sorted_wrt before xs" and "k < length xs"
  shows "filter (before (xs ! k)) xs = drop (Suc k) xs" and "filter (\<lambda>y. before y (xs ! k)) xs = take k xs"
proof -
  have split: "xs = take k xs @ xs ! k # drop (Suc k) xs" using assms(2) by (rule id_take_nth_drop)
  have "sorted_wrt before (take k xs @ xs ! k # drop (Suc k) xs)" using assms(1) split by simp
  then have ord: "\<forall>x\<in>set (take k xs). before x (xs ! k)" "\<forall>x\<in>set (drop (Suc k) xs). before (xs ! k) x"
    by (simp_all add: sorted_wrt_append)
  have no: "\<not> before (xs ! k) x" if "x \<in> set (take k xs)" for x
    using that ord(1) before_trans before_irrefl by blast
  have no': "\<not> before x (xs ! k)" if "x \<in> set (drop (Suc k) xs)" for x
    using that ord(2) before_trans before_irrefl by blast
  have "filter (before (xs ! k)) (take k xs @ xs ! k # drop (Suc k) xs) = drop (Suc k) xs"
    using ord(2) no before_irrefl by (simp add: filter_empty_conv filter_id_conv)
  then show "filter (before (xs ! k)) xs = drop (Suc k) xs" using split by simp
  have "filter (\<lambda>y. before y (xs ! k)) (take k xs @ xs ! k # drop (Suc k) xs) = take k xs"
    using ord(1) no' before_irrefl by (simp add: filter_empty_conv filter_id_conv)
  then show "filter (\<lambda>y. before y (xs ! k)) xs = take k xs" using split by simp
qed

end

section \<open>The order of the rows\<close>

definition collation_ok :: "listing_env \<Rightarrow> bool" where
  "collation_ok env \<longleftrightarrow> (\<forall>a. \<not> text_less env a a) \<and> (\<forall>a b c. text_less env a b \<longrightarrow> text_less env b c \<longrightarrow> text_less env a c)
     \<and> (\<forall>a b. a \<noteq> b \<longrightarrow> text_less env a b \<or> text_less env b a)"

definition codec_ok :: "listing_env \<Rightarrow> bool" where
  "codec_ok env \<longleftrightarrow> (\<forall>c. cursor_text env c \<noteq> [] \<and> cursor_value env (cursor_text env c) = Some c)"

lemma id_less_irrefl: "\<not> id_less a a"
  by (induction a) simp_all

lemma id_less_trans: "id_less a b \<Longrightarrow> id_less b c \<Longrightarrow> id_less a c"
proof (induction a b arbitrary: c rule: id_less.induct)
  case (2 b bs)
  then show ?case by (cases c) simp_all
next
  case (4 a as b bs)
  then show ?case by (cases c) auto
qed simp_all

lemma id_less_total: "a \<noteq> b \<Longrightarrow> id_less a b \<or> id_less b a"
  by (induction a b rule: id_less.induct) (auto simp: linorder_neq_iff)

interpretation ids: row_order id_less
  by unfold_locales (auto simp: id_less_irrefl intro: id_less_trans)

lemma value_less_irrefl: "collation_ok env \<Longrightarrow> \<not> value_less env v v"
  by (cases v) (simp_all add: collation_ok_def)

lemma value_less_trans: "collation_ok env \<Longrightarrow> value_less env u v \<Longrightarrow> value_less env v w \<Longrightarrow> value_less env u w"
  unfolding collation_ok_def by (cases u; cases v; cases w) (auto intro: less_trans)

lemma column_total:
  "collation_ok env \<Longrightarrow> column_value s x \<noteq> column_value s y \<Longrightarrow>
   value_less env (column_value s x) (column_value s y) \<or> value_less env (column_value s y) (column_value s x)"
  by (cases s) (auto simp: collation_ok_def)

lemma after_irrefl: "collation_ok env \<Longrightarrow> \<not> comes_after env d v v"
  by (cases d) (simp_all add: value_less_irrefl)

lemma after_trans: "collation_ok env \<Longrightarrow> comes_after env d u v \<Longrightarrow> comes_after env d v w \<Longrightarrow> comes_after env d u w"
  by (cases d) (auto intro: value_less_trans)

lemma after_total:
  "collation_ok env \<Longrightarrow> column_value s x \<noteq> column_value s y \<Longrightarrow>
   comes_after env d (column_value s x) (column_value s y) \<or> comes_after env d (column_value s y) (column_value s x)"
  using column_total [of env s x y] by (cases d) auto

lemma row_before_irrefl: "collation_ok env \<Longrightarrow> \<not> row_before env ss d x x"
  by (induction ss) (simp, cases d, simp_all add: id_less_irrefl after_irrefl)

lemma row_before_trans:
  "collation_ok env \<Longrightarrow> row_before env ss d x y \<Longrightarrow> row_before env ss d y z \<Longrightarrow> row_before env ss d x z"
proof (induction ss)
  case Nil
  then show ?case by (cases d) (auto intro: id_less_trans)
next
  case (Cons s ss)
  then show ?case by (auto intro: after_trans)
qed

lemma row_before_total: "collation_ok env \<Longrightarrow> obj_id x \<noteq> obj_id y \<Longrightarrow> row_before env ss d x y \<or> row_before env ss d y x"
proof (induction ss)
  case Nil
  then show ?case using id_less_total [of "obj_id x" "obj_id y"] by (cases d) auto
next
  case (Cons s ss)
  show ?case
  proof (cases "column_value (fst s) x = column_value (fst s) y")
    case True
    then show ?thesis using Cons by auto
  next
    case False
    then show ?thesis using after_total [OF Cons.prems(1) False, of "snd s"] by auto
  qed
qed

definition flipped :: "obj_sort list \<Rightarrow> obj_sort list" where
  "flipped = map (\<lambda>s. (fst s, flip_dir (snd s)))"

lemma after_flip: "comes_after env (flip_dir d) v w \<longleftrightarrow> comes_after env d w v"
  by (cases d) simp_all

lemma row_before_flipped: "row_before env (flipped ss) Desc x y \<longleftrightarrow> row_before env ss Asc y x"
  by (induction ss) (auto simp: flipped_def after_flip)

lemma flipped_order: "row_before env (flipped ss) Desc = (\<lambda>x y. row_before env ss Asc y x)"
  by (simp add: fun_eq_iff row_before_flipped)

section \<open>The condition of a cursor\<close>

lemma cursor_key: "s \<in> set ss \<Longrightarrow> map_of (map (\<lambda>s. (fst s, column_value (fst s) x)) ss) (fst s) = Some (column_value (fst s) x)"
  by (induction ss) auto

lemma keyset_keys:
  assumes "\<And>s. s \<in> set ss \<Longrightarrow> map_of (cur_keys c) (fst s) = Some (column_value (fst s) l)" and "cur_lastId c = obj_id l" and "ss \<noteq> []"
  shows "keyset_chain env c isNext ss = Some (\<lambda>x. if isNext then row_before env ss Asc l x else row_before env ss Asc x l)"
  using assms
proof (induction ss)
  case (Cons s ss)
  have key: "map_of (cur_keys c) (fst s) = Some (column_value (fst s) l)" using Cons.prems(1) by simp
  show ?case
  proof (cases "ss = []")
    case True
    then show ?thesis using key Cons.prems(2) by (cases isNext) (auto simp: fun_eq_iff after_flip)
  next
    case False
    then have "keyset_chain env c isNext ss = Some (\<lambda>x. if isNext then row_before env ss Asc l x else row_before env ss Asc x l)"
      using Cons by simp
    then show ?thesis using key by (cases isNext) (auto simp: fun_eq_iff after_flip)
  qed
qed simp

lemma keyset_row: "keyset_where env (row_cursor ss d l) isNext ss x \<longleftrightarrow>
    (if isNext then row_before env ss Asc l x else row_before env ss Asc x l)"
proof (cases "ss = []")
  case False
  have "keyset_chain env (row_cursor ss d l) isNext ss = Some (\<lambda>x. if isNext then row_before env ss Asc l x else row_before env ss Asc x l)"
    by (rule keyset_keys) (simp_all add: row_cursor_def cursor_key False)
  then show ?thesis by (simp add: keyset_where_def)
qed (simp add: keyset_where_def row_cursor_def)

lemma first_index: "list_ex p [0..<Suc n] \<longleftrightarrow> p 0 \<or> list_ex (\<lambda>i. p (Suc i)) [0..<n]"
  by (simp add: list_ex_iff Bex_def Ex_less_Suc2 del: upt_Suc)

lemma before_first_row: "before_first env ss first x \<longleftrightarrow> row_before env ss Asc x first"
proof (induction ss)
  case (Cons s ss)
  have "before_first env (s # ss) first x \<longleftrightarrow>
      comes_after env (snd s) (column_value (fst s) first) (column_value (fst s) x)
      \<or> column_value (fst s) x = column_value (fst s) first \<and> before_first env ss first x"
    unfolding before_first_def list.size(4) add_Suc_right add_0_right first_index
    by (cases "column_value (fst s) x = column_value (fst s) first") (simp_all add: list_ex_iff)
  then show ?case using Cons by simp
qed (simp add: before_first_def)

section \<open>Pages\<close>

lemma rows_order: "collation_ok env \<Longrightarrow> row_order (row_before env ss d)"
  by unfold_locales (auto simp: row_before_irrefl intro: row_before_trans)

lemma distinct_rows: "collation_ok env \<Longrightarrow> distinct (map obj_id rows) \<Longrightarrow> total_rows (row_before env ss d) rows"
  unfolding total_rows_def distinct_map inj_on_def by (metis row_before_total)

text \<open>The rows of a listing in their order.\<close>

definition sorted_rows :: "listing_env \<Rightarrow> string \<Rightarrow> object_query \<Rightarrow> folder_object list \<Rightarrow> folder_object list" where
  "sorted_rows env f q rows = sort_rows (row_before env (q_sort q) Asc) (filter (object_where env f q) rows)"

lemma cursor_direction: "cur_direction (row_cursor ss d x) = d"
  by (simp add: row_cursor_def)

lemma first_fetch:
  "q_cursor q = None \<Longrightarrow> fetched_rows env f q rows = take (Suc (q_limit q)) (drop (q_offset q) (sorted_rows env f q rows))"
  by (simp add: fetched_rows_def page_cursor_def sorted_rows_def)

lemma where_cursor: "object_where env f (q\<lparr>q_cursor := c\<rparr>) = object_where env f q"
  by (simp add: object_where_def fun_eq_iff)

lemma cursor_fetch:
  assumes "collation_ok env" and "codec_ok env" and "distinct (map obj_id rows)"
    and "k < length (sorted_rows env f q rows)" and "x = sorted_rows env f q rows ! k"
  shows "fetched_rows env f (q\<lparr>q_cursor := Some (cursor_text env (row_cursor (q_sort q) NextPage x))\<rparr>) rows
      = take (Suc (q_limit q)) (drop (Suc k) (sorted_rows env f q rows))"
    and "fetched_rows env f (q\<lparr>q_cursor := Some (cursor_text env (row_cursor (q_sort q) PreviousPage x))\<rparr>) rows
      = take (Suc (q_limit q)) (rev (take k (sorted_rows env f q rows)))"
proof -
  let ?B = "row_before env (q_sort q) Asc" and ?B' = "row_before env (flipped (q_sort q)) Desc"
  let ?found = "filter (object_where env f q) rows"
  have total: "total_rows ?B ?found" "total_rows ?B' ?found"
    using distinct_rows [OF assms(1, 3)] by (simp_all add: total_rows_def)
  have sorted: "sorted_wrt ?B (sorted_rows env f q rows)"
    unfolding sorted_rows_def by (rule row_order.sort_sorted [OF rows_order [OF assms(1)] total(1)])
  have read: "page_cursor env (q\<lparr>q_cursor := Some (cursor_text env c)\<rparr>) = Some c" for c
    using assms(2) by (simp add: page_cursor_def codec_ok_def)
  have some: "cursor_text env c \<noteq> []" for c using assms(2) by (simp add: codec_ok_def)
  have offset: "(case Some (cursor_text env c) of Some (t # ts) \<Rightarrow> 0 | _ \<Rightarrow> n) = (0 :: nat)" for c n
    using some [of c] by (cases "cursor_text env c") simp_all
  have next_rows: "filter (?B x) (sorted_rows env f q rows) = drop (Suc k) (sorted_rows env f q rows)"
    and previous_rows: "filter (\<lambda>y. ?B y x) (sorted_rows env f q rows) = take k (sorted_rows env f q rows)"
    using row_order.after_row [OF rows_order [OF assms(1)] sorted assms(4)] unfolding assms(5) by auto
  have "sort_rows ?B (filter (?B x) ?found) = drop (Suc k) (sorted_rows env f q rows)"
    unfolding next_rows [symmetric] unfolding sorted_rows_def by (rule row_order.sort_filter [OF rows_order [OF assms(1)] total(1)])
  then show "fetched_rows env f (q\<lparr>q_cursor := Some (cursor_text env (row_cursor (q_sort q) NextPage x))\<rparr>) rows
      = take (Suc (q_limit q)) (drop (Suc k) (sorted_rows env f q rows))"
    unfolding fetched_rows_def read Let_def
    by (simp add: offset [simplified] where_cursor keyset_row cursor_direction)
  have "sort_rows ?B' (filter (\<lambda>y. ?B y x) ?found) = rev (take k (sorted_rows env f q rows))"
  proof -
    have found: "total_rows ?B' (filter (\<lambda>y. ?B y x) ?found)" "total_rows ?B (filter (\<lambda>y. ?B y x) ?found)"
      by (rule row_order.total_filter [OF rows_order [OF assms(1)]], rule total)+
    have "sorted_wrt (\<lambda>y z. ?B z y) (sort_rows ?B' (filter (\<lambda>y. ?B y x) ?found))"
      using row_order.sort_sorted [OF rows_order [OF assms(1)] found(1)] by (simp only: flipped_order)
    then have "sort_rows ?B' (filter (\<lambda>y. ?B y x) ?found) = rev (sort_rows ?B (filter (\<lambda>y. ?B y x) ?found))"
      by (rule row_order.sort_converse [OF rows_order [OF assms(1)] found(2)])
        (simp only: row_order.sort_set [OF rows_order [OF assms(1)]])
    also have "sort_rows ?B (filter (\<lambda>y. ?B y x) ?found) = take k (sorted_rows env f q rows)"
      unfolding previous_rows [symmetric] unfolding sorted_rows_def by (rule row_order.sort_filter [OF rows_order [OF assms(1)] total(1)])
    finally show ?thesis .
  qed
  then show "fetched_rows env f (q\<lparr>q_cursor := Some (cursor_text env (row_cursor (q_sort q) PreviousPage x))\<rparr>) rows
      = take (Suc (q_limit q)) (rev (take k (sorted_rows env f q rows)))"
    unfolding fetched_rows_def read Let_def
    by (simp add: offset [simplified] where_cursor keyset_row cursor_direction flipped_def)
qed

lemma previous_cursor_exact:
  assumes "listFolderObjects env f q rows = Some p" and "page_result p = x # xs"
  shows "page_previousCursor p \<noteq> None \<longleftrightarrow> (\<exists>y\<in>set rows. object_where env f q y \<and> row_before env (q_sort q) Asc y x)"
  using assms by (auto simp: listFolderObjects_def Let_def before_first_row filter_empty_conv split: if_splits)

text \<open>A page after the row \<open>k\<close>, and its cursor.\<close>

lemma page_after:
  assumes fetch: "fetched_rows env f q rows = take (Suc (q_limit q)) xs" and "0 < q_limit q"
    and "\<And>c. page_cursor env q = Some c \<Longrightarrow> cur_direction c = NextPage"
  shows "\<exists>p. listFolderObjects env f q rows = Some p \<and> page_result p = take (q_limit q) xs
    \<and> page_nextCursor p = (if q_limit q < length xs
      then Some (cursor_text env (row_cursor (q_sort q) NextPage (xs ! (q_limit q - 1)))) else None)"
proof -
  have dir: "(case page_cursor env q of None \<Rightarrow> True | Some c \<Rightarrow> cur_direction c \<noteq> PreviousPage) = True"
    using assms(3) by (auto split: option.split)
  have last: "last (take (q_limit q) xs) = xs ! (q_limit q - 1)" if "q_limit q < length xs"
    using that assms(2) by (subst last_conv_nth) (auto simp: min_def)
  have more: "q_limit q < length (take (Suc (q_limit q)) xs) \<longleftrightarrow> q_limit q < length xs" by auto
  have page: "take (q_limit q) (take (Suc (q_limit q)) xs) = take (q_limit q) xs" by simp
  have nonempty: "\<not> (q_limit q < length xs \<and> take (q_limit q) xs = [])" using assms(2) by auto
  show ?thesis
    unfolding listFolderObjects_def Let_def fetch dir more page if_True using nonempty last by simp
qed

lemma sorted_cursor: "sorted_rows env f (q\<lparr>q_cursor := c\<rparr>) rows = sorted_rows env f q rows"
  by (simp add: sorted_rows_def where_cursor)

lemma follow_after:
  assumes "collation_ok env" and "codec_ok env" and "distinct (map obj_id rows)" and "0 < q_limit q"
    and "k < length (sorted_rows env f q rows)" and "length (sorted_rows env f q rows) - Suc k < n"
    and "q_cursor q = Some (cursor_text env (row_cursor (q_sort q) NextPage (sorted_rows env f q rows ! k)))"
  shows "follow_pages env f n q rows = drop (Suc k) (sorted_rows env f q rows)"
  using assms(4-)
proof (induction n arbitrary: q k)
  case (Suc n)
  define S where "S = sorted_rows env f q rows"
  have same: "q\<lparr>q_cursor := Some (cursor_text env (row_cursor (q_sort q) NextPage (S ! k)))\<rparr> = q"
    using Suc.prems(4) by (simp add: S_def)
  have fetch: "fetched_rows env f q rows = take (Suc (q_limit q)) (drop (Suc k) S)"
    using cursor_fetch(1) [OF assms(1-3) Suc.prems(2) refl] unfolding S_def [symmetric] same .
  have "page_cursor env q = Some (row_cursor (q_sort q) NextPage (S ! k))"
    using Suc.prems(4) assms(2) by (simp add: page_cursor_def codec_ok_def S_def)
  then obtain p where p: "listFolderObjects env f q rows = Some p" "page_result p = take (q_limit q) (drop (Suc k) S)"
    "page_nextCursor p = (if q_limit q < length (drop (Suc k) S)
      then Some (cursor_text env (row_cursor (q_sort q) NextPage (drop (Suc k) S ! (q_limit q - 1)))) else None)"
    using page_after [OF fetch Suc.prems(1)] by (auto simp: cursor_direction)
  show ?case
  proof (cases "q_limit q < length (drop (Suc k) S)")
    case True
    let ?q = "q\<lparr>q_cursor := Some (cursor_text env (row_cursor (q_sort q) NextPage (S ! (k + q_limit q))))\<rparr>"
    have "drop (Suc k) S ! (q_limit q - 1) = S ! (k + q_limit q)" using True Suc.prems(1) by simp
    moreover have "follow_pages env f n ?q rows = drop (Suc (k + q_limit q)) S"
      using Suc.IH [of ?q "k + q_limit q"] Suc.prems(1, 3) True by (simp add: sorted_cursor S_def)
    ultimately have "follow_pages env f (Suc n) q rows = take (q_limit q) (drop (Suc k) S) @ drop (Suc (k + q_limit q)) S"
      using p True by simp
    also have "\<dots> = drop (Suc k) S" by (metis add.commute add_Suc_right append_take_drop_id drop_drop)
    finally show ?thesis by (simp add: S_def)
  next
    case False
    then show ?thesis using p by (simp add: S_def)
  qed
qed simp

text \<open>C14: Following the next cursors of a listing gives every object of the folder that matches the query
  exactly once, in the order of the sort (ties in the order of the ids), whatever the sort columns and
  their directions and however many objects share the same values.\<close>

theorem pages_complete:
  assumes "collation_ok env" and "codec_ok env" and "distinct (map obj_id rows)" and "0 < q_limit q"
    and "q_cursor q = None" and "q_offset q = 0" and "length rows < n"
  shows "follow_pages env f n q rows = sorted_rows env f q rows
    \<and> mset (follow_pages env f n q rows) = mset (filter (object_where env f q) rows)
    \<and> sorted_wrt (row_before env (q_sort q) Asc) (follow_pages env f n q rows)"
proof -
  define S where "S = sorted_rows env f q rows"
  note order = rows_order [OF assms(1), of "q_sort q" Asc]
  have mset: "mset S = mset (filter (object_where env f q) rows)"
    unfolding S_def sorted_rows_def by (rule row_order.sort_mset [OF order])
  have sorted: "sorted_wrt (row_before env (q_sort q) Asc) S"
    unfolding S_def sorted_rows_def
    by (rule row_order.sort_sorted [OF order row_order.total_filter [OF order distinct_rows [OF assms(1, 3)]]])
  have len: "length S \<le> length rows" using mset by (metis length_filter_le size_mset)
  obtain m where n: "n = Suc m" using assms(7) by (cases n) auto
  have "page_cursor env q = None" using assms(5) by (simp add: page_cursor_def)
  moreover have "fetched_rows env f q rows = take (Suc (q_limit q)) S" using first_fetch [OF assms(5)] assms(6) by (simp add: S_def)
  ultimately obtain p where p: "listFolderObjects env f q rows = Some p" "page_result p = take (q_limit q) S"
    "page_nextCursor p = (if q_limit q < length S then Some (cursor_text env (row_cursor (q_sort q) NextPage (S ! (q_limit q - 1)))) else None)"
    using page_after [OF _ assms(4), of env f rows S] by auto
  have "follow_pages env f n q rows = S"
  proof (cases "q_limit q < length S")
    case True
    let ?q = "q\<lparr>q_cursor := Some (cursor_text env (row_cursor (q_sort q) NextPage (S ! (q_limit q - 1))))\<rparr>"
    have "follow_pages env f m ?q rows = drop (Suc (q_limit q - 1)) (sorted_rows env f ?q rows)"
      by (rule follow_after [OF assms(1-3)]) (use True len assms(4, 7) n in \<open>simp_all add: sorted_cursor S_def\<close>)
    then show ?thesis using p True assms(4) by (simp add: n sorted_cursor S_def [symmetric])
  next
    case False
    then show ?thesis using p by (simp add: n)
  qed
  then show ?thesis using mset sorted by (simp add: S_def)
qed

text \<open>C28: The page a previous cursor leads to leaves out the row next to the one the cursor was made of
  whenever there are more rows before it than fit a page (the extra row of the query is cut from the wrong
  end); when they fit, the page has no next cursor, although that row comes after it.\<close>

theorem previous_page_skips:
  assumes "collation_ok env" and "codec_ok env" and "distinct (map obj_id rows)" and "0 < q_limit q"
    and "k < length (sorted_rows env f q rows)"
    and "q_cursor q = Some (cursor_text env (row_cursor (q_sort q) PreviousPage (sorted_rows env f q rows ! k)))"
  shows "\<exists>p. listFolderObjects env f q rows = Some p
    \<and> (if q_limit q < k then page_result p = take (q_limit q) (drop (k - Suc (q_limit q)) (sorted_rows env f q rows))
          \<and> sorted_rows env f q rows ! (k - 1) \<notin> set (page_result p)
        else page_result p = take k (sorted_rows env f q rows) \<and> page_nextCursor p = None)"
proof -
  define S where "S = sorted_rows env f q rows"
  have same: "q\<lparr>q_cursor := Some (cursor_text env (row_cursor (q_sort q) PreviousPage (S ! k)))\<rparr> = q"
    using assms(6) by (simp add: S_def)
  have fetch: "fetched_rows env f q rows = take (Suc (q_limit q)) (rev (take k S))"
    using cursor_fetch(2) [OF assms(1-3) assms(5) refl] unfolding S_def [symmetric] same .
  have cursor: "page_cursor env q = Some (row_cursor (q_sort q) PreviousPage (S ! k))"
    using assms(2, 6) by (simp add: page_cursor_def codec_ok_def S_def)
  have len: "length (take k S) = k" using assms(5) by (simp add: S_def)
  have rev: "rev (take (Suc (q_limit q)) (rev (take k S))) = drop (k - Suc (q_limit q)) (take k S)"
    using len by (simp add: take_rev)
  have "distinct S"
    unfolding S_def sorted_rows_def using assms(3) row_order.sort_mset [OF rows_order [OF assms(1)]]
    by (metis distinct_filter distinct_map mset_eq_imp_distinct_iff)
  define P where "P = drop (k - Suc (q_limit q)) (take k S)"
  have P: "length (take (Suc (q_limit q)) (rev (take k S))) = min k (Suc (q_limit q))" "length P = min k (Suc (q_limit q))"
    using len by (auto simp: P_def)
  have nonempty: "\<not> (q_limit q < min k (Suc (q_limit q)) \<and> take (q_limit q) P = [])" using assms(4) P(2) by auto
  have dir: "(cur_direction (row_cursor (q_sort q) PreviousPage (S ! k)) \<noteq> PreviousPage) = False" by (simp add: cursor_direction)
  obtain p where p: "listFolderObjects env f q rows = Some p" "page_result p = take (q_limit q) P"
    "page_nextCursor p = None \<longleftrightarrow> k \<le> q_limit q"
    unfolding listFolderObjects_def Let_def fetch cursor option.case dir if_False rev P_def [symmetric] P(1) using nonempty by auto
  show ?thesis
  proof (cases "q_limit q < k")
    case True
    have "S ! (k - 1) \<notin> set (take (q_limit q) P)"
    proof -
      have k: "k \<le> length S" "length P = Suc (q_limit q)" using assms(5) True P(2) by (simp_all add: S_def)
      have "P = take (q_limit q) P @ [P ! q_limit q]" using k(2) by (metis lessI take_Suc_conv_app_nth take_all_iff order_refl)
      moreover have "P ! q_limit q = S ! (k - 1)" using True k by (simp add: P_def)
      moreover have "distinct P" using \<open>distinct S\<close> by (simp add: P_def distinct_drop distinct_take)
      ultimately show ?thesis by (metis distinct.simps(2) distinct_append not_distinct_conv_prefix)
    qed
    moreover have "take (q_limit q) P = take (q_limit q) (drop (k - Suc (q_limit q)) S)"
      using True by (simp add: P_def drop_take min_def)
    ultimately show ?thesis using p True by (simp add: S_def)
  next
    case False
    then have "take (q_limit q) P = take k S" using len by (simp add: P_def)
    then show ?thesis using p False by (simp add: S_def)
  qed
qed

end
