(* ===== verification/Folder_State.thy ===== *)
theory Folder_State
  imports Folder_Listing Task_Events
begin

text \<open>
  The tables of folders, shares, objects, preferences and storage locations (packages/api,
  folders/entities, storage/entities), the operations on them, and the location of a folder.  The storage
  itself is a parameter: its listings, heads, signed URLs and the outcome of the access check.  What is
  deleted there and the messages to the sockets are recorded in the order they are sent.
\<close>

section \<open>Tables\<close>

datatype folder_permission = FOLDER_REINDEX | FOLDER_FORGET | FOLDER_EDIT | OBJECT_EDIT | OBJECT_MANAGE

record storage_location =
  loc_id :: string
  loc_userId :: string
  loc_kind :: string
  loc_label :: string
  loc_endpoint :: string
  loc_endpointDomain :: string
  loc_region :: string
  loc_accessKeyId :: string
  loc_secretAccessKey :: string
  loc_accessKeyHashId :: string
  loc_bucket :: string
  loc_prefix :: string

record folder =
  fld_id :: string
  fld_name :: string
  fld_ownerId :: string
  fld_contentLocationId :: "string option"
  fld_metadataLocationId :: "string option"
  fld_accessError :: "(string \<times> string) option"     \<comment> \<open>code, message\<close>
  fld_createdAt :: int
  fld_updatedAt :: int

record folder_share =
  shr_folderId :: string
  shr_userId :: string
  shr_permissions :: "folder_permission list"

record folder_preference =
  prf_userId :: string
  prf_folderId :: string
  prf_starred :: bool
  prf_createdAt :: int
  prf_updatedAt :: int

text \<open>Where a folder keeps its objects, \<open>FolderStorageTarget\<close>: of a row, or of the built-in provision.\<close>

record storage_target =
  trg_kind :: string
  trg_endpoint :: string
  trg_region :: string
  trg_accessKeyId :: string
  trg_secretAccessKey :: string
  trg_bucket :: string
  trg_prefix :: string

datatype folder_notice = ObjectRemoved string string | ObjectCreated string string | ObjectUpdated string string

text \<open>
  \<open>known_users\<close> are the ids of the users, \<open>references\<close> the folders that rows of other parts refer to
  without a cascade (app_folder_settings, mcp_folder_settings); \<open>folder_randoms\<close> counts the draws of
  identifiers and \<open>folder_engine\<close> is the database of the task engine.
\<close>

record folder_db =
  folders :: "folder list"
  shares :: "folder_share list"
  object_rows :: "folder_object list"
  preferences :: "folder_preference list"
  locations :: "storage_location list"
  known_users :: "string list"
  references :: "string list"
  folder_randoms :: nat
  storage_deletes :: "(storage_target \<times> string) list"
  folder_notices :: "folder_notice list"
  folder_engine :: task_db

datatype folder_error =
    FolderNotFound | FolderForbidden | ObjectNotFound | MetadataWriteUnauthorised | ShareNotFound | NoSuchUser
  | LocationNotFound | ProvisionNotFound | FolderBadRequest | ETagMismatch | NoEmbeddedStorage
  | StorageFailed string | FolderDatabase string | FolderEngine tx_error | FolderInternal | MissingTaskData | FolderNoReturn

type_synonym 'a fom = "folder_db \<Rightarrow> (folder_error + 'a) \<times> folder_db"

definition fo_return :: "'a \<Rightarrow> 'a fom" where "fo_return x = (\<lambda>db. (Inr x, db))"
definition fo_throw :: "folder_error \<Rightarrow> 'a fom" where "fo_throw e = (\<lambda>db. (Inl e, db))"

definition fo_bind :: "'a fom \<Rightarrow> ('a \<Rightarrow> 'b fom) \<Rightarrow> 'b fom" where
  "fo_bind m f = (\<lambda>db. case m db of (Inl e, d) \<Rightarrow> (Inl e, d) | (Inr x, d) \<Rightarrow> f x d)"

definition fo_lift :: "folder_error + 'a \<Rightarrow> 'a fom" where
  "fo_lift r = (case r of Inl e \<Rightarrow> fo_throw e | Inr x \<Rightarrow> fo_return x)"

definition fo_require :: "bool \<Rightarrow> folder_error \<Rightarrow> unit fom" where
  "fo_require b e = (if b then fo_return () else fo_throw e)"

definition fo_read :: "(folder_db \<Rightarrow> 'a) \<Rightarrow> 'a fom" where "fo_read f = (\<lambda>db. (Inr (f db), db))"
definition fo_modify :: "(folder_db \<Rightarrow> folder_db) \<Rightarrow> unit fom" where "fo_modify f = (\<lambda>db. (Inr (), f db))"

definition fo_uuid :: "(nat \<Rightarrow> string) \<Rightarrow> string fom" where
  "fo_uuid f = (\<lambda>db. (Inr (f (folder_randoms db)), db\<lparr>folder_randoms := Suc (folder_randoms db)\<rparr>))"

definition in_folder_engine :: "'a txm \<Rightarrow> 'a fom" where
  "in_folder_engine m = (\<lambda>db. case m (folder_engine db) of
     (Inl e, d) \<Rightarrow> (Inl (FolderEngine e), db\<lparr>folder_engine := d\<rparr>) | (Inr x, d) \<Rightarrow> (Inr x, db\<lparr>folder_engine := d\<rparr>))"

section \<open>Parameters\<close>

text \<open>A server provision, and the listing of a bucket: the objects, with key, size, time and tag, and the
  token of the next page.\<close>

record storage_provision =
  prv_id :: string
  prv_endpoint :: string
  prv_region :: string
  prv_accessKeyId :: string
  prv_secretAccessKey :: string
  prv_bucket :: string
  prv_prefix :: "string option"

record object_update =
  up_lastModified :: "int option"
  up_size :: "int option"
  up_eTag :: "string option"
  up_mimeType :: "string option"

type_synonym s3_page = "(string \<times> object_update) list \<times> string option"

record folder_env =
  folder_uuid :: "nat \<Rightarrow> string"
  embedded :: "storage_target option"                            \<comment> \<open>the embedded storage, without a prefix\<close>
  provisions :: "storage_provision list"
  url_host :: "string \<Rightarrow> string option"
  key_hash :: "string \<Rightarrow> string \<Rightarrow> string \<Rightarrow> string \<Rightarrow> string"
  platform_host :: string
  preflight :: "string \<Rightarrow> string \<Rightarrow> (string option \<times> string option) option"
    \<comment> \<open>of a URL and an origin: the allowed origin and the allowed methods, or no answer\<close>
  s3_list :: "storage_target \<Rightarrow> string option \<Rightarrow> string + s3_page"
  s3_head :: "storage_target \<Rightarrow> string \<Rightarrow> string + object_update"
  s3_delete :: "storage_target \<Rightarrow> string \<Rightarrow> string option"             \<comment> \<open>an error\<close>
  signed_url :: "storage_target \<Rightarrow> string \<Rightarrow> string \<Rightarrow> string"             \<comment> \<open>method, key\<close>
  mime_from_extension :: "string \<Rightarrow> string option"
  media_from_mime :: "string \<Rightarrow> string"
  object_json :: "folder_object \<Rightarrow> json"
  listing :: listing_env

section \<open>Locations\<close>

definition row_target :: "storage_location \<Rightarrow> storage_target" where
  "row_target l = \<lparr>trg_kind = loc_kind l, trg_endpoint = loc_endpoint l, trg_region = loc_region l, trg_accessKeyId = loc_accessKeyId l,
     trg_secretAccessKey = loc_secretAccessKey l, trg_bucket = loc_bucket l, trg_prefix = loc_prefix l\<rparr>"

definition nonempty_text :: "string option \<Rightarrow> bool" where
  "nonempty_text s = (case s of None \<Rightarrow> False | Some t \<Rightarrow> t \<noteq> [])"

definition ends_slash :: "string \<Rightarrow> bool" where "ends_slash s \<longleftrightarrow> s \<noteq> [] \<and> last s = CHR ''/''"

definition normalisePrefix :: "string \<Rightarrow> string" where
  "normalisePrefix p = (if ends_slash p then p else p @ ''/'')"

datatype location_kind = ContentLocation | MetadataLocation

fun prefix_suffix :: "location_kind \<Rightarrow> string \<Rightarrow> string" where
  "prefix_suffix MetadataLocation f = ''.lombok_folder_metadata_'' @ f"
| "prefix_suffix ContentLocation f = ''.lombok_folder_content_'' @ f"

definition buildEmbeddedStorageProvision :: "folder_env \<Rightarrow> string \<Rightarrow> string \<Rightarrow> storage_target option" where
  "buildEmbeddedStorageProvision env u f = map_option
     (\<lambda>c. c\<lparr>trg_prefix := ''.lombok_provision__user_'' @ u @ ''_folder_'' @ f\<rparr>) (embedded env)"

definition resolveFolderLocation :: "folder_env \<Rightarrow> folder \<Rightarrow> location_kind \<Rightarrow> storage_location option \<Rightarrow> folder_error + storage_target" where
  "resolveFolderLocation env f k row = (case row of
     Some l \<Rightarrow> Inr (row_target l)
   | None \<Rightarrow> (case buildEmbeddedStorageProvision env (fld_ownerId f) (fld_id f) of
        None \<Rightarrow> Inl NoEmbeddedStorage
      | Some t \<Rightarrow>
          Inr (t\<lparr>trg_kind := ''BUILTIN'', trg_prefix :=
            (if trg_prefix t = [] then prefix_suffix k (fld_id f) else normalisePrefix (trg_prefix t) @ prefix_suffix k (fld_id f))\<rparr>)))"

definition find_location :: "folder_db \<Rightarrow> string option \<Rightarrow> storage_location option" where
  "find_location db i = Option.bind i (\<lambda>i. find (\<lambda>l. loc_id l = i) (locations db))"

text \<open>A folder with its locations.\<close>

record located_folder =
  lf_folder :: folder
  lf_content :: storage_target
  lf_metadata :: storage_target

definition attachResolvedLocations :: "folder_env \<Rightarrow> folder_db \<Rightarrow> folder \<Rightarrow> folder_error + located_folder" where
  "attachResolvedLocations env db f =
     (case resolveFolderLocation env f ContentLocation (find_location db (fld_contentLocationId f)) of
        Inl e \<Rightarrow> Inl e
      | Inr c \<Rightarrow> (case resolveFolderLocation env f MetadataLocation (find_location db (fld_metadataLocationId f)) of
           Inl e \<Rightarrow> Inl e | Inr m \<Rightarrow> Inr \<lparr>lf_folder = f, lf_content = c, lf_metadata = m\<rparr>))"

text \<open>\<open>joinStoragePrefix\<close>.\<close>

definition joinStoragePrefix :: "string \<Rightarrow> string \<Rightarrow> string" where
  "joinStoragePrefix p k = (if p = [] \<or> ends_slash p then p @ k else p @ CHR ''/'' # k)"

text \<open>\<open>value.replace(/%2f/gi, '_')\<close>.\<close>

fun replaceEncodedForwardSlashes :: "string \<Rightarrow> string" where
  "replaceEncodedForwardSlashes (a # b # c # r) =
     (if a = CHR ''%'' \<and> b = CHR ''2'' \<and> (c = CHR ''f'' \<or> c = CHR ''F'') then CHR ''_'' # replaceEncodedForwardSlashes r
      else a # replaceEncodedForwardSlashes (b # c # r))"
| "replaceEncodedForwardSlashes s = s"

end
