(* ===== verification/Folder_Service.thy ===== *)
theory Folder_Service
  imports Folder_State Task_Lifecycle
begin

text \<open>
  The operations on folders (packages/api, folders/services/folder.service.ts): access and permissions,
  creation, shares, stars, signed URLs, and the objects with their index.  Each operation is given its
  time \<open>now\<close> and the fuel \<open>n\<close> of the events it emits.
\<close>

section \<open>Access\<close>

definition OWNER_PERMISSIONS :: "folder_permission list" where
  "OWNER_PERMISSIONS = [FOLDER_EDIT, FOLDER_FORGET, FOLDER_REINDEX, OBJECT_EDIT, OBJECT_MANAGE]"

definition find_folder :: "string \<Rightarrow> folder_db \<Rightarrow> folder option" where
  "find_folder i db = find (\<lambda>f. fld_id f = i) (folders db)"

definition find_share :: "string \<Rightarrow> string \<Rightarrow> folder_db \<Rightarrow> folder_share option" where
  "find_share i u db = find (\<lambda>s. shr_folderId s = i \<and> shr_userId s = u) (shares db)"

definition find_preference :: "string \<Rightarrow> string \<Rightarrow> folder_db \<Rightarrow> folder_preference option" where
  "find_preference i u db = find (\<lambda>p. prf_folderId p = i \<and> prf_userId p = u) (preferences db)"

record folder_access =
  acc_folder :: located_folder
  acc_permissions :: "folder_permission list"
  acc_starred :: bool

definition getFolder :: "folder_env \<Rightarrow> string \<Rightarrow> located_folder fom" where
  "getFolder env i = fo_bind (fo_read (find_folder i)) (\<lambda>f. case f of
     None \<Rightarrow> fo_throw FolderNotFound
   | Some f \<Rightarrow> fo_bind (fo_read (\<lambda>db. attachResolvedLocations env db f)) fo_lift)"

definition getFolderAsUser :: "folder_env \<Rightarrow> string \<Rightarrow> string \<Rightarrow> folder_access fom" where
  "getFolderAsUser env actor i =
     fo_bind (getFolder env i) (\<lambda>f.
     fo_bind (fo_read (find_preference i actor)) (\<lambda>p.
       let starred = (case p of None \<Rightarrow> False | Some p \<Rightarrow> prf_starred p) in
       if fld_ownerId (lf_folder f) = actor
       then fo_return \<lparr>acc_folder = f, acc_permissions = OWNER_PERMISSIONS, acc_starred = starred\<rparr>
       else fo_bind (fo_read (find_share i actor)) (\<lambda>s. case s of
           None \<Rightarrow> fo_throw FolderNotFound
         | Some s \<Rightarrow> fo_return \<lparr>acc_folder = f, acc_permissions = shr_permissions s, acc_starred = starred\<rparr>)))"

text \<open>The operations that need a permission.\<close>

definition with_permission :: "folder_env \<Rightarrow> string \<Rightarrow> string \<Rightarrow> folder_permission \<Rightarrow> folder_access fom" where
  "with_permission env actor i p = fo_bind (getFolderAsUser env actor i) (\<lambda>a.
     fo_bind (fo_require (p \<in> set (acc_permissions a)) FolderForbidden) (\<lambda>_. fo_return a))"

section \<open>Folders\<close>

datatype target_input =
    BuiltinTarget
  | CustomLocation string string string string string "string option"
      \<comment> \<open>access key, secret, endpoint, bucket, region, prefix\<close>
  | UserLocation string "string option" string              \<comment> \<open>location, prefix, bucket\<close>
  | ServerProvision string

definition insert_location :: "storage_location \<Rightarrow> storage_location option fom" where
  "insert_location l = (\<lambda>db. if loc_id l \<in> loc_id ` set (locations db)
     then (Inl (FolderDatabase ''duplicate key value violates unique constraint''), db)
     else (Inr (Some l), db\<lparr>locations := locations db @ [l]\<rparr>))"

definition require_host :: "folder_env \<Rightarrow> string \<Rightarrow> string fom" where
  "require_host env e = (case url_host env e of None \<Rightarrow> fo_throw FolderInternal | Some h \<Rightarrow> fo_return h)"

text \<open>A custom location with an empty prefix is no input at all; \<open>null\<close> is no prefix.\<close>

definition buildLocation :: "folder_env \<Rightarrow> string \<Rightarrow> string \<Rightarrow> location_kind \<Rightarrow> target_input \<Rightarrow> storage_location option fom" where
  "buildLocation env userId folderId kind input = (case input of
     BuiltinTarget \<Rightarrow> fo_return None
   | CustomLocation key secret endpoint bucket region pre \<Rightarrow>
       fo_bind (require_host env endpoint) (\<lambda>host.
       if pre = Some [] then fo_throw FolderBadRequest
       else fo_bind (fo_uuid (folder_uuid env)) (\<lambda>i. insert_location
         \<lparr>loc_id = i, loc_userId = userId, loc_kind = ''USER'', loc_label = endpoint @ '' - '' @ key, loc_endpoint = endpoint,
          loc_endpointDomain = host, loc_region = region, loc_accessKeyId = key, loc_secretAccessKey = secret,
          loc_accessKeyHashId = key_hash env key secret region endpoint, loc_bucket = bucket,
          loc_prefix = (case pre of Some p \<Rightarrow> p | None \<Rightarrow> [])\<rparr>))
   | UserLocation locationId pre bucket \<Rightarrow> (case pre of
         None \<Rightarrow> fo_throw FolderBadRequest
       | Some p \<Rightarrow> fo_bind (fo_read (\<lambda>db. find (\<lambda>l. loc_kind l = ''USER'' \<and> loc_userId l = userId \<and> loc_id l = locationId) (locations db)))
           (\<lambda>l. case l of
              None \<Rightarrow> fo_throw LocationNotFound
            | Some l \<Rightarrow> fo_bind (fo_uuid (folder_uuid env)) (\<lambda>i. fo_bind (require_host env (loc_endpoint l)) (\<lambda>host. insert_location
                (l\<lparr>loc_id := i, loc_kind := ''USER'', loc_userId := userId, loc_endpointDomain := host,
                   loc_accessKeyHashId := key_hash env (loc_accessKeyId l) (loc_secretAccessKey l) (loc_region l) (loc_endpoint l),
                   loc_prefix := p, loc_bucket := bucket\<rparr>)))))
   | ServerProvision provisionId \<Rightarrow> (case find (\<lambda>v. prv_id v = provisionId) (provisions env) of
         None \<Rightarrow> fo_throw ProvisionNotFound
       | Some v \<Rightarrow> fo_bind (fo_uuid (folder_uuid env)) (\<lambda>i. fo_bind (require_host env (prv_endpoint v)) (\<lambda>host.
           let base = (case prv_prefix v of Some p \<Rightarrow> p | None \<Rightarrow> []) in insert_location
           \<lparr>loc_id = i, loc_userId = userId, loc_kind = ''SERVER'', loc_label = ''SERVER:'' @ prv_id v, loc_endpoint = prv_endpoint v,
            loc_endpointDomain = host, loc_region = prv_region v, loc_accessKeyId = prv_accessKeyId v,
            loc_secretAccessKey = prv_secretAccessKey v,
            loc_accessKeyHashId = key_hash env (prv_accessKeyId v) (prv_secretAccessKey v) (prv_region v) (prv_endpoint v),
            loc_bucket = prv_bucket v,
            loc_prefix = base @ (if base = [] \<or> ends_slash base then [] else ''/'') @ prefix_suffix kind folderId\<rparr>))))"

definition update_folder :: "string \<Rightarrow> (folder \<Rightarrow> folder) \<Rightarrow> unit fom" where
  "update_folder i f = fo_modify (\<lambda>db. db\<lparr>folders := map (\<lambda>x. if fld_id x = i then f x else x) (folders db)\<rparr>)"

text \<open>\<open>haystack.includes(needle)\<close>, and \<open>toUpperCase\<close> of ASCII.\<close>

fun text_includes :: "string \<Rightarrow> string \<Rightarrow> bool" where
  "text_includes [] n \<longleftrightarrow> n = []"
| "text_includes (c # cs) n \<longleftrightarrow> starts_with (c # cs) n \<or> text_includes cs n"

definition upper_ascii :: "char \<Rightarrow> char" where
  "upper_ascii c = (let k = (of_char c :: nat) in if 97 \<le> k \<and> k \<le> 122 then char_of (k - 32) else c)"

definition cors_url :: "storage_target \<Rightarrow> string \<Rightarrow> string" where
  "cors_url t i = (if ends_slash (trg_endpoint t) then butlast (trg_endpoint t) else trg_endpoint t) @ ''/'' @ trg_bucket t @ ''/'' @
     (if trg_prefix t = [] then [] else trg_prefix t @ (if ends_slash (trg_prefix t) then [] else ''/'')) @ ''.lombok_cors_check_'' @ i"

definition cors_answer :: "folder_env \<Rightarrow> string \<Rightarrow> string option \<times> string option \<Rightarrow> bool" where
  "cors_answer env origin a \<longleftrightarrow> (case fst a of None \<Rightarrow> False
       | Some acao \<Rightarrow> acao \<noteq> [] \<and> (acao = ''*'' \<or> acao = origin \<or> text_includes acao (platform_host env)))
     \<and> (case snd a of None \<Rightarrow> False | Some acam \<Rightarrow> text_includes (map upper_ascii acam) ''GET'')"

definition access_check :: "folder_env \<Rightarrow> storage_target \<Rightarrow> string \<Rightarrow> (string \<times> string) option" where
  "access_check env t i = (case s3_list env t None of
     Inl m \<Rightarrow> Some (''S3_ACCESS_DENIED'', m)
   | Inr _ \<Rightarrow>
       if list_ex (\<lambda>origin. case preflight env (cors_url t i) origin of None \<Rightarrow> False | Some a \<Rightarrow> cors_answer env origin a)
            [''https://'' @ platform_host env, ''http://'' @ platform_host env]
       then None
       else Some (''S3_CORS_INVALID'', ''CORS configuration may not allow browser access from the configured frontend domain ('' @
              platform_host env @ '').''))"

definition checkAndUpdateFolderAccessError :: "folder_env \<Rightarrow> int \<Rightarrow> string \<Rightarrow> unit fom" where
  "checkAndUpdateFolderAccessError env now i = fo_bind (getFolder env i) (\<lambda>f.
     update_folder i (\<lambda>x. x\<lparr>fld_accessError := access_check env (lf_content f) i, fld_updatedAt := now\<rparr>))"

definition insert_folder :: "folder \<Rightarrow> unit fom" where
  "insert_folder f = (\<lambda>db. if fld_id f \<in> fld_id ` set (folders db)
     then (Inl (FolderDatabase ''duplicate key value violates unique constraint''), db)
     else if fld_ownerId f \<notin> set (known_users db)
       \<or> \<not> (set_option (fld_contentLocationId f) \<union> set_option (fld_metadataLocationId f) \<subseteq> loc_id ` set (locations db))
     then (Inl (FolderDatabase ''violates foreign key constraint''), db)
     else (Inr (), db\<lparr>folders := folders db @ [f]\<rparr>))"

definition createFolder :: "folder_env \<Rightarrow> int \<Rightarrow> string \<Rightarrow> string \<Rightarrow> target_input \<Rightarrow> target_input \<Rightarrow> located_folder fom" where
  "createFolder env now userId name content metadata =
     fo_bind (fo_uuid (folder_uuid env)) (\<lambda>i.
     fo_bind (buildLocation env userId i ContentLocation content) (\<lambda>c.
     fo_bind (buildLocation env userId i MetadataLocation metadata) (\<lambda>m.
       let f = \<lparr>fld_id = i, fld_name = name, fld_ownerId = userId, fld_contentLocationId = map_option loc_id c,
                fld_metadataLocationId = map_option loc_id m, fld_accessError = None, fld_createdAt = now, fld_updatedAt = now\<rparr>
       in fo_bind (insert_folder f) (\<lambda>_.
          fo_bind (checkAndUpdateFolderAccessError env now i) (\<lambda>_.
          fo_bind (fo_read (\<lambda>db. attachResolvedLocations env db f)) fo_lift)))))"

text \<open>A transaction restores the tables; identifiers stay drawn, and what went to the storage or the
  sockets is not undone.\<close>

definition restore_tables :: "folder_db \<Rightarrow> folder_db \<Rightarrow> folder_db" where
  "restore_tables db d = db\<lparr>folder_randoms := folder_randoms d, storage_deletes := storage_deletes d,
     folder_notices := folder_notices d, folder_engine := folder_engine d\<rparr>"

definition fo_transaction :: "'a fom \<Rightarrow> 'a fom" where
  "fo_transaction m = (\<lambda>db. case m db of (Inl e, d) \<Rightarrow> (Inl e, restore_tables db d) | (Inr x, d) \<Rightarrow> (Inr x, d))"

definition updateFolderAsUser :: "folder_env \<Rightarrow> int \<Rightarrow> string \<Rightarrow> string \<Rightarrow> string \<Rightarrow> unit fom" where
  "updateFolderAsUser env now actor i name = fo_bind (with_permission env actor i FOLDER_EDIT) (\<lambda>_.
     update_folder i (\<lambda>f. f\<lparr>fld_name := name, fld_updatedAt := now\<rparr>))"

text \<open>The rows of other tables that refer to a folder: objects and preferences go with it, the shares, the
  notifications and the settings of apps do not.\<close>

definition folder_referenced :: "string \<Rightarrow> folder_db \<Rightarrow> bool" where
  "folder_referenced i db \<longleftrightarrow> i \<in> shr_folderId ` set (shares db) \<or> i \<in> set (references db)
     \<or> Some i \<in> ntf_folderId ` set (notifications (folder_engine db))"

definition delete_folder_rows :: "string \<Rightarrow> unit fom" where
  "delete_folder_rows i = (\<lambda>db. if i \<in> fld_id ` set (folders db) \<and> folder_referenced i db
     then (Inl (FolderDatabase ''violates foreign key constraint''), db)
     else (Inr (), db\<lparr>folders := filter (\<lambda>f. fld_id f \<noteq> i) (folders db), object_rows := filter (\<lambda>x. obj_folderId x \<noteq> i) (object_rows db),
            preferences := filter (\<lambda>p. prf_folderId p \<noteq> i) (preferences db),
            folder_engine := (folder_engine db)\<lparr>tasks := filter (\<lambda>t. targetFolderId (snd t) \<noteq> Some i) (tasks (folder_engine db)),
              events := filter (\<lambda>e. event_folderId (snd e) \<noteq> Some i) (events (folder_engine db))\<rparr>\<rparr>))"

definition deleteFolderAsUser :: "folder_env \<Rightarrow> string \<Rightarrow> string \<Rightarrow> bool fom" where
  "deleteFolderAsUser env actor i = fo_bind (with_permission env actor i FOLDER_FORGET) (\<lambda>_.
     fo_bind (delete_folder_rows i) (\<lambda>_. fo_return True))"

definition write_preference :: "int \<Rightarrow> string \<Rightarrow> string \<Rightarrow> bool \<Rightarrow> unit fom" where
  "write_preference now actor i starred = fo_modify (\<lambda>db. if find_preference i actor db = None
     then db\<lparr>preferences := preferences db @ [\<lparr>prf_userId = actor, prf_folderId = i, prf_starred = starred,
               prf_createdAt = now, prf_updatedAt = now\<rparr>]\<rparr>
     else db\<lparr>preferences := map (\<lambda>p. if prf_folderId p = i \<and> prf_userId p = actor
               then p\<lparr>prf_starred := starred, prf_updatedAt := now\<rparr> else p) (preferences db)\<rparr>)"

definition setFolderStarredAsUser :: "folder_env \<Rightarrow> int \<Rightarrow> string \<Rightarrow> string \<Rightarrow> bool \<Rightarrow> bool fom" where
  "setFolderStarredAsUser env now actor i starred = fo_bind (getFolderAsUser env actor i) (\<lambda>_.
     fo_bind (write_preference now actor i starred) (\<lambda>_. fo_return starred))"

section \<open>Shares\<close>

definition getFolderShare :: "string \<Rightarrow> string \<Rightarrow> folder_share fom" where
  "getFolderShare i u = fo_bind (fo_read (find_share i u)) (\<lambda>s. case s of
     None \<Rightarrow> fo_throw ShareNotFound | Some s \<Rightarrow> fo_return s)"

definition listFolderShares :: "folder_env \<Rightarrow> string \<Rightarrow> string \<Rightarrow> folder_share list fom" where
  "listFolderShares env actor i = fo_bind (getFolderAsUser env actor i) (\<lambda>_.
     fo_read (\<lambda>db. filter (\<lambda>s. shr_folderId s = i) (shares db)))"

text \<open>The users a folder may be shared with, a page of them and how many there are; \<open>like\<close> is the test of the
  search on the name of a user.\<close>

definition listFolderShareUsersAsUser :: "folder_env \<Rightarrow> string \<Rightarrow> string \<Rightarrow> nat option \<Rightarrow> nat option \<Rightarrow> (string \<Rightarrow> bool) option \<Rightarrow>
    (string list \<times> nat) fom" where
  "listFolderShareUsersAsUser env actor i offset limit like = fo_bind (getFolderAsUser env actor i) (\<lambda>_.
     fo_read (\<lambda>db. let us = (case like of None \<Rightarrow> known_users db | Some p \<Rightarrow> filter p (known_users db))
       in (take (case limit of None \<Rightarrow> 25 | Some n \<Rightarrow> n) (drop (case offset of None \<Rightarrow> 0 | Some n \<Rightarrow> n) us), length us)))"

definition require_user :: "string \<Rightarrow> unit fom" where
  "require_user u = fo_bind (fo_read (\<lambda>db. u \<in> set (known_users db))) (\<lambda>known. fo_require known NoSuchUser)"

definition write_share :: "string \<Rightarrow> string \<Rightarrow> folder_permission list \<Rightarrow> unit fom" where
  "write_share i u ps = fo_modify (\<lambda>db. if find_share i u db = None
     then db\<lparr>shares := shares db @ [\<lparr>shr_folderId = i, shr_userId = u, shr_permissions = ps\<rparr>]\<rparr>
     else db\<lparr>shares := map (\<lambda>s. if shr_folderId s = i \<and> shr_userId s = u then s\<lparr>shr_permissions := ps\<rparr> else s) (shares db)\<rparr>)"

definition upsertFolderShare :: "folder_env \<Rightarrow> string \<Rightarrow> string \<Rightarrow> string \<Rightarrow> folder_permission list \<Rightarrow> unit fom" where
  "upsertFolderShare env actor i u ps = fo_bind (getFolderAsUser env actor i) (\<lambda>_.
     fo_bind (require_user u) (\<lambda>_. write_share i u ps))"

definition drop_share :: "string \<Rightarrow> string \<Rightarrow> unit fom" where
  "drop_share i u = fo_modify (\<lambda>db. db\<lparr>shares := filter (\<lambda>s. \<not> (shr_folderId s = i \<and> shr_userId s = u)) (shares db)\<rparr>)"

definition removeFolderShare :: "folder_env \<Rightarrow> string \<Rightarrow> string \<Rightarrow> string \<Rightarrow> unit fom" where
  "removeFolderShare env actor i u = fo_bind (getFolderAsUser env actor i) (\<lambda>_.
     fo_bind (require_user u) (\<lambda>_. drop_share i u))"

section \<open>Signed URLs\<close>

datatype url_method = PUT | DELETE | GET | HEAD

fun method_name :: "url_method \<Rightarrow> string" where
  "method_name PUT = ''PUT''" | "method_name DELETE = ''DELETE''" | "method_name GET = ''GET''" | "method_name HEAD = ''HEAD''"

datatype object_identifier = ContentId string | MetadataId string string

fun identifier_key :: "object_identifier \<Rightarrow> string" where
  "identifier_key (ContentId k) = k" | "identifier_key (MetadataId k h) = k"

record url_request =
  url_object :: object_identifier
  url_method :: url_method
  url_keepEncoded :: bool

definition resolve_url :: "folder_env \<Rightarrow> folder_access \<Rightarrow> url_request \<Rightarrow> folder_error + (string \<times> string)" where
  "resolve_url env a r =
     (let isMetadata = (case url_object r of MetadataId k h \<Rightarrow> True | ContentId k \<Rightarrow> False);
          target = (if isMetadata then lf_metadata (acc_folder a) else lf_content (acc_folder a))
      in if url_method r \<in> {DELETE, PUT} \<and> OBJECT_EDIT \<notin> set (acc_permissions a) then Inl FolderForbidden
         else if isMetadata \<and> url_method r \<noteq> GET then Inl MetadataWriteUnauthorised
         else let key = (if url_method r = PUT \<and> \<not> url_keepEncoded r
                         then replaceEncodedForwardSlashes (identifier_key (url_object r)) else identifier_key (url_object r));
                  absolute = (case url_object r of MetadataId k h \<Rightarrow> joinStoragePrefix (trg_prefix target) (key @ CHR ''/'' # h)
                              | ContentId k \<Rightarrow> joinStoragePrefix (trg_prefix target) key)
              in Inr (signed_url env target (method_name (url_method r)) absolute, key))"

primrec resolve_urls :: "folder_env \<Rightarrow> folder_access \<Rightarrow> url_request list \<Rightarrow> folder_error + (string \<times> string) list" where
  "resolve_urls env a [] = Inr []"
| "resolve_urls env a (r # rs) = (case resolve_url env a r of
     Inl e \<Rightarrow> Inl e
   | Inr u \<Rightarrow> (case resolve_urls env a rs of Inl e \<Rightarrow> Inl e | Inr us \<Rightarrow> Inr (u # us)))"

definition createPresignedUrlsAsUser :: "folder_env \<Rightarrow> string \<Rightarrow> string \<Rightarrow> url_request list \<Rightarrow> (string \<times> string) list fom" where
  "createPresignedUrlsAsUser env actor i rs = fo_bind (getFolderAsUser env actor i) (\<lambda>a. fo_lift (resolve_urls env a rs))"

end
