(* ===== verification/Folder_Objects.thy ===== *)
theory Folder_Objects
  imports Folder_Service
begin

text \<open>
  The objects of a folder and their index (packages/api, folders/services/folder.service.ts): the row of an
  object, its refresh and deletion, the reindexing of a folder from its bucket, and the listing.
\<close>

section \<open>The row of an object\<close>

definition key_extension :: "string \<Rightarrow> string option" where
  "key_extension k = (let parts = split_on (CHR ''.'') k in if 1 < length parts then Some (last parts) else None)"

definition insert_types :: "folder_env \<Rightarrow> string \<Rightarrow> string option \<Rightarrow> string \<times> string" where
  "insert_types env k mime =
     (let ext = (case key_extension k of Some (c # cs) \<Rightarrow> Some (c # cs) | _ \<Rightarrow> None);
          mimeExt = (case ext of Some e \<Rightarrow> (case mime_from_extension env e of Some t \<Rightarrow> t | None \<Rightarrow> []) | None \<Rightarrow> []);
          mediaProvided = (case mime of Some (c # cs) \<Rightarrow> media_from_mime env (c # cs) | _ \<Rightarrow> ''OTHER'');
          mediaExt = (if ext = None then ''OTHER'' else media_from_mime env mimeExt);
          provided = (case mime of Some t \<Rightarrow> t | None \<Rightarrow> [])
      in (if mediaProvided \<noteq> ''OTHER'' then mediaProvided else mediaExt,
          if mediaProvided \<noteq> ''OTHER'' then (case mime of Some t \<Rightarrow> t | None \<Rightarrow> mimeExt)
          else if mimeExt \<noteq> [] then mimeExt else provided))"

definition object_row :: "folder_env \<Rightarrow> int \<Rightarrow> string \<Rightarrow> string \<Rightarrow> string \<Rightarrow> object_update \<Rightarrow> folder_object" where
  "object_row env now i folderId k u = (let types = insert_types env k (up_mimeType u) in
     \<lparr>obj_id = i, obj_folderId = folderId, obj_objectKey = k, obj_filename = last (split_on (CHR ''/'') k),
      obj_eTag = (case up_eTag u of Some t \<Rightarrow> t | None \<Rightarrow> []), obj_sizeBytes = (case up_size u of Some n \<Rightarrow> n | None \<Rightarrow> 0),
      obj_lastModified = (case up_lastModified u of Some t \<Rightarrow> t | None \<Rightarrow> 0), obj_hash = None, obj_mimeType = snd types,
      obj_mediaType = fst types, obj_contentMetadata = JObj [], obj_createdAt = now, obj_updatedAt = now\<rparr>)"

text \<open>The update of a row on a conflict.\<close>

definition conflict_row :: "object_update \<Rightarrow> folder_object \<Rightarrow> folder_object \<Rightarrow> folder_object" where
  "conflict_row u v x = (let y = x\<lparr>obj_sizeBytes := obj_sizeBytes v, obj_lastModified := obj_lastModified v, obj_eTag := obj_eTag v,
      obj_updatedAt := obj_updatedAt v\<rparr>
     in if nonempty_text (up_mimeType u) then y\<lparr>obj_mimeType := obj_mimeType v, obj_mediaType := obj_mediaType v\<rparr> else y)"

definition object_at :: "string \<Rightarrow> string \<Rightarrow> folder_object \<Rightarrow> bool" where
  "object_at i k x \<longleftrightarrow> obj_folderId x = i \<and> obj_objectKey x = k"

definition find_object :: "string \<Rightarrow> string \<Rightarrow> folder_db \<Rightarrow> folder_object option" where
  "find_object i k db = find (object_at i k) (object_rows db)"

definition upsert_object :: "object_update \<Rightarrow> folder_object \<Rightarrow> folder_object fom" where
  "upsert_object u v = (\<lambda>db. case find_object (obj_folderId v) (obj_objectKey v) db of
     Some x \<Rightarrow> (Inr (conflict_row u v x), db\<lparr>object_rows := map (\<lambda>y. if object_at (obj_folderId v) (obj_objectKey v) y
        then conflict_row u v y else y) (object_rows db)\<rparr>)
   | None \<Rightarrow> if obj_folderId v \<notin> fld_id ` set (folders db) then (Inl (FolderDatabase ''violates foreign key constraint''), db)
       else if obj_id v \<in> obj_id ` set (object_rows db) then (Inl (FolderDatabase ''duplicate key value violates unique constraint''), db)
       else (Inr v, db\<lparr>object_rows := object_rows db @ [v]\<rparr>))"

definition notice_folder :: "folder_notice \<Rightarrow> unit fom" where
  "notice_folder m = fo_modify (\<lambda>db. db\<lparr>folder_notices := folder_notices db @ [m]\<rparr>)"

definition object_event :: "folder_env \<Rightarrow> bool \<Rightarrow> folder_object \<Rightarrow> event_args" where
  "object_event env added x = \<lparr>emitterIdentifier = CORE_IDENTIFIER,
     eventIdentifier = (if added then ''object_added'' else ''object_updated''), ea_data = object_json env x,
     ea_target = TargetFolder (obj_folderId x) (Some (obj_objectKey x))\<rparr>"

definition updateFolderObjectInDB :: "folder_env \<Rightarrow> nat \<Rightarrow> task_env \<Rightarrow> int \<Rightarrow> string \<Rightarrow> string \<Rightarrow> object_update \<Rightarrow> folder_object fom" where
  "updateFolderObjectInDB env n tenv now folderId k u =
     fo_bind (fo_uuid (folder_uuid env)) (\<lambda>i.
     fo_bind (upsert_object u (object_row env now i folderId k u)) (\<lambda>x.
       let added = (obj_createdAt x = obj_updatedAt x)
       in fo_bind (notice_folder ((if added then ObjectCreated else ObjectUpdated) folderId (obj_id x))) (\<lambda>_.
          fo_bind (in_folder_engine (emitEvent n tenv now (object_event env added x))) (\<lambda>_. fo_return x))))"

section \<open>One object\<close>

definition storage_result :: "string + 'a \<Rightarrow> folder_error + 'a" where
  "storage_result r = (case r of Inl m \<Rightarrow> Inl (StorageFailed m) | Inr x \<Rightarrow> Inr x)"

definition refreshFolderObjectS3MetadataAsUser :: "folder_env \<Rightarrow> nat \<Rightarrow> task_env \<Rightarrow> int \<Rightarrow> string \<Rightarrow> string \<Rightarrow> string \<Rightarrow> string option \<Rightarrow>
    folder_object fom" where
  "refreshFolderObjectS3MetadataAsUser env n tenv now actor i k eTag =
     fo_bind (getFolderAsUser env actor i) (\<lambda>a.
       let t = lf_content (acc_folder a); absolute = trg_prefix t @ (if ends_slash (trg_prefix t) then [] else ''/'') @ k
       in fo_bind (fo_lift (storage_result (s3_head env t absolute))) (\<lambda>h.
          fo_bind (fo_require (\<not> (nonempty_text eTag \<and> up_eTag h \<noteq> eTag)) ETagMismatch) (\<lambda>_.
            updateFolderObjectInDB env n tenv now i k h)))"

text \<open>The deletion hands the key of the row to the storage, without the prefix of the location.\<close>

definition delete_from_storage :: "folder_env \<Rightarrow> storage_target \<Rightarrow> string \<Rightarrow> unit fom" where
  "delete_from_storage env t k = (case s3_delete env t k of
     Some m \<Rightarrow> fo_throw (StorageFailed m)
   | None \<Rightarrow> fo_modify (\<lambda>db. db\<lparr>storage_deletes := storage_deletes db @ [(t, k)]\<rparr>))"

definition delete_row :: "folder_object \<Rightarrow> unit fom" where
  "delete_row x = fo_modify (\<lambda>db. db\<lparr>object_rows := filter (\<lambda>y. obj_id y \<noteq> obj_id x) (object_rows db)\<rparr>)"

definition deleteFolderObjectAsUser :: "folder_env \<Rightarrow> string \<Rightarrow> string \<Rightarrow> string \<Rightarrow> bool fom" where
  "deleteFolderObjectAsUser env actor i k =
     fo_bind (with_permission env actor i OBJECT_EDIT) (\<lambda>a.
     fo_bind (fo_read (find_object i k)) (\<lambda>x. case x of
       None \<Rightarrow> fo_throw ObjectNotFound
     | Some x \<Rightarrow>
         fo_bind (delete_from_storage env (lf_content (acc_folder a)) k) (\<lambda>_.
         fo_bind (delete_row x) (\<lambda>_.
         fo_bind (notice_folder (ObjectRemoved i (obj_id x))) (\<lambda>_. fo_return True)))))"

definition getFolderObjectAsUser :: "folder_env \<Rightarrow> string \<Rightarrow> string \<Rightarrow> string \<Rightarrow> folder_object fom" where
  "getFolderObjectAsUser env actor i k = fo_bind (getFolderAsUser env actor i) (\<lambda>_.
     fo_bind (fo_read (find_object i k)) (\<lambda>x. case x of None \<Rightarrow> fo_throw ObjectNotFound | Some x \<Rightarrow> fo_return x))"

definition getFolderMetadata :: "folder_env \<Rightarrow> string \<Rightarrow> string \<Rightarrow> (nat \<times> int) fom" where
  "getFolderMetadata env actor i = fo_bind (getFolderAsUser env actor i) (\<lambda>_.
     fo_read (\<lambda>db. let xs = filter (\<lambda>x. obj_folderId x = i) (object_rows db) in (length xs, sum_list (map obj_sizeBytes xs))))"

definition listFolderObjectsAsUser :: "folder_env \<Rightarrow> string \<Rightarrow> string \<Rightarrow> object_query \<Rightarrow> object_page fom" where
  "listFolderObjectsAsUser env actor i q = fo_bind (getFolderAsUser env actor i) (\<lambda>a.
     fo_bind (fo_read (\<lambda>db. listFolderObjects (listing env) i q (object_rows db))) (\<lambda>p. case p of
       None \<Rightarrow> fo_throw FolderInternal | Some p \<Rightarrow> fo_return p))"

section \<open>The index of a folder\<close>

definition relative_key :: "storage_target \<Rightarrow> string \<Rightarrow> string" where
  "relative_key t k = (if trg_prefix t = [] then k
     else drop (length (trg_prefix t) + (if ends_slash (trg_prefix t) then 0 else 1)) k)"

definition has_content :: "object_update \<Rightarrow> bool" where
  "has_content u = (case up_size u of None \<Rightarrow> False | Some s \<Rightarrow> 0 < s)"

primrec index_objects :: "folder_env \<Rightarrow> nat \<Rightarrow> task_env \<Rightarrow> int \<Rightarrow> string \<Rightarrow> storage_target \<Rightarrow> (string \<times> object_update) list \<Rightarrow> unit fom" where
  "index_objects env n tenv now i t [] = fo_return ()"
| "index_objects env n tenv now i t (x # xs) =
     fo_bind (if starts_with (relative_key t (fst x)) ''.lombok_'' \<or> \<not> has_content (snd x) then fo_return ()
       else fo_bind (updateFolderObjectInDB env n tenv now i (relative_key t (fst x)) (snd x)) (\<lambda>_. fo_return ()))
     (\<lambda>_. index_objects env n tenv now i t xs)"

text \<open>The pages of the bucket; \<open>None\<close> is the first one.  A listing without an end uses up the fuel.\<close>

primrec index_pages :: "nat \<Rightarrow> folder_env \<Rightarrow> nat \<Rightarrow> task_env \<Rightarrow> int \<Rightarrow> string \<Rightarrow> storage_target \<Rightarrow> string option \<Rightarrow> unit fom" where
  "index_pages 0 env n tenv now i t token = fo_throw FolderNoReturn"
| "index_pages (Suc m) env n tenv now i t token =
     fo_bind (fo_lift (storage_result (s3_list env t (if token = Some [] then None else token)))) (\<lambda>p.
     fo_bind (index_objects env n tenv now i t (fst p)) (\<lambda>_. case snd p of
       None \<Rightarrow> fo_return () | Some c \<Rightarrow> index_pages m env n tenv now i t (Some c)))"

definition clear_objects :: "string \<Rightarrow> unit fom" where
  "clear_objects i = fo_modify (\<lambda>db. db\<lparr>object_rows := filter (\<lambda>x. obj_folderId x \<noteq> i) (object_rows db)\<rparr>)"

definition reindexFolder :: "nat \<Rightarrow> folder_env \<Rightarrow> nat \<Rightarrow> task_env \<Rightarrow> int \<Rightarrow> string \<Rightarrow> unit fom" where
  "reindexFolder m env n tenv now i = fo_bind (getFolder env i) (\<lambda>f.
     fo_bind (clear_objects i) (\<lambda>_.
       index_pages m env n tenv now i (lf_content f) (Some [])))"

text \<open>The processor of the core task.\<close>

definition reindex_processor :: "nat \<Rightarrow> folder_env \<Rightarrow> nat \<Rightarrow> task_env \<Rightarrow> int \<Rightarrow> task \<Rightarrow> unit fom" where
  "reindex_processor m env n tenv now x =
     (case (invocation x, js_prop (task_data x) ''folderId'') of
        (UserAction u r, Some (Some (JStr f))) \<Rightarrow>
          if u = [] \<or> f = [] then fo_throw MissingTaskData else reindexFolder m env n tenv now f
      | _ \<Rightarrow> fo_throw MissingTaskData)"

definition queueReindexFolderAsUser :: "folder_env \<Rightarrow> task_env \<Rightarrow> int \<Rightarrow> string \<Rightarrow> string \<Rightarrow> string \<Rightarrow> unit fom" where
  "queueReindexFolderAsUser env tenv now threadId actor i = fo_bind (getFolderAsUser env actor i) (\<lambda>a.
     if FOLDER_REINDEX \<in> set (acc_permissions a)
     then fo_bind (in_folder_engine (triggerCoreUserActionTask tenv now threadId actor ''reindex_folder''
       \<lparr>ta_data = JObj [(''folderId'', JStr i)], ta_correlationKey = None, ta_dontStartBefore = None, ta_targetUserId = None,
        ta_targetLocation = Some (i, None), ta_policy = None, ta_onComplete = [], ta_onProgress = []\<rparr>)) (\<lambda>_. fo_return ())
     else fo_return ())"

end
