(* ===== verification/Folder_Tables.thy ===== *)
theory Folder_Tables
  imports Folder_Requests
begin

text \<open>
  What the requests on folders keep.  The locale \<open>folder_relation\<close> is for the relations between the tables
  before and after an operation that do not look outside them; \<open>folder_frame\<close> adds what the writes to one
  folder keep, and shows that every action on that folder and its reindexing keep it.  Its instances are the
  well-formedness of the tables (\<open>folder_tables_kept\<close>) and the rows of another folder
  (\<open>folder_isolation\<close>).
\<close>

definition fo_keeps :: "(folder_db \<Rightarrow> folder_db \<Rightarrow> bool) \<Rightarrow> 'a fom \<Rightarrow> bool" where
  "fo_keeps R m \<longleftrightarrow> (\<forall>db. R db (snd (m db)))"

lemma fo_keepsD: "fo_keeps R m \<Longrightarrow> R db (snd (m db))"
  by (simp add: fo_keeps_def)

definition same_links :: "folder \<Rightarrow> folder \<Rightarrow> bool" where
  "same_links x y \<longleftrightarrow> fld_id x = fld_id y \<and> fld_ownerId x = fld_ownerId y
     \<and> fld_contentLocationId x = fld_contentLocationId y \<and> fld_metadataLocationId x = fld_metadataLocationId y"

section \<open>Relations that do not look outside the tables\<close>

locale folder_relation =
  fixes R :: "folder_db \<Rightarrow> folder_db \<Rightarrow> bool"
  assumes same_db: "R db db"
    and through: "R a b \<Longrightarrow> R b c \<Longrightarrow> R a c"
    and outside: "R db (db\<lparr>folder_randoms := w, storage_deletes := x, folder_notices := y, folder_engine := z\<rparr>)"
begin

lemma outside_parts:
  "R db (db\<lparr>folder_randoms := w\<rparr>)" "R db (db\<lparr>storage_deletes := x\<rparr>)" "R db (db\<lparr>folder_notices := y\<rparr>)" "R db (db\<lparr>folder_engine := z\<rparr>)"
proof -
  show "R db (db\<lparr>folder_randoms := w\<rparr>)"
    using outside [of db "folder_engine db" "folder_notices db" "storage_deletes db" w] by simp
  show "R db (db\<lparr>storage_deletes := x\<rparr>)"
    using outside [of db "folder_engine db" "folder_notices db" x "folder_randoms db"] by simp
  show "R db (db\<lparr>folder_notices := y\<rparr>)"
    using outside [of db "folder_engine db" y "storage_deletes db" "folder_randoms db"] by simp
  show "R db (db\<lparr>folder_engine := z\<rparr>)"
    using outside [of db z "folder_notices db" "storage_deletes db" "folder_randoms db"] by simp
qed

lemma keeps_pure:
  "fo_keeps R (fo_return x)" "fo_keeps R (fo_throw e)" "fo_keeps R (fo_read g)" "fo_keeps R (fo_lift r)" "fo_keeps R (fo_require b e)"
  by (simp_all add: fo_keeps_def fo_return_def fo_throw_def fo_read_def fo_lift_def fo_require_def same_db split: sum.split)

lemma keeps_outside:
  "fo_keeps R (fo_uuid g)" "fo_keeps R (in_folder_engine m)" "fo_keeps R (notice_folder x)" "fo_keeps R (delete_from_storage env t k)"
  by (auto simp: fo_keeps_def fo_uuid_def in_folder_engine_def notice_folder_def delete_from_storage_def fo_modify_def fo_throw_def
    outside_parts same_db split: prod.splits sum.splits option.splits)

lemma keeps_bind: "fo_keeps R m \<Longrightarrow> (\<And>x. fo_keeps R (f x)) \<Longrightarrow> fo_keeps R (fo_bind m f)"
  unfolding fo_keeps_def fo_bind_def by (auto split: prod.split sum.split dest: spec intro: through) (metis snd_conv through)+

lemma keeps_if: "(b \<Longrightarrow> fo_keeps R m) \<Longrightarrow> (\<not> b \<Longrightarrow> fo_keeps R m') \<Longrightarrow> fo_keeps R (if b then m else m')"
  by simp

lemma keeps_quietly: "fo_keeps R m \<Longrightarrow> fo_keeps R (quietly m)"
  by (simp add: quietly_def keeps_bind keeps_pure)

lemma keeps_transaction: "fo_keeps R m \<Longrightarrow> fo_keeps R (fo_transaction m)"
  unfolding fo_keeps_def fo_transaction_def restore_tables_def by (auto split: prod.split sum.split simp: outside) (metis snd_conv)

lemma keeps_opened:
  assumes "\<And>a db. getFolderAsUser env actor i db = (Inr a, db) \<Longrightarrow> may_open actor i db \<Longrightarrow> R db (snd (f a db))"
  shows "fo_keeps R (fo_bind (getFolderAsUser env actor i) f)"
  unfolding fo_keeps_def
proof
  fix db
  show "R db (snd (fo_bind (getFolderAsUser env actor i) f db))"
    by (cases rule: access_cases [of env actor i db]) (simp_all add: fo_bind_def same_db assms)
qed

lemma keeps_getFolder: "fo_keeps R (getFolder env i)"
  unfolding getFolder_def by (auto intro!: keeps_bind keeps_pure split: option.split)

lemma keeps_access: "fo_keeps R (getFolderAsUser env actor i)"
  unfolding getFolderAsUser_def Let_def by (auto intro!: keeps_bind keeps_if keeps_pure keeps_getFolder split: option.split)

lemma keeps_permission: "fo_keeps R (with_permission env actor i p)"
  unfolding with_permission_def by (intro keeps_bind keeps_pure keeps_access)

end

section \<open>Writes to one folder\<close>

locale folder_frame = folder_relation +
  fixes j :: string
  assumes frame_update: "(\<And>x. same_links (f x) x) \<Longrightarrow> fo_keeps R (update_folder j f)"
    and frame_delete: "fo_keeps R (delete_folder_rows j)"
    and frame_preference: "find_folder j db \<noteq> None \<Longrightarrow> R db (snd (write_preference now u j b db))"
    and frame_share: "find_folder j db \<noteq> None \<Longrightarrow> u \<in> set (known_users db) \<Longrightarrow> R db (snd (write_share j u ps db))"
    and frame_drop: "fo_keeps R (drop_share j u)"
    and frame_object: "obj_folderId v = j \<Longrightarrow> fo_keeps R (upsert_object u' v)"
    and frame_row: "find_object j k db = Some x \<Longrightarrow> R db (snd (delete_row x db))"
    and frame_clear: "fo_keeps R (clear_objects j)"
begin

lemma keeps_check: "fo_keeps R (checkAndUpdateFolderAccessError env now j)"
  unfolding checkAndUpdateFolderAccessError_def by (intro keeps_bind keeps_getFolder frame_update) (simp add: same_links_def)

lemma keeps_object_update: "fo_keeps R (updateFolderObjectInDB env n tenv now j k u)"
proof -
  have "obj_folderId (object_row env now i j k u) = j" for i by (simp add: object_row_def Let_def)
  then show ?thesis
    unfolding updateFolderObjectInDB_def Let_def by (auto intro!: keeps_bind keeps_outside keeps_pure frame_object)
qed

lemma keeps_index_objects: "fo_keeps R (index_objects env n tenv now j t xs)"
  by (induction xs) (auto intro!: keeps_bind keeps_pure keeps_object_update)

lemma keeps_index_pages: "fo_keeps R (index_pages m env n tenv now j t c)"
  by (induction m arbitrary: c) (auto intro!: keeps_bind keeps_pure keeps_index_objects split: option.split)

lemma keeps_reindex: "fo_keeps R (reindexFolder m env n tenv now j)"
  unfolding reindexFolder_def by (intro keeps_bind keeps_getFolder frame_clear keeps_index_pages)

lemma keeps_rename: "fo_keeps R (updateFolderAsUser env now actor j name)"
  unfolding updateFolderAsUser_def by (intro keeps_bind keeps_permission frame_update) (simp add: same_links_def)

lemma keeps_delete: "fo_keeps R (deleteFolderAsUser env actor j)"
  unfolding deleteFolderAsUser_def by (intro keeps_bind keeps_permission frame_delete keeps_pure)

lemma keeps_star: "fo_keeps R (setFolderStarredAsUser env now actor j b)"
  unfolding setFolderStarredAsUser_def
proof (rule keeps_opened)
  fix a db
  assume "may_open actor j db"
  then have "R db (snd (write_preference now actor j b db))" by (intro frame_preference) (auto simp: may_open_def)
  then show "R db (snd (fo_bind (write_preference now actor j b) (\<lambda>_. fo_return b) db))"
    by (auto simp: fo_bind_def fo_return_def split: prod.split sum.split)
qed

lemma keeps_put_share: "fo_keeps R (upsertFolderShare env actor j u ps)"
  unfolding upsertFolderShare_def
  by (rule keeps_opened)
    (auto simp: fo_simps require_user_def may_open_def same_db intro: frame_share [unfolded fo_simps])

lemma keeps_drop_share: "fo_keeps R (removeFolderShare env actor j u)"
  unfolding removeFolderShare_def require_user_def by (intro keeps_bind keeps_access keeps_pure frame_drop)

lemma keeps_refresh: "fo_keeps R (refreshFolderObjectS3MetadataAsUser env n tenv now actor j k e)"
  unfolding refreshFolderObjectS3MetadataAsUser_def Let_def by (intro keeps_bind keeps_access keeps_pure keeps_object_update)

lemma row_found: "fo_keeps R (fo_bind (fo_read (find_object j k)) (\<lambda>x. case x of None \<Rightarrow> fo_throw e
    | Some x \<Rightarrow> fo_bind (delete_from_storage env t k) (\<lambda>_. fo_bind (delete_row x) (\<lambda>_. fo_bind (notice_folder (g x)) (\<lambda>_. fo_return True)))))"
  unfolding fo_keeps_def
proof
  fix db :: folder_db
  let ?db = "db\<lparr>storage_deletes := storage_deletes db @ [(t, k)]\<rparr>"
  have row: "R db (snd (delete_row x ?db))" if "find_object j k db = Some x" for x
    using through [OF outside_parts(2)] frame_row [of k ?db x] that by (simp add: find_object_def)
  have "R db (snd (notice_folder y (snd (delete_row x ?db))))" if "find_object j k db = Some x" for x y
    using through [OF row [OF that] fo_keepsD [OF keeps_outside(3)]] .
  then show "R db (snd (fo_bind (fo_read (find_object j k)) (\<lambda>x. case x of None \<Rightarrow> fo_throw e
    | Some x \<Rightarrow> fo_bind (delete_from_storage env t k) (\<lambda>_. fo_bind (delete_row x) (\<lambda>_. fo_bind (notice_folder (g x)) (\<lambda>_. fo_return True)))) db))"
    by (auto simp: fo_simps delete_from_storage_def delete_row_def notice_folder_def same_db split: option.split)
qed

lemma keeps_delete_object: "fo_keeps R (deleteFolderObjectAsUser env actor j k)"
  unfolding deleteFolderObjectAsUser_def by (intro keeps_bind keeps_permission row_found)

lemma keeps_queue: "fo_keeps R (queueReindexFolderAsUser env tenv now thread actor j)"
  unfolding queueReindexFolderAsUser_def by (intro keeps_bind keeps_if keeps_access keeps_outside keeps_pure)

lemma action_keeps: "fo_keeps R (run_action env n tenv now thread actor j a)"
proof (cases a)
  case (ListObjects q)
  then show ?thesis
    by (auto simp: listFolderObjectsAsUser_def intro!: keeps_quietly keeps_bind keeps_access keeps_pure split: option.split)
next
  case (ReadObject k)
  then show ?thesis
    by (auto simp: getFolderObjectAsUser_def intro!: keeps_quietly keeps_bind keeps_access keeps_pure split: option.split)
next
  case (ReadShare u)
  then show ?thesis by (simp only: fo_keeps_def read_share snd_conv same_db simp_thms)
qed (simp_all only: run_action.simps checkFolderAccess_def reindex_request_def listFolderShares_def listFolderShareUsersAsUser_def
    createPresignedUrlsAsUser_def getFolderMetadata_def, (intro keeps_quietly keeps_bind keeps_permission keeps_access keeps_pure keeps_rename keeps_delete keeps_star
    keeps_check keeps_queue keeps_put_share keeps_drop_share keeps_refresh keeps_delete_object)+)

end

section \<open>Well-formed tables\<close>

definition share_key :: "folder_share \<Rightarrow> string \<times> string" where "share_key s = (shr_folderId s, shr_userId s)"
definition preference_key :: "folder_preference \<Rightarrow> string \<times> string" where "preference_key p = (prf_folderId p, prf_userId p)"
definition row_key :: "folder_object \<Rightarrow> string \<times> string" where "row_key x = (obj_folderId x, obj_objectKey x)"

text \<open>Ids and keys are unique; shares, objects and preferences are of folders that exist, shares and
  folders of users that exist, and the locations of a folder exist.\<close>

definition folder_tables :: "folder_db \<Rightarrow> bool" where
  "folder_tables db \<longleftrightarrow> distinct (map fld_id (folders db)) \<and> distinct (map share_key (shares db))
     \<and> distinct (map preference_key (preferences db)) \<and> distinct (map loc_id (locations db))
     \<and> distinct (map obj_id (object_rows db)) \<and> distinct (map row_key (object_rows db))
     \<and> shr_folderId ` set (shares db) \<union> prf_folderId ` set (preferences db) \<union> obj_folderId ` set (object_rows db) \<subseteq> fld_id ` set (folders db)
     \<and> shr_userId ` set (shares db) \<union> fld_ownerId ` set (folders db) \<subseteq> set (known_users db)
     \<and> (\<Union>f\<in>set (folders db). set_option (fld_contentLocationId f) \<union> set_option (fld_metadataLocationId f)) \<subseteq> loc_id ` set (locations db)"

definition tables_kept :: "folder_db \<Rightarrow> folder_db \<Rightarrow> bool" where
  "tables_kept db d \<longleftrightarrow> (folder_tables db \<longrightarrow> folder_tables d)"

lemma find_folder_some: "find_folder i db = Some f \<Longrightarrow> f \<in> set (folders db) \<and> fld_id f = i"
  by (auto simp: find_folder_def find_Some_iff)

lemma no_share: "find_share i u db = None \<longleftrightarrow> (i, u) \<notin> share_key ` set (shares db)"
  by (auto simp: find_share_def find_None_iff share_key_def)

lemma no_preference: "find_preference i u db = None \<longleftrightarrow> (i, u) \<notin> preference_key ` set (preferences db)"
  by (auto simp: find_preference_def find_None_iff preference_key_def)

lemma no_object: "find_object i k db = None \<longleftrightarrow> (i, k) \<notin> row_key ` set (object_rows db)"
  by (auto simp: find_object_def find_None_iff object_at_def row_key_def)

interpretation tables: folder_relation tables_kept
  by unfold_locales (auto simp: tables_kept_def folder_tables_def)

lemma distinct_filter_map: "distinct (map f xs) \<Longrightarrow> distinct (map f (filter p xs))"
  by (auto simp: distinct_map intro: inj_on_subset)

lemma folders_mapped:
  assumes "\<And>x. same_links (h x) x"
  shows "folder_tables (db\<lparr>folders := map h (folders db)\<rparr>) \<longleftrightarrow> folder_tables db"
proof -
  have "fld_id (h x) = fld_id x" "fld_ownerId (h x) = fld_ownerId x"
    "fld_contentLocationId (h x) = fld_contentLocationId x" "fld_metadataLocationId (h x) = fld_metadataLocationId x" for x
    using assms [of x] by (simp_all add: same_links_def)
  then show ?thesis by (simp add: folder_tables_def image_image comp_def)
qed

lemma tables_update: "(\<And>x. same_links (f x) x) \<Longrightarrow> fo_keeps tables_kept (update_folder j f)"
  unfolding fo_keeps_def update_folder_def fo_modify_def tables_kept_def snd_conv
  by (subst folders_mapped) (auto simp: same_links_def)

lemma deleted_subset: "g ` set xs \<subseteq> fld_id ` A \<Longrightarrow> j \<notin> g ` set xs \<Longrightarrow> g ` set xs \<subseteq> fld_id ` {x \<in> A. fld_id x \<noteq> j}"
  by force

lemma deleted_filter: "g ` set xs \<subseteq> fld_id ` A \<Longrightarrow> g ` {x \<in> set xs. g x \<noteq> j} \<subseteq> fld_id ` {x \<in> A. fld_id x \<noteq> j}"
  by force

lemma tables_delete: "fo_keeps tables_kept (delete_folder_rows j)"
  unfolding fo_keeps_def
proof
  fix db :: folder_db
  have "folder_tables (snd (delete_folder_rows j db))" if ok: "folder_tables db" and free: "j \<in> fld_id ` set (folders db) \<longrightarrow> \<not> folder_referenced j db"
  proof -
    have j: "j \<notin> shr_folderId ` set (shares db)" using ok free by (auto simp: folder_tables_def folder_referenced_def)
    show ?thesis
      using ok free unfolding folder_tables_def delete_folder_rows_def
      by (auto simp: distinct_filter_map deleted_subset [OF _ j] deleted_filter simp del: if_split)
  qed
  then show "tables_kept db (snd (delete_folder_rows j db))"
    by (cases "j \<in> fld_id ` set (folders db) \<and> folder_referenced j db") (auto simp: tables_kept_def delete_folder_rows_def)
qed

lemma tables_preference: "find_folder j db \<noteq> None \<Longrightarrow> tables_kept db (snd (write_preference now u j b db))"
proof -
  assume "find_folder j db \<noteq> None"
  then have j: "j \<in> fld_id ` set (folders db)" by (auto dest: find_folder_some)
  let ?f = "\<lambda>p. if prf_folderId p = j \<and> prf_userId p = u then p\<lparr>prf_starred := b, prf_updatedAt := now\<rparr> else p"
  have same: "preference_key (?f p) = preference_key p" "prf_folderId (?f p) = prf_folderId p" for p by (simp_all add: preference_key_def)
  show ?thesis
    using j no_preference [of j u db]
    by (auto simp: write_preference_def fo_modify_def tables_kept_def folder_tables_def comp_def same image_image
      preference_key_def [of "\<lparr>prf_userId = _, prf_folderId = _, prf_starred = _, prf_createdAt = _, prf_updatedAt = _\<rparr>"] simp del: if_split)
qed

lemma tables_share:
  "find_folder j db \<noteq> None \<Longrightarrow> u \<in> set (known_users db) \<Longrightarrow> tables_kept db (snd (write_share j u ps db))"
proof -
  assume f: "find_folder j db \<noteq> None" and u: "u \<in> set (known_users db)"
  then have j: "j \<in> fld_id ` set (folders db)" by (auto dest: find_folder_some)
  let ?f = "\<lambda>s. if shr_folderId s = j \<and> shr_userId s = u then s\<lparr>shr_permissions := ps\<rparr> else s"
  have same: "share_key (?f p) = share_key p" "shr_folderId (?f p) = shr_folderId p" "shr_userId (?f p) = shr_userId p" for p
    by (simp_all add: share_key_def)
  show ?thesis
    using j u no_share [of j u db]
    by (auto simp: write_share_def fo_modify_def tables_kept_def folder_tables_def comp_def same image_image
      share_key_def [of "\<lparr>shr_folderId = _, shr_userId = _, shr_permissions = _\<rparr>"] simp del: if_split)
qed

lemma tables_drop: "fo_keeps tables_kept (drop_share j u)"
  by (auto simp: fo_keeps_def drop_share_def fo_modify_def tables_kept_def folder_tables_def distinct_filter_map)

lemma tables_row: "tables_kept db (snd (delete_row x db))"
  by (auto simp: delete_row_def fo_modify_def tables_kept_def folder_tables_def distinct_filter_map)

lemma tables_clear: "fo_keeps tables_kept (clear_objects j)"
  by (auto simp: fo_keeps_def clear_objects_def fo_modify_def tables_kept_def folder_tables_def distinct_filter_map)

lemma conflict_same: "obj_id (conflict_row u v x) = obj_id x" "row_key (conflict_row u v x) = row_key x"
    "obj_folderId (conflict_row u v x) = obj_folderId x"
  by (simp_all add: conflict_row_def Let_def row_key_def)

lemma objects_mapped:
  assumes "\<And>x. obj_id (h x) = obj_id x \<and> row_key (h x) = row_key x \<and> obj_folderId (h x) = obj_folderId x"
  shows "folder_tables (db\<lparr>object_rows := map h (object_rows db)\<rparr>) \<longleftrightarrow> folder_tables db"
  using assms by (simp add: folder_tables_def image_image comp_def)

lemma tables_object: "fo_keeps tables_kept (upsert_object u v)"
  unfolding fo_keeps_def
proof
  fix db :: folder_db
  show "tables_kept db (snd (upsert_object u v db))"
  proof (cases "find_object (obj_folderId v) (obj_objectKey v) db")
    case None
    then have "row_key v \<notin> row_key ` set (object_rows db)" by (simp add: no_object row_key_def [of v])
    then show ?thesis using None by (auto simp: upsert_object_def tables_kept_def folder_tables_def)
  next
    case (Some x)
    then show ?thesis
      unfolding upsert_object_def Some tables_kept_def option.case snd_conv by (subst objects_mapped) (auto simp: conflict_same)
  qed
qed

interpretation all_tables: folder_frame tables_kept j for j
  by unfold_locales (rule tables_update tables_delete tables_preference tables_share tables_drop tables_object tables_row tables_clear; assumption?)+

section \<open>Creation\<close>

lemma kept_trans: "tables_kept a b \<Longrightarrow> tables_kept b c \<Longrightarrow> tables_kept a c"
  by (simp add: tables_kept_def)

lemma tables_location: "fo_keeps tables_kept (insert_location l)"
  by (auto simp: fo_keeps_def insert_location_def tables_kept_def folder_tables_def)

lemma tables_build: "fo_keeps tables_kept (buildLocation env u i k input)"
  unfolding buildLocation_def Let_def require_host_def
  by (cases input) (auto intro!: tables.keeps_bind tables.keeps_pure tables.keeps_if tables.keeps_outside tables_location split: option.split)

lemma tables_insert: "fo_keeps tables_kept (insert_folder f)"
  by (auto simp: fo_keeps_def insert_folder_def tables_kept_def folder_tables_def)

lemma tables_create: "fo_keeps tables_kept (create_folder_request env now u name c m)"
  unfolding create_folder_request_def createFolder_def Let_def
  by (intro tables.keeps_transaction tables.keeps_bind tables.keeps_outside tables_build tables_insert all_tables.keeps_check tables.keeps_pure)

lemma tables_request: "fo_keeps tables_kept (run_request env n tenv now thread actor r)"
  by (cases r) (auto intro!: tables.keeps_quietly tables_create all_tables.action_keeps)

section \<open>The life of the tables\<close>

text \<open>From the empty tables with some users: requests of anybody, reindexing by the core worker, and anything
  that happens in the task engine or to the list of rows elsewhere that refer to folders.\<close>

inductive folder_reachable :: "folder_env \<Rightarrow> task_env \<Rightarrow> folder_db \<Rightarrow> bool" for env tenv where
  start: "folder_reachable env tenv \<lparr>folders = [], shares = [], object_rows = [], preferences = [], locations = [], known_users = us,
     references = [], folder_randoms = 0, storage_deletes = [], folder_notices = [], folder_engine = e\<rparr>"
| requested: "folder_reachable env tenv db \<Longrightarrow> folder_reachable env tenv (snd (run_request env n tenv now thread actor r db))"
| reindexed: "folder_reachable env tenv db \<Longrightarrow> folder_reachable env tenv (snd (reindexFolder m env n tenv now i db))"
| elsewhere: "folder_reachable env tenv db \<Longrightarrow> folder_reachable env tenv (db\<lparr>references := rs, folder_engine := e\<rparr>)"

text \<open>C25: In every state the requests of users, the reindexing of folders and the rest of the platform can
  lead to, ids and keys are unique, every share, preference and object belongs to a folder that exists,
  shares and folders to users that exist, and the storage locations of a folder exist.\<close>

theorem folder_tables_kept: "folder_reachable env tenv db \<Longrightarrow> folder_tables db"
proof (induction rule: folder_reachable.induct)
  case (requested db n now thread actor r)
  then show ?case using fo_keepsD [OF tables_request] by (simp add: tables_kept_def)
next
  case (reindexed db m n now i)
  then show ?case using fo_keepsD [OF all_tables.keeps_reindex] by (simp add: tables_kept_def)
qed (simp_all add: folder_tables_def)

section \<open>The rows of another folder\<close>

definition folder_slice :: "string \<Rightarrow> folder_db \<Rightarrow>
    folder list \<times> folder_share list \<times> folder_preference list \<times> folder_object list" where
  "folder_slice i db = (filter (\<lambda>f. fld_id f = i) (folders db), filter (\<lambda>s. shr_folderId s = i) (shares db),
     filter (\<lambda>p. prf_folderId p = i) (preferences db), filter (\<lambda>x. obj_folderId x = i) (object_rows db))"

definition others_kept :: "string \<Rightarrow> string \<Rightarrow> folder_db \<Rightarrow> folder_db \<Rightarrow> bool" where
  "others_kept i j db d \<longleftrightarrow> (i \<noteq> j \<and> folder_tables db \<longrightarrow> folder_tables d \<and> folder_slice i d = folder_slice i db)"

lemma others_by: "(folder_tables db \<Longrightarrow> tables_kept db d) \<Longrightarrow> (i \<noteq> j \<Longrightarrow> folder_tables db \<Longrightarrow> folder_slice i d = folder_slice i db) \<Longrightarrow> others_kept i j db d"
  by (auto simp: others_kept_def tables_kept_def)

lemma others_keeps:
  "fo_keeps tables_kept m \<Longrightarrow> (\<And>db. i \<noteq> j \<Longrightarrow> folder_tables db \<Longrightarrow> folder_slice i (snd (m db)) = folder_slice i db) \<Longrightarrow>
   fo_keeps (others_kept i j) m"
  by (auto simp: fo_keeps_def intro: others_by)

lemma filter_mapped: "(\<And>x. p x \<Longrightarrow> h x = x) \<Longrightarrow> (\<And>x. p (h x) = p x) \<Longrightarrow> filter p (map h xs) = filter p xs"
  by (induction xs) auto

lemma other_update: "(\<And>x. same_links (f x) x) \<Longrightarrow> fo_keeps (others_kept i j) (update_folder j f)"
  unfolding fo_keeps_def
proof
  fix db :: folder_db
  assume f: "\<And>x. same_links (f x) x"
  then have "fld_id (f x) = fld_id x" for x by (simp add: same_links_def)
  then show "others_kept i j db (snd (update_folder j f db))"
    using fo_keepsD [OF tables_update [OF f]]
    by (intro others_by) (auto simp: update_folder_def fo_modify_def folder_slice_def intro!: filter_mapped)
qed

lemma other_delete: "fo_keeps (others_kept i j) (delete_folder_rows j)"
  unfolding fo_keeps_def
proof
  fix db :: folder_db
  show "others_kept i j db (snd (delete_folder_rows j db))"
    using fo_keepsD [OF tables_delete [of j]]
    by (intro others_by) (auto simp: delete_folder_rows_def folder_slice_def intro!: filter_cong)
qed

lemma other_preference: "find_folder j db \<noteq> None \<Longrightarrow> others_kept i j db (snd (write_preference now u j b db))"
  by (rule others_by [OF tables_preference]) (auto simp: write_preference_def fo_modify_def folder_slice_def intro!: filter_mapped)

lemma other_share:
  "find_folder j db \<noteq> None \<Longrightarrow> u \<in> set (known_users db) \<Longrightarrow> others_kept i j db (snd (write_share j u ps db))"
  by (rule others_by [OF tables_share]) (auto simp: write_share_def fo_modify_def folder_slice_def intro!: filter_mapped)

lemma other_drop: "fo_keeps (others_kept i j) (drop_share j u)"
  by (rule others_keeps [OF tables_drop]) (auto intro!: filter_cong simp: drop_share_def fo_modify_def folder_slice_def)

lemma other_object: "obj_folderId v = j \<Longrightarrow> fo_keeps (others_kept i j) (upsert_object u v)"
  by (rule others_keeps [OF tables_object]) (auto intro!: filter_mapped split: option.split
    simp: upsert_object_def folder_slice_def object_at_def conflict_same)

text \<open>Here the ids of the objects have to be unique.\<close>

lemma other_row: "find_object j k db = Some x \<Longrightarrow> others_kept i j db (snd (delete_row x db))"
proof (rule others_by [OF tables_row])
  assume "find_object j k db = Some x" and "i \<noteq> j" and "folder_tables db"
  then have x: "x \<in> set (object_rows db)" "obj_folderId x = j" "distinct (map obj_id (object_rows db))"
    by (auto simp: find_object_def find_Some_iff object_at_def folder_tables_def)
  then have "obj_id y \<noteq> obj_id x" if "y \<in> set (object_rows db)" "obj_folderId y = i" for y
    using that \<open>i \<noteq> j\<close> by (auto simp: distinct_map dest: inj_onD)
  then show "folder_slice i (snd (delete_row x db)) = folder_slice i db"
    by (auto simp: delete_row_def fo_modify_def folder_slice_def intro!: filter_cong)
qed

lemma other_clear: "fo_keeps (others_kept i j) (clear_objects j)"
  by (rule others_keeps [OF tables_clear]) (auto intro!: filter_cong simp: clear_objects_def fo_modify_def folder_slice_def)

interpretation other_rows: folder_relation "others_kept i j" for i j
  by unfold_locales (auto simp: others_kept_def folder_tables_def folder_slice_def)

interpretation others: folder_frame "others_kept i j" j for i j
  by unfold_locales (rule other_update other_delete other_preference other_share other_drop other_object other_row other_clear; assumption?)+

text \<open>A creation only adds rows.\<close>

lemma other_location: "folder_slice i (snd (insert_location l db)) = folder_slice i db"
  by (simp add: insert_location_def folder_slice_def)

lemma other_insert: "i \<in> fld_id ` set (folders db) \<Longrightarrow> folder_slice i (snd (insert_folder f db)) = folder_slice i db"
  by (auto simp: insert_folder_def folder_slice_def)

end
