(* ===== verification/Folder_Sharing.thy ===== *)
theory Folder_Sharing
  imports Folder_Tables
begin

text \<open>
  Who can do what to a folder: nothing but read a share without access to it (\<open>folder_isolation\<close>), anything to its shares with
  any access (\<open>shares_unguarded\<close>), signed URLs only under its prefix (\<open>signed_urls_confined\<close>); and what its
  deletion and that of an object do (\<open>folder_deletion\<close>, \<open>deletion_misses_object\<close>).
\<close>

section \<open>Without access\<close>

text \<open>What a creation keeps of a folder that exists.\<close>

definition present_kept :: "string \<Rightarrow> folder_db \<Rightarrow> folder_db \<Rightarrow> bool" where
  "present_kept i db d \<longleftrightarrow> (folder_tables db \<and> i \<in> fld_id ` set (folders db) \<longrightarrow>
     folder_tables d \<and> i \<in> fld_id ` set (folders d) \<and> folder_slice i d = folder_slice i db)"

interpretation present: folder_relation "present_kept i" for i
  by unfold_locales (auto simp: present_kept_def folder_tables_def folder_slice_def)

lemma slice_present: "folder_slice i d = folder_slice i db \<Longrightarrow> i \<in> fld_id ` set (folders db) \<Longrightarrow> i \<in> fld_id ` set (folders d)"
proof -
  assume s: "folder_slice i d = folder_slice i db" and i: "i \<in> fld_id ` set (folders db)"
  have "filter (\<lambda>f. fld_id f = i) (folders db) \<noteq> []" using i by (auto simp: filter_empty_conv)
  moreover have "filter (\<lambda>f. fld_id f = i) (folders d) = filter (\<lambda>f. fld_id f = i) (folders db)"
    using s by (simp add: folder_slice_def)
  ultimately have "filter (\<lambda>f. fld_id f = i) (folders d) \<noteq> []" by simp
  then show ?thesis by (auto simp: filter_empty_conv)
qed

lemma present_location: "fo_keeps (present_kept i) (insert_location l)"
  using fo_keepsD [OF tables_location [of l]]
  by (auto simp: fo_keeps_def present_kept_def tables_kept_def other_location intro: slice_present)

lemma present_build: "fo_keeps (present_kept i) (buildLocation env u j k input)"
  unfolding buildLocation_def Let_def require_host_def
  by (cases input) (auto intro!: present.keeps_bind present.keeps_pure present.keeps_if present.keeps_outside present_location split: option.split)

lemma present_new:
  assumes "\<And>x. fo_keeps (present_kept i) (g x)"
  shows "fo_keeps (present_kept i) (fo_bind (insert_folder f) (\<lambda>_. fo_bind (checkAndUpdateFolderAccessError env now (fld_id f)) g))"
  unfolding fo_keeps_def
proof
  fix db :: folder_db
  have insert: "present_kept i db (snd (insert_folder f db))"
    using fo_keepsD [OF tables_insert [of f], of db] other_insert [of i db f]
    by (auto simp: present_kept_def tables_kept_def intro: slice_present)
  have check: "present_kept i d (snd (fo_bind (checkAndUpdateFolderAccessError env now (fld_id f)) g d))"
    if "i \<noteq> fld_id f" for d
  proof (rule present.keeps_bind [unfolded fo_keeps_def, rule_format])
    fix d
    have "others_kept i (fld_id f) d (snd (checkAndUpdateFolderAccessError env now (fld_id f) d))"
      by (rule fo_keepsD [OF others.keeps_check])
    then show "present_kept i d (snd (checkAndUpdateFolderAccessError env now (fld_id f) d))"
      using that by (auto simp: others_kept_def present_kept_def intro: slice_present)
  next
    fix x d
    show "present_kept i d (snd (g x d))" by (rule fo_keepsD [OF assms])
  qed
  show "present_kept i db (snd (fo_bind (insert_folder f) (\<lambda>_. fo_bind (checkAndUpdateFolderAccessError env now (fld_id f)) g) db))"
  proof (cases "insert_folder f db")
    case (Pair r d)
    show ?thesis
    proof (cases r)
      case (Inl e)
      then show ?thesis using Pair insert by (simp add: fo_bind_def)
    next
      case (Inr u)
      then have "fld_id f \<notin> fld_id ` set (folders db)" using Pair by (auto simp: insert_folder_def split: if_splits)
      then have "i \<in> fld_id ` set (folders db) \<Longrightarrow> i \<noteq> fld_id f" by blast
      then have "present_kept i d (snd (fo_bind (checkAndUpdateFolderAccessError env now (fld_id f)) g d)) \<or> i \<notin> fld_id ` set (folders db)"
        using check by blast
      then show ?thesis
        using present.through [OF insert] Pair Inr by (auto simp: fo_bind_def present_kept_def)
    qed
  qed
qed

lemma present_create: "fo_keeps (present_kept i) (create_folder_request env now u name c m)"
proof -
  have "fo_keeps (present_kept i) (let f = \<lparr>fld_id = j, fld_name = name, fld_ownerId = u, fld_contentLocationId = map_option loc_id a,
      fld_metadataLocationId = map_option loc_id b, fld_accessError = None, fld_createdAt = now, fld_updatedAt = now\<rparr>
    in fo_bind (insert_folder f) (\<lambda>_. fo_bind (checkAndUpdateFolderAccessError env now j) (\<lambda>_. fo_bind (fo_read (\<lambda>db. attachResolvedLocations env db f)) fo_lift)))"
    for j a b
    unfolding Let_def using present_new [of i "\<lambda>_. fo_bind (fo_read (\<lambda>db. attachResolvedLocations env db f)) fo_lift"
        "\<lparr>fld_id = j, fld_name = name, fld_ownerId = u, fld_contentLocationId = map_option loc_id a,
      fld_metadataLocationId = map_option loc_id b, fld_accessError = None, fld_createdAt = now, fld_updatedAt = now\<rparr>" env now for f]
    by (simp add: present.keeps_bind present.keeps_pure)
  then show ?thesis
    unfolding create_folder_request_def createFolder_def
    by (intro present.keeps_transaction present.keeps_bind present.keeps_outside present_build)
qed

text \<open>C13: A user who neither owns a folder nor has a share of it changes nothing of it, whatever he asks for:
  its row, its shares, its stars and its objects stay; and every request that names the folder fails, but for
  one that is answered: \<open>GET shares/:userId\<close> asks for no access and tells him whether a user has a share.\<close>

theorem folder_isolation:
  assumes "folder_tables db" and "find_folder i db \<noteq> None" and "\<not> may_open actor i db"
  shows "folder_slice i (snd (run_request env n tenv now thread actor r db)) = folder_slice i db
    \<and> (case a of
        ReadShare u \<Rightarrow> run_request env n tenv now thread actor (OfFolder i a) db
          = (if find_share i u db = None then Inl ShareNotFound else Inr (), db)
      | _ \<Rightarrow> (\<exists>e. run_request env n tenv now thread actor (OfFolder i a) db = (Inl e, db)))"
proof
  show "case a of
        ReadShare u \<Rightarrow> run_request env n tenv now thread actor (OfFolder i a) db
          = (if find_share i u db = None then Inl ShareNotFound else Inr (), db)
      | _ \<Rightarrow> (\<exists>e. run_request env n tenv now thread actor (OfFolder i a) db = (Inl e, db))"
    using denied_action [OF assms(3), of a env n tenv now thread] read_share [of env n tenv now thread actor i _ db]
    by (cases a) (simp_all only: run_request.simps folder_action.simps reads_share.simps not_False_eq_True simp_thms)
  show "folder_slice i (snd (run_request env n tenv now thread actor r db)) = folder_slice i db"
  proof (cases r)
    case (CreateFolder name c m)
    have "i \<in> fld_id ` set (folders db)" using assms(2) by (auto dest: find_folder_some)
    then show ?thesis
      using fo_keepsD [OF present.keeps_quietly [OF present_create], of i db env now actor name c m] assms(1) CreateFolder
      by (simp add: present_kept_def)
  next
    case (OfFolder j b)
    show ?thesis
    proof (cases "i = j")
      case True
      have "snd (run_action env n tenv now thread actor i b db) = db"
      proof (cases "reads_share b")
        case True
        then obtain u where "b = ReadShare u" by (cases b) simp_all
        then show ?thesis by (simp only: read_share snd_conv)
      next
        case False
        then obtain e where "run_action env n tenv now thread actor i b db = (Inl e, db)"
          using denied_action [OF assms(3)] by blast
        then show ?thesis by simp
      qed
      then show ?thesis using OfFolder True by simp
    next
      case False
      then show ?thesis
        using fo_keepsD [OF others.action_keeps, of i j db] assms(1) OfFolder by (auto simp: others_kept_def)
    qed
  qed
qed

section \<open>Shares\<close>

lemma opened:
  "getFolderAsUser env actor i db = (Inr a, db) \<Longrightarrow> find_folder i db = Some (lf_folder (acc_folder a)) \<and> acc_permissions a = permissions_of actor i db"
  by (cases rule: access_cases [of env actor i db]) auto

lemma find_after: "find p xs = None \<Longrightarrow> find p (xs @ ys) = find p ys"
  by (induction xs) (auto split: if_splits)

lemma written_share: "\<exists>s. find_share i u (snd (write_share i u ps db)) = Some s \<and> shr_permissions s = ps"
proof (cases "find_share i u db")
  case None
  then show ?thesis by (auto simp: write_share_def fo_modify_def find_share_def find_after)
next
  case (Some s)
  let ?f = "\<lambda>s. if shr_folderId s = i \<and> shr_userId s = u then s\<lparr>shr_permissions := ps\<rparr> else s"
  have "find (\<lambda>s. shr_folderId s = i \<and> shr_userId s = u) (map ?f xs) = map_option ?f (find (\<lambda>s. shr_folderId s = i \<and> shr_userId s = u) xs)"
    for xs :: "folder_share list"
    by (induction xs) auto
  moreover have "shr_folderId s = i \<and> shr_userId s = u" using Some by (auto simp: find_share_def find_Some_iff)
  ultimately show ?thesis using Some by (simp add: write_share_def fo_modify_def find_share_def)
qed

lemma share_folders: "folders (snd (write_share i u ps db)) = folders db" "folders (snd (drop_share i u db)) = folders db"
  by (simp_all add: write_share_def drop_share_def fo_modify_def)

text \<open>C26: Whoever can open a folder sets the permissions of any user to what he likes, his own included, and
  takes away any share: no permission is asked for.\<close>

theorem shares_unguarded:
  assumes "getFolderAsUser env actor i db = (Inr a, db)" and "u \<in> set (known_users db)"
    and "u \<noteq> fld_ownerId (lf_folder (acc_folder a))"
  shows "(\<exists>d. upsertFolderShare env actor i u ps db = (Inr (), d) \<and> permissions_of u i d = ps \<and> may_open u i d)
    \<and> (\<exists>d. removeFolderShare env actor i u db = (Inr (), d) \<and> \<not> may_open u i d)"
proof
  obtain s where s: "find_share i u (snd (write_share i u ps db)) = Some s" "shr_permissions s = ps" using written_share by blast
  note found = opened [OF assms(1)]
  have "upsertFolderShare env actor i u ps db = (Inr (), snd (write_share i u ps db))"
    using assms(1, 2) by (simp add: upsertFolderShare_def require_user_def write_share_def fo_simps)
  then show "\<exists>d. upsertFolderShare env actor i u ps db = (Inr (), d) \<and> permissions_of u i d = ps \<and> may_open u i d"
    using s found assms(3) by (simp add: permissions_of_def may_open_def find_folder_def share_folders)
  have "removeFolderShare env actor i u db = (Inr (), snd (drop_share i u db))"
    using assms(1, 2) by (simp add: removeFolderShare_def require_user_def drop_share_def fo_simps)
  moreover have "find_share i u (snd (drop_share i u db)) = None"
    by (auto simp: find_share_def drop_share_def fo_modify_def find_None_iff)
  ultimately show "\<exists>d. removeFolderShare env actor i u db = (Inr (), d) \<and> \<not> may_open u i d"
    using found assms(3) by (auto simp: may_open_def find_folder_def share_folders)
qed

section \<open>Signed URLs\<close>

lemma signed_key: "resolve_url env a r = Inr u \<Longrightarrow>
    (\<exists>t\<in>{lf_content (acc_folder a), lf_metadata (acc_folder a)}. \<exists>k. fst u = signed_url env t (method_name (url_method r)) (trg_prefix t @ k)
      \<and> (url_method r \<noteq> GET \<longrightarrow> t = lf_content (acc_folder a)))
    \<and> (url_method r \<in> {PUT, DELETE} \<longrightarrow> OBJECT_EDIT \<in> set (acc_permissions a))"
  by (cases "url_object r")
    (auto simp: resolve_url_def Let_def joinStoragePrefix_def split: if_splits)

lemma signed_keys: "resolve_urls env a rs = Inr us \<Longrightarrow> list_all2 (\<lambda>r u. resolve_url env a r = Inr u) rs us"
  by (induction rs arbitrary: us) (auto split: sum.splits)

text \<open>C27: Signed URLs are for keys under the prefix of the content or the metadata location of the folder, one
  for each request; other methods than GET only for content, and to write or delete it takes the permission
  to edit objects.\<close>

theorem signed_urls_confined:
  assumes "createPresignedUrlsAsUser env actor i rs db = (Inr us, d)"
  shows "d = db \<and> may_open actor i db \<and> (\<exists>a. getFolderAsUser env actor i db = (Inr a, db)
    \<and> list_all2 (\<lambda>r u. (\<exists>t\<in>{lf_content (acc_folder a), lf_metadata (acc_folder a)}. \<exists>k.
           fst u = signed_url env t (method_name (url_method r)) (trg_prefix t @ k) \<and> (url_method r \<noteq> GET \<longrightarrow> t = lf_content (acc_folder a)))
         \<and> (url_method r \<in> {PUT, DELETE} \<longrightarrow> OBJECT_EDIT \<in> set (permissions_of actor i db))) rs us)"
proof (cases rule: access_cases [of env actor i db])
  case (1 e)
  then show ?thesis using assms by (simp add: createPresignedUrlsAsUser_def fo_bind_def)
next
  case (2 a)
  then have "resolve_urls env a rs = Inr us" "d = db"
    using assms by (auto simp: createPresignedUrlsAsUser_def fo_simps split: sum.splits)
  then have "list_all2 (\<lambda>r u. resolve_url env a r = Inr u) rs us" by (simp add: signed_keys)
  then show ?thesis
    using 2 \<open>d = db\<close> by (auto elim!: list.rel_mono_strong dest!: signed_key)
qed

section \<open>Deletions\<close>

lemma permission_result:
  "with_permission env actor i p db = (Inr a, d) \<Longrightarrow> d = db \<and> getFolderAsUser env actor i db = (Inr a, db) \<and> p \<in> set (permissions_of actor i db)"
  by (cases rule: access_cases [of env actor i db]) (auto simp: with_permission_def fo_simps split: if_splits)

text \<open>C29: The deletion of a folder succeeds only for a user with the permission to forget it, and never while
  the folder has a share, a notification or settings; then the folder, its objects and its stars are gone, its
  tasks and events and no others are gone from the tables of the engine, and every other folder is as it was.
  Otherwise nothing changes.\<close>

theorem folder_deletion:
  assumes "deleteFolderAsUser env actor i db = (r, d)" and "folder_tables db"
  shows "(case fst (getFolderAsUser env actor i db) of
        Inl e \<Rightarrow> r = Inl e \<and> d = db
      | Inr a \<Rightarrow> if FOLDER_FORGET \<notin> set (permissions_of actor i db) then r = Inl FolderForbidden \<and> d = db
          else if folder_referenced i db then r = Inl (FolderDatabase ''violates foreign key constraint'') \<and> d = db
          else r = Inr True \<and> folder_slice i d = ([], [], [], []) \<and> find_folder i d = None
            \<and> tasks (folder_engine d) = filter (\<lambda>t. targetFolderId (snd t) \<noteq> Some i) (tasks (folder_engine db))
            \<and> events (folder_engine d) = filter (\<lambda>e. event_folderId (snd e) \<noteq> Some i) (events (folder_engine db)))
    \<and> (i \<noteq> j \<longrightarrow> folder_slice j d = folder_slice j db)"
proof
  have "others_kept j i db d" using fo_keepsD [OF others.keeps_delete, of j i db env actor] assms(1) by simp
  then show "i \<noteq> j \<longrightarrow> folder_slice j d = folder_slice j db" using assms(2) by (auto simp: others_kept_def)
  show "case fst (getFolderAsUser env actor i db) of
        Inl e \<Rightarrow> r = Inl e \<and> d = db
      | Inr a \<Rightarrow> if FOLDER_FORGET \<notin> set (permissions_of actor i db) then r = Inl FolderForbidden \<and> d = db
          else if folder_referenced i db then r = Inl (FolderDatabase ''violates foreign key constraint'') \<and> d = db
          else r = Inr True \<and> folder_slice i d = ([], [], [], []) \<and> find_folder i d = None
            \<and> tasks (folder_engine d) = filter (\<lambda>t. targetFolderId (snd t) \<noteq> Some i) (tasks (folder_engine db))
            \<and> events (folder_engine d) = filter (\<lambda>e. event_folderId (snd e) \<noteq> Some i) (events (folder_engine db))"
  proof (cases rule: access_cases [of env actor i db])
    case (1 e)
    then show ?thesis using assms(1) by (simp add: deleteFolderAsUser_def with_permission_def fo_bind_def)
  next
    case (2 a)
    then have here: "i \<in> fld_id ` set (folders db)" by (auto dest: find_folder_some)
    have "filter (\<lambda>s. shr_folderId s = i) (shares db) = []" if "\<not> folder_referenced i db"
      using that by (auto simp: folder_referenced_def filter_empty_conv)
    then show ?thesis
      using assms(1) 2(1, 4) here
      by (auto simp: deleteFolderAsUser_def with_permission_def delete_folder_rows_def fo_simps folder_slice_def find_folder_def
        find_None_iff split: if_splits)
  qed
qed

text \<open>The deletion of an object asks the storage for the bare key of the object, which for a location with a
  prefix is not the key the object was uploaded under: the row goes, the object in the bucket stays.\<close>

theorem deletion_misses_object:
  assumes "deleteFolderObjectAsUser env actor i k db = (Inr b, d)" and "folder_tables db"
  shows "\<exists>a. getFolderAsUser env actor i db = (Inr a, db) \<and> OBJECT_EDIT \<in> set (permissions_of actor i db)
    \<and> storage_deletes d = storage_deletes db @ [(lf_content (acc_folder a), k)]
    \<and> resolve_url env a \<lparr>url_object = ContentId k, url_method = PUT, url_keepEncoded = True\<rparr>
      = Inr (signed_url env (lf_content (acc_folder a)) ''PUT'' (joinStoragePrefix (trg_prefix (lf_content (acc_folder a))) k), k)
    \<and> (joinStoragePrefix (trg_prefix (lf_content (acc_folder a))) k = k \<longleftrightarrow> trg_prefix (lf_content (acc_folder a)) = [])
    \<and> find_object i k db \<noteq> None \<and> find_object i k d = None"
proof (cases "with_permission env actor i OBJECT_EDIT db")
  case (Pair q d')
  show ?thesis
  proof (cases q)
    case (Inl e)
    then show ?thesis using assms(1) Pair by (simp add: deleteFolderObjectAsUser_def fo_bind_def)
  next
    case (Inr a)
    note got = permission_result [OF Pair [unfolded Inr]]
    then have perm: "OBJECT_EDIT \<in> set (acc_permissions a)" using opened by metis
    have key: "joinStoragePrefix p k = k \<longleftrightarrow> p = []" for p :: string
      by (auto simp: joinStoragePrefix_def dest: arg_cong [where f = length])
    obtain x where x: "find_object i k db = Some x" "s3_delete env (lf_content (acc_folder a)) k = None"
      "d = snd (notice_folder (ObjectRemoved i (obj_id x)) (snd (delete_row x
         (db\<lparr>storage_deletes := storage_deletes db @ [(lf_content (acc_folder a), k)]\<rparr>))))"
      using assms(1) Pair Inr got
      by (auto simp: deleteFolderObjectAsUser_def delete_from_storage_def delete_row_def notice_folder_def fo_simps split: option.splits)
    have "find_object i k d = None"
    proof -
      have in_rows: "x \<in> set (object_rows db)" "object_at i k x" using x(1) by (auto simp: find_object_def find_Some_iff)
      have "inj_on row_key (set (object_rows db))" using assms(2) by (simp add: folder_tables_def distinct_map)
      then have "obj_id y = obj_id x" if "y \<in> set (object_rows db)" "object_at i k y" for y
        using inj_onD [of row_key "set (object_rows db)" y x] that in_rows by (simp add: object_at_def row_key_def)
      moreover have "object_rows d = filter (\<lambda>y. obj_id y \<noteq> obj_id x) (object_rows db)"
        by (simp add: x(3) notice_folder_def delete_row_def fo_modify_def)
      ultimately show ?thesis by (auto simp: find_object_def find_None_iff)
    qed
    moreover have "storage_deletes d = storage_deletes db @ [(lf_content (acc_folder a), k)]"
      by (simp add: x(3) notice_folder_def delete_row_def fo_modify_def)
    moreover have "resolve_url env a \<lparr>url_object = ContentId k, url_method = PUT, url_keepEncoded = True\<rparr>
      = Inr (signed_url env (lf_content (acc_folder a)) ''PUT'' (joinStoragePrefix (trg_prefix (lf_content (acc_folder a))) k), k)"
      by (simp add: resolve_url_def Let_def perm)
    moreover have "find_object i k db \<noteq> None" by (simp add: x(1))
    ultimately show ?thesis using got key by blast
  qed
qed

end
