(* ===== verification/Folder_Index.thy ===== *)
theory Folder_Index
  imports Folder_Tables
begin

text \<open>
  The index of a folder after its reindexing: the objects the listing of the bucket names, and no others
  (\<open>reindex_exact\<close>).
\<close>

section \<open>The listing\<close>

primrec listed :: "nat \<Rightarrow> folder_env \<Rightarrow> storage_target \<Rightarrow> string option \<Rightarrow> (folder_error + (string \<times> object_update) list) option" where
  "listed 0 env t token = None"
| "listed (Suc m) env t token = (case s3_list env t (if token = Some [] then None else token) of
     Inl e \<Rightarrow> Some (Inl (StorageFailed e))
   | Inr (xs, None) \<Rightarrow> Some (Inr xs)
   | Inr (xs, Some c) \<Rightarrow> (case listed m env t (Some c) of
        None \<Rightarrow> None | Some (Inl e) \<Rightarrow> Some (Inl e) | Some (Inr ys) \<Rightarrow> Some (Inr (xs @ ys))))"

definition indexed :: "storage_target \<Rightarrow> string \<times> object_update \<Rightarrow> bool" where
  "indexed t x \<longleftrightarrow> \<not> starts_with (relative_key t (fst x)) ''.lombok_'' \<and> has_content (snd x)"

definition index_entries :: "storage_target \<Rightarrow> (string \<times> object_update) list \<Rightarrow> (string \<times> int) list" where
  "index_entries t xs = map (\<lambda>x. (relative_key t (fst x), the (up_size (snd x)))) (filter (indexed t) xs)"

definition indexed_size :: "string \<Rightarrow> folder_db \<Rightarrow> string \<Rightarrow> int option" where
  "indexed_size i db k = map_option obj_sizeBytes (find_object i k db)"

section \<open>The row of an object\<close>

definition write_error :: "folder_error \<Rightarrow> bool" where
  "write_error e \<longleftrightarrow> (\<exists>m. e = FolderDatabase m) \<or> (\<exists>x. e = FolderEngine x)"

lemma find_mapped: "(\<And>x. p (h x) = p x) \<Longrightarrow> find p (map h xs) = map_option h (find p xs)"
  by (induction xs) auto

lemma find_appended: "find p (xs @ ys) = (case find p xs of None \<Rightarrow> find p ys | Some x \<Rightarrow> Some x)"
  by (induction xs) auto

lemma object_at_conflict: "object_at i k (conflict_row u v x) = object_at i k x"
  by (simp add: object_at_def conflict_row_def Let_def)

lemma upsert_size:
  assumes "upsert_object u v db = (Inr x, d)" and "obj_folderId v = i"
  shows "indexed_size i d = (indexed_size i db)(obj_objectKey v := Some (obj_sizeBytes v))"
    and "folder_randoms d = folder_randoms db" and "folders d = folders db"
proof -
  note d = assms(1)
  show "folder_randoms d = folder_randoms db" "folders d = folders db"
    using d by (auto simp: upsert_object_def split: option.splits if_splits)
  show "indexed_size i d = (indexed_size i db)(obj_objectKey v := Some (obj_sizeBytes v))"
  proof
    fix k
    have size: "obj_sizeBytes (conflict_row u v y) = obj_sizeBytes v" for y by (simp add: conflict_row_def Let_def)
    show "indexed_size i d k = ((indexed_size i db)(obj_objectKey v := Some (obj_sizeBytes v))) k"
    proof (cases "find_object (obj_folderId v) (obj_objectKey v) db")
      case None
      then have "object_rows d = object_rows db @ [v]" using d by (auto simp: upsert_object_def split: if_splits)
      then show ?thesis
        using None assms(2) by (auto simp: indexed_size_def find_object_def find_appended object_at_def split: option.split)
    next
      case (Some y)
      let ?h = "\<lambda>y. if object_at (obj_folderId v) (obj_objectKey v) y then conflict_row u v y else y"
      have "object_rows d = map ?h (object_rows db)" using d Some by (auto simp: upsert_object_def)
      then have rows: "find_object i k d = map_option ?h (find_object i k db)"
        by (simp add: find_object_def find_mapped object_at_conflict)
      have "object_at (obj_folderId v) (obj_objectKey v) y" using Some by (auto simp: find_object_def find_Some_iff)
      moreover have "\<not> object_at (obj_folderId v) (obj_objectKey v) z" if "find_object i k db = Some z" "k \<noteq> obj_objectKey v" for z
        using that by (auto simp: find_object_def find_Some_iff object_at_def)
      ultimately show ?thesis
        using Some assms(2) rows by (cases "find_object i k db") (auto simp: indexed_size_def size)
    qed
  qed
qed

lemma update_error: "updateFolderObjectInDB env n tenv now i k u db = (Inl e, d) \<Longrightarrow> write_error e"
  by (auto simp: updateFolderObjectInDB_def fo_simps Let_def upsert_object_def notice_folder_def in_folder_engine_def write_error_def
    split: option.splits if_splits prod.splits sum.splits)

lemma update_size:
  assumes "updateFolderObjectInDB env n tenv now i k u db = (Inr x, d)"
  shows "indexed_size i d = (indexed_size i db)(k := Some (case up_size u of Some s \<Rightarrow> s | None \<Rightarrow> 0))"
proof -
  let ?v = "object_row env now (folder_uuid env (folder_randoms db)) i k u"
  let ?db = "db\<lparr>folder_randoms := Suc (folder_randoms db)\<rparr>"
  have v: "obj_folderId ?v = i" "obj_objectKey ?v = k" "obj_sizeBytes ?v = (case up_size u of Some s \<Rightarrow> s | None \<Rightarrow> 0)"
    by (simp_all add: object_row_def Let_def)
  obtain y d' where up: "upsert_object u ?v ?db = (Inr y, d')"
    using assms by (cases "upsert_object u ?v ?db"; cases "fst (upsert_object u ?v ?db)") (auto simp: updateFolderObjectInDB_def fo_simps)
  have "object_rows d = object_rows d'"
    using assms up by (auto simp: updateFolderObjectInDB_def fo_simps Let_def notice_folder_def in_folder_engine_def
      split: prod.splits sum.splits)
  then have "indexed_size i d = indexed_size i d'" by (simp add: fun_eq_iff indexed_size_def find_object_def)
  moreover have "indexed_size i ?db = indexed_size i db" by (simp add: fun_eq_iff indexed_size_def find_object_def)
  ultimately show ?thesis using upsert_size(1) [OF up v(1)] v by simp
qed

section \<open>The pages\<close>

definition add_entries :: "(string \<times> int) list \<Rightarrow> (string \<Rightarrow> int option) \<Rightarrow> string \<Rightarrow> int option" where
  "add_entries es f = f ++ map_of (rev es)"

lemma index_step: "index_objects env n tenv now i t (x # xs) db =
    (if indexed t x then (case updateFolderObjectInDB env n tenv now i (relative_key t (fst x)) (snd x) db of
         (Inl e, d) \<Rightarrow> (Inl e, d) | (Inr y, d) \<Rightarrow> index_objects env n tenv now i t xs d)
     else index_objects env n tenv now i t xs db)"
  by (auto simp: indexed_def fo_bind_def fo_return_def split: prod.splits sum.splits)

lemma index_objects_result:
  "case index_objects env n tenv now i t xs db of
     (Inl e, d) \<Rightarrow> write_error e
   | (Inr u, d) \<Rightarrow> indexed_size i d = add_entries (index_entries t xs) (indexed_size i db)"
proof (induction xs arbitrary: db)
  case Nil
  then show ?case by (simp add: fo_return_def index_entries_def add_entries_def)
next
  case (Cons x xs)
  show ?case
  proof (cases "indexed t x")
    case False
    then have "index_entries t (x # xs) = index_entries t xs" by (simp add: index_entries_def)
    then show ?thesis using Cons.IH [of db] False by (auto simp: index_step simp del: index_objects.simps split: prod.splits sum.splits)
  next
    case True
    then obtain s where s: "up_size (snd x) = Some s" by (auto simp: indexed_def has_content_def split: option.splits)
    show ?thesis
    proof (cases "updateFolderObjectInDB env n tenv now i (relative_key t (fst x)) (snd x) db")
      case (Pair r d)
      show ?thesis
      proof (cases r)
        case (Inl e)
        then show ?thesis using True Pair update_error [of env n tenv now i _ _ db e d] by (simp add: index_step del: index_objects.simps)
      next
        case (Inr y)
        have size: "indexed_size i d = (indexed_size i db)(relative_key t (fst x) := Some s)"
          using update_size [OF Pair [unfolded Inr]] s by simp
        have run: "index_objects env n tenv now i t (x # xs) db = index_objects env n tenv now i t xs d"
          using True Pair Inr by (simp add: index_step del: index_objects.simps)
        have "add_entries (index_entries t (x # xs)) (indexed_size i db) = add_entries (index_entries t xs) (indexed_size i d)"
          using True s size by (simp add: add_entries_def index_entries_def)
        then show ?thesis unfolding run using Cons.IH [of d] by (auto split: prod.splits sum.splits)
      qed
    qed
  qed
qed

lemma entries_append: "add_entries (index_entries t (xs @ ys)) f = add_entries (index_entries t ys) (add_entries (index_entries t xs) f)"
  by (simp add: add_entries_def index_entries_def)

lemma index_pages_result:
  assumes "listed m env t token = Some l"
  shows "case index_pages m env n tenv now i t token db of
     (Inl e, d) \<Rightarrow> write_error e \<or> l = Inl e
   | (Inr u, d) \<Rightarrow> \<exists>xs. l = Inr xs \<and> indexed_size i d = add_entries (index_entries t xs) (indexed_size i db)"
  using assms
proof (induction m arbitrary: token l db)
  case (Suc m)
  show ?case
  proof (cases "s3_list env t (if token = Some [] then None else token)")
    case (Inl e)
    then show ?thesis using Suc.prems by (auto simp: fo_simps storage_result_def)
  next
    case (Inr p)
    obtain xs c where p: "p = (xs, c)" by (cases p)
    have start: "index_pages (Suc m) env n tenv now i t token db = fo_bind (index_objects env n tenv now i t xs)
        (\<lambda>_. case c of None \<Rightarrow> fo_return () | Some c \<Rightarrow> index_pages m env n tenv now i t (Some c)) db"
      using Inr p by (auto simp: fo_simps storage_result_def split: prod.split sum.split option.split)
    show ?thesis
    proof (cases "index_objects env n tenv now i t xs db")
      case (Pair r d)
      note page = index_objects_result [where env = env and n = n and tenv = tenv and now = now and i = i and t = t and xs = xs and db = db, unfolded Pair]
      show ?thesis
      proof (cases r)
        case (Inl e)
        then show ?thesis using start Pair page by (simp add: fo_bind_def)
      next
        case r: (Inr u)
        show ?thesis
        proof (cases c)
          case None
          then have "l = Inr xs" using Suc.prems Inr p by simp
          then show ?thesis using start Pair page r None by (simp add: fo_bind_def fo_return_def)
        next
          case (Some c)
          obtain l' where l': "listed m env t (Some c) = Some l'"
            using Suc.prems Inr p Some by (auto split: option.splits)
          have l: "l = (case l' of Inl e \<Rightarrow> Inl e | Inr ys \<Rightarrow> Inr (xs @ ys))"
            using Suc.prems Inr p Some l' by (auto split: sum.splits)
          have run: "index_pages (Suc m) env n tenv now i t token db = index_pages m env n tenv now i t (Some c) d"
            using start Pair r Some by (simp add: fo_bind_def)
          show ?thesis
            unfolding run using Suc.IH [OF l', of d] page r l
            by (auto simp: entries_append split: prod.splits sum.splits)
        qed
      qed
    qed
  qed
qed simp

text \<open>C15: The reindexing of a folder whose listing comes to an end returns, and unless the storage, the database
  or the task engine refuses something, the index of the folder is the listing: an object for each key with
  content that is not internal, under its key without the prefix and with its size, and no other.\<close>

theorem reindex_exact:
  assumes "getFolder env i db = (Inr f, db)" and "listed m env (lf_content f) (Some []) = Some l"
    and "reindexFolder m env n tenv now i db = (r, d)"
  shows "(case r of
        Inl e \<Rightarrow> l = Inl e \<or> (\<exists>s. e = FolderDatabase s) \<or> (\<exists>x. e = FolderEngine x)
      | Inr u \<Rightarrow> \<exists>xs. l = Inr xs \<and> indexed_size i d = map_of (rev (index_entries (lf_content f) xs)))
    \<and> (folder_tables db \<and> i \<noteq> j \<longrightarrow> folder_slice j d = folder_slice j db)"
proof
  have "others_kept j i db (snd (reindexFolder m env n tenv now i db))" by (rule fo_keepsD [OF others.keeps_reindex])
  then have "others_kept j i db d" using assms(3) by simp
  then show "folder_tables db \<and> i \<noteq> j \<longrightarrow> folder_slice j d = folder_slice j db" by (auto simp: others_kept_def)
  let ?db = "db\<lparr>object_rows := filter (\<lambda>x. obj_folderId x \<noteq> i) (object_rows db)\<rparr>"
  have run: "reindexFolder m env n tenv now i db = index_pages m env n tenv now i (lf_content f) (Some []) ?db"
    using assms(1) by (simp add: reindexFolder_def clear_objects_def fo_simps)
  have "find_object i k ?db = None" for k by (auto simp: find_object_def find_None_iff object_at_def)
  then have empty: "indexed_size i ?db = Map.empty" by (simp add: fun_eq_iff indexed_size_def)
  show "case r of
        Inl e \<Rightarrow> l = Inl e \<or> (\<exists>s. e = FolderDatabase s) \<or> (\<exists>x. e = FolderEngine x)
      | Inr u \<Rightarrow> \<exists>xs. l = Inr xs \<and> indexed_size i d = map_of (rev (index_entries (lf_content f) xs))"
    using index_pages_result [OF assms(2), where n = n and tenv = tenv and now = now and i = i and db = ?db] assms(3) unfolding run empty
    by (auto simp: write_error_def add_entries_def split: sum.splits)
qed

end
