(* ===== verification/Folder_Examples.thy ===== *)
theory Folder_Examples
  imports Folder_Pages Folder_Sharing Folder_Index Task_Examples "HOL-Library.Countable"
begin

text \<open>
  A folder of Alice in a bucket with a prefix, shared with Bob, and its objects: the properties of the
  folders at concrete states.
\<close>

section \<open>A listing\<close>

instance obj_column :: countable by countable_datatype
instance page_direction :: countable by countable_datatype
instance col_value :: countable by countable_datatype

definition demo_cursor_text :: "object_cursor \<Rightarrow> string" where
  "demo_cursor_text c = replicate (Suc (to_nat (cur_lastId c, cur_keys c, cur_direction c))) CHR ''x''"

definition demo_cursor_value :: "string \<Rightarrow> object_cursor option" where
  "demo_cursor_value t = (case from_nat (length t - 1) of (i, ks, d) \<Rightarrow> Some \<lparr>cur_lastId = i, cur_keys = ks, cur_direction = d\<rparr>)"

definition demo_listing :: listing_env where
  "demo_listing = \<lparr>text_less = id_less, ilike = (\<lambda>a b. True), cursor_text = demo_cursor_text, cursor_value = demo_cursor_value\<rparr>"

lemma demo_collation: "collation_ok demo_listing"
  using id_less_total id_less_trans by (auto simp: collation_ok_def demo_listing_def id_less_irrefl)

lemma demo_codec: "codec_ok demo_listing"
  by (simp add: codec_ok_def demo_listing_def demo_cursor_text_def demo_cursor_value_def)

definition demo_object :: "string \<Rightarrow> string \<Rightarrow> string \<Rightarrow> int \<Rightarrow> folder_object" where
  "demo_object i f k n = \<lparr>obj_id = i, obj_folderId = f, obj_objectKey = k, obj_filename = k, obj_eTag = ''e'', obj_sizeBytes = n,
     obj_lastModified = 0, obj_hash = None, obj_mimeType = ''text/plain'', obj_mediaType = ''DOCUMENT'', obj_contentMetadata = JObj [],
     obj_createdAt = 0, obj_updatedAt = 0\<rparr>"

definition demo_rows :: "folder_object list" where
  "demo_rows = [demo_object ''a'' ''f'' ''k'' 5, demo_object ''b'' ''f'' ''l'' 5, demo_object ''x'' ''g'' ''k'' 1, demo_object ''c'' ''f'' ''m'' 9]"

definition demo_query :: object_query where
  "demo_query = \<lparr>q_search = None, q_cursor = None, q_offset = 0, q_limit = 1, q_sort = [(SizeBytes, Desc)], q_media = []\<rparr>"

lemmas row_values = demo_rows_def demo_query_def demo_listing_def demo_object_def

lemma demo_sorted: "map obj_id (sorted_rows demo_listing ''f'' (demo_query\<lparr>q_cursor := c\<rparr>) demo_rows) = [''c'', ''a'', ''b'']"
  by (simp add: sorted_rows_def object_where_def sort_rows_def row_values)

lemma demo_distinct: "distinct (map obj_id demo_rows)"
  by (simp add: row_values)

theorem pages_complete_witness:
  "map obj_id (follow_pages demo_listing ''f'' 5 demo_query demo_rows) = [''c'', ''a'', ''b'']"
proof -
  have "demo_query\<lparr>q_cursor := None\<rparr> = demo_query" by (simp add: demo_query_def)
  then show ?thesis
    using pages_complete [OF demo_collation demo_codec demo_distinct, of demo_query 5 "''f''"] demo_sorted [of None]
    by (simp add: demo_query_def demo_rows_def)
qed

theorem previous_page_skips_witness:
  "\<exists>c p. listFolderObjects demo_listing ''f'' (demo_query\<lparr>q_cursor := Some c\<rparr>) demo_rows = Some p \<and> map obj_id (page_result p) = [''c'']"
proof -
  let ?c = "cursor_text demo_listing (row_cursor [(SizeBytes, Desc)] PreviousPage (sorted_rows demo_listing ''f'' demo_query demo_rows ! 2))"
  let ?q = "demo_query\<lparr>q_cursor := Some ?c\<rparr>"
  obtain x y z where rows: "sorted_rows demo_listing ''f'' demo_query demo_rows = [x, y, z]" "obj_id x = ''c''"
    using demo_sorted [of "q_cursor demo_query"] by (auto simp: map_eq_Cons_conv)
  have q: "q_limit demo_query = 1" "q_sort demo_query = [(SizeBytes, Desc)]" by (simp_all add: demo_query_def)
  have "\<exists>p. listFolderObjects demo_listing ''f'' ?q demo_rows = Some p \<and> page_result p = [x]"
    using previous_page_skips [OF demo_collation demo_codec demo_distinct, of ?q 2 "''f''"] by (auto simp: sorted_cursor rows q)
  then obtain p where "listFolderObjects demo_listing ''f'' ?q demo_rows = Some p" "page_result p = [x]" by blast
  then show ?thesis using rows(2) by (intro exI [of _ ?c] exI [of _ p]) simp
qed

section \<open>A shared folder\<close>

definition demo_location :: storage_location where
  "demo_location = \<lparr>loc_id = ''l'', loc_userId = ''al'', loc_kind = ''USER'', loc_label = [], loc_endpoint = ''e'', loc_endpointDomain = ''e'',
     loc_region = ''r'', loc_accessKeyId = ''i'', loc_secretAccessKey = ''s'', loc_accessKeyHashId = ''h'', loc_bucket = ''b'', loc_prefix = ''pre''\<rparr>"

definition demo_folder :: "string \<Rightarrow> string \<Rightarrow> folder" where
  "demo_folder i u = \<lparr>fld_id = i, fld_name = i, fld_ownerId = u, fld_contentLocationId = Some ''l'', fld_metadataLocationId = None,
     fld_accessError = None, fld_createdAt = 0, fld_updatedAt = 0\<rparr>"

definition demo_update :: "int \<Rightarrow> object_update" where
  "demo_update n = \<lparr>up_lastModified = Some 1, up_size = Some n, up_eTag = Some ''t'', up_mimeType = None\<rparr>"

definition demo_fenv :: folder_env where
  "demo_fenv = \<lparr>folder_uuid = (\<lambda>n. CHR ''n'' # replicate n (CHR ''y'')),
     embedded = Some \<lparr>trg_kind = [], trg_endpoint = ''e'', trg_region = ''r'', trg_accessKeyId = ''i'', trg_secretAccessKey = ''s'',
       trg_bucket = ''b'', trg_prefix = []\<rparr>,
     provisions = [], url_host = (\<lambda>e. Some e), key_hash = (\<lambda>a b c d. ''h''), platform_host = ''h'', preflight = (\<lambda>u a. Some (Some ''*'', Some ''get'')),
     s3_list = (\<lambda>t c. Inr ([(''pre/x'', demo_update 3), (''pre/.lombok_a'', demo_update 2), (''pre/k'', demo_update 7)], None)),
     s3_head = (\<lambda>t k. Inr (demo_update 4)), s3_delete = (\<lambda>t k. None), signed_url = (\<lambda>t m k. m @ CHR '' '' # k),
     mime_from_extension = (\<lambda>e. None), media_from_mime = (\<lambda>m. ''OTHER''), object_json = (\<lambda>x. JNull), listing = demo_listing\<rparr>"

definition demo_empty :: folder_db where
  "demo_empty = \<lparr>folders = [], shares = [], object_rows = [], preferences = [], locations = [], known_users = [''al'', ''bo'', ''ma''],
     references = [], folder_randoms = 0, storage_deletes = [], folder_notices = [], folder_engine = empty_db\<rparr>"

definition demo_fdb :: folder_db where
  "demo_fdb = demo_empty\<lparr>folders := [demo_folder ''f'' ''al'', demo_folder ''g'' ''ma''], locations := [demo_location],
     shares := [\<lparr>shr_folderId = ''f'', shr_userId = ''bo'', shr_permissions = []\<rparr>],
     object_rows := [demo_object ''a'' ''f'' ''k'' 5, demo_object ''x'' ''g'' ''k'' 1]\<rparr>"

lemmas folder_values = demo_fdb_def demo_empty_def demo_folder_def demo_location_def demo_object_def

lemma demo_tables: "folder_tables demo_fdb"
  by (simp add: folder_tables_def folder_values share_key_def row_key_def)

lemma demo_denied: "\<not> may_open ''ma'' ''f'' demo_fdb"
  by (simp add: may_open_def find_folder_def find_share_def folder_values)

theorem folder_tables_kept_witness:
  "folder_tables (snd (run_request demo_fenv 2 demo_env 5 ''t'' ''al'' (CreateFolder ''n'' BuiltinTarget BuiltinTarget) demo_empty))
   \<and> map fld_id (folders (snd (run_request demo_fenv 2 demo_env 5 ''t'' ''al'' (CreateFolder ''n'' BuiltinTarget BuiltinTarget) demo_empty))) = [''n'']"
proof
  show "folder_tables (snd (run_request demo_fenv 2 demo_env 5 ''t'' ''al'' (CreateFolder ''n'' BuiltinTarget BuiltinTarget) demo_empty))"
    by (rule folder_tables_kept [OF folder_reachable.requested]) (simp add: demo_empty_def folder_reachable.start)
qed code_simp

theorem folder_isolation_witness:
  "folder_slice ''f'' (snd (run_request demo_fenv 2 demo_env 5 ''t'' ''ma'' (OfFolder ''g'' (DeleteObject ''k'')) demo_fdb)) = folder_slice ''f'' demo_fdb
   \<and> map obj_id (object_rows (snd (run_request demo_fenv 2 demo_env 5 ''t'' ''ma'' (OfFolder ''g'' (DeleteObject ''k'')) demo_fdb))) = [''a'']
   \<and> isl (fst (run_request demo_fenv 2 demo_env 5 ''t'' ''ma'' (OfFolder ''f'' (PutShare ''ma'' OWNER_PERMISSIONS)) demo_fdb))
   \<and> run_request demo_fenv 2 demo_env 5 ''t'' ''ma'' (OfFolder ''f'' (ReadShare ''bo'')) demo_fdb = (Inr (), demo_fdb)"
proof -
  have "find_folder ''f'' demo_fdb \<noteq> None" by (simp add: find_folder_def folder_values)
  note isolated = folder_isolation [OF demo_tables this demo_denied, of demo_fenv 2 demo_env 5 "''t''"
      "OfFolder ''g'' (DeleteObject ''k'')"]
  moreover have "map obj_id (object_rows (snd (run_request demo_fenv 2 demo_env 5 ''t'' ''ma'' (OfFolder ''g'' (DeleteObject ''k'')) demo_fdb))) = [''a'']"
    by code_simp
  moreover have "find_share ''f'' ''bo'' demo_fdb \<noteq> None" by (simp add: find_share_def folder_values)
  ultimately show ?thesis
    using isolated [of "PutShare ''ma'' OWNER_PERMISSIONS"] isolated [of "ReadShare ''bo''"] by auto
qed

lemma open_result: "\<not> isl (fst (getFolderAsUser env actor i db)) \<Longrightarrow> \<exists>a. getFolderAsUser env actor i db = (Inr a, db)"
  by (cases rule: access_cases [of env actor i db]) auto

theorem shares_unguarded_witness:
  "permissions_of ''bo'' ''f'' demo_fdb = []
   \<and> (\<exists>d. upsertFolderShare demo_fenv ''bo'' ''f'' ''bo'' OWNER_PERMISSIONS demo_fdb = (Inr (), d) \<and> permissions_of ''bo'' ''f'' d = OWNER_PERMISSIONS)"
proof -
  have "\<not> isl (fst (getFolderAsUser demo_fenv ''bo'' ''f'' demo_fdb))" by code_simp
  then obtain a where a: "getFolderAsUser demo_fenv ''bo'' ''f'' demo_fdb = (Inr a, demo_fdb)" using open_result by blast
  have "lf_folder (acc_folder a) = demo_folder ''f'' ''al''" using opened [OF a] by (simp add: find_folder_def folder_values)
  then have "''bo'' \<noteq> fld_ownerId (lf_folder (acc_folder a))" by (simp add: demo_folder_def)
  moreover have "''bo'' \<in> set (known_users demo_fdb)" by (simp add: folder_values)
  ultimately have "\<exists>d. upsertFolderShare demo_fenv ''bo'' ''f'' ''bo'' OWNER_PERMISSIONS demo_fdb = (Inr (), d) \<and> permissions_of ''bo'' ''f'' d = OWNER_PERMISSIONS"
    using shares_unguarded [OF a] by blast
  moreover have "permissions_of ''bo'' ''f'' demo_fdb = []" by code_simp
  ultimately show ?thesis by simp
qed

abbreviation demo_urls :: "url_request list" where
  "demo_urls \<equiv> [\<lparr>url_object = ContentId ''k'', url_method = PUT, url_keepEncoded = False\<rparr>, \<lparr>url_object = MetadataId ''k'' ''h'', url_method = GET, url_keepEncoded = False\<rparr>]"

theorem signed_urls_confined_witness:
  "createPresignedUrlsAsUser demo_fenv ''al'' ''f'' demo_urls demo_fdb
     = (Inr [(''PUT pre/k'', ''k''), (''GET .lombok_provision__user_al_folder_f/.lombok_folder_metadata_f/k/h'', ''k'')], demo_fdb)
   \<and> OBJECT_EDIT \<in> set (permissions_of ''al'' ''f'' demo_fdb)"
proof -
  have "fst (createPresignedUrlsAsUser demo_fenv ''al'' ''f'' demo_urls demo_fdb)
     = Inr [(''PUT pre/k'', ''k''), (''GET .lombok_provision__user_al_folder_f/.lombok_folder_metadata_f/k/h'', ''k'')]"
    by code_simp
  then obtain d where run: "createPresignedUrlsAsUser demo_fenv ''al'' ''f'' demo_urls demo_fdb
     = (Inr [(''PUT pre/k'', ''k''), (''GET .lombok_provision__user_al_folder_f/.lombok_folder_metadata_f/k/h'', ''k'')], d)"
    by (metis prod.collapse)
  show ?thesis using signed_urls_confined [OF run] run by auto
qed

theorem folder_deletion_witness:
  "fst (deleteFolderAsUser demo_fenv ''al'' ''f'' demo_fdb) = Inl (FolderDatabase ''violates foreign key constraint'')
   \<and> snd (deleteFolderAsUser demo_fenv ''al'' ''f'' demo_fdb) = demo_fdb
   \<and> find_folder ''g'' (snd (deleteFolderAsUser demo_fenv ''ma'' ''g'' demo_fdb)) = None"
proof -
  have open': "\<not> isl (fst (getFolderAsUser demo_fenv ''al'' ''f'' demo_fdb))" "\<not> isl (fst (getFolderAsUser demo_fenv ''ma'' ''g'' demo_fdb))"
    by code_simp+
  have facts: "FOLDER_FORGET \<in> set (permissions_of ''al'' ''f'' demo_fdb)" "FOLDER_FORGET \<in> set (permissions_of ''ma'' ''g'' demo_fdb)"
    "folder_referenced ''f'' demo_fdb" "\<not> folder_referenced ''g'' demo_fdb"
    by code_simp+
  show ?thesis
    using folder_deletion [OF prod.collapse [symmetric] demo_tables, of demo_fenv "''al''" "''f''" "''g''"]
      folder_deletion [OF prod.collapse [symmetric] demo_tables, of demo_fenv "''ma''" "''g''" "''f''"] open' facts
    by (auto simp: isl_def split: sum.splits)
qed

theorem deletion_misses_object_witness:
  "map snd (storage_deletes (snd (deleteFolderObjectAsUser demo_fenv ''al'' ''f'' ''k'' demo_fdb))) = [''k'']
   \<and> (\<exists>a. getFolderAsUser demo_fenv ''al'' ''f'' demo_fdb = (Inr a, demo_fdb) \<and> joinStoragePrefix (trg_prefix (lf_content (acc_folder a))) ''k'' = ''pre/k'')"
proof -
  have "fst (deleteFolderObjectAsUser demo_fenv ''al'' ''f'' ''k'' demo_fdb) = Inr True" by code_simp
  then have run: "deleteFolderObjectAsUser demo_fenv ''al'' ''f'' ''k'' demo_fdb
      = (Inr True, snd (deleteFolderObjectAsUser demo_fenv ''al'' ''f'' ''k'' demo_fdb))"
    by (metis prod.collapse)
  obtain a where a: "getFolderAsUser demo_fenv ''al'' ''f'' demo_fdb = (Inr a, demo_fdb)"
    "storage_deletes (snd (deleteFolderObjectAsUser demo_fenv ''al'' ''f'' ''k'' demo_fdb)) = storage_deletes demo_fdb @ [(lf_content (acc_folder a), ''k'')]"
    using deletion_misses_object [OF run demo_tables] by blast
  have "trg_prefix (lf_content (acc_folder a)) = ''pre''"
  proof -
    have "(case fst (getFolderAsUser demo_fenv ''al'' ''f'' demo_fdb) of Inl e \<Rightarrow> [] | Inr a \<Rightarrow> trg_prefix (lf_content (acc_folder a))) = ''pre''"
      by code_simp
    then show ?thesis by (simp add: a(1))
  qed
  then show ?thesis using a by (auto simp: joinStoragePrefix_def ends_slash_def folder_values)
qed

theorem reindex_exact_witness:
  "fst (reindexFolder 1 demo_fenv 2 demo_env 9 ''f'' demo_fdb) = Inr ()
   \<and> indexed_size ''f'' (snd (reindexFolder 1 demo_fenv 2 demo_env 9 ''f'' demo_fdb)) = [''x'' \<mapsto> 3, ''k'' \<mapsto> 7]
   \<and> folder_slice ''g'' (snd (reindexFolder 1 demo_fenv 2 demo_env 9 ''f'' demo_fdb)) = folder_slice ''g'' demo_fdb"
proof -
  have ok: "fst (reindexFolder 1 demo_fenv 2 demo_env 9 ''f'' demo_fdb) = Inr ()" by code_simp
  obtain f where f: "getFolder demo_fenv ''f'' demo_fdb = (Inr f, demo_fdb)"
  proof (cases rule: get_folder_cases [of demo_fenv "''f''" demo_fdb])
    case (1 e)
    have "\<not> isl (fst (getFolder demo_fenv ''f'' demo_fdb))" by code_simp
    then show ?thesis using 1 by simp
  qed
  have "(case fst (getFolder demo_fenv ''f'' demo_fdb) of Inl e \<Rightarrow> [] | Inr f \<Rightarrow> index_entries (lf_content f)
      [(''pre/x'', demo_update 3), (''pre/.lombok_a'', demo_update 2), (''pre/k'', demo_update 7)]) = [(''x'', 3), (''k'', 7)]"
    by code_simp
  then have entries: "index_entries (lf_content f) [(''pre/x'', demo_update 3), (''pre/.lombok_a'', demo_update 2), (''pre/k'', demo_update 7)] = [(''x'', 3), (''k'', 7)]"
    by (simp add: f)
  have "listed 1 demo_fenv (lf_content f) (Some []) = Some (Inr [(''pre/x'', demo_update 3), (''pre/.lombok_a'', demo_update 2), (''pre/k'', demo_update 7)])"
    by (simp add: demo_fenv_def)
  then show ?thesis
    using reindex_exact [OF f _ prod.collapse [symmetric], of 1 _ 2 demo_env 9 "''g''"] ok demo_tables entries
    by (auto simp: fun_eq_iff)
qed

end
