(* ===== verification/Spec2Isabelle.thy ===== *)
theory Spec2Isabelle
  imports Prelude Framing Backpressure Sessions Adapter_Pool Tunnel_State Tunnel_Agent
    Tunnel_Requests Tunnel_Lifecycle Tunnel_System Tunnel_Accounting Tunnel_Settlement
    Tunnel_Wellformed Tunnel_Responses Tunnel_Properties Tunnel_Wire Tunnel_Effects
    Http Bridge_Auth Bridge_Traffic Bridge_Routes Bridge_Server Bridge_Ws Bridge_Refinement
    Bridge_Safety Bridge_Sockets Bridge_Examples
    Task_State Task_Env Task_Runners Task_Hooks Task_Jobs Task_Events Task_Lifecycle Task_Completion Task_Core Task_Store
    Task_Invariant Task_Operations Task_System Task_Requeue Task_Emission Task_Schedules
    Task_Drain Task_Atomic Task_Broadcast Task_Agent Task_Run Task_Examples Task_Run_Examples Notify_Content Notify_Engine Notify_Invariant Notify_Once Notify_Flow Notify_Deliver Notify_Texts Notify_Examples
    Auth_Codec Auth_State Auth_Session Auth_Users Auth_Service Auth_Frame Auth_Tables Auth_Tokens Auth_Guard Auth_Examples
    Folder_Listing Folder_Pages Folder_State Folder_Service Folder_Objects Folder_Requests Folder_Tables Folder_Sharing
    Folder_Index Folder_Examples
begin

text \<open>
  Verification of the core of the Lombok platform: the bridge between the platform and Docker
  (docker/docker-bridge), the task engine with its events, schedules, runners and job agents
  (packages/api, src/task, event, core-worker and docker), notifications (packages/api,
  src/notification), authentication and users (packages/api, src/auth and users), and folders with their
  objects (packages/api, src/folders).

  \<^bold>\<open>How the parts work together.\<close>  A request of a user passes the guard (\<open>Auth_Session.canActivate\<close>)
  and triggers a task, or reads and changes a folder (\<open>Folder_Service\<close>, \<open>Folder_Objects\<close>); the services emit events (\<open>Task_Events.emitEvent\<close>), and an event
  creates the tasks of the apps that subscribed to it and the tasks of the core.  The drain of the core
  tasks (\<open>Task_Core\<close>) runs their processors: the runners of worker and container tasks (\<open>Task_Runners\<close>),
  which complete a task of an app together with their own, and those of notifications
  (\<open>Notify_Engine\<close>).  The agent of a container reports to the hooks of its job (\<open>Task_Hooks\<close>).  The bridge is
  a process of its own: it holds sessions of containers, whose tunnel agent multiplexes HTTP and
  WebSocket traffic over one stream of frames.

  \<^bold>\<open>The bridge.\<close>  \<open>Framing\<close> models tunnel/protocol-parser.ts, tunnel/protocol.types.ts and docker/demux.ts
  (frames and the streams of Docker), \<open>Backpressure\<close> sessions/backpressure.ts, \<open>Sessions\<close>
  sessions/session-manager.ts, \<open>Adapter_Pool\<close> docker/adapter-pool.ts.  The handler of tunnel sessions
  (sessions/tunnel-session.ts) is one record, \<open>Tunnel_State.tunnel\<close>, with the operations of
  \<open>Tunnel_Agent\<close> (messages of the agent), \<open>Tunnel_Requests\<close> (requests to proxy) and \<open>Tunnel_Lifecycle\<close>
  (create, attach, resize, teardown); \<open>Tunnel_System\<close> is its step function, one step for each event of
  the process (a request, a message, a timer, a settled promise).  The properties of runs are proved of every
  regular sequence of steps (\<open>regular_run\<close>: ids are fresh, a list of hosts names each host once, and no write
  of a direct request fails after the request was settled): the concurrency limit and the accounting of its slots (\<open>Tunnel_Accounting\<close>), one
  answer for each request (\<open>Tunnel_Settlement\<close>), the invariants of the components (\<open>Tunnel_Wellformed\<close>).
  \<open>Tunnel_Properties\<close> has a run that is not regular and exceeds the limit.  \<open>Tunnel_Responses\<close> and
  \<open>Tunnel_Wire\<close> show how bodies are reassembled, and \<open>Tunnel_Effects\<close> what a detach and a teardown leave.
    \<open>Http\<close> has JSON values, headers and queries; \<open>Bridge_Auth\<close> auth.ts, tunnel/tunnel-auth.ts and config.ts;
  \<open>Bridge_Traffic\<close> tunnel/tunnel-traffic.ts; \<open>Bridge_Routes\<close> and \<open>Bridge_Server\<close> http-server.ts; \<open>Bridge_Ws\<close>
  ws-server.ts and the control messages of index.ts.  \<open>Bridge_Refinement\<close> shows that these servers change the
  state of the handler by its operations only; \<open>Bridge_Safety\<close> concludes that the invariants hold of the whole
  bridge and that requests without a credential leave no trace in its state (\<open>bridge_runs_safe\<close>); it and
  \<open>Bridge_Sockets\<close> say what single requests with and without credentials can do.

  \<^bold>\<open>The task engine.\<close>  \<open>Task_State\<close> has the table of tasks, the idempotency keys
  (task/util/task-idempotency-key.util.ts) and the buckets of schedules; \<open>Task_Env\<close> the database
  (\<open>task_db\<close>), transactions, and \<open>task_env\<close>, the parameters.  \<open>Task_Events\<close> models event.service.ts,
  \<open>Task_Lifecycle\<close> and \<open>Task_Completion\<close> task.service.ts, \<open>Task_Core\<close> core-task.service.ts, \<open>Task_Broadcast\<close>
  task-update-broadcaster.service.ts, \<open>Task_Runners\<close> the two runner processors and
  build-task-completions.util.ts, \<open>Task_Hooks\<close> docker-worker-hook.service.ts.  The interface of the proofs are
  the locales \<open>tx_relation\<close>, \<open>task_store\<close> (\<open>Task_Store\<close>), \<open>core_engine\<close> and \<open>task_frame\<close> (\<open>Task_Frame\<close>): what
  a relation has to satisfy to be kept by every operation.  They are interpreted by the invariant of the
  table (\<open>Task_Invariant\<close>, \<open>Task_Operations\<close>, \<open>Task_Jobs\<close>), by the rows a requeue leaves (\<open>Task_Requeue\<close>), and by
  the invariant of notifications.  \<open>Task_System\<close> runs any sequence of operations from the empty database.
  Functional results are in \<open>Task_Requeue\<close> (each outcome of a completion), \<open>Task_Emission\<close> (the events of a
  task that has to be run, and when their cascade ends), \<open>Task_Schedules\<close> (one task for each bucket),
  \<open>Task_Drain\<close>, \<open>Task_Atomic\<close> (completions are all or nothing), \<open>Task_Agent\<close> and \<open>Task_Run\<close> (a worker task
  from its trigger to its end).

  \<^bold>\<open>Notifications.\<close>  \<open>Notify_Content\<close> has the texts, \<open>Notify_Engine\<close> the decision on a batch, the
  settings of users and the three processors; \<open>Notify_Invariant\<close> and \<open>Notify_Once\<close> show that an event is
  reported once and an email sent once, together with all other operations of the engine; \<open>Notify_Flow\<close>
  that a batch is reported, put off (seventy times at most) or, when its run throws, left as it is;
  \<open>Notify_Deliver\<close> which deliveries and emails
  result; \<open>Notify_Texts\<close> what texts and settings satisfy.

  \<^bold>\<open>Authentication.\<close>  \<open>Auth_Codec\<close> models hashed-token-helper.ts, the base 64 coding under it and the dates of
  sessions (date.util.ts); \<open>Auth_State\<close> the tables of users, sessions and identities and jwt.service.ts;
  \<open>Auth_Session\<close> session.service.ts and auth.guard.ts; \<open>Auth_Users\<close> users.service.ts and the validation of
  names; \<open>Auth_Service\<close> auth.service.ts, with \<open>auth_step\<close>, one step for each call.  \<open>Auth_Frame\<close> has the
  locales \<open>auth_frame\<close> and \<open>auth_admin_frame\<close>, which \<open>Auth_Tables\<close> interprets by the invariant of the tables and
  by the rights of accounts, \<open>Auth_Tokens\<close> by the secrets of sessions, and \<open>Auth_Guard\<close> by a session that other
  calls leave alone; \<open>Auth_Guard\<close> follows a token from a login to the guard and to the refresh of its session.  Its operations are not in transactions, as in the code.

  \<^bold>\<open>Folders.\<close>  \<open>Folder_Listing\<close> has the pages of the objects of a folder (order, keyset condition and
  cursors of \<open>listFolderObjectsAsUser\<close>) and \<open>Folder_Pages\<close> what following the cursors gives; \<open>Folder_State\<close> the
  tables of folders, shares, objects, stars and storage locations and the resolution of a location,
  \<open>Folder_Service\<close> and \<open>Folder_Objects\<close> the operations of folder.service.ts, \<open>Folder_Requests\<close> the requests of its
  controller.  The locale \<open>folder_frame\<close> (\<open>Folder_Tables\<close>) has what the writes to one folder keep; its instances
  are the well-formedness of the tables and the rows of all other folders.  \<open>Folder_Sharing\<close> shows who can do
  what to a folder and what deletions do, \<open>Folder_Index\<close> what a reindexing leaves.  An emission of an event runs
  in the database of the task engine, a field of that of the folders.

  \<^bold>\<open>Conventions.\<close>  A string is a sequence of bytes; \<open>toLowerCase\<close> and \<open>\w\<close> are those of ASCII.  JSON is a
  datatype, with rational numbers; a missing property is \<open>None\<close>.  Errors are values of a sum type; an
  operation on a database is a function to a result or an exception and the database it leaves.  Each
  operation reads the clock once, as an argument in milliseconds.  Operations on a database are atomic: two
  requests interleave between operations, not inside one.  \<open>Promise.all\<close> runs its callbacks in the order of the
  list; a query without an order gives its rows in the order of the table.  The telemetry of a task is
  emitted after the transaction that encloses it.  Log entries are left out.  Local time has one constant offset
  to UTC (no daylight saving), and the expiry that a provider's sign-up data carries is a date.

  \<^bold>\<open>Parameters.\<close>  Libraries and services are arguments: signatures and hashes (jose, HMAC, SHA-1, SHA-512,
  PBKDF2), random identifiers and secrets (a function of the number of the draw), \<open>JSON.parse\<close> of agent
  messages, the Docker client, the processors of other core tasks, the execution in a worker or a container,
  the email provider, cron expressions, the provider accounts, the object storage with its
  signed URLs, the collation of the database and the coding of a cursor, MIME types, and the rows of apps and
  settings that are only read.  Where a property needs more of them its hypothesis says what: different
  identifiers for different draws, a processor that keeps the invariant, different hashes for different secrets
  (\<open>Auth_Tokens.fresh_hashes\<close>), tokens that decode and verify as they were signed (\<open>Auth_Guard.jose_ok\<close>),
  a collation that is a total order and cursors that decode (\<open>Folder_Pages.collation_ok\<close>, \<open>codec_ok\<close>).  The
  theories \<open>Bridge_Examples\<close>, \<open>Task_Examples\<close>, \<open>Task_Run_Examples\<close>, \<open>Notify_Examples\<close>, \<open>Auth_Examples\<close> and
  \<open>Folder_Examples\<close> apply the properties to concrete installations in which the hypotheses hold.

  \<^bold>\<open>Fuel.\<close>  An emitted event may create tasks whose creation emits events again; the recursion of
  \<open>emitEvent\<close> takes fuel and ends with \<open>NoReturn\<close> without it.  Fuel 2 is enough when no app subscribes to the
  enqueue event of the core (\<open>Task_Emission.emission_terminates\<close>); with an app that does, the cascade of the
  code has no end either (\<open>Task_Emission.emission_never_returns\<close>).  The drain takes one round for each waiting
  task (\<open>Task_Drain.drain_completes\<close>), a reindexing one for each page of its listing (\<open>Folder_Index.listed\<close>).  All
  other loops are structural.

  \<^bold>\<open>Not modelled.\<close>  Pure input and output: the Docker client, sockets and sandboxes, loggers, the user
  interface, generated clients.  Queries and CRUD handlers that are SQL or S3 calls with little logic of their
  own: comments, search, MCP, the lists of folders, tasks, events, notifications and users, icons and avatars,
  the metadata of objects, the settings of apps for a user or a folder, the access keys of storage locations.  The installation of apps, the resolution of containers and the signing of
  URLs are parameters of the engine.
\<close>

end
